(* ===== verification/Kotoji_Prelude.thy ===== *)
theory Kotoji_Prelude
  imports Main "HOL-Library.Sublist"
begin

text \<open>
  The prelude of the kotoji development: the Go string operations the backend uses,
  modelled on byte strings (\<^typ>\<open>string\<close>, a list of 8-bit characters), the generic
  lemmas on lists, options and finite maps that the components share, and the
  \<^theory_text>\<open>named_theorems\<close> collections their proofs are driven by.

  A Go \<open>string\<close> or \<open>[]byte\<close> is a list of bytes. Case mapping and white space are
  modelled on the ASCII range, which is Go's own fast path: \<open>strings.ToLower\<close> and
  \<open>strings.TrimSpace\<close> on a string whose bytes are all below 128 do exactly what
  \<open>go_lower\<close> and \<open>trim_space\<close> do. Bytes from 128 up are left alone.
\<close>

named_theorems go_str \<open>characteristic facts of the Go string operations\<close>
named_theorems go_map \<open>lookups in an updated Go map\<close>
named_theorems go_map_wf \<open>operations that keep the keys of a Go map distinct\<close>

section \<open>Characters\<close>

definition lower_char :: "char \<Rightarrow> char" where
  "lower_char c =
     (let n = (of_char c :: nat) in if 65 \<le> n \<and> n \<le> 90 then char_of (n + 32) else c)"

definition is_alnum_lower :: "char \<Rightarrow> bool" where
  "is_alnum_lower c =
     (let n = (of_char c :: nat) in (97 \<le> n \<and> n \<le> 122) \<or> (48 \<le> n \<and> n \<le> 57))"

definition is_space :: "char \<Rightarrow> bool" where
  "is_space c = (let n = (of_char c :: nat) in n = 32 \<or> (9 \<le> n \<and> n \<le> 13))"

section \<open>Strings\<close>

definition go_lower :: "string \<Rightarrow> string" where
  "go_lower s = map lower_char s"

definition trim_left :: "(char \<Rightarrow> bool) \<Rightarrow> string \<Rightarrow> string" where
  "trim_left p s = dropWhile p s"

definition trim_right :: "(char \<Rightarrow> bool) \<Rightarrow> string \<Rightarrow> string" where
  "trim_right p s = rev (dropWhile p (rev s))"

definition trim_space :: "string \<Rightarrow> string" where
  "trim_space s = trim_right is_space (trim_left is_space s)"

definition has_prefix :: "string \<Rightarrow> string \<Rightarrow> bool" where
  "has_prefix s p = (take (length p) s = p)"

definition has_suffix :: "string \<Rightarrow> string \<Rightarrow> bool" where
  "has_suffix s p = has_prefix (rev s) (rev p)"

definition trim_prefix :: "string \<Rightarrow> string \<Rightarrow> string" where
  "trim_prefix s p = (if has_prefix s p then drop (length p) s else s)"

definition trim_suffix :: "string \<Rightarrow> string \<Rightarrow> string" where
  "trim_suffix s p = (if has_suffix s p then take (length s - length p) s else s)"

text \<open>\<open>strings.Index\<close>: the first position of a substring, if any.\<close>

fun str_index :: "string \<Rightarrow> string \<Rightarrow> nat option" where
  "str_index [] p = (if p = [] then Some 0 else None)"
| "str_index (c # s) p =
     (if has_prefix (c # s) p then Some 0 else map_option Suc (str_index s p))"

definition contains :: "string \<Rightarrow> string \<Rightarrow> bool" where
  "contains s p = (str_index s p \<noteq> None)"

text \<open>\<open>strings.IndexByte\<close> and \<open>strings.LastIndexByte\<close>.\<close>

fun index_byte :: "string \<Rightarrow> char \<Rightarrow> nat option" where
  "index_byte [] c = None"
| "index_byte (x # s) c = (if x = c then Some 0 else map_option Suc (index_byte s c))"

definition last_index_byte :: "string \<Rightarrow> char \<Rightarrow> nat option" where
  "last_index_byte s c = map_option (\<lambda>i. length s - 1 - i) (index_byte (rev s) c)"

text \<open>\<open>strings.Split\<close> on a one-byte separator, and \<open>strings.Join\<close>.\<close>

fun split_on :: "char \<Rightarrow> string \<Rightarrow> string list" where
  "split_on c [] = [[]]"
| "split_on c (x # s) =
     (if x = c then [] # split_on c s
      else (case split_on c s of [] \<Rightarrow> [[x]] | w # ws \<Rightarrow> (x # w) # ws))"

fun join_with :: "string \<Rightarrow> string list \<Rightarrow> string" where
  "join_with sep [] = []"
| "join_with sep [w] = w"
| "join_with sep (w # v # ws) = w @ sep @ join_with sep (v # ws)"

section \<open>Facts: characters and case mapping\<close>

lemma lower_char_idem [simp]: "lower_char (lower_char c) = lower_char c"
  by (auto simp: lower_char_def Let_def)

lemma lower_char_alnum [simp]: "is_alnum_lower c \<Longrightarrow> lower_char c = c"
  by (auto simp: lower_char_def is_alnum_lower_def Let_def)

lemma lower_char_eq_nonalpha:
  "lower_char c = d \<Longrightarrow> (of_char d :: nat) < 65 \<Longrightarrow> c = d"
  by (auto simp: lower_char_def Let_def split: if_splits)

lemma go_lower_idem [simp]: "go_lower (go_lower s) = go_lower s"
  by (simp add: go_lower_def)

lemma go_lower_length [simp]: "length (go_lower s) = length s"
  by (simp add: go_lower_def)

lemma go_lower_append [simp]: "go_lower (s @ t) = go_lower s @ go_lower t"
  by (simp add: go_lower_def)

lemma go_lower_empty_iff [simp]: "go_lower s = [] \<longleftrightarrow> s = []"
  by (simp add: go_lower_def)

lemma go_lower_fixed: "(\<And>c. c \<in> set s \<Longrightarrow> lower_char c = c) \<Longrightarrow> go_lower s = s"
  by (simp add: go_lower_def map_idI)

section \<open>Facts: prefixes, suffixes and trimming\<close>

lemma has_prefix_iff [go_str]: "has_prefix s p \<longleftrightarrow> (\<exists>t. s = p @ t)"
  unfolding has_prefix_def by (metis append_eq_conv_conj append_take_drop_id)

lemma has_prefix_append [simp]: "has_prefix (p @ s) p"
  by (simp add: has_prefix_def)

lemma has_prefix_Nil [simp]: "has_prefix s []"
  by (simp add: has_prefix_def)

lemma has_prefix_of_Nil [simp]: "has_prefix [] p \<longleftrightarrow> p = []"
  by (auto simp: has_prefix_def)

lemma has_prefix_Cons [simp]:
  "has_prefix (c # s) (d # p) \<longleftrightarrow> c = d \<and> has_prefix s p"
  by (auto simp: has_prefix_def)

lemma has_suffix_iff [go_str]: "has_suffix s p \<longleftrightarrow> (\<exists>t. s = t @ p)"
  unfolding has_suffix_def has_prefix_iff by (metis rev_append rev_rev_ident)

lemma has_suffix_append [simp]: "has_suffix (s @ p) p"
  by (auto simp: has_suffix_iff)

lemma trim_suffix_append [simp]: "trim_suffix (s @ p) p = s"
  by (simp add: trim_suffix_def)

lemma trim_prefix_append [simp]: "trim_prefix (p @ s) p = s"
  by (simp add: trim_prefix_def)

lemma trim_right_set: "set (trim_right p s) \<subseteq> set s"
  unfolding trim_right_def using set_dropWhileD by fastforce

lemma trim_space_set: "set (trim_space s) \<subseteq> set s"
  unfolding trim_space_def trim_left_def
  using set_dropWhileD trim_right_set by fastforce

lemma trim_right_id: "s = [] \<or> \<not> p (last s) \<Longrightarrow> trim_right p s = s"
  by (cases s rule: rev_cases) (auto simp: trim_right_def)

lemma trim_left_id: "s = [] \<or> \<not> p (hd s) \<Longrightarrow> trim_left p s = s"
  by (cases s) (auto simp: trim_left_def)

lemma trim_space_id:
  "(\<And>c. c \<in> set s \<Longrightarrow> \<not> is_space c) \<Longrightarrow> trim_space s = s"
proof -
  assume nosp: "\<And>c. c \<in> set s \<Longrightarrow> \<not> is_space c"
  have "trim_left is_space s = s"
    by (rule trim_left_id) (use nosp hd_in_set in blast)
  moreover have "trim_right is_space s = s"
    by (rule trim_right_id) (use nosp last_in_set in blast)
  ultimately show ?thesis by (simp add: trim_space_def)
qed

section \<open>Facts: searching\<close>

lemma str_index_Some:
  "str_index s p = Some i \<Longrightarrow> i + length p \<le> length s \<and> s = take i s @ p @ drop (i + length p) s"
proof (induction s arbitrary: i)
  case Nil
  then show ?case by (auto split: if_splits)
next
  case (Cons c s)
  show ?case
  proof (cases "has_prefix (c # s) p")
    case True
    with Cons.prems have "i = 0" by simp
    moreover obtain t where t: "c # s = p @ t" using True by (auto simp: has_prefix_iff)
    ultimately show ?thesis by (simp add: t del: length_Cons)
  next
    case False
    with Cons.prems obtain j where "str_index s p = Some j" and "i = Suc j" by auto
    with Cons.IH show ?thesis by simp
  qed
qed

lemma str_index_prefix: "has_prefix s p \<Longrightarrow> str_index s p = Some 0"
  by (cases s) auto

lemma contains_iff [go_str]: "contains s p \<longleftrightarrow> (\<exists>a b. s = a @ p @ b)"
proof
  assume "contains s p"
  then obtain i where "str_index s p = Some i"
    by (auto simp: contains_def)
  then show "\<exists>a b. s = a @ p @ b"
    using str_index_Some by blast
next
  assume "\<exists>a b. s = a @ p @ b"
  then obtain a b where "s = a @ p @ b" by blast
  then show "contains s p"
  proof (induction a arbitrary: s)
    case Nil
    then show ?case by (simp add: contains_def str_index_prefix)
  next
    case (Cons x a)
    then show ?case by (auto simp: contains_def)
  qed
qed

lemma not_contains_Cons: "\<not> contains (c # s) p \<Longrightarrow> \<not> contains s p"
  by (metis append_Cons contains_iff)

lemma contains_appendL: "contains s p \<Longrightarrow> contains (s @ t) p"
  by (force simp: contains_iff)

lemma contains_appendR: "contains t p \<Longrightarrow> contains (s @ t) p"
  unfolding contains_iff by (metis append.assoc)

lemma contains_single [simp]: "contains s [c] \<longleftrightarrow> c \<in> set s"
  by (auto simp: contains_iff in_set_conv_decomp)

lemma str_index_None: "str_index s p = None \<longleftrightarrow> \<not> contains s p"
  by (simp add: contains_def)

text \<open>The first occurrence of a separator that cannot start inside the text before it.\<close>

lemma str_index_after:
  "\<not> contains (a @ butlast p) p \<Longrightarrow> p \<noteq> [] \<Longrightarrow> str_index (a @ p @ b) p = Some (length a)"
proof (induction a)
  case Nil
  then show ?case by (cases p) auto
next
  case (Cons c a)
  have "\<not> has_prefix ((c # a) @ p @ b) p"
  proof
    assume h: "has_prefix ((c # a) @ p @ b) p"
    have "length p \<le> length ((c # a) @ butlast p)" using Cons.prems by simp
    moreover have "(c # a) @ p @ b = ((c # a) @ butlast p) @ [last p] @ b"
      using Cons.prems by simp
    ultimately have "take (length p) ((c # a) @ p @ b) = take (length p) ((c # a) @ butlast p)"
      by (simp only: take_append) simp
    with h have "take (length p) ((c # a) @ butlast p) = p" by (simp add: has_prefix_def)
    then have "has_prefix ((c # a) @ butlast p) p" by (simp add: has_prefix_def)
    then have "contains ((c # a) @ butlast p) p" by (metis append_Nil contains_iff has_prefix_iff)
    with Cons.prems show False by simp
  qed
  moreover have "\<not> contains (a @ butlast p) p" using Cons.prems not_contains_Cons by simp
  ultimately show ?case using Cons.IH Cons.prems by simp
qed

lemma index_byte_None [simp]: "index_byte s c = None \<longleftrightarrow> c \<notin> set s"
  by (induction s) auto

lemma index_byte_append: "c \<notin> set a \<Longrightarrow> index_byte (a @ c # b) c = Some (length a)"
  by (induction a) auto

lemma index_byte_Some:
  "index_byte s c = Some i \<Longrightarrow> s = take i s @ c # drop (Suc i) s \<and> c \<notin> set (take i s) \<and> i < length s"
  by (induction s arbitrary: i) (auto split: if_splits)

lemma last_index_byte_None [simp]: "last_index_byte s c = None \<longleftrightarrow> c \<notin> set s"
  by (simp add: last_index_byte_def)

lemma last_index_byte_append: "c \<notin> set b \<Longrightarrow> last_index_byte (a @ c # b) c = Some (length a)"
  by (simp add: last_index_byte_def index_byte_append)

lemma last_index_byte_Some:
  assumes "last_index_byte s c = Some i"
  shows "s = take i s @ c # drop (Suc i) s \<and> c \<notin> set (drop (Suc i) s) \<and> i < length s"
proof -
  have "c \<in> set s" using assms by (metis last_index_byte_None option.distinct(1))
  then obtain a b where s: "s = a @ c # b" and "c \<notin> set b"
    by (meson split_list_last)
  then have "i = length a" using assms last_index_byte_append by fastforce
  with s \<open>c \<notin> set b\<close> show ?thesis by simp
qed

section \<open>Facts: splitting and joining\<close>

lemma split_on_nonempty [simp]: "split_on c s \<noteq> []"
  by (induction s) (auto split: list.splits)

lemma split_on_join [simp]: "join_with [c] (split_on c s) = s"
proof (induction s)
  case Nil
  show ?case by simp
next
  case (Cons x s)
  then show ?case
    by (cases "split_on c s"; cases "tl (split_on c s)") auto
qed

lemma split_on_no_sep: "w \<in> set (split_on c s) \<Longrightarrow> c \<notin> set w"
  by (induction s arbitrary: w) (auto split: if_splits list.splits)

lemma split_on_single: "c \<notin> set s \<Longrightarrow> split_on c s = [s]"
  by (induction s) auto

lemma split_on_append: "split_on c (a @ c # b) = split_on c a @ split_on c b"
proof (induction a)
  case Nil
  show ?case by simp
next
  case (Cons x a)
  then show ?case by (cases "split_on c a") auto
qed

lemma join_split:
  "ws \<noteq> [] \<Longrightarrow> (\<And>w. w \<in> set ws \<Longrightarrow> c \<notin> set w) \<Longrightarrow> split_on c (join_with [c] ws) = ws"
proof (induction "[c]" ws rule: join_with.induct)
  case 1
  then show ?case by simp
next
  case (2 w)
  then show ?case by (simp add: split_on_single)
next
  case (3 w v ws)
  then show ?case by (simp add: split_on_append split_on_single)
qed

lemma join_with_append:
  "xs \<noteq> [] \<Longrightarrow> ys \<noteq> [] \<Longrightarrow> join_with sep (xs @ ys) = join_with sep xs @ sep @ join_with sep ys"
proof (induction sep xs rule: join_with.induct)
  case (2 sep w)
  then show ?case by (cases ys) auto
qed auto

section \<open>Go maps\<close>

text \<open>
  A Go \<open>map[K]V\<close> is an association list with distinct keys (\<open>gm_wf\<close>), so that
  \<open>len\<close> and \<open>range\<close> are executable. The order of the list carries no meaning.
\<close>

type_synonym ('k, 'v) gomap = "('k \<times> 'v) list"

definition gm_wf :: "('k, 'v) gomap \<Rightarrow> bool" where
  "gm_wf m = distinct (map fst m)"

definition gm_get :: "('k, 'v) gomap \<Rightarrow> 'k \<Rightarrow> 'v option" where
  "gm_get m k = map_of m k"

definition gm_filter :: "('k \<Rightarrow> 'v \<Rightarrow> bool) \<Rightarrow> ('k, 'v) gomap \<Rightarrow> ('k, 'v) gomap" where
  "gm_filter P m = filter (\<lambda>p. P (fst p) (snd p)) m"

definition gm_del :: "'k \<Rightarrow> ('k, 'v) gomap \<Rightarrow> ('k, 'v) gomap" where
  "gm_del k m = filter (\<lambda>p. fst p \<noteq> k) m"

definition gm_put :: "'k \<Rightarrow> 'v \<Rightarrow> ('k, 'v) gomap \<Rightarrow> ('k, 'v) gomap" where
  "gm_put k v m = (k, v) # gm_del k m"

definition gm_len :: "('k, 'v) gomap \<Rightarrow> nat" where
  "gm_len m = length m"

definition gm_keys :: "('k, 'v) gomap \<Rightarrow> 'k list" where
  "gm_keys m = map fst m"

lemma gm_get_Nil [simp, go_map]: "gm_get [] k = None"
  by (simp add: gm_get_def)

lemma gm_get_del [simp, go_map]: "gm_get (gm_del k m) k' = (if k' = k then None else gm_get m k')"
  by (induction m) (auto simp: gm_get_def gm_del_def)

lemma gm_get_put [simp, go_map]: "gm_get (gm_put k v m) k' = (if k' = k then Some v else gm_get m k')"
  using gm_get_del [of k m k'] by (auto simp: gm_get_def gm_put_def)

lemma gm_get_filter [go_map]:
  "gm_wf m \<Longrightarrow> gm_get (gm_filter P m) k =
     (case gm_get m k of Some v \<Rightarrow> if P k v then Some v else None | None \<Rightarrow> None)"
  by (induction m) (auto simp: gm_get_def gm_filter_def gm_wf_def map_of_eq_None_iff image_iff
      split: option.splits dest!: map_of_SomeD)

lemma gm_wf_Nil [simp, go_map_wf]: "gm_wf []"
  by (simp add: gm_wf_def)

lemma gm_wf_del [simp, go_map_wf]: "gm_wf m \<Longrightarrow> gm_wf (gm_del k m)"
  by (simp add: gm_wf_def gm_del_def distinct_map_filter)

lemma gm_wf_filter [simp, go_map_wf]: "gm_wf m \<Longrightarrow> gm_wf (gm_filter P m)"
  by (simp add: gm_wf_def gm_filter_def distinct_map_filter)

lemma gm_wf_put [simp, go_map_wf]: "gm_wf m \<Longrightarrow> gm_wf (gm_put k v m)"
  using gm_wf_del [of m k] by (auto simp: gm_wf_def gm_put_def gm_del_def)

lemma gm_len_put_le: "gm_len (gm_put k v m) \<le> Suc (gm_len m)"
  by (simp add: gm_len_def gm_put_def gm_del_def)

lemma gm_len_filter_le: "gm_len (gm_filter P m) \<le> gm_len m"
  by (simp add: gm_len_def gm_filter_def)

lemma gm_keys_get: "k \<in> set (gm_keys m) \<longleftrightarrow> gm_get m k \<noteq> None"
  by (auto simp: gm_keys_def gm_get_def map_of_eq_None_iff)

lemma gm_get_in: "gm_get m k = Some v \<Longrightarrow> (k, v) \<in> set m"
  by (simp add: gm_get_def map_of_SomeD)

lemma gm_in_get: "gm_wf m \<Longrightarrow> (k, v) \<in> set m \<Longrightarrow> gm_get m k = Some v"
  by (simp add: gm_wf_def gm_get_def)

lemma gm_set_iff: "gm_wf m \<Longrightarrow> (k, v) \<in> set m \<longleftrightarrow> gm_get m k = Some v"
  using gm_get_in gm_in_get by fastforce

lemma gm_get_Cons [go_map]: "gm_get ((a, b) # m) k = (if k = a then Some b else gm_get m k)"
  by (simp add: gm_get_def)

lemma gm_wf_distinct: "gm_wf m \<Longrightarrow> distinct m"
  by (simp add: gm_wf_def distinct_map)

lemma find_SomeD: "find P xs = Some x \<Longrightarrow> x \<in> set xs \<and> P x"
  by (induction xs) (auto split: if_splits)

end
