(* ===== verification/Go_Paths.thy ===== *)
theory Go_Paths
  imports Kotoji_Prelude
begin

text \<open>
  The part of Go's \<open>path\<close> and (Unix) \<open>path/filepath\<close> packages that the backend calls:
  \<open>path.Clean\<close>, \<open>path.Ext\<close>, \<open>filepath.IsLocal\<close> and \<open>filepath.Join\<close> of two elements.
  A path is a byte string; \<open>path.Clean\<close> is modelled by its documented rules on the list
  of elements between slashes (drop empty and "." elements, let ".." cancel the element
  before it, drop ".." at the root of a rooted path).
\<close>

abbreviation slash :: char where
  "slash \<equiv> CHR ''/''"

abbreviation dot :: string where
  "dot \<equiv> ''.''"

abbreviation dotdot :: string where
  "dotdot \<equiv> ''..''"

section \<open>Definitions\<close>

text \<open>One element of the path against the stack of kept elements (top first).\<close>

definition clean_step :: "bool \<Rightarrow> string list \<Rightarrow> string \<Rightarrow> string list" where
  "clean_step rooted st seg =
     (if seg = [] \<or> seg = dot then st
      else if seg = dotdot then
        (case st of
           [] \<Rightarrow> (if rooted then [] else [dotdot])
         | t # rest \<Rightarrow> (if t = dotdot then dotdot # st else rest))
      else seg # st)"

definition clean_segs :: "bool \<Rightarrow> string list \<Rightarrow> string list" where
  "clean_segs rooted segs = rev (foldl (clean_step rooted) [] segs)"

definition path_clean :: "string \<Rightarrow> string" where
  "path_clean p =
     (let rooted = has_prefix p [slash];
          body = join_with [slash] (clean_segs rooted (split_on slash p))
      in if rooted then slash # body else if body = [] then dot else body)"

text \<open>\<open>path.Ext\<close>: from the last dot of the last element on.\<close>

definition path_ext :: "string \<Rightarrow> string" where
  "path_ext p =
     (let base = takeWhile (\<lambda>c. c \<noteq> slash) (rev p)
      in if CHR ''.'' \<in> set base
         then CHR ''.'' # rev (takeWhile (\<lambda>c. c \<noteq> CHR ''.'') base) else [])"

text \<open>\<open>filepath.IsLocal\<close> on Unix.\<close>

definition is_local :: "string \<Rightarrow> bool" where
  "is_local p =
     (if p = [] \<or> has_prefix p [slash] then False
      else let segs = split_on slash p;
               q = (if dot \<in> set segs \<or> dotdot \<in> set segs then path_clean p else p)
           in \<not> (q = dotdot \<or> has_prefix q ''../''))"

text \<open>\<open>filepath.Join(root, p)\<close>: empty elements are dropped, the rest is cleaned.\<close>

definition path_join :: "string \<Rightarrow> string \<Rightarrow> string" where
  "path_join root p =
     (if root = [] then (if p = [] then [] else path_clean p)
      else if p = [] then path_clean root
      else path_clean (root @ [slash] @ p))"

text \<open>The elements of a path are plain when none is empty, "." or "..".\<close>

definition plain_seg :: "string \<Rightarrow> bool" where
  "plain_seg seg = (seg \<noteq> [] \<and> seg \<noteq> dot \<and> seg \<noteq> dotdot \<and> slash \<notin> set seg)"

section \<open>Cleaning keeps a normal form\<close>

text \<open>
  The stack during cleaning: plain elements on top of a block of ".." elements, which is
  empty for a rooted path.
\<close>

definition clean_stack :: "bool \<Rightarrow> string list \<Rightarrow> bool" where
  "clean_stack rooted st =
     (\<exists>ups xs. st = xs @ ups \<and> list_all plain_seg xs \<and> (\<forall>u \<in> set ups. u = dotdot)
        \<and> (rooted \<longrightarrow> ups = []))"

lemma plain_seg_simps [simp]: "\<not> plain_seg dotdot" "\<not> plain_seg dot" "\<not> plain_seg []"
  by (simp_all add: plain_seg_def)

lemma clean_step_stack:
  assumes "clean_stack rooted st" and "slash \<notin> set seg"
  shows "clean_stack rooted (clean_step rooted st seg)"
proof -
  obtain ups xs where st: "st = xs @ ups" "list_all plain_seg xs" "\<forall>u \<in> set ups. u = dotdot"
      "rooted \<longrightarrow> ups = []"
    using assms(1) by (auto simp: clean_stack_def)
  consider "seg = [] \<or> seg = dot" | "seg = dotdot" "xs = []" | x xs' where "seg = dotdot" "xs = x # xs'"
    | "plain_seg seg"
    using assms(2) by (cases xs) (auto simp: plain_seg_def)
  then show ?thesis
  proof cases
    case 1
    then show ?thesis using assms(1) by (auto simp: clean_step_def)
  next
    case 2
    then have "clean_step rooted st seg = (if rooted then [] else dotdot # ups)"
      using st by (cases ups) (auto simp: clean_step_def)
    moreover have "clean_stack rooted (if rooted then [] else dotdot # ups)"
      unfolding clean_stack_def
      by (rule exI [of _ "if rooted then [] else dotdot # ups"], rule exI [of _ "[]"])
        (use st in auto)
    ultimately show ?thesis by simp
  next
    case 3
    then have "x \<noteq> dotdot" using st by auto
    then have "clean_step rooted st seg = xs' @ ups" using 3 st by (simp add: clean_step_def)
    then show ?thesis using st 3 by (auto simp: clean_stack_def)
  next
    case 4
    then have "clean_step rooted st seg = (seg # xs) @ ups"
      using st by (auto simp: clean_step_def plain_seg_def)
    moreover have "clean_stack rooted ((seg # xs) @ ups)"
      unfolding clean_stack_def
      by (rule exI [of _ ups], rule exI [of _ "seg # xs"]) (use st 4 in auto)
    ultimately show ?thesis by simp
  qed
qed

lemma clean_fold_stack:
  assumes "clean_stack rooted st" and "\<And>w. w \<in> set segs \<Longrightarrow> slash \<notin> set w"
  shows "clean_stack rooted (foldl (clean_step rooted) st segs)"
  using assms
proof (induction segs arbitrary: st)
  case Nil
  then show ?case by simp
next
  case (Cons w segs)
  then show ?case by (simp add: clean_step_stack)
qed

lemma clean_segs_form:
  assumes "\<And>w. w \<in> set segs \<Longrightarrow> slash \<notin> set w"
  obtains ups xs where "clean_segs rooted segs = ups @ xs" "list_all plain_seg xs"
    "\<forall>u \<in> set ups. u = dotdot" "rooted \<longrightarrow> ups = []"
proof -
  have "clean_stack rooted []" by (auto simp: clean_stack_def)
  then have "clean_stack rooted (foldl (clean_step rooted) [] segs)"
    using assms by (rule clean_fold_stack)
  then obtain ups xs where "foldl (clean_step rooted) [] segs = xs @ ups"
      "list_all plain_seg xs" "\<forall>u \<in> set ups. u = dotdot" "rooted \<longrightarrow> ups = []"
    by (auto simp: clean_stack_def)
  then show ?thesis
    by (intro that [of "rev ups" "rev xs"]) (auto simp: clean_segs_def list_all_iff)
qed

lemma clean_segs_no_slash:
  assumes "\<And>w. w \<in> set segs \<Longrightarrow> slash \<notin> set w" and "x \<in> set (clean_segs rooted segs)"
  shows "slash \<notin> set x" and "x \<noteq> []" and "x \<noteq> dot"
proof -
  obtain ups xs where f: "clean_segs rooted segs = ups @ xs" "list_all plain_seg xs"
    "\<forall>u \<in> set ups. u = dotdot"
    by (rule clean_segs_form [OF assms(1), of segs rooted]) auto
  then have "x = dotdot \<or> plain_seg x" using assms(2) by (auto simp: list_all_iff)
  then show "slash \<notin> set x" and "x \<noteq> []" and "x \<noteq> dot" by (auto simp: plain_seg_def)
qed

text \<open>Cleaning already clean elements changes nothing.\<close>

lemma foldl_clean_plain:
  "list_all plain_seg xs \<Longrightarrow> foldl (clean_step rooted) st xs = rev xs @ st"
  by (induction xs arbitrary: st) (auto simp: clean_step_def plain_seg_def)

lemma foldl_clean_ups:
  "\<forall>u \<in> set ups. u = dotdot \<Longrightarrow> (\<forall>u \<in> set st. u = dotdot) \<Longrightarrow>
   foldl (clean_step False) st ups = rev ups @ st"
proof (induction ups arbitrary: st)
  case Nil
  then show ?case by simp
next
  case (Cons u ups)
  have "clean_step False st u = u # st"
    using Cons.prems by (cases st) (auto simp: clean_step_def)
  with Cons show ?case by simp
qed

lemma clean_segs_idem:
  assumes "\<And>w. w \<in> set segs \<Longrightarrow> slash \<notin> set w"
  shows "clean_segs rooted (clean_segs rooted segs) = clean_segs rooted segs"
proof -
  obtain ups xs where f: "clean_segs rooted segs = ups @ xs" "list_all plain_seg xs"
    "\<forall>u \<in> set ups. u = dotdot" "rooted \<longrightarrow> ups = []"
    by (rule clean_segs_form [OF assms, of segs rooted]) auto
  have "foldl (clean_step rooted) [] (ups @ xs) = rev (ups @ xs)"
    using f foldl_clean_plain foldl_clean_ups [of ups "[]"] by (cases rooted) auto
  then show ?thesis unfolding f(1) by (simp add: clean_segs_def)
qed

section \<open>The string level\<close>

lemma split_seg_no_slash: "w \<in> set (split_on slash p) \<Longrightarrow> slash \<notin> set w"
  by (rule split_on_no_sep)

lemma clean_split_seg:
  assumes "x \<in> set (clean_segs r (split_on slash p))"
  shows "slash \<notin> set x" and "x \<noteq> []" and "x \<noteq> dot"
  by (rule clean_segs_no_slash [where segs = "split_on slash p" and rooted = r];
      use assms split_seg_no_slash in blast)+

lemma join_with_Nil_iff [simp]:
  "(\<And>w. w \<in> set ws \<Longrightarrow> w \<noteq> []) \<Longrightarrow> join_with sep ws = [] \<longleftrightarrow> ws = []"
  by (cases ws; cases "tl ws") auto

lemma clean_body_Nil:
  "join_with [slash] (clean_segs r (split_on slash p)) = [] \<longleftrightarrow> clean_segs r (split_on slash p) = []"
  by (rule join_with_Nil_iff) (rule clean_split_seg(2))

lemma split_clean_body:
  "clean_segs r (split_on slash p) \<noteq> [] \<Longrightarrow>
   split_on slash (join_with [slash] (clean_segs r (split_on slash p))) = clean_segs r (split_on slash p)"
  by (rule join_split) (auto dest: clean_split_seg(1))

lemma not_rooted_body:
  "\<not> has_prefix (join_with [slash] (clean_segs r (split_on slash p))) [slash]"
proof (cases "clean_segs r (split_on slash p)")
  case Nil
  then show ?thesis by simp
next
  case (Cons w ws)
  then have "w \<noteq> []" "slash \<notin> set w"
    using clean_split_seg [of w r p] by auto
  then show ?thesis using Cons by (cases w; cases ws) auto
qed

text \<open>\<open>path.Clean\<close> is idempotent.\<close>

lemma clean_segs_Nil [simp]: "clean_segs r [] = []" "clean_segs r [[]] = []" "clean_segs r [dot] = []"
  by (simp_all add: clean_segs_def clean_step_def)

lemma clean_segs_empty_seg [simp]: "clean_segs r ([] # segs) = clean_segs r segs"
  by (simp add: clean_segs_def clean_step_def)

lemma path_clean_idem: "path_clean (path_clean p) = path_clean p"
proof -
  let ?r = "has_prefix p [slash]"
  let ?ws = "clean_segs ?r (split_on slash p)"
  let ?b = "join_with [slash] ?ws"
  have idem: "clean_segs ?r ?ws = ?ws" by (rule clean_segs_idem) (rule split_seg_no_slash)
  consider "?ws = []" | "?ws \<noteq> []" "?r" | "?ws \<noteq> []" "\<not> ?r" by blast
  then show ?thesis
  proof cases
    case 1
    then show ?thesis by (cases ?r) (auto simp: path_clean_def Let_def)
  next
    case 2
    then have "split_on slash (slash # ?b) = [] # ?ws" by (simp add: split_clean_body)
    then show ?thesis using 2 idem by (simp add: path_clean_def Let_def)
  next
    case 3
    have "?b \<noteq> []" using 3 clean_body_Nil by blast
    moreover have "split_on slash ?b = ?ws" using 3 by (intro split_clean_body)
    moreover have "\<not> has_prefix ?b [slash]" by (rule not_rooted_body)
    ultimately show ?thesis using 3 idem by (simp add: path_clean_def Let_def)
  qed
qed

section \<open>Local paths cannot climb\<close>

lemma dotdot_stays:
  "dotdot \<in> set st \<Longrightarrow> dotdot \<in> set (clean_step False st seg)"
  by (cases st) (auto simp: clean_step_def)

lemma dotdot_stays_fold:
  "dotdot \<in> set st \<Longrightarrow> dotdot \<in> set (foldl (clean_step False) st segs)"
  by (induction segs arbitrary: st) (auto simp: dotdot_stays)

text \<open>
  Elements that clean to plain ones never cancel what lies below them: cleaning them on top
  of any stack leaves that stack in place.
\<close>

lemma clean_on_top:
  "dotdot \<notin> set (foldl (clean_step False) st segs) \<Longrightarrow>
   foldl (clean_step r) (st @ base) segs = foldl (clean_step False) st segs @ base"
proof (induction segs arbitrary: st)
  case Nil
  then show ?case by simp
next
  case (Cons w segs)
  have nd: "dotdot \<notin> set (clean_step False st w)"
    using Cons.prems dotdot_stays_fold by auto
  then have "clean_step r (st @ base) w = clean_step False st w @ base"
    by (cases st) (auto simp: clean_step_def split: if_splits)
  then show ?case using Cons by simp
qed

lemma has_prefix_dotdot_slash:
  "has_prefix (join_with [slash] (dotdot # w # ws)) ''../''"
  by simp

lemma is_local_plain:
  assumes "is_local p"
  shows "list_all plain_seg (clean_segs False (split_on slash p))"
proof -
  let ?ws = "clean_segs False (split_on slash p)"
  have nr: "\<not> has_prefix p [slash]" and ne: "p \<noteq> []"
    using assms by (auto simp: is_local_def split: if_splits)
  obtain ups xs where f: "?ws = ups @ xs" "list_all plain_seg xs" "\<forall>u \<in> set ups. u = dotdot"
    by (rule clean_segs_form [of "split_on slash p" False]) (auto dest: split_seg_no_slash)
  show ?thesis
  proof (cases "dot \<in> set (split_on slash p) \<or> dotdot \<in> set (split_on slash p)")
    case True
    then have q: "\<not> (path_clean p = dotdot \<or> has_prefix (path_clean p) ''../'')"
      using assms nr ne by (simp add: is_local_def Let_def)
    have "ups = []"
    proof (rule ccontr)
      assume "ups \<noteq> []"
      then obtain ws' where "?ws = dotdot # ws'" using f by (cases ups) auto
      then have "path_clean p = dotdot \<or> has_prefix (path_clean p) ''../''"
        using nr by (cases ws') (auto simp: path_clean_def Let_def)
      with q show False by blast
    qed
    then show ?thesis using f by simp
  next
    case False
    have "foldl (clean_step False) st ss = rev (filter (\<lambda>w. w \<noteq> []) ss) @ st"
      if "dot \<notin> set ss" "dotdot \<notin> set ss" for st ss
      using that by (induction ss arbitrary: st) (auto simp: clean_step_def)
    then have "?ws = filter (\<lambda>w. w \<noteq> []) (split_on slash p)"
      using False by (simp add: clean_segs_def)
    then show ?thesis using False split_on_no_sep
      by (auto simp: list_all_iff plain_seg_def)
  qed
qed

lemma clean_segs_append_local:
  assumes "is_local p"
  shows "clean_segs r (segs @ split_on slash p) =
         clean_segs r segs @ clean_segs False (split_on slash p)"
proof -
  have "dotdot \<notin> set (foldl (clean_step False) [] (split_on slash p))"
    using is_local_plain [OF assms] by (auto simp: clean_segs_def list_all_iff)
  then have "foldl (clean_step r) ([] @ base) (split_on slash p) =
      foldl (clean_step False) [] (split_on slash p) @ base" for base
    by (rule clean_on_top)
  then show ?thesis by (simp add: clean_segs_def)
qed

text \<open>Joining a local path to a rooted directory stays in that directory.\<close>

lemma path_join_local_segs:
  assumes "is_local p" and "has_prefix root [slash]"
  shows "split_on slash (path_join root p) =
    [] # (case clean_segs True (split_on slash root) @ clean_segs False (split_on slash p) of
            [] \<Rightarrow> [[]] | ws \<Rightarrow> ws)"
proof -
  have ne: "root \<noteq> []" "p \<noteq> []" using assms by (auto simp: is_local_def)
  let ?ws = "clean_segs True (split_on slash root) @ clean_segs False (split_on slash p)"
  have segs: "clean_segs True (split_on slash (root @ slash # p)) = ?ws"
    by (simp add: split_on_append clean_segs_append_local assms(1))
  have "has_prefix (root @ slash # p) [slash]" using assms(2) by (cases root) auto
  then have "path_join root p = slash # join_with [slash] ?ws"
    using ne segs by (simp add: path_join_def path_clean_def Let_def)
  then show ?thesis
    using split_clean_body [of True "root @ slash # p"] segs by (cases ?ws) auto
qed

text \<open>\<open>IsLocal\<close> is exactly: relative, and cleaned to plain elements.\<close>

lemma split_clean_rel:
  assumes "\<not> has_prefix p [slash]"
  shows "split_on slash (path_clean p) =
    (case clean_segs False (split_on slash p) of [] \<Rightarrow> [dot] | ws \<Rightarrow> ws)"
proof (cases "clean_segs False (split_on slash p)")
  case Nil
  then show ?thesis using assms by (simp add: path_clean_def Let_def)
next
  case (Cons w ws)
  then have "path_clean p = join_with [slash] (w # ws)"
    using assms clean_body_Nil [of False p] by (simp add: path_clean_def Let_def)
  then show ?thesis using split_clean_body [of False p] Cons by simp
qed

lemma dotdot_seg: "q = dotdot \<or> has_prefix q ''../'' \<Longrightarrow> dotdot \<in> set (split_on slash q)"
proof (elim disjE)
  assume "has_prefix q ''../''"
  then obtain t where "q = dotdot @ slash # t" by (auto simp: has_prefix_iff)
  then show ?thesis by (simp only: split_on_append) simp
qed simp

lemma is_local_iff:
  "is_local p \<longleftrightarrow>
   p \<noteq> [] \<and> \<not> has_prefix p [slash] \<and> list_all plain_seg (clean_segs False (split_on slash p))"
proof
  assume l: "is_local p"
  then show "p \<noteq> [] \<and> \<not> has_prefix p [slash] \<and> list_all plain_seg (clean_segs False (split_on slash p))"
    using is_local_plain by (auto simp: is_local_def split: if_splits)
next
  assume a: "p \<noteq> [] \<and> \<not> has_prefix p [slash] \<and> list_all plain_seg (clean_segs False (split_on slash p))"
  then have "dotdot \<notin> set (split_on slash (path_clean p))"
    by (auto simp: split_clean_rel list_all_iff split: list.splits dest: bspec [of _ _ dotdot])
  then have "\<not> (path_clean p = dotdot \<or> has_prefix (path_clean p) ''../'')"
    using dotdot_seg by blast
  moreover have "dotdot \<notin> set (split_on slash p) \<Longrightarrow> \<not> (p = dotdot \<or> has_prefix p ''../'')"
    using dotdot_seg by blast
  ultimately show "is_local p" using a by (simp add: is_local_def Let_def)
qed

lemma clean_segs_plain: "list_all plain_seg xs \<Longrightarrow> clean_segs r xs = xs"
  by (simp add: clean_segs_def foldl_clean_plain)

section \<open>Joins below a rooted directory\<close>

lemma clean_segs_rooted_plain:
  assumes "\<And>w. w \<in> set segs \<Longrightarrow> slash \<notin> set w"
  shows "list_all plain_seg (clean_segs True segs)"
  by (rule clean_segs_form [OF assms, of segs True]) auto

lemma clean_segs_clean_append:
  assumes "\<And>w. w \<in> set xs \<Longrightarrow> slash \<notin> set w"
  shows "clean_segs True (clean_segs True xs @ ys) = clean_segs True (xs @ ys)"
  using foldl_clean_plain [OF clean_segs_rooted_plain [of xs], of True "[]"] assms
  by (simp add: clean_segs_def)

lemma path_join_rooted:
  assumes "has_prefix root [slash]" and "p \<noteq> []"
  shows "path_join root p =
    slash # join_with [slash] (clean_segs True (split_on slash root @ split_on slash p))"
proof -
  have "has_prefix (root @ slash # p) [slash]" and "root \<noteq> []" using assms(1) by (cases root; simp)+
  then show ?thesis using assms(2)
    by (simp add: path_join_def path_clean_def Let_def split_on_append)
qed

lemma clean_split_join:
  assumes "has_prefix root [slash]" and "p \<noteq> []"
  shows "clean_segs True (split_on slash (path_join root p) @ ys) =
    clean_segs True (split_on slash root @ split_on slash p @ ys)"
proof -
  let ?ws = "clean_segs True (split_on slash root @ split_on slash p)"
  have ns: "slash \<notin> set w" if "w \<in> set (split_on slash root @ split_on slash p)" for w
    using that split_seg_no_slash by auto
  have plain: "list_all plain_seg ?ws" by (rule clean_segs_rooted_plain) (rule ns)
  have "clean_segs True (split_on slash (path_join root p) @ ys) = clean_segs True (?ws @ ys)"
  proof (cases "?ws = []")
    case True
    then show ?thesis using assms by (simp add: path_join_rooted)
  next
    case False
    then have "split_on slash (join_with [slash] ?ws) = ?ws"
      using plain by (intro join_split) (auto simp: list_all_iff plain_seg_def)
    then show ?thesis using assms by (simp add: path_join_rooted)
  qed
  then show ?thesis using clean_segs_clean_append [of "split_on slash root @ split_on slash p" ys] ns by simp
qed

lemma path_join_is_rooted: "has_prefix root [slash] \<Longrightarrow> p \<noteq> [] \<Longrightarrow> has_prefix (path_join root p) [slash]"
  by (simp add: path_join_rooted)

lemma path_join_assoc:
  assumes "has_prefix root [slash]" and "p \<noteq> []" and "q \<noteq> []"
  shows "path_join (path_join root p) q = path_join root (p @ slash # q)"
proof -
  have "path_join (path_join root p) q =
      slash # join_with [slash] (clean_segs True (split_on slash (path_join root p) @ split_on slash q))"
    by (rule path_join_rooted [OF path_join_is_rooted [OF assms(1,2)] assms(3)])
  moreover have "path_join root (p @ slash # q) =
      slash # join_with [slash] (clean_segs True (split_on slash root @ split_on slash p @ split_on slash q))"
    using assms by (simp add: path_join_rooted split_on_append)
  ultimately show ?thesis by (simp only: clean_split_join [OF assms(1,2)])
qed

lemma path_ext_below: "path_ext (a @ slash # x) = path_ext x"
proof -
  let ?P = "\<lambda>c. c \<noteq> slash"
  have "takeWhile ?P (rev x @ slash # rev a) = takeWhile ?P (rev x)"
  proof (cases "slash \<in> set x")
    case True
    then show ?thesis by (intro takeWhile_append1 [of slash]) auto
  next
    case False
    then have a: "takeWhile ?P (rev x) = rev x" by (subst takeWhile_eq_all_conv) auto
    have "takeWhile ?P (rev x @ slash # rev a) = rev x @ takeWhile ?P (slash # rev a)"
      using False by (intro takeWhile_append2) auto
    then show ?thesis unfolding a by simp
  qed
  then show ?thesis by (simp add: path_ext_def)
qed

end
