(* ===== verification/Site_Errors.thy ===== *)
theory Site_Errors
  imports Kotoji_Prelude
begin

text \<open>
  The error taxonomy of package \<open>site\<close> (\<open>backend/internal/site/errors.go\<close>): the sentinel
  categories, the structured errors that report a category through \<open>errors.Is\<close>, and
  \<open>statusFor\<close>, the one place where an error becomes an HTTP status.
\<close>

section \<open>Definitions\<close>

datatype sentinel =
    ErrNotFound | ErrValidation | ErrReservedHandle | ErrHandleTaken | ErrConflict
  | ErrPublishConflict | ErrBranchExists | ErrNothingToCommit | ErrForbidden
  | ErrZipSlip | ErrZipTooLarge | ErrZipTooManyFiles | ErrZipBadType
  | ErrQuotaExceeded | ErrGit

text \<open>
  A returned error: a bare sentinel, one of the structured errors, an
  \<open>fmt.Errorf("%w: ...")\<close> wrapper, or an error of another package (context
  cancellation, a store failure).
\<close>

datatype site_error =
    Sentinel sentinel
  | ValidationError (err_field: string) (err_reason: string)
  | ConflictError (err_branch: string) (err_expected: string) (err_actual: string) (err_changed: "string list")
  | PublishConflictError (err_paths: "string list")
  | GitError (err_args: "string list") (err_exit: int) (err_stderr: string)
  | Wrapped sentinel string
  | ForeignError string

text \<open>\<open>errors.Is(err, sentinel)\<close> over the \<open>Is\<close> methods of the structured errors.\<close>

fun err_is :: "site_error \<Rightarrow> sentinel \<Rightarrow> bool" where
  "err_is (Sentinel s) t = (s = t)"
| "err_is (ValidationError f r) t = (t = ErrValidation)"
| "err_is (ConflictError b e a ps) t = (t = ErrConflict)"
| "err_is (PublishConflictError ps) t = (t = ErrPublishConflict)"
| "err_is (GitError a c e) t = (t = ErrGit)"
| "err_is (Wrapped s m) t = (s = t)"
| "err_is (ForeignError m) t = False"

definition statusFor :: "site_error option \<Rightarrow> nat" where
  "statusFor err =
     (case err of
        None \<Rightarrow> 200
      | Some e \<Rightarrow>
          if err_is e ErrNotFound then 404
          else if err_is e ErrForbidden then 403
          else if err_is e ErrConflict \<or> err_is e ErrHandleTaken \<or> err_is e ErrPublishConflict
             \<or> err_is e ErrBranchExists \<or> err_is e ErrNothingToCommit then 409
          else if err_is e ErrZipTooLarge \<or> err_is e ErrZipTooManyFiles
             \<or> err_is e ErrQuotaExceeded then 413
          else if err_is e ErrZipBadType then 415
          else if err_is e ErrZipSlip then 400
          else if err_is e ErrValidation \<or> err_is e ErrReservedHandle then 422
          else 500)"

definition join_spaces :: "string list \<Rightarrow> string" where
  "join_spaces ws = join_with '' '' ws"

fun sentinel_text :: "sentinel \<Rightarrow> string" where
  "sentinel_text ErrNotFound = ''site: not found''"
| "sentinel_text ErrValidation = ''site: validation failed''"
| "sentinel_text ErrReservedHandle = ''site: reserved handle''"
| "sentinel_text ErrHandleTaken = ''site: handle already taken''"
| "sentinel_text ErrConflict = ''site: stale base sha''"
| "sentinel_text ErrPublishConflict = ''site: publish merge conflict''"
| "sentinel_text ErrBranchExists = ''site: branch already exists''"
| "sentinel_text ErrNothingToCommit = ''site: nothing to commit''"
| "sentinel_text ErrForbidden = ''site: forbidden''"
| "sentinel_text ErrZipSlip = ''site: zip path traversal''"
| "sentinel_text ErrZipTooLarge = ''site: zip too large''"
| "sentinel_text ErrZipTooManyFiles = ''site: zip too many files''"
| "sentinel_text ErrZipBadType = ''site: zip disallowed file type''"
| "sentinel_text ErrQuotaExceeded = ''site: per-site disk quota exceeded''"
| "sentinel_text ErrGit = ''site: git operation failed''"

text \<open>The \<open>Error()\<close> method of every error.\<close>

fun error_text :: "site_error \<Rightarrow> string" where
  "error_text (Sentinel s) = sentinel_text s"
| "error_text (ValidationError f r) = ''site: validation: '' @ f @ '': '' @ r"
| "error_text (ConflictError b e a ps) =
     ''site: stale base sha on '' @ b @ '': expected '' @ e @ '' got '' @ a"
| "error_text (PublishConflictError ps) = ''site: publish merge conflict''"
| "error_text (GitError a c e) = ''site: git '' @ join_spaces a @ '': '' @ e"
| "error_text (Wrapped s m) = sentinel_text s @ '': '' @ m"
| "error_text (ForeignError m) = m"

section \<open>Every error has one category and one status\<close>

lemma err_is_unique: "err_is e s \<Longrightarrow> err_is e t \<Longrightarrow> s = t"
  by (cases e) auto

lemma statusFor_range: "statusFor err \<in> {200, 400, 403, 404, 409, 413, 415, 422, 500}"
  by (auto simp: statusFor_def split: option.splits)

lemma statusFor_ok_iff: "statusFor err = 200 \<longleftrightarrow> err = None"
  by (auto simp: statusFor_def split: option.splits)

text \<open>
  The order of the \<open>switch\<close> does not matter: the status is a function of the category
  alone.
\<close>

fun sentinel_status :: "sentinel \<Rightarrow> nat" where
  "sentinel_status ErrNotFound = 404"
| "sentinel_status ErrForbidden = 403"
| "sentinel_status ErrConflict = 409"
| "sentinel_status ErrHandleTaken = 409"
| "sentinel_status ErrPublishConflict = 409"
| "sentinel_status ErrBranchExists = 409"
| "sentinel_status ErrNothingToCommit = 409"
| "sentinel_status ErrZipTooLarge = 413"
| "sentinel_status ErrZipTooManyFiles = 413"
| "sentinel_status ErrQuotaExceeded = 413"
| "sentinel_status ErrZipBadType = 415"
| "sentinel_status ErrZipSlip = 400"
| "sentinel_status ErrValidation = 422"
| "sentinel_status ErrReservedHandle = 422"
| "sentinel_status ErrGit = 500"

lemma statusFor_category: "err_is e s \<Longrightarrow> statusFor (Some e) = sentinel_status s"
  by (cases s; cases e) (auto simp: statusFor_def)

end
