(* ===== verification/Go_Strconv.thy ===== *)
theory Go_Strconv
  imports Kotoji_Prelude
begin

text \<open>
  Go's \<open>strconv\<close> as the backend uses it: \<open>FormatInt\<close> and \<open>Itoa\<close> (bases 10 and 16),
  \<open>ParseInt(s, 10, 64)\<close>, the zero-padded \<open>%040x\<close> verb, and the 64-bit range that a
  Go \<open>int64\<close> and a \<open>time.Duration\<close> live in.
\<close>

section \<open>Definitions\<close>

definition digit_char :: "nat \<Rightarrow> char" where
  "digit_char d = (if d < 10 then char_of (48 + d) else char_of (87 + d))"

definition digit_val :: "char \<Rightarrow> nat" where
  "digit_val c = (let n = (of_char c :: nat) in if n \<le> 57 then n - 48 else n - 87)"

definition is_digit :: "char \<Rightarrow> bool" where
  "is_digit c = (let n = (of_char c :: nat) in 48 \<le> n \<and> n \<le> 57)"

fun show_base :: "nat \<Rightarrow> nat \<Rightarrow> string" where
  "show_base b n =
     (if b < 2 \<or> n < b then [digit_char n] else show_base b (n div b) @ [digit_char (n mod b)])"

declare show_base.simps [simp del]

definition show_nat :: "nat \<Rightarrow> string" where
  "show_nat n = show_base 10 n"

definition show_int_base :: "nat \<Rightarrow> int \<Rightarrow> string" where
  "show_int_base b i =
     (if i < 0 then CHR ''-'' # show_base b (nat (- i)) else show_base b (nat i))"

definition show_int :: "int \<Rightarrow> string" where
  "show_int i = show_int_base 10 i"

text \<open>The value of a digit string, most significant digit first.\<close>

definition digits_val :: "nat \<Rightarrow> string \<Rightarrow> nat" where
  "digits_val b s = foldl (\<lambda>a c. a * b + digit_val c) 0 s"

definition int64_max :: int where
  "int64_max = 9223372036854775807"

definition int64_min :: int where
  "int64_min = - 9223372036854775808"

definition in_int64 :: "int \<Rightarrow> bool" where
  "in_int64 i = (int64_min \<le> i \<and> i \<le> int64_max)"

text \<open>\<open>strconv.ParseInt(s, 10, 64)\<close>: an optional sign, at least one digit, in range.\<close>

definition parse_int64 :: "string \<Rightarrow> int option" where
  "parse_int64 s =
     (let neg = has_prefix s ''-'';
          body = (if has_prefix s ''-'' \<or> has_prefix s ''+'' then drop 1 s else s);
          v = int (digits_val 10 body);
          i = (if neg then - v else v)
      in if body = [] \<or> \<not> list_all is_digit body then None
         else if in_int64 i then Some i else None)"

text \<open>
  The value that \<open>ParseInt\<close> and \<open>Atoi\<close> return beside their error: zero for a malformed number, the
  nearest limit for one out of range.
\<close>

definition parse_int64_value :: "string \<Rightarrow> int" where
  "parse_int64_value s =
     (let neg = has_prefix s ''-'';
          body = (if has_prefix s ''-'' \<or> has_prefix s ''+'' then drop 1 s else s);
          v = int (digits_val 10 body);
          i = (if neg then - v else v)
      in if body = [] \<or> \<not> list_all is_digit body then 0
         else max int64_min (min int64_max i))"

text \<open>The verb \<open>%040x\<close> on a non-negative number.\<close>

definition pad_left :: "nat \<Rightarrow> char \<Rightarrow> string \<Rightarrow> string" where
  "pad_left n c s = replicate (n - length s) c @ s"

definition hex40 :: "nat \<Rightarrow> string" where
  "hex40 n = pad_left 40 CHR ''0'' (show_base 16 n)"

section \<open>Evaluation on numerals\<close>

lemma digit_char_eval [simp]:
  "digit_char 0 = CHR ''0''" "digit_char (Suc 0) = CHR ''1''" "digit_char 1 = CHR ''1''" "digit_char 2 = CHR ''2''"
  "digit_char 3 = CHR ''3''" "digit_char 4 = CHR ''4''" "digit_char 5 = CHR ''5''"
  "digit_char 6 = CHR ''6''" "digit_char 7 = CHR ''7''" "digit_char 8 = CHR ''8''"
  "digit_char 9 = CHR ''9''"
  by code_simp+

lemmas show_eval = show_int_def show_int_base_def show_nat_def show_base.simps

section \<open>Round trips\<close>

lemma digit_val_char: "d < 16 \<Longrightarrow> digit_val (digit_char d) = d"
  by (auto simp: digit_val_def digit_char_def Let_def)

lemma is_digit_char: "d < 10 \<Longrightarrow> is_digit (digit_char d)"
  by (auto simp: is_digit_def digit_char_def Let_def)

lemma digits_val_append: "digits_val b (s @ [c]) = digits_val b s * b + digit_val c"
  by (simp add: digits_val_def)

lemma digits_val_show: "2 \<le> b \<Longrightarrow> b \<le> 16 \<Longrightarrow> digits_val b (show_base b n) = n"
proof (induction b n rule: show_base.induct)
  case (1 b n)
  show ?case
  proof (cases "n < b")
    case True
    then show ?thesis using "1.prems"
      by (simp add: show_base.simps [of b n] digits_val_def digit_val_char)
  next
    case False
    then have "digits_val b (show_base b (n div b)) = n div b" using "1" by simp
    moreover have "n mod b < 16"
      using "1.prems" by (intro order_less_le_trans [OF mod_less_divisor]) simp_all
    then have "digit_val (digit_char (n mod b)) = n mod b" by (rule digit_val_char)
    ultimately show ?thesis using False "1.prems"
      by (simp add: show_base.simps [of b n] digits_val_append)
  qed
qed

lemma show_base_inj: "2 \<le> b \<Longrightarrow> b \<le> 16 \<Longrightarrow> show_base b m = show_base b n \<longleftrightarrow> m = n"
  by (metis digits_val_show)

lemma show_base_nonempty [simp]: "show_base b n \<noteq> []"
  by (subst show_base.simps) simp

lemma show_base_set: "2 \<le> b \<Longrightarrow> c \<in> set (show_base b n) \<Longrightarrow> \<exists>d<b. c = digit_char d"
proof (induction b n rule: show_base.induct)
  case (1 b n)
  show ?case
  proof (cases "n < b")
    case True
    then show ?thesis using "1.prems" by (auto simp: show_base.simps [of b n])
  next
    case False
    then have "c \<in> set (show_base b (n div b)) \<or> c = digit_char (n mod b)"
      using "1.prems" by (auto simp: show_base.simps [of b n])
    moreover have "\<exists>d<b. digit_char (n mod b) = digit_char d"
      using "1.prems" by (intro exI [of _ "n mod b"] conjI mod_less_divisor) simp_all
    ultimately show ?thesis using "1.IH" "1.prems" False by auto
  qed
qed

lemma show_nat_digits: "list_all is_digit (show_nat n)"
  unfolding list_all_iff show_nat_def
  using show_base_set [of 10] is_digit_char by fastforce

lemma digit_char_code: "d < 16 \<Longrightarrow> of_char (digit_char d) = (if d < 10 then 48 + d else 87 + d)"
  by (simp add: digit_char_def)

lemma digit_char_neq:
  assumes "d < 16"
  shows "digit_char d \<noteq> CHR ''-''" and "digit_char d \<noteq> CHR ''+''" and "digit_char d \<noteq> CHR '':''"
  using digit_char_code [OF assms] assms by (auto split: if_splits)

lemma show_base_no_minus: "2 \<le> b \<Longrightarrow> b \<le> 16 \<Longrightarrow> CHR ''-'' \<notin> set (show_base b n)"
  using show_base_set digit_char_neq(1) by (metis order_less_le_trans)

lemma show_int_base_inj:
  assumes "2 \<le> b" and "b \<le> 16"
  shows "show_int_base b i = show_int_base b j \<longleftrightarrow> i = j"
proof
  assume eq: "show_int_base b i = show_int_base b j"
  have neg: "show_int_base b k = CHR ''-'' # show_base b (nat (- k))" if "k < 0" for k
    using that by (simp add: show_int_base_def)
  have nonneg: "CHR ''-'' \<notin> set (show_int_base b k)" if "0 \<le> k" for k
    using that assms show_base_no_minus by (simp add: show_int_base_def)
  consider "i < 0" "j < 0" | "0 \<le> i" "0 \<le> j" | "i < 0" "0 \<le> j" | "0 \<le> i" "j < 0" by linarith
  then show "i = j"
  proof cases
    case 1
    then show ?thesis using eq assms by (simp add: show_int_base_def show_base_inj)
  next
    case 2
    then show ?thesis using eq assms by (simp add: show_int_base_def show_base_inj)
  next
    case 3
    then show ?thesis using eq neg nonneg by (metis list.set_intros(1))
  next
    case 4
    then show ?thesis using eq neg nonneg by (metis list.set_intros(1))
  qed
qed simp

lemma parse_show_int: "in_int64 i \<Longrightarrow> parse_int64 (show_int i) = Some i"
proof -
  assume r: "in_int64 i"
  let ?s = "show_nat (nat \<bar>i\<bar>)"
  have d: "list_all is_digit ?s" by (rule show_nat_digits)
  have v: "digits_val 10 ?s = nat \<bar>i\<bar>" by (simp add: show_nat_def digits_val_show)
  have ne: "?s \<noteq> []" by (simp add: show_nat_def)
  have ns: "\<not> has_prefix ?s ''-''" "\<not> has_prefix ?s ''+''"
  proof -
    obtain c cs where cs: "?s = c # cs" using ne by (cases ?s) auto
    then have "is_digit c" using d by simp
    then show "\<not> has_prefix ?s ''-''" "\<not> has_prefix ?s ''+''" using cs
      by (auto simp: is_digit_def Let_def)
  qed
  show ?thesis
  proof (cases "i < 0")
    case True
    then have "show_int i = CHR ''-'' # ?s"
      by (simp add: show_int_def show_int_base_def show_nat_def)
    then show ?thesis using True d v ne r by (simp add: parse_int64_def Let_def)
  next
    case False
    then have "show_int i = ?s" by (simp add: show_int_def show_int_base_def show_nat_def)
    then show ?thesis using False d v ne ns r by (simp add: parse_int64_def Let_def)
  qed
qed

lemma show_base_no_colon: "2 \<le> b \<Longrightarrow> b \<le> 16 \<Longrightarrow> CHR '':'' \<notin> set (show_base b n)"
  using show_base_set digit_char_neq(3) by (metis order_less_le_trans)

lemma show_int_no_colon: "CHR '':'' \<notin> set (show_int i)"
  by (simp add: show_int_def show_int_base_def show_base_no_colon)

lemma hex40_inj: "hex40 m = hex40 n \<longleftrightarrow> m = n"
proof
  assume eq: "hex40 m = hex40 n"
  have "digits_val 16 (hex40 k) = k" for k
  proof -
    have z: "foldl (\<lambda>a c. a * 16 + digit_val c) 0 (replicate j CHR ''0'') = 0" for j
      by (induction j) (simp_all add: digit_val_def)
    have "digits_val 16 (hex40 k) = digits_val 16 (show_base 16 k)"
      by (simp add: hex40_def pad_left_def digits_val_def z)
    then show ?thesis by (simp add: digits_val_show)
  qed
  with eq show "m = n" by metis
qed simp

lemma hex40_nonempty [simp]: "hex40 n \<noteq> []"
  by (simp add: hex40_def pad_left_def)

end
