(* ===== verification/Handle_Grammar.thy ===== *)
theory Handle_Grammar
  imports Site_Errors Go_Strconv
begin

text \<open>
  The handle and branch grammar (\<open>backend/internal/site/handle.go\<close>): the two validators
  that decide which names a site and a branch may have, the reserved words, and the host
  label \<open>{handle}--{branch}\<close> built from a pair and split again.

  \<open>label_re\<close> is the regular expression shared by \<open>handleRe\<close>, \<open>branchRe\<close> and the
  resolver's \<open>labelRe\<close>; the locale \<open>label_grammar\<close> is the contract the splitting code
  relies on, interpreted on the validators of the code.
\<close>

type_synonym handle = string
type_synonym branch_name = string

section \<open>Definitions\<close>

definition HandleMinLen :: nat where "HandleMinLen = 3"
definition HandleMaxLen :: nat where "HandleMaxLen = 63"
definition HandleResolverMinLen :: nat where "HandleResolverMinLen = 1"

definition doubleHyphen :: string where "doubleHyphen = ''--''"

definition BranchPublished :: branch_name where "BranchPublished = ''published''"
definition BranchDraft :: branch_name where "BranchDraft = ''draft''"

text \<open>The pattern \<open>^[a-z0-9]([a-z0-9-]{0,61}[a-z0-9])?$\<close>.\<close>

definition label_char :: "char \<Rightarrow> bool" where
  "label_char c = (is_alnum_lower c \<or> c = CHR ''-'')"

fun label_re :: "string \<Rightarrow> bool" where
  "label_re [] = False"
| "label_re (c # cs) =
     (is_alnum_lower c \<and>
      (cs = [] \<or>
       (length (butlast cs) \<le> 61 \<and> list_all label_char (butlast cs) \<and> is_alnum_lower (last cs))))"

definition ReservedHandles :: "string list" where
  "ReservedHandles =
     [''draft'', ''preview'', ''published'', ''www'', ''api'', ''internal'',
      ''host'', ''admin'', ''app'', ''static'', ''assets'', ''mcp'']"

definition IsReservedHandle :: "handle \<Rightarrow> bool" where
  "IsReservedHandle h = (go_lower h \<in> set ReservedHandles)"

definition validateHandleLen :: "handle \<Rightarrow> nat \<Rightarrow> site_error option" where
  "validateHandleLen s minLen =
     (if s = [] then Some (ValidationError ''handle'' ''must not be empty'')
      else if s \<noteq> go_lower s then Some (ValidationError ''handle'' ''must be lowercase'')
      else if length s < minLen then
        Some (ValidationError ''handle'' (''must be at least '' @ show_nat minLen @ '' characters''))
      else if HandleMaxLen < length s then
        Some (ValidationError ''handle'' (''must be at most '' @ show_nat HandleMaxLen @ '' characters''))
      else if contains s doubleHyphen then
        Some (ValidationError ''handle'' ''must not contain \"--\" (reserved preview separator)'')
      else if \<not> label_re s then
        Some (ValidationError ''handle'' ''must match ^[a-z0-9]([a-z0-9-]*[a-z0-9])?$'')
      else if IsReservedHandle s then Some (Sentinel ErrReservedHandle)
      else None)"

definition ValidateHandle :: "handle \<Rightarrow> site_error option" where
  "ValidateHandle h = validateHandleLen h HandleMinLen"

definition ValidateHandleForResolver :: "handle \<Rightarrow> site_error option" where
  "ValidateHandleForResolver h = validateHandleLen h HandleResolverMinLen"

definition validateBranchName :: "branch_name \<Rightarrow> site_error option" where
  "validateBranchName s =
     (if s = [] then Some (ValidationError ''branch'' ''must not be empty'')
      else if s \<noteq> go_lower s then Some (ValidationError ''branch'' ''must be lowercase'')
      else if HandleMaxLen < length s then
        Some (ValidationError ''branch'' (''must be at most '' @ show_nat HandleMaxLen @ '' characters''))
      else if contains s doubleHyphen then
        Some (ValidationError ''branch'' ''must not contain \"--\"'')
      else if \<not> label_re s then
        Some (ValidationError ''branch'' ''must match ^[a-z0-9]([a-z0-9-]*[a-z0-9])?$'')
      else None)"

definition ValidateBranchName :: "branch_name \<Rightarrow> site_error option" where
  "ValidateBranchName name = validateBranchName name"

definition previewSubdomain :: "handle \<Rightarrow> branch_name \<Rightarrow> string" where
  "previewSubdomain h branch =
     (if branch = BranchPublished then h else h @ doubleHyphen @ branch)"

definition splitLabel :: "string \<Rightarrow> handle \<times> branch_name" where
  "splitLabel label =
     (case str_index label doubleHyphen of
        Some i \<Rightarrow> (take i label, drop (i + length doubleHyphen) label)
      | None \<Rightarrow> (label, BranchPublished))"

section \<open>What an accepted name looks like\<close>

text \<open>The abstract grammar: one DNS label that cannot swallow the separator.\<close>

definition host_label :: "string \<Rightarrow> bool" where
  "host_label s \<longleftrightarrow>
     s \<noteq> [] \<and> length s \<le> 63 \<and> (\<forall>c \<in> set s. label_char c) \<and>
     hd s \<noteq> CHR ''-'' \<and> last s \<noteq> CHR ''-'' \<and> \<not> contains s ''--''"

lemma hyphen_not_alnum [simp]: "\<not> is_alnum_lower CHR ''-''"
  by code_simp

lemma label_char_alnum: "label_char c \<and> c \<noteq> CHR ''-'' \<longleftrightarrow> is_alnum_lower c"
  by (auto simp: label_char_def)

lemma label_re_iff:
  "label_re s \<longleftrightarrow>
   s \<noteq> [] \<and> length s \<le> 63 \<and> (\<forall>c \<in> set s. label_char c) \<and> hd s \<noteq> CHR ''-'' \<and> last s \<noteq> CHR ''-''"
proof (cases s)
  case (Cons c cs)
  show ?thesis
  proof (cases cs rule: rev_cases)
    case Nil
    then show ?thesis using Cons label_char_alnum by auto
  next
    case (snoc bs d)
    then show ?thesis using Cons label_char_alnum [of c] label_char_alnum [of d]
      by (auto simp: list_all_iff label_char_def)
  qed
qed simp

lemma lower_label_char [simp]: "label_char c \<Longrightarrow> lower_char c = c"
  by (auto simp: label_char_def lower_char_def Let_def is_alnum_lower_def)

lemma label_re_lower: "label_re s \<Longrightarrow> go_lower s = s"
  by (rule go_lower_fixed) (simp add: label_re_iff)

lemma host_label_re: "host_label s \<longleftrightarrow> label_re s \<and> \<not> contains s ''--''"
  by (auto simp: host_label_def label_re_iff)

lemma label_reD: "label_re s \<Longrightarrow> s \<noteq> [] \<and> length s \<le> 63 \<and> go_lower s = s"
  using label_re_lower label_re_iff by blast

lemma validateBranchName_iff: "validateBranchName b = None \<longleftrightarrow> host_label b"
  using label_reD [of b]
  by (cases "label_re b") (simp_all add: validateBranchName_def host_label_re HandleMaxLen_def doubleHyphen_def)

lemma validateHandleLen_iff:
  "validateHandleLen h n = None \<longleftrightarrow> n \<le> length h \<and> host_label h \<and> h \<notin> set ReservedHandles"
  using label_reD [of h]
  by (cases "label_re h")
    (auto simp: validateHandleLen_def host_label_re HandleMaxLen_def doubleHyphen_def IsReservedHandle_def)

lemma ValidateHandle_resolver:
  "ValidateHandle h = None \<Longrightarrow> ValidateHandleForResolver h = None"
  by (simp add: ValidateHandle_def ValidateHandleForResolver_def validateHandleLen_iff
      HandleMinLen_def HandleResolverMinLen_def)

lemma validateHandle_error:
  "validateHandleLen h n = Some e \<Longrightarrow> err_is e ErrValidation \<or> err_is e ErrReservedHandle"
  by (simp only: validateHandleLen_def split: if_splits) auto

lemma validateBranchName_error:
  "validateBranchName b = Some e \<Longrightarrow> err_is e ErrValidation"
  by (simp only: validateBranchName_def split: if_splits) auto

lemma host_label_published: "host_label BranchPublished" and host_label_draft: "host_label BranchDraft"
  by (simp_all add: validateBranchName_iff [symmetric]) code_simp+

text \<open>No separator starts inside an accepted name followed by one hyphen.\<close>

lemma host_label_sep: "host_label h \<Longrightarrow> \<not> contains (h @ ''-'') ''--''"
proof
  assume h: "host_label h" and "contains (h @ ''-'') ''--''"
  then obtain a b where ab: "h @ ''-'' = a @ ''--'' @ b" by (auto simp: contains_iff)
  show False
  proof (cases b rule: rev_cases)
    case Nil
    then have "h = a @ ''-''" using ab by (metis append_Cons append_Nil append_assoc butlast_snoc append_Nil2)
    then show False using h by (simp add: host_label_def)
  next
    case (snoc b' d)
    then have "h = a @ ''--'' @ b'" using ab
      by (metis append_assoc butlast_snoc)
    then show False using h by (auto simp: host_label_def contains_iff)
  qed
qed

lemma host_label_index:
  "host_label h \<Longrightarrow> str_index (h @ doubleHyphen @ b) doubleHyphen = Some (length h)"
  unfolding doubleHyphen_def by (rule str_index_after) (simp_all add: host_label_sep)

lemma host_label_no_sep: "host_label h \<Longrightarrow> str_index h doubleHyphen = None"
  by (simp add: str_index_None host_label_def doubleHyphen_def)

section \<open>The interface of the label code\<close>

text \<open>
  What the splitting code relies on: both validators only accept host labels. Everything
  about \<open>previewSubdomain\<close> and \<open>splitLabel\<close> follows from that.
\<close>

locale label_grammar =
  fixes ok_handle :: "string \<Rightarrow> bool" and ok_branch :: "string \<Rightarrow> bool"
  assumes handle_label: "ok_handle h \<Longrightarrow> host_label h"
    and branch_label: "ok_branch b \<Longrightarrow> host_label b"
begin

lemma split_preview:
  "ok_handle h \<Longrightarrow> splitLabel (previewSubdomain h b) = (h, b)"
  using handle_label host_label_index host_label_no_sep
  by (auto simp: splitLabel_def previewSubdomain_def)

lemma preview_inj:
  "ok_handle h \<Longrightarrow> ok_handle h' \<Longrightarrow>
   previewSubdomain h b = previewSubdomain h' b' \<longleftrightarrow> h = h' \<and> b = b'"
  by (metis split_preview prod.inject)

lemma preview_chars:
  "ok_handle h \<Longrightarrow> ok_branch b \<Longrightarrow> c \<in> set (previewSubdomain h b) \<Longrightarrow> label_char c"
  using handle_label [of h] branch_label [of b]
  by (auto simp: previewSubdomain_def host_label_def doubleHyphen_def label_char_def split: if_splits)

end

interpretation site_names: label_grammar "\<lambda>h. ValidateHandleForResolver h = None" "\<lambda>b. validateBranchName b = None"
  by unfold_locales (simp_all add: ValidateHandleForResolver_def validateHandleLen_iff validateBranchName_iff)

section \<open>Properties\<close>

text \<open>
  Splitting the preview host label of a site and branch gives back the site and the
  branch, so two different pairs never share a host label.
\<close>

theorem preview_label_unique:
  assumes "ValidateHandleForResolver h = None" and "ValidateHandleForResolver h' = None"
  shows "splitLabel (previewSubdomain h b) = (h, b) \<and>
    (previewSubdomain h b = previewSubdomain h' b' \<longleftrightarrow> h = h' \<and> b = b')"
  using assms site_names.split_preview site_names.preview_inj by simp

theorem preview_label_unique_witness:
  "splitLabel (previewSubdomain ''expense-calc'' ''draft'') = (''expense-calc'', ''draft'') \<and>
   previewSubdomain ''expense-calc'' ''draft'' \<noteq> previewSubdomain ''a'' ''b''"
proof -
  have ok: "ValidateHandleForResolver ''expense-calc'' = None" "ValidateHandleForResolver ''a'' = None"
    by code_simp+
  show ?thesis
    using preview_label_unique [OF ok, of "''draft''" "''b''"] by simp
qed

end
