(* ===== verification/Site_Path.thy ===== *)
theory Site_Path
  imports Go_Paths Handle_Grammar
begin

text \<open>
  The file-path gate and the MIME table (\<open>backend/internal/site/path.go\<close>,
  \<open>mime.go\<close>), and the directory layout the accepted paths are joined to
  (\<open>repoDir\<close>, \<open>gitDir\<close>, \<open>servedDir\<close> of \<open>git_service.go\<close>).
\<close>

section \<open>Definitions\<close>

definition MIMEByExt :: "(string \<times> string) list" where
  "MIMEByExt =
     [(''.html'', ''text/html; charset=utf-8''),
      (''.htm'', ''text/html; charset=utf-8''),
      (''.css'', ''text/css; charset=utf-8''),
      (''.js'', ''text/javascript; charset=utf-8''),
      (''.mjs'', ''text/javascript; charset=utf-8''),
      (''.json'', ''application/json; charset=utf-8''),
      (''.map'', ''application/json; charset=utf-8''),
      (''.svg'', ''image/svg+xml''),
      (''.png'', ''image/png''),
      (''.jpg'', ''image/jpeg''),
      (''.jpeg'', ''image/jpeg''),
      (''.gif'', ''image/gif''),
      (''.webp'', ''image/webp''),
      (''.avif'', ''image/avif''),
      (''.ico'', ''image/x-icon''),
      (''.woff'', ''font/woff''),
      (''.woff2'', ''font/woff2''),
      (''.ttf'', ''font/ttf''),
      (''.otf'', ''font/otf''),
      (''.txt'', ''text/plain; charset=utf-8''),
      (''.xml'', ''application/xml; charset=utf-8''),
      (''.webmanifest'', ''application/manifest+json''),
      (''.manifest'', ''application/manifest+json''),
      (''.pdf'', ''application/pdf''),
      (''.wasm'', ''application/wasm''),
      (''.mp4'', ''video/mp4''),
      (''.webm'', ''video/webm''),
      (''.mp3'', ''audio/mpeg''),
      (''.wav'', ''audio/wav''),
      (''.csv'', ''text/csv; charset=utf-8'')]"

definition mcpWriteDenied :: "string list" where
  "mcpWriteDenied = [''.mp4'', ''.webm'', ''.mp3'', ''.wav'', ''.pdf'']"

text \<open>A missing key of a Go map reads as the zero value, here the empty string.\<close>

definition ContentTypeFor :: "string \<Rightarrow> string" where
  "ContentTypeFor p =
     (case map_of MIMEByExt (go_lower (path_ext p)) of Some t \<Rightarrow> t | None \<Rightarrow> [])"

definition extAllowedForUpload :: "string \<Rightarrow> bool" where
  "extAllowedForUpload p = (map_of MIMEByExt (go_lower (path_ext p)) \<noteq> None)"

definition extAllowedForMCPWrite :: "string \<Rightarrow> bool" where
  "extAllowedForMCPWrite p =
     (let ext = go_lower (path_ext p)
      in if map_of MIMEByExt ext = None then False else ext \<notin> set mcpWriteDenied)"

definition gitDirSegment :: string where
  "gitDirSegment = ''.git''"

abbreviation path_error :: "string \<Rightarrow> site_error option" where
  "path_error why \<equiv> Some (ValidationError ''path'' why)"

text \<open>The loop over the elements of the cleaned path.\<close>

fun check_segments :: "string list \<Rightarrow> site_error option" where
  "check_segments [] = None"
| "check_segments (seg # rest) =
     (if seg = dotdot then path_error ''must not contain \"..\" segments''
      else if seg = gitDirSegment then path_error ''must not reference the \".git\" directory''
      else if has_prefix seg ''-'' then path_error ''path segments must not begin with a dash''
      else check_segments rest)"

definition validatePathWith :: "string \<Rightarrow> (string \<Rightarrow> bool) option \<Rightarrow> site_error option" where
  "validatePathWith p extOK =
     (if p = [] then path_error ''must not be empty''
      else if CHR 0x00 \<in> set p then path_error ''must not contain NUL bytes''
      else if contains p [CHR 0x5C] then path_error ''must use forward slashes''
      else if has_prefix p ''/'' then path_error ''must be repo-relative (no leading slash)''
      else if \<not> is_local p then path_error ''must not escape the repo root''
      else
        let clean = path_clean p in
        if clean = dot \<or> clean = [] then path_error ''must reference a file, not the root''
        else
          case check_segments (split_on slash clean) of
            Some e \<Rightarrow> Some e
          | None \<Rightarrow>
              (case extOK of
                 None \<Rightarrow> None
               | Some ok \<Rightarrow>
                   if \<not> ok clean then path_error ''file extension is not allowed'' else None))"

definition validatePath :: "string \<Rightarrow> site_error option" where
  "validatePath p = validatePathWith p (Some extAllowedForUpload)"

definition validateMCPWritePath :: "string \<Rightarrow> site_error option" where
  "validateMCPWritePath p = validatePathWith p (Some extAllowedForMCPWrite)"

definition validateReadPath :: "string \<Rightarrow> site_error option" where
  "validateReadPath p = validatePathWith p None"

definition validateDir :: "string \<Rightarrow> site_error option" where
  "validateDir dir = (if dir = [] then None else validatePathWith dir None)"

definition isBinaryContent :: "string \<Rightarrow> bool" where
  "isBinaryContent content =
     (let n = (if 8000 < length content then 8000 else length content)
      in list_ex (\<lambda>i. content ! i = CHR 0x00) [0..<n])"

text \<open>The on-disk layout: \<open>root\<close> is \<open>cfg.Root\<close>, \<open>uid\<close> the printed UUID of the site.\<close>

definition repoDir :: "string \<Rightarrow> string \<Rightarrow> string" where
  "repoDir root uid = path_join root uid"

definition gitDir :: "string \<Rightarrow> string \<Rightarrow> string" where
  "gitDir root uid = path_join (repoDir root uid) ''.git''"

definition servedDir :: "string \<Rightarrow> string \<Rightarrow> branch_name \<Rightarrow> string" where
  "servedDir root uid branch = path_join (path_join (repoDir root uid) ''served'') branch"

section \<open>Accepted paths\<close>

definition safe_seg :: "string \<Rightarrow> bool" where
  "safe_seg seg = (plain_seg seg \<and> seg \<noteq> gitDirSegment \<and> \<not> has_prefix seg ''-'')"

lemma check_segments_iff:
  "check_segments segs = None \<longleftrightarrow>
   (\<forall>seg \<in> set segs. seg \<noteq> dotdot \<and> seg \<noteq> gitDirSegment \<and> \<not> has_prefix seg ''-'')"
  by (induction segs) auto

lemma clean_root_iff:
  assumes "\<not> has_prefix p [slash]" and "list_all plain_seg (clean_segs False (split_on slash p))"
  shows "path_clean p = dot \<or> path_clean p = [] \<longleftrightarrow> clean_segs False (split_on slash p) = []"
proof (cases "clean_segs False (split_on slash p)")
  case Nil
  then show ?thesis using assms by (simp add: path_clean_def Let_def)
next
  case (Cons w ws)
  then have "split_on slash (path_clean p) \<noteq> [dot]" "split_on slash (path_clean p) \<noteq> [[]]"
    using split_clean_rel [OF assms(1)] assms(2) by auto
  then show ?thesis using Cons by auto
qed

lemma validatePathWith_iff:
  "validatePathWith p extOK = None \<longleftrightarrow>
   p \<noteq> [] \<and> CHR 0x00 \<notin> set p \<and> CHR 0x5C \<notin> set p \<and> \<not> has_prefix p [slash] \<and>
   clean_segs False (split_on slash p) \<noteq> [] \<and>
   list_all safe_seg (clean_segs False (split_on slash p)) \<and>
   (\<forall>ok. extOK = Some ok \<longrightarrow> ok (path_clean p))"
proof (cases "p \<noteq> [] \<and> CHR 0x00 \<notin> set p \<and> CHR 0x5C \<notin> set p \<and> \<not> has_prefix p [slash] \<and> is_local p")
  case True
  let ?ws = "clean_segs False (split_on slash p)"
  have sp: "split_on slash (path_clean p) = (case ?ws of [] \<Rightarrow> [dot] | ws \<Rightarrow> ws)"
    using True by (intro split_clean_rel) simp
  have plain: "list_all plain_seg ?ws" using True is_local_iff by blast
  have root: "path_clean p = dot \<or> path_clean p = [] \<longleftrightarrow> ?ws = []"
    using True plain by (intro clean_root_iff) simp_all
  show ?thesis
  proof (cases "?ws = []")
    case True2: True
    then show ?thesis using True root by (simp add: validatePathWith_def)
  next
    case False
    then have "split_on slash (path_clean p) = ?ws" using sp by (simp split: list.splits)
    moreover have "(\<forall>seg \<in> set ?ws. seg \<noteq> dotdot \<and> seg \<noteq> gitDirSegment \<and> \<not> has_prefix seg ''-'') \<longleftrightarrow>
        list_all safe_seg ?ws"
      using plain by (auto simp: list_all_iff safe_seg_def)
    ultimately show ?thesis using True root False check_segments_iff [of ?ws]
      by (auto simp: validatePathWith_def Let_def split: option.splits)
  qed
next
  case False
  have "list_all safe_seg xs \<Longrightarrow> list_all plain_seg xs" for xs
    by (auto simp: list_all_iff safe_seg_def)
  then show ?thesis using False is_local_iff [of p] by (auto simp: validatePathWith_def)
qed

lemma validatePathWith_error: "validatePathWith p ok = Some e \<Longrightarrow> err_is e ErrValidation"
proof -
  have "check_segments segs = Some e \<Longrightarrow> err_is e ErrValidation" for segs
    by (induction segs) (auto split: if_splits)
  then show "validatePathWith p ok = Some e \<Longrightarrow> err_is e ErrValidation"
    unfolding validatePathWith_def Let_def by (auto split: if_splits option.splits)
qed

lemma extAllowed_iff_servable: "extAllowedForUpload p \<longleftrightarrow> ContentTypeFor p \<noteq> []"
proof -
  have "map_of MIMEByExt e = Some t \<Longrightarrow> t \<noteq> []" for e t
    using map_of_SomeD [of MIMEByExt e t] by (auto simp: MIMEByExt_def)
  then show ?thesis
    by (auto simp: extAllowedForUpload_def ContentTypeFor_def split: option.splits)
qed

lemma extAllowedForMCPWrite_upload: "extAllowedForMCPWrite p \<Longrightarrow> extAllowedForUpload p"
  by (auto simp: extAllowedForMCPWrite_def extAllowedForUpload_def Let_def split: if_splits)

lemma accepted_local: "validatePathWith p ok = None \<Longrightarrow> is_local p"
  by (auto simp: validatePathWith_iff is_local_iff list_all_iff safe_seg_def)

lemma accepted_join:
  assumes "validatePathWith p ok = None" and "has_prefix root [slash]"
  shows "split_on slash (path_join root p) =
    [] # clean_segs True (split_on slash root) @ clean_segs False (split_on slash p)"
proof -
  have "clean_segs False (split_on slash p) \<noteq> []" using assms(1) by (simp add: validatePathWith_iff)
  then show ?thesis
    using path_join_local_segs [OF accepted_local [OF assms(1)] assms(2)] by (simp split: list.splits)
qed

lemma accepted_stricter:
  "validatePathWith p (Some ok) = None \<Longrightarrow> (\<And>q. ok q \<Longrightarrow> ok' q) \<Longrightarrow> validatePathWith p (Some ok') = None"
  "validatePathWith p (Some ok) = None \<Longrightarrow> validatePathWith p None = None"
  by (simp_all add: validatePathWith_iff)

lemma isBinaryContent_iff: "isBinaryContent content \<longleftrightarrow> CHR 0x00 \<in> set (take 8000 content)"
  by (auto simp: isBinaryContent_def list_ex_iff in_set_conv_nth min_def)

section \<open>Prefixing an accepted path with directories\<close>

lemma host_label_safe: "host_label b \<Longrightarrow> safe_seg b"
proof -
  assume b: "host_label b"
  have "\<not> label_char CHR ''.''" "\<not> label_char slash" by code_simp+
  with b have "CHR ''.'' \<notin> set b" "slash \<notin> set b" by (auto simp: host_label_def)
  then show ?thesis using b
    by (cases b) (auto simp: safe_seg_def plain_seg_def gitDirSegment_def host_label_def)
qed

lemma accepted_below:
  assumes p: "validatePath p = None" and d: "safe_seg d" "CHR 0x00 \<notin> set d" "CHR 0x5C \<notin> set d"
  shows "validatePath (d @ slash # p) = None"
proof -
  let ?ws = "clean_segs False (split_on slash p)"
  have local: "is_local p" and ne: "?ws \<noteq> []" and nr: "\<not> has_prefix p [slash]"
    using p accepted_local by (auto simp: validatePath_def validatePathWith_iff)
  have dp: "plain_seg d" "slash \<notin> set d" "d \<noteq> []" using d(1) by (auto simp: safe_seg_def plain_seg_def)
  have segs: "clean_segs False (split_on slash (d @ slash # p)) = d # ?ws"
    using clean_segs_append_local [OF local, of False "[d]"] dp clean_segs_plain [of "[d]" False]
    by (simp add: split_on_append split_on_single)
  have nr': "\<not> has_prefix (d @ slash # p) [slash]" using dp by (cases d) auto
  have "path_clean p = join_with [slash] ?ws"
    using nr ne clean_body_Nil [of False p] by (simp add: path_clean_def Let_def)
  moreover have "path_clean (d @ slash # p) = d @ slash # join_with [slash] ?ws"
    using nr' segs dp ne by (cases ?ws) (simp_all add: path_clean_def Let_def)
  ultimately have "path_ext (path_clean (d @ slash # p)) = path_ext (path_clean p)"
    by (simp add: path_ext_below)
  then show ?thesis using p segs nr' d
    by (simp add: validatePath_def validatePathWith_iff extAllowedForUpload_def)
qed

section \<open>Properties\<close>

text \<open>
  C10: A path that any of the path gates accepts, joined to a rooted directory, names a file
  below that directory: the directory's own elements are kept as a prefix, at least one
  element follows, and no element after the prefix is empty, ".", "..", ".git" or looks like
  a command-line option.
\<close>

theorem accepted_path_contained:
  assumes "validatePathWith p extOK = None" and "has_prefix root [slash]"
  shows "\<exists>ws. split_on slash (path_join root p) = [] # clean_segs True (split_on slash root) @ ws \<and>
    ws \<noteq> [] \<and> (\<forall>w \<in> set ws. plain_seg w \<and> w \<noteq> ''.git'' \<and> \<not> has_prefix w ''-'')"
  using assms accepted_join [OF assms]
  by (auto simp: validatePathWith_iff list_all_iff safe_seg_def gitDirSegment_def)

theorem accepted_path_contained_witness:
  "\<exists>ws. split_on slash (path_join ''/data/sites/x'' ''css/../img/a.png'') =
      [] # clean_segs True (split_on slash ''/data/sites/x'') @ ws \<and>
    ws \<noteq> [] \<and> (\<forall>w \<in> set ws. plain_seg w \<and> w \<noteq> ''.git'' \<and> \<not> has_prefix w ''-'')"
proof -
  have "validatePathWith ''css/../img/a.png'' (Some extAllowedForUpload) = None" by code_simp
  moreover have "has_prefix ''/data/sites/x'' [slash]" by simp
  ultimately show ?thesis by (rule accepted_path_contained)
qed

text \<open>
  The three path gates are nested (MCP write implies upload, upload implies read), and
  whatever may be uploaded has a content type the serving layer knows.
\<close>

theorem path_gates_nested:
  "(validateMCPWritePath p = None \<longrightarrow> validatePath p = None) \<and>
   (validatePath p = None \<longrightarrow> validateReadPath p = None \<and> ContentTypeFor (path_clean p) \<noteq> [])"
  using accepted_stricter extAllowedForMCPWrite_upload extAllowed_iff_servable
  by (auto simp: validateMCPWritePath_def validatePath_def validateReadPath_def validatePathWith_iff)

theorem path_gates_nested_witness:
  "validatePath ''js/app.mjs'' = None \<and> validateReadPath ''js/app.mjs'' = None \<and>
   ContentTypeFor (path_clean ''js/app.mjs'') \<noteq> []"
proof -
  have "validateMCPWritePath ''js/app.mjs'' = None" by code_simp
  then show ?thesis using path_gates_nested [of "''js/app.mjs''"] by blast
qed

text \<open>
  The upload gate accepts paths inside the served tree: for every accepted file \<open>p\<close> and
  branch \<open>b\<close>, the path \<open>served/b/p\<close> is accepted too and, joined to the repository directory,
  is the file \<open>p\<close> of the directory the branch is served from.
\<close>

theorem served_tree_reachable:
  assumes "validatePath p = None" and "validateBranchName b = None"
    and "has_prefix root [slash]" and "plain_seg uid"
  shows "validatePath (''served/'' @ b @ ''/'' @ p) = None \<and>
    path_join (repoDir root uid) (''served/'' @ b @ ''/'' @ p) = path_join (servedDir root uid b) p"
proof
  let ?q = "''served/'' @ b @ ''/'' @ p"
  have hb: "host_label b" using assms(2) by (simp add: validateBranchName_iff)
  have "\<not> label_char CHR 0x00" "\<not> label_char CHR 0x5C" by code_simp+
  then have "validatePath (b @ slash # p) = None"
    using hb by (intro accepted_below host_label_safe assms(1)) (auto simp: host_label_def)
  then have "validatePath (''served'' @ slash # b @ slash # p) = None"
    by (rule accepted_below) (code_simp | simp)+
  then show "validatePath ?q = None" by simp
  have rd: "has_prefix (repoDir root uid) [slash]"
    unfolding repoDir_def using assms(3,4) by (intro path_join_is_rooted) (auto simp: plain_seg_def)
  have ne: "b \<noteq> []" "p \<noteq> []" using hb assms(1) by (auto simp: host_label_def validatePath_def validatePathWith_iff)
  show "path_join (repoDir root uid) ?q = path_join (servedDir root uid b) p"
    unfolding servedDir_def
    using ne by (simp add: path_join_assoc [OF rd])
qed

theorem served_tree_reachable_witness:
  "validatePath ''served/published/index.html'' = None \<and>
   path_join (repoDir ''/data'' ''u1'') ''served/published/index.html'' =
   path_join (servedDir ''/data'' ''u1'' ''published'') ''index.html''"
proof -
  have "validatePath ''index.html'' = None" "validateBranchName ''published'' = None" by code_simp+
  moreover have "has_prefix ''/data'' [slash]" "plain_seg ''u1''" by (simp_all add: plain_seg_def)
  ultimately show ?thesis using served_tree_reachable [of "''index.html''" "''published''" "''/data''" "''u1''"] by simp
qed

end
