(* ===== verification/Zip_Import.thy ===== *)
theory Zip_Import
  imports Site_Path "HOL-Library.Word"
begin

text \<open>
  The archive gate (\<open>backend/internal/site/zip.go\<close>, the limits of \<open>git_service.go\<close> and
  \<open>readZip\<close> of \<open>fake.go\<close>): every check an uploaded zip passes before anything of it is
  written.

  An archive is what \<open>archive/zip\<close> hands over: a list of entries with the name, the mode
  bits the code asks for, the two declared sizes as 64-bit words, and the byte stream the
  entry decompresses to. A stream may fail to open, or fail after some bytes.
\<close>

section \<open>Definitions\<close>

datatype zip_data = OpenFails | Stream (stream_bytes: string) (stream_fails: bool)

record zip_file =
  zf_name :: string
  zf_isDir :: bool
  zf_symlink :: bool
  zf_regular :: bool
  UncompressedSize64 :: "64 word"
  CompressedSize64 :: "64 word"
  zf_data :: zip_data

datatype zip_reader = NilReader | NotAZip | ZipArchive (zip_files: "zip_file list")

record ZipSource =
  Reader :: zip_reader
  Size :: int
  Filename :: string

record ZipConfig =
  MaxUploadBytes :: int
  MaxUncompressedBytes :: int
  MaxEntries :: int
  MaxEntryUncompressed :: int
  MaxCompressionRatio :: int
  AllowedExt :: "string list"

definition DefaultMaxZipBytes :: int where "DefaultMaxZipBytes = 50 * 2 ^ 20"
definition DefaultMaxUncompressedBytes :: int where "DefaultMaxUncompressedBytes = 200 * 2 ^ 20"
definition DefaultMaxZipEntries :: int where "DefaultMaxZipEntries = 2000"
definition DefaultMaxEntryUncompressed :: int where "DefaultMaxEntryUncompressed = 50 * 2 ^ 20"
definition DefaultMaxCompressionRatio :: int where "DefaultMaxCompressionRatio = 100"

text \<open>The zip part of \<open>Config.withDefaults\<close>.\<close>

definition zip_withDefaults :: "ZipConfig \<Rightarrow> ZipConfig" where
  "zip_withDefaults c = c\<lparr>
     MaxUploadBytes := (if MaxUploadBytes c = 0 then DefaultMaxZipBytes else MaxUploadBytes c),
     MaxUncompressedBytes :=
       (if MaxUncompressedBytes c = 0 then DefaultMaxUncompressedBytes else MaxUncompressedBytes c),
     MaxEntries := (if MaxEntries c = 0 then DefaultMaxZipEntries else MaxEntries c),
     MaxEntryUncompressed :=
       (if MaxEntryUncompressed c = 0 then DefaultMaxEntryUncompressed else MaxEntryUncompressed c),
     MaxCompressionRatio :=
       (if MaxCompressionRatio c = 0 then DefaultMaxCompressionRatio else MaxCompressionRatio c) \<rparr>"

definition zip_zero :: ZipConfig where
  "zip_zero = \<lparr> MaxUploadBytes = 0, MaxUncompressedBytes = 0, MaxEntries = 0,
     MaxEntryUncompressed = 0, MaxCompressionRatio = 0, AllowedExt = [] \<rparr>"

type_synonym zipEntry = "string \<times> string"

definition zipExtAllowed :: "ZipConfig \<Rightarrow> string \<Rightarrow> bool" where
  "zipExtAllowed c p =
     (if AllowedExt c = [] then extAllowedForUpload p
      else list_ex (\<lambda>a. go_lower a = go_lower (go_lower (path_ext p))) (AllowedExt c))"

text \<open>
  \<open>io.ReadAll(io.LimitReader(rc, max + 1))\<close>: at most \<open>max + 1\<close> bytes, and the error of
  the stream only when it is met before that limit.
\<close>

definition read_limited :: "string \<Rightarrow> bool \<Rightarrow> int \<Rightarrow> string option" where
  "read_limited bs fails mx =
     (let n = nat (mx + 1) in if fails \<and> length bs < n then None else Some (take n bs))"

text \<open>The checks on one entry that is not a directory, in the order of the loop body.\<close>

definition zipFileGuard :: "ZipConfig \<Rightarrow> zip_file \<Rightarrow> site_error option" where
  "zipFileGuard c f =
     (let name = zf_name f; clean = path_clean name; segs = split_on slash clean in
      if zf_symlink f then Some (Sentinel ErrZipSlip)
      else if \<not> zf_regular f then Some (Sentinel ErrZipSlip)
      else if \<not> is_local name then Some (Sentinel ErrZipSlip)
      else if clean = dot \<or> has_prefix clean ''../'' \<or> contains clean ''/../'' then
        Some (Sentinel ErrZipSlip)
      else if list_ex (\<lambda>seg. seg = dotdot \<or> seg = gitDirSegment) segs then Some (Sentinel ErrZipSlip)
      else if \<not> zipExtAllowed c clean then Some (Sentinel ErrZipBadType)
      else if UncompressedSize64 f > word_of_int (MaxEntryUncompressed c) then
        Some (Sentinel ErrZipTooLarge)
      else if CompressedSize64 f > 0 then
        (if UncompressedSize64 f div CompressedSize64 f > word_of_int (MaxCompressionRatio c)
         then Some (Sentinel ErrZipTooLarge) else None)
      else if UncompressedSize64 f > word_of_int (MaxCompressionRatio c) then
        Some (Sentinel ErrZipTooLarge)
      else None)"

text \<open>Reading the entry once it has passed.\<close>

definition readZipFile :: "ZipConfig \<Rightarrow> zip_file \<Rightarrow> int \<Rightarrow> site_error + zipEntry" where
  "readZipFile c f tot =
     (case zipFileGuard c f of
        Some e \<Rightarrow> Inl e
      | None \<Rightarrow>
          (case zf_data f of
             OpenFails \<Rightarrow> Inl (ValidationError ''zip'' (''cannot open entry '' @ zf_name f))
           | Stream bs fails \<Rightarrow>
               (case read_limited bs fails (MaxEntryUncompressed c) of
                  None \<Rightarrow> Inl (ValidationError ''zip'' (''cannot read entry '' @ zf_name f))
                | Some content \<Rightarrow>
                    if int (length content) > MaxEntryUncompressed c then Inl (Sentinel ErrZipTooLarge)
                    else if tot + int (length content) > MaxUncompressedBytes c then
                      Inl (Sentinel ErrZipTooLarge)
                    else Inr (path_clean (zf_name f), content))))"

definition zip_dir_entry :: "zip_file \<Rightarrow> bool" where
  "zip_dir_entry f = (has_suffix (zf_name f) ''/'' \<or> zf_isDir f)"

fun readZipFiles :: "ZipConfig \<Rightarrow> zip_file list \<Rightarrow> int \<Rightarrow> site_error + zipEntry list" where
  "readZipFiles c [] tot = Inr []"
| "readZipFiles c (f # fs) tot =
     (if zip_dir_entry f then readZipFiles c fs tot
      else
        (case readZipFile c f tot of
           Inl e \<Rightarrow> Inl e
         | Inr (path, content) \<Rightarrow>
             (case readZipFiles c fs (tot + int (length content)) of
                Inl e \<Rightarrow> Inl e
              | Inr es \<Rightarrow> Inr ((path, content) # es))))"

definition validateAndReadZip :: "ZipConfig \<Rightarrow> zip_file list \<Rightarrow> site_error + zipEntry list" where
  "validateAndReadZip c fs =
     (case readZipFiles c fs 0 of
        Inl e \<Rightarrow> Inl e
      | Inr es \<Rightarrow>
          if es = [] then Inl (ValidationError ''zip'' ''archive contains no allowable files'') else Inr es)"

definition zipEntriesBytes :: "zipEntry list \<Rightarrow> int" where
  "zipEntriesBytes es = foldl (\<lambda>n e. n + int (length (snd e))) 0 es"

text \<open>The gates in front of the loop, shared by \<open>ImportZip\<close>, \<open>extractZipToWorktree\<close> and \<open>readZip\<close>.\<close>

definition openZip :: "ZipConfig \<Rightarrow> ZipSource \<Rightarrow> site_error + zipEntry list" where
  "openZip c src =
     (if Size src > MaxUploadBytes c then Inl (Sentinel ErrZipTooLarge)
      else
        (case Reader src of
           NilReader \<Rightarrow> Inl (ValidationError ''zip'' ''no archive reader'')
         | NotAZip \<Rightarrow> Inl (ValidationError ''zip'' ''not a valid zip archive'')
         | ZipArchive fs \<Rightarrow>
             if int (length fs) > MaxEntries c then Inl (Sentinel ErrZipTooManyFiles)
             else validateAndReadZip c fs))"

definition readZip :: "ZipSource \<Rightarrow> site_error + zipEntry list" where
  "readZip src = openZip (zip_withDefaults zip_zero) src"

section \<open>The accepted archives\<close>

definition zip_config_ok :: "ZipConfig \<Rightarrow> bool" where
  "zip_config_ok c \<longleftrightarrow>
     0 \<le> MaxEntryUncompressed c \<and> MaxEntryUncompressed c < 2 ^ 63 \<and>
     0 \<le> MaxCompressionRatio c \<and> MaxCompressionRatio c < 2 ^ 63"

text \<open>What an entry that is not a directory must be, in mathematical integers.\<close>

definition zip_file_ok :: "ZipConfig \<Rightarrow> zip_file \<Rightarrow> bool" where
  "zip_file_ok c f \<longleftrightarrow>
     \<not> zf_symlink f \<and> zf_regular f \<and> is_local (zf_name f) \<and>
     clean_segs False (split_on slash (zf_name f)) \<noteq> [] \<and>
     gitDirSegment \<notin> set (clean_segs False (split_on slash (zf_name f))) \<and>
     zipExtAllowed c (path_clean (zf_name f)) \<and>
     uint (UncompressedSize64 f) \<le> MaxEntryUncompressed c \<and>
     uint (UncompressedSize64 f) div max 1 (uint (CompressedSize64 f)) \<le> MaxCompressionRatio c \<and>
     (\<exists>bs. zf_data f = Stream bs False \<and> int (length bs) \<le> MaxEntryUncompressed c)"

definition zip_entry :: "zip_file \<Rightarrow> zipEntry" where
  "zip_entry f = (path_clean (zf_name f), stream_bytes (zf_data f))"

lemma word_cap:
  fixes w :: "64 word"
  assumes "0 \<le> m" and "m < 2 ^ 63"
  shows "w > word_of_int m \<longleftrightarrow> m < uint w"
  using assms by (simp add: word_less_def uint_word_of_int)

lemma ratio_cap:
  fixes u v :: "64 word"
  assumes "0 \<le> m" and "m < 2 ^ 63"
  shows "(if v > 0 then u div v > word_of_int m else u > word_of_int m) \<longleftrightarrow>
    m < uint u div max 1 (uint v)"
proof (cases "v > 0")
  case True
  then have "0 < uint v" by (simp add: word_less_def)
  then have "max 1 (uint v) = uint v" by (simp add: max_def)
  then show ?thesis using True assms by (simp add: word_cap uint_div)
next
  case False
  then have "uint v = 0" by (simp add: word_less_def order.antisym not_less)
  then show ?thesis using False assms by (simp add: word_cap)
qed

lemma if_if_None:
  "(if p then (if q then Some e else None) else if r then Some e else None) = None \<longleftrightarrow> \<not> (if p then q else r)"
  by simp

lemma read_limited_ok:
  assumes "0 \<le> mx"
  shows "(\<exists>content. read_limited bs fails mx = Some content \<and> int (length content) \<le> mx \<and> P content) \<longleftrightarrow>
    \<not> fails \<and> int (length bs) \<le> mx \<and> P bs"
proof (cases "int (length bs) \<le> mx")
  case True
  then have "length bs < nat (mx + 1)" by linarith
  then show ?thesis using True by (simp add: read_limited_def Let_def)
next
  case False
  then have "nat (mx + 1) \<le> length bs" by linarith
  moreover from this assms have "\<not> int (length (take (nat (mx + 1)) bs)) \<le> mx" by simp
  ultimately show ?thesis using False by (auto simp: read_limited_def Let_def)
qed

text \<open>The three traversal checks are one: no parent element after cleaning.\<close>

lemma contains_updir: "contains s ''/../'' \<Longrightarrow> dotdot \<in> set (split_on slash s)"
proof -
  assume "contains s ''/../''"
  then obtain a b where "s = a @ slash # dotdot @ slash # b" by (auto simp: contains_iff)
  then have "split_on slash s = split_on slash a @ split_on slash (dotdot @ slash # b)"
    by (simp only: split_on_append)
  moreover have "split_on slash (dotdot @ slash # b) = [dotdot] @ split_on slash b"
    by (simp only: split_on_append) simp
  ultimately show ?thesis by simp
qed

lemma split_on_dot: "split_on slash dot = [dot]"
  by simp

lemma local_clean_checks:
  assumes "is_local p"
  shows "\<not> (path_clean p = dot \<or> has_prefix (path_clean p) ''../'' \<or> contains (path_clean p) ''/../'') \<longleftrightarrow>
      clean_segs False (split_on slash p) \<noteq> []"
    and "clean_segs False (split_on slash p) \<noteq> [] \<Longrightarrow>
      split_on slash (path_clean p) = clean_segs False (split_on slash p)"
    and "dotdot \<notin> set (clean_segs False (split_on slash p))"
proof -
  let ?ws = "clean_segs False (split_on slash p)"
  have nr: "\<not> has_prefix p [slash]" and pl: "list_all plain_seg ?ws"
    using assms by (auto simp: is_local_iff)
  show nd: "dotdot \<notin> set ?ws" using pl by (auto simp: list_all_iff dest: bspec [of _ _ dotdot])
  show sp: "split_on slash (path_clean p) = ?ws" if "?ws \<noteq> []"
    using that split_clean_rel [OF nr] by (simp split: list.splits)
  show "\<not> (path_clean p = dot \<or> has_prefix (path_clean p) ''../'' \<or> contains (path_clean p) ''/../'') \<longleftrightarrow>
      ?ws \<noteq> []"
  proof (cases "?ws = []")
    case True
    then show ?thesis using nr by (simp add: path_clean_def Let_def)
  next
    case False
    have "path_clean p \<noteq> dot"
    proof
      assume "path_clean p = dot"
      then have "?ws = [dot]" using sp [OF False] by (simp only: split_on_dot)
      then show False using pl by simp
    qed
    moreover have "\<not> has_prefix (path_clean p) ''../''" "\<not> contains (path_clean p) ''/../''"
      using sp [OF False] nd dotdot_seg contains_updir by metis+
    ultimately show ?thesis using False by simp
  qed
qed

definition zip_guard_ok :: "ZipConfig \<Rightarrow> zip_file \<Rightarrow> bool" where
  "zip_guard_ok c f \<longleftrightarrow>
     \<not> zf_symlink f \<and> zf_regular f \<and> is_local (zf_name f) \<and>
     clean_segs False (split_on slash (zf_name f)) \<noteq> [] \<and>
     gitDirSegment \<notin> set (clean_segs False (split_on slash (zf_name f))) \<and>
     zipExtAllowed c (path_clean (zf_name f)) \<and>
     uint (UncompressedSize64 f) \<le> MaxEntryUncompressed c \<and>
     uint (UncompressedSize64 f) div max 1 (uint (CompressedSize64 f)) \<le> MaxCompressionRatio c"

lemma zipFileGuard_iff:
  assumes "zip_config_ok c"
  shows "zipFileGuard c f = None \<longleftrightarrow> zip_guard_ok c f"
proof (cases "\<not> zf_symlink f \<and> zf_regular f \<and> is_local (zf_name f)")
  case False
  then show ?thesis by (auto simp: zipFileGuard_def Let_def zip_guard_ok_def)
next
  case True
  let ?p = "zf_name f" and ?ws = "clean_segs False (split_on slash (zf_name f))"
  have c: "0 \<le> MaxEntryUncompressed c" "MaxEntryUncompressed c < 2 ^ 63"
      "0 \<le> MaxCompressionRatio c" "MaxCompressionRatio c < 2 ^ 63"
    using assms by (auto simp: zip_config_ok_def)
  note lc = local_clean_checks [of ?p]
  have ratio: "(if CompressedSize64 f > 0
      then (if UncompressedSize64 f div CompressedSize64 f > word_of_int (MaxCompressionRatio c)
            then Some (Sentinel ErrZipTooLarge) else None)
      else if UncompressedSize64 f > word_of_int (MaxCompressionRatio c)
      then Some (Sentinel ErrZipTooLarge) else None) = None \<longleftrightarrow>
      uint (UncompressedSize64 f) div max 1 (uint (CompressedSize64 f)) \<le> MaxCompressionRatio c"
    unfolding if_if_None ratio_cap [OF c(3,4)] by (rule not_less)
  show ?thesis
  proof (cases "?ws = []")
    case empty: True
    then show ?thesis using True lc(1) by (simp add: zipFileGuard_def Let_def zip_guard_ok_def)
  next
    case False
    then have "list_ex (\<lambda>seg. seg = dotdot \<or> seg = gitDirSegment) (split_on slash (path_clean ?p)) \<longleftrightarrow>
        gitDirSegment \<in> set ?ws"
      using True lc(2,3) by (auto simp: list_ex_iff)
    then show ?thesis using True False lc(1)
      by (simp add: zipFileGuard_def Let_def zip_guard_ok_def word_cap [OF c(1,2)] ratio not_less)
  qed
qed

lemma readZipFile_iff:
  assumes "zip_config_ok c"
  shows "readZipFile c f tot = Inr e \<longleftrightarrow>
    zip_file_ok c f \<and> e = zip_entry f \<and> tot + int (length (snd e)) \<le> MaxUncompressedBytes c"
proof (cases "zip_guard_ok c f")
  case False
  then show ?thesis using zipFileGuard_iff [OF assms, of f]
    by (auto simp: readZipFile_def zip_file_ok_def zip_guard_ok_def split: option.splits)
next
  case True
  have c: "0 \<le> MaxEntryUncompressed c" using assms by (auto simp: zip_config_ok_def)
  have ok: "zip_file_ok c f \<longleftrightarrow>
      (\<exists>bs. zf_data f = Stream bs False \<and> int (length bs) \<le> MaxEntryUncompressed c)"
    using True by (simp add: zip_file_ok_def zip_guard_ok_def)
  show ?thesis
  proof (cases "zf_data f")
    case OpenFails
    then show ?thesis using ok True zipFileGuard_iff [OF assms, of f] by (simp add: readZipFile_def)
  next
    case (Stream bs fails)
    have "readZipFile c f tot = Inr e \<longleftrightarrow>
      (\<exists>content. read_limited bs fails (MaxEntryUncompressed c) = Some content \<and>
         int (length content) \<le> MaxEntryUncompressed c \<and>
         tot + int (length content) \<le> MaxUncompressedBytes c \<and> e = (path_clean (zf_name f), content))"
      using Stream True zipFileGuard_iff [OF assms, of f] by (auto simp: readZipFile_def split: option.splits)
    also have "\<dots> \<longleftrightarrow> \<not> fails \<and> int (length bs) \<le> MaxEntryUncompressed c \<and>
        tot + int (length bs) \<le> MaxUncompressedBytes c \<and> e = (path_clean (zf_name f), bs)"
      by (rule read_limited_ok [OF c])
    finally show ?thesis using ok Stream by (auto simp: zip_entry_def)
  qed
qed

lemma readZipFiles_iff:
  assumes "zip_config_ok c" and "0 \<le> tot" and "tot \<le> MaxUncompressedBytes c"
  shows "readZipFiles c fs tot = Inr es \<longleftrightarrow>
    (\<forall>f \<in> set fs. zip_dir_entry f \<or> zip_file_ok c f) \<and>
    es = map zip_entry (filter (\<lambda>f. \<not> zip_dir_entry f) fs) \<and>
    tot + sum_list (map (\<lambda>e. int (length (snd e))) es) \<le> MaxUncompressedBytes c"
  using assms(2,3)
proof (induction fs arbitrary: tot es)
  case (Cons f fs)
  have nn: "0 \<le> sum_list (map (\<lambda>e. int (length (snd e))) xs)" for xs :: "zipEntry list"
    by (rule sum_list_nonneg) auto
  show ?case
  proof (cases "zip_dir_entry f")
    case True
    then show ?thesis using Cons by simp
  next
    case regular: False
    show ?thesis
    proof (cases "readZipFile c f tot")
      case (Inl e)
      then have no: "\<not> (zip_file_ok c f \<and> tot + int (length (snd (zip_entry f))) \<le> MaxUncompressedBytes c)"
        using readZipFile_iff [OF assms(1), of f tot "zip_entry f"] by simp
      have "\<not> (zip_file_ok c f \<and> es = zip_entry f # es' \<and>
          tot + sum_list (map (\<lambda>e. int (length (snd e))) es) \<le> MaxUncompressedBytes c)" for es'
        using no nn [of es'] by auto
      from this [of "map zip_entry (filter (\<lambda>f. \<not> zip_dir_entry f) fs)"] show ?thesis
        using Inl regular by (auto simp del: map_map)
    next
      case (Inr e)
      then have ok: "zip_file_ok c f" "e = zip_entry f"
          "tot + int (length (snd e)) \<le> MaxUncompressedBytes c"
        using readZipFile_iff [OF assms(1)] by auto
      have IH: "readZipFiles c fs (tot + int (length (snd e))) = Inr es' \<longleftrightarrow>
          (\<forall>f \<in> set fs. zip_dir_entry f \<or> zip_file_ok c f) \<and>
          es' = map zip_entry (filter (\<lambda>f. \<not> zip_dir_entry f) fs) \<and>
          tot + int (length (snd e)) + sum_list (map (\<lambda>e. int (length (snd e))) es') \<le> MaxUncompressedBytes c" for es'
        using Cons.IH [of "tot + int (length (snd e))" es'] ok Cons.prems by simp
      have "readZipFiles c (f # fs) tot = Inr es \<longleftrightarrow>
          (\<exists>es'. es = e # es' \<and> readZipFiles c fs (tot + int (length (snd e))) = Inr es')"
        using Inr regular by (cases e) (auto split: sum.splits)
      then show ?thesis unfolding IH using ok regular by (auto simp: add.assoc simp del: map_map)
    qed
  qed
qed auto

lemma zipEntriesBytes_sum: "zipEntriesBytes es = sum_list (map (\<lambda>e. int (length (snd e))) es)"
proof -
  have "foldl (\<lambda>n e. n + int (length (snd e))) n es = n + sum_list (map (\<lambda>e. int (length (snd e))) es)" for n
    by (induction es arbitrary: n) (auto simp: add.assoc)
  then show ?thesis by (simp add: zipEntriesBytes_def)
qed

lemma validateAndReadZip_iff:
  assumes "zip_config_ok c" and "0 \<le> MaxUncompressedBytes c"
  shows "validateAndReadZip c fs = Inr es \<longleftrightarrow>
    es \<noteq> [] \<and> (\<forall>f \<in> set fs. zip_dir_entry f \<or> zip_file_ok c f) \<and>
    es = map zip_entry (filter (\<lambda>f. \<not> zip_dir_entry f) fs) \<and>
    zipEntriesBytes es \<le> MaxUncompressedBytes c"
  using readZipFiles_iff [OF assms(1), of 0 fs] assms(2)
  by (auto simp: validateAndReadZip_def zipEntriesBytes_sum split: sum.splits if_splits)

lemma zip_file_ok_path:
  assumes "zip_file_ok c f"
  shows "is_local (fst (zip_entry f))" and "path_clean (fst (zip_entry f)) = fst (zip_entry f)"
    and "list_all (\<lambda>w. plain_seg w \<and> w \<noteq> gitDirSegment) (split_on slash (fst (zip_entry f)))"
    and "int (length (snd (zip_entry f))) \<le> MaxEntryUncompressed c"
    and "zipExtAllowed c (fst (zip_entry f))"
proof -
  let ?p = "zf_name f"
  have loc: "is_local ?p" and ne: "clean_segs False (split_on slash ?p) \<noteq> []"
    and ng: "gitDirSegment \<notin> set (clean_segs False (split_on slash ?p))"
    using assms by (auto simp: zip_file_ok_def)
  have sp: "split_on slash (path_clean ?p) = clean_segs False (split_on slash ?p)"
    using local_clean_checks(2) [OF loc ne] .
  show segs: "list_all (\<lambda>w. plain_seg w \<and> w \<noteq> gitDirSegment) (split_on slash (fst (zip_entry f)))"
    using is_local_plain [OF loc] ng by (auto simp: zip_entry_def sp list_all_iff)
  then have pl: "list_all plain_seg (split_on slash (path_clean ?p))"
    by (auto simp: zip_entry_def list_all_iff)
  then have nr: "\<not> has_prefix (path_clean ?p) [slash]" "path_clean ?p \<noteq> []"
    by (auto simp: has_prefix_iff)
  then show "is_local (fst (zip_entry f))"
    using clean_segs_plain [OF pl, of False] pl by (simp add: is_local_iff zip_entry_def)
  show "path_clean (fst (zip_entry f)) = fst (zip_entry f)" by (simp add: zip_entry_def path_clean_idem)
  show "int (length (snd (zip_entry f))) \<le> MaxEntryUncompressed c" "zipExtAllowed c (fst (zip_entry f))"
    using assms by (auto simp: zip_file_ok_def zip_entry_def)
qed

lemma zipFileGuard_errors:
  "zipFileGuard c f = Some e \<Longrightarrow> err_is e ErrZipSlip \<or> err_is e ErrZipBadType \<or> err_is e ErrZipTooLarge"
  by (simp only: zipFileGuard_def Let_def split: if_splits) auto

lemma readZipFile_errors:
  "readZipFile c f tot = Inl e \<Longrightarrow>
   err_is e ErrZipSlip \<or> err_is e ErrZipBadType \<or> err_is e ErrZipTooLarge \<or> err_is e ErrValidation"
  using zipFileGuard_errors [of c f e]
  by (auto simp: readZipFile_def split: option.splits zip_data.splits if_splits)

lemma readZipFiles_errors:
  "readZipFiles c fs tot = Inl e \<Longrightarrow>
   err_is e ErrZipSlip \<or> err_is e ErrZipBadType \<or> err_is e ErrZipTooLarge \<or> err_is e ErrValidation"
  by (induction c fs tot rule: readZipFiles.induct)
    (auto split: if_splits sum.splits prod.splits dest: readZipFile_errors)

lemma openZip_errors:
  "openZip c src = Inl e \<Longrightarrow> statusFor (Some e) \<in> {400, 413, 415, 422}"
proof -
  assume "openZip c src = Inl e"
  then have "err_is e ErrZipSlip \<or> err_is e ErrZipBadType \<or> err_is e ErrZipTooLarge \<or>
      err_is e ErrValidation \<or> err_is e ErrZipTooManyFiles"
    by (auto simp: openZip_def validateAndReadZip_def split: if_splits zip_reader.splits sum.splits
        dest: readZipFiles_errors)
  then show ?thesis by (auto simp: statusFor_category)
qed

lemma default_zip_config:
  "zip_config_ok (zip_withDefaults zip_zero)" "0 \<le> MaxUncompressedBytes (zip_withDefaults zip_zero)"
  by (simp_all add: zip_config_ok_def zip_withDefaults_def zip_zero_def DefaultMaxEntryUncompressed_def
      DefaultMaxCompressionRatio_def DefaultMaxUncompressedBytes_def)

section \<open>An example archive\<close>

definition example_dir :: zip_file where
  "example_dir = \<lparr> zf_name = ''css/'', zf_isDir = True, zf_symlink = False, zf_regular = False,
     UncompressedSize64 = 0, CompressedSize64 = 0, zf_data = OpenFails \<rparr>"

definition example_css :: zip_file where
  "example_css = \<lparr> zf_name = ''css/./a.css'', zf_isDir = False, zf_symlink = False, zf_regular = True,
     UncompressedSize64 = 4, CompressedSize64 = 6, zf_data = Stream ''a{ }'' False \<rparr>"

definition example_zip :: ZipSource where
  "example_zip = \<lparr> Reader = ZipArchive [example_dir, example_css], Size = 200, Filename = ''site.zip'' \<rparr>"

lemma example_zip_accepted:
  "openZip (zip_withDefaults zip_zero) example_zip = Inr [(''css/a.css'', ''a{ }'')]"
proof -
  let ?c = "zip_withDefaults zip_zero"
  have lims: "MaxEntryUncompressed ?c = 50 * 2 ^ 20" "MaxCompressionRatio ?c = 100"
      "MaxUncompressedBytes ?c = 200 * 2 ^ 20" "MaxEntries ?c = 2000" "MaxUploadBytes ?c = 50 * 2 ^ 20"
    by code_simp+
  have "is_local ''css/./a.css''" "clean_segs False (split_on slash ''css/./a.css'') = [''css'', ''a.css'']"
      "zipExtAllowed ?c (path_clean ''css/./a.css'')" "path_clean ''css/./a.css'' = ''css/a.css''"
    by code_simp+
  then have ok: "zip_file_ok ?c example_css" "zip_entry example_css = (''css/a.css'', ''a{ }'')"
    by (simp_all add: zip_file_ok_def zip_entry_def example_css_def lims gitDirSegment_def)
  have dirs: "zip_dir_entry example_dir" "\<not> zip_dir_entry example_css" by code_simp+
  have "validateAndReadZip ?c [example_dir, example_css] = Inr [(''css/a.css'', ''a{ }'')]"
    using validateAndReadZip_iff [OF default_zip_config, of "[example_dir, example_css]"] ok dirs
    by (simp add: zipEntriesBytes_def lims)
  then show ?thesis by (simp add: openZip_def example_zip_def lims)
qed

section \<open>Properties\<close>



text \<open>
  Whatever \<open>readZip\<close> accepts is safe to write: every path is local, already clean, free
  of ".", ".." and ".git" elements and of an uploadable type, so that joined to a rooted
  directory it stays below it; no file exceeds 50 MiB and all together do not exceed 200 MiB.
\<close>

theorem zip_entries_contained:
  assumes "readZip src = Inr es" and "(p, content) \<in> set es" and "has_prefix root [slash]"
  shows "extAllowedForUpload p \<and> path_clean p = p \<and>
    (\<forall>w \<in> set (split_on slash p). plain_seg w \<and> w \<noteq> ''.git'') \<and>
    split_on slash (path_join root p) = [] # clean_segs True (split_on slash root) @ split_on slash p \<and>
    length content \<le> 50 * 2 ^ 20 \<and> zipEntriesBytes es \<le> 200 * 2 ^ 20"
proof -
  let ?c = "zip_withDefaults zip_zero"
  have gate: "openZip ?c src = Inr es" using assms(1) by (simp add: readZip_def)
  then obtain fs where fs: "validateAndReadZip ?c fs = Inr es"
    by (auto simp: openZip_def split: if_splits zip_reader.splits)
  then have es: "\<forall>f \<in> set fs. zip_dir_entry f \<or> zip_file_ok ?c f"
      "es = map zip_entry (filter (\<lambda>f. \<not> zip_dir_entry f) fs)"
      "zipEntriesBytes es \<le> MaxUncompressedBytes ?c"
    using validateAndReadZip_iff [OF default_zip_config] by blast+
  then obtain f where f: "zip_file_ok ?c f" "(p, content) = zip_entry f" using assms(2) by auto
  note path = zip_file_ok_path [OF f(1), folded f(2), simplified]
  have pl: "list_all plain_seg (split_on slash p)" using path(3) by (auto simp: list_all_iff)
  have "split_on slash (path_join root p) = [] # clean_segs True (split_on slash root) @ split_on slash p"
    using path_join_local_segs [OF path(1) assms(3)] clean_segs_plain [OF pl, of False]
    by (simp split: list.splits)
  moreover have "MaxEntryUncompressed ?c = 50 * 2 ^ 20" "MaxUncompressedBytes ?c = 200 * 2 ^ 20"
    by code_simp+
  moreover have "AllowedExt ?c = []" by code_simp
  ultimately show ?thesis using path es(3)
    by (auto simp: zipExtAllowed_def list_all_iff gitDirSegment_def)
qed

theorem zip_entries_contained_witness:
  "split_on slash (path_join ''/data/r'' ''css/a.css'') =
     [] # clean_segs True (split_on slash ''/data/r'') @ split_on slash ''css/a.css''"
proof -
  have "readZip example_zip = Inr [(''css/a.css'', ''a{ }'')]"
    by (simp add: readZip_def example_zip_accepted)
  from zip_entries_contained [OF this, of "''css/a.css''" "''a{ }''" "''/data/r''"]
  show ?thesis by simp
qed

end
