(* ===== verification/Site_Types.thy ===== *)
theory Site_Types
  imports Zip_Import
begin

text \<open>
  The domain records of package \<open>site\<close> (\<open>backend/internal/site/service.go\<close> and
  \<open>store.go\<close>): what the service returns, what it takes, and the metadata row of a site.

  A \<open>uuid.UUID\<close> is its canonical text, a \<open>time.Time\<close> a number of nanoseconds, a
  \<open>*string\<close> or \<open>*time.Time\<close> an option.
\<close>

type_synonym uuid = string

definition uuid_Nil :: uuid where
  "uuid_Nil = ''00000000-0000-0000-0000-000000000000''"

text \<open>A tree is a map from a repo-relative path to the bytes of the file.\<close>

type_synonym tree = "(string, string) gomap"

definition SourceUpload :: string where "SourceUpload = ''upload''"
definition SourceEditor :: string where "SourceEditor = ''editor''"
definition SourceMCP :: string where "SourceMCP = ''mcp''"
definition SourceSystem :: string where "SourceSystem = ''system''"

record Actor =
  ac_UserID :: uuid
  ac_Name :: string
  ac_Email :: string
  ac_Via :: string
  ac_TokenID :: "uuid option"

record Site =
  st_ID :: uuid
  st_Handle :: handle
  st_OwnerID :: uuid
  st_Visibility :: string
  st_DefaultBranch :: branch_name
  st_GitHubRepo :: string
  st_PublishMode :: string
  st_WebRoot :: string
  st_HasPublished :: bool
  st_PublishedSHA :: string
  st_PublishedAt :: "int option"
  st_CacheVersion :: int
  st_Description :: string
  st_CreatedAt :: int
  st_UpdatedAt :: int

record CommitInfo =
  ci_SHA :: string
  ci_ShortSHA :: string
  ci_Message :: string
  ci_AuthorName :: string
  ci_AuthorEmail :: string
  ci_Committed :: int
  ci_Parents :: "string list"
  ci_Via :: string

record Branch =
  br_Name :: branch_name
  br_HeadSHA :: string
  br_IsPublished :: bool
  br_LastCommit :: CommitInfo
  br_PreviewSubdomain :: string

record FileEntry =
  fe_Path :: string
  fe_Name :: string
  fe_IsDir :: bool
  fe_Size :: int
  fe_Mode :: string

record FileContent =
  fc_Path :: string
  fc_Content :: string
  fc_SHA :: string
  fc_BlobSHA :: string
  fc_Size :: int
  fc_IsBinary :: bool

record FileDiff =
  fd_Path :: string
  fd_OldPath :: string
  fd_Status :: string
  fd_Additions :: int
  fd_Deletions :: int
  fd_IsBinary :: bool
  fd_UnifiedPatch :: string

record DiffResult =
  dr_FromSHA :: string
  dr_ToSHA :: string
  dr_Files :: "FileDiff list"

record ServeTarget =
  sv_SiteID :: uuid
  sv_Handle :: handle
  sv_Branch :: branch_name
  sv_Root :: string
  sv_HeadSHA :: string

record TreeHandle =
  th_Root :: string
  th_CommitSHA :: string
  th_CommitTime :: int
  th_Exists :: bool

record CreateSiteInput =
  cs_Handle :: handle
  cs_OwnerID :: uuid
  cs_Visibility :: string
  cs_PublishMode :: string
  cs_Description :: string
  cs_Zip :: "ZipSource option"
  cs_GitHubRepo :: string
  cs_Actor :: Actor

record WriteFileInput =
  wf_SiteID :: uuid
  wf_Branch :: branch_name
  wf_Path :: string
  wf_Content :: string
  wf_BaseSHA :: string
  wf_Commit :: bool
  wf_Message :: string
  wf_Actor :: Actor

record CommitInput =
  cm_SiteID :: uuid
  cm_Branch :: branch_name
  cm_Message :: string
  cm_BaseSHA :: string
  cm_Actor :: Actor

record ListFilesInput =
  lf_SiteID :: uuid
  lf_Branch :: branch_name
  lf_Dir :: string
  lf_Ref :: string
  lf_Recursive :: bool

record PublishInput =
  pu_SiteID :: uuid
  pu_From :: branch_name
  pu_BaseSHA :: string
  pu_Message :: string
  pu_Actor :: Actor

record DiffOptions =
  do_SiteID :: uuid
  do_From :: string
  do_To :: string
  do_Path :: string
  do_ContextLines :: int
  do_NameStatus :: bool

record LogOptions =
  lo_SiteID :: uuid
  lo_Branch :: branch_name
  lo_Limit :: int
  lo_Before :: string
  lo_Path :: string

text \<open>\<open>SiteRecord\<close>, the persisted metadata row, and its public view.\<close>

record SiteRecord =
  sr_ID :: uuid
  sr_Handle :: string
  sr_OwnerID :: uuid
  sr_Visibility :: string
  sr_DefaultBranch :: string
  sr_PublishedSHA :: "string option"
  sr_PublishedAt :: "int option"
  sr_PublishMode :: string
  sr_GitHubRepo :: "string option"
  sr_WebRoot :: string
  sr_Description :: string
  sr_CacheVersion :: int
  sr_DeletedAt :: "int option"
  sr_CreatedAt :: int
  sr_UpdatedAt :: int

definition toSite :: "SiteRecord \<Rightarrow> Site" where
  "toSite r =
     (let published = (case sr_PublishedSHA r of Some sha \<Rightarrow> sha \<noteq> [] | None \<Rightarrow> False)
      in \<lparr> st_ID = sr_ID r, st_Handle = sr_Handle r, st_OwnerID = sr_OwnerID r,
           st_Visibility = sr_Visibility r, st_DefaultBranch = sr_DefaultBranch r,
           st_GitHubRepo = (case sr_GitHubRepo r of Some g \<Rightarrow> g | None \<Rightarrow> []),
           st_PublishMode = sr_PublishMode r, st_WebRoot = sr_WebRoot r,
           st_HasPublished = published,
           st_PublishedSHA = (if published then the (sr_PublishedSHA r) else []),
           st_PublishedAt = sr_PublishedAt r, st_CacheVersion = sr_CacheVersion r,
           st_Description = sr_Description r, st_CreatedAt = sr_CreatedAt r,
           st_UpdatedAt = sr_UpdatedAt r \<rparr>)"

section \<open>Small helpers of the service\<close>

definition emptyToNil :: "string \<Rightarrow> string option" where
  "emptyToNil s = (if s = [] then None else Some s)"

definition refuseProtectedBranch :: "branch_name \<Rightarrow> site_error option" where
  "refuseProtectedBranch b =
     (if b = BranchPublished then
        Some (ValidationError ''branch'' ''cannot write directly to the published branch'')
      else if b = [] then Some (ValidationError ''branch'' ''required'')
      else None)"

definition newline :: string where
  "newline = [CHR 0x0A]"

definition html_escape_char :: "char \<Rightarrow> string" where
  "html_escape_char c =
     (if c = CHR ''&'' then ''&amp;''
      else if c = CHR ''<'' then ''&lt;''
      else if c = CHR ''>'' then ''&gt;''
      else if c = CHR 0x22 then ''&quot;''
      else [c])"

definition htmlEscape :: "string \<Rightarrow> string" where
  "htmlEscape s = concat (map html_escape_char s)"

definition defaultIndexHTML :: "string \<Rightarrow> string" where
  "defaultIndexHTML h =
     ''<!doctype html>'' @ newline @ ''<html lang=\"en\">'' @ newline @ ''<head>'' @ newline @
     ''<meta charset=\"utf-8\">'' @ newline @
     ''<meta name=\"viewport\" content=\"width=device-width, initial-scale=1\">'' @ newline @
     ''<title>'' @ htmlEscape h @ ''</title>'' @ newline @ ''</head>'' @ newline @ ''<body>'' @ newline @
     ''<main><h1>'' @ htmlEscape h @ ''</h1>'' @ newline @
     ''<p>This kotoji site is ready. Edit <code>index.html</code> to begin.</p></main>'' @ newline @
     ''</body>'' @ newline @ ''</html>'' @ newline"

definition parseHostOrPath :: "string \<Rightarrow> site_error + handle \<times> branch_name" where
  "parseHostOrPath hostOrPath =
     (let s = go_lower (trim_space hostOrPath) in
      if s = [] then Inl (ValidationError ''host'' ''empty host/path'')
      else
        let label =
          (if has_prefix s ''/host/'' then
             let rest = trim_prefix (trim_prefix s ''/host/'') ''/'' in
             (case index_byte rest slash of Some i \<Rightarrow> take i rest | None \<Rightarrow> rest)
           else
             let host = (case index_byte s CHR '':'' of Some i \<Rightarrow> take i s | None \<Rightarrow> s) in
             (case index_byte host CHR ''.'' of Some i \<Rightarrow> take i host | None \<Rightarrow> host))
        in if label = [] then Inl (ValidationError ''host'' ''no project label'')
           else Inr (splitLabel label))"

lemma htmlEscape_safe:
  "set (htmlEscape s) \<inter> {CHR ''<'', CHR ''>'', CHR 0x22} = {}"
  by (induction s) (auto simp: htmlEscape_def html_escape_char_def)

lemma refuseProtectedBranch_iff: "refuseProtectedBranch b = None \<longleftrightarrow> b \<noteq> BranchPublished \<and> b \<noteq> []"
  by (simp add: refuseProtectedBranch_def)

end
