(* ===== verification/Tree_Ops.thy ===== *)
theory Tree_Ops
  imports Site_Types "HOL-Library.List_Lexorder" "HOL-Library.Char_ord"
begin

text \<open>
  The pure operations on tree snapshots that the in-memory service is built from
  (\<open>backend/internal/site/fake_helpers.go\<close>, \<open>lastSegment\<close> of \<open>git_helpers.go\<close>): listing,
  three-way conflict detection and merging, equality, diffing.

  \<open>sort.Slice\<close> and \<open>sort.Strings\<close> order by bytes; a Go map is ranged over in the order of
  the association list, and the lemmas below hold for every such order.
\<close>

section \<open>Definitions\<close>

definition lastSegment :: "string \<Rightarrow> string" where
  "lastSegment p = (case last_index_byte p slash of Some i \<Rightarrow> drop (i + 1) p | None \<Rightarrow> p)"

definition list_prefix :: "string \<Rightarrow> string" where
  "list_prefix dir = (if dir = [] then [] else trim_suffix dir ''/'' @ ''/'')"

definition tree_scope :: "tree \<Rightarrow> string \<Rightarrow> (string \<times> string) list" where
  "tree_scope t pre =
     filter (\<lambda>e. (pre = [] \<or> has_prefix (fst e) pre) \<and> trim_prefix (fst e) pre \<noteq> []) t"

definition parent_dirs :: "string \<Rightarrow> string \<Rightarrow> string list" where
  "parent_dirs pre rel =
     (let segs = split_on slash rel
      in map (\<lambda>i. pre @ join_with ''/'' (take (i + 1) segs)) [0..<length segs - 1])"

definition listTree :: "tree \<Rightarrow> string \<Rightarrow> bool \<Rightarrow> FileEntry list" where
  "listTree t dir recursive =
     (let pre = list_prefix dir;
          scope = tree_scope t pre;
          files = (if recursive then scope
                   else filter (\<lambda>e. slash \<notin> set (trim_prefix (fst e) pre)) scope);
          dirs = remdups
            (if recursive then concat (map (\<lambda>e. parent_dirs pre (trim_prefix (fst e) pre)) scope)
             else concat (map (\<lambda>e. case index_byte (trim_prefix (fst e) pre) slash of
                                     Some i \<Rightarrow> [pre @ take i (trim_prefix (fst e) pre)]
                                   | None \<Rightarrow> []) scope))
      in sort_key fe_Path
           (map (\<lambda>e. \<lparr> fe_Path = fst e, fe_Name = lastSegment (fst e), fe_IsDir = False,
                       fe_Size = int (length (snd e)), fe_Mode = ''100644'' \<rparr>) files @
            map (\<lambda>p. \<lparr> fe_Path = p, fe_Name = lastSegment p, fe_IsDir = True, fe_Size = 0,
                       fe_Mode = ''040000'' \<rparr>) dirs))"

definition changed_from :: "tree \<Rightarrow> tree \<Rightarrow> string \<Rightarrow> bool" where
  "changed_from base t p =
     (case (gm_get t p, gm_get base p) of
        (Some v, Some b) \<Rightarrow> v \<noteq> b
      | (None, None) \<Rightarrow> False
      | _ \<Rightarrow> True)"

definition conflictingPaths :: "tree \<Rightarrow> tree \<Rightarrow> tree \<Rightarrow> string list" where
  "conflictingPaths pub src base =
     (let seen = remdups (gm_keys pub @ gm_keys src);
          conflict = (\<lambda>p. changed_from base pub p \<and> changed_from base src p \<and>
            \<not> (gm_get pub p \<noteq> None \<and> gm_get src p \<noteq> None \<and> gm_get pub p = gm_get src p))
      in sort (filter conflict seen))"

definition mergeTrees :: "tree \<Rightarrow> tree \<Rightarrow> tree" where
  "mergeTrees pub src = foldl (\<lambda>t e. gm_put (fst e) (snd e) t) pub src"

definition treesEqual :: "tree \<Rightarrow> tree \<Rightarrow> bool" where
  "treesEqual a b =
     (if gm_len a \<noteq> gm_len b then False
      else list_all (\<lambda>e. gm_get b (fst e) = Some (snd e)) a)"

definition lineCount :: "string \<Rightarrow> nat" where
  "lineCount b =
     (if b = [] then 0
      else let n = length (filter (\<lambda>c. c = CHR 0x0A) b)
           in if last b \<noteq> CHR 0x0A then n + 1 else n)"

definition splitLines :: "string \<Rightarrow> string list" where
  "splitLines b =
     (if b = [] then [] else split_on (CHR 0x0A) (trim_right (\<lambda>c. c = CHR 0x0A) b))"

definition synthPatch :: "string \<Rightarrow> string \<Rightarrow> string \<Rightarrow> string" where
  "synthPatch path from to =
     (if isBinaryContent from \<or> isBinaryContent to then []
      else trim_right (\<lambda>c. c = CHR 0x0A)
        (''--- a/'' @ path @ newline @ ''+++ b/'' @ path @ newline @
         concat (map (\<lambda>line. ''-'' @ line @ newline) (splitLines from)) @
         concat (map (\<lambda>line. ''+'' @ line @ newline) (splitLines to))))"

text \<open>The two loop bodies of \<open>diffTrees\<close>: over the new tree, then over the old one.\<close>

definition diff_upsert :: "tree \<Rightarrow> string \<times> string \<Rightarrow> FileDiff list" where
  "diff_upsert from e =
     (case gm_get from (fst e) of
        None \<Rightarrow>
          [\<lparr> fd_Path = fst e, fd_OldPath = [], fd_Status = ''added'',
             fd_Additions = int (lineCount (snd e)), fd_Deletions = 0,
             fd_IsBinary = isBinaryContent (snd e),
             fd_UnifiedPatch = synthPatch (fst e) [] (snd e) \<rparr>]
      | Some fromV \<Rightarrow>
          if fromV \<noteq> snd e then
            [\<lparr> fd_Path = fst e, fd_OldPath = [], fd_Status = ''modified'',
               fd_Additions = int (lineCount (snd e)), fd_Deletions = int (lineCount fromV),
               fd_IsBinary = (isBinaryContent fromV \<or> isBinaryContent (snd e)),
               fd_UnifiedPatch = synthPatch (fst e) fromV (snd e) \<rparr>]
          else [])"

definition diff_delete :: "tree \<Rightarrow> string \<times> string \<Rightarrow> FileDiff list" where
  "diff_delete to e =
     (if gm_get to (fst e) = None then
        [\<lparr> fd_Path = fst e, fd_OldPath = [], fd_Status = ''deleted'',
           fd_Additions = 0, fd_Deletions = int (lineCount (snd e)),
           fd_IsBinary = isBinaryContent (snd e),
           fd_UnifiedPatch = synthPatch (fst e) (snd e) [] \<rparr>]
      else [])"

definition diffTrees :: "tree \<Rightarrow> tree \<Rightarrow> string \<Rightarrow> FileDiff list" where
  "diffTrees from to pathFilter =
     (let inScope = (\<lambda>e. pathFilter = [] \<or> fst e = pathFilter)
      in sort_key fd_Path
           (concat (map (diff_upsert from) (filter inScope to)) @
            concat (map (diff_delete to) (filter inScope from))))"

section \<open>Merging\<close>

lemma foldl_put_get:
  "gm_wf src \<Longrightarrow> gm_get (foldl (\<lambda>t e. gm_put (fst e) (snd e) t) pub src) p =
     (case gm_get src p of Some v \<Rightarrow> Some v | None \<Rightarrow> gm_get pub p)"
proof (induction src arbitrary: pub)
  case (Cons e src)
  then have "gm_wf src" and "fst e \<notin> fst ` set src" by (auto simp: gm_wf_def)
  then have "gm_get src (fst e) = None" by (simp add: gm_get_def map_of_eq_None_iff)
  then show ?case using Cons \<open>gm_wf src\<close> by (cases e) (auto simp: gm_get_Cons split: option.splits)
qed simp

lemma mergeTrees_get:
  "gm_wf src \<Longrightarrow> gm_get (mergeTrees pub src) p = (case gm_get src p of Some v \<Rightarrow> Some v | None \<Rightarrow> gm_get pub p)"
  unfolding mergeTrees_def by (rule foldl_put_get)

lemma mergeTrees_wf: "gm_wf pub \<Longrightarrow> gm_wf (mergeTrees pub src)"
  unfolding mergeTrees_def by (induction src arbitrary: pub) auto

lemma changed_from_iff: "changed_from base t p \<longleftrightarrow> gm_get t p \<noteq> gm_get base p"
  by (auto simp: changed_from_def split: option.splits)

lemma conflictingPaths_set:
  "p \<in> set (conflictingPaths pub src base) \<longleftrightarrow>
     gm_get pub p \<noteq> gm_get base p \<and> gm_get src p \<noteq> gm_get base p \<and> gm_get pub p \<noteq> gm_get src p"
  by (auto simp: conflictingPaths_def Let_def changed_from_iff gm_keys_get)

text \<open>The reference: a path takes the side that changed it.\<close>

definition three_way :: "tree \<Rightarrow> tree \<Rightarrow> tree \<Rightarrow> string \<Rightarrow> string option" where
  "three_way base pub src p =
     (if gm_get pub p = gm_get base p then gm_get src p else gm_get pub p)"

section \<open>Equality\<close>

lemma treesEqual_iff:
  assumes "gm_wf a" and "gm_wf b"
  shows "treesEqual a b \<longleftrightarrow> (\<forall>p. gm_get a p = gm_get b p)"
proof -
  have maps: "(\<forall>p. gm_get a p = gm_get b p) \<longleftrightarrow> set a = set b"
    using assms map_of_inject_set [of a b] by (auto simp: gm_wf_def gm_get_def fun_eq_iff)
  have dist: "distinct a" "distinct b" using assms by (simp_all add: gm_wf_distinct)
  have te: "treesEqual a b \<longleftrightarrow> length a = length b \<and> set a \<subseteq> set b"
    using gm_set_iff [OF assms(2)] by (auto simp: treesEqual_def gm_len_def list_all_iff)
  have "length a = length b \<and> set a \<subseteq> set b \<longleftrightarrow> set a = set b"
    using dist by (metis card_subset_eq distinct_card finite_set subset_refl)
  then show ?thesis using maps te by simp
qed

section \<open>Diffing\<close>

lemma bex_key:
  "(\<exists>e \<in> set xs. P (fst e) \<and> fst e = p \<and> Q (snd e)) \<longleftrightarrow> P p \<and> (\<exists>v. (p, v) \<in> set xs \<and> Q v)"
  by force

lemma diffTrees_set:
  assumes "gm_wf from" and "gm_wf to"
  shows "(\<exists>d \<in> set (diffTrees from to flt). fd_Path d = p \<and> fd_Status d = st) \<longleftrightarrow>
    (flt = [] \<or> p = flt) \<and>
    (case (gm_get from p, gm_get to p) of
       (None, Some _) \<Rightarrow> st = ''added''
     | (Some a, Some b) \<Rightarrow> a \<noteq> b \<and> st = ''modified''
     | (Some _, None) \<Rightarrow> st = ''deleted''
     | (None, None) \<Rightarrow> False)"
proof -
  have ups: "(\<exists>e \<in> set to. (flt = [] \<or> fst e = flt) \<and> (\<exists>d \<in> set (diff_upsert from e). fd_Path d = p \<and> fd_Status d = st)) \<longleftrightarrow>
      (flt = [] \<or> p = flt) \<and> (\<exists>v. gm_get to p = Some v \<and>
        (case gm_get from p of None \<Rightarrow> st = ''added'' | Some a \<Rightarrow> a \<noteq> v \<and> st = ''modified''))"
  proof -
    have one: "(\<exists>d \<in> set (diff_upsert from e). fd_Path d = p \<and> fd_Status d = st) \<longleftrightarrow>
        fst e = p \<and> (case gm_get from p of None \<Rightarrow> st = ''added'' | Some a \<Rightarrow> a \<noteq> snd e \<and> st = ''modified'')" for e
      by (auto simp: diff_upsert_def split: option.splits)
    show ?thesis unfolding one gm_set_iff [OF assms(2), symmetric]
      by (rule bex_key [where P = "\<lambda>k. flt = [] \<or> k = flt" and
            Q = "\<lambda>v. case gm_get from p of None \<Rightarrow> st = ''added'' | Some a \<Rightarrow> a \<noteq> v \<and> st = ''modified''"])
  qed
  have dels: "(\<exists>e \<in> set from. (flt = [] \<or> fst e = flt) \<and> (\<exists>d \<in> set (diff_delete to e). fd_Path d = p \<and> fd_Status d = st)) \<longleftrightarrow>
      (flt = [] \<or> p = flt) \<and> (\<exists>v. gm_get from p = Some v \<and> gm_get to p = None \<and> st = ''deleted'')"
    by (auto simp: diff_delete_def gm_set_iff [OF assms(1), symmetric] Bex_def split: if_splits)
  have "(\<exists>d \<in> set (diffTrees from to flt). fd_Path d = p \<and> fd_Status d = st) \<longleftrightarrow>
    (\<exists>e \<in> set to. (flt = [] \<or> fst e = flt) \<and> (\<exists>d \<in> set (diff_upsert from e). fd_Path d = p \<and> fd_Status d = st)) \<or>
    (\<exists>e \<in> set from. (flt = [] \<or> fst e = flt) \<and> (\<exists>d \<in> set (diff_delete to e). fd_Path d = p \<and> fd_Status d = st))"
    by (auto simp: diffTrees_def Let_def)
  then show ?thesis unfolding ups dels by (auto split: option.splits)
qed

section \<open>Properties\<close>

text \<open>
  Where the clean merge of two diverged trees departs from a three-way merge: when no
  path conflicts, the merged tree differs from the three-way result at a path exactly when
  only the published side changed the path and the source still has the old content (the
  published change is undone), or when the source deleted a path the published side left
  alone (the deletion is lost).
\<close>

theorem mergeTrees_three_way:
  assumes "gm_wf src" and "conflictingPaths pub src base = []"
  shows "gm_get (mergeTrees pub src) p \<noteq> three_way base pub src p \<longleftrightarrow>
    (gm_get src p \<noteq> None \<and> gm_get src p = gm_get base p \<and> gm_get pub p \<noteq> gm_get base p) \<or>
    (gm_get src p = None \<and> gm_get pub p \<noteq> None \<and> gm_get pub p = gm_get base p)"
proof -
  have "\<not> (gm_get pub p \<noteq> gm_get base p \<and> gm_get src p \<noteq> gm_get base p \<and> gm_get pub p \<noteq> gm_get src p)"
    using assms(2) conflictingPaths_set [of p pub src base] by simp
  then show ?thesis using mergeTrees_get [OF assms(1), of pub p]
    by (auto simp: three_way_def split: option.splits)
qed

theorem mergeTrees_three_way_witness:
  "gm_get (mergeTrees [(''a.html'', ''new'')] [(''a.html'', ''old''), (''b.html'', ''x'')]) ''a.html'' \<noteq>
   three_way [(''a.html'', ''old'')] [(''a.html'', ''new'')] [(''a.html'', ''old''), (''b.html'', ''x'')] ''a.html''"
proof -
  have "gm_wf [(''a.html'', ''old''), (''b.html'', ''x'')]" by code_simp
  moreover have "conflictingPaths [(''a.html'', ''new'')] [(''a.html'', ''old''), (''b.html'', ''x'')]
      [(''a.html'', ''old'')] = []" by code_simp
  ultimately show ?thesis using mergeTrees_three_way by (simp add: gm_get_def)
qed

text \<open>
  A diff lists exactly the paths in scope at which the two trees differ, each with the
  right status.
\<close>

theorem diffTrees_exact:
  assumes "gm_wf from" and "gm_wf to"
  shows "(\<exists>d \<in> set (diffTrees from to flt). fd_Path d = p \<and> fd_Status d = st) \<longleftrightarrow>
    (flt = [] \<or> p = flt) \<and>
    (case (gm_get from p, gm_get to p) of
       (None, Some _) \<Rightarrow> st = ''added''
     | (Some a, Some b) \<Rightarrow> a \<noteq> b \<and> st = ''modified''
     | (Some _, None) \<Rightarrow> st = ''deleted''
     | (None, None) \<Rightarrow> False)"
  by (rule diffTrees_set [OF assms])

theorem diffTrees_exact_witness:
  "\<exists>d \<in> set (diffTrees [(''a'', ''1'')] [(''b'', ''2'')] []). fd_Path d = ''a'' \<and> fd_Status d = ''deleted''"
proof -
  have wf: "gm_wf [(''a'', ''1'')]" "gm_wf [(''b'', ''2'')]" by (simp_all add: gm_wf_def)
  show ?thesis using diffTrees_exact [OF wf, of "[]" "''a''" "''deleted''"] by (simp add: gm_get_def)
qed

text \<open>
  The byte-for-byte comparison behind "nothing to commit" decides equality of the two
  trees as maps, whatever the order they are stored in.
\<close>

theorem treesEqual_correct:
  assumes "gm_wf a" and "gm_wf b"
  shows "treesEqual a b \<longleftrightarrow> (\<forall>p. gm_get a p = gm_get b p)"
  by (rule treesEqual_iff [OF assms])

theorem treesEqual_correct_witness:
  "treesEqual [(''a'', ''1''), (''b'', ''2'')] [(''b'', ''2''), (''a'', ''1'')]"
proof -
  have wf: "gm_wf [(''a'', ''1''), (''b'', ''2'')]" "gm_wf [(''b'', ''2''), (''a'', ''1'')]"
    by (simp_all add: gm_wf_def)
  show ?thesis using treesEqual_correct [OF wf] by (simp add: gm_get_def)
qed

end
