(* ===== verification/Site_Service.thy ===== *)
theory Site_Service
  imports Tree_Ops
begin

text \<open>
  The in-memory implementation of \<open>site.Service\<close> (\<open>backend/internal/site/fake.go\<close>): sites,
  branches as append-only logs of immutable tree snapshots, handles and redirects, the
  optimistic lock on the branch tip, publishing, rollback and the read side.

  Every method is a function of the service state; one that changes state returns the new
  state beside the result, an error being the left of a sum. The mutex that makes each method
  atomic is the sequentiality of the model. The clock is a function \<open>clk\<close> from the number of
  the reading within the call to the time; the fresh UUID of \<open>uuid.New\<close> is an argument.
  \<open>map\<close> iteration follows the order of the association list.
\<close>

section \<open>State\<close>

record fakeCommit =
  sha :: string
  parents :: "string list"
  message :: string
  author :: string
  email :: string
  via :: string
  committed_at :: int
  snapshot :: tree

type_synonym fakeBranch = "fakeCommit list"

record fakeSite =
  rec :: SiteRecord
  branches :: "(branch_name, fakeBranch) gomap"
  remote :: string

record FakeService =
  sites :: "(uuid, fakeSite) gomap"
  redirects :: "(string, uuid) gomap"
  seq :: nat
  FailNext :: "(string, site_error) gomap"

type_synonym clock = "nat \<Rightarrow> int"
type_synonym 'a result = "site_error + 'a"

definition NewFakeService :: FakeService where
  "NewFakeService = \<lparr> sites = [], redirects = [], seq = 0, FailNext = [] \<rparr>"

section \<open>Internal helpers\<close>

definition failOnce :: "FakeService \<Rightarrow> string \<Rightarrow> FakeService \<times> site_error option" where
  "failOnce f method =
     (case gm_get (FailNext f) method of
        Some err \<Rightarrow> (f\<lparr> FailNext := gm_del method (FailNext f) \<rparr>, Some err)
      | None \<Rightarrow> (f, None))"

definition nextSHA :: "FakeService \<Rightarrow> FakeService \<times> string" where
  "nextSHA f = (f\<lparr> seq := seq f + 1 \<rparr>, hex40 (seq f + 1))"

definition tip :: "fakeBranch \<Rightarrow> fakeCommit option" where
  "tip b = (if b = [] then None else Some (last b))"

definition zero_commit :: fakeCommit where
  "zero_commit = \<lparr> sha = [], parents = [], message = [], author = [], email = [], via = [],
     committed_at = 0, snapshot = [] \<rparr>"

definition short_sha :: "string \<Rightarrow> string" where
  "short_sha s = (if 7 < length s then take 7 s else s)"

definition toCommitInfo :: "fakeCommit \<Rightarrow> CommitInfo" where
  "toCommitInfo c =
     \<lparr> ci_SHA = sha c, ci_ShortSHA = short_sha (sha c), ci_Message = message c,
       ci_AuthorName = author c, ci_AuthorEmail = email c, ci_Committed = committed_at c,
       ci_Parents = parents c, ci_Via = via c \<rparr>"

definition actorName :: "Actor \<Rightarrow> string" where
  "actorName a = (if ac_Name a = [] then ''kotoji'' else ac_Name a)"

definition actorEmail :: "Actor \<Rightarrow> string" where
  "actorEmail a = (if ac_Email a = [] then ac_UserID a @ ''@kotoji.local'' else ac_Email a)"

definition actorVia :: "Actor \<Rightarrow> string" where
  "actorVia a = (if ac_Via a = [] then SourceSystem else ac_Via a)"

text \<open>\<open>commit\<close>: the new state (the sequence number), the extended log and the new entry.\<close>

definition commit ::
  "FakeService \<Rightarrow> fakeBranch \<Rightarrow> tree \<Rightarrow> Actor \<Rightarrow> string \<Rightarrow> int \<Rightarrow> FakeService \<times> fakeBranch \<times> CommitInfo" where
  "commit f b t actor msg now =
     (case nextSHA f of
        (f', h) \<Rightarrow>
          let c = \<lparr> sha = h, parents = (case tip b of Some c \<Rightarrow> [sha c] | None \<Rightarrow> []),
                    message = msg, author = actorName actor, email = actorEmail actor,
                    via = actorVia actor, committed_at = now, snapshot = t \<rparr>
          in (f', b @ [c], toCommitInfo c))"

definition liveSite :: "FakeService \<Rightarrow> uuid \<Rightarrow> fakeSite result" where
  "liveSite f i =
     (case gm_get (sites f) i of
        None \<Rightarrow> Inl (Sentinel ErrNotFound)
      | Some s \<Rightarrow> if sr_DeletedAt (rec s) \<noteq> None then Inl (Sentinel ErrNotFound) else Inr s)"

definition put_site :: "FakeService \<Rightarrow> uuid \<Rightarrow> fakeSite \<Rightarrow> FakeService" where
  "put_site f i s = f\<lparr> sites := gm_put i s (sites f) \<rparr>"

definition put_branch :: "fakeSite \<Rightarrow> branch_name \<Rightarrow> fakeBranch \<Rightarrow> fakeSite" where
  "put_branch s name b = s\<lparr> branches := gm_put name b (branches s) \<rparr>"

definition touch :: "fakeSite \<Rightarrow> int \<Rightarrow> fakeSite" where
  "touch s now = s\<lparr> rec := (rec s)\<lparr> sr_UpdatedAt := now \<rparr> \<rparr>"

text \<open>\<open>for _, e := range entries { tree[e.path] = e.content }\<close>\<close>

definition tree_of_entries :: "zipEntry list \<Rightarrow> tree" where
  "tree_of_entries es = foldl (\<lambda>t e. gm_put (fst e) (snd e) t) [] es"

text \<open>The first live site with a handle, as the loops over \<open>f.sites\<close> find it.\<close>

definition live_by_handle :: "FakeService \<Rightarrow> string \<Rightarrow> fakeSite option" where
  "live_by_handle f lower =
     map_option snd (find (\<lambda>p. sr_DeletedAt (rec (snd p)) = None \<and> sr_Handle (rec (snd p)) = lower) (sites f))"

definition find_commit :: "fakeBranch \<Rightarrow> string \<Rightarrow> fakeCommit option" where
  "find_commit b s = find (\<lambda>c. sha c = s) b"

definition isAncestor :: "fakeBranch \<Rightarrow> string \<Rightarrow> bool" where
  "isAncestor b s = list_ex (\<lambda>c. sha c = s) b"

text \<open>\<open>b.commits[:i+1]\<close> of the first branch that holds the commit.\<close>

fun upto_sha :: "fakeBranch \<Rightarrow> string \<Rightarrow> fakeBranch" where
  "upto_sha [] s = []"
| "upto_sha (c # cs) s = (if sha c = s then [c] else c # upto_sha cs s)"

definition commitsUpTo :: "fakeSite \<Rightarrow> string \<Rightarrow> fakeBranch" where
  "commitsUpTo s h =
     (case find (\<lambda>p. isAncestor (snd p) h) (branches s) of
        Some p \<Rightarrow> upto_sha (snd p) h
      | None \<Rightarrow> [])"

definition mergeBaseTree :: "fakeSite \<Rightarrow> fakeBranch \<Rightarrow> tree" where
  "mergeBaseTree s src =
     (let pub = (case gm_get (branches s) BranchPublished of Some b \<Rightarrow> b | None \<Rightarrow> []);
          pubSet = map_of (rev (map (\<lambda>c. (sha c, snapshot c)) pub))
      in (case find (\<lambda>c. pubSet (sha c) \<noteq> None) (rev src) of
            Some c \<Rightarrow> the (pubSet (sha c))
          | None \<Rightarrow> []))"

definition changedBetween :: "fakeBranch \<Rightarrow> string \<Rightarrow> string \<Rightarrow> string list" where
  "changedBetween b baseSHA tipSHA =
     (let tree_at = map_of (rev (map (\<lambda>c. (sha c, snapshot c)) b)) in
      case (tree_at baseSHA, tree_at tipSHA) of
        (Some baseTree, Some tipTree) \<Rightarrow> map fd_Path (diffTrees baseTree tipTree [])
      | _ \<Rightarrow> [])"

definition commitTouchedPath :: "fakeBranch \<Rightarrow> string \<Rightarrow> string \<Rightarrow> bool" where
  "commitTouchedPath b h path =
     (case find (\<lambda>i. sha (b ! i) = h) [0..<length b] of
        None \<Rightarrow> False
      | Some i \<Rightarrow>
          let cur = gm_get (snapshot (b ! i)) path;
              par = (if 0 < i then gm_get (snapshot (b ! (i - 1))) path else None)
          in cur \<noteq> par)"

definition publishMergeMessage :: "branch_name \<Rightarrow> string \<Rightarrow> string \<Rightarrow> string" where
  "publishMergeMessage from srcSHA override =
     (if override \<noteq> [] then override else ''publish: '' @ from @ ''@'' @ short_sha srcSHA)"

definition checkBaseSHA :: "fakeBranch \<Rightarrow> branch_name \<Rightarrow> string \<Rightarrow> string list \<Rightarrow> site_error option" where
  "checkBaseSHA b name baseSHA hint =
     (case tip b of
        None \<Rightarrow> Some (Sentinel ErrNotFound)
      | Some t \<Rightarrow>
          if sha t = baseSHA then None
          else
            let changed = changedBetween b baseSHA (sha t)
            in Some (ConflictError name baseSHA (sha t) (if changed = [] then hint else changed)))"

definition resolveRef :: "fakeSite \<Rightarrow> string \<Rightarrow> fakeCommit option" where
  "resolveRef s name = (case gm_get (branches s) name of None \<Rightarrow> None | Some b \<Rightarrow> tip b)"

definition resolveAnyRef :: "fakeSite \<Rightarrow> string \<Rightarrow> fakeCommit option" where
  "resolveAnyRef s ref =
     (case gm_get (branches s) ref of
        Some b \<Rightarrow> tip b
      | None \<Rightarrow> find (\<lambda>c. sha c = ref) (concat (map snd (branches s))))"

definition commitForRefOrBranch :: "fakeSite \<Rightarrow> string \<Rightarrow> branch_name \<Rightarrow> fakeCommit option" where
  "commitForRefOrBranch s ref name =
     (if ref \<noteq> [] then resolveAnyRef s ref
      else case gm_get (branches s) name of None \<Rightarrow> None | Some b \<Rightarrow> tip b)"

definition setPublished :: "fakeSite \<Rightarrow> fakeCommit \<Rightarrow> int \<Rightarrow> fakeSite" where
  "setPublished s t now =
     s\<lparr> rec := (rec s)\<lparr> sr_PublishedSHA := Some (sha t), sr_PublishedAt := Some now,
                        sr_UpdatedAt := now \<rparr> \<rparr>"

section \<open>Site lifecycle\<close>

definition new_record :: "CreateSiteInput \<Rightarrow> uuid \<Rightarrow> int \<Rightarrow> SiteRecord" where
  "new_record inp newID now =
     \<lparr> sr_ID = newID, sr_Handle = go_lower (cs_Handle inp), sr_OwnerID = cs_OwnerID inp,
       sr_Visibility = (if cs_Visibility inp = [] then ''private'' else cs_Visibility inp),
       sr_DefaultBranch = BranchDraft, sr_PublishedSHA = None, sr_PublishedAt = None,
       sr_PublishMode = (if cs_PublishMode inp = [] then ''direct'' else cs_PublishMode inp),
       sr_GitHubRepo = emptyToNil (cs_GitHubRepo inp), sr_WebRoot = [],
       sr_Description = cs_Description inp, sr_CacheVersion = 0,
       sr_DeletedAt = None, sr_CreatedAt = now, sr_UpdatedAt = now \<rparr>"

definition seed_tree :: "CreateSiteInput \<Rightarrow> tree result" where
  "seed_tree inp =
     (case cs_Zip inp of
        None \<Rightarrow> Inr [(''index.html'', defaultIndexHTML (cs_Handle inp))]
      | Some src \<Rightarrow>
          (case readZip src of Inl e \<Rightarrow> Inl e | Inr entries \<Rightarrow> Inr (tree_of_entries entries)))"

definition seed_message :: "CreateSiteInput \<Rightarrow> string" where
  "seed_message inp =
     (case cs_Zip inp of
        Some src \<Rightarrow> if Filename src \<noteq> [] then ''Import '' @ Filename src else ''Initial commit''
      | None \<Rightarrow> ''Initial commit'')"

definition CreateSite ::
  "FakeService \<Rightarrow> clock \<Rightarrow> uuid \<Rightarrow> CreateSiteInput \<Rightarrow> FakeService \<times> Site result" where
  "CreateSite f0 clk newID inp =
     (case ValidateHandle (cs_Handle inp) of
        Some e \<Rightarrow> (f0, Inl e)
      | None \<Rightarrow>
          (case failOnce f0 ''CreateSite'' of
             (f, Some e) \<Rightarrow> (f, Inl e)
           | (f, None) \<Rightarrow>
               let lower = go_lower (cs_Handle inp); r = new_record inp newID (clk 0) in
               if live_by_handle f lower \<noteq> None then (f, Inl (Sentinel ErrHandleTaken))
               else if gm_get (redirects f) lower \<noteq> None then (f, Inl (Sentinel ErrHandleTaken))
               else
                 (case seed_tree inp of
                    Inl e \<Rightarrow> (f, Inl e)
                  | Inr t \<Rightarrow>
                      (case commit f [] t (cs_Actor inp) (seed_message inp) (clk 1) of
                         (f', draft, _) \<Rightarrow>
                           (put_site f' newID
                              \<lparr> rec = r, branches = [(BranchDraft, draft)], remote = cs_GitHubRepo inp \<rparr>,
                            Inr (toSite r))))))"

definition GetSite :: "FakeService \<Rightarrow> uuid \<Rightarrow> Site result" where
  "GetSite f i = (case liveSite f i of Inl e \<Rightarrow> Inl e | Inr s \<Rightarrow> Inr (toSite (rec s)))"

definition GetSiteByHandle :: "FakeService \<Rightarrow> handle \<Rightarrow> Site result" where
  "GetSiteByHandle f h =
     (case live_by_handle f (go_lower h) of
        Some s \<Rightarrow> Inr (toSite (rec s))
      | None \<Rightarrow> Inl (Sentinel ErrNotFound))"

definition ListSites :: "FakeService \<Rightarrow> uuid \<Rightarrow> Site list" where
  "ListSites f ownerID =
     sort_key (\<lambda>s. - st_UpdatedAt s)
       (map (\<lambda>p. toSite (rec (snd p)))
          (filter (\<lambda>p. sr_DeletedAt (rec (snd p)) = None \<and>
                       (ownerID = uuid_Nil \<or> sr_OwnerID (rec (snd p)) = ownerID)) (sites f)))"

definition RenameHandle :: "FakeService \<Rightarrow> clock \<Rightarrow> uuid \<Rightarrow> handle \<Rightarrow> FakeService \<times> Site result" where
  "RenameHandle f clk i newHandle =
     (case ValidateHandle newHandle of
        Some e \<Rightarrow> (f, Inl e)
      | None \<Rightarrow>
          (case liveSite f i of
             Inl e \<Rightarrow> (f, Inl e)
           | Inr s \<Rightarrow>
               let lower = go_lower newHandle in
               if lower = sr_Handle (rec s) then (f, Inr (toSite (rec s)))
               else if live_by_handle f lower \<noteq> None then (f, Inl (Sentinel ErrHandleTaken))
               else if (case gm_get (redirects f) lower of Some owner \<Rightarrow> owner \<noteq> i | None \<Rightarrow> False) then
                 (f, Inl (Sentinel ErrHandleTaken))
               else
                 let r = (rec s)\<lparr> sr_Handle := lower, sr_UpdatedAt := clk 0 \<rparr>;
                     f' = f\<lparr> redirects := gm_put (sr_Handle (rec s)) i (gm_del lower (redirects f)) \<rparr>
                 in (put_site f' i (s\<lparr> rec := r \<rparr>), Inr (toSite r))))"

definition DeleteSite :: "FakeService \<Rightarrow> clock \<Rightarrow> uuid \<Rightarrow> Actor \<Rightarrow> FakeService \<times> unit result" where
  "DeleteSite f clk i actor =
     (case liveSite f i of
        Inl e \<Rightarrow> (f, Inl e)
      | Inr s \<Rightarrow>
          (put_site f i (s\<lparr> rec := (rec s)\<lparr> sr_DeletedAt := Some (clk 0), sr_UpdatedAt := clk 0 \<rparr> \<rparr>), Inr ()))"

section \<open>Branches\<close>

definition mk_branch :: "fakeSite \<Rightarrow> branch_name \<Rightarrow> fakeCommit \<Rightarrow> Branch" where
  "mk_branch s n t =
     \<lparr> br_Name = n, br_HeadSHA = sha t, br_IsPublished = (n = BranchPublished),
       br_LastCommit = toCommitInfo t, br_PreviewSubdomain = previewSubdomain (sr_Handle (rec s)) n \<rparr>"

definition ListBranches :: "FakeService \<Rightarrow> uuid \<Rightarrow> Branch list result" where
  "ListBranches f i =
     (case liveSite f i of
        Inl e \<Rightarrow> Inl e
      | Inr s \<Rightarrow>
          Inr (concat (map (\<lambda>n. case gm_get (branches s) n of
                                  None \<Rightarrow> []
                                | Some b \<Rightarrow> (case tip b of None \<Rightarrow> [] | Some t \<Rightarrow> [mk_branch s n t]))
                           (sort (gm_keys (branches s))))))"

definition CreateBranch :: "FakeService \<Rightarrow> uuid \<Rightarrow> branch_name \<Rightarrow> string \<Rightarrow> FakeService \<times> Branch result" where
  "CreateBranch f i name from =
     (case validateBranchName name of
        Some e \<Rightarrow> (f, Inl e)
      | None \<Rightarrow>
          if name = BranchPublished \<or> name = BranchDraft then
            (f, Inl (ValidationError ''branch'' ''reserved branch name''))
          else
            (case liveSite f i of
               Inl e \<Rightarrow> (f, Inl e)
             | Inr s \<Rightarrow>
                 if gm_get (branches s) name \<noteq> None then (f, Inl (Sentinel ErrBranchExists))
                 else
                   (case resolveRef s (if from = [] then BranchDraft else from) of
                      None \<Rightarrow> (f, Inl (Sentinel ErrNotFound))
                    | Some c \<Rightarrow>
                        (put_site f i (put_branch s name (commitsUpTo s (sha c))),
                         Inr \<lparr> br_Name = name, br_HeadSHA = sha c, br_IsPublished = False,
                               br_LastCommit = toCommitInfo c,
                               br_PreviewSubdomain = previewSubdomain (sr_Handle (rec s)) name \<rparr>))))"

definition DeleteBranch :: "FakeService \<Rightarrow> uuid \<Rightarrow> branch_name \<Rightarrow> FakeService \<times> unit result" where
  "DeleteBranch f i name =
     (if name = BranchPublished \<or> name = BranchDraft then
        (f, Inl (ValidationError ''branch'' ''cannot delete the published or draft branch''))
      else
        (case liveSite f i of
           Inl e \<Rightarrow> (f, Inl e)
         | Inr s \<Rightarrow>
             if gm_get (branches s) name = None then (f, Inl (Sentinel ErrNotFound))
             else (put_site f i (s\<lparr> branches := gm_del name (branches s) \<rparr>), Inr ())))"

section \<open>Files\<close>

definition ListFiles :: "FakeService \<Rightarrow> ListFilesInput \<Rightarrow> (FileEntry list \<times> string) result" where
  "ListFiles f inp =
     (case validateDir (lf_Dir inp) of
        Some e \<Rightarrow> Inl e
      | None \<Rightarrow>
          (case liveSite f (lf_SiteID inp) of
             Inl e \<Rightarrow> Inl e
           | Inr s \<Rightarrow>
               (case commitForRefOrBranch s (lf_Ref inp) (lf_Branch inp) of
                  None \<Rightarrow> Inl (Sentinel ErrNotFound)
                | Some c \<Rightarrow> Inr (listTree (snapshot c) (lf_Dir inp) (lf_Recursive inp), sha c))))"

definition ReadFile :: "FakeService \<Rightarrow> uuid \<Rightarrow> branch_name \<Rightarrow> string \<Rightarrow> string \<Rightarrow> FileContent result" where
  "ReadFile f i name ref path =
     (case validateReadPath path of
        Some e \<Rightarrow> Inl e
      | None \<Rightarrow>
          (case liveSite f i of
             Inl e \<Rightarrow> Inl e
           | Inr s \<Rightarrow>
               (case commitForRefOrBranch s ref name of
                  None \<Rightarrow> Inl (Sentinel ErrNotFound)
                | Some c \<Rightarrow>
                    (case gm_get (snapshot c) path of
                       None \<Rightarrow> Inl (Sentinel ErrNotFound)
                     | Some content \<Rightarrow>
                         Inr \<lparr> fc_Path = path, fc_Content = content, fc_SHA = sha c,
                               fc_BlobSHA = hex40 (length content), fc_Size = int (length content),
                               fc_IsBinary = isBinaryContent content \<rparr>))))"

text \<open>The common tail of the writers: append a commit to the branch, stamp the site.\<close>

definition commit_on ::
  "FakeService \<Rightarrow> clock \<Rightarrow> uuid \<Rightarrow> fakeSite \<Rightarrow> branch_name \<Rightarrow> fakeBranch \<Rightarrow> tree \<Rightarrow> Actor \<Rightarrow> string \<Rightarrow>
   FakeService \<times> CommitInfo result" where
  "commit_on f clk i s name b t actor msg =
     (case commit f b t actor msg (clk 0) of
        (f', b', ci) \<Rightarrow> (put_site f' i (touch (put_branch s name b') (clk 1)), Inr ci))"

text \<open>The snapshot of \<open>tip, _ := b.tip()\<close>; the zero commit has a nil tree.\<close>

definition tip_tree :: "fakeBranch \<Rightarrow> tree" where
  "tip_tree b = (case tip b of Some t \<Rightarrow> snapshot t | None \<Rightarrow> [])"

definition base_required :: "string \<Rightarrow> site_error" where
  "base_required why = ValidationError ''baseSha'' why"

definition validateWritePath :: "Actor \<Rightarrow> string \<Rightarrow> site_error option" where
  "validateWritePath actor path =
     (if ac_Via actor = SourceMCP then validateMCPWritePath path else validatePath path)"

definition WriteFile :: "FakeService \<Rightarrow> clock \<Rightarrow> WriteFileInput \<Rightarrow> FakeService \<times> CommitInfo result" where
  "WriteFile f clk inp =
     (case refuseProtectedBranch (wf_Branch inp) of
        Some e \<Rightarrow> (f, Inl e)
      | None \<Rightarrow>
          (case validateWritePath (wf_Actor inp) (wf_Path inp) of
             Some e \<Rightarrow> (f, Inl e)
           | None \<Rightarrow>
               if wf_BaseSHA inp = [] then (f, Inl (base_required ''required (never treated as force)''))
               else
                 (case liveSite f (wf_SiteID inp) of
                    Inl e \<Rightarrow> (f, Inl e)
                  | Inr s \<Rightarrow>
                      (case gm_get (branches s) (wf_Branch inp) of
                         None \<Rightarrow> (f, Inl (Sentinel ErrNotFound))
                       | Some b \<Rightarrow>
                           (case checkBaseSHA b (wf_Branch inp) (wf_BaseSHA inp) [wf_Path inp] of
                              Some e \<Rightarrow> (f, Inl e)
                            | None \<Rightarrow>
                                commit_on f clk (wf_SiteID inp) s (wf_Branch inp) b
                                  (gm_put (wf_Path inp) (wf_Content inp) (tip_tree b)) (wf_Actor inp)
                                  (if wf_Message inp = [] then ''Update '' @ wf_Path inp else wf_Message inp))))))"

definition DeleteFile ::
  "FakeService \<Rightarrow> clock \<Rightarrow> uuid \<Rightarrow> branch_name \<Rightarrow> string \<Rightarrow> string \<Rightarrow> Actor \<Rightarrow> FakeService \<times> CommitInfo result" where
  "DeleteFile f clk i name path baseSHA actor =
     (case refuseProtectedBranch name of
        Some e \<Rightarrow> (f, Inl e)
      | None \<Rightarrow>
          (case validateReadPath path of
             Some e \<Rightarrow> (f, Inl e)
           | None \<Rightarrow>
               if baseSHA = [] then (f, Inl (base_required ''required (never treated as force)''))
               else
                 (case liveSite f i of
                    Inl e \<Rightarrow> (f, Inl e)
                  | Inr s \<Rightarrow>
                      (case gm_get (branches s) name of
                         None \<Rightarrow> (f, Inl (Sentinel ErrNotFound))
                       | Some b \<Rightarrow>
                           (case checkBaseSHA b name baseSHA [path] of
                              Some e \<Rightarrow> (f, Inl e)
                            | None \<Rightarrow>
                                if gm_get (tip_tree b) path = None then (f, Inl (Sentinel ErrNotFound))
                                else commit_on f clk i s name b (gm_del path (tip_tree b)) actor (''Delete '' @ path))))))"

definition Commit :: "FakeService \<Rightarrow> CommitInput \<Rightarrow> CommitInfo result" where
  "Commit f inp =
     (case refuseProtectedBranch (cm_Branch inp) of
        Some e \<Rightarrow> Inl e
      | None \<Rightarrow>
          if cm_BaseSHA inp = [] then Inl (base_required ''required (never treated as force)'')
          else
            (case liveSite f (cm_SiteID inp) of
               Inl e \<Rightarrow> Inl e
             | Inr s \<Rightarrow>
                 (case gm_get (branches s) (cm_Branch inp) of
                    None \<Rightarrow> Inl (Sentinel ErrNotFound)
                  | Some b \<Rightarrow>
                      (case checkBaseSHA b (cm_Branch inp) (cm_BaseSHA inp) [] of
                         Some e \<Rightarrow> Inl e
                       | None \<Rightarrow> Inl (Sentinel ErrNothingToCommit)))))"

definition ImportZip ::
  "FakeService \<Rightarrow> clock \<Rightarrow> uuid \<Rightarrow> branch_name \<Rightarrow> ZipSource \<Rightarrow> string \<Rightarrow> Actor \<Rightarrow> FakeService \<times> CommitInfo result" where
  "ImportZip f clk i name src baseSHA actor =
     (case refuseProtectedBranch name of
        Some e \<Rightarrow> (f, Inl e)
      | None \<Rightarrow>
          (case readZip src of
             Inl e \<Rightarrow> (f, Inl e)
           | Inr entries \<Rightarrow>
               (case liveSite f i of
                  Inl e \<Rightarrow> (f, Inl e)
                | Inr s \<Rightarrow>
                    let t = tree_of_entries entries;
                        msg = (if Filename src = [] then ''Import archive'' else ''Import '' @ Filename src)
                    in (case gm_get (branches s) name of
                          None \<Rightarrow> commit_on f clk i s name [] t actor msg
                        | Some b \<Rightarrow>
                            if baseSHA = [] then (f, Inl (base_required ''required for an existing branch''))
                            else
                              (case checkBaseSHA b name baseSHA [] of
                                 Some e \<Rightarrow> (f, Inl e)
                               | None \<Rightarrow>
                                   if tip b \<noteq> None \<and> treesEqual (tip_tree b) t then
                                     (f, Inl (Sentinel ErrNothingToCommit))
                                   else commit_on f clk i s name b t actor msg)))))"

section \<open>Publishing, history, rollback\<close>

definition Publish :: "FakeService \<Rightarrow> clock \<Rightarrow> PublishInput \<Rightarrow> FakeService \<times> CommitInfo result" where
  "Publish f clk inp =
     (let from = (if pu_From inp = [] then BranchDraft else pu_From inp); i = pu_SiteID inp in
      if from = BranchPublished then
        (f, Inl (ValidationError ''from'' ''cannot publish from the published branch''))
      else if pu_BaseSHA inp = [] then (f, Inl (base_required ''required (tip of the source branch)''))
      else
        (case liveSite f i of
           Inl e \<Rightarrow> (f, Inl e)
         | Inr s \<Rightarrow>
             (case gm_get (branches s) from of
                None \<Rightarrow> (f, Inl (Sentinel ErrNotFound))
              | Some src \<Rightarrow>
                  (case tip src of
                     None \<Rightarrow> (f, Inl (Sentinel ErrNotFound))
                   | Some srcTip \<Rightarrow>
                       if sha srcTip \<noteq> pu_BaseSHA inp then
                         (f, Inl (ConflictError from (pu_BaseSHA inp) (sha srcTip) []))
                       else
                         (case gm_get (branches s) BranchPublished of
                            None \<Rightarrow>
                              (put_site f i (setPublished (put_branch s BranchPublished src) srcTip (clk 0)),
                               Inr (toCommitInfo srcTip))
                          | Some pub \<Rightarrow>
                              let pubTip = (case tip pub of Some t \<Rightarrow> t | None \<Rightarrow> zero_commit) in
                              if sha pubTip = sha srcTip then (f, Inr (toCommitInfo pubTip))
                              else if isAncestor src (sha pubTip) then
                                (put_site f i (setPublished (put_branch s BranchPublished src) srcTip (clk 0)),
                                 Inr (toCommitInfo srcTip))
                              else
                                let conflicts = conflictingPaths (snapshot pubTip) (snapshot srcTip) (mergeBaseTree s src) in
                                if conflicts \<noteq> [] then (f, Inl (PublishConflictError conflicts))
                                else
                                  (case nextSHA f of
                                     (f', h) \<Rightarrow>
                                       let mc = \<lparr> sha = h, parents = [sha pubTip, sha srcTip],
                                                  message = publishMergeMessage from (sha srcTip) (pu_Message inp),
                                                  author = actorName (pu_Actor inp), email = actorEmail (pu_Actor inp),
                                                  via = actorVia (pu_Actor inp), committed_at = clk 0,
                                                  snapshot = mergeTrees (snapshot pubTip) (snapshot srcTip) \<rparr>
                                       in (put_site f' i (setPublished (put_branch s BranchPublished (pub @ [mc])) mc (clk 1)),
                                           Inr (toCommitInfo mc))))))))"

definition emptyTreeSHA :: string where
  "emptyTreeSHA = ''4b825dc642cb6eb9a060e54bf8d69288fbee4904''"

definition GetDiff :: "FakeService \<Rightarrow> DiffOptions \<Rightarrow> DiffResult result" where
  "GetDiff f inp =
     (case liveSite f (do_SiteID inp) of
        Inl e \<Rightarrow> Inl e
      | Inr s \<Rightarrow>
          (case resolveAnyRef s (do_From inp) of
             None \<Rightarrow> Inl (Sentinel ErrNotFound)
           | Some fromC \<Rightarrow>
               (case (if do_To inp = [] then (snapshot fromC, [])
                      else (case resolveAnyRef s (do_To inp) of
                              None \<Rightarrow> ([], emptyTreeSHA)
                            | Some toC \<Rightarrow> (snapshot toC, sha toC))) of
                  (toTree, toSHA) \<Rightarrow>
                    Inr \<lparr> dr_FromSHA = sha fromC, dr_ToSHA = toSHA,
                          dr_Files = diffTrees (snapshot fromC) toTree (do_Path inp) \<rparr>)))"

definition defaultLogLimit :: int where "defaultLogLimit = 50"
definition defaultMaxLogLimit :: int where "defaultMaxLogLimit = 500"

text \<open>The commits strictly older than the cursor; an unknown cursor starts at the top.\<close>

definition after_cursor :: "fakeCommit list \<Rightarrow> string \<Rightarrow> fakeCommit list" where
  "after_cursor cs before =
     (if before \<noteq> [] \<and> list_ex (\<lambda>c. sha c = before) cs
      then drop 1 (dropWhile (\<lambda>c. sha c \<noteq> before) cs) else cs)"

definition GetLog :: "FakeService \<Rightarrow> LogOptions \<Rightarrow> CommitInfo list result" where
  "GetLog f inp =
     (let limit = (if lo_Limit inp \<le> 0 then defaultLogLimit else lo_Limit inp);
          limit = (if defaultMaxLogLimit < limit then defaultMaxLogLimit else limit)
      in (case liveSite f (lo_SiteID inp) of
            Inl e \<Rightarrow> Inl e
          | Inr s \<Rightarrow>
              (case gm_get (branches s) (lo_Branch inp) of
                 None \<Rightarrow> Inl (Sentinel ErrNotFound)
               | Some b \<Rightarrow>
                   Inr (take (nat limit)
                     (map toCommitInfo
                        (filter (\<lambda>c. lo_Path inp = [] \<or> commitTouchedPath b (sha c) (lo_Path inp))
                           (after_cursor (rev b) (lo_Before inp))))))))"

definition Rollback ::
  "FakeService \<Rightarrow> clock \<Rightarrow> uuid \<Rightarrow> branch_name \<Rightarrow> string \<Rightarrow> string \<Rightarrow> Actor \<Rightarrow> FakeService \<times> CommitInfo result" where
  "Rollback f clk i name toSHA baseSHA actor =
     (case refuseProtectedBranch name of
        Some e \<Rightarrow> (f, Inl e)
      | None \<Rightarrow>
          if baseSHA = [] then (f, Inl (base_required ''required''))
          else if toSHA = [] then (f, Inl (ValidationError ''toSha'' ''required''))
          else
            (case liveSite f i of
               Inl e \<Rightarrow> (f, Inl e)
             | Inr s \<Rightarrow>
                 (case gm_get (branches s) name of
                    None \<Rightarrow> (f, Inl (Sentinel ErrNotFound))
                  | Some b \<Rightarrow>
                      (case checkBaseSHA b name baseSHA [] of
                         Some e \<Rightarrow> (f, Inl e)
                       | None \<Rightarrow>
                           (case find_commit b toSHA of
                              None \<Rightarrow> (f, Inl (Sentinel ErrNotFound))
                            | Some target \<Rightarrow>
                                commit_on f clk i s name b (snapshot target) actor
                                  (''Rollback to '' @ short_sha toSHA))))))"

section \<open>The data-plane read side\<close>

definition ServedTree :: "FakeService \<Rightarrow> uuid \<Rightarrow> branch_name \<Rightarrow> TreeHandle result" where
  "ServedTree f i name =
     (case liveSite f i of
        Inl e \<Rightarrow> Inl e
      | Inr s \<Rightarrow>
          (case gm_get (branches s) name of
             None \<Rightarrow> Inl (Sentinel ErrNotFound)
           | Some b \<Rightarrow>
               (case tip b of
                  None \<Rightarrow> Inl (Sentinel ErrNotFound)
                | Some t \<Rightarrow>
                    Inr \<lparr> th_Root = [], th_CommitSHA = sha t, th_CommitTime = committed_at t, th_Exists = True \<rparr>)))"

definition ResolveForServing :: "FakeService \<Rightarrow> string \<Rightarrow> ServeTarget result" where
  "ResolveForServing f hostOrPath =
     (case parseHostOrPath hostOrPath of
        Inl e \<Rightarrow> Inl e
      | Inr (h, name) \<Rightarrow>
          if name = BranchPublished \<and> contains hostOrPath doubleHyphen then
            Inl (ValidationError ''branch'' ''published is not addressable via --'')
          else
            (case ValidateHandleForResolver h of
               Some e \<Rightarrow> Inl e
             | None \<Rightarrow>
                 (case (if name \<noteq> BranchPublished then validateBranchName name else None) of
                    Some e \<Rightarrow> Inl e
                  | None \<Rightarrow>
                      let lower = go_lower h;
                          target = (case live_by_handle f lower of
                                      Some s \<Rightarrow> Some s
                                    | None \<Rightarrow>
                                        (case gm_get (redirects f) lower of
                                           Some owner \<Rightarrow> gm_get (sites f) owner
                                         | None \<Rightarrow> None))
                      in (case target of
                            None \<Rightarrow> Inl (Sentinel ErrNotFound)
                          | Some s \<Rightarrow>
                              if sr_DeletedAt (rec s) \<noteq> None then Inl (Sentinel ErrNotFound)
                              else
                                (case gm_get (branches s) name of
                                   None \<Rightarrow> Inl (Sentinel ErrNotFound)
                                 | Some b \<Rightarrow>
                                     (case tip b of
                                        None \<Rightarrow> Inl (Sentinel ErrNotFound)
                                      | Some t \<Rightarrow>
                                          Inr \<lparr> sv_SiteID = sr_ID (rec s), sv_Handle = sr_Handle (rec s),
                                                sv_Branch = name, sv_Root = [], sv_HeadSHA = sha t \<rparr>))))))"

section \<open>Mirror\<close>

definition SetRemote :: "FakeService \<Rightarrow> uuid \<Rightarrow> string \<Rightarrow> FakeService \<times> unit result" where
  "SetRemote f i url =
     (case liveSite f i of
        Inl e \<Rightarrow> (f, Inl e)
      | Inr s \<Rightarrow>
          (put_site f i (s\<lparr> remote := url, rec := (rec s)\<lparr> sr_GitHubRepo := emptyToNil url \<rparr> \<rparr>), Inr ()))"

definition MirrorPush :: "FakeService \<Rightarrow> uuid \<Rightarrow> FakeService \<times> unit result" where
  "MirrorPush f i =
     (case liveSite f i of
        Inl e \<Rightarrow> (f, Inl e)
      | Inr s \<Rightarrow>
          (case failOnce f ''MirrorPush'' of
             (f', Some e) \<Rightarrow> (f', Inl e)
           | (f', None) \<Rightarrow> (f', Inr ())))"

definition FetchAndUpdate :: "FakeService \<Rightarrow> uuid \<Rightarrow> branch_name \<Rightarrow> CommitInfo result" where
  "FetchAndUpdate f i name =
     (case liveSite f i of
        Inl e \<Rightarrow> Inl e
      | Inr s \<Rightarrow>
          (case gm_get (branches s) name of
             None \<Rightarrow> Inl (Sentinel ErrNotFound)
           | Some b \<Rightarrow>
               (case tip b of
                  None \<Rightarrow> Inl (Sentinel ErrNotFound)
                | Some t \<Rightarrow> Inr (toCommitInfo t))))"

end
