(* ===== verification/Site_Invariant.thy ===== *)
theory Site_Invariant
  imports Site_Service
begin

text \<open>
  The invariant of the in-memory service and its preservation by every operation.

  The central part is the coherence of the logs of one site: whenever two branches contain
  the same commit, they agree on everything up to it. It is what makes "copy the log of
  whichever branch contains the commit" and "fast-forward by replacing the log" well defined,
  although both iterate over maps in no particular order.
\<close>

section \<open>Coherent logs\<close>

definition coh :: "fakeBranch \<Rightarrow> fakeBranch \<Rightarrow> bool" where
  "coh b1 b2 \<longleftrightarrow>
     (\<forall>i < length b1. \<forall>j < length b2. sha (b1 ! i) = sha (b2 ! j) \<longrightarrow> take (Suc i) b1 = take (Suc j) b2)"

definition shas :: "fakeBranch \<Rightarrow> string set" where
  "shas b = sha ` set b"

lemma shas_nth: "i < length b \<Longrightarrow> sha (b ! i) \<in> shas b"
  by (simp add: shas_def)

lemma cohI:
  "(\<And>i j. i < length b1 \<Longrightarrow> j < length b2 \<Longrightarrow> sha (b1 ! i) = sha (b2 ! j) \<Longrightarrow>
     take (Suc i) b1 = take (Suc j) b2) \<Longrightarrow> coh b1 b2"
  by (simp add: coh_def)

lemma cohD:
  "coh b1 b2 \<Longrightarrow> i < length b1 \<Longrightarrow> j < length b2 \<Longrightarrow> sha (b1 ! i) = sha (b2 ! j) \<Longrightarrow>
   take (Suc i) b1 = take (Suc j) b2"
  by (simp add: coh_def)

lemma coh_Nil: "coh [] b"
  by (simp add: coh_def)

lemma coh_sym: "coh b1 b2 \<Longrightarrow> coh b2 b1"
  by (rule cohI) (metis cohD)

lemma coh_take: "coh b1 b2 \<Longrightarrow> coh (take k b1) b2"
proof (rule cohI)
  fix i j
  assume h: "coh b1 b2" "i < length (take k b1)" "j < length b2" "sha (take k b1 ! i) = sha (b2 ! j)"
  then have "i < k" "i < length b1" by auto
  then have "take (Suc i) (take k b1) = take (Suc i) b1" by (simp add: min_absorb1 Suc_leI)
  then show "take (Suc i) (take k b1) = take (Suc j) b2"
    using h \<open>i < k\<close> \<open>i < length b1\<close> cohD [of b1 b2 i j] by simp
qed

lemma snoc_nth_cases:
  assumes "i < length (b @ [c])"
  obtains "i < length b" "(b @ [c]) ! i = b ! i" "take (Suc i) (b @ [c]) = take (Suc i) b"
    | "i = length b" "(b @ [c]) ! i = c" "take (Suc i) (b @ [c]) = b @ [c]"
  using assms by (cases "i < length b") (auto simp: nth_append)

lemma coh_snoc: "coh b1 b2 \<Longrightarrow> sha c \<notin> shas b2 \<Longrightarrow> coh (b1 @ [c]) b2"
proof (rule cohI)
  fix i j
  assume h: "coh b1 b2" "sha c \<notin> shas b2" "i < length (b1 @ [c])" "j < length b2"
    "sha ((b1 @ [c]) ! i) = sha (b2 ! j)"
  show "take (Suc i) (b1 @ [c]) = take (Suc j) b2"
    using h(3)
  proof (cases rule: snoc_nth_cases)
    case 1
    then show ?thesis using h cohD by metis
  next
    case 2
    then show ?thesis using h shas_nth by metis
  qed
qed

lemma coh_snoc_self: "coh b b \<Longrightarrow> sha c \<notin> shas b \<Longrightarrow> coh (b @ [c]) (b @ [c])"
proof (rule cohI)
  fix i j
  assume h: "coh b b" "sha c \<notin> shas b" "i < length (b @ [c])" "j < length (b @ [c])"
    "sha ((b @ [c]) ! i) = sha ((b @ [c]) ! j)"
  show "take (Suc i) (b @ [c]) = take (Suc j) (b @ [c])"
    using h(3)
  proof (cases rule: snoc_nth_cases)
    case 1
    have "j < length b" using h(4)
      by (cases rule: snoc_nth_cases) (use 1 h in \<open>metis shas_nth\<close>)+
    then show ?thesis using 1 h(1,5) cohD [of b b i j] by (simp add: nth_append)
  next
    case 2
    have "j = length b" using h(4)
      by (cases rule: snoc_nth_cases) (use 2 h in \<open>metis shas_nth\<close>)+
    then show ?thesis using 2 by simp
  qed
qed

lemma coh_distinct:
  assumes "coh b b" and "i < length b" and "j < length b" and "sha (b ! i) = sha (b ! j)"
  shows "i = j"
proof -
  have "take (Suc i) b = take (Suc j) b" using assms by (rule cohD)
  then have "length (take (Suc i) b) = length (take (Suc j) b)" by simp
  then show ?thesis using assms by (simp add: min_def split: if_splits)
qed

lemma isAncestor_shas: "isAncestor b h \<longleftrightarrow> h \<in> shas b"
  by (auto simp: isAncestor_def list_ex_iff shas_def)

lemma upto_sha_take: "h \<in> shas b \<Longrightarrow> \<exists>i < length b. sha (b ! i) = h \<and> upto_sha b h = take (Suc i) b"
proof (induction b)
  case (Cons c b)
  show ?case
  proof (cases "sha c = h")
    case True
    then show ?thesis by (intro exI [of _ 0]) simp
  next
    case False
    then obtain i where "i < length b" "sha (b ! i) = h" "upto_sha b h = take (Suc i) b"
      using Cons by (auto simp: shas_def)
    then show ?thesis using False by (intro exI [of _ "Suc i"]) simp
  qed
qed (simp add: shas_def)

text \<open>A log that contains the tip of another extends it.\<close>

lemma coh_tip_prefix:
  assumes "coh b1 b2" and "b1 \<noteq> []" and "sha (last b1) \<in> shas b2"
  shows "\<exists>k. b1 = take k b2 \<and> 0 < k \<and> k \<le> length b2"
proof -
  obtain j where j: "j < length b2" "sha (b2 ! j) = sha (last b1)"
    using assms(3) by (auto simp: shas_def in_set_conv_nth)
  have "take (Suc (length b1 - 1)) b1 = take (Suc j) b2"
    using assms(2) j by (intro cohD [OF assms(1)]) (simp_all add: last_conv_nth)
  then have "b1 = take (Suc j) b2" using assms(2) by simp
  then show ?thesis using j(1) by (intro exI [of _ "Suc j"]) simp
qed

section \<open>The invariant\<close>

definition branch_ok :: "nat \<Rightarrow> fakeBranch \<Rightarrow> bool" where
  "branch_ok n b \<longleftrightarrow>
     b \<noteq> [] \<and> (\<forall>c \<in> set b. (\<exists>k. 1 \<le> k \<and> k \<le> n \<and> sha c = hex40 k) \<and> gm_wf (snapshot c))"

definition site_ok :: "nat \<Rightarrow> fakeSite \<Rightarrow> bool" where
  "site_ok n s \<longleftrightarrow>
     gm_wf (branches s) \<and> gm_get (branches s) BranchDraft \<noteq> None \<and>
     ValidateHandle (sr_Handle (rec s)) = None \<and>
     sr_PublishedSHA (rec s) = map_option (\<lambda>b. sha (last b)) (gm_get (branches s) BranchPublished) \<and>
     (\<forall>name b. gm_get (branches s) name = Some b \<longrightarrow> branch_ok n b) \<and>
     (\<forall>n1 n2 b1 b2. gm_get (branches s) n1 = Some b1 \<longrightarrow> gm_get (branches s) n2 = Some b2 \<longrightarrow> coh b1 b2)"

definition is_live :: "fakeSite \<Rightarrow> bool" where
  "is_live s \<longleftrightarrow> sr_DeletedAt (rec s) = None"

definition svc_inv :: "FakeService \<Rightarrow> bool" where
  "svc_inv f \<longleftrightarrow>
     gm_wf (sites f) \<and>
     (\<forall>i s. gm_get (sites f) i = Some s \<longrightarrow> sr_ID (rec s) = i \<and> site_ok (seq f) s) \<and>
     (\<forall>i j s t. gm_get (sites f) i = Some s \<longrightarrow> gm_get (sites f) j = Some t \<longrightarrow>
        is_live s \<longrightarrow> is_live t \<longrightarrow> sr_Handle (rec s) = sr_Handle (rec t) \<longrightarrow> i = j) \<and>
     (\<forall>h i. gm_get (redirects f) h = Some i \<longrightarrow> gm_get (sites f) i \<noteq> None \<and>
        (\<forall>j s. gm_get (sites f) j = Some s \<longrightarrow> is_live s \<longrightarrow> sr_Handle (rec s) \<noteq> h))"

lemma branch_ok_mono: "branch_ok n b \<Longrightarrow> n \<le> m \<Longrightarrow> branch_ok m b"
  unfolding branch_ok_def by (meson order_trans)

lemma site_ok_mono: "site_ok n s \<Longrightarrow> n \<le> m \<Longrightarrow> site_ok m s"
  unfolding site_ok_def using branch_ok_mono by blast

lemma branch_ok_take: "branch_ok n b \<Longrightarrow> 0 < k \<Longrightarrow> branch_ok n (take k b)"
  unfolding branch_ok_def by (auto dest: in_set_takeD)

lemma branch_ok_shas: "branch_ok n b \<Longrightarrow> hex40 (Suc n) \<notin> shas b"
proof
  assume "branch_ok n b" "hex40 (Suc n) \<in> shas b"
  then obtain k where "k \<le> n" "hex40 (Suc n) = hex40 k" by (auto simp: branch_ok_def shas_def)
  then show False by (simp add: hex40_inj)
qed

lemma branch_ok_snoc:
  "branch_ok n b \<or> b = [] \<Longrightarrow> sha c = hex40 (Suc n) \<Longrightarrow> gm_wf (snapshot c) \<Longrightarrow> branch_ok (Suc n) (b @ [c])"
  unfolding branch_ok_def by (auto intro: le_SucI)

lemma liveSite_Inr: "liveSite f i = Inr s \<longleftrightarrow> gm_get (sites f) i = Some s \<and> is_live s"
  by (auto simp: liveSite_def is_live_def split: option.splits if_splits)

lemma liveSite_Inl: "liveSite f i = Inl e \<Longrightarrow> e = Sentinel ErrNotFound"
  by (auto simp: liveSite_def split: option.splits if_splits)

lemma svc_site: "svc_inv f \<Longrightarrow> gm_get (sites f) i = Some s \<Longrightarrow> site_ok (seq f) s \<and> sr_ID (rec s) = i"
  by (simp add: svc_inv_def)

text \<open>Replacing the log of a branch of a site, the published one with its pointer.\<close>

lemma site_ok_put_branch:
  assumes s: "site_ok n s" "n \<le> m" and b: "branch_ok m b" "coh b b"
    and others: "\<And>n' b'. gm_get (branches s) n' = Some b' \<Longrightarrow> n' \<noteq> name \<Longrightarrow> coh b b'"
    and r: "sr_Handle (rec s') = sr_Handle (rec s)"
    and pub: "sr_PublishedSHA (rec s') =
      (if name = BranchPublished then Some (sha (last b)) else sr_PublishedSHA (rec s))"
    and brs: "branches s' = gm_put name b (branches s)"
  shows "site_ok m s'"
proof -
  have m: "site_ok m s" using s by (rule site_ok_mono)
  have ok: "branch_ok m b'" if "gm_get (branches s') n' = Some b'" for n' b'
    using that m b(1) brs by (auto simp: site_ok_def split: if_splits)
  have coh: "coh b1 b2" if "gm_get (branches s') n1 = Some b1" "gm_get (branches s') n2 = Some b2" for n1 n2 b1 b2
    using that others coh_sym b(2) m unfolding brs site_ok_def by (auto split: if_splits)
  show ?thesis using m ok coh r pub brs unfolding site_ok_def by auto
qed

text \<open>An operation that keeps identity, handle and liveness of the site it changes.\<close>

lemma svc_inv_put:
  assumes inv: "svc_inv f" and s: "gm_get (sites f) i = Some s" and n: "seq f \<le> n" and ok: "site_ok n s'"
    and same: "sr_ID (rec s') = sr_ID (rec s)" "sr_Handle (rec s') = sr_Handle (rec s)" "is_live s' = is_live s"
    and f': "sites f' = gm_put i s' (sites f)" "redirects f' = redirects f" "seq f' = n"
  shows "svc_inv f'"
proof -
  have old: "\<exists>t'. gm_get (sites f) j = Some t' \<and> sr_Handle (rec t') = sr_Handle (rec t) \<and> is_live t' = is_live t"
    if "gm_get (sites f') j = Some t" for j t
    using that s same f' by (auto split: if_splits)
  have "gm_wf (sites f')" using inv f' by (simp add: svc_inv_def)
  moreover have "sr_ID (rec t) = j \<and> site_ok (seq f') t" if "gm_get (sites f') j = Some t" for j t
    using that inv s ok same f' site_ok_mono [OF _ n] by (auto simp: svc_inv_def split: if_splits)
  moreover have "j = k" if "gm_get (sites f') j = Some t" "gm_get (sites f') k = Some u"
      "is_live t" "is_live u" "sr_Handle (rec t) = sr_Handle (rec u)" for j k t u
    using old [OF that(1)] old [OF that(2)] that(3-5) inv unfolding svc_inv_def by metis
  moreover have "gm_get (sites f') j \<noteq> None \<and>
      (\<forall>k t. gm_get (sites f') k = Some t \<longrightarrow> is_live t \<longrightarrow> sr_Handle (rec t) \<noteq> h)"
    if "gm_get (redirects f') h = Some j" for h j
    using that old inv f' unfolding svc_inv_def by (metis gm_get_put option.distinct(1))
  ultimately show ?thesis unfolding svc_inv_def by blast
qed

section \<open>Writers\<close>

definition new_commit :: "FakeService \<Rightarrow> fakeBranch \<Rightarrow> tree \<Rightarrow> Actor \<Rightarrow> string \<Rightarrow> int \<Rightarrow> fakeCommit" where
  "new_commit f b t actor msg now =
     \<lparr> sha = hex40 (Suc (seq f)), parents = (case tip b of Some c \<Rightarrow> [sha c] | None \<Rightarrow> []),
       message = msg, author = actorName actor, email = actorEmail actor,
       via = actorVia actor, committed_at = now, snapshot = t \<rparr>"

lemma new_commit_simps [simp]:
  "sha (new_commit f b t actor msg now) = hex40 (Suc (seq f))"
  "snapshot (new_commit f b t actor msg now) = t"
  by (simp_all add: new_commit_def)

lemma commit_eq:
  "commit f b t actor msg now =
     (f\<lparr> seq := Suc (seq f) \<rparr>, b @ [new_commit f b t actor msg now],
      toCommitInfo (new_commit f b t actor msg now))"
  by (simp add: commit_def nextSHA_def new_commit_def Let_def)

lemma commit_on_eq:
  "commit_on f clk i s name b t actor msg =
     (put_site (f\<lparr> seq := Suc (seq f) \<rparr>) i
        (touch (put_branch s name (b @ [new_commit f b t actor msg (clk 0)])) (clk 1)),
      Inr (toCommitInfo (new_commit f b t actor msg (clk 0))))"
  by (simp add: commit_on_def commit_eq)

lemma put_simps [simp]:
  "rec (put_branch s name b) = rec s" "branches (put_branch s name b) = gm_put name b (branches s)"
  "branches (touch s now) = branches s" "remote (touch s now) = remote s"
  "remote (put_branch s name b) = remote s" "branches (setPublished s t now) = branches s"
  "sr_ID (rec (touch s now)) = sr_ID (rec s)" "sr_Handle (rec (touch s now)) = sr_Handle (rec s)"
  "sr_PublishedSHA (rec (touch s now)) = sr_PublishedSHA (rec s)"
  "is_live (touch s now) = is_live s" "is_live (put_branch s name b) = is_live s"
  "sr_ID (rec (setPublished s t now)) = sr_ID (rec s)"
  "sr_Handle (rec (setPublished s t now)) = sr_Handle (rec s)"
  "sr_PublishedSHA (rec (setPublished s t now)) = Some (sha t)"
  "is_live (setPublished s t now) = is_live s"
  "sites (put_site f i s) = gm_put i s (sites f)" "redirects (put_site f i s) = redirects f"
  "seq (put_site f i s) = seq f" "FailNext (put_site f i s) = FailNext f"
  by (simp_all add: put_branch_def touch_def setPublished_def put_site_def is_live_def)

lemma site_branch:
  "site_ok n s \<Longrightarrow> gm_get (branches s) name = Some b \<Longrightarrow> branch_ok n b"
  "site_ok n s \<Longrightarrow> gm_get (branches s) n1 = Some b1 \<Longrightarrow> gm_get (branches s) n2 = Some b2 \<Longrightarrow> coh b1 b2"
  by (auto simp: site_ok_def)

lemma site_fresh:
  "site_ok n s \<Longrightarrow> gm_get (branches s) name = Some b \<Longrightarrow> hex40 (Suc n) \<notin> shas b"
  by (metis branch_ok_shas site_branch(1))

text \<open>Appending a commit with the next sequence number to a log of the site.\<close>

lemma site_ok_snoc:
  assumes s: "site_ok n s" and b: "gm_get (branches s) name = Some b \<or> gm_get (branches s) name = None \<and> b = []"
    and c: "sha c = hex40 (Suc n)" "gm_wf (snapshot c)"
    and r: "sr_Handle (rec s') = sr_Handle (rec s)"
      "sr_PublishedSHA (rec s') = (if name = BranchPublished then Some (sha c) else sr_PublishedSHA (rec s))"
      "branches s' = gm_put name (b @ [c]) (branches s)"
  shows "site_ok (Suc n) s'"
proof (rule site_ok_put_branch [OF s, where b = "b @ [c]" and name = name])
  have "branch_ok n b \<or> b = []" using b site_branch(1) [OF s] by blast
  then show "branch_ok (Suc n) (b @ [c])" using c by (rule branch_ok_snoc)
  have fresh: "sha c \<notin> shas b" using b c(1) site_fresh [OF s] by (auto simp: shas_def)
  moreover have "coh b b" using b site_branch(2) [OF s] coh_Nil by blast
  ultimately show "coh (b @ [c]) (b @ [c])" by (intro coh_snoc_self)
  show "coh (b @ [c]) b'" if "gm_get (branches s) n' = Some b'" for n' b'
  proof (rule coh_snoc)
    show "coh b b'" using b that site_branch(2) [OF s] coh_Nil by blast
    show "sha c \<notin> shas b'" using c(1) that site_fresh [OF s] by simp
  qed
qed (use r in simp_all)

lemma svc_inv_commit_on:
  assumes inv: "svc_inv f" and s: "gm_get (sites f) i = Some s"
    and b: "gm_get (branches s) name = Some b \<or> gm_get (branches s) name = None \<and> b = []"
    and np: "name \<noteq> BranchPublished" and t: "gm_wf t"
  shows "svc_inv (fst (commit_on f clk i s name b t actor msg))"
proof -
  let ?c = "new_commit f b t actor msg (clk 0)"
  let ?s' = "touch (put_branch s name (b @ [?c])) (clk 1)"
  have "site_ok (Suc (seq f)) ?s'"
  proof (rule site_ok_snoc [where s = s and name = name and c = ?c])
    show "site_ok (seq f) s" using svc_site [OF inv s] by simp
  qed (use b np t in simp_all)
  then show ?thesis
    unfolding commit_on_eq by (intro svc_inv_put [OF inv s, where n = "Suc (seq f)" and s' = ?s']) simp_all
qed

lemma tip_tree_wf: "branch_ok n b \<Longrightarrow> gm_wf (tip_tree b)"
  by (auto simp: tip_tree_def tip_def branch_ok_def)

lemma tree_of_entries_wf: "gm_wf (tree_of_entries es)"
proof -
  have "gm_wf t \<Longrightarrow> gm_wf (foldl (\<lambda>t e. gm_put (fst e) (snd e) t) t es)" for t :: tree
    by (induction es arbitrary: t) auto
  then show ?thesis by (simp add: tree_of_entries_def)
qed

lemma svc_branch_wf:
  "svc_inv f \<Longrightarrow> gm_get (sites f) i = Some s \<Longrightarrow> gm_get (branches s) name = Some b \<Longrightarrow> branch_ok (seq f) b"
  using svc_site site_branch(1) by blast

lemma svc_tip_wf:
  "svc_inv f \<Longrightarrow> gm_get (sites f) i = Some s \<Longrightarrow> gm_get (branches s) name = Some b \<Longrightarrow> gm_wf (tip_tree b)"
  using svc_branch_wf tip_tree_wf by blast

text \<open>
  The shape of every writer: it either leaves the state alone and returns an error, or is
  one \<open>commit_on\<close> on a live site, with the lock token equal to the tip.
\<close>

inductive writer :: "FakeService \<Rightarrow> clock \<Rightarrow> uuid \<Rightarrow> branch_name \<Rightarrow> FakeService \<times> CommitInfo result \<Rightarrow> bool"
  for f clk i name where
    refused: "writer f clk i name (f, Inl e)"
  | committed: "\<lbrakk> gm_get (sites f) i = Some s; is_live s;
      gm_get (branches s) name = Some b \<or> gm_get (branches s) name = None \<and> b = [];
      name \<noteq> BranchPublished; gm_wf t \<rbrakk> \<Longrightarrow>
      writer f clk i name (commit_on f clk i s name b t actor msg)"

lemma writer_inv: "writer f clk i name r \<Longrightarrow> svc_inv f \<Longrightarrow> svc_inv (fst r)"
  by (induction rule: writer.induct) (auto intro: svc_inv_commit_on)

lemma err_or_case:
  "(case x of Some e \<Rightarrow> (f, Inl e) | None \<Rightarrow> y) = (f', Inr r) \<longleftrightarrow> x = None \<and> y = (f', Inr r)"
  "(case y' of Inl e \<Rightarrow> (f, Inl e) | Inr s \<Rightarrow> g s) = (f', Inr r) \<longleftrightarrow> (\<exists>s. y' = Inr s \<and> g s = (f', Inr r))"
  "(case z of None \<Rightarrow> (f, Inl e) | Some s \<Rightarrow> h s) = (f', Inr r) \<longleftrightarrow> (\<exists>s. z = Some s \<and> h s = (f', Inr r))"
  "(if b then (f, Inl e) else w) = (f', Inr r) \<longleftrightarrow> \<not> b \<and> w = (f', Inr r)"
  by (auto split: option.splits sum.splits)

lemma commit_on_Inr [simp]: "commit_on f clk i s name b t actor msg \<noteq> (f', Inl e)"
  by (simp add: commit_on_eq)

text \<open>When each writer succeeds, and what it commits.\<close>

lemma WriteFile_ok:
  "WriteFile f clk inp = (f', Inr ci) \<longleftrightarrow>
   wf_Branch inp \<noteq> BranchPublished \<and> wf_Branch inp \<noteq> [] \<and>
   validateWritePath (wf_Actor inp) (wf_Path inp) = None \<and> wf_BaseSHA inp \<noteq> [] \<and>
   (\<exists>s b. gm_get (sites f) (wf_SiteID inp) = Some s \<and> is_live s \<and>
     gm_get (branches s) (wf_Branch inp) = Some b \<and>
     checkBaseSHA b (wf_Branch inp) (wf_BaseSHA inp) [wf_Path inp] = None \<and>
     commit_on f clk (wf_SiteID inp) s (wf_Branch inp) b
       (gm_put (wf_Path inp) (wf_Content inp) (tip_tree b)) (wf_Actor inp)
       (if wf_Message inp = [] then ''Update '' @ wf_Path inp else wf_Message inp) = (f', Inr ci))"
  unfolding WriteFile_def err_or_case liveSite_Inr refuseProtectedBranch_iff by blast

lemma DeleteFile_ok:
  "DeleteFile f clk i name path baseSHA actor = (f', Inr ci) \<longleftrightarrow>
   name \<noteq> BranchPublished \<and> name \<noteq> [] \<and> validateReadPath path = None \<and> baseSHA \<noteq> [] \<and>
   (\<exists>s b. gm_get (sites f) i = Some s \<and> is_live s \<and> gm_get (branches s) name = Some b \<and>
     checkBaseSHA b name baseSHA [path] = None \<and> gm_get (tip_tree b) path \<noteq> None \<and>
     commit_on f clk i s name b (gm_del path (tip_tree b)) actor (''Delete '' @ path) = (f', Inr ci))"
  unfolding DeleteFile_def err_or_case liveSite_Inr refuseProtectedBranch_iff by blast

lemma Rollback_ok:
  "Rollback f clk i name toSHA baseSHA actor = (f', Inr ci) \<longleftrightarrow>
   name \<noteq> BranchPublished \<and> name \<noteq> [] \<and> baseSHA \<noteq> [] \<and> toSHA \<noteq> [] \<and>
   (\<exists>s b target. gm_get (sites f) i = Some s \<and> is_live s \<and> gm_get (branches s) name = Some b \<and>
     checkBaseSHA b name baseSHA [] = None \<and> find_commit b toSHA = Some target \<and>
     commit_on f clk i s name b (snapshot target) actor (''Rollback to '' @ short_sha toSHA) = (f', Inr ci))"
  unfolding Rollback_def err_or_case liveSite_Inr refuseProtectedBranch_iff by blast

lemma ImportZip_ok:
  "ImportZip f clk i name src baseSHA actor = (f', Inr ci) \<Longrightarrow>
   name \<noteq> BranchPublished \<and> name \<noteq> [] \<and>
   (\<exists>s b entries msg. readZip src = Inr entries \<and> gm_get (sites f) i = Some s \<and> is_live s \<and>
     (gm_get (branches s) name = Some b \<and> checkBaseSHA b name baseSHA [] = None \<or>
      gm_get (branches s) name = None \<and> b = []) \<and>
     commit_on f clk i s name b (tree_of_entries entries) actor msg = (f', Inr ci))"
proof -
  let ?msg = "if Filename src = [] then ''Import archive'' else ''Import '' @ Filename src"
  assume "ImportZip f clk i name src baseSHA actor = (f', Inr ci)"
  then obtain s es where np: "name \<noteq> BranchPublished" "name \<noteq> []" and es: "readZip src = Inr es"
    and s: "gm_get (sites f) i = Some s" "is_live s"
    and r: "(case gm_get (branches s) name of
        None \<Rightarrow> commit_on f clk i s name [] (tree_of_entries es) actor ?msg
      | Some b \<Rightarrow>
          if baseSHA = [] then (f, Inl (base_required ''required for an existing branch''))
          else (case checkBaseSHA b name baseSHA [] of
                  Some e \<Rightarrow> (f, Inl e)
                | None \<Rightarrow>
                    if tip b \<noteq> None \<and> treesEqual (tip_tree b) (tree_of_entries es)
                    then (f, Inl (Sentinel ErrNothingToCommit))
                    else commit_on f clk i s name b (tree_of_entries es) actor ?msg)) = (f', Inr ci)"
    unfolding ImportZip_def err_or_case liveSite_Inr refuseProtectedBranch_iff Let_def by blast
  show ?thesis
  proof (cases "gm_get (branches s) name")
    case None
    then show ?thesis using np es s r by auto
  next
    case (Some b)
    then have "checkBaseSHA b name baseSHA [] = None"
        "commit_on f clk i s name b (tree_of_entries es) actor ?msg = (f', Inr ci)"
      using r by (simp_all add: err_or_case)
    then show ?thesis using np es s Some by blast
  qed
qed

lemma writers_refuse:
  "WriteFile f clk inp = (f', Inl e) \<Longrightarrow> f' = f"
  "DeleteFile f clk i name path baseSHA actor = (f', Inl e) \<Longrightarrow> f' = f"
  "Rollback f clk i name toSHA baseSHA actor = (f', Inl e) \<Longrightarrow> f' = f"
  "ImportZip f clk i name src baseSHA actor = (f', Inl e) \<Longrightarrow> f' = f"
  unfolding WriteFile_def DeleteFile_def Rollback_def ImportZip_def Let_def
  by (simp_all split: option.splits sum.splits if_splits)

lemma writerI:
  assumes "\<And>f' e. r = (f', Inl e) \<Longrightarrow> f' = f"
    and "\<And>f' ci. r = (f', Inr ci) \<Longrightarrow> writer f clk i name (f', Inr ci)"
  shows "writer f clk i name r"
proof (cases "snd r")
  case (Inl e)
  then have "r = (f, Inl e)" using assms(1) [of "fst r" e] by (cases r) auto
  then show ?thesis by (simp add: writer.refused)
next
  case (Inr ci)
  then show ?thesis using assms(2) [of "fst r" ci] by (cases r) auto
qed

lemma WriteFile_writer:
  assumes "svc_inv f"
  shows "writer f clk (wf_SiteID inp) (wf_Branch inp) (WriteFile f clk inp)"
proof (rule writerI)
  fix f' ci
  assume "WriteFile f clk inp = (f', Inr ci)"
  then obtain s b t msg where h: "wf_Branch inp \<noteq> BranchPublished" "gm_get (sites f) (wf_SiteID inp) = Some s"
      "is_live s" "gm_get (branches s) (wf_Branch inp) = Some b"
      "t = gm_put (wf_Path inp) (wf_Content inp) (tip_tree b)"
      and r: "commit_on f clk (wf_SiteID inp) s (wf_Branch inp) b t (wf_Actor inp) msg = (f', Inr ci)"
    unfolding WriteFile_ok by blast
  have "gm_wf t" using svc_tip_wf [OF assms h(2,4)] h(5) by simp
  then show "writer f clk (wf_SiteID inp) (wf_Branch inp) (f', Inr ci)"
    unfolding r [symmetric] using h by (intro writer.committed) simp_all
qed (rule writers_refuse)

lemma DeleteFile_writer:
  assumes "svc_inv f"
  shows "writer f clk i name (DeleteFile f clk i name path baseSHA actor)"
proof (rule writerI)
  fix f' ci
  assume "DeleteFile f clk i name path baseSHA actor = (f', Inr ci)"
  then obtain s b t where h: "name \<noteq> BranchPublished" "gm_get (sites f) i = Some s"
      "is_live s" "gm_get (branches s) name = Some b" "t = gm_del path (tip_tree b)"
      and r: "commit_on f clk i s name b t actor (''Delete '' @ path) = (f', Inr ci)"
    unfolding DeleteFile_ok by blast
  have "gm_wf t" using svc_tip_wf [OF assms h(2,4)] h(5) by simp
  then show "writer f clk i name (f', Inr ci)"
    unfolding r [symmetric] using h by (intro writer.committed) simp_all
qed (rule writers_refuse)

lemma find_commit_in: "find_commit b h = Some c \<Longrightarrow> c \<in> set b \<and> sha c = h"
  by (auto simp: find_commit_def dest: find_SomeD)

lemma find_commit_wf:
  "svc_inv f \<Longrightarrow> gm_get (sites f) i = Some s \<Longrightarrow> gm_get (branches s) name = Some b \<Longrightarrow>
   find_commit b h = Some c \<Longrightarrow> gm_wf (snapshot c)"
  using svc_branch_wf find_commit_in unfolding branch_ok_def by blast

lemma Rollback_writer:
  assumes "svc_inv f"
  shows "writer f clk i name (Rollback f clk i name toSHA baseSHA actor)"
proof (rule writerI)
  fix f' ci
  assume "Rollback f clk i name toSHA baseSHA actor = (f', Inr ci)"
  then obtain s b c where h: "name \<noteq> BranchPublished" "gm_get (sites f) i = Some s"
      "is_live s" "gm_get (branches s) name = Some b" "find_commit b toSHA = Some c"
      and r: "commit_on f clk i s name b (snapshot c) actor (''Rollback to '' @ short_sha toSHA) = (f', Inr ci)"
    unfolding Rollback_ok by blast
  have "gm_wf (snapshot c)" using h find_commit_wf [OF assms] by simp
  then show "writer f clk i name (f', Inr ci)"
    unfolding r [symmetric] using h by (intro writer.committed) simp_all
qed (rule writers_refuse)

lemma ImportZip_writer:
  assumes "svc_inv f"
  shows "writer f clk i name (ImportZip f clk i name src baseSHA actor)"
proof (rule writerI)
  fix f' ci
  assume "ImportZip f clk i name src baseSHA actor = (f', Inr ci)"
  then obtain s b es msg where h: "name \<noteq> BranchPublished" "gm_get (sites f) i = Some s"
      "is_live s" "gm_get (branches s) name = Some b \<or> gm_get (branches s) name = None \<and> b = []"
      and r: "commit_on f clk i s name b (tree_of_entries es) actor msg = (f', Inr ci)"
    using ImportZip_ok by metis
  show "writer f clk i name (f', Inr ci)"
    unfolding r [symmetric] using h tree_of_entries_wf by (intro writer.committed) simp_all
qed (rule writers_refuse)

section \<open>Publishing\<close>

definition publish_from :: "PublishInput \<Rightarrow> branch_name" where
  "publish_from inp = (if pu_From inp = [] then BranchDraft else pu_From inp)"

definition merge_commit :: "FakeService \<Rightarrow> clock \<Rightarrow> PublishInput \<Rightarrow> fakeBranch \<Rightarrow> fakeBranch \<Rightarrow> fakeCommit" where
  "merge_commit f clk inp pub src =
     \<lparr> sha = hex40 (Suc (seq f)), parents = [sha (last pub), sha (last src)],
       message = publishMergeMessage (publish_from inp) (sha (last src)) (pu_Message inp),
       author = actorName (pu_Actor inp), email = actorEmail (pu_Actor inp),
       via = actorVia (pu_Actor inp), committed_at = clk 0,
       snapshot = mergeTrees (snapshot (last pub)) (snapshot (last src)) \<rparr>"

lemma merge_commit_simps [simp]:
  "sha (merge_commit f clk inp pub src) = hex40 (Suc (seq f))"
  "snapshot (merge_commit f clk inp pub src) = mergeTrees (snapshot (last pub)) (snapshot (last src))"
  "parents (merge_commit f clk inp pub src) = [sha (last pub), sha (last src)]"
  by (simp_all add: merge_commit_def)

definition fast_forward :: "FakeService \<Rightarrow> clock \<Rightarrow> uuid \<Rightarrow> fakeSite \<Rightarrow> fakeBranch \<Rightarrow> FakeService" where
  "fast_forward f clk i s src =
     put_site f i (setPublished (put_branch s BranchPublished src) (last src) (clk 0))"

lemma svc_branch_tip:
  "svc_inv f \<Longrightarrow> gm_get (sites f) i = Some s \<Longrightarrow> gm_get (branches s) name = Some b \<Longrightarrow>
   b \<noteq> [] \<and> tip b = Some (last b)"
  using svc_branch_wf by (auto simp: branch_ok_def tip_def)

lemma Publish_Inl: "Publish f clk inp = (f', Inl e) \<Longrightarrow> f' = f"
  unfolding Publish_def Let_def nextSHA_def
  by (simp split: option.splits sum.splits if_splits)

lemma Publish_ok:
  assumes inv: "svc_inv f" and ok: "Publish f clk inp = (f', Inr ci)"
  obtains s src where "publish_from inp \<noteq> BranchPublished" and "pu_BaseSHA inp \<noteq> []"
    and "gm_get (sites f) (pu_SiteID inp) = Some s" and "is_live s"
    and "gm_get (branches s) (publish_from inp) = Some src" and "sha (last src) = pu_BaseSHA inp"
    and "gm_get (branches s) BranchPublished = None \<and> f' = fast_forward f clk (pu_SiteID inp) s src \<and>
           ci = toCommitInfo (last src) \<or>
         (\<exists>pub. gm_get (branches s) BranchPublished = Some pub \<and> pub \<noteq> [] \<and>
           (sha (last pub) = sha (last src) \<and> f' = f \<and> ci = toCommitInfo (last pub) \<or>
            sha (last pub) \<noteq> sha (last src) \<and> sha (last pub) \<in> shas src \<and>
              f' = fast_forward f clk (pu_SiteID inp) s src \<and> ci = toCommitInfo (last src) \<or>
            sha (last pub) \<notin> shas src \<and>
              conflictingPaths (snapshot (last pub)) (snapshot (last src)) (mergeBaseTree s src) = [] \<and>
              f' = put_site (f\<lparr> seq := Suc (seq f) \<rparr>) (pu_SiteID inp)
                 (setPublished (put_branch s BranchPublished (pub @ [merge_commit f clk inp pub src]))
                    (merge_commit f clk inp pub src) (clk 1)) \<and>
              ci = toCommitInfo (merge_commit f clk inp pub src)))"
proof -
  let ?i = "pu_SiteID inp"
  from ok obtain s src srcTip where a: "publish_from inp \<noteq> BranchPublished" "pu_BaseSHA inp \<noteq> []"
      "gm_get (sites f) ?i = Some s" "is_live s" "gm_get (branches s) (publish_from inp) = Some src"
      and t: "tip src = Some srcTip" "sha srcTip = pu_BaseSHA inp"
    unfolding Publish_def Let_def err_or_case liveSite_Inr publish_from_def [symmetric] by blast
  have st: "srcTip = last src" using t svc_branch_tip [OF inv a(3,5)] by simp
  note red = a t st liveSite_Inr publish_from_def [symmetric] isAncestor_shas fast_forward_def
  have live: "liveSite f ?i = Inr s" using a by (simp add: liveSite_Inr)
  show thesis
  proof (cases "gm_get (branches s) BranchPublished")
    case None
    then have "f' = fast_forward f clk ?i s src \<and> ci = toCommitInfo (last src)"
      using ok a t st live unfolding Publish_def Let_def publish_from_def [symmetric]
      by (simp add: fast_forward_def)
    then show ?thesis using that [of s src] a t st None by blast
  next
    case (Some pub)
    have pt: "pub \<noteq> []" "tip pub = Some (last pub)" using svc_branch_tip [OF inv a(3) Some] by auto
    have "sha (last pub) = sha (last src) \<and> f' = f \<and> ci = toCommitInfo (last pub) \<or>
      sha (last pub) \<noteq> sha (last src) \<and> sha (last pub) \<in> shas src \<and>
        f' = fast_forward f clk ?i s src \<and> ci = toCommitInfo (last src) \<or>
      sha (last pub) \<notin> shas src \<and>
        conflictingPaths (snapshot (last pub)) (snapshot (last src)) (mergeBaseTree s src) = [] \<and>
        f' = put_site (f\<lparr> seq := Suc (seq f) \<rparr>) ?i
           (setPublished (put_branch s BranchPublished (pub @ [merge_commit f clk inp pub src]))
              (merge_commit f clk inp pub src) (clk 1)) \<and>
        ci = toCommitInfo (merge_commit f clk inp pub src)"
      using ok a t st live Some pt unfolding Publish_def Let_def publish_from_def [symmetric]
      by (simp add: fast_forward_def isAncestor_shas nextSHA_def merge_commit_def split: if_splits)
    then show ?thesis using that [of s src] a t st Some pt by blast
  qed
qed

lemma svc_inv_fast_forward:
  assumes inv: "svc_inv f" and s: "gm_get (sites f) i = Some s" and b: "gm_get (branches s) name = Some src"
  shows "svc_inv (fast_forward f clk i s src)"
proof -
  let ?s' = "setPublished (put_branch s BranchPublished src) (last src) (clk 0)"
  note ok = svc_site [OF inv s, THEN conjunct1]
  have "site_ok (seq f) ?s'"
    by (rule site_ok_put_branch [OF ok order_refl, where b = src and name = BranchPublished])
      (use b site_branch [OF ok] in auto)
  then show ?thesis unfolding fast_forward_def
    by (intro svc_inv_put [OF inv s order_refl, where s' = ?s']) simp_all
qed

lemma Publish_inv:
  assumes inv: "svc_inv f"
  shows "svc_inv (fst (Publish f clk inp))"
proof (cases "snd (Publish f clk inp)")
  case (Inl e)
  then show ?thesis using Publish_Inl inv by (metis prod.collapse)
next
  case (Inr ci)
  then obtain f' where ok: "Publish f clk inp = (f', Inr ci)" by (cases "Publish f clk inp") auto
  from inv ok show ?thesis
  proof (rule Publish_ok)
    fix s src
    assume a: "gm_get (sites f) (pu_SiteID inp) = Some s" "gm_get (branches s) (publish_from inp) = Some src"
      and c: "gm_get (branches s) BranchPublished = None \<and> f' = fast_forward f clk (pu_SiteID inp) s src \<and>
           ci = toCommitInfo (last src) \<or>
         (\<exists>pub. gm_get (branches s) BranchPublished = Some pub \<and> pub \<noteq> [] \<and>
           (sha (last pub) = sha (last src) \<and> f' = f \<and> ci = toCommitInfo (last pub) \<or>
            sha (last pub) \<noteq> sha (last src) \<and> sha (last pub) \<in> shas src \<and>
              f' = fast_forward f clk (pu_SiteID inp) s src \<and> ci = toCommitInfo (last src) \<or>
            sha (last pub) \<notin> shas src \<and>
              conflictingPaths (snapshot (last pub)) (snapshot (last src)) (mergeBaseTree s src) = [] \<and>
              f' = put_site (f\<lparr> seq := Suc (seq f) \<rparr>) (pu_SiteID inp)
                 (setPublished (put_branch s BranchPublished (pub @ [merge_commit f clk inp pub src]))
                    (merge_commit f clk inp pub src) (clk 1)) \<and>
              ci = toCommitInfo (merge_commit f clk inp pub src)))"
    note ok' = svc_site [OF inv a(1), THEN conjunct1]
    have merge: "svc_inv (put_site (f\<lparr> seq := Suc (seq f) \<rparr>) (pu_SiteID inp)
                 (setPublished (put_branch s BranchPublished (pub @ [merge_commit f clk inp pub src]))
                    (merge_commit f clk inp pub src) (clk 1)))"
      if pub: "gm_get (branches s) BranchPublished = Some pub" for pub
    proof -
      let ?mc = "merge_commit f clk inp pub src"
      let ?s' = "setPublished (put_branch s BranchPublished (pub @ [?mc])) ?mc (clk 1)"
      have "gm_wf (snapshot ?mc)"
        using site_branch(1) [OF ok' pub] by (auto simp: branch_ok_def intro!: mergeTrees_wf)
      then have "site_ok (Suc (seq f)) ?s'"
        using pub by (intro site_ok_snoc [OF ok', where name = BranchPublished and c = ?mc and b = pub]) simp_all
      then show ?thesis
        by (intro svc_inv_put [OF inv a(1), where n = "Suc (seq f)" and s' = ?s']) simp_all
    qed
    have ff: "svc_inv (fast_forward f clk (pu_SiteID inp) s src)" using inv a by (rule svc_inv_fast_forward)
    from c have "svc_inv f'" using ff merge inv by blast
    then show ?thesis using ok by simp
  qed
qed

section \<open>Site lifecycle and branches\<close>

lemma live_by_handle_Some:
  "live_by_handle f h = Some s \<Longrightarrow> \<exists>i. (i, s) \<in> set (sites f) \<and> is_live s \<and> sr_Handle (rec s) = h"
  by (auto simp: live_by_handle_def is_live_def dest!: find_SomeD)

lemma live_by_handle_None:
  "live_by_handle f h = None \<longleftrightarrow> (\<forall>(i, s) \<in> set (sites f). \<not> (is_live s \<and> sr_Handle (rec s) = h))"
  by (auto simp: live_by_handle_def find_None_iff is_live_def)

lemma no_live_handle:
  "live_by_handle f h = None \<Longrightarrow> gm_get (sites f) i = Some s \<Longrightarrow> is_live s \<Longrightarrow> sr_Handle (rec s) \<noteq> h"
  using gm_get_in live_by_handle_None by fastforce

lemma failOnce_simps [simp]:
  "sites (fst (failOnce f m)) = sites f" "redirects (fst (failOnce f m)) = redirects f"
  "seq (fst (failOnce f m)) = seq f"
  by (simp_all add: failOnce_def split: option.splits)

lemma svc_inv_cong:
  "sites f' = sites f \<Longrightarrow> redirects f' = redirects f \<Longrightarrow> seq f' = seq f \<Longrightarrow> svc_inv f' = svc_inv f"
  by (simp add: svc_inv_def)

lemma handle_lower: "ValidateHandle h = None \<Longrightarrow> go_lower h = h"
  using label_reD by (auto simp: ValidateHandle_def validateHandleLen_iff host_label_re)

text \<open>A new live site under an unused identifier and an unused handle.\<close>

lemma svc_inv_new_site:
  assumes inv: "svc_inv f" and fresh: "gm_get (sites f) i = None"
    and h: "live_by_handle f (sr_Handle (rec s)) = None" "gm_get (redirects f) (sr_Handle (rec s)) = None"
    and s: "site_ok n s" "sr_ID (rec s) = i" and n: "seq f \<le> n"
    and f': "sites f' = gm_put i s (sites f)" "redirects f' = redirects f" "seq f' = n"
  shows "svc_inv f'"
proof -
  have new: "sr_Handle (rec t) \<noteq> sr_Handle (rec s)" if "gm_get (sites f) j = Some t" "is_live t" for j t
    using no_live_handle [OF h(1) that] .
  have "gm_wf (sites f')" using inv f' by (simp add: svc_inv_def)
  moreover have "sr_ID (rec t) = j \<and> site_ok (seq f') t" if "gm_get (sites f') j = Some t" for j t
    using that inv s f' site_ok_mono [OF _ n] by (auto simp: svc_inv_def split: if_splits)
  moreover have "j = k" if "gm_get (sites f') j = Some t" "gm_get (sites f') k = Some u"
      "is_live t" "is_live u" "sr_Handle (rec t) = sr_Handle (rec u)" for j k t u
    using that inv new f' unfolding svc_inv_def by (auto split: if_splits)
  moreover have "gm_get (sites f') j \<noteq> None \<and>
      (\<forall>k t. gm_get (sites f') k = Some t \<longrightarrow> is_live t \<longrightarrow> sr_Handle (rec t) \<noteq> hh)"
    if "gm_get (redirects f') hh = Some j" for hh j
    using that inv h(2) f' unfolding svc_inv_def by auto
  ultimately show ?thesis unfolding svc_inv_def by blast
qed

lemma site_ok_initial:
  assumes "ValidateHandle (sr_Handle (rec s)) = None" and "sr_PublishedSHA (rec s) = None"
    and "branches s = [(BranchDraft, [c])]" and "sha c = hex40 (Suc n)" and "gm_wf (snapshot c)"
  shows "site_ok (Suc n) s"
proof -
  have "BranchPublished \<noteq> BranchDraft" by code_simp
  moreover have "branch_ok (Suc n) ([] @ [c])" using assms(4,5) by (intro branch_ok_snoc) simp_all
  moreover have "coh [c] [c]" by (simp add: coh_def)
  ultimately show ?thesis using assms
    by (auto simp: site_ok_def gm_get_Cons gm_wf_def split: if_splits)
qed

lemma CreateSite_Inl:
  "CreateSite f clk newID inp = (f', Inl e) \<Longrightarrow> sites f' = sites f \<and> redirects f' = redirects f \<and> seq f' = seq f"
  by (auto simp: CreateSite_def failOnce_def commit_eq Let_def split: option.splits sum.splits if_splits)

lemma seed_tree_wf: "seed_tree inp = Inr t \<Longrightarrow> gm_wf t"
  by (auto simp: seed_tree_def tree_of_entries_wf gm_wf_def [of "[_]"] split: option.splits sum.splits)

lemma CreateSite_Inr:
  "CreateSite f clk newID inp = (f', Inr x) \<Longrightarrow>
   \<exists>t. ValidateHandle (cs_Handle inp) = None \<and> live_by_handle f (cs_Handle inp) = None \<and>
     gm_get (redirects f) (cs_Handle inp) = None \<and> seed_tree inp = Inr t \<and>
     x = toSite (new_record inp newID (clk 0)) \<and>
     f' = put_site (f\<lparr> seq := Suc (seq f) \<rparr>) newID
       \<lparr> rec = new_record inp newID (clk 0),
         branches = [(BranchDraft, [new_commit f [] t (cs_Actor inp) (seed_message inp) (clk 1)])],
         remote = cs_GitHubRepo inp \<rparr>"
  using handle_lower [of "cs_Handle inp"]
  by (auto simp: CreateSite_def failOnce_def commit_eq Let_def split: option.splits sum.splits if_splits)

lemma new_record_simps [simp]:
  "sr_ID (new_record inp i now) = i" "sr_Handle (new_record inp i now) = go_lower (cs_Handle inp)"
  "sr_PublishedSHA (new_record inp i now) = None" "sr_DeletedAt (new_record inp i now) = None"
  by (simp_all add: new_record_def)

lemma CreateSite_inv:
  assumes inv: "svc_inv f" and fresh: "gm_get (sites f) newID = None"
  shows "svc_inv (fst (CreateSite f clk newID inp))"
proof (cases "CreateSite f clk newID inp")
  case (Pair f' r)
  show ?thesis
  proof (cases r)
    case (Inl e)
    then show ?thesis using Pair CreateSite_Inl svc_inv_cong inv by (metis fst_conv)
  next
    case (Inr x)
    then obtain t where t: "ValidateHandle (cs_Handle inp) = None" "live_by_handle f (cs_Handle inp) = None"
        "gm_get (redirects f) (cs_Handle inp) = None" "seed_tree inp = Inr t"
        "f' = put_site (f\<lparr> seq := Suc (seq f) \<rparr>) newID
           \<lparr> rec = new_record inp newID (clk 0),
             branches = [(BranchDraft, [new_commit f [] t (cs_Actor inp) (seed_message inp) (clk 1)])],
             remote = cs_GitHubRepo inp \<rparr>"
      using Pair CreateSite_Inr by blast
    let ?s = "\<lparr> rec = new_record inp newID (clk 0),
             branches = [(BranchDraft, [new_commit f [] t (cs_Actor inp) (seed_message inp) (clk 1)])],
             remote = cs_GitHubRepo inp \<rparr>"
    have h: "go_lower (cs_Handle inp) = cs_Handle inp" using t(1) by (rule handle_lower)
    have "site_ok (Suc (seq f)) ?s"
      using t(1,4) h seed_tree_wf by (intro site_ok_initial [where c = "new_commit f [] t (cs_Actor inp) (seed_message inp) (clk 1)"]) simp_all
    then have "svc_inv f'"
      using t h by (intro svc_inv_new_site [OF inv fresh, where s = ?s and n = "Suc (seq f)"]) simp_all
    then show ?thesis using Pair by simp
  qed
qed

end
