(* ===== verification/Site_Reach.thy ===== *)
theory Site_Reach
  imports Site_Invariant
begin

text \<open>
  The remaining operations of the in-memory service against its invariant, the step relation
  of the whole service, and the properties that hold of every reachable state.
\<close>

section \<open>Renaming and deleting\<close>

text \<open>An operation that only changes the state when it succeeds.\<close>

lemma op_inv:
  assumes "svc_inv f" and "\<And>f' e. r = (f', Inl e) \<Longrightarrow> f' = f" and "\<And>f' x. r = (f', Inr x) \<Longrightarrow> svc_inv f'"
  shows "svc_inv (fst r)"
proof (cases "snd r")
  case (Inl e)
  then show ?thesis using assms(1) assms(2) [of "fst r" e] by (cases r) auto
next
  case (Inr x)
  then show ?thesis using assms(3) [of "fst r" x] by (cases r) auto
qed

lemma rename_redirect_simp:
  "(case gm_get rs lower of Some owner \<Rightarrow> owner \<noteq> i | None \<Rightarrow> False) \<longleftrightarrow>
   (\<exists>owner. gm_get rs lower = Some owner \<and> owner \<noteq> i)"
  by (auto split: option.splits)

lemma RenameHandle_Inl: "RenameHandle f clk i h = (f', Inl e) \<Longrightarrow> f' = f"
  by (auto simp: RenameHandle_def Let_def split: option.splits sum.splits if_splits)

definition renamed :: "FakeService \<Rightarrow> clock \<Rightarrow> uuid \<Rightarrow> fakeSite \<Rightarrow> handle \<Rightarrow> FakeService" where
  "renamed f clk i s h =
     put_site (f\<lparr> redirects := gm_put (sr_Handle (rec s)) i (gm_del h (redirects f)) \<rparr>) i
       (s\<lparr> rec := (rec s)\<lparr> sr_Handle := h, sr_UpdatedAt := clk 0 \<rparr> \<rparr>)"

lemma if_pair_Inr:
  "(if a then (f, Inr y) else if b then (f, Inl e) else if c then (f, Inl e') else (g, Inr z)) = (f', Inr x) \<longleftrightarrow>
   a \<and> f' = f \<and> x = y \<or> \<not> a \<and> \<not> b \<and> \<not> c \<and> f' = g \<and> x = z"
  by auto

lemma RenameHandle_ok:
  "RenameHandle f clk i h = (f', Inr x) \<longleftrightarrow>
   ValidateHandle h = None \<and>
   (\<exists>s. gm_get (sites f) i = Some s \<and> is_live s \<and>
     (h = sr_Handle (rec s) \<and> f' = f \<and> x = toSite (rec s) \<or>
      h \<noteq> sr_Handle (rec s) \<and> live_by_handle f h = None \<and>
      (\<forall>owner. gm_get (redirects f) h = Some owner \<longrightarrow> owner = i) \<and>
      f' = renamed f clk i s h \<and> x = toSite ((rec s)\<lparr> sr_Handle := h, sr_UpdatedAt := clk 0 \<rparr>)))"
proof -
  have eq: "RenameHandle f clk i h = (f', Inr x) \<longleftrightarrow>
    ValidateHandle h = None \<and>
    (\<exists>s. gm_get (sites f) i = Some s \<and> is_live s \<and>
      (if go_lower h = sr_Handle (rec s) then (f, Inr (toSite (rec s)))
       else if live_by_handle f (go_lower h) \<noteq> None then (f, Inl (Sentinel ErrHandleTaken))
       else if \<exists>owner. gm_get (redirects f) (go_lower h) = Some owner \<and> owner \<noteq> i then
         (f, Inl (Sentinel ErrHandleTaken))
       else (renamed f clk i s (go_lower h),
             Inr (toSite ((rec s)\<lparr> sr_Handle := go_lower h, sr_UpdatedAt := clk 0 \<rparr>)))) = (f', Inr x))"
    unfolding RenameHandle_def err_or_case liveSite_Inr Let_def rename_redirect_simp renamed_def by simp
  show ?thesis
  proof (cases "ValidateHandle h = None")
    case True
    show ?thesis unfolding eq handle_lower [OF True] if_pair_Inr not_not not_ex de_Morgan_conj
      imp_conv_disj by (rule refl)
  next
    case False
    then show ?thesis unfolding eq by blast
  qed
qed

lemma site_ok_record:
  "site_ok n s \<Longrightarrow> branches s' = branches s \<Longrightarrow> sr_PublishedSHA (rec s') = sr_PublishedSHA (rec s) \<Longrightarrow>
   ValidateHandle (sr_Handle (rec s')) = None \<Longrightarrow> site_ok n s'"
  by (simp add: site_ok_def)

lemma site_ok_handle: "site_ok n s \<Longrightarrow> ValidateHandle (sr_Handle (rec s)) = None"
  by (simp add: site_ok_def)

lemma svc_inv_renamed:
  assumes inv: "svc_inv f" and s: "gm_get (sites f) i = Some s" "is_live s" and v: "ValidateHandle h = None"
    and free: "live_by_handle f h = None"
  shows "svc_inv (renamed f clk i s h)"
proof -
  let ?s' = "s\<lparr> rec := (rec s)\<lparr> sr_Handle := h, sr_UpdatedAt := clk 0 \<rparr> \<rparr>" and ?f' = "renamed f clk i s h"
  have f': "sites ?f' = gm_put i ?s' (sites f)"
      "redirects ?f' = gm_put (sr_Handle (rec s)) i (gm_del h (redirects f))" "seq ?f' = seq f"
    by (simp_all add: renamed_def)
  have ok: "site_ok (seq f) ?s'" "sr_ID (rec ?s') = i" "sr_Handle (rec ?s') = h"
    using svc_site [OF inv s(1)] v site_ok_record [of "seq f" s ?s'] by auto
  have new: "sr_Handle (rec t) \<noteq> h" if "gm_get (sites f) j = Some t" "is_live t" for j t
    using no_live_handle [OF free that] .
  have uniq: "j = i" if "gm_get (sites f) j = Some t" "is_live t" "sr_Handle (rec t) = sr_Handle (rec s)" for j t
    using that s inv unfolding svc_inv_def by blast
  have "gm_wf (sites ?f')" using inv f' by (simp add: svc_inv_def)
  moreover have "sr_ID (rec t) = j \<and> site_ok (seq ?f') t" if "gm_get (sites ?f') j = Some t" for j t
    using that inv ok f' by (auto simp: svc_inv_def split: if_splits)
  moreover have "j = k" if "gm_get (sites ?f') j = Some t" "gm_get (sites ?f') k = Some u"
      "is_live t" "is_live u" "sr_Handle (rec t) = sr_Handle (rec u)" for j k t u
  proof -
    have "gm_get (sites f) j = Some t \<Longrightarrow> gm_get (sites f) k = Some u \<Longrightarrow> j = k"
      using that(3-5) inv unfolding svc_inv_def by blast
    moreover have "j = i \<longrightarrow> t = ?s'" "k = i \<longrightarrow> u = ?s'"
        "j \<noteq> i \<longrightarrow> gm_get (sites f) j = Some t" "k \<noteq> i \<longrightarrow> gm_get (sites f) k = Some u"
      using that(1,2) f'(1) by auto
    ultimately show ?thesis using new [of j t] new [of k u] that(3-5) ok(3) by metis
  qed
  moreover have "gm_get (sites ?f') j \<noteq> None \<and>
      (\<forall>k t. gm_get (sites ?f') k = Some t \<longrightarrow> is_live t \<longrightarrow> sr_Handle (rec t) \<noteq> hh)"
    if r: "gm_get (redirects ?f') hh = Some j" for hh j
  proof (cases "hh = sr_Handle (rec s)")
    case True
    then have "hh \<noteq> h" using new s by blast
    then show ?thesis using r True uniq ok(3) f' by (auto split: if_splits)
  next
    case False
    then have "gm_get (redirects f) hh = Some j" "hh \<noteq> h" using r f' by (auto split: if_splits)
    then show ?thesis using inv ok(3) f' unfolding svc_inv_def by auto
  qed
  ultimately show ?thesis unfolding svc_inv_def by blast
qed

lemma RenameHandle_inv: "svc_inv f \<Longrightarrow> svc_inv (fst (RenameHandle f clk i h))"
  by (rule op_inv) (auto simp: RenameHandle_ok svc_inv_renamed dest: RenameHandle_Inl)

lemma svc_inv_delete:
  assumes inv: "svc_inv f" and s: "gm_get (sites f) i = Some s"
  shows "svc_inv (put_site f i (s\<lparr> rec := (rec s)\<lparr> sr_DeletedAt := Some t, sr_UpdatedAt := t \<rparr> \<rparr>))"
proof -
  define s' where "s' = s\<lparr> rec := (rec s)\<lparr> sr_DeletedAt := Some t, sr_UpdatedAt := t \<rparr> \<rparr>"
  define f' where "f' = put_site f i s'"
  have dead: "\<not> is_live s'" by (simp add: is_live_def s'_def)
  have ok: "site_ok (seq f) s'" "sr_ID (rec s') = i"
    using svc_site [OF inv s] site_ok_record [of "seq f" s s'] site_ok_handle [of "seq f" s]
    by (simp_all add: s'_def)
  have get: "gm_get (sites f') j = (if j = i then Some s' else gm_get (sites f) j)" for j
    by (simp add: f'_def)
  have old: "gm_get (sites f) j = Some u" if "gm_get (sites f') j = Some u" "is_live u" for j u
    using that dead get by (auto split: if_splits)
  have "gm_wf (sites f')" using inv by (simp add: f'_def svc_inv_def)
  moreover have "sr_ID (rec u) = j \<and> site_ok (seq f') u" if "gm_get (sites f') j = Some u" for j u
    using that inv ok get by (auto simp: f'_def svc_inv_def split: if_splits)
  moreover have "j = k" if "gm_get (sites f') j = Some u" "gm_get (sites f') k = Some v"
      "is_live u" "is_live v" "sr_Handle (rec u) = sr_Handle (rec v)" for j k u v
    using old [OF that(1,3)] old [OF that(2,4)] that(3-5) inv unfolding svc_inv_def by blast
  moreover have "gm_get (sites f') j \<noteq> None \<and>
      (\<forall>k u. gm_get (sites f') k = Some u \<longrightarrow> is_live u \<longrightarrow> sr_Handle (rec u) \<noteq> h)"
    if "gm_get (redirects f') h = Some j" for h j
  proof -
    have "gm_get (redirects f) h = Some j" using that by (simp add: f'_def)
    then have "gm_get (sites f) j \<noteq> None" "\<And>k u. gm_get (sites f) k = Some u \<Longrightarrow> is_live u \<Longrightarrow> sr_Handle (rec u) \<noteq> h"
      using inv unfolding svc_inv_def by blast+
    then have "gm_get (sites f') j \<noteq> None" by (simp add: get)
    moreover have "sr_Handle (rec u) \<noteq> h" if "gm_get (sites f') k = Some u" "is_live u" for k u
      using old [OF that] that(2) \<open>\<And>k u. gm_get (sites f) k = Some u \<Longrightarrow> is_live u \<Longrightarrow> sr_Handle (rec u) \<noteq> h\<close>
      by blast
    ultimately show ?thesis by blast
  qed
  ultimately have "svc_inv f'" unfolding svc_inv_def by blast
  then show ?thesis by (simp only: f'_def s'_def)
qed

lemma DeleteSite_inv: "svc_inv f \<Longrightarrow> svc_inv (fst (DeleteSite f clk i actor))"
  by (auto simp: DeleteSite_def liveSite_Inr svc_inv_delete split: sum.splits)

section \<open>Branches\<close>

lemma commitsUpTo_tip:
  assumes "site_ok n s" and "gm_get (branches s) name = Some b"
  shows "commitsUpTo s (sha (last b)) = b"
proof -
  let ?h = "sha (last b)"
  have b: "b \<noteq> []" "(name, b) \<in> set (branches s)"
    using site_branch(1) [OF assms] gm_get_in [OF assms(2)] by (auto simp: branch_ok_def)
  then have hb: "?h \<in> shas b" by (simp add: shas_def)
  obtain p where p: "find (\<lambda>p. isAncestor (snd p) ?h) (branches s) = Some p"
    using b hb by (cases "find (\<lambda>p. isAncestor (snd p) ?h) (branches s)")
      (force simp: find_None_iff isAncestor_shas)+
  then have pin: "p \<in> set (branches s)" "?h \<in> shas (snd p)"
    using find_SomeD [OF p] by (auto simp: isAncestor_shas)
  then have "gm_get (branches s) (fst p) = Some (snd p)"
    using assms(1) gm_in_get [of "branches s" "fst p" "snd p"] by (simp add: site_ok_def)
  then have coh: "coh (snd p) b" using site_branch(2) [OF assms(1) _ assms(2)] by blast
  obtain i where i: "i < length (snd p)" "sha (snd p ! i) = ?h" "upto_sha (snd p) ?h = take (Suc i) (snd p)"
    using upto_sha_take [OF pin(2)] by blast
  have "take (Suc i) (snd p) = take (Suc (length b - 1)) b"
    using i b by (intro cohD [OF coh]) (simp_all add: last_conv_nth)
  then show ?thesis using p i b by (simp add: commitsUpTo_def)
qed

lemma CreateBranch_Inl: "CreateBranch f i name from = (f', Inl e) \<Longrightarrow> f' = f"
  by (auto simp: CreateBranch_def split: option.splits sum.splits if_splits)

lemma CreateBranch_ok:
  assumes inv: "svc_inv f" and ok: "CreateBranch f i name from = (f', Inr x)"
  shows "validateBranchName name = None \<and> name \<noteq> BranchPublished \<and> name \<noteq> BranchDraft \<and>
    (\<exists>s b. gm_get (sites f) i = Some s \<and> is_live s \<and> gm_get (branches s) name = None \<and>
      gm_get (branches s) (if from = [] then BranchDraft else from) = Some b \<and>
      f' = put_site f i (put_branch s name b) \<and> br_HeadSHA x = sha (last b))"
proof -
  let ?from = "if from = [] then BranchDraft else from"
  from ok obtain s c where h: "validateBranchName name = None" "name \<noteq> BranchPublished" "name \<noteq> BranchDraft"
      "gm_get (sites f) i = Some s" "is_live s" "gm_get (branches s) name = None"
      and c: "resolveRef s ?from = Some c" "f' = put_site f i (put_branch s name (commitsUpTo s (sha c)))"
      "br_HeadSHA x = sha c"
    unfolding CreateBranch_def err_or_case liveSite_Inr by auto
  from c(1) obtain b where b: "gm_get (branches s) ?from = Some b" and t: "tip b = Some c"
    by (auto simp: resolveRef_def split: option.splits)
  have "c = last b" using t svc_branch_tip [OF inv h(4) b] by simp
  moreover have "commitsUpTo s (sha (last b)) = b"
    using svc_site [OF inv h(4)] b by (intro commitsUpTo_tip) auto
  ultimately show ?thesis using h b c by auto
qed

lemma svc_inv_new_branch:
  assumes inv: "svc_inv f" and s: "gm_get (sites f) i = Some s" and b: "gm_get (branches s) n0 = Some b"
    and np: "name \<noteq> BranchPublished"
  shows "svc_inv (put_site f i (put_branch s name b))"
proof -
  note ok = svc_site [OF inv s, THEN conjunct1]
  have "site_ok (seq f) (put_branch s name b)"
    by (rule site_ok_put_branch [OF ok order_refl, where b = b and name = name])
      (use b np site_branch [OF ok] in auto)
  then show ?thesis by (intro svc_inv_put [OF inv s order_refl, where s' = "put_branch s name b"]) simp_all
qed

lemma CreateBranch_inv: "svc_inv f \<Longrightarrow> svc_inv (fst (CreateBranch f i name from))"
  by (rule op_inv) (auto dest: CreateBranch_Inl CreateBranch_ok intro: svc_inv_new_branch)

lemma DeleteBranch_Inl: "DeleteBranch f i name = (f', Inl e) \<Longrightarrow> f' = f"
  by (auto simp: DeleteBranch_def split: option.splits sum.splits if_splits)

lemma DeleteBranch_ok:
  "DeleteBranch f i name = (f', Inr ()) \<Longrightarrow>
   name \<noteq> BranchPublished \<and> name \<noteq> BranchDraft \<and>
   (\<exists>s. gm_get (sites f) i = Some s \<and> is_live s \<and>
     f' = put_site f i (s\<lparr> branches := gm_del name (branches s) \<rparr>))"
  unfolding DeleteBranch_def err_or_case liveSite_Inr by auto

lemma svc_inv_drop_branch:
  assumes inv: "svc_inv f" and s: "gm_get (sites f) i = Some s"
    and n: "name \<noteq> BranchPublished" "name \<noteq> BranchDraft"
  shows "svc_inv (put_site f i (s\<lparr> branches := gm_del name (branches s) \<rparr>))"
proof -
  let ?s' = "s\<lparr> branches := gm_del name (branches s) \<rparr>"
  have "site_ok (seq f) ?s'" using svc_site [OF inv s] n by (auto simp: site_ok_def split: if_splits)
  then show ?thesis by (intro svc_inv_put [OF inv s order_refl, where s' = ?s']) (simp_all add: is_live_def)
qed

lemma DeleteBranch_inv: "svc_inv f \<Longrightarrow> svc_inv (fst (DeleteBranch f i name))"
  by (rule op_inv) (auto dest: DeleteBranch_Inl DeleteBranch_ok intro: svc_inv_drop_branch)

lemma SetRemote_inv: "svc_inv f \<Longrightarrow> svc_inv (fst (SetRemote f i url))"
proof (cases "liveSite f i")
  case (Inr s)
  assume inv: "svc_inv f"
  have s: "gm_get (sites f) i = Some s" using Inr by (simp add: liveSite_Inr)
  let ?s' = "s\<lparr> remote := url, rec := (rec s)\<lparr> sr_GitHubRepo := emptyToNil url \<rparr> \<rparr>"
  have "site_ok (seq f) ?s'"
    using svc_site [OF inv s] site_ok_record [of "seq f" s ?s'] site_ok_handle by auto
  then show ?thesis using Inr
    by (simp add: SetRemote_def) (intro svc_inv_put [OF inv s order_refl, where s' = ?s'], simp_all add: is_live_def)
qed (simp add: SetRemote_def)

lemma MirrorPush_state: "sites (fst (MirrorPush f i)) = sites f" "redirects (fst (MirrorPush f i)) = redirects f"
  "seq (fst (MirrorPush f i)) = seq f"
  by (auto simp: MirrorPush_def failOnce_def split: sum.splits option.splits)

section \<open>The step relation\<close>

datatype svc_op =
    OpCreateSite clock uuid CreateSiteInput
  | OpRenameHandle clock uuid handle
  | OpDeleteSite clock uuid Actor
  | OpCreateBranch uuid branch_name string
  | OpDeleteBranch uuid branch_name
  | OpWriteFile clock WriteFileInput
  | OpDeleteFile clock uuid branch_name string string Actor
  | OpImportZip clock uuid branch_name ZipSource string Actor
  | OpPublish clock PublishInput
  | OpRollback clock uuid branch_name string string Actor
  | OpSetRemote uuid string
  | OpMirrorPush uuid
  | OpFailNext string site_error

fun svc_apply :: "FakeService \<Rightarrow> svc_op \<Rightarrow> FakeService" where
  "svc_apply f (OpCreateSite clk i inp) = fst (CreateSite f clk i inp)"
| "svc_apply f (OpRenameHandle clk i h) = fst (RenameHandle f clk i h)"
| "svc_apply f (OpDeleteSite clk i a) = fst (DeleteSite f clk i a)"
| "svc_apply f (OpCreateBranch i n from) = fst (CreateBranch f i n from)"
| "svc_apply f (OpDeleteBranch i n) = fst (DeleteBranch f i n)"
| "svc_apply f (OpWriteFile clk inp) = fst (WriteFile f clk inp)"
| "svc_apply f (OpDeleteFile clk i n p b a) = fst (DeleteFile f clk i n p b a)"
| "svc_apply f (OpImportZip clk i n z b a) = fst (ImportZip f clk i n z b a)"
| "svc_apply f (OpPublish clk inp) = fst (Publish f clk inp)"
| "svc_apply f (OpRollback clk i n t b a) = fst (Rollback f clk i n t b a)"
| "svc_apply f (OpSetRemote i u) = fst (SetRemote f i u)"
| "svc_apply f (OpMirrorPush i) = fst (MirrorPush f i)"
| "svc_apply f (OpFailNext m e) = f\<lparr> FailNext := gm_put m e (FailNext f) \<rparr>"

text \<open>The one assumption on the environment: \<open>uuid.New\<close> returns an identifier not in use.\<close>

fun svc_enabled :: "FakeService \<Rightarrow> svc_op \<Rightarrow> bool" where
  "svc_enabled f (OpCreateSite clk i inp) = (gm_get (sites f) i = None)"
| "svc_enabled f _ = True"

inductive svc_step :: "FakeService \<Rightarrow> FakeService \<Rightarrow> bool" where
  step: "svc_enabled f x \<Longrightarrow> svc_step f (svc_apply f x)"

inductive_cases svc_stepE: "svc_step f f'"

inductive reachable :: "FakeService \<Rightarrow> bool" where
  init: "reachable NewFakeService"
| more: "reachable f \<Longrightarrow> svc_step f f' \<Longrightarrow> reachable f'"

lemma svc_inv_apply: "svc_inv f \<Longrightarrow> svc_enabled f x \<Longrightarrow> svc_inv (svc_apply f x)"
proof (cases x)
  case (OpMirrorPush i)
  assume "svc_inv f"
  then show ?thesis using OpMirrorPush svc_inv_cong [of "svc_apply f x" f] by (simp add: MirrorPush_state)
next
  case (OpFailNext m e)
  assume "svc_inv f"
  then show ?thesis using OpFailNext svc_inv_cong [of "svc_apply f x" f] by simp
qed (auto simp: CreateSite_inv RenameHandle_inv DeleteSite_inv CreateBranch_inv DeleteBranch_inv Publish_inv
      SetRemote_inv intro: writer_inv [OF WriteFile_writer] writer_inv [OF DeleteFile_writer]
      writer_inv [OF ImportZip_writer] writer_inv [OF Rollback_writer])

lemma svc_inv_init: "svc_inv NewFakeService"
  by (simp add: svc_inv_def NewFakeService_def)

lemma reachable_inv: "reachable f \<Longrightarrow> svc_inv f"
  by (induction rule: reachable.induct) (auto simp: svc_inv_init svc_inv_apply elim: svc_stepE)

end
