(* ===== verification/Site_Props.thy ===== *)
theory Site_Props
  imports Site_Reach
begin

text \<open>
  What the in-memory service guarantees its clients: unique handles, no lost update,
  read-after-write, append-only history, publishing and rollback, rename with redirect,
  pagination of the log.
\<close>

section \<open>Observations\<close>

definition branch_log :: "FakeService \<Rightarrow> uuid \<Rightarrow> branch_name \<Rightarrow> fakeBranch option" where
  "branch_log f i n = (case gm_get (sites f) i of Some s \<Rightarrow> gm_get (branches s) n | None \<Rightarrow> None)"

definition read_content :: "FakeService \<Rightarrow> uuid \<Rightarrow> branch_name \<Rightarrow> string \<Rightarrow> string option" where
  "read_content f i n p = (case ReadFile f i n [] p of Inr c \<Rightarrow> Some (fc_Content c) | Inl e \<Rightarrow> None)"

lemma branch_log_put:
  "branch_log (put_site f i s) i' n = (if i' = i then gm_get (branches s) n else branch_log f i' n)"
  by (simp add: branch_log_def)

lemma branch_log_seq [simp]: "branch_log (f\<lparr> seq := k \<rparr>) i n = branch_log f i n"
  by (simp add: branch_log_def)

lemma branch_log_cong: "sites f' = sites f \<Longrightarrow> branch_log f' i n = branch_log f i n"
  by (simp add: branch_log_def)

lemma branch_log_commit_on:
  assumes "gm_get (sites f) i = Some s"
  shows "branch_log (fst (commit_on f clk i s name b t actor msg)) i' n =
    (if i' = i \<and> n = name then Some (b @ [new_commit f b t actor msg (clk 0)]) else branch_log f i' n)"
  using assms by (auto simp: commit_on_eq branch_log_put) (simp add: branch_log_def)

lemma read_content_iff:
  assumes "svc_inv f"
  shows "read_content f i n p =
    (if validateReadPath p = None
     then (case gm_get (sites f) i of
             Some s \<Rightarrow> if is_live s then (case gm_get (branches s) n of
                            Some b \<Rightarrow> gm_get (tip_tree b) p | None \<Rightarrow> None) else None
           | None \<Rightarrow> None)
     else None)"
proof -
  have "tip b = None \<Longrightarrow> tip_tree b = []" for b by (simp add: tip_tree_def)
  then show ?thesis
    by (auto simp: read_content_def ReadFile_def liveSite_def is_live_def commitForRefOrBranch_def tip_tree_def
        split: option.splits sum.splits if_splits)
qed

lemma validateWritePath_read: "validateWritePath actor p = None \<Longrightarrow> validateReadPath p = None"
  by (auto simp: validateWritePath_def validateMCPWritePath_def validatePath_def validateReadPath_def
      validatePathWith_iff split: if_splits)

lemma checkBaseSHA_None: "checkBaseSHA b n base hint = None \<longleftrightarrow> (\<exists>t. tip b = Some t \<and> sha t = base)"
  by (auto simp: checkBaseSHA_def Let_def split: option.splits)

lemma checkBaseSHA_conflict:
  "b \<noteq> [] \<Longrightarrow> sha (last b) \<noteq> base \<Longrightarrow> \<exists>paths. checkBaseSHA b n base hint = Some (ConflictError n base (sha (last b)) paths)"
  by (auto simp: checkBaseSHA_def tip_def Let_def)

section \<open>What an operation does to the logs\<close>

lemma writer_log:
  assumes "writer f clk i name r" and "branch_log f i' n = Some b"
  shows "\<exists>ys. branch_log (fst r) i' n = Some (b @ ys) \<and> (n = BranchPublished \<longrightarrow> ys = [])"
  using assms
proof (induction rule: writer.induct)
  case (refused e)
  then show ?case by simp
next
  case (committed s b0 t actor msg)
  then show ?case
    by (cases "i' = i \<and> n = name") (auto simp: branch_log_commit_on branch_log_def [of f])
qed

lemma writer_log_None:
  assumes "writer f clk i name r" and "branch_log f i' BranchPublished = None"
  shows "branch_log (fst r) i' BranchPublished = None"
  using assms by (induction rule: writer.induct) (auto simp: branch_log_commit_on)

lemma writer_published:
  "writer f clk i name r \<Longrightarrow> branch_log (fst r) i' BranchPublished = branch_log f i' BranchPublished"
proof (cases "branch_log f i' BranchPublished")
  case None
  assume "writer f clk i name r"
  then show ?thesis using None writer_log_None by metis
next
  case (Some b)
  assume "writer f clk i name r"
  then show ?thesis using Some writer_log [of f clk i name r i' BranchPublished b] by auto
qed

lemma Publish_log:
  assumes inv: "svc_inv f" and b: "branch_log f i n = Some b"
  shows "\<exists>ys. branch_log (fst (Publish f clk inp)) i n = Some (b @ ys)"
proof (cases "snd (Publish f clk inp)")
  case (Inl e)
  then have "fst (Publish f clk inp) = f" using Publish_Inl by (metis prod.collapse)
  then show ?thesis using b by simp
next
  case (Inr ci)
  then obtain f' where ok: "Publish f clk inp = (f', Inr ci)" by (cases "Publish f clk inp") auto
  from inv ok have "\<exists>ys. branch_log f' i n = Some (b @ ys)"
  proof (cases rule: Publish_ok)
    case (1 s src)
    have ff: "\<exists>ys. branch_log (fast_forward f clk (pu_SiteID inp) s src) i n = Some (b @ ys)"
      if up: "\<And>pub. gm_get (branches s) BranchPublished = Some pub \<Longrightarrow> pub \<noteq> [] \<and> sha (last pub) \<in> shas src"
    proof (cases "i = pu_SiteID inp \<and> n = BranchPublished")
      case True
      then have pub: "gm_get (branches s) BranchPublished = Some b" using b 1(3) by (simp add: branch_log_def)
      have "coh b src" using site_branch(2) [OF _ pub 1(5)] svc_site [OF inv 1(3)] by blast
      then obtain k where "b = take k src" using coh_tip_prefix up [OF pub] by blast
      then have "src = b @ drop k src" by simp
      then show ?thesis using True by (auto simp: fast_forward_def branch_log_put)
    next
      case False
      then show ?thesis using b 1(3) by (auto simp: fast_forward_def branch_log_put branch_log_def [of f])
    qed
    from 1(7) show ?thesis
    proof (elim disjE conjE exE)
      assume "gm_get (branches s) BranchPublished = None" "f' = fast_forward f clk (pu_SiteID inp) s src"
      then show ?thesis using ff by simp
    next
      assume "f' = f"
      then show ?thesis using b by simp
    next
      fix pub
      assume "gm_get (branches s) BranchPublished = Some pub" "pub \<noteq> []" "sha (last pub) \<in> shas src"
        "f' = fast_forward f clk (pu_SiteID inp) s src"
      then show ?thesis using ff by simp
    next
      fix pub
      assume "gm_get (branches s) BranchPublished = Some pub"
        "f' = put_site (f\<lparr> seq := Suc (seq f) \<rparr>) (pu_SiteID inp)
           (setPublished (put_branch s BranchPublished (pub @ [merge_commit f clk inp pub src]))
              (merge_commit f clk inp pub src) (clk 1))"
      then show ?thesis using b 1(3) by (auto simp: branch_log_put branch_log_def [of f])
    qed
  qed
  then show ?thesis using ok by simp
qed

lemma branch_log_same:
  "gm_get (sites f) i = Some s \<Longrightarrow> branches s' = branches s \<Longrightarrow> branch_log (put_site f i s') i' n = branch_log f i' n"
  by (simp add: branch_log_put) (simp add: branch_log_def)

lemma CreateSite_log:
  assumes "gm_get (sites f) newID = None"
  shows "branch_log (fst (CreateSite f clk newID inp)) i n =
    (if i = newID \<and> n = BranchDraft then branch_log (fst (CreateSite f clk newID inp)) newID BranchDraft
     else branch_log f i n)"
proof (cases "CreateSite f clk newID inp")
  case (Pair f' r)
  show ?thesis
  proof (cases r)
    case (Inl e)
    then have "sites f' = sites f" using Pair CreateSite_Inl by blast
    then show ?thesis using Pair assms by (simp add: branch_log_cong [of f' f])
  next
    case (Inr x)
    then show ?thesis using CreateSite_Inr [of f clk newID inp f' x] Pair assms
      by (auto simp: branch_log_put gm_get_Cons branch_log_def [of f])
  qed
qed

lemma RenameHandle_log: "branch_log (fst (RenameHandle f clk i h)) i' n = branch_log f i' n"
proof (cases "RenameHandle f clk i h")
  case (Pair f' r)
  show ?thesis
  proof (cases r)
    case (Inl e)
    then show ?thesis using Pair RenameHandle_Inl by (metis fst_conv)
  next
    case (Inr x)
    then obtain s where s: "gm_get (sites f) i = Some s" "f' = f \<or> f' = renamed f clk i s h"
      using Pair by (auto simp: RenameHandle_ok)
    have "branch_log (renamed f clk i s h) i' n = branch_log f i' n"
      unfolding renamed_def branch_log_put using s(1) by (simp add: branch_log_def)
    then show ?thesis using Pair s(2) by auto
  qed
qed

lemma DeleteSite_log: "branch_log (fst (DeleteSite f clk i actor)) i' n = branch_log f i' n"
proof (cases "liveSite f i")
  case (Inl e)
  then show ?thesis by (simp add: DeleteSite_def)
next
  case (Inr s)
  define s' where "s' = s\<lparr> rec := (rec s)\<lparr> sr_DeletedAt := Some (clk 0), sr_UpdatedAt := clk 0 \<rparr> \<rparr>"
  have "fst (DeleteSite f clk i actor) = put_site f i s'" using Inr by (simp add: DeleteSite_def s'_def)
  moreover have "branches s' = branches s" by (simp add: s'_def)
  moreover have "gm_get (sites f) i = Some s" using Inr by (simp add: liveSite_Inr)
  ultimately show ?thesis using branch_log_same by metis
qed

lemma SetRemote_log: "branch_log (fst (SetRemote f i url)) i' n = branch_log f i' n"
proof (cases "liveSite f i")
  case (Inl e)
  then show ?thesis by (simp add: SetRemote_def)
next
  case (Inr s)
  define s' where "s' = s\<lparr> remote := url, rec := (rec s)\<lparr> sr_GitHubRepo := emptyToNil url \<rparr> \<rparr>"
  have "fst (SetRemote f i url) = put_site f i s'" using Inr by (simp add: SetRemote_def s'_def)
  moreover have "branches s' = branches s" by (simp add: s'_def)
  moreover have "gm_get (sites f) i = Some s" using Inr by (simp add: liveSite_Inr)
  ultimately show ?thesis using branch_log_same by metis
qed

lemma MirrorPush_log: "branch_log (fst (MirrorPush f i)) i' n = branch_log f i' n"
  by (rule branch_log_cong) (rule MirrorPush_state)

lemma CreateBranch_log:
  assumes inv: "svc_inv f"
  shows "branch_log (fst (CreateBranch f i name from)) i' n = branch_log f i' n \<or>
    i' = i \<and> n = name \<and> n \<noteq> BranchPublished \<and> branch_log f i' n = None"
proof (cases "CreateBranch f i name from")
  case (Pair f' r)
  show ?thesis
  proof (cases r)
    case (Inl e)
    then show ?thesis using Pair CreateBranch_Inl by (metis fst_conv)
  next
    case (Inr x)
    then obtain s b where "gm_get (sites f) i = Some s" "gm_get (branches s) name = None" "name \<noteq> BranchPublished"
        "f' = put_site f i (put_branch s name b)"
      using CreateBranch_ok [OF inv, of i name "from" f' x] Pair by auto
    then show ?thesis using Pair by (auto simp: branch_log_put branch_log_def [of f])
  qed
qed

lemma DeleteBranch_log:
  "branch_log (fst (DeleteBranch f i name)) i' n = branch_log f i' n \<or>
   i' = i \<and> n = name \<and> n \<noteq> BranchPublished \<and> n \<noteq> BranchDraft"
proof (cases "DeleteBranch f i name")
  case (Pair f' r)
  show ?thesis
  proof (cases r)
    case (Inl e)
    then show ?thesis using Pair DeleteBranch_Inl by (metis fst_conv)
  next
    case (Inr x)
    then obtain s where s: "name \<noteq> BranchPublished \<and> name \<noteq> BranchDraft" "gm_get (sites f) i = Some s"
        "f' = put_site f i (s\<lparr> branches := gm_del name (branches s) \<rparr>)"
      using Pair DeleteBranch_ok [of f i name f'] by auto
    have "branch_log f' i' n = (if i' = i then if n = name then None else gm_get (branches s) n else branch_log f i' n)"
      by (simp add: s(3) branch_log_put)
    moreover have "branch_log f i n = gm_get (branches s) n" using s(2) by (simp add: branch_log_def)
    ultimately show ?thesis using Pair s(1) by auto
  qed
qed

lemma apply_published:
  assumes "svc_inv f" and "svc_enabled f x" and "\<And>clk inp. x \<noteq> OpPublish clk inp"
  shows "branch_log (svc_apply f x) i BranchPublished = branch_log f i BranchPublished"
proof (cases x)
  case (OpCreateSite clk j inp)
  have "BranchPublished \<noteq> BranchDraft" by code_simp
  then show ?thesis using OpCreateSite assms(2) CreateSite_log [of f j clk inp i BranchPublished] by simp
next
  case (OpCreateBranch j n fr)
  then show ?thesis using CreateBranch_log [OF assms(1), of j n fr i BranchPublished] by auto
next
  case (OpDeleteBranch j n)
  then show ?thesis using DeleteBranch_log [of f j n i BranchPublished] by auto
next
  case (OpFailNext m e)
  then show ?thesis using branch_log_cong [of "svc_apply f x" f] by simp
next
  case (OpRenameHandle clk j h)
  then show ?thesis by (simp add: RenameHandle_log)
next
  case (OpDeleteSite clk j a)
  then show ?thesis by (simp add: DeleteSite_log)
next
  case (OpSetRemote j u)
  then show ?thesis by (simp add: SetRemote_log)
next
  case (OpMirrorPush j)
  then show ?thesis by (simp add: MirrorPush_log)
next
  case (OpWriteFile clk inp)
  then show ?thesis using writer_published [OF WriteFile_writer [OF assms(1)]] by simp
next
  case (OpDeleteFile clk j m p c a)
  then show ?thesis using writer_published [OF DeleteFile_writer [OF assms(1)]] by simp
next
  case (OpImportZip clk j m z c a)
  then show ?thesis using writer_published [OF ImportZip_writer [OF assms(1)]] by simp
next
  case (OpRollback clk j m t c a)
  then show ?thesis using writer_published [OF Rollback_writer [OF assms(1)]] by simp
next
  case (OpPublish clk inp)
  then show ?thesis using assms(3) by blast
qed

lemma apply_appends:
  assumes inv: "svc_inv f" and en: "svc_enabled f x" and b: "branch_log f i n = Some b"
    and nd: "x = OpDeleteBranch i n \<longrightarrow> n = BranchPublished \<or> n = BranchDraft"
  shows "\<exists>ys. branch_log (svc_apply f x) i n = Some (b @ ys)"
proof (cases x)
  case (OpCreateSite clk j inp)
  then have "\<not> (i = j \<and> n = BranchDraft)" using en b by (auto simp: branch_log_def)
  then show ?thesis using OpCreateSite en b CreateSite_log [of f j clk inp i n] by auto
next
  case (OpCreateBranch j m fr)
  then show ?thesis using CreateBranch_log [OF inv, of j m fr i n] b by auto
next
  case (OpDeleteBranch j m)
  then show ?thesis using DeleteBranch_log [of f j m i n] b nd by auto
next
  case (OpFailNext m e)
  then show ?thesis using b branch_log_cong [of "svc_apply f x" f] by simp
next
  case (OpPublish clk inp)
  then show ?thesis using Publish_log [OF inv b] by simp
next
  case (OpWriteFile clk inp)
  then show ?thesis using writer_log [OF WriteFile_writer [OF inv, of clk inp] b] by auto
next
  case (OpDeleteFile clk j m p c a)
  then show ?thesis using writer_log [OF DeleteFile_writer [OF inv, of clk j m p c a] b] by auto
next
  case (OpImportZip clk j m z c a)
  then show ?thesis using writer_log [OF ImportZip_writer [OF inv, of clk j m z c a] b] by auto
next
  case (OpRollback clk j m t c a)
  then show ?thesis using writer_log [OF Rollback_writer [OF inv, of clk j m t c a] b] by auto
next
  case (OpRenameHandle clk j h)
  then show ?thesis using b by (simp add: RenameHandle_log)
next
  case (OpDeleteSite clk j a)
  then show ?thesis using b by (simp add: DeleteSite_log)
next
  case (OpSetRemote j u)
  then show ?thesis using b by (simp add: SetRemote_log)
next
  case (OpMirrorPush j)
  then show ?thesis using b by (simp add: MirrorPush_log)
qed

end
