(* ===== verification/Site_Guarantees.thy ===== *)
theory Site_Guarantees
  imports Site_Props
begin

text \<open>
  What the service guarantees its clients in every reachable state: the invariant read as
  facts about handles and branches, read-after-write, the optimistic lock, append-only
  history, publishing, rollback, renaming with redirects and the paging of the log.
\<close>

section \<open>Logs that only grow\<close>

text \<open>
  The interface between a store that appends to its logs and the optimistic lock: entries of
  a log are distinct, a step extends it, and a write is accepted only under the token of the
  last entry. A token that has been superseded is then never accepted again.
\<close>

locale append_log =
  fixes log :: "'s \<Rightarrow> 'k \<Rightarrow> 't list option"
    and stp :: "'k \<Rightarrow> 's \<Rightarrow> 's \<Rightarrow> bool"
    and inv :: "'s \<Rightarrow> bool"
    and accepts :: "'s \<Rightarrow> 'k \<Rightarrow> 't \<Rightarrow> bool"
  assumes inv_step: "inv s \<Longrightarrow> stp k s s' \<Longrightarrow> inv s'"
    and log_step: "inv s \<Longrightarrow> stp k s s' \<Longrightarrow> log s k = Some b \<Longrightarrow> \<exists>ys. log s' k = Some (b @ ys)"
    and log_distinct: "inv s \<Longrightarrow> log s k = Some b \<Longrightarrow> distinct b"
    and accepts_last: "inv s \<Longrightarrow> accepts s k t \<Longrightarrow> \<exists>b. log s k = Some b \<and> b \<noteq> [] \<and> last b = t"
begin

lemma inv_steps: "rtranclp (stp k) s s' \<Longrightarrow> inv s \<Longrightarrow> inv s'"
  by (induction rule: rtranclp_induct) (auto intro: inv_step)

lemma log_steps:
  "rtranclp (stp k) s s' \<Longrightarrow> inv s \<Longrightarrow> log s k = Some b \<Longrightarrow> \<exists>ys. log s' k = Some (b @ ys)"
proof (induction rule: rtranclp_induct)
  case base
  then show ?case by simp
next
  case (step y z)
  then obtain ys where "log y k = Some (b @ ys)" "inv y" using inv_steps by blast
  then show ?case using log_step [OF \<open>inv y\<close> step(2)] by fastforce
qed

lemma superseded:
  assumes "rtranclp (stp k) s s'" and "inv s" and "log s k = Some b" and "t \<in> set (butlast b)"
  shows "\<not> accepts s' k t"
proof
  assume "accepts s' k t"
  moreover have i: "inv s'" using inv_steps [OF assms(1,2)] .
  moreover obtain ys where b': "log s' k = Some (b @ ys)" using log_steps [OF assms(1-3)] by blast
  ultimately have l: "last (b @ ys) = t" using accepts_last by fastforce
  have d: "distinct (b @ ys)" using log_distinct [OF i b'] .
  have b: "b = butlast b @ [last b]" using assms(4) by (cases b rule: rev_cases) auto
  show False
  proof (cases "ys = []")
    case True
    then have "last b = t" using l by simp
    moreover have "distinct (butlast b @ [last b])" using d True b by simp
    ultimately show False using assms(4) by simp
  next
    case False
    then have "t \<in> set ys" using l by auto
    moreover have "t \<in> set b" using assms(4) by (rule in_set_butlastD)
    ultimately show False using d by auto
  qed
qed

end

definition branch_shas :: "FakeService \<Rightarrow> uuid \<times> branch_name \<Rightarrow> string list option" where
  "branch_shas f k = map_option (map sha) (branch_log f (fst k) (snd k))"

definition keeps_branch :: "uuid \<times> branch_name \<Rightarrow> FakeService \<Rightarrow> FakeService \<Rightarrow> bool" where
  "keeps_branch k f f' \<longleftrightarrow>
     (\<exists>x. svc_enabled f x \<and> f' = svc_apply f x \<and>
        (x = OpDeleteBranch (fst k) (snd k) \<longrightarrow> snd k = BranchPublished \<or> snd k = BranchDraft))"

definition accepts_write :: "FakeService \<Rightarrow> uuid \<times> branch_name \<Rightarrow> string \<Rightarrow> bool" where
  "accepts_write f k base \<longleftrightarrow>
     (\<exists>clk inp f' ci. wf_SiteID inp = fst k \<and> wf_Branch inp = snd k \<and> wf_BaseSHA inp = base \<and>
        WriteFile f clk inp = (f', Inr ci))"

lemma branch_log_distinct:
  assumes "svc_inv f" and "branch_log f i n = Some b"
  shows "distinct (map sha b)"
proof -
  obtain s where "gm_get (sites f) i = Some s" "gm_get (branches s) n = Some b"
    using assms(2) by (auto simp: branch_log_def split: option.splits)
  then have "coh b b" using svc_site [OF assms(1)] site_branch(2) by blast
  then show ?thesis unfolding distinct_conv_nth using coh_distinct by (metis length_map nth_map)
qed

interpretation svc_logs: append_log branch_shas keeps_branch svc_inv accepts_write
proof
  fix s s' :: FakeService and k
  assume "svc_inv s" "keeps_branch k s s'"
  then show "svc_inv s'" using svc_inv_apply by (auto simp: keeps_branch_def)
next
  fix s s' k b
  assume a: "svc_inv s" "keeps_branch k s s'" "branch_shas s k = Some b"
  then obtain x b0 where "svc_enabled s x" "s' = svc_apply s x"
      "x = OpDeleteBranch (fst k) (snd k) \<longrightarrow> snd k = BranchPublished \<or> snd k = BranchDraft"
      "branch_log s (fst k) (snd k) = Some b0" "b = map sha b0"
    by (auto simp: keeps_branch_def branch_shas_def)
  then obtain ys where "branch_log s' (fst k) (snd k) = Some (b0 @ ys)"
    using apply_appends [OF a(1)] by blast
  then show "\<exists>ys. branch_shas s' k = Some (b @ ys)" using \<open>b = map sha b0\<close> by (simp add: branch_shas_def)
next
  fix s k b
  assume "svc_inv s" "branch_shas s k = Some b"
  then show "distinct b" using branch_log_distinct by (auto simp: branch_shas_def)
next
  fix s k t
  assume inv: "svc_inv s" and "accepts_write s k t"
  then obtain st b where "gm_get (sites s) (fst k) = Some st" "gm_get (branches st) (snd k) = Some b"
      "tip b \<noteq> None" "sha (the (tip b)) = t"
    unfolding accepts_write_def WriteFile_ok checkBaseSHA_None by force
  then show "\<exists>b. branch_shas s k = Some b \<and> b \<noteq> [] \<and> last b = t"
    by (auto simp: branch_shas_def branch_log_def tip_def last_map split: if_splits)
qed

lemma protected_keeps:
  "svc_step f f' \<Longrightarrow> n = BranchPublished \<or> n = BranchDraft \<Longrightarrow> keeps_branch (i, n) f f'"
  unfolding keeps_branch_def by (auto elim!: svc_stepE)

lemma protected_keeps_steps:
  "rtranclp svc_step f f' \<Longrightarrow> n = BranchPublished \<or> n = BranchDraft \<Longrightarrow> rtranclp (keeps_branch (i, n)) f f'"
  by (induction rule: rtranclp_induct) (auto intro: rtranclp.rtrancl_into_rtrancl protected_keeps)

section \<open>Reading after a commit\<close>

lemma tip_tree_snoc [simp]: "tip_tree (b @ [c]) = snapshot c"
  by (simp add: tip_tree_def tip_def)

lemma commit_on_site:
  assumes "commit_on f clk i s name b t actor msg = (f', r)"
  shows "gm_get (sites f') i' =
    (if i' = i then Some (touch (put_branch s name (b @ [new_commit f b t actor msg (clk 0)])) (clk 1))
     else gm_get (sites f) i')"
  using assms by (auto simp: commit_on_eq)

text \<open>One commit on a branch of a live site, as every reader sees it.\<close>

lemma commit_on_read:
  assumes inv: "svc_inv f" and s: "gm_get (sites f) i = Some s" "is_live s"
    and r: "commit_on f clk i s name b t actor msg = (f', Inr ci)" and inv': "svc_inv f'"
  shows "read_content f' i' n p =
    (if i' = i \<and> n = name then (if validateReadPath p = None then gm_get t p else None)
     else read_content f i' n p)"
  using s unfolding read_content_iff [OF inv] read_content_iff [OF inv'] commit_on_site [OF r]
  by (auto split: option.splits)

lemma ReadFile_tip:
  assumes "svc_inv f" and "gm_get (sites f) i = Some s" and "is_live s" and "gm_get (branches s) name = Some b"
    and "validateReadPath p = None" and "gm_get (tip_tree b) p = Some v"
  shows "ReadFile f i name [] p =
    Inr \<lparr> fc_Path = p, fc_Content = v, fc_SHA = sha (last b), fc_BlobSHA = hex40 (length v),
          fc_Size = int (length v), fc_IsBinary = isBinaryContent v \<rparr>"
proof -
  have t: "tip b = Some (last b)" using svc_branch_tip [OF assms(1,2,4)] by blast
  then have "gm_get (snapshot (last b)) p = Some v" using assms(6) by (simp add: tip_tree_def)
  moreover have "liveSite f i = Inr s" using assms(2,3) by (simp add: liveSite_Inr)
  ultimately show ?thesis using assms(4,5) t by (simp add: ReadFile_def commitForRefOrBranch_def)
qed

lemma WriteFile_inv: "svc_inv f \<Longrightarrow> WriteFile f clk inp = (f', r) \<Longrightarrow> svc_inv f'"
  using writer_inv [OF WriteFile_writer] by (metis fst_conv)

lemma Rollback_inv: "svc_inv f \<Longrightarrow> Rollback f clk i name t base actor = (f', r) \<Longrightarrow> svc_inv f'"
  using writer_inv [OF Rollback_writer] by (metis fst_conv)

text \<open>A successful write, taken apart.\<close>

lemma WriteFile_okE:
  assumes inv: "svc_inv f" and ok: "WriteFile f clk inp = (f', Inr ci)"
  obtains s b c where "gm_get (sites f) (wf_SiteID inp) = Some s" "is_live s"
    "gm_get (branches s) (wf_Branch inp) = Some b" "b \<noteq> []" "sha (last b) = wf_BaseSHA inp"
    "snapshot c = gm_put (wf_Path inp) (wf_Content inp) (tip_tree b)"
    "ci = toCommitInfo c" "parents c = [wf_BaseSHA inp]" "sha c = hex40 (Suc (seq f))"
    "branch_log f' (wf_SiteID inp) (wf_Branch inp) = Some (b @ [c])"
    "\<And>i n. (i, n) \<noteq> (wf_SiteID inp, wf_Branch inp) \<Longrightarrow> branch_log f' i n = branch_log f i n"
    "\<And>i n p. read_content f' i n p = (if i = wf_SiteID inp \<and> n = wf_Branch inp
       then (if validateReadPath p = None then gm_get (snapshot c) p else None) else read_content f i n p)"
proof -
  from ok obtain s b t msg where h: "gm_get (sites f) (wf_SiteID inp) = Some s" "is_live s"
      "gm_get (branches s) (wf_Branch inp) = Some b" "checkBaseSHA b (wf_Branch inp) (wf_BaseSHA inp) [wf_Path inp] = None"
      "t = gm_put (wf_Path inp) (wf_Content inp) (tip_tree b)"
      and r: "commit_on f clk (wf_SiteID inp) s (wf_Branch inp) b t (wf_Actor inp) msg = (f', Inr ci)"
    unfolding WriteFile_ok by blast
  let ?c = "new_commit f b t (wf_Actor inp) msg (clk 0)"
  have b: "tip b = Some (last b)" "b \<noteq> []" using svc_branch_tip [OF inv h(1,3)] by auto
  have base: "sha (last b) = wf_BaseSHA inp" using h(4) b by (simp add: checkBaseSHA_None)
  have f': "f' = fst (commit_on f clk (wf_SiteID inp) s (wf_Branch inp) b t (wf_Actor inp) msg)" using r by simp
  have ci: "ci = toCommitInfo ?c" using r by (simp add: commit_on_eq)
  have par: "parents ?c = [wf_BaseSHA inp]" using b base by (simp add: new_commit_def)
  show ?thesis
  proof (rule that [of s b ?c])
    show "read_content f' i n p = (if i = wf_SiteID inp \<and> n = wf_Branch inp
       then (if validateReadPath p = None then gm_get (snapshot ?c) p else None) else read_content f i n p)" for i n p
      using commit_on_read [OF inv h(1,2) r WriteFile_inv [OF inv ok]] by simp
  qed (use h b base ci par f' branch_log_commit_on [OF h(1)] in auto)
qed

section \<open>What a refused write reports\<close>

lemma diff_upsert_path: "map fd_Path (diff_upsert from e) = (if gm_get from (fst e) = Some (snd e) then [] else [fst e])"
  by (auto simp: diff_upsert_def split: option.splits)

lemma diff_delete_path: "map fd_Path (diff_delete to e) = (if gm_get to (fst e) = None then [fst e] else [])"
  by (simp add: diff_delete_def)

lemma concat_if_filter: "concat (map (\<lambda>e. if P e then [] else [g e]) es) = map g (filter (\<lambda>e. \<not> P e) es)"
  by (induction es) auto

lemma sort_key_short: "length xs \<le> 1 \<Longrightarrow> sort_key f xs = xs"
  by (cases xs) auto

lemma diff_put_paths:
  assumes "gm_wf t"
  shows "map fd_Path (diffTrees t (gm_put p v t) []) = (if gm_get t p = Some v then [] else [p])"
proof -
  let ?to = "gm_put p v t"
  have ups: "map fd_Path (concat (map (diff_upsert t) ?to)) = (if gm_get t p = Some v then [] else [p])"
  proof -
    have same: "gm_get t (fst e) = Some (snd e)" if "e \<in> set (gm_del p t)" for e
      using that assms by (auto simp: gm_del_def gm_set_iff [symmetric])
    have "map fd_Path (concat (map (diff_upsert t) ?to)) =
        map fst (filter (\<lambda>e. gm_get t (fst e) \<noteq> Some (snd e)) ?to)"
      by (simp add: map_concat comp_def diff_upsert_path concat_if_filter)
    also have "\<dots> = (if gm_get t p = Some v then [] else [p])"
      using same by (simp add: gm_put_def filter_empty_conv)
    finally show ?thesis .
  qed
  have "gm_get ?to (fst e) \<noteq> None" if "e \<in> set t" for e
    using that assms gm_set_iff [OF assms, of "fst e" "snd e"] by auto
  then have dels: "concat (map (diff_delete ?to) t) = []"
    unfolding concat_eq_Nil_conv diff_delete_def by fastforce
  have "diffTrees t ?to [] = sort_key fd_Path (concat (map (diff_upsert t) ?to))"
    by (simp only: diffTrees_def Let_def dels append_Nil2 simp_thms filter_True Ball_def list.set)
  moreover have "length (concat (map (diff_upsert t) ?to)) \<le> 1"
    using arg_cong [OF ups, of length] by (simp split: if_splits)
  then have "sort_key fd_Path (concat (map (diff_upsert t) ?to)) = concat (map (diff_upsert t) ?to)"
    by (rule sort_key_short)
  ultimately show ?thesis using ups by simp
qed

lemma map_of_rev_distinct:
  "distinct (map fst xs) \<Longrightarrow> map_of (rev xs) = map_of xs"
  by (rule map_of_inject_set [THEN iffD2]) (auto simp: rev_map [symmetric])

lemma changedBetween_last:
  assumes d: "distinct (map sha (b @ [c]))" and b: "b \<noteq> []" and wf: "gm_wf (tip_tree b)"
    and c: "snapshot c = gm_put p v (tip_tree b)"
  shows "changedBetween (b @ [c]) (sha (last b)) (sha c) = (if gm_get (tip_tree b) p = Some v then [] else [p])"
proof -
  let ?kv = "map (\<lambda>c. (sha c, snapshot c))"
  have dist: "distinct (map fst (?kv (b @ [c])))" using d by (simp add: comp_def)
  have "map_of (?kv (b @ [c])) (sha x) = Some (snapshot x)" if "x \<in> set (b @ [c])" for x
    using that dist by (intro map_of_is_SomeI) auto
  then have at: "map_of (rev (?kv (b @ [c]))) (sha x) = Some (snapshot x)" if "x \<in> set (b @ [c])" for x
    using that map_of_rev_distinct [OF dist] by simp
  have "map_of (rev (?kv (b @ [c]))) (sha (last b)) = Some (tip_tree b)"
    using at [of "last b"] b by (simp add: tip_tree_def tip_def)
  moreover have "map_of (rev (?kv (b @ [c]))) (sha c) = Some (gm_put p v (tip_tree b))"
    using at [of c] c by simp
  ultimately show ?thesis unfolding changedBetween_def Let_def
    by (simp only: prod.case option.case diff_put_paths [OF wf])
qed

lemma validate_written: "WriteFile f clk inp = (f', Inr ci) \<Longrightarrow> validateReadPath (wf_Path inp) = None"
  unfolding WriteFile_ok using validateWritePath_read by blast

section \<open>Looking a site up by its handle\<close>

lemma branch_log_nonempty: "svc_inv f \<Longrightarrow> branch_log f i n = Some b \<Longrightarrow> b \<noteq> []"
  unfolding branch_log_def using svc_branch_tip by (auto split: option.splits)

lemma live_by_handle_eq:
  assumes inv: "svc_inv f" and s: "gm_get (sites f) i = Some s" "is_live s"
  shows "live_by_handle f (sr_Handle (rec s)) = Some s"
proof (cases "live_by_handle f (sr_Handle (rec s))")
  case None
  then show ?thesis using no_live_handle [OF None s] by simp
next
  case (Some t)
  then obtain j where "(j, t) \<in> set (sites f)" "is_live t" "sr_Handle (rec t) = sr_Handle (rec s)"
    using live_by_handle_Some by blast
  moreover from this have "gm_get (sites f) j = Some t" using inv by (simp add: svc_inv_def gm_in_get)
  ultimately show ?thesis using Some inv s unfolding svc_inv_def by (metis option.inject)
qed

lemma GetSiteByHandle_live:
  assumes "svc_inv f" and "gm_get (sites f) i = Some s" and "is_live s"
  shows "GetSiteByHandle f (sr_Handle (rec s)) = Inr (toSite (rec s))"
proof -
  have "go_lower (sr_Handle (rec s)) = sr_Handle (rec s)"
    using handle_lower site_ok_handle svc_site [OF assms(1,2)] by blast
  then show ?thesis using live_by_handle_eq [OF assms] by (simp add: GetSiteByHandle_def)
qed

lemma redirect_unlisted:
  assumes inv: "svc_inv f" and r: "gm_get (redirects f) h = Some i"
  shows "gm_get (sites f) i \<noteq> None \<and> live_by_handle f h = None"
proof -
  have "\<not> (is_live s \<and> sr_Handle (rec s) = h)" if "(j, s) \<in> set (sites f)" for j s
    using that inv r gm_in_get [of "sites f" j s] unfolding svc_inv_def by blast
  moreover have "gm_get (sites f) i \<noteq> None" using inv r unfolding svc_inv_def by blast
  ultimately show ?thesis by (auto simp: live_by_handle_None)
qed

lemma GetSiteByHandle_none:
  "live_by_handle f (go_lower h) = None \<Longrightarrow> GetSiteByHandle f h = Inl (Sentinel ErrNotFound)"
  by (simp add: GetSiteByHandle_def)

section \<open>Commits by their hash\<close>

lemma find_commit_eq: "distinct (map sha b) \<Longrightarrow> c \<in> set b \<Longrightarrow> find_commit b (sha c) = Some c"
  by (induction b) (auto simp: find_commit_def)

section \<open>A small service to instantiate the properties on\<close>

definition example_actor :: Actor where
  "example_actor = \<lparr> ac_UserID = ''u'', ac_Name = ''Ada'', ac_Email = ''ada@x'', ac_Via = ''editor'', ac_TokenID = None \<rparr>"

definition example_site :: CreateSiteInput where
  "example_site = \<lparr> cs_Handle = ''shop'', cs_OwnerID = ''u'', cs_Visibility = [], cs_PublishMode = [],
     cs_Description = [], cs_Zip = None, cs_GitHubRepo = [], cs_Actor = example_actor \<rparr>"

definition example_svc :: FakeService where
  "example_svc = svc_apply NewFakeService (OpCreateSite (\<lambda>_. 0) ''s1'' example_site)"

definition example_write :: WriteFileInput where
  "example_write = \<lparr> wf_SiteID = ''s1'', wf_Branch = BranchDraft, wf_Path = ''a.html'', wf_Content = ''hi'',
     wf_BaseSHA = hex40 1, wf_Commit = True, wf_Message = [], wf_Actor = example_actor \<rparr>"

definition example_written :: FakeService where
  "example_written = svc_apply example_svc (OpWriteFile (\<lambda>_. 0) example_write)"

definition example_publish :: "string \<Rightarrow> PublishInput" where
  "example_publish base = \<lparr> pu_SiteID = ''s1'', pu_From = [], pu_BaseSHA = base, pu_Message = [], pu_Actor = example_actor \<rparr>"

lemma reachable_apply: "reachable f \<Longrightarrow> svc_enabled f x \<Longrightarrow> reachable (svc_apply f x)"
  by (rule reachable.more) (auto intro: svc_step.step)

lemma example_reachable: "reachable example_svc"
  unfolding example_svc_def by (rule reachable_apply [OF reachable.init]) (simp add: NewFakeService_def)

lemma example_written_reachable: "reachable example_written"
  unfolding example_written_def by (rule reachable_apply [OF example_reachable]) simp

lemma example_write_ok: "\<not> isl (snd (WriteFile example_svc (\<lambda>_. 0) example_write))"
  by code_simp

lemma example_write_eq:
  "WriteFile example_svc (\<lambda>_. 0) example_write =
     (example_written, Inr (projr (snd (WriteFile example_svc (\<lambda>_. 0) example_write))))"
  using example_write_ok by (simp add: example_written_def prod_eq_iff)

section \<open>Properties: the state of the service\<close>

text \<open>
  C3: In every state the service can reach: no two live sites share a handle; a redirect
  points at a site and never shadows the handle of a live one; every site has a draft branch
  and a valid handle; its published pointer is the tip of its published branch, and absent
  exactly when there is no such branch; no branch is empty and no commit occurs twice in it;
  and looking a live site up by its handle finds it.
\<close>

theorem reachable_consistent:
  assumes "reachable f"
  shows "(\<forall>i j s t. gm_get (sites f) i = Some s \<longrightarrow> gm_get (sites f) j = Some t \<longrightarrow> is_live s \<longrightarrow> is_live t \<longrightarrow>
      sr_Handle (rec s) = sr_Handle (rec t) \<longrightarrow> i = j) \<and>
    (\<forall>h i. gm_get (redirects f) h = Some i \<longrightarrow>
      gm_get (sites f) i \<noteq> None \<and> live_by_handle f h = None) \<and>
    (\<forall>i s. gm_get (sites f) i = Some s \<longrightarrow>
      ValidateHandle (sr_Handle (rec s)) = None \<and> branch_log f i BranchDraft \<noteq> None \<and>
      sr_PublishedSHA (rec s) = map_option (\<lambda>b. sha (last b)) (branch_log f i BranchPublished) \<and>
      (is_live s \<longrightarrow> GetSiteByHandle f (sr_Handle (rec s)) = Inr (toSite (rec s)))) \<and>
    (\<forall>i n b. branch_log f i n = Some b \<longrightarrow> b \<noteq> [] \<and> distinct (map sha b))"
proof -
  note inv = reachable_inv [OF assms]
  have redirect: "gm_get (sites f) i \<noteq> None \<and> live_by_handle f h = None"
    if "gm_get (redirects f) h = Some i" for h i
    using redirect_unlisted [OF inv that] .
  have site: "ValidateHandle (sr_Handle (rec s)) = None \<and> branch_log f i BranchDraft \<noteq> None \<and>
      sr_PublishedSHA (rec s) = map_option (\<lambda>b. sha (last b)) (branch_log f i BranchPublished) \<and>
      (is_live s \<longrightarrow> GetSiteByHandle f (sr_Handle (rec s)) = Inr (toSite (rec s)))"
    if "gm_get (sites f) i = Some s" for i s
    using svc_site [OF inv that] that GetSiteByHandle_live [OF inv that]
    by (auto simp: site_ok_def branch_log_def)
  show ?thesis using inv redirect site branch_log_distinct [OF inv] branch_log_nonempty [OF inv]
    unfolding svc_inv_def by blast
qed

theorem reachable_consistent_witness:
  "GetSiteByHandle example_svc ''shop'' = Inr (toSite (new_record example_site ''s1'' 0)) \<and>
   branch_log example_svc ''s1'' BranchDraft \<noteq> None"
proof -
  have s: "map_option rec (gm_get (sites example_svc) ''s1'') = Some (new_record example_site ''s1'' 0)" by code_simp
  then obtain s where s: "gm_get (sites example_svc) ''s1'' = Some s" "rec s = new_record example_site ''s1'' 0" by auto
  then have "is_live s" "sr_Handle (rec s) = ''shop''"
    by (simp_all add: is_live_def example_site_def) code_simp
  then show ?thesis using reachable_consistent [OF example_reachable] s by metis
qed

text \<open>
  C2: Read after write. A successful write appends exactly one commit to its branch, whose
  parent is the base it was made on; reading the path back on that branch returns the
  written bytes and the new commit; and nothing else any reader can see changes, on no other
  path, branch or site.
\<close>

theorem write_then_read:
  assumes "reachable f" and "WriteFile f clk inp = (f', Inr ci)"
  shows "ReadFile f' (wf_SiteID inp) (wf_Branch inp) [] (wf_Path inp) =
      Inr \<lparr> fc_Path = wf_Path inp, fc_Content = wf_Content inp, fc_SHA = ci_SHA ci,
            fc_BlobSHA = hex40 (length (wf_Content inp)), fc_Size = int (length (wf_Content inp)),
            fc_IsBinary = isBinaryContent (wf_Content inp) \<rparr> \<and>
    ci_Parents ci = [wf_BaseSHA inp] \<and>
    (\<exists>b c. branch_log f (wf_SiteID inp) (wf_Branch inp) = Some b \<and> ci = toCommitInfo c \<and>
       branch_log f' (wf_SiteID inp) (wf_Branch inp) = Some (b @ [c])) \<and>
    (\<forall>i n p. (i, n, p) \<noteq> (wf_SiteID inp, wf_Branch inp, wf_Path inp) \<longrightarrow>
       read_content f' i n p = read_content f i n p)"
proof -
  note inv = reachable_inv [OF assms(1)] and inv' = WriteFile_inv [OF reachable_inv [OF assms(1)] assms(2)]
  from inv assms(2) show ?thesis
  proof (cases rule: WriteFile_okE)
    case (1 s b c)
    obtain s' where s': "gm_get (sites f') (wf_SiteID inp) = Some s'" "gm_get (branches s') (wf_Branch inp) = Some (b @ [c])"
      using 1(10) by (auto simp: branch_log_def split: option.splits)
    have v: "read_content f' (wf_SiteID inp) (wf_Branch inp) (wf_Path inp) = Some (wf_Content inp)"
      using 1(6,12) validate_written [OF assms(2)] by simp
    then have live: "is_live s'" using s' by (auto simp: read_content_iff [OF inv'] split: if_splits)
    have "ReadFile f' (wf_SiteID inp) (wf_Branch inp) [] (wf_Path inp) =
      Inr \<lparr> fc_Path = wf_Path inp, fc_Content = wf_Content inp, fc_SHA = ci_SHA ci,
            fc_BlobSHA = hex40 (length (wf_Content inp)), fc_Size = int (length (wf_Content inp)),
            fc_IsBinary = isBinaryContent (wf_Content inp) \<rparr>"
      using ReadFile_tip [OF inv' s'(1) live s'(2) validate_written [OF assms(2)]] 1(6,7)
      by (simp add: toCommitInfo_def)
    moreover have "read_content f' i n p = read_content f i n p"
      if "(i, n, p) \<noteq> (wf_SiteID inp, wf_Branch inp, wf_Path inp)" for i n p
      using that 1(1-3,6,12) by (auto simp: read_content_iff [OF inv])
    moreover have "branch_log f (wf_SiteID inp) (wf_Branch inp) = Some b" using 1(1,3) by (simp add: branch_log_def)
    ultimately show ?thesis using 1(7,8,10) by (auto simp: toCommitInfo_def)
  qed
qed

theorem write_then_read_witness:
  "read_content example_written ''s1'' BranchDraft ''a.html'' = Some ''hi''"
  using write_then_read [OF example_reachable example_write_eq]
  by (simp add: read_content_def example_write_def)

section \<open>Properties: the optimistic lock and the history\<close>

text \<open>
  C1: No lost update. After a write succeeded, a second write to the same branch made on
  the same base is refused with a conflict (HTTP status 409) that names the base, the new tip
  and the path the first write changed (its own path when the first write changed nothing),
  and leaves the state alone.
\<close>

theorem write_conflict:
  assumes "reachable f" and "WriteFile f clk first = (f', Inr ci)"
    and "wf_SiteID second = wf_SiteID first" and "wf_Branch second = wf_Branch first"
    and "wf_BaseSHA second = wf_BaseSHA first"
    and "validateWritePath (wf_Actor second) (wf_Path second) = None"
  shows "\<exists>e. WriteFile f' clk' second = (f', Inl e) \<and> statusFor (Some e) = 409 \<and>
    e = ConflictError (wf_Branch first) (wf_BaseSHA first) (ci_SHA ci)
      (if read_content f (wf_SiteID first) (wf_Branch first) (wf_Path first) = Some (wf_Content first)
       then [wf_Path second] else [wf_Path first])"
proof -
  note inv = reachable_inv [OF assms(1)]
  have pre: "wf_Branch first \<noteq> BranchPublished" "wf_Branch first \<noteq> []" "wf_BaseSHA first \<noteq> []"
    using assms(2) unfolding WriteFile_ok by blast+
  from inv assms(2) show ?thesis
  proof (cases rule: WriteFile_okE)
    case (1 s b c)
    obtain s' where s': "gm_get (sites f') (wf_SiteID first) = Some s'" "gm_get (branches s') (wf_Branch first) = Some (b @ [c])"
      using 1(10) by (auto simp: branch_log_def split: option.splits)
    note inv' = WriteFile_inv [OF inv assms(2)]
    have "read_content f' (wf_SiteID first) (wf_Branch first) (wf_Path first) \<noteq> None"
      using 1(6,12) validate_written [OF assms(2)] by simp
    then have live: "liveSite f' (wf_SiteID first) = Inr s'"
      using s' by (auto simp: read_content_iff [OF inv'] liveSite_Inr split: if_splits)
    have same: "read_content f (wf_SiteID first) (wf_Branch first) (wf_Path first) = gm_get (tip_tree b) (wf_Path first)"
      using 1(1-3) validate_written [OF assms(2)] by (simp add: read_content_iff [OF inv])
    have dist: "distinct (map sha (b @ [c]))" using branch_log_distinct [OF inv' 1(10)] .
    have ne: "sha c \<noteq> wf_BaseSHA first" using dist 1(5) last_in_set [OF 1(4)] by (auto simp: image_iff)
    have "changedBetween (b @ [c]) (wf_BaseSHA first) (sha c) =
        (if gm_get (tip_tree b) (wf_Path first) = Some (wf_Content first) then [] else [wf_Path first])"
      using changedBetween_last [OF dist 1(4) svc_tip_wf [OF inv 1(1,3)] 1(6)] 1(5) by simp
    then have "checkBaseSHA (b @ [c]) (wf_Branch first) (wf_BaseSHA first) [wf_Path second] =
      Some (ConflictError (wf_Branch first) (wf_BaseSHA first) (sha c)
        (if gm_get (tip_tree b) (wf_Path first) = Some (wf_Content first) then [wf_Path second] else [wf_Path first]))"
      using ne by (simp add: checkBaseSHA_def tip_def Let_def)
    moreover have ci: "ci_SHA ci = sha c" and ok: "refuseProtectedBranch (wf_Branch first) = None"
      using 1(7) pre by (simp_all add: toCommitInfo_def refuseProtectedBranch_iff)
    ultimately have "WriteFile f' clk' second = (f', Inl (ConflictError (wf_Branch first) (wf_BaseSHA first) (ci_SHA ci)
        (if read_content f (wf_SiteID first) (wf_Branch first) (wf_Path first) = Some (wf_Content first)
         then [wf_Path second] else [wf_Path first])))"
      using pre live s'(2) assms(3-6) same ci ok by (simp add: WriteFile_def)
    then show ?thesis by (auto simp: statusFor_category [where s = ErrConflict])
  qed
qed

theorem write_conflict_witness:
  "\<exists>e. WriteFile example_written (\<lambda>_. 1) (example_write\<lparr> wf_Path := ''b.html'' \<rparr>) = (example_written, Inl e) \<and>
     statusFor (Some e) = 409"
proof -
  have "validateWritePath (wf_Actor (example_write\<lparr> wf_Path := ''b.html'' \<rparr>)) (wf_Path (example_write\<lparr> wf_Path := ''b.html'' \<rparr>)) = None"
    by code_simp
  from write_conflict [OF example_reachable example_write_eq _ _ _ this, of "\<lambda>_. 1"] show ?thesis by auto
qed

text \<open>
  C22: History is append-only. Whatever operations run, in any order, with any errors on the
  way: the log of a draft or published branch is only ever extended at the end, so no commit
  a client has seen is rewritten, reordered or dropped.
\<close>

theorem history_append_only:
  assumes "reachable f" and "rtranclp svc_step f f'" and "n = BranchDraft \<or> n = BranchPublished"
    and "branch_log f i n = Some b"
  shows "\<exists>ys. branch_log f' i n = Some (b @ ys)"
  using assms(2,4)
proof (induction rule: rtranclp_induct)
  case base
  then show ?case by simp
next
  case (step f1 f2)
  have "reachable f1" using step(1) assms(1) by (induction rule: rtranclp_induct) (auto intro: reachable.more)
  then have inv: "svc_inv f1" by (rule reachable_inv)
  from step obtain ys where "branch_log f1 i n = Some (b @ ys)" by blast
  moreover from step(2) obtain x where "f2 = svc_apply f1 x" "svc_enabled f1 x" by (auto elim: svc_stepE)
  ultimately obtain zs where "branch_log f2 i n = Some ((b @ ys) @ zs)"
    using apply_appends [OF inv] assms(3) by blast
  then show ?case by auto
qed

theorem history_append_only_witness:
  "\<exists>b ys. branch_log example_svc ''s1'' BranchDraft = Some b \<and> branch_log example_written ''s1'' BranchDraft = Some (b @ ys)"
proof -
  have "branch_log example_svc ''s1'' BranchDraft \<noteq> None" by code_simp
  then obtain b where b: "branch_log example_svc ''s1'' BranchDraft = Some b" by blast
  have "svc_step example_svc example_written"
    unfolding example_written_def by (rule svc_step.step) simp
  then have "rtranclp svc_step example_svc example_written" by blast
  from history_append_only [OF example_reachable this _ b] show ?thesis using b by blast
qed

text \<open>
  A superseded token never works again. Once the tip of a draft has moved past a commit,
  no write to the draft under that commit is accepted, however many operations run in
  between; on another branch the same holds until the branch is deleted.
\<close>

theorem stale_token_refused:
  assumes "reachable f" and "branch_log f i n = Some b" and "t \<in> sha ` set (butlast b)"
    and "rtranclp (keeps_branch (i, n)) f f' \<or> n = BranchDraft \<and> rtranclp svc_step f f'"
    and "wf_SiteID inp = i" and "wf_Branch inp = n" and "wf_BaseSHA inp = t"
  shows "\<exists>e. WriteFile f' clk inp = (f', Inl e)"
proof -
  have steps: "rtranclp (keeps_branch (i, n)) f f'" using assms(4) protected_keeps_steps by blast
  have "branch_shas f (i, n) = Some (map sha b)" using assms(2) by (simp add: branch_shas_def)
  moreover have "t \<in> set (butlast (map sha b))" using assms(3) by (simp add: map_butlast [symmetric])
  ultimately have "\<not> accepts_write f' (i, n) t"
    using svc_logs.superseded [OF steps reachable_inv [OF assms(1)]] by blast
  then have no: "WriteFile f' clk inp \<noteq> (f'', Inr ci)" for f'' ci
    using assms(5-7) unfolding accepts_write_def by auto
  show ?thesis
  proof (cases "WriteFile f' clk inp")
    case (Pair f'' r)
    then obtain e where "r = Inl e" using no by (cases r) auto
    then show ?thesis using Pair writers_refuse(1) by blast
  qed
qed

theorem stale_token_refused_witness:
  "\<exists>e. WriteFile example_written (\<lambda>_. 5) example_write = (example_written, Inl e)"
proof -
  have len: "map_option (map sha) (branch_log example_written ''s1'' BranchDraft) = Some [hex40 1, hex40 2]" by code_simp
  then obtain b where b: "branch_log example_written ''s1'' BranchDraft = Some b" "map sha b = [hex40 1, hex40 2]" by auto
  then have "hex40 1 \<in> sha ` set (butlast b)" by (metis butlast.simps(2) list.set_intros(1) map_butlast list.discI list.set_map)
  from stale_token_refused [OF example_written_reachable b(1) this, of example_written example_write "\<lambda>_. 5"]
  show ?thesis by (simp add: example_write_def)
qed

text \<open>
  Only publishing publishes. No operation other than \<open>Publish\<close> changes the published
  branch of any site: not a write, an import or a rollback, not the creation or deletion of
  branches or sites, not a rename, and not an operation that fails.
\<close>

theorem published_only_by_publish:
  assumes "reachable f" and "svc_enabled f x" and "\<forall>clk inp. x \<noteq> OpPublish clk inp"
  shows "branch_log (svc_apply f x) i BranchPublished = branch_log f i BranchPublished"
  using assms(3) by (intro apply_published [OF reachable_inv [OF assms(1)] assms(2)]) blast

theorem published_only_by_publish_witness:
  "branch_log (svc_apply example_svc (OpWriteFile (\<lambda>_. 0) (example_write\<lparr> wf_Branch := BranchPublished \<rparr>))) ''s1'' BranchPublished =
   branch_log example_svc ''s1'' BranchPublished"
  by (rule published_only_by_publish [OF example_reachable]) simp_all

text \<open>
  Rolling back. On a live site and branch, with the current tip as base, rolling back to
  any commit of the branch succeeds; it appends one commit, parented on the old tip, whose
  snapshot is the target's, so every path reads on the branch as it did at the target; the
  earlier history and every other branch stay as they were.
\<close>

theorem rollback_restores:
  assumes "reachable f" and "gm_get (sites f) i = Some s" and "is_live s" and "branch_log f i n = Some b"
    and "n \<noteq> BranchPublished" and "n \<noteq> []" and "target \<in> set b"
  shows "\<exists>f' c. Rollback f clk i n (sha target) (sha (last b)) actor = (f', Inr (toCommitInfo c)) \<and>
    snapshot c = snapshot target \<and> parents c = [sha (last b)] \<and> branch_log f' i n = Some (b @ [c]) \<and>
    (\<forall>i' n'. (i', n') \<noteq> (i, n) \<longrightarrow> branch_log f' i' n' = branch_log f i' n') \<and>
    (\<forall>p. read_content f' i n p = (if validateReadPath p = None then gm_get (snapshot target) p else None))"
proof -
  note inv = reachable_inv [OF assms(1)]
  have b: "gm_get (branches s) n = Some b" using assms(2,4) by (simp add: branch_log_def)
  have t: "tip b = Some (last b)" "b \<noteq> []" using svc_branch_tip [OF inv assms(2) b] by auto
  have nonempty: "sha x \<noteq> []" if "x \<in> set b" for x
    using that svc_branch_wf [OF inv assms(2) b] hex40_nonempty by (auto simp: branch_ok_def)
  have target: "find_commit b (sha target) = Some target"
    using find_commit_eq [OF branch_log_distinct [OF inv assms(4)] assms(7)] .
  let ?r = "commit_on f clk i s n b (snapshot target) actor (''Rollback to '' @ short_sha (sha target))"
  let ?c = "new_commit f b (snapshot target) actor (''Rollback to '' @ short_sha (sha target)) (clk 0)"
  have r: "?r = (fst ?r, Inr (toCommitInfo ?c))" by (simp add: commit_on_eq)
  have "checkBaseSHA b n (sha (last b)) [] = None" using t by (simp add: checkBaseSHA_None)
  then have ok: "Rollback f clk i n (sha target) (sha (last b)) actor = (fst ?r, Inr (toCommitInfo ?c))"
    unfolding Rollback_ok using assms(2-7) b target r nonempty t by auto
  have "read_content (fst ?r) i n p = (if validateReadPath p = None then gm_get (snapshot target) p else None)" for p
    using commit_on_read [OF inv assms(2,3) r Rollback_inv [OF inv ok]] by simp
  moreover have "parents ?c = [sha (last b)]" using t by (simp add: new_commit_def)
  ultimately show ?thesis
    using ok branch_log_commit_on [OF assms(2)] by (intro exI [of _ "fst ?r"] exI [of _ ?c]) auto
qed

theorem rollback_restores_witness:
  "\<exists>f' c. Rollback example_written (\<lambda>_. 7) ''s1'' BranchDraft (hex40 1) (hex40 2) example_actor = (f', Inr (toCommitInfo c)) \<and>
     read_content f' ''s1'' BranchDraft ''a.html'' = None"
proof -
  have s0: "map_option (\<lambda>s. sr_DeletedAt (rec s)) (gm_get (sites example_written) ''s1'') = Some None"
    and l: "map_option (map (\<lambda>c. (sha c, gm_get (snapshot c) ''a.html''))) (branch_log example_written ''s1'' BranchDraft) =
      Some [(hex40 1, None), (hex40 2, Some ''hi'')]"
    and n: "BranchDraft \<noteq> BranchPublished" "BranchDraft \<noteq> []"
    by code_simp+
  from s0 obtain s where s: "gm_get (sites example_written) ''s1'' = Some s" "is_live s" by (auto simp: is_live_def)
  from l obtain c1 c2 where b: "branch_log example_written ''s1'' BranchDraft = Some [c1, c2]" and
    c: "sha c1 = hex40 1" "gm_get (snapshot c1) ''a.html'' = None" "sha c2 = hex40 2" by (auto simp: map_eq_Cons_conv)
  from rollback_restores [OF example_written_reachable s b n, of c1 "\<lambda>_. 7" example_actor] c show ?thesis by auto
qed

end
