(* ===== verification/Site_Serving.thy ===== *)
theory Site_Serving
  imports Site_Guarantees
begin

text \<open>
  Publishing, branching, renaming and the read side of the in-memory service: what the
  published branch holds after a publish, when a publish is refused, how a preview host or
  an old handle reaches a site, and what the log and the diff report.
\<close>

section \<open>Publishing\<close>

definition site_of :: "FakeService \<Rightarrow> uuid \<Rightarrow> Site option" where
  "site_of f i = (case GetSite f i of Inr x \<Rightarrow> Some x | Inl e \<Rightarrow> None)"

lemma GetSite_live: "gm_get (sites f) i = Some s \<Longrightarrow> is_live s \<Longrightarrow> GetSite f i = Inr (toSite (rec s))"
  by (simp add: GetSite_def liveSite_def is_live_def)

lemma GetSite_published:
  assumes inv: "svc_inv f" and s: "gm_get (sites f) i = Some s" "is_live s"
    and b: "branch_log f i BranchPublished = Some pub"
  shows "\<exists>x. GetSite f i = Inr x \<and> st_HasPublished x \<and> st_PublishedSHA x = sha (last pub)"
proof -
  have pub: "gm_get (branches s) BranchPublished = Some pub" using s(1) b by (simp add: branch_log_def)
  then have "sr_PublishedSHA (rec s) = Some (sha (last pub))" using svc_site [OF inv s(1)] by (simp add: site_ok_def)
  moreover have "sha (last pub) \<noteq> []"
    using svc_branch_wf [OF inv s(1) pub] hex40_nonempty unfolding branch_ok_def by (metis last_in_set)
  ultimately show ?thesis using GetSite_live [OF s] by (simp add: toSite_def Let_def)
qed

lemma coh_same_tip:
  assumes "coh b1 b2" and "b1 \<noteq> []" and "b2 \<noteq> []" and "sha (last b1) = sha (last b2)"
  shows "b1 = b2"
proof -
  have "take (Suc (length b1 - 1)) b1 = take (Suc (length b2 - 1)) b2"
    using assms by (intro cohD) (simp_all add: last_conv_nth)
  then show ?thesis using assms(2,3) by simp
qed

text \<open>The published log after a successful publish.\<close>

definition published_log :: "FakeService \<Rightarrow> clock \<Rightarrow> PublishInput \<Rightarrow> fakeBranch \<Rightarrow> fakeBranch option \<Rightarrow> fakeBranch" where
  "published_log f clk inp src pub =
     (case pub of
        None \<Rightarrow> src
      | Some pb \<Rightarrow> if sha (last pb) \<in> shas src then src else pb @ [merge_commit f clk inp pb src])"

lemma Publish_outcome:
  assumes inv: "svc_inv f" and ok: "Publish f clk inp = (f', Inr ci)"
  obtains s src where "gm_get (sites f) (pu_SiteID inp) = Some s" "is_live s"
    "gm_get (branches s) (publish_from inp) = Some src" "sha (last src) = pu_BaseSHA inp"
    "branch_log f' (pu_SiteID inp) BranchPublished =
       Some (published_log f clk inp src (branch_log f (pu_SiteID inp) BranchPublished))"
    "ci = toCommitInfo (last (published_log f clk inp src (branch_log f (pu_SiteID inp) BranchPublished)))"
    "\<exists>s'. gm_get (sites f') (pu_SiteID inp) = Some s' \<and> is_live s'"
    "\<And>i n. (i, n) \<noteq> (pu_SiteID inp, BranchPublished) \<Longrightarrow> branch_log f' i n = branch_log f i n"
  using inv ok
proof (cases rule: Publish_ok)
  case (1 s src)
  let ?i = "pu_SiteID inp"
  have pl: "branch_log f ?i BranchPublished = gm_get (branches s) BranchPublished"
    using 1(3) by (simp add: branch_log_def)
  have other: "branch_log (put_site (f\<lparr> seq := k \<rparr>) ?i (setPublished (put_branch s BranchPublished b) c t)) i n = branch_log f i n"
    if "(i, n) \<noteq> (?i, BranchPublished)" for i n b c t k
    using that 1(3) by (auto simp: branch_log_put) (simp add: branch_log_def)
  have ff: "fast_forward f clk ?i s src =
      put_site (f\<lparr> seq := seq f \<rparr>) ?i (setPublished (put_branch s BranchPublished src) (last src) (clk 0))"
    by (simp add: fast_forward_def)
  have src: "src \<noteq> []" using svc_branch_tip [OF inv 1(3,5)] by blast
  note out = that [OF 1(3-6)]
  have put: thesis if f': "f' = put_site (f\<lparr> seq := k \<rparr>) ?i (setPublished (put_branch s BranchPublished l) c t)"
      and l: "l = published_log f clk inp src (branch_log f ?i BranchPublished)" and ci: "ci = toCommitInfo (last l)" for k l c t
  proof (rule out)
    show "branch_log f' ?i BranchPublished = Some (published_log f clk inp src (branch_log f ?i BranchPublished))"
      unfolding f' branch_log_put using l by simp
    show "ci = toCommitInfo (last (published_log f clk inp src (branch_log f ?i BranchPublished)))" using ci l by simp
    show "\<exists>s'. gm_get (sites f') ?i = Some s' \<and> is_live s'" unfolding f' using 1(4) by simp
  qed (simp add: f' other)
  from 1(7) show thesis
  proof (elim disjE conjE exE)
    assume "gm_get (branches s) BranchPublished = None" "f' = fast_forward f clk ?i s src" "ci = toCommitInfo (last src)"
    then show thesis using ff pl by (intro put [of "seq f" src "last src" "clk 0"]) (simp_all add: published_log_def)
  next
    fix pub
    assume a: "gm_get (branches s) BranchPublished = Some pub" "pub \<noteq> []" "sha (last pub) = sha (last src)"
      "f' = f" "ci = toCommitInfo (last pub)"
    have "pub = src"
      using a src site_branch(2) [OF _ a(1) 1(5)] svc_site [OF inv 1(3)] by (intro coh_same_tip) auto
    moreover have "sha (last src) \<in> shas src" using src by (simp add: shas_def)
    ultimately have "published_log f clk inp src (branch_log f ?i BranchPublished) = pub"
      using a(1) pl by (simp add: published_log_def)
    then show thesis using a 1(3,4) pl by (intro out) auto
  next
    fix pub
    assume "gm_get (branches s) BranchPublished = Some pub" "sha (last pub) \<in> shas src"
      "f' = fast_forward f clk ?i s src" "ci = toCommitInfo (last src)"
    then show thesis using ff pl by (intro put [of "seq f" src "last src" "clk 0"]) (simp_all add: published_log_def)
  next
    fix pub
    assume "gm_get (branches s) BranchPublished = Some pub" "sha (last pub) \<notin> shas src"
      "f' = put_site (f\<lparr> seq := Suc (seq f) \<rparr>) ?i
         (setPublished (put_branch s BranchPublished (pub @ [merge_commit f clk inp pub src]))
            (merge_commit f clk inp pub src) (clk 1))" "ci = toCommitInfo (merge_commit f clk inp pub src)"
    then show thesis using pl
      by (intro put [of "Suc (seq f)" "pub @ [merge_commit f clk inp pub src]" "merge_commit f clk inp pub src" "clk 1"])
        (simp_all add: published_log_def)
  qed
qed

text \<open>The two ways a publish with the right base can go.\<close>

lemma Publish_diverged:
  assumes inv: "svc_inv f" and s: "gm_get (sites f) (pu_SiteID inp) = Some s" "is_live s"
    and src: "gm_get (branches s) (publish_from inp) = Some src" "sha (last src) = pu_BaseSHA inp"
    and pub: "gm_get (branches s) BranchPublished = Some pub" and frm: "publish_from inp \<noteq> BranchPublished"
    and base: "pu_BaseSHA inp \<noteq> []" and div: "sha (last pub) \<notin> shas src"
  shows "let ps = conflictingPaths (snapshot (last pub)) (snapshot (last src)) (mergeBaseTree s src) in
    (ps \<noteq> [] \<longrightarrow> Publish f clk inp = (f, Inl (PublishConflictError ps))) \<and>
    (ps = [] \<longrightarrow> (\<exists>f' ci. Publish f clk inp = (f', Inr ci)))"
proof -
  have t: "tip src = Some (last src)" "src \<noteq> []" "tip pub = Some (last pub)"
    using svc_branch_tip [OF inv s(1) src(1)] svc_branch_tip [OF inv s(1) pub] by auto
  have live: "liveSite f (pu_SiteID inp) = Inr s" using s by (simp add: liveSite_Inr)
  have ne: "sha (last pub) \<noteq> sha (last src)" using div t(2) by (auto simp: shas_def)
  note red = frm base live src pub t ne div isAncestor_shas
  show ?thesis unfolding Let_def Publish_def publish_from_def [symmetric]
    using red by (simp add: nextSHA_def)
qed

text \<open>The tree of the last commit of the source that the published branch has too.\<close>

definition common_base :: "fakeBranch \<Rightarrow> fakeBranch \<Rightarrow> tree" where
  "common_base pub src = (case find (\<lambda>c. c \<in> set pub) (rev src) of Some c \<Rightarrow> snapshot c | None \<Rightarrow> [])"

lemma coh_same_sha:
  assumes "coh pub src" and "c \<in> set src" and "sha c \<in> shas pub"
  shows "c \<in> set pub"
proof -
  obtain i j where ij: "i < length pub" "sha (pub ! i) = sha c" "j < length src" "src ! j = c"
    using assms(2,3) by (auto simp: shas_def in_set_conv_nth)
  then have "take (Suc i) pub = take (Suc j) src" using cohD [OF assms(1)] by metis
  then have "last (take (Suc i) pub) = last (take (Suc j) src)" by simp
  then have "pub ! i = c" using ij by (simp add: take_Suc_conv_app_nth)
  then show ?thesis using ij(1) nth_mem by blast
qed

lemma mergeBaseTree_common:
  assumes s: "site_ok n s" "gm_get (branches s) BranchPublished = Some pub" "gm_get (branches s) name = Some src"
  shows "mergeBaseTree s src = common_base pub src"
proof -
  let ?m = "map_of (rev (map (\<lambda>c. (sha c, snapshot c)) pub))"
  have coh: "coh pub src" "coh pub pub" using site_branch(2) [OF s(1)] s(2,3) by auto
  have dom: "?m h \<noteq> None \<longleftrightarrow> h \<in> shas pub" for h
    by (simp add: map_of_eq_None_iff shas_def rev_map [symmetric] image_image del: not_None_eq)
  have "distinct (map sha pub)"
    unfolding distinct_conv_nth using coh_distinct [OF coh(2)] by (metis length_map nth_map)
  then have at: "?m (sha c) = Some (snapshot c)" if "c \<in> set pub" for c
    using that by (subst map_of_rev_distinct) (auto simp: comp_def intro: map_of_is_SomeI)
  have same: "sha c \<in> shas pub \<longleftrightarrow> c \<in> set pub" if "c \<in> set (rev src)" for c
    using that coh_same_sha [OF coh(1), of c] by (auto simp: shas_def)
  have "find (\<lambda>c. ?m (sha c) \<noteq> None) (rev src) = find (\<lambda>c. c \<in> set pub) (rev src)"
    unfolding dom using same by (intro find_cong) auto
  then show ?thesis using s(2) at
    by (auto simp: mergeBaseTree_def common_base_def Let_def split: option.splits dest!: find_SomeD)
qed

section \<open>Properties: publishing\<close>



text \<open>
  When a publish is refused. With the tip of the source as base, the publish of a site
  whose published branch has diverged from the source is refused exactly when some path was
  changed on both sides since the last common commit, to different results; the error then
  lists exactly those paths and nothing changes. Otherwise the publish succeeds.
\<close>

theorem publish_conflict_exact:
  assumes "reachable f" and "gm_get (sites f) (pu_SiteID inp) = Some s" and "is_live s"
    and "gm_get (branches s) (publish_from inp) = Some src" and "sha (last src) = pu_BaseSHA inp"
    and "gm_get (branches s) BranchPublished = Some pub" and "publish_from inp \<noteq> BranchPublished"
    and "sha (last pub) \<notin> sha ` set src"
  shows "(\<exists>ps. Publish f clk inp = (f, Inl (PublishConflictError ps)) \<and> ps \<noteq> [] \<and>
      (\<forall>p. p \<in> set ps \<longleftrightarrow>
        gm_get (tip_tree pub) p \<noteq> gm_get (common_base pub src) p \<and>
        gm_get (tip_tree src) p \<noteq> gm_get (common_base pub src) p \<and> gm_get (tip_tree pub) p \<noteq> gm_get (tip_tree src) p)) \<or>
    (\<exists>f' ci. Publish f clk inp = (f', Inr ci)) \<and>
      (\<forall>p. gm_get (tip_tree pub) p = gm_get (common_base pub src) p \<or>
        gm_get (tip_tree src) p = gm_get (common_base pub src) p \<or> gm_get (tip_tree pub) p = gm_get (tip_tree src) p)"
proof -
  note inv = reachable_inv [OF assms(1)]
  have t: "tip_tree src = snapshot (last src)" "tip_tree pub = snapshot (last pub)"
    using svc_branch_tip [OF inv assms(2,4)] svc_branch_tip [OF inv assms(2,6)] by (simp_all add: tip_tree_def)
  have base: "pu_BaseSHA inp \<noteq> []"
    using svc_branch_wf [OF inv assms(2,4)] hex40_nonempty assms(5) unfolding branch_ok_def by (metis last_in_set)
  have div: "sha (last pub) \<notin> shas src" using assms(8) by (simp add: shas_def)
  have common: "mergeBaseTree s src = common_base pub src"
    using mergeBaseTree_common [OF _ assms(6,4)] svc_site [OF inv assms(2)] by blast
  let ?ps = "conflictingPaths (snapshot (last pub)) (snapshot (last src)) (common_base pub src)"
  note two = Publish_diverged [OF inv assms(2-7) base div, unfolded Let_def common]
  show ?thesis
  proof (cases "?ps = []")
    case True
    then have "\<not> (gm_get (tip_tree pub) p \<noteq> gm_get (common_base pub src) p \<and>
        gm_get (tip_tree src) p \<noteq> gm_get (common_base pub src) p \<and> gm_get (tip_tree pub) p \<noteq> gm_get (tip_tree src) p)" for p
      using conflictingPaths_set [of p "snapshot (last pub)" "snapshot (last src)" "common_base pub src"] t by simp
    then show ?thesis using two True by blast
  next
    case False
    then show ?thesis using two conflictingPaths_set t by (intro disjI1 exI [of _ ?ps]) simp
  qed
qed

definition example_diverged :: FakeService where
  "example_diverged = foldl svc_apply example_written
     [OpCreateBranch ''s1'' ''feat'' [],
      OpWriteFile (\<lambda>_. 1) (example_write\<lparr> wf_Branch := ''feat'', wf_Content := ''feat'', wf_BaseSHA := hex40 2 \<rparr>),
      OpPublish (\<lambda>_. 2) ((example_publish (hex40 3))\<lparr> pu_From := ''feat'' \<rparr>),
      OpWriteFile (\<lambda>_. 3) (example_write\<lparr> wf_Content := ''draft'', wf_BaseSHA := hex40 2 \<rparr>)]"

lemma example_diverged_reachable: "reachable example_diverged"
  unfolding example_diverged_def foldl.simps
  by (intro reachable_apply example_written_reachable) simp_all

theorem publish_conflict_exact_witness:
  "\<exists>ps. Publish example_diverged (\<lambda>_. 4) (example_publish (hex40 4)) = (example_diverged, Inl (PublishConflictError ps)) \<and>
     ps \<noteq> []"
proof -
  let ?inp = "example_publish (hex40 4)"
  have view: "map_option (\<lambda>s. (sr_DeletedAt (rec s), map_option (map sha) (gm_get (branches s) BranchDraft),
        map_option (map sha) (gm_get (branches s) BranchPublished))) (gm_get (sites example_diverged) ''s1'') =
      Some (None, Some [hex40 1, hex40 2, hex40 4], Some [hex40 1, hex40 2, hex40 3])"
    and refused: "isl (snd (Publish example_diverged (\<lambda>_. 4) ?inp))" by code_simp+
  from view obtain s src pub where s: "gm_get (sites example_diverged) ''s1'' = Some s" "is_live s"
      "gm_get (branches s) BranchDraft = Some src" "gm_get (branches s) BranchPublished = Some pub"
      and l: "map sha src = [hex40 1, hex40 2, hex40 4]" "map sha pub = [hex40 1, hex40 2, hex40 3]"
    by (auto simp: is_live_def)
  have tips: "sha (last src) = hex40 4" "sha (last pub) = hex40 3" "sha ` set src = {hex40 1, hex40 2, hex40 4}"
    using l arg_cong [OF l(1), of last] arg_cong [OF l(2), of last] arg_cong [OF l(1), of set]
    by (auto simp: last_map)
  have inp: "pu_SiteID ?inp = ''s1''" "publish_from ?inp = BranchDraft" "pu_BaseSHA ?inp = hex40 4"
    by (simp_all add: example_publish_def publish_from_def)
  have "BranchDraft \<noteq> BranchPublished" by code_simp
  with publish_conflict_exact [OF example_diverged_reachable, of ?inp s src pub "\<lambda>_. 4"] s tips inp refused
  show ?thesis by (auto simp: hex40_inj)
qed

section \<open>From a host to a site\<close>

lemma contains_around:
  assumes "c \<notin> set p" and "p \<noteq> []"
  shows "contains (x @ c # y) p \<longleftrightarrow> contains x p \<or> contains y p"
proof
  assume "contains (x @ c # y) p"
  then obtain a b where "x @ c # y = a @ p @ b" by (auto simp: contains_iff)
  then consider us where "x = a @ us" "us @ c # y = p @ b" | us where "a = x @ us" "c # y = us @ p @ b"
    by (auto simp: append_eq_append_conv2)
  then show "contains x p \<or> contains y p"
  proof cases
    case (1 us)
    then consider ws where "us = p @ ws" | ws where "p = us @ ws" "c # y = ws @ b"
      by (auto simp: append_eq_append_conv2)
    then show ?thesis
    proof cases
      case (2 ws)
      then have "ws = []" using assms(1) by (cases ws) auto
      then have "x = a @ p @ []" using 1(1) 2(1) by simp
      then show ?thesis unfolding contains_iff by blast
    qed (use 1(1) in \<open>auto simp: contains_iff\<close>)
  next
    case (2 us)
    then have "us \<noteq> []" using assms by (cases p) auto
    then show ?thesis using 2(2) by (cases us) (auto simp: contains_iff)
  qed
next
  assume "contains x p \<or> contains y p"
  then show "contains (x @ c # y) p"
    using contains_appendL contains_appendR [of "c # y" p x] contains_appendR [of y p "[c]"] by auto
qed

lemma label_char_facts:
  assumes "label_char c"
  shows "lower_char c = c" "\<not> is_space c" "c \<noteq> CHR ''/''" "c \<noteq> CHR '':''" "c \<noteq> CHR ''.''"
  using assms by (auto simp: label_char_def is_alnum_lower_def lower_char_def is_space_def Let_def)

text \<open>The host part of a label followed by a domain, with or without a port.\<close>

lemma host_label_of:
  assumes "CHR '':'' \<notin> set l" and "CHR ''.'' \<notin> set l"
  shows "(let host = (case index_byte (l @ ''.'' @ d) CHR '':'' of Some i \<Rightarrow> take i (l @ ''.'' @ d) | None \<Rightarrow> l @ ''.'' @ d)
    in (case index_byte host CHR ''.'' of Some i \<Rightarrow> take i host | None \<Rightarrow> host)) = l"
proof (cases "CHR '':'' \<in> set d")
  case True
  then obtain u v where d: "d = u @ CHR '':'' # v" "CHR '':'' \<notin> set u" using split_list_first by metis
  then have "index_byte (l @ ''.'' @ d) CHR '':'' = Some (length (l @ ''.'' @ u))"
    using index_byte_append [of "CHR '':''" "l @ ''.'' @ u" v] assms(1) by simp
  moreover have "take (length (l @ ''.'' @ u)) (l @ ''.'' @ d) = l @ ''.'' @ u" using d(1) by simp
  ultimately show ?thesis using index_byte_append [OF assms(2), of u] by simp
next
  case False
  then have none: "index_byte (l @ ''.'' @ d) CHR '':'' = None" using assms(1) by simp
  show ?thesis unfolding Let_def none using index_byte_append [OF assms(2), of d] by simp
qed

lemma parse_preview_host:
  assumes h: "ValidateHandleForResolver h = None" and n: "n = BranchPublished \<or> validateBranchName n = None"
    and d: "\<forall>c \<in> set d. \<not> is_space c"
  shows "parseHostOrPath (previewSubdomain h n @ ''.'' @ d) = Inr (h, n)"
proof -
  let ?l = "previewSubdomain h n"
  have n': "validateBranchName n = None" using n host_label_published by (auto simp: validateBranchName_iff)
  note chars = label_char_facts [OF site_names.preview_chars [OF h n']]
  have low: "go_lower ?l = ?l" using chars(1) by (intro go_lower_fixed)
  have dot: "\<not> is_space CHR ''.''" "go_lower ''.'' = ''.''" by code_simp+
  have "trim_space (?l @ ''.'' @ d) = ?l @ ''.'' @ d"
    using chars(2) d dot(1) by (intro trim_space_id) auto
  then have s: "go_lower (trim_space (?l @ ''.'' @ d)) = ?l @ ''.'' @ go_lower d"
    using low dot(2) by (simp only: go_lower_append)
  have ne: "?l \<noteq> []" using site_names.handle_label [OF h] by (auto simp: previewSubdomain_def host_label_def)
  then have pre: "\<not> has_prefix (?l @ ''.'' @ go_lower d) ''/host/''"
    using chars(3) by (cases ?l) auto
  have "CHR '':'' \<notin> set ?l" "CHR ''.'' \<notin> set ?l" using chars(4,5) by blast+
  note l = host_label_of [OF this, of "go_lower d", unfolded Let_def]
  show ?thesis
    unfolding parseHostOrPath_def s Let_def
    by (simp only: pre l ne site_names.split_preview [OF h] append_is_Nil_conv simp_thms if_False)
qed

text \<open>The site behind a name: a live site with that handle, else the target of a redirect.\<close>

definition named_site :: "FakeService \<Rightarrow> string \<Rightarrow> fakeSite option" where
  "named_site f h =
     (case live_by_handle f h of
        Some s \<Rightarrow> Some s
      | None \<Rightarrow> (case gm_get (redirects f) h of Some owner \<Rightarrow> gm_get (sites f) owner | None \<Rightarrow> None))"

lemma ResolveForServing_host:
  assumes inv: "svc_inv f" and h: "ValidateHandle h = None" and n: "n = BranchPublished \<or> validateBranchName n = None"
    and d: "\<forall>c \<in> set d. \<not> is_space c" and dd: "n = BranchPublished \<longrightarrow> \<not> contains d ''--''"
    and s: "named_site f h = Some s" "gm_get (sites f) i = Some s" "is_live s" and b: "gm_get (branches s) n = Some b"
  shows "ResolveForServing f (previewSubdomain h n @ ''.'' @ d) =
    Inr \<lparr> sv_SiteID = i, sv_Handle = sr_Handle (rec s), sv_Branch = n, sv_Root = [], sv_HeadSHA = sha (last b) \<rparr>"
proof -
  have hr: "ValidateHandleForResolver h = None" using ValidateHandle_resolver [OF h] .
  have pub: "\<not> contains (previewSubdomain h n @ ''.'' @ d) doubleHyphen" if "n = BranchPublished"
    using that dd site_names.handle_label [OF hr] contains_around [of "CHR ''.''" "''--''" h d]
    by (simp add: previewSubdomain_def doubleHyphen_def host_label_def)
  have vb: "(if n \<noteq> BranchPublished then validateBranchName n else None) = None" using n by auto
  have t: "tip b = Some (last b)" using svc_branch_tip [OF inv s(2) b] by blast
  have i: "sr_ID (rec s) = i" using svc_site [OF inv s(2)] by blast
  have target: "(case live_by_handle f (go_lower h) of Some s \<Rightarrow> Some s
      | None \<Rightarrow> (case gm_get (redirects f) (go_lower h) of Some owner \<Rightarrow> gm_get (sites f) owner | None \<Rightarrow> None)) = Some s"
    unfolding handle_lower [OF h] using s(1) by (simp only: named_site_def)
  have live: "sr_DeletedAt (rec s) = None" using s(3) by (simp add: is_live_def)
  show ?thesis
  proof (cases "n = BranchPublished")
    case True
    show ?thesis unfolding ResolveForServing_def parse_preview_host [OF hr n d] Let_def
      using True pub [OF True] hr live b t i by (simp only: target sum.case prod.case simp_thms if_False option.case)
  next
    case False
    then show ?thesis unfolding ResolveForServing_def parse_preview_host [OF hr n d] Let_def
      using hr vb live b t i by (simp only: target sum.case prod.case simp_thms if_False if_True option.case)
  qed
qed

lemma named_site_live: "svc_inv f \<Longrightarrow> gm_get (sites f) i = Some s \<Longrightarrow> is_live s \<Longrightarrow> named_site f (sr_Handle (rec s)) = Some s"
  by (simp add: named_site_def live_by_handle_eq)

lemma named_site_redirect:
  "svc_inv f \<Longrightarrow> gm_get (redirects f) h = Some i \<Longrightarrow> named_site f h = gm_get (sites f) i"
  using redirect_unlisted [of f h i] by (simp add: named_site_def)

section \<open>Properties: names and redirects\<close>

text \<open>
  A preview host leads back to its branch. For a live site and any of its branches that
  can be addressed, the host label the service hands out for the pair, under any domain and
  port, resolves to that site, that branch and the tip of the branch. For the published
  branch this needs a domain without a double hyphen.
\<close>

theorem preview_host_resolves:
  assumes "reachable f" and "gm_get (sites f) i = Some s" and "is_live s" and "branch_log f i n = Some b"
    and "n = BranchPublished \<and> \<not> contains d ''--'' \<or> n \<noteq> BranchPublished \<and> validateBranchName n = None"
    and "\<forall>c \<in> set d. \<not> is_space c"
  shows "ResolveForServing f (previewSubdomain (sr_Handle (rec s)) n @ ''.'' @ d) =
    Inr \<lparr> sv_SiteID = i, sv_Handle = sr_Handle (rec s), sv_Branch = n, sv_Root = [], sv_HeadSHA = sha (last b) \<rparr>"
proof -
  note inv = reachable_inv [OF assms(1)]
  have "gm_get (branches s) n = Some b" using assms(2,4) by (simp add: branch_log_def)
  moreover have "ValidateHandle (sr_Handle (rec s)) = None" using svc_site [OF inv assms(2)] site_ok_handle by blast
  ultimately show ?thesis
    using assms(5,6) by (intro ResolveForServing_host [OF inv _ _ _ _ named_site_live [OF inv assms(2,3)] assms(2,3)]) auto
qed

theorem preview_host_resolves_witness:
  "map_sum id sv_SiteID (ResolveForServing example_written ''shop--draft.kotoji.example:8443'') = Inr ''s1''"
proof -
  have view: "map_option (\<lambda>s. (sr_DeletedAt (rec s), sr_Handle (rec s))) (gm_get (sites example_written) ''s1'') = Some (None, ''shop'')"
    and b: "branch_log example_written ''s1'' BranchDraft \<noteq> None"
    and n: "BranchDraft \<noteq> BranchPublished" "validateBranchName BranchDraft = None"
    and d: "\<forall>c \<in> set ''kotoji.example:8443''. \<not> is_space c"
    and l: "previewSubdomain ''shop'' BranchDraft @ ''.'' @ ''kotoji.example:8443'' = ''shop--draft.kotoji.example:8443''"
    by code_simp+
  from view obtain s where s: "gm_get (sites example_written) ''s1'' = Some s" "is_live s" "sr_Handle (rec s) = ''shop''"
    by (auto simp: is_live_def)
  from b obtain c where "branch_log example_written ''s1'' BranchDraft = Some c" by blast
  from preview_host_resolves [OF example_written_reachable s(1,2) this _ d] n s(3) l show ?thesis by simp
qed

text \<open>
  The refusal of the published branch by name looks at the whole host. A site is not
  reachable by its bare label, the address of its published branch, when the domain itself
  contains a double hyphen, as every internationalised domain name does; whatever the state,
  the answer is a validation error.
\<close>

theorem published_host_hyphen_domain:
  assumes "ValidateHandle h = None" and "\<forall>c \<in> set d. \<not> is_space c" and "contains d ''--''"
  shows "ResolveForServing f (previewSubdomain h BranchPublished @ ''.'' @ d) =
    Inl (ValidationError ''branch'' ''published is not addressable via --'')"
proof -
  have hr: "ValidateHandleForResolver h = None" using ValidateHandle_resolver [OF assms(1)] .
  have "contains (previewSubdomain h BranchPublished @ ''.'' @ d) doubleHyphen"
    using assms(3) contains_around [of "CHR ''.''" "''--''"] by (simp add: doubleHyphen_def)
  then show ?thesis
    unfolding ResolveForServing_def parse_preview_host [OF hr disjI1 [OF refl] assms(2)]
    by (simp only: sum.case prod.case simp_thms if_True)
qed

theorem published_host_hyphen_domain_witness:
  "ResolveForServing example_written ''shop.xn--kotoji.example'' =
     Inl (ValidationError ''branch'' ''published is not addressable via --'')"
proof -
  have h: "ValidateHandle ''shop'' = None" and d: "\<forall>c \<in> set ''xn--kotoji.example''. \<not> is_space c"
    and c: "contains ''xn--kotoji.example'' ''--''"
    and l: "previewSubdomain ''shop'' BranchPublished @ ''.'' @ ''xn--kotoji.example'' = ''shop.xn--kotoji.example''"
    by code_simp+
  show ?thesis using published_host_hyphen_domain [OF h d c] unfolding l .
qed

end
