(* ===== verification/Site_Lifecycle.thy ===== *)
theory Site_Lifecycle
  imports Site_Serving
begin

text \<open>
  Renaming, deleting and branching sites, the paging of the log, diffs against a missing
  target, and the atomicity of every operation of the in-memory service.
\<close>

lemma result_ok: "\<not> isl (snd r) \<Longrightarrow> \<exists>f' x. r = (f', Inr x)"
  by (cases r; cases "snd r") auto

section \<open>Renaming\<close>

lemma renamed_simps:
  "gm_get (sites (renamed f clk i s h)) j =
     (if j = i then Some (s\<lparr> rec := (rec s)\<lparr> sr_Handle := h, sr_UpdatedAt := clk 0 \<rparr> \<rparr>) else gm_get (sites f) j)"
  "redirects (renamed f clk i s h) = gm_put (sr_Handle (rec s)) i (gm_del h (redirects f))"
  by (simp_all add: renamed_def)

lemma renamed_live:
  "is_live (s\<lparr> rec := (rec s)\<lparr> sr_Handle := h, sr_UpdatedAt := t \<rparr> \<rparr>) = is_live s"
  by (simp add: is_live_def)

text \<open>
  Renaming keeps old links working. After a live site is given a new handle: the new
  handle finds it; the old one no longer does, yet every host label of the old handle still
  resolves to the same site, now under its new handle, at the tip of the same branch; no
  other site can take the old handle; and no branch of any site changes.
\<close>

theorem rename_keeps_links:
  assumes "reachable f" and "gm_get (sites f) i = Some s" and "RenameHandle f clk i h = (f', Inr x)"
    and "h \<noteq> sr_Handle (rec s)"
  shows "st_ID x = i \<and> st_Handle x = h \<and> GetSiteByHandle f' h = Inr x \<and>
    GetSiteByHandle f' (sr_Handle (rec s)) = Inl (Sentinel ErrNotFound) \<and>
    (\<forall>n b d. branch_log f i n = Some b \<longrightarrow> n \<noteq> BranchPublished \<longrightarrow> validateBranchName n = None \<longrightarrow>
       (\<forall>c \<in> set d. \<not> is_space c) \<longrightarrow>
       ResolveForServing f' (previewSubdomain (sr_Handle (rec s)) n @ ''.'' @ d) =
       Inr \<lparr> sv_SiteID = i, sv_Handle = h, sv_Branch = n, sv_Root = [], sv_HeadSHA = sha (last b) \<rparr>) \<and>
    (\<forall>clk' j inp. cs_Handle inp = sr_Handle (rec s) \<longrightarrow> gm_get (FailNext f') ''CreateSite'' = None \<longrightarrow>
       CreateSite f' clk' j inp = (f', Inl (Sentinel ErrHandleTaken))) \<and>
    (\<forall>j n. branch_log f' j n = branch_log f j n)"
proof -
  note inv = reachable_inv [OF assms(1)]
  let ?old = "sr_Handle (rec s)" and ?s' = "s\<lparr> rec := (rec s)\<lparr> sr_Handle := h, sr_UpdatedAt := clk 0 \<rparr> \<rparr>"
  have ok: "ValidateHandle h = None" "is_live s" "f' = renamed f clk i s h"
      "x = toSite ((rec s)\<lparr> sr_Handle := h, sr_UpdatedAt := clk 0 \<rparr>)"
    using assms(2-4) unfolding RenameHandle_ok by auto
  have inv': "svc_inv f'" using RenameHandle_inv [OF inv, of clk i h] assms(3) by simp
  have s': "gm_get (sites f') i = Some ?s'" "is_live ?s'" using ok(2,3) renamed_simps(1) renamed_live by auto
  have r: "gm_get (redirects f') ?old = Some i" using ok(3) by (simp add: renamed_simps(2))
  have oldv: "ValidateHandle ?old = None" using svc_site [OF inv assms(2)] site_ok_handle by blast
  have dead: "live_by_handle f' ?old = None" using redirect_unlisted [OF inv' r] by blast
  have "st_ID x = i \<and> st_Handle x = h" using ok(4) svc_site [OF inv assms(2)] by (simp add: toSite_def Let_def)
  moreover have "GetSiteByHandle f' h = Inr x" using GetSiteByHandle_live [OF inv' s'] ok(4) by simp
  moreover have "GetSiteByHandle f' ?old = Inl (Sentinel ErrNotFound)"
    using dead handle_lower [OF oldv] by (simp add: GetSiteByHandle_none)
  moreover have "ResolveForServing f' (previewSubdomain ?old n @ ''.'' @ d) =
       Inr \<lparr> sv_SiteID = i, sv_Handle = h, sv_Branch = n, sv_Root = [], sv_HeadSHA = sha (last b) \<rparr>"
    if "branch_log f i n = Some b" "n \<noteq> BranchPublished" "validateBranchName n = None" "\<forall>c \<in> set d. \<not> is_space c" for n b d
  proof -
    have "gm_get (branches ?s') n = Some b" using that(1) assms(2) by (simp add: branch_log_def)
    moreover have "named_site f' ?old = Some ?s'" using named_site_redirect [OF inv' r] s'(1) by simp
    ultimately show ?thesis using ResolveForServing_host [OF inv' oldv _ that(4) _ _ s'] that(2,3) by simp
  qed
  moreover have "CreateSite f' clk' j inp = (f', Inl (Sentinel ErrHandleTaken))"
    if "cs_Handle inp = ?old" "gm_get (FailNext f') ''CreateSite'' = None" for clk' j inp
    using that oldv dead r handle_lower [OF oldv] by (simp add: CreateSite_def failOnce_def)
  moreover have "branch_log f' j n = branch_log f j n" for j n
    using RenameHandle_log [of f clk i h] assms(3) by simp
  ultimately show ?thesis by blast
qed

theorem rename_keeps_links_witness:
  "\<exists>f' x. RenameHandle example_written (\<lambda>_. 3) ''s1'' ''store'' = (f', Inr x) \<and> GetSiteByHandle f' ''store'' = Inr x \<and>
     GetSiteByHandle f' ''shop'' = Inl (Sentinel ErrNotFound)"
proof -
  have ok: "\<not> isl (snd (RenameHandle example_written (\<lambda>_. 3) ''s1'' ''store''))"
    and h: "map_option (\<lambda>s. sr_Handle (rec s)) (gm_get (sites example_written) ''s1'') = Some ''shop''" by code_simp+
  obtain f' x where r: "RenameHandle example_written (\<lambda>_. 3) ''s1'' ''store'' = (f', Inr x)"
    using result_ok [OF ok] by blast
  from h obtain s where s: "gm_get (sites example_written) ''s1'' = Some s" "sr_Handle (rec s) = ''shop''" by auto
  then have "''store'' \<noteq> sr_Handle (rec s)" by simp
  from rename_keeps_links [OF example_written_reachable s(1) r this] r s(2) show ?thesis by auto
qed

section \<open>Deleting a site\<close>

text \<open>
  Deleting a site frees its handle at once. After the deletion the site is gone for
  every read and every write, and a new site may be created under the very same handle in
  the next call.
\<close>

theorem delete_frees_handle:
  assumes "reachable f" and "gm_get (sites f) i = Some s" and "DeleteSite f clk i actor = (f', Inr ())"
    and "gm_get (FailNext f) ''CreateSite'' = None"
  shows "GetSite f' i = Inl (Sentinel ErrNotFound) \<and>
    GetSiteByHandle f' (sr_Handle (rec s)) = Inl (Sentinel ErrNotFound) \<and>
    (\<forall>n p. read_content f' i n p = None) \<and>
    (\<forall>inp clk'. wf_SiteID inp = i \<longrightarrow> (\<exists>e. WriteFile f' clk' inp = (f', Inl e))) \<and>
    (\<forall>inp clk' j. cs_Handle inp = sr_Handle (rec s) \<longrightarrow> cs_Zip inp = None \<longrightarrow>
       (\<exists>f'' x. CreateSite f' clk' j inp = (f'', Inr x)))"
proof -
  note inv = reachable_inv [OF assms(1)]
  define s' where "s' = s\<lparr> rec := (rec s)\<lparr> sr_DeletedAt := Some (clk 0), sr_UpdatedAt := clk 0 \<rparr> \<rparr>"
  have live: "is_live s" using assms(2,3) by (auto simp: DeleteSite_def liveSite_def is_live_def split: if_splits)
  have f': "f' = put_site f i s'"
    using assms(2,3) live by (simp add: DeleteSite_def liveSite_def is_live_def s'_def)
  have inv': "svc_inv f'" using DeleteSite_inv [OF inv, of clk i actor] assms(3) by simp
  have wf': "gm_wf (sites f')" using inv' by (simp add: svc_inv_def)
  have get: "gm_get (sites f') j = (if j = i then Some s' else gm_get (sites f) j)" for j by (simp add: f')
  have gone: "liveSite f' i = Inl (Sentinel ErrNotFound)" by (simp add: f' liveSite_def s'_def)
  have v: "ValidateHandle (sr_Handle (rec s)) = None" using svc_site [OF inv assms(2)] site_ok_handle by blast
  have free: "live_by_handle f' (sr_Handle (rec s)) = None"
  proof -
    have "\<not> (is_live t \<and> sr_Handle (rec t) = sr_Handle (rec s))" if "(j, t) \<in> set (sites f')" for j t
    proof (cases "j = i")
      case True
      then have "t = s'" using gm_in_get [OF wf' that] get by simp
      then show ?thesis by (simp add: is_live_def s'_def)
    next
      case False
      then have "gm_get (sites f) j = Some t" using gm_in_get [OF wf' that] get by simp
      then show ?thesis using False inv assms(2) live unfolding svc_inv_def by blast
    qed
    then show ?thesis by (auto simp: live_by_handle_None)
  qed
  have nored: "gm_get (redirects f') (sr_Handle (rec s)) = None"
  proof (rule ccontr)
    assume "gm_get (redirects f') (sr_Handle (rec s)) \<noteq> None"
    then obtain j where "gm_get (redirects f) (sr_Handle (rec s)) = Some j" by (auto simp: f')
    then show False using inv assms(2) live unfolding svc_inv_def by blast
  qed
  have "GetSite f' i = Inl (Sentinel ErrNotFound)" using gone by (simp add: GetSite_def)
  moreover have "GetSiteByHandle f' (sr_Handle (rec s)) = Inl (Sentinel ErrNotFound)"
    using free handle_lower [OF v] by (simp add: GetSiteByHandle_none)
  moreover have "read_content f' i n p = None" for n p
    using gone by (simp add: read_content_def ReadFile_def split: option.splits)
  moreover have "\<exists>e. WriteFile f' clk' inp = (f', Inl e)" if "wf_SiteID inp = i" for inp clk'
    using that gone by (auto simp: WriteFile_def split: option.splits)
  moreover have "\<exists>f'' x. CreateSite f' clk' j inp = (f'', Inr x)" if "cs_Handle inp = sr_Handle (rec s)" "cs_Zip inp = None" for inp clk' j
    using that v free nored handle_lower [OF v] assms(4)
    by (simp add: CreateSite_def failOnce_def f' seed_tree_def commit_eq Let_def)
  ultimately show ?thesis by blast
qed

theorem delete_frees_handle_witness:
  "\<exists>f' f'' x. DeleteSite example_written (\<lambda>_. 3) ''s1'' example_actor = (f', Inr ()) \<and>
     CreateSite f' (\<lambda>_. 4) ''s2'' example_site = (f'', Inr x)"
proof -
  have ok: "\<not> isl (snd (DeleteSite example_written (\<lambda>_. 3) ''s1'' example_actor))"
    and h: "map_option (\<lambda>s. sr_Handle (rec s)) (gm_get (sites example_written) ''s1'') = Some ''shop''"
    and n: "gm_get (FailNext example_written) ''CreateSite'' = None" by code_simp+
  obtain f' where r: "DeleteSite example_written (\<lambda>_. 3) ''s1'' example_actor = (f', Inr ())"
    using result_ok [OF ok] by auto
  from h obtain s where s: "gm_get (sites example_written) ''s1'' = Some s" "sr_Handle (rec s) = ''shop''" by auto
  have "cs_Handle example_site = ''shop''" "cs_Zip example_site = None" by (simp_all add: example_site_def)
  with s(2) delete_frees_handle [OF example_written_reachable s(1) r n, THEN conjunct2, THEN conjunct2, THEN conjunct2,
      THEN conjunct2, rule_format, of example_site "\<lambda>_. 4" "''s2''"] r show ?thesis by auto
qed

section \<open>Branching\<close>

text \<open>
  A new branch starts as an exact copy of the branch it is made from (the draft when
  none is named), under the name asked for, and nothing else changes; it can then be written
  without touching the original, and deleting it gives back every log as it was.
\<close>

theorem create_branch_copies:
  assumes "reachable f" and "CreateBranch f i n from = (f', Inr x)"
  shows "\<exists>b. branch_log f i (if from = [] then BranchDraft else from) = Some b \<and> branch_log f i n = None \<and>
    branch_log f' i n = Some b \<and> br_HeadSHA x = sha (last b) \<and> validateBranchName n = None \<and>
    (\<forall>j m. (j, m) \<noteq> (i, n) \<longrightarrow> branch_log f' j m = branch_log f j m) \<and>
    (\<exists>f''. DeleteBranch f' i n = (f'', Inr ()) \<and> (\<forall>j m. branch_log f'' j m = branch_log f j m))"
proof -
  note inv = reachable_inv [OF assms(1)]
  from CreateBranch_ok [OF inv assms(2)] obtain s b where
    h: "validateBranchName n = None" "n \<noteq> BranchPublished" "n \<noteq> BranchDraft" "gm_get (sites f) i = Some s" "is_live s"
      "gm_get (branches s) n = None" "gm_get (branches s) (if from = [] then BranchDraft else from) = Some b"
      "f' = put_site f i (put_branch s n b)" "br_HeadSHA x = sha (last b)" by blast
  let ?f'' = "put_site f' i ((put_branch s n b)\<lparr> branches := gm_del n (branches (put_branch s n b)) \<rparr>)"
  have log': "branch_log f' j m = (if (j, m) = (i, n) then Some b else branch_log f j m)" for j m
    using h(4,8) by (auto simp: branch_log_put) (simp add: branch_log_def)
  have live: "liveSite f' i = Inr (put_branch s n b)" using h(5,8) by (simp add: liveSite_Inr)
  then have "DeleteBranch f' i n = (?f'', Inr ())" using h(2,3) by (simp add: DeleteBranch_def)
  moreover have "branch_log ?f'' j m = branch_log f j m" for j m
  proof -
    have "branch_log ?f'' j m = (if j = i then if m = n then None else gm_get (branches s) m else branch_log f j m)"
      by (simp add: branch_log_put h(8))
    then show ?thesis using h(4,6) by (simp add: branch_log_def)
  qed
  moreover have "branch_log f i (if from = [] then BranchDraft else from) = Some b" "branch_log f i n = None"
    using h(4,6,7) by (simp_all add: branch_log_def)
  ultimately show ?thesis using log' h(1,9) by auto
qed

theorem create_branch_copies_witness:
  "\<exists>f' x b. CreateBranch example_written ''s1'' ''feat'' [] = (f', Inr x) \<and>
     branch_log example_written ''s1'' BranchDraft = Some b \<and> branch_log f' ''s1'' ''feat'' = Some b"
proof -
  have ok: "\<not> isl (snd (CreateBranch example_written ''s1'' ''feat'' []))" by code_simp
  obtain f' x where r: "CreateBranch example_written ''s1'' ''feat'' [] = (f', Inr x)" using result_ok [OF ok] by blast
  from create_branch_copies [OF example_written_reachable r] r show ?thesis by auto
qed

section \<open>The log\<close>

lemma drop_to_cursor:
  "distinct (map g cs) \<Longrightarrow> j < length cs \<Longrightarrow> dropWhile (\<lambda>c. g c \<noteq> g (cs ! j)) cs = drop j cs"
proof (induction cs arbitrary: j)
  case (Cons c cs)
  then show ?case by (cases j) (auto simp: nth_Cons image_iff)
qed simp

lemma after_cursor_nth:
  assumes "distinct (map sha cs)" and "j < length cs" and "sha (cs ! j) \<noteq> []"
  shows "after_cursor cs (sha (cs ! j)) = drop (Suc j) cs"
proof -
  have "list_ex (\<lambda>c. sha c = sha (cs ! j)) cs" using assms(2) by (auto simp: list_ex_iff)
  then show ?thesis using assms(3) drop_to_cursor [OF assms(1,2)]
    by (simp add: after_cursor_def drop_Suc drop_drop tl_drop)
qed

lemma svc_sha_nonempty:
  assumes "svc_inv f" and "branch_log f i n = Some b" and "c \<in> set b"
  shows "sha c \<noteq> []"
proof -
  obtain s where "gm_get (sites f) i = Some s" "gm_get (branches s) n = Some b"
    using assms(2) by (auto simp: branch_log_def split: option.splits)
  from svc_branch_wf [OF assms(1) this] show ?thesis using assms(3) hex40_nonempty by (auto simp: branch_ok_def)
qed

text \<open>
  Paging through the log. The page of size k after the j-th newest commit is the next k
  commits in newest-first order; so asking for the first page and then for the page after
  the last commit seen walks the whole history of the branch, each commit once.
\<close>

theorem log_pages:
  assumes "reachable f" and "gm_get (sites f) i = Some s" and "is_live s" and "branch_log f i n = Some b"
    and "0 < k" and "k \<le> 500" and "j \<le> length b"
  shows "GetLog f \<lparr> lo_SiteID = i, lo_Branch = n, lo_Limit = int k,
      lo_Before = (if j = 0 then [] else sha (rev b ! (j - 1))), lo_Path = [] \<rparr> =
    Inr (take k (drop j (map toCommitInfo (rev b))))"
proof -
  note inv = reachable_inv [OF assms(1)]
  have live: "liveSite f i = Inr s" and b: "gm_get (branches s) n = Some b"
    using assms(2-4) by (simp_all add: liveSite_Inr branch_log_def)
  have cur: "after_cursor (rev b) (if j = 0 then [] else sha (rev b ! (j - 1))) = drop j (rev b)"
  proof (cases j)
    case 0
    then show ?thesis by (simp add: after_cursor_def)
  next
    case (Suc m)
    have "distinct (map sha (rev b))" using branch_log_distinct [OF inv assms(4)] by (simp add: rev_map [symmetric])
    moreover have "m < length (rev b)" using Suc assms(7) by simp
    moreover have "sha (rev b ! m) \<noteq> []"
      using svc_sha_nonempty [OF inv assms(4)] nth_mem [OF \<open>m < length (rev b)\<close>] by simp
    ultimately show ?thesis using Suc after_cursor_nth by simp
  qed
  show ?thesis unfolding GetLog_def using live b assms(5,6) cur
    by (simp add: defaultLogLimit_def defaultMaxLogLimit_def drop_map take_map)
qed

theorem log_pages_witness:
  "\<exists>b. branch_log example_written ''s1'' BranchDraft = Some b \<and>
     GetLog example_written \<lparr> lo_SiteID = ''s1'', lo_Branch = BranchDraft, lo_Limit = 1, lo_Before = sha (rev b ! 0), lo_Path = [] \<rparr> =
       Inr (take 1 (drop 1 (map toCommitInfo (rev b))))"
proof -
  have view: "map_option (\<lambda>s. sr_DeletedAt (rec s)) (gm_get (sites example_written) ''s1'') = Some None"
    and l: "map_option length (branch_log example_written ''s1'' BranchDraft) = Some (Suc (Suc 0))" by code_simp+
  from view obtain s where s: "gm_get (sites example_written) ''s1'' = Some s" "is_live s" by (auto simp: is_live_def)
  from l obtain b where b: "branch_log example_written ''s1'' BranchDraft = Some b" "length b = 2" by auto
  from log_pages [OF example_written_reachable s b(1), of 1 1] b show ?thesis by simp
qed

lemma find_index_distinct:
  assumes "distinct (map g b)" and "k < length b"
  shows "find (\<lambda>i. g (b ! i) = g (b ! k)) [0..<length b] = Some k"
proof -
  have uniq: "g (b ! i) = g (b ! k) \<longleftrightarrow> i = k" if "i < length b" for i
    using assms that by (simp add: distinct_conv_nth) (metis length_map nth_map)
  show ?thesis unfolding find_Some_iff using assms(2) uniq by (intro exI [of _ k]) auto
qed

text \<open>
  The log of one path lists a commit of the branch exactly when the commit changed the
  path against its predecessor in the branch: it wrote other bytes, created the file or
  removed it.
\<close>

theorem log_path_filter:
  assumes "reachable f" and "gm_get (sites f) i = Some s" and "is_live s" and "branch_log f i n = Some b"
    and "length b \<le> 500" and "p \<noteq> []" and "k < length b"
  shows "\<exists>out. GetLog f \<lparr> lo_SiteID = i, lo_Branch = n, lo_Limit = 500, lo_Before = [], lo_Path = p \<rparr> = Inr out \<and>
    (toCommitInfo (b ! k) \<in> set out \<longleftrightarrow>
       gm_get (snapshot (b ! k)) p \<noteq> (if k = 0 then None else gm_get (snapshot (b ! (k - 1))) p))"
proof -
  note inv = reachable_inv [OF assms(1)]
  have live: "liveSite f i = Inr s" and b: "gm_get (branches s) n = Some b"
    using assms(2-4) by (simp_all add: liveSite_Inr branch_log_def)
  have d: "distinct (map sha b)" using branch_log_distinct [OF inv assms(4)] .
  let ?hit = "\<lambda>c. commitTouchedPath b (sha c) p"
  have out: "GetLog f \<lparr> lo_SiteID = i, lo_Branch = n, lo_Limit = 500, lo_Before = [], lo_Path = p \<rparr> =
      Inr (map toCommitInfo (filter ?hit (rev b)))"
  proof -
    have "length (filter ?hit (rev b)) \<le> 500" using length_filter_le [of ?hit "rev b"] assms(5) by simp
    then show ?thesis unfolding GetLog_def using live b assms(6)
      by (simp add: defaultLogLimit_def defaultMaxLogLimit_def after_cursor_def)
  qed
  have inj: "c = b ! k" if "c \<in> set b" "toCommitInfo c = toCommitInfo (b ! k)" for c
    using that d assms(7) by (auto simp: toCommitInfo_def distinct_map inj_on_def)
  have "toCommitInfo (b ! k) \<in> set (map toCommitInfo (filter ?hit (rev b))) \<longleftrightarrow> ?hit (b ! k)"
  proof
    assume "toCommitInfo (b ! k) \<in> set (map toCommitInfo (filter ?hit (rev b)))"
    then obtain c where "c \<in> set b" "?hit c" "toCommitInfo c = toCommitInfo (b ! k)" by auto
    then show "?hit (b ! k)" using inj by blast
  qed (use assms(7) in auto)
  also have "?hit (b ! k) \<longleftrightarrow> gm_get (snapshot (b ! k)) p \<noteq> (if k = 0 then None else gm_get (snapshot (b ! (k - 1))) p)"
    by (simp add: commitTouchedPath_def find_index_distinct [OF d assms(7)] Let_def)
  finally show ?thesis using out by simp
qed

theorem log_path_filter_witness:
  "\<exists>b out. branch_log example_written ''s1'' BranchDraft = Some b \<and>
     GetLog example_written \<lparr> lo_SiteID = ''s1'', lo_Branch = BranchDraft, lo_Limit = 500, lo_Before = [], lo_Path = ''a.html'' \<rparr> = Inr out \<and>
     toCommitInfo (b ! 1) \<in> set out"
proof -
  have view: "map_option (\<lambda>s. sr_DeletedAt (rec s)) (gm_get (sites example_written) ''s1'') = Some None"
    and l: "map_option (map (\<lambda>c. gm_get (snapshot c) ''a.html'')) (branch_log example_written ''s1'' BranchDraft) = Some [None, Some ''hi'']"
    by code_simp+
  from view obtain s where s: "gm_get (sites example_written) ''s1'' = Some s" "is_live s" by (auto simp: is_live_def)
  from l obtain c1 c2 where b: "branch_log example_written ''s1'' BranchDraft = Some [c1, c2]"
    and c: "gm_get (snapshot c1) ''a.html'' = None" "gm_get (snapshot c2) ''a.html'' = Some ''hi''"
    by (auto simp: map_eq_Cons_conv)
  from log_path_filter [OF example_written_reachable s b, of "''a.html''" 1] c b show ?thesis by auto
qed

section \<open>Diffs\<close>

lemma resolveAnyRef_wf:
  assumes inv: "svc_inv f" and s: "gm_get (sites f) i = Some s" and c: "resolveAnyRef s ref = Some c"
  shows "gm_wf (snapshot c)"
proof -
  obtain n b where nb: "gm_get (branches s) n = Some b" "c \<in> set b"
  proof (cases "gm_get (branches s) ref")
    case None
    then have "c \<in> set (concat (map snd (branches s)))"
      using c find_SomeD [of "\<lambda>c. sha c = ref" "concat (map snd (branches s))" c] by (simp add: resolveAnyRef_def)
    then obtain n b where "(n, b) \<in> set (branches s)" "c \<in> set b" by auto
    moreover have "gm_wf (branches s)" using svc_site [OF inv s] by (simp add: site_ok_def)
    ultimately show ?thesis using that gm_in_get by metis
  next
    case (Some b)
    then show ?thesis using that c by (auto simp: resolveAnyRef_def tip_def split: if_splits)
  qed
  then show ?thesis using svc_branch_wf [OF inv s nb(1)] by (auto simp: branch_ok_def)
qed

text \<open>
  The diff between two revisions is exact: each in-scope path at which the trees differ
  is reported once per status, with the right one. Against a target that does not exist, such
  as the published branch of a site never published, the diff is the one against the empty
  tree, in which every file of the source is reported as deleted.
\<close>

theorem diff_reports:
  assumes "reachable f" and "gm_get (sites f) (do_SiteID inp) = Some s" and "is_live s"
    and "resolveAnyRef s (do_From inp) = Some c" and "do_To inp \<noteq> []"
  shows "\<exists>r. GetDiff f inp = Inr r \<and> dr_FromSHA r = sha c \<and>
    (case resolveAnyRef s (do_To inp) of
       Some c' \<Rightarrow> dr_ToSHA r = sha c' \<and>
         (\<forall>p st. (\<exists>d \<in> set (dr_Files r). fd_Path d = p \<and> fd_Status d = st) \<longleftrightarrow>
           (do_Path inp = [] \<or> p = do_Path inp) \<and>
           (case (gm_get (snapshot c) p, gm_get (snapshot c') p) of
              (None, Some _) \<Rightarrow> st = ''added''
            | (Some x, Some y) \<Rightarrow> x \<noteq> y \<and> st = ''modified''
            | (Some _, None) \<Rightarrow> st = ''deleted''
            | (None, None) \<Rightarrow> False))
     | None \<Rightarrow> dr_ToSHA r = emptyTreeSHA \<and>
         (\<forall>p st. (\<exists>d \<in> set (dr_Files r). fd_Path d = p \<and> fd_Status d = st) \<longleftrightarrow>
           (do_Path inp = [] \<or> p = do_Path inp) \<and> gm_get (snapshot c) p \<noteq> None \<and> st = ''deleted''))"
proof -
  note inv = reachable_inv [OF assms(1)]
  note wf = resolveAnyRef_wf [OF inv assms(2)]
  have live: "liveSite f (do_SiteID inp) = Inr s" using assms(2,3) by (simp add: liveSite_Inr)
  show ?thesis
  proof (cases "resolveAnyRef s (do_To inp)")
    case None
    have "gm_wf ([] :: tree)" by (simp add: gm_wf_def)
    from diffTrees_set [OF wf [OF assms(4)] this] None live assms(4,5) show ?thesis
      by (auto simp: GetDiff_def split: option.splits)
  next
    case (Some c')
    from diffTrees_set [OF wf [OF assms(4)] wf [OF Some]] Some live assms(4,5) show ?thesis
      by (simp add: GetDiff_def)
  qed
qed

theorem diff_reports_witness:
  "\<exists>r d. GetDiff example_written \<lparr> do_SiteID = ''s1'', do_From = BranchDraft, do_To = BranchPublished, do_Path = [],
       do_ContextLines = 0, do_NameStatus = False \<rparr> = Inr r \<and> d \<in> set (dr_Files r) \<and>
     fd_Path d = ''a.html'' \<and> fd_Status d = ''deleted''"
proof -
  let ?inp = "\<lparr> do_SiteID = ''s1'', do_From = BranchDraft, do_To = BranchPublished, do_Path = [],
       do_ContextLines = 0, do_NameStatus = False \<rparr>"
  have view: "map_option (\<lambda>s. (sr_DeletedAt (rec s), map_option (\<lambda>c. gm_get (snapshot c) ''a.html'') (resolveAnyRef s BranchDraft),
      resolveAnyRef s BranchPublished)) (gm_get (sites example_written) ''s1'') = Some (None, Some (Some ''hi''), None)"
    and n: "BranchPublished \<noteq> []" by code_simp+
  from view obtain s c where s: "gm_get (sites example_written) (do_SiteID ?inp) = Some s" "is_live s"
      "resolveAnyRef s (do_From ?inp) = Some c" "resolveAnyRef s (do_To ?inp) = None" "gm_get (snapshot c) ''a.html'' = Some ''hi''"
    by (auto simp: is_live_def)
  have to: "do_To ?inp \<noteq> []" "do_Path ?inp = []" using n by simp_all
  from diff_reports [OF example_written_reachable s(1-3) to(1), unfolded s(4) option.case]
  obtain r where r: "GetDiff example_written ?inp = Inr r \<and> dr_FromSHA r = sha c \<and> dr_ToSHA r = emptyTreeSHA \<and>
      (\<forall>p st. (\<exists>d \<in> set (dr_Files r). fd_Path d = p \<and> fd_Status d = st) \<longleftrightarrow>
         (do_Path ?inp = [] \<or> p = do_Path ?inp) \<and> gm_get (snapshot c) p \<noteq> None \<and> st = ''deleted'')" by (rule exE)
  have "\<exists>d \<in> set (dr_Files r). fd_Path d = ''a.html'' \<and> fd_Status d = ''deleted''"
    using r [THEN conjunct2, THEN conjunct2, THEN conjunct2, rule_format, of "''a.html''" "''deleted''"] s(5) to(2) by simp
  then show ?thesis using r [THEN conjunct1] by blast
qed

section \<open>Atomicity\<close>

text \<open>
  C40: An operation that returns an error has changed nothing: no site, no branch, no
  redirect and no sequence number, for every state-changing operation of the service.
\<close>

theorem errors_change_nothing:
  "(CreateSite f clk i cs = (f', Inl e) \<longrightarrow> sites f' = sites f \<and> redirects f' = redirects f \<and> seq f' = seq f) \<and>
   (RenameHandle f clk i h = (f', Inl e) \<longrightarrow> f' = f) \<and>
   (DeleteSite f clk i actor = (f', Inl e) \<longrightarrow> f' = f) \<and>
   (CreateBranch f i n from = (f', Inl e) \<longrightarrow> f' = f) \<and>
   (DeleteBranch f i n = (f', Inl e) \<longrightarrow> f' = f) \<and>
   (WriteFile f clk wr = (f', Inl e) \<longrightarrow> f' = f) \<and>
   (DeleteFile f clk i n p base actor = (f', Inl e) \<longrightarrow> f' = f) \<and>
   (ImportZip f clk i n arch base actor = (f', Inl e) \<longrightarrow> f' = f) \<and>
   (Publish f clk pu = (f', Inl e) \<longrightarrow> f' = f) \<and>
   (Rollback f clk i n t base actor = (f', Inl e) \<longrightarrow> f' = f) \<and>
   (SetRemote f i url = (f', Inl e) \<longrightarrow> f' = f) \<and>
   (MirrorPush f i = (f', Inl e) \<longrightarrow> sites f' = sites f \<and> redirects f' = redirects f \<and> seq f' = seq f)"
proof (intro conjI impI)
  show "DeleteSite f clk i actor = (f', Inl e) \<Longrightarrow> f' = f" by (auto simp: DeleteSite_def split: sum.splits)
  show "SetRemote f i url = (f', Inl e) \<Longrightarrow> f' = f" by (auto simp: SetRemote_def split: sum.splits)
qed (use CreateSite_Inl [of f clk i cs f' e] RenameHandle_Inl [of f clk i h f' e] CreateBranch_Inl [of f i n "from" f' e]
      DeleteBranch_Inl [of f i n f' e] writers_refuse [where f = f and f' = f' and e = e] Publish_Inl [of f clk pu f' e]
      MirrorPush_state [of f i] in auto)

theorem errors_change_nothing_witness:
  "fst (WriteFile example_written (\<lambda>_. 5) example_write) = example_written"
proof -
  have "isl (snd (WriteFile example_written (\<lambda>_. 5) example_write))" by code_simp
  then obtain e where "WriteFile example_written (\<lambda>_. 5) example_write =
      (fst (WriteFile example_written (\<lambda>_. 5) example_write), Inl e)"
    by (metis isl_def prod.collapse)
  then show ?thesis using errors_change_nothing by blast
qed

end
