(* ===== verification/Site_Refinement.thy ===== *)
theory Site_Refinement
  imports Site_Lifecycle
begin

text \<open>
  The in-memory service refines a plain versioned store: per site and branch, the list of
  the trees the branch has held. The store knows nothing of commits, hashes, actors, times,
  handles or redirects; it says what each operation does to the contents. The service is
  shown to simulate it, operation by operation and then for whole runs, with the refinement
  mapping \<open>abs_store\<close>, and what a client reads is what the store holds last.
\<close>

section \<open>Forward simulation\<close>

fun run :: "('c \<Rightarrow> 'op \<Rightarrow> 'c) \<Rightarrow> 'c \<Rightarrow> 'op list \<Rightarrow> 'c" where
  "run f c [] = c"
| "run f c (x # xs) = run f (f c x) xs"

text \<open>A run whose every operation is enabled when its turn comes, and the operations of it that succeed.\<close>

fun enabled_run :: "('c \<Rightarrow> 'op \<Rightarrow> bool) \<Rightarrow> ('c \<Rightarrow> 'op \<Rightarrow> 'c) \<Rightarrow> 'c \<Rightarrow> 'op list \<Rightarrow> bool" where
  "enabled_run en f c [] = True"
| "enabled_run en f c (x # xs) = (en c x \<and> enabled_run en f (f c x) xs)"

fun accepted :: "('c \<Rightarrow> 'op \<Rightarrow> bool) \<Rightarrow> ('c \<Rightarrow> 'op \<Rightarrow> 'c) \<Rightarrow> 'c \<Rightarrow> 'op list \<Rightarrow> 'op list" where
  "accepted ok f c [] = []"
| "accepted ok f c (x # xs) = (if ok c x then x # accepted ok f (f c x) xs else accepted ok f (f c x) xs)"

inductive steps :: "('a \<Rightarrow> 'op \<Rightarrow> 'a \<Rightarrow> bool) \<Rightarrow> 'a \<Rightarrow> 'op list \<Rightarrow> 'a \<Rightarrow> bool" for st where
  steps_Nil: "steps st a [] a"
| steps_Cons: "st a x b \<Longrightarrow> steps st b xs c \<Longrightarrow> steps st a (x # xs) c"

locale forward_simulation =
  fixes conc :: "'c \<Rightarrow> 'op \<Rightarrow> 'c" and enabled :: "'c \<Rightarrow> 'op \<Rightarrow> bool" and ok :: "'c \<Rightarrow> 'op \<Rightarrow> bool"
    and inv :: "'c \<Rightarrow> bool" and abs :: "'c \<Rightarrow> 'a" and spec :: "'a \<Rightarrow> 'op \<Rightarrow> 'a \<Rightarrow> bool"
  assumes inv_step: "inv c \<Longrightarrow> enabled c x \<Longrightarrow> inv (conc c x)"
    and ok_step: "inv c \<Longrightarrow> enabled c x \<Longrightarrow> ok c x \<Longrightarrow> spec (abs c) x (abs (conc c x))"
    and refused_step: "inv c \<Longrightarrow> enabled c x \<Longrightarrow> \<not> ok c x \<Longrightarrow> abs (conc c x) = abs c"
begin

lemma run_inv: "inv c \<Longrightarrow> enabled_run enabled conc c xs \<Longrightarrow> inv (run conc c xs)"
  by (induction xs arbitrary: c) (simp_all add: inv_step)

lemma run_simulated:
  "inv c \<Longrightarrow> enabled_run enabled conc c xs \<Longrightarrow> steps spec (abs c) (accepted ok conc c xs) (abs (run conc c xs))"
proof (induction xs arbitrary: c)
  case Nil
  then show ?case by (simp add: steps_Nil)
next
  case (Cons x xs)
  have rest: "steps spec (abs (conc c x)) (accepted ok conc (conc c x) xs) (abs (run conc (conc c x) xs))"
    using Cons by (simp add: inv_step)
  show ?case
    using Cons.prems rest refused_step [of c x] ok_step [of c x] by (auto intro: steps_Cons)
qed

end

section \<open>The versioned store\<close>

type_synonym vtree = "string \<rightharpoonup> string"
type_synonym vstore = "uuid \<Rightarrow> branch_name \<Rightarrow> vtree list option"

definition set_log :: "vstore \<Rightarrow> uuid \<Rightarrow> branch_name \<Rightarrow> vtree list \<Rightarrow> vstore" where
  "set_log v i n l = v(i := (v i)(n \<mapsto> l))"

definition history :: "fakeBranch \<Rightarrow> vtree list" where
  "history b = map (\<lambda>c. gm_get (snapshot c)) b"

definition abs_store :: "FakeService \<Rightarrow> vstore" where
  "abs_store f i =
     (case gm_get (sites f) i of
        Some s \<Rightarrow> if is_live s then (\<lambda>n. map_option history (gm_get (branches s) n)) else Map.empty
      | None \<Rightarrow> Map.empty)"

text \<open>What each successful operation does to the store.\<close>

inductive vstep :: "vstore \<Rightarrow> svc_op \<Rightarrow> vstore \<Rightarrow> bool" where
  v_create: "v i = Map.empty \<Longrightarrow> seed_tree inp = Inr t \<Longrightarrow>
    vstep v (OpCreateSite clk i inp) (v(i := [BranchDraft \<mapsto> [gm_get t]]))"
| v_rename: "v i BranchDraft \<noteq> None \<Longrightarrow> vstep v (OpRenameHandle clk i h) v"
| v_delete: "v i BranchDraft \<noteq> None \<Longrightarrow> vstep v (OpDeleteSite clk i a) (v(i := Map.empty))"
| v_branch: "n \<noteq> BranchPublished \<Longrightarrow> v i n = None \<Longrightarrow> v i (if src = [] then BranchDraft else src) = Some l \<Longrightarrow>
    vstep v (OpCreateBranch i n src) (set_log v i n l)"
| v_drop: "n \<noteq> BranchPublished \<Longrightarrow> n \<noteq> BranchDraft \<Longrightarrow> v i BranchDraft \<noteq> None \<Longrightarrow>
    vstep v (OpDeleteBranch i n) (v(i := (v i)(n := None)))"
| v_write: "n \<noteq> BranchPublished \<Longrightarrow> v i n = Some l \<Longrightarrow> l \<noteq> [] \<Longrightarrow> wf_SiteID inp = i \<Longrightarrow> wf_Branch inp = n \<Longrightarrow>
    vstep v (OpWriteFile clk inp) (set_log v i n (l @ [(last l)(wf_Path inp \<mapsto> wf_Content inp)]))"
| v_remove: "n \<noteq> BranchPublished \<Longrightarrow> v i n = Some l \<Longrightarrow> l \<noteq> [] \<Longrightarrow> p \<in> dom (last l) \<Longrightarrow>
    vstep v (OpDeleteFile clk i n p b a) (set_log v i n (l @ [(last l)(p := None)]))"
| v_import: "n \<noteq> BranchPublished \<Longrightarrow> v i n = Some l \<or> v i n = None \<and> l = [] \<Longrightarrow> v i BranchDraft \<noteq> None \<Longrightarrow>
    readZip arch = Inr es \<Longrightarrow>
    vstep v (OpImportZip clk i n arch b a) (set_log v i n (l @ [gm_get (tree_of_entries es)]))"
| v_restore: "n \<noteq> BranchPublished \<Longrightarrow> v i n = Some l \<Longrightarrow> k < length l \<Longrightarrow>
    vstep v (OpRollback clk i n t b a) (set_log v i n (l @ [l ! k]))"
| v_first: "v i BranchPublished = None \<Longrightarrow> v i (publish_from inp) = Some l \<Longrightarrow> l \<noteq> [] \<Longrightarrow> pu_SiteID inp = i \<Longrightarrow>
    vstep v (OpPublish clk inp) (set_log v i BranchPublished l)"
| v_forward: "v i BranchPublished = Some (take k l) \<Longrightarrow> 0 < k \<Longrightarrow> v i (publish_from inp) = Some l \<Longrightarrow>
    pu_SiteID inp = i \<Longrightarrow> vstep v (OpPublish clk inp) (set_log v i BranchPublished l)"
| v_merge: "v i BranchPublished = Some pl \<Longrightarrow> pl \<noteq> [] \<Longrightarrow> v i (publish_from inp) = Some l \<Longrightarrow> l \<noteq> [] \<Longrightarrow>
    pu_SiteID inp = i \<Longrightarrow> vstep v (OpPublish clk inp) (set_log v i BranchPublished (pl @ [last pl ++ last l]))"
| v_remote: "vstep v (OpSetRemote i u) v"
| v_mirror: "vstep v (OpMirrorPush i) v"
| v_inject: "vstep v (OpFailNext m e) v"

text \<open>Whether an operation of the service succeeds.\<close>

fun svc_ok :: "FakeService \<Rightarrow> svc_op \<Rightarrow> bool" where
  "svc_ok f (OpCreateSite clk i inp) = (\<not> isl (snd (CreateSite f clk i inp)))"
| "svc_ok f (OpRenameHandle clk i h) = (\<not> isl (snd (RenameHandle f clk i h)))"
| "svc_ok f (OpDeleteSite clk i a) = (\<not> isl (snd (DeleteSite f clk i a)))"
| "svc_ok f (OpCreateBranch i n src) = (\<not> isl (snd (CreateBranch f i n src)))"
| "svc_ok f (OpDeleteBranch i n) = (\<not> isl (snd (DeleteBranch f i n)))"
| "svc_ok f (OpWriteFile clk inp) = (\<not> isl (snd (WriteFile f clk inp)))"
| "svc_ok f (OpDeleteFile clk i n p b a) = (\<not> isl (snd (DeleteFile f clk i n p b a)))"
| "svc_ok f (OpImportZip clk i n z b a) = (\<not> isl (snd (ImportZip f clk i n z b a)))"
| "svc_ok f (OpPublish clk inp) = (\<not> isl (snd (Publish f clk inp)))"
| "svc_ok f (OpRollback clk i n t b a) = (\<not> isl (snd (Rollback f clk i n t b a)))"
| "svc_ok f (OpSetRemote i u) = (\<not> isl (snd (SetRemote f i u)))"
| "svc_ok f (OpMirrorPush i) = (\<not> isl (snd (MirrorPush f i)))"
| "svc_ok f (OpFailNext m e) = True"

section \<open>The refinement mapping\<close>

lemma gm_get_fun: "gm_get (gm_put k v m) = (gm_get m)(k \<mapsto> v)" "gm_get (gm_del k m) = (gm_get m)(k := None)"
  "gm_get [(k, v)] = [k \<mapsto> v]"
  by (auto simp: fun_eq_iff) (simp_all add: gm_get_def)

lemma history_simps [simp]: "history [] = []" "history (b @ [c]) = history b @ [gm_get (snapshot c)]"
  "length (history b) = length b" "history b = [] \<longleftrightarrow> b = []"
  by (simp_all add: history_def)

lemma history_last: "b \<noteq> [] \<Longrightarrow> last (history b) = gm_get (snapshot (last b))"
  by (simp add: history_def last_map)

lemma history_take: "history (take k b) = take k (history b)"
  by (simp add: history_def take_map)

lemma history_tip: "b \<noteq> [] \<Longrightarrow> gm_get (tip_tree b) = last (history b)"
  by (simp add: history_last tip_tree_def tip_def)

lemma abs_cong: "sites f' = sites f \<Longrightarrow> abs_store f' = abs_store f"
  by (rule ext) (simp add: abs_store_def)

lemma abs_live: "gm_get (sites f) i = Some s \<Longrightarrow> is_live s \<Longrightarrow> abs_store f i n = map_option history (gm_get (branches s) n)"
  by (simp add: abs_store_def)

lemma abs_put:
  "abs_store (put_site f i s) =
     (abs_store f)(i := if is_live s then (\<lambda>n. map_option history (gm_get (branches s) n)) else Map.empty)"
  by (rule ext) (simp add: abs_store_def)

lemma abs_seq [simp]: "abs_store (f\<lparr> seq := k \<rparr>) = abs_store f"
  by (rule abs_cong) simp

text \<open>Two updates of a live site: its record, and one of its logs.\<close>

lemma abs_put_same:
  assumes "gm_get (sites f) i = Some s" "is_live s" "is_live s'" "branches s' = branches s"
  shows "abs_store (put_site f i s') = abs_store f"
  using assms by (auto simp: abs_put fun_eq_iff abs_live)

lemma abs_put_log:
  assumes "gm_get (sites f) i = Some s" "is_live s" "is_live s'" "branches s' = gm_put n b (branches s)"
  shows "abs_store (put_site (f\<lparr> seq := k \<rparr>) i s') = set_log (abs_store f) i n (history b)"
  using assms by (auto simp: abs_put fun_eq_iff abs_live set_log_def)

lemma abs_commit_on:
  assumes "gm_get (sites f) i = Some s" "is_live s" "commit_on f clk i s n b t a msg = (f', r)"
  shows "abs_store f' = set_log (abs_store f) i n (history b @ [gm_get t])"
proof -
  have "f' = put_site (f\<lparr> seq := Suc (seq f) \<rparr>) i (touch (put_branch s n (b @ [new_commit f b t a msg (clk 0)])) (clk 1))"
    using assms(3) by (simp add: commit_on_eq)
  then show ?thesis using assms(1,2) by (simp add: abs_put_log [where s = s])
qed

lemma abs_draft: "svc_inv f \<Longrightarrow> gm_get (sites f) i = Some s \<Longrightarrow> is_live s \<Longrightarrow> abs_store f i BranchDraft \<noteq> None"
  using svc_site [of f i s] by (simp add: abs_live site_ok_def)

section \<open>Every operation refines its step\<close>

lemma sim_create:
  assumes "gm_get (sites f) i = None" and "CreateSite f clk i inp = (f', Inr x)"
  shows "vstep (abs_store f) (OpCreateSite clk i inp) (abs_store f')"
proof -
  from CreateSite_Inr [OF assms(2)] obtain t where t: "seed_tree inp = Inr t" and f': "f' = put_site (f\<lparr> seq := Suc (seq f) \<rparr>) i
      \<lparr> rec = new_record inp i (clk 0), branches = [(BranchDraft, [new_commit f [] t (cs_Actor inp) (seed_message inp) (clk 1)])],
        remote = cs_GitHubRepo inp \<rparr>" by blast
  have "abs_store f' = (abs_store f)(i := [BranchDraft \<mapsto> [gm_get t]])"
    by (auto simp: f' abs_put is_live_def fun_eq_iff history_def gm_get_fun)
  then show ?thesis using v_create [of "abs_store f" i inp t clk] t assms(1) by (simp add: abs_store_def)
qed

lemma sim_rename:
  assumes "svc_inv f" and "RenameHandle f clk i h = (f', Inr x)"
  shows "vstep (abs_store f) (OpRenameHandle clk i h) (abs_store f')"
proof -
  from assms(2) obtain s where s: "gm_get (sites f) i = Some s" "is_live s" and f': "f' = f \<or> f' = renamed f clk i s h"
    unfolding RenameHandle_ok by blast
  have "abs_store (renamed f clk i s h) = abs_store f"
    unfolding renamed_def using abs_put_same [of "f\<lparr>redirects := r\<rparr>" i s for r] s
    by (simp add: is_live_def abs_cong [of "f\<lparr>redirects := r\<rparr>" f for r])
  then show ?thesis using f' v_rename [of "abs_store f"] abs_draft [OF assms(1) s] by auto
qed

lemma sim_delete:
  assumes "svc_inv f" and "DeleteSite f clk i a = (f', Inr x)"
  shows "vstep (abs_store f) (OpDeleteSite clk i a) (abs_store f')"
proof -
  from assms(2) obtain s where s: "gm_get (sites f) i = Some s" "is_live s" and
    f': "f' = put_site f i (s\<lparr> rec := (rec s)\<lparr> sr_DeletedAt := Some (clk 0), sr_UpdatedAt := clk 0 \<rparr> \<rparr>)"
    by (auto simp: DeleteSite_def liveSite_Inr split: sum.splits)
  have "abs_store f' = (abs_store f)(i := Map.empty)" by (simp add: f' abs_put is_live_def)
  then show ?thesis using v_delete [of "abs_store f"] abs_draft [OF assms(1) s] by auto
qed

lemma sim_branch:
  assumes "svc_inv f" and "CreateBranch f i n src = (f', Inr x)"
  shows "vstep (abs_store f) (OpCreateBranch i n src) (abs_store f')"
proof -
  from CreateBranch_ok [OF assms] obtain s b where s: "gm_get (sites f) i = Some s" "is_live s"
      and b: "gm_get (branches s) n = None" "gm_get (branches s) (if src = [] then BranchDraft else src) = Some b"
      and f': "f' = put_site f i (put_branch s n b)" and n: "n \<noteq> BranchPublished" by blast
  have "abs_store f' = set_log (abs_store f) i n (history b)"
    using abs_put_log [OF s, of "put_branch s n b" n b "seq f"] s(2) by (simp add: f')
  then show ?thesis using v_branch [of n "abs_store f" i src "history b"] n b by (simp add: abs_live [OF s])
qed

lemma sim_drop:
  assumes "svc_inv f" and "DeleteBranch f i n = (f', Inr x)"
  shows "vstep (abs_store f) (OpDeleteBranch i n) (abs_store f')"
proof -
  from DeleteBranch_ok [of f i n f'] assms(2) obtain s where s: "gm_get (sites f) i = Some s" "is_live s"
      and f': "f' = put_site f i (s\<lparr> branches := gm_del n (branches s) \<rparr>)"
      and n: "n \<noteq> BranchPublished" "n \<noteq> BranchDraft" by auto
  have "abs_store f' = (abs_store f)(i := (abs_store f i)(n := None))"
    using s(2) by (auto simp: f' abs_put is_live_def fun_eq_iff abs_live [OF s])
  then show ?thesis using v_drop [OF n, of "abs_store f" i] abs_draft [OF assms(1) s] by simp
qed

lemma sim_write:
  assumes "svc_inv f" and "WriteFile f clk inp = (f', Inr x)"
  shows "vstep (abs_store f) (OpWriteFile clk inp) (abs_store f')"
proof -
  let ?i = "wf_SiteID inp" and ?n = "wf_Branch inp"
  from assms(2) obtain s b msg where n: "?n \<noteq> BranchPublished" and s: "gm_get (sites f) ?i = Some s" "is_live s"
      and b: "gm_get (branches s) ?n = Some b"
      and c: "commit_on f clk ?i s ?n b (gm_put (wf_Path inp) (wf_Content inp) (tip_tree b)) (wf_Actor inp) msg = (f', Inr x)"
    unfolding WriteFile_ok by blast
  have ne: "b \<noteq> []" using svc_branch_tip [OF assms(1) s(1) b] by simp
  have "abs_store f' = set_log (abs_store f) ?i ?n (history b @ [(last (history b))(wf_Path inp \<mapsto> wf_Content inp)])"
    unfolding abs_commit_on [OF s c] history_tip [OF ne, symmetric] gm_get_fun by (rule refl)
  then show ?thesis
    using v_write [OF n, of "abs_store f" ?i "history b" inp clk] ne b by (simp add: abs_live [OF s])
qed

lemma sim_remove:
  assumes "svc_inv f" and "DeleteFile f clk i n p base a = (f', Inr x)"
  shows "vstep (abs_store f) (OpDeleteFile clk i n p base a) (abs_store f')"
proof -
  from assms(2) obtain s b msg where n: "n \<noteq> BranchPublished" and s: "gm_get (sites f) i = Some s" "is_live s"
      and b: "gm_get (branches s) n = Some b" and p: "gm_get (tip_tree b) p \<noteq> None"
      and c: "commit_on f clk i s n b (gm_del p (tip_tree b)) a msg = (f', Inr x)"
    unfolding DeleteFile_ok by blast
  have ne: "b \<noteq> []" using svc_branch_tip [OF assms(1) s(1) b] by simp
  have "abs_store f' = set_log (abs_store f) i n (history b @ [(last (history b))(p := None)])"
    unfolding abs_commit_on [OF s c] history_tip [OF ne, symmetric] gm_get_fun by (rule refl)
  moreover have "p \<in> dom (last (history b))" using p by (simp add: history_tip [OF ne] domIff)
  ultimately show ?thesis
    using v_remove [OF n, of "abs_store f" i "history b" p] ne b by (simp add: abs_live [OF s])
qed

lemma sim_import:
  assumes "svc_inv f" and "ImportZip f clk i n arch base a = (f', Inr x)"
  shows "vstep (abs_store f) (OpImportZip clk i n arch base a) (abs_store f')"
proof -
  from ImportZip_ok [OF assms(2)] obtain s b es msg where n: "n \<noteq> BranchPublished" and es: "readZip arch = Inr es"
      and s: "gm_get (sites f) i = Some s" "is_live s"
      and b: "gm_get (branches s) n = Some b \<or> gm_get (branches s) n = None \<and> b = []"
      and c: "commit_on f clk i s n b (tree_of_entries es) a msg = (f', Inr x)" by blast
  show ?thesis unfolding abs_commit_on [OF s c]
    by (rule v_import [OF n]) (use b es abs_draft [OF assms(1) s] in \<open>auto simp: abs_live [OF s]\<close>)
qed

lemma sim_restore:
  assumes "svc_inv f" and "Rollback f clk i n t base a = (f', Inr x)"
  shows "vstep (abs_store f) (OpRollback clk i n t base a) (abs_store f')"
proof -
  from assms(2) obtain s b target msg where n: "n \<noteq> BranchPublished" and s: "gm_get (sites f) i = Some s" "is_live s"
      and b: "gm_get (branches s) n = Some b" and t: "find_commit b t = Some target"
      and c: "commit_on f clk i s n b (snapshot target) a msg = (f', Inr x)"
    unfolding Rollback_ok by blast
  obtain k where k: "k < length b" "b ! k = target" using find_commit_in [OF t] by (auto simp: in_set_conv_nth)
  then have "gm_get (snapshot target) = history b ! k" by (simp add: history_def)
  then show ?thesis unfolding abs_commit_on [OF s c]
    using v_restore [OF n, of "abs_store f" i "history b" k] k b by (simp add: abs_live [OF s])
qed

lemma sim_publish:
  assumes "svc_inv f" and "Publish f clk inp = (f', Inr ci)"
  shows "vstep (abs_store f) (OpPublish clk inp) (abs_store f')"
  using assms
proof (cases rule: Publish_ok)
  case (1 s src)
  let ?i = "pu_SiteID inp" and ?v = "abs_store f"
  note s = 1(3,4)
  have ok: "site_ok (seq f) s" using svc_site [OF assms(1) s(1)] by simp
  have src: "src \<noteq> []" "gm_wf (snapshot (last src))"
    using svc_branch_wf [OF assms(1) s(1) 1(5)] by (auto simp: branch_ok_def)
  have vsrc: "?v ?i (publish_from inp) = Some (history src)" using 1(5) by (simp add: abs_live [OF s])
  have vpub: "?v ?i BranchPublished = map_option history (gm_get (branches s) BranchPublished)" by (simp add: abs_live [OF s])
  have ff: "abs_store (fast_forward f clk ?i s src) = set_log ?v ?i BranchPublished (history src)"
    using abs_put_log [OF s, of "setPublished (put_branch s BranchPublished src) (last src) (clk 0)" BranchPublished src "seq f"] s(2)
    by (simp add: fast_forward_def)
  have forward: "\<exists>k. history pub = take k (history src) \<and> 0 < k"
    if "gm_get (branches s) BranchPublished = Some pub" "pub \<noteq> []" "sha (last pub) \<in> shas src" for pub
    using coh_tip_prefix [OF site_branch(2) [OF ok that(1) 1(5)] that(2,3)] by (metis history_take)
  have advance: "vstep ?v (OpPublish clk inp) (set_log ?v ?i BranchPublished (history src))"
    if "gm_get (branches s) BranchPublished = Some pub" "pub \<noteq> []" "sha (last pub) \<in> shas src" for pub
    using forward [OF that] v_forward [where v = ?v and i = ?i and l = "history src"] vsrc vpub that(1) by fastforce
  from 1(7) show ?thesis
  proof (elim disjE exE conjE)
    assume "gm_get (branches s) BranchPublished = None" "f' = fast_forward f clk ?i s src"
    then show ?thesis using v_first [of ?v ?i inp "history src" clk] ff vsrc vpub src by simp
  next
    fix pub assume pub: "gm_get (branches s) BranchPublished = Some pub" "pub \<noteq> []"
      and eq: "sha (last pub) = sha (last src)" and f': "f' = f"
    have "pub = src" using coh_same_tip [OF site_branch(2) [OF ok pub(1) 1(5)] pub(2) src(1) eq] .
    then have "set_log ?v ?i BranchPublished (history src) = ?v"
      using pub vpub by (auto simp: set_log_def fun_eq_iff)
    then show ?thesis using advance [OF pub] src eq f' by (simp add: shas_def)
  next
    fix pub assume "gm_get (branches s) BranchPublished = Some pub" "pub \<noteq> []" "sha (last pub) \<in> shas src"
      "f' = fast_forward f clk ?i s src"
    then show ?thesis using advance ff by simp
  next
    fix pub assume pub: "gm_get (branches s) BranchPublished = Some pub" "pub \<noteq> []"
      and f': "f' = put_site (f\<lparr> seq := Suc (seq f) \<rparr>) ?i
         (setPublished (put_branch s BranchPublished (pub @ [merge_commit f clk inp pub src])) (merge_commit f clk inp pub src) (clk 1))"
    have "abs_store f' = set_log ?v ?i BranchPublished (history pub @ [gm_get (mergeTrees (snapshot (last pub)) (snapshot (last src)))])"
      unfolding f' using s(2)
      by (subst abs_put_log [OF s, where n = BranchPublished and b = "pub @ [merge_commit f clk inp pub src]"]) simp_all
    moreover have "gm_get (mergeTrees (snapshot (last pub)) (snapshot (last src))) = last (history pub) ++ last (history src)"
      using src pub by (simp add: fun_eq_iff mergeTrees_get history_last map_add_def)
    ultimately show ?thesis using v_merge [of ?v ?i "history pub" inp "history src" clk] pub src vsrc vpub by simp
  qed
qed

lemma sim_step:
  assumes "svc_inv f" and "svc_enabled f x" and "svc_ok f x"
  shows "vstep (abs_store f) x (abs_store (svc_apply f x))"
proof (cases x)
  case (OpSetRemote i u)
  then obtain s where s: "gm_get (sites f) i = Some s" "is_live s"
    and f': "svc_apply f x = put_site f i (s\<lparr> remote := u, rec := (rec s)\<lparr> sr_GitHubRepo := emptyToNil u \<rparr> \<rparr>)"
    using assms(3) by (auto simp: SetRemote_def liveSite_Inr split: sum.splits)
  have "abs_store (svc_apply f x) = abs_store f"
    unfolding f' using s(2) by (intro abs_put_same [OF s]) (simp_all add: is_live_def)
  then show ?thesis using OpSetRemote by (simp add: v_remote)
next
  case (OpMirrorPush i)
  then show ?thesis using abs_cong [OF MirrorPush_state(1)] by (simp add: v_mirror)
next
  case (OpFailNext m e)
  then show ?thesis using abs_cong [of "svc_apply f x" f] by (simp add: v_inject)
qed (use assms in \<open>auto dest!: result_ok intro: sim_create sim_rename sim_delete sim_branch sim_drop sim_write
       sim_remove sim_import sim_publish sim_restore\<close>)

lemma result_refused: "isl (snd r) \<Longrightarrow> \<exists>f' e. r = (f', Inl e)"
  by (cases r) (auto simp: isl_def)

lemma refused_same:
  assumes "\<not> svc_ok f x"
  shows "sites (svc_apply f x) = sites f"
proof (cases x)
  case (OpDeleteSite clk i a)
  then show ?thesis using assms by (auto simp: DeleteSite_def split: sum.splits)
next
  case (OpSetRemote i u)
  then show ?thesis using assms by (auto simp: SetRemote_def split: sum.splits)
qed (use assms MirrorPush_state(1) in \<open>auto dest!: result_refused dest: CreateSite_Inl RenameHandle_Inl CreateBranch_Inl
       DeleteBranch_Inl writers_refuse Publish_Inl\<close>)

interpretation store: forward_simulation svc_apply svc_enabled svc_ok svc_inv abs_store vstep
  by unfold_locales (auto simp: svc_inv_apply sim_step refused_same intro: abs_cong)

lemma read_abs:
  assumes "svc_inv f"
  shows "read_content f i n p =
    (case abs_store f i n of None \<Rightarrow> None | Some l \<Rightarrow> if validateReadPath p = None then last l p else None)"
proof -
  have "gm_get (tip_tree b) = last (history b)" if "gm_get (sites f) i = Some s" "gm_get (branches s) n = Some b" for s b
    using svc_branch_tip [OF assms that] by (simp add: history_tip)
  then show ?thesis by (auto simp: read_content_iff [OF assms] abs_store_def split: option.splits)
qed

section \<open>Properties\<close>

text \<open>
  C5: The service is a versioned store. Take any run of operations from a reachable state, with
  fresh identifiers for new sites. The trees the branches hold afterwards are reached in the
  versioned store by performing exactly the operations that the service accepted, in their
  order: a write appends the last tree with one path set, a delete with one path removed, an
  import the unpacked archive, a rollback an earlier tree; a publish makes the published log
  the source's or appends the source's tree laid over the published one; a refused operation
  leaves no trace. And what a reader gets is the last tree of the branch.
\<close>

theorem service_refines_store:
  assumes "reachable f" and "enabled_run svc_enabled svc_apply f ops"
  shows "steps vstep (abs_store f) (accepted svc_ok svc_apply f ops) (abs_store (run svc_apply f ops)) \<and>
    (\<forall>i n p. read_content (run svc_apply f ops) i n p =
       (case abs_store (run svc_apply f ops) i n of
          None \<Rightarrow> None
        | Some l \<Rightarrow> if validateReadPath p = None then last l p else None))"
  using store.run_simulated [OF reachable_inv [OF assms(1)] assms(2)]
    read_abs [OF store.run_inv [OF reachable_inv [OF assms(1)] assms(2)]] by blast

definition example_ops :: "svc_op list" where
  "example_ops =
     [OpCreateSite (\<lambda>_. 0) ''s1'' example_site, OpWriteFile (\<lambda>_. 1) example_write,
      OpWriteFile (\<lambda>_. 2) example_write, OpPublish (\<lambda>_. 3) (example_publish (hex40 2))]"

theorem service_refines_store_witness:
  "accepted svc_ok svc_apply NewFakeService example_ops =
     [OpCreateSite (\<lambda>_. 0) ''s1'' example_site, OpWriteFile (\<lambda>_. 1) example_write,
      OpPublish (\<lambda>_. 3) (example_publish (hex40 2))] \<and>
   steps vstep (\<lambda>_. Map.empty) (accepted svc_ok svc_apply NewFakeService example_ops)
     (abs_store (run svc_apply NewFakeService example_ops))"
proof -
  have en: "enabled_run svc_enabled svc_apply NewFakeService example_ops"
    by (simp add: example_ops_def NewFakeService_def gm_get_def)
  have ok: "svc_ok NewFakeService (example_ops ! 0)" by code_simp
  have ok1: "svc_ok (run svc_apply NewFakeService (take 1 example_ops)) (example_ops ! 1)" by code_simp
  have ok2: "\<not> svc_ok (run svc_apply NewFakeService (take 2 example_ops)) (example_ops ! 2)" by code_simp
  have ok3: "svc_ok (run svc_apply NewFakeService (take 3 example_ops)) (example_ops ! 3)" by code_simp
  have init: "abs_store NewFakeService = (\<lambda>_. Map.empty)" by (simp add: fun_eq_iff abs_store_def NewFakeService_def gm_get_def)
  show ?thesis
    using service_refines_store [OF reachable.init en] ok ok1 ok2 ok3 init
    by (simp add: example_ops_def)
qed

end
