(* ===== verification/Go_Http.thy ===== *)
theory Go_Http
  imports Kotoji_Prelude
begin

text \<open>
  The part of \<open>net/http\<close> the modelled handlers read and write: a request as the server
  hands it over and a response as the handler leaves it. Headers are a table from the
  canonical header name to the list of values, as in \<open>http.Header\<close>.
\<close>

record http_request =
  req_method :: string
  req_host :: string
  url_host :: string
  url_path :: string
  raw_query :: string
  remote_addr :: string
  req_header :: "string \<Rightarrow> string list"
  req_cookies :: "(string \<times> string) list"

record http_response =
  resp_status :: nat
  resp_header :: "string \<rightharpoonup> string"
  resp_body :: string

text \<open>A cookie set on the response; one without a \<open>Domain\<close> attribute is bound to the host.\<close>

datatype same_site = SameSiteDefaultMode | SameSiteLaxMode | SameSiteStrictMode | SameSiteNoneMode

record set_cookie =
  sc_Name :: string
  sc_Value :: string
  sc_Path :: string
  sc_MaxAge :: int
  sc_Secure :: bool
  sc_HttpOnly :: bool
  sc_SameSite :: same_site

text \<open>\<open>Header.Get\<close>: the first value, or the empty string.\<close>

definition header_get :: "http_request \<Rightarrow> string \<Rightarrow> string" where
  "header_get r k = (case req_header r k of [] \<Rightarrow> [] | v # _ \<Rightarrow> v)"

text \<open>\<open>Request.Cookie\<close>: the first cookie of that name, or \<open>ErrNoCookie\<close>.\<close>

definition cookie :: "http_request \<Rightarrow> string \<Rightarrow> string option" where
  "cookie r k = map_of (req_cookies r) k"

text \<open>
  \<open>net.SplitHostPort\<close>: the host of \<open>host:port\<close> or \<open>[host]:port\<close>; \<open>None\<close> is one of its
  address errors.
\<close>

definition split_host_port :: "string \<Rightarrow> (string \<times> string) option" where
  "split_host_port hp =
     (case last_index_byte hp CHR '':'' of
        None \<Rightarrow> None
      | Some i \<Rightarrow>
          let port = drop (i + 1) hp in
          if has_prefix hp ''['' then
            (case index_byte hp CHR '']'' of
               None \<Rightarrow> None
             | Some e \<Rightarrow>
                 if e + 1 \<noteq> i then None
                 else if CHR ''['' \<in> set (drop 1 hp) \<or> CHR '']'' \<in> set (drop (e + 1) hp) then None
                 else Some (drop 1 (take e hp), port))
          else
            let host = take i hp in
            if CHR '':'' \<in> set host then None
            else if CHR ''['' \<in> set hp \<or> CHR '']'' \<in> set hp then None
            else Some (host, port))"

text \<open>A bare GET request, the starting point of concrete examples.\<close>

definition get_request :: "string \<Rightarrow> string \<Rightarrow> http_request" where
  "get_request h p =
     \<lparr> req_method = ''GET'', req_host = h, url_host = [], url_path = p, raw_query = [],
       remote_addr = ''127.0.0.1:1'', req_header = (\<lambda>_. []), req_cookies = [] \<rparr>"

lemma header_get_update [simp]:
  "header_get (r\<lparr>req_host := h\<rparr>) k = header_get r k"
  "header_get (r\<lparr>url_host := h\<rparr>) k = header_get r k"
  by (simp_all add: header_get_def)

end
