(* ===== verification/Resolver.thy ===== *)
theory Resolver
  imports Handle_Grammar Go_Http
begin

text \<open>
  The host resolver (\<open>backend/internal/resolve/resolver.go\<close>): the mapping of a request to
  the control plane, to a (handle, branch) pair, or to an HTTP error.

  \<open>HandleValidator\<close> and \<open>BranchValidator\<close> are the interface types of the source; the
  resolver is a function of the two validators, and its correctness is proved once in the
  locale \<open>host_validators\<close> and interpreted on the built-in validators and on the
  validators of package \<open>site\<close>.
\<close>

section \<open>Definitions\<close>

datatype source = SourceUnknown | SourceHost | SourcePath

definition source_String :: "source \<Rightarrow> string" where
  "source_String s =
     (case s of SourceHost \<Rightarrow> ''host'' | SourcePath \<Rightarrow> ''path'' | _ \<Rightarrow> ''unknown'')"

record target =
  Handle :: string
  Branch :: string
  IsPreview :: bool
  IsControl :: bool
  Source :: source
  PathPrefix :: string

record resolve_error =
  Status :: nat
  Code :: string
  Msg :: string

definition ResolveError :: "nat \<Rightarrow> string \<Rightarrow> string \<Rightarrow> resolve_error" where
  "ResolveError st code msg = \<lparr> Status = st, Code = code, Msg = msg \<rparr>"

definition resolve_error_text :: "resolve_error \<Rightarrow> string" where
  "resolve_error_text e = Code e @ '': '' @ Msg e"

definition CodeBadHandle :: string where "CodeBadHandle = ''bad_handle''"
definition CodeBadBranch :: string where "CodeBadBranch = ''bad_branch''"
definition CodeNotProjectHost :: string where "CodeNotProjectHost = ''not_project_host''"
definition CodeMisdirected :: string where "CodeMisdirected = ''misdirected_request''"
definition CodeLabelTooLong :: string where "CodeLabelTooLong = ''label_too_long''"
definition CodeEmptyHost :: string where "CodeEmptyHost = ''empty_host''"

text \<open>
  A validator returns a Go \<open>error\<close>: nil, a \<open>*ResolveError\<close>, or any other error, of which
  only the text is observed.
\<close>

datatype validator_error = AsResolve resolve_error | OtherError string

type_synonym validator = "string \<Rightarrow> validator_error option"

record config =
  BaseDomain :: string
  ControlLabel :: string
  EnablePathFallback :: bool
  TrustForwardedHost :: bool
  BaseDomainFunc :: "(http_request \<Rightarrow> string) option"

definition reservedHandles :: "string list" where
  "reservedHandles =
     [''draft'', ''preview'', ''published'', ''www'', ''api'', ''internal'', ''host'', ''admin'',
      ''app'', ''static'', ''assets'', ''mcp'']"

definition handleMinLen :: nat where "handleMinLen = 1"
definition labelMaxLen :: nat where "labelMaxLen = 63"

definition builtin_ValidateHandle :: validator where
  "builtin_ValidateHandle h =
     (if h = [] then Some (AsResolve (ResolveError 400 CodeBadHandle ''empty handle''))
      else if h \<noteq> go_lower h then
        Some (AsResolve (ResolveError 400 CodeBadHandle ''handle must be lowercase''))
      else if length h < handleMinLen \<or> labelMaxLen < length h then
        Some (AsResolve (ResolveError 400 CodeBadHandle ''handle length out of range''))
      else if contains h ''--'' then
        Some (AsResolve (ResolveError 400 CodeBadHandle ''handle must not contain \"--\"''))
      else if \<not> label_re h then
        Some (AsResolve (ResolveError 400 CodeBadHandle ''handle has invalid characters''))
      else if h \<in> set reservedHandles then
        Some (AsResolve (ResolveError 404 CodeNotProjectHost ''reserved handle''))
      else None)"

definition builtin_ValidateBranch :: validator where
  "builtin_ValidateBranch b =
     (if b = [] then Some (AsResolve (ResolveError 400 CodeBadBranch ''empty branch''))
      else if b \<noteq> go_lower b then
        Some (AsResolve (ResolveError 400 CodeBadBranch ''branch must be lowercase''))
      else if labelMaxLen < length b then
        Some (AsResolve (ResolveError 400 CodeBadBranch ''branch too long''))
      else if contains b ''--'' then
        Some (AsResolve (ResolveError 400 CodeBadBranch ''branch must not contain \"--\"''))
      else if \<not> label_re b then
        Some (AsResolve (ResolveError 400 CodeBadBranch ''branch has invalid characters''))
      else None)"

record resolver =
  cfg :: config
  handles :: validator
  branches :: validator
  baseSuffix :: string

definition NewResolverWith :: "config \<Rightarrow> validator option \<Rightarrow> validator option \<Rightarrow> resolver" where
  "NewResolverWith c hs bs =
     (let c' = c\<lparr> BaseDomain := go_lower (trim_space (BaseDomain c)),
                  ControlLabel := go_lower (trim_space (ControlLabel c)) \<rparr>
      in \<lparr> cfg = c',
           handles = (case hs of None \<Rightarrow> builtin_ValidateHandle | Some v \<Rightarrow> v),
           branches = (case bs of None \<Rightarrow> builtin_ValidateBranch | Some v \<Rightarrow> v),
           baseSuffix = ''.'' @ BaseDomain c' \<rparr>)"

definition NewResolver :: "config \<Rightarrow> resolver" where
  "NewResolver c = NewResolverWith c (Some builtin_ValidateHandle) (Some builtin_ValidateBranch)"

definition resolve_splitLabel :: "string \<Rightarrow> string \<times> string \<times> bool" where
  "resolve_splitLabel label =
     (case str_index label ''--'' of
        Some i \<Rightarrow> (take i label, drop (i + length ''--'') label, True)
      | None \<Rightarrow> (label, ''published'', False))"

definition lowerStripPort :: "string \<Rightarrow> string" where
  "lowerStripPort h0 =
     (let host = go_lower (trim_space h0) in
      if host = [] then []
      else if has_prefix host ''['' then
        (case index_byte host CHR '']'' of Some e \<Rightarrow> take (e + 1) host | None \<Rightarrow> host)
      else (case last_index_byte host CHR '':'' of Some i \<Rightarrow> take i host | None \<Rightarrow> host))"

definition firstHostToken :: "string \<Rightarrow> string" where
  "firstHostToken v =
     trim_space (case index_byte v CHR '','' of Some i \<Rightarrow> take i v | None \<Rightarrow> v)"

definition asResolveError :: "validator_error \<Rightarrow> string \<Rightarrow> resolve_error" where
  "asResolveError err defaultCode =
     (case err of
        AsResolve re \<Rightarrow> re
      | OtherError text \<Rightarrow> ResolveError 400 defaultCode text)"

datatype host_class = hostForeign | hostControl | hostProject

definition effectiveBase :: "resolver \<Rightarrow> http_request \<Rightarrow> string \<times> string" where
  "effectiveBase d r =
     (case BaseDomainFunc (cfg d) of
        None \<Rightarrow> (BaseDomain (cfg d), baseSuffix d)
      | Some f \<Rightarrow>
          let base = go_lower (trim_space (f r)) in
          if base = [] then (BaseDomain (cfg d), baseSuffix d) else (base, ''.'' @ base))"

definition classifyHost ::
  "resolver \<Rightarrow> string \<Rightarrow> string \<Rightarrow> string \<Rightarrow> resolve_error + host_class \<times> string" where
  "classifyHost d host base sfx =
     (if host = base then
        (if ControlLabel (cfg d) = [] then Inr (hostControl, [])
         else Inl (ResolveError 404 CodeNotProjectHost
                ''bare base domain is not a project (control label required)''))
      else if \<not> has_suffix host sfx then Inr (hostForeign, [])
      else
        let label = take (length host - length sfx) host in
        if contains label ''.'' then
          Inl (ResolveError 404 CodeNotProjectHost ''nested subdomain is not a project host'')
        else if ControlLabel (cfg d) \<noteq> [] \<and> label = ControlLabel (cfg d) then Inr (hostControl, [])
        else Inr (hostProject, label))"

definition resolveProjectLabel ::
  "resolver \<Rightarrow> string \<Rightarrow> source \<Rightarrow> string \<Rightarrow> resolve_error + target" where
  "resolveProjectLabel d label src pathPrefix =
     (case resolve_splitLabel label of
        (handle, branch, isPreview) \<Rightarrow>
          (case handles d handle of
             Some err \<Rightarrow> Inl (asResolveError err CodeBadHandle)
           | None \<Rightarrow>
               let ok = Inr \<lparr> Handle = handle, Branch = branch, IsPreview = isPreview,
                              IsControl = False, Source = src, PathPrefix = pathPrefix \<rparr> in
               if isPreview then
                 if branch = ''published'' then
                   Inl (ResolveError 400 CodeBadBranch ''published is not addressable via --'')
                 else
                   (case branches d branch of
                      Some err \<Rightarrow> Inl (asResolveError err CodeBadBranch)
                    | None \<Rightarrow>
                        if labelMaxLen < length handle + length ''--'' + length branch then
                          Inl (ResolveError 400 CodeLabelTooLong
                                 ''handle--branch exceeds 63-char DNS label budget'')
                        else ok)
               else ok))"

definition effectiveHost :: "resolver \<Rightarrow> http_request \<Rightarrow> string" where
  "effectiveHost d r =
     (let xfh = header_get r ''X-Forwarded-Host'' in
      if TrustForwardedHost (cfg d) \<and> xfh \<noteq> [] then firstHostToken xfh
      else if req_host r \<noteq> [] then req_host r
      else url_host r)"

definition control_target :: target where
  "control_target = \<lparr> Handle = [], Branch = [], IsPreview = False, IsControl = True,
     Source = SourceHost, PathPrefix = [] \<rparr>"

definition Resolve :: "resolver \<Rightarrow> http_request \<Rightarrow> resolve_error + target" where
  "Resolve d r =
     (let host = lowerStripPort (effectiveHost d r) in
      if host = [] then Inl (ResolveError 400 CodeEmptyHost ''no host on request'')
      else
        (case effectiveBase d r of
           (base, sfx) \<Rightarrow>
             (case classifyHost d host base sfx of
                Inl herr \<Rightarrow> Inl herr
              | Inr (hostControl, _) \<Rightarrow> Inr control_target
              | Inr (hostProject, label) \<Rightarrow> resolveProjectLabel d label SourceHost []
              | Inr (hostForeign, _) \<Rightarrow>
                  Inl (ResolveError 421 CodeMisdirected ''host not under base domain''))))"

section \<open>The built-in validators\<close>

lemma reservedHandles_sync: "set reservedHandles = set ReservedHandles"
  by (simp add: reservedHandles_def ReservedHandles_def)

lemma builtin_handle_iff:
  "builtin_ValidateHandle h = None \<longleftrightarrow> host_label h \<and> h \<notin> set ReservedHandles"
  using label_reD [of h]
  by (cases "label_re h"; cases h)
    (auto simp: builtin_ValidateHandle_def host_label_re labelMaxLen_def handleMinLen_def reservedHandles_sync)

lemma builtin_branch_iff: "builtin_ValidateBranch b = None \<longleftrightarrow> host_label b"
  using label_reD [of b]
  by (cases "label_re b") (simp_all add: builtin_ValidateBranch_def host_label_re labelMaxLen_def)

lemma site_handle_iff:
  "ValidateHandleForResolver h = None \<longleftrightarrow> host_label h \<and> h \<notin> set ReservedHandles"
  by (cases h) (auto simp: ValidateHandleForResolver_def validateHandleLen_iff HandleResolverMinLen_def
      host_label_def)

lemma builtin_handle_status:
  "builtin_ValidateHandle h = Some e \<Longrightarrow> \<exists>re. e = AsResolve re \<and> Status re \<in> {400, 404}"
  by (simp only: builtin_ValidateHandle_def ResolveError_def split: if_splits) auto

lemma builtin_branch_status:
  "builtin_ValidateBranch b = Some e \<Longrightarrow> \<exists>re. e = AsResolve re \<and> Status re \<in> {400, 404}"
  by (simp only: builtin_ValidateBranch_def ResolveError_def split: if_splits) auto

section \<open>Pure helpers\<close>

lemma resolve_splitLabel_eq:
  "resolve_splitLabel l = (fst (splitLabel l), snd (splitLabel l), contains l ''--'')"
  by (auto simp: resolve_splitLabel_def splitLabel_def doubleHyphen_def BranchPublished_def
      contains_def split: option.splits)

lemma resolve_splitLabel_cases:
  "resolve_splitLabel l = (h, b, pv) \<Longrightarrow> l = (if pv then h @ ''--'' @ b else h) \<and> (\<not> pv \<longrightarrow> b = BranchPublished)"
  using str_index_Some [of l "''--''"]
  by (auto simp: resolve_splitLabel_def BranchPublished_def split: option.splits)

definition plain_host :: "string \<Rightarrow> bool" where
  "plain_host s \<longleftrightarrow> s \<noteq> [] \<and> (\<forall>c \<in> set s. label_char c \<or> c = CHR ''.'')"

lemma plain_host_char:
  assumes "label_char c \<or> c = CHR ''.''"
  shows "lower_char c = c" and "\<not> is_space c" and "c \<noteq> CHR '':''" and "c \<noteq> CHR ''[''" and "c \<noteq> CHR '',''"
  using assms by (auto simp: label_char_def is_alnum_lower_def lower_char_def is_space_def Let_def)

lemma plain_host_strip:
  assumes "plain_host s" and "port = [] \<or> (\<exists>n. port = CHR '':'' # show_nat n)"
  shows "lowerStripPort (s @ port) = s"
proof -
  have ps: "lower_char c = c" "\<not> is_space c" "c \<noteq> CHR '':''" if "c \<in> set s" for c
    using that assms(1) plain_host_char by (auto simp: plain_host_def)
  have pd: "lower_char c = c \<and> \<not> is_space c \<and> c \<noteq> CHR '':''" if "is_digit c" for c
    using that by (auto simp: is_digit_def lower_char_def is_space_def Let_def)
  have pp: "lower_char c = c" "\<not> is_space c" if "c \<in> set port" for c
  proof -
    have "lower_char c = c \<and> \<not> is_space c"
      using that assms(2) pd show_nat_digits by (auto simp: list_all_iff) code_simp+
    then show "lower_char c = c" "\<not> is_space c" by auto
  qed
  have n: "go_lower (trim_space (s @ port)) = s @ port"
  proof -
    have "trim_space (s @ port) = s @ port" by (rule trim_space_id) (use ps pp in auto)
    moreover have "go_lower (s @ port) = s @ port" by (rule go_lower_fixed) (use ps pp in auto)
    ultimately show ?thesis by simp
  qed
  obtain c s' where s: "s = c # s'" using assms(1) by (cases s) (auto simp: plain_host_def)
  have c: "c \<noteq> CHR ''[''" using assms(1) s plain_host_char(4) [of c] by (auto simp: plain_host_def)
  have li: "last_index_byte (s @ port) CHR '':'' = (if port = [] then None else Some (length s))"
  proof (cases "port = []")
    case True
    then show ?thesis using ps by auto
  next
    case False
    then obtain k where k: "port = CHR '':'' # show_nat k" using assms(2) by blast
    have "CHR '':'' \<notin> set (show_nat k)" using show_nat_digits [of k] pd by (auto simp: list_all_iff)
    then show ?thesis using k by (simp add: last_index_byte_append)
  qed
  show ?thesis using n s c li by (simp add: lowerStripPort_def Let_def split: if_splits)
qed

section \<open>The validator interface\<close>

text \<open>
  The contract of an injected pair of validators, as the comments on \<open>HandleValidator\<close> and
  \<open>BranchValidator\<close> give it: what is accepted is a host label and no reserved word, every
  such name is accepted, and a rejection is a 400 or a 404.
\<close>

locale host_validators =
  fixes vh :: validator and vb :: validator
  assumes vh_iff: "vh h = None \<longleftrightarrow> host_label h \<and> h \<notin> set ReservedHandles"
    and vb_iff: "vb b = None \<longleftrightarrow> host_label b"
    and vh_status: "vh h = Some e \<Longrightarrow> Status (asResolveError e code) \<in> {400, 404}"
    and vb_status: "vb b = Some e \<Longrightarrow> Status (asResolveError e code) \<in> {400, 404}"

sublocale host_validators \<subseteq> label_grammar "\<lambda>h. vh h = None" "\<lambda>b. vb b = None"
  by unfold_locales (simp_all add: vh_iff vb_iff)

context host_validators
begin

lemma project_sound:
  assumes "resolveProjectLabel d l src pp = Inr t" and "handles d = vh" and "branches d = vb"
  shows "l = previewSubdomain (Handle t) (Branch t) \<and> vh (Handle t) = None \<and> vb (Branch t) = None \<and>
    length l \<le> 63 \<and> (IsPreview t \<longleftrightarrow> Branch t \<noteq> BranchPublished) \<and> \<not> IsControl t"
proof -
  obtain h b pv where sp: "resolve_splitLabel l = (h, b, pv)" by (cases "resolve_splitLabel l") auto
  have l: "l = (if pv then h @ ''--'' @ b else h)" "\<not> pv \<longrightarrow> b = BranchPublished"
    using resolve_splitLabel_cases [OF sp] by auto
  have vh: "vh h = None" using assms sp by (auto simp: resolveProjectLabel_def Let_def split: option.splits)
  show ?thesis
  proof (cases pv)
    case True
    then show ?thesis using assms sp l vh
      by (auto simp: resolveProjectLabel_def Let_def previewSubdomain_def doubleHyphen_def
          BranchPublished_def labelMaxLen_def split: option.splits if_splits)
  next
    case False
    moreover have "vb BranchPublished = None" by (simp add: vb_iff host_label_published)
    moreover have "length h \<le> 63" using vh by (simp add: vh_iff host_label_def)
    ultimately show ?thesis using assms sp l vh
      by (auto simp: resolveProjectLabel_def Let_def previewSubdomain_def)
  qed
qed

lemma project_complete:
  assumes "handles d = vh" and "branches d = vb" and "vh h = None" and "vb b = None"
    and "length (previewSubdomain h b) \<le> 63"
  shows "resolveProjectLabel d (previewSubdomain h b) src pp =
    Inr \<lparr> Handle = h, Branch = b, IsPreview = (b \<noteq> BranchPublished), IsControl = False,
          Source = src, PathPrefix = pp \<rparr>"
proof -
  have "contains (previewSubdomain h b) ''--'' \<longleftrightarrow> b \<noteq> BranchPublished"
    using assms(3) by (auto simp: previewSubdomain_def doubleHyphen_def vh_iff host_label_def contains_iff)
  then have "resolve_splitLabel (previewSubdomain h b) = (h, b, b \<noteq> BranchPublished)"
    using split_preview [OF assms(3), of b] by (simp add: resolve_splitLabel_eq)
  moreover have "b \<noteq> BranchPublished \<Longrightarrow> length h + 2 + length b \<le> 63"
    using assms(5) by (simp add: previewSubdomain_def doubleHyphen_def)
  ultimately show ?thesis using assms(3,4)
    by (cases "b = BranchPublished")
      (simp_all add: assms(1,2) resolveProjectLabel_def BranchPublished_def labelMaxLen_def)
qed

lemma project_status:
  assumes "resolveProjectLabel d l src pp = Inl e" and "handles d = vh" and "branches d = vb"
  shows "Status e \<in> {400, 404}"
  using assms(1)
  by (auto simp: assms(2,3) resolveProjectLabel_def Let_def ResolveError_def
      split: option.splits if_splits prod.splits dest!: vh_status vb_status)

lemma resolve_status:
  assumes "Resolve d r = Inl e" and "handles d = vh" and "branches d = vb"
  shows "Status e \<in> {400, 404, 421}"
  using assms(1)
  by (auto simp: Resolve_def classifyHost_def Let_def ResolveError_def
      split: if_splits prod.splits sum.splits host_class.splits dest!: project_status [OF _ assms(2,3)])

lemma resolve_project:
  assumes "Resolve d r = Inr t" and "handles d = vh" and "branches d = vb" and "\<not> IsControl t"
  shows "lowerStripPort (effectiveHost d r) =
      previewSubdomain (Handle t) (Branch t) @ snd (effectiveBase d r) \<and>
    vh (Handle t) = None \<and> vb (Branch t) = None \<and> (IsPreview t \<longleftrightarrow> Branch t \<noteq> BranchPublished)"
proof -
  let ?host = "lowerStripPort (effectiveHost d r)"
  obtain base sfx where b: "effectiveBase d r = (base, sfx)" by (cases "effectiveBase d r") auto
  from assms(1,4) b obtain l where c: "classifyHost d ?host base sfx = Inr (hostProject, l)"
    and p: "resolveProjectLabel d l SourceHost [] = Inr t"
    by (auto simp: Resolve_def Let_def control_target_def split: if_splits sum.splits host_class.splits)
  from c have "has_suffix ?host sfx" "l = take (length ?host - length sfx) ?host"
    by (auto simp: classifyHost_def Let_def split: if_splits)
  then have "?host = l @ sfx" by (auto simp: has_suffix_iff)
  then show ?thesis using project_sound [OF p assms(2,3)] b by simp
qed

end

interpretation builtin: host_validators builtin_ValidateHandle builtin_ValidateBranch
  using builtin_handle_status builtin_branch_status
  by unfold_locales (fastforce simp: builtin_handle_iff builtin_branch_iff asResolveError_def)+

interpretation site_backed: host_validators
  "\<lambda>h. map_option (\<lambda>e. OtherError (error_text e)) (ValidateHandleForResolver h)"
  "\<lambda>b. map_option (\<lambda>e. OtherError (error_text e)) (validateBranchName b)"
  by unfold_locales (auto simp: site_handle_iff validateBranchName_iff asResolveError_def ResolveError_def)

section \<open>Properties\<close>

lemma project_not_control: "resolveProjectLabel d l src pre = Inr t \<Longrightarrow> \<not> IsControl t"
  by (auto simp: resolveProjectLabel_def Let_def split: prod.splits option.splits if_splits)

lemma classify_control:
  assumes "classifyHost d host base sfx = Inr (hostControl, l)"
  shows "ControlLabel (cfg d) = [] \<and> host = base \<or> ControlLabel (cfg d) \<noteq> [] \<and> host = ControlLabel (cfg d) @ sfx"
  using assms by (auto simp: classifyHost_def Let_def has_suffix_iff split: if_splits)

lemma resolve_control:
  assumes "Resolve d r = Inr t" and "IsControl t"
  shows "ControlLabel (cfg d) = [] \<and> lowerStripPort (effectiveHost d r) = fst (effectiveBase d r) \<or>
    ControlLabel (cfg d) \<noteq> [] \<and> lowerStripPort (effectiveHost d r) = ControlLabel (cfg d) @ snd (effectiveBase d r)"
proof -
  obtain base sfx where eb: "effectiveBase d r = (base, sfx)" by fastforce
  obtain l where "classifyHost d (lowerStripPort (effectiveHost d r)) base sfx = Inr (hostControl, l)"
    using assms project_not_control eb
    by (fastforce simp: Resolve_def Let_def split: if_splits sum.splits prod.splits host_class.splits)
  from classify_control [OF this] show ?thesis by (simp add: eb)
qed

text \<open>
  C13: A host that resolves, lower-cased and without its port, is one of these. For the
  control plane it is the bare effective base domain when no control label is configured, and
  the control label with the base domain as its suffix otherwise. For a project it is exactly
  the preview label of the returned handle and branch followed by "." and the effective base
  domain; both names satisfy the grammar of package \<open>site\<close>, and the target is a preview exactly
  when the branch is not \<open>published\<close>. No other host resolves.
\<close>

theorem resolve_sound:
  fixes c :: config
  defines "d \<equiv> NewResolver c"
  assumes "Resolve d r = Inr t"
  shows "if IsControl t
    then ControlLabel (cfg d) = [] \<and> lowerStripPort (effectiveHost d r) = fst (effectiveBase d r) \<or>
         ControlLabel (cfg d) \<noteq> [] \<and> lowerStripPort (effectiveHost d r) = ControlLabel (cfg d) @ snd (effectiveBase d r)
    else lowerStripPort (effectiveHost d r) = previewSubdomain (Handle t) (Branch t) @ snd (effectiveBase d r) \<and>
         ValidateHandleForResolver (Handle t) = None \<and> validateBranchName (Branch t) = None \<and>
         (IsPreview t \<longleftrightarrow> Branch t \<noteq> BranchPublished)"
proof (cases "IsControl t")
  case True
  then show ?thesis using resolve_control [OF assms(2) True] by simp
next
  case False
  then show ?thesis
    using builtin.resolve_project [OF assms(2) _ _ False]
    by (simp add: d_def NewResolver_def NewResolverWith_def Let_def builtin_handle_iff builtin_branch_iff
        site_handle_iff validateBranchName_iff)
qed

definition example_config :: config where
  "example_config = \<lparr> BaseDomain = ''Hosting.Example.com '', ControlLabel = [],
     EnablePathFallback = False, TrustForwardedHost = False, BaseDomainFunc = None \<rparr>"

theorem resolve_sound_witness:
  "lowerStripPort (effectiveHost (NewResolver example_config) (get_request ''Calc--draft.hosting.example.com:8080'' ''/'')) =
     previewSubdomain ''calc'' ''draft'' @
       snd (effectiveBase (NewResolver example_config) (get_request ''Calc--draft.hosting.example.com:8080'' ''/''))"
proof -
  let ?t = "\<lparr> Handle = ''calc'', Branch = ''draft'', IsPreview = True, IsControl = False,
      Source = SourceHost, PathPrefix = [] \<rparr>"
  have "Resolve (NewResolver example_config) (get_request ''Calc--draft.hosting.example.com:8080'' ''/'') = Inr ?t"
    by code_simp
  from resolve_sound [OF this] show ?thesis by simp
qed

text \<open>
  Every site and branch is reachable: the host built from a valid handle and branch
  (with or without a port) resolves to that handle and branch, as long as the label fits one
  DNS label and is not the control label.
\<close>

theorem resolve_complete:
  fixes c :: config
  defines "d \<equiv> NewResolver c"
  assumes "BaseDomainFunc c = None" and "plain_host (BaseDomain (cfg d))"
    and "ValidateHandleForResolver h = None" and "validateBranchName b = None"
    and "length (previewSubdomain h b) \<le> 63" and "previewSubdomain h b \<noteq> ControlLabel (cfg d)"
    and "port = [] \<or> (\<exists>n. port = CHR '':'' # show_nat n)"
    and "effectiveHost d r = previewSubdomain h b @ ''.'' @ BaseDomain (cfg d) @ port"
  shows "Resolve d r = Inr \<lparr> Handle = h, Branch = b, IsPreview = (b \<noteq> BranchPublished),
     IsControl = False, Source = SourceHost, PathPrefix = [] \<rparr>"
proof -
  let ?l = "previewSubdomain h b" and ?base = "BaseDomain (cfg d)"
  have d: "handles d = builtin_ValidateHandle" "branches d = builtin_ValidateBranch"
    "baseSuffix d = ''.'' @ ?base" "BaseDomainFunc (cfg d) = None"
    using assms(2) by (simp_all add: d_def NewResolver_def NewResolverWith_def Let_def)
  have ok: "builtin_ValidateHandle h = None" "builtin_ValidateBranch b = None"
    using assms by (simp_all add: builtin_handle_iff builtin_branch_iff site_handle_iff validateBranchName_iff)
  have chars: "label_char x" if "x \<in> set ?l" for x using builtin.preview_chars [OF ok that] .
  have "?l \<noteq> []" using ok(1) by (auto simp: previewSubdomain_def builtin_handle_iff host_label_def)
  then have "plain_host (?l @ ''.'' @ ?base)" using assms(3) chars by (auto simp: plain_host_def)
  then have host: "lowerStripPort (effectiveHost d r) = ?l @ ''.'' @ ?base"
    using assms(8,9) plain_host_strip [of "?l @ ''.'' @ ?base" port] by simp
  have "\<not> label_char CHR ''.''" by code_simp
  then have nodot: "CHR ''.'' \<notin> set ?l" using chars by blast
  have "has_suffix (?l @ ''.'' @ ?base) (''.'' @ ?base)" by (rule has_suffix_append)
  moreover have "?l @ ''.'' @ ?base \<noteq> ?base" by (metis append_Cons append_Nil append_self_conv2 append.assoc list.distinct(1) Nil_is_append_conv)
  ultimately have "classifyHost d (?l @ ''.'' @ ?base) ?base (''.'' @ ?base) = Inr (hostProject, ?l)"
    using nodot assms(7) by (simp add: classifyHost_def Let_def)
  then show ?thesis
    using host d builtin.project_complete [OF d(1,2) ok assms(6), of SourceHost "[]"]
    by (simp add: Resolve_def effectiveBase_def)
qed

theorem resolve_complete_witness:
  "Resolve (NewResolver example_config) (get_request ''calc--draft.hosting.example.com:8080'' ''/'') =
     Inr \<lparr> Handle = ''calc'', Branch = ''draft'', IsPreview = (''draft'' \<noteq> BranchPublished),
       IsControl = False, Source = SourceHost, PathPrefix = [] \<rparr>"
proof (rule resolve_complete)
  show "BaseDomainFunc example_config = None" by code_simp
  show "plain_host (BaseDomain (cfg (NewResolver example_config)))" unfolding plain_host_def by code_simp
  show "ValidateHandleForResolver ''calc'' = None" "validateBranchName ''draft'' = None" by code_simp+
  show "length (previewSubdomain ''calc'' ''draft'') \<le> 63"
    "previewSubdomain ''calc'' ''draft'' \<noteq> ControlLabel (cfg (NewResolver example_config))" by code_simp+
  have "'':8080'' = CHR '':'' # show_nat 8080"
    by (simp add: show_eval)
  then show "'':8080'' = [] \<or> (\<exists>n. '':8080'' = CHR '':'' # show_nat n)" by blast
  show "effectiveHost (NewResolver example_config) (get_request ''calc--draft.hosting.example.com:8080'' ''/'') =
      previewSubdomain ''calc'' ''draft'' @ ''.'' @ BaseDomain (cfg (NewResolver example_config)) @ '':8080''"
    by code_simp
qed

text \<open>
  The built-in validators of the resolver accept exactly the names the validators of
  package \<open>site\<close> accept, and every failure to resolve is a 400, 404 or 421.
\<close>

theorem resolver_grammar_agrees:
  "(builtin_ValidateHandle h = None \<longleftrightarrow> ValidateHandleForResolver h = None) \<and>
   (builtin_ValidateBranch b = None \<longleftrightarrow> validateBranchName b = None) \<and>
   (case Resolve (NewResolver c) r of Inl e \<Rightarrow> Status e \<in> {400, 404, 421} | Inr t \<Rightarrow> True)"
  using builtin.resolve_status [of "NewResolver c" r]
  by (auto simp: builtin_handle_iff builtin_branch_iff site_handle_iff validateBranchName_iff
      NewResolver_def NewResolverWith_def Let_def split: sum.splits)

text \<open>
  When forwarded headers are not trusted, no request header has any influence on the
  resolution of a request whose base domain is configured.
\<close>

theorem resolve_ignores_headers:
  assumes "\<not> TrustForwardedHost c" and "BaseDomainFunc c = None"
  shows "Resolve (NewResolverWith c hs bs) (r\<lparr>req_header := hdr\<rparr>) = Resolve (NewResolverWith c hs bs) r"
  using assms
  by (simp add: Resolve_def effectiveHost_def effectiveBase_def NewResolverWith_def Let_def)

theorem resolve_ignores_headers_witness:
  "Resolve (NewResolverWith example_config None None)
     ((get_request ''a.hosting.example.com'' ''/'')\<lparr>req_header := (\<lambda>_. [''evil.example.org''])\<rparr>) =
   Resolve (NewResolverWith example_config None None) (get_request ''a.hosting.example.com'' ''/'')"
  by (rule resolve_ignores_headers) (simp_all add: example_config_def)

end
