(* ===== verification/Login_Lockout.thy ===== *)
theory Login_Lockout
  imports Go_Strconv
begin

text \<open>
  The login lockout (\<open>backend/internal/auth/lockout.go\<close>): per source key, a count of
  consecutive failures and an exponentially growing lock window.

  A \<open>time.Time\<close> is the number of nanoseconds since the zero time and a \<open>time.Duration\<close> a
  number of nanoseconds, both integers; the clock is an argument of every operation that
  reads it. The durations computed here are shown to stay in the range of an \<open>int64\<close>.
\<close>

section \<open>Definitions\<close>

definition second :: int where "second = 1000000000"
definition minute :: int where "minute = 60 * second"

definition lockoutThreshold :: nat where "lockoutThreshold = 5"
definition lockoutBaseDelay :: int where "lockoutBaseDelay = 1 * second"
definition lockoutMaxDelay :: int where "lockoutMaxDelay = 15 * minute"
definition lockoutEntryTTL :: int where "lockoutEntryTTL = 30 * minute"

record lockoutEntry =
  failures :: nat
  lockedUntil :: int
  lastSeen :: int

record loginLockout =
  lk_entries :: "(string, lockoutEntry) gomap"
  lk_lastSweep :: int
  lk_threshold :: nat
  lk_base :: int
  lk_max :: int
  lk_ttl :: int

definition newLoginLockout :: "int \<Rightarrow> loginLockout" where
  "newLoginLockout now =
     \<lparr> lk_entries = [], lk_lastSweep = now, lk_threshold = lockoutThreshold,
       lk_base = lockoutBaseDelay, lk_max = lockoutMaxDelay, lk_ttl = lockoutEntryTTL \<rparr>"

definition lockout_setClock :: "loginLockout \<Rightarrow> int \<Rightarrow> loginLockout" where
  "lockout_setClock l now = l\<lparr> lk_lastSweep := now \<rparr>"

definition lockout_maybeSweepLocked :: "loginLockout \<Rightarrow> int \<Rightarrow> loginLockout" where
  "lockout_maybeSweepLocked l now =
     (if now - lk_lastSweep l < lk_ttl l then l
      else l\<lparr> lk_entries :=
                gm_filter (\<lambda>k e. \<not> (lk_ttl l \<le> now - lastSeen e \<and> \<not> now < lockedUntil e)) (lk_entries l),
              lk_lastSweep := now \<rparr>)"

definition lockout_locked :: "loginLockout \<Rightarrow> int \<Rightarrow> string \<Rightarrow> loginLockout \<times> bool \<times> int" where
  "lockout_locked l now key =
     (if key = [] then (l, False, 0)
      else
        let l = lockout_maybeSweepLocked l now in
        (case gm_get (lk_entries l) key of
           None \<Rightarrow> (l, False, 0)
         | Some e \<Rightarrow>
             let e = e\<lparr> lastSeen := now \<rparr>;
                 l = l\<lparr> lk_entries := gm_put key e (lk_entries l) \<rparr>
             in if now < lockedUntil e then (l, True, lockedUntil e - now) else (l, False, 0)))"

text \<open>\<open>for i := 0; i < exp && delay < max; i++ { delay *= 2 }\<close>\<close>

fun backoff_loop :: "nat \<Rightarrow> int \<Rightarrow> int \<Rightarrow> int" where
  "backoff_loop 0 delay mx = delay"
| "backoff_loop (Suc n) delay mx = (if delay < mx then backoff_loop n (delay * 2) mx else delay)"

definition recordFailure :: "loginLockout \<Rightarrow> int \<Rightarrow> string \<Rightarrow> loginLockout \<times> int" where
  "recordFailure l now key =
     (if key = [] then (l, 0)
      else
        let l = lockout_maybeSweepLocked l now;
            e = (case gm_get (lk_entries l) key of
                   Some e \<Rightarrow> e
                 | None \<Rightarrow> \<lparr> failures = 0, lockedUntil = 0, lastSeen = 0 \<rparr>);
            e = e\<lparr> failures := failures e + 1, lastSeen := now \<rparr>
        in if failures e < lk_threshold l then
             (l\<lparr> lk_entries := gm_put key e (lk_entries l) \<rparr>, 0)
           else
             let delay = backoff_loop (failures e - lk_threshold l) (lk_base l) (lk_max l);
                 delay = (if lk_max l < delay then lk_max l else delay);
                 e = e\<lparr> lockedUntil := now + delay \<rparr>
             in (l\<lparr> lk_entries := gm_put key e (lk_entries l) \<rparr>, delay))"

definition recordSuccess :: "loginLockout \<Rightarrow> string \<Rightarrow> loginLockout" where
  "recordSuccess l key =
     (if key = [] then l else l\<lparr> lk_entries := gm_del key (lk_entries l) \<rparr>)"

section \<open>The backoff loop\<close>

lemma backoff_loop_bounds:
  "0 < d \<Longrightarrow> d \<le> 2 * mx \<Longrightarrow> 0 < backoff_loop n d mx \<and> backoff_loop n d mx \<le> 2 * mx"
  by (induction n d mx rule: backoff_loop.induct) auto

lemma backoff_loop_closed: "0 < d \<Longrightarrow> min mx (backoff_loop n d mx) = min mx (d * 2 ^ n)"
proof (induction n d mx rule: backoff_loop.induct)
  case (2 n d mx)
  show ?case
  proof (cases "d < mx")
    case True
    then show ?thesis using 2 by (simp add: mult.assoc)
  next
    case False
    moreover have "d \<le> d * 2 ^ Suc n"
      using "2.prems" one_le_power [of "2 :: int" "Suc n"] by (simp add: mult_le_cancel_left1)
    ultimately show ?thesis by simp
  qed
qed simp

section \<open>The invariant\<close>

definition lockout_inv :: "loginLockout \<Rightarrow> bool" where
  "lockout_inv l \<longleftrightarrow>
     gm_wf (lk_entries l) \<and> [] \<notin> set (gm_keys (lk_entries l)) \<and>
     0 < lk_base l \<and> lk_base l \<le> lk_max l \<and> 0 < lk_ttl l"

lemma lockout_inv_new: "lockout_inv (newLoginLockout now)"
  by (simp add: lockout_inv_def newLoginLockout_def gm_keys_def lockoutBaseDelay_def
      lockoutMaxDelay_def lockoutEntryTTL_def second_def minute_def)

lemma sweep_get:
  assumes "lockout_inv l"
  shows "gm_get (lk_entries (lockout_maybeSweepLocked l now)) k =
    (case gm_get (lk_entries l) k of
       None \<Rightarrow> None
     | Some e \<Rightarrow>
         if lk_ttl l \<le> now - lk_lastSweep l \<and> lk_ttl l \<le> now - lastSeen e \<and> lockedUntil e \<le> now
         then None else Some e)"
  using assms
  by (auto simp: lockout_maybeSweepLocked_def lockout_inv_def gm_get_filter split: option.splits)

lemma sweep_params [simp]:
  "lk_threshold (lockout_maybeSweepLocked l now) = lk_threshold l"
  "lk_base (lockout_maybeSweepLocked l now) = lk_base l"
  "lk_max (lockout_maybeSweepLocked l now) = lk_max l"
  "lk_ttl (lockout_maybeSweepLocked l now) = lk_ttl l"
  by (simp_all add: lockout_maybeSweepLocked_def)

lemma lockout_inv_sweep: "lockout_inv l \<Longrightarrow> lockout_inv (lockout_maybeSweepLocked l now)"
  using sweep_get [of l now "[]"]
  by (auto simp: lockout_inv_def gm_keys_get lockout_maybeSweepLocked_def split: option.splits if_splits)

lemma lockout_inv_put:
  "lockout_inv l \<Longrightarrow> k \<noteq> [] \<Longrightarrow> lockout_inv (l\<lparr> lk_entries := gm_put k e (lk_entries l) \<rparr>)"
  by (auto simp: lockout_inv_def gm_keys_get)

lemma lockout_inv_locked: "lockout_inv l \<Longrightarrow> lockout_inv (fst (lockout_locked l now key))"
  using lockout_inv_sweep [of l now]
  by (auto simp: lockout_locked_def Let_def lockout_inv_put split: option.splits)

lemma lockout_inv_failure: "lockout_inv l \<Longrightarrow> lockout_inv (fst (recordFailure l now key))"
  using lockout_inv_sweep [of l now] by (simp add: recordFailure_def Let_def lockout_inv_put)

lemma lockout_inv_success: "lockout_inv l \<Longrightarrow> lockout_inv (recordSuccess l key)"
  by (auto simp: recordSuccess_def lockout_inv_def gm_keys_get)

section \<open>Runs\<close>

datatype lockout_op = Ask int string | Fail int string | Succeed string

fun lockout_step :: "loginLockout \<Rightarrow> lockout_op \<Rightarrow> loginLockout" where
  "lockout_step l (Ask now k) = fst (lockout_locked l now k)"
| "lockout_step l (Fail now k) = fst (recordFailure l now k)"
| "lockout_step l (Succeed k) = recordSuccess l k"

lemma lockout_inv_step: "lockout_inv l \<Longrightarrow> lockout_inv (lockout_step l x)"
  by (cases x) (simp_all add: lockout_inv_locked lockout_inv_failure lockout_inv_success)

lemma lockout_inv_run: "lockout_inv l \<Longrightarrow> lockout_inv (foldl lockout_step l xs)"
  by (induction xs arbitrary: l) (simp_all add: lockout_inv_step)

text \<open>An operation that happens before \<open>u\<close> and does not report a success for the key.\<close>

definition keeps_lock :: "string \<Rightarrow> int \<Rightarrow> lockout_op \<Rightarrow> bool" where
  "keeps_lock key u x =
     (case x of Ask now k \<Rightarrow> now < u | Fail now k \<Rightarrow> now < u \<and> k \<noteq> key | Succeed k \<Rightarrow> k \<noteq> key)"

lemma lock_survives_step:
  assumes "lockout_inv l" and "gm_get (lk_entries l) key = Some e" and "keeps_lock key (lockedUntil e) x"
  shows "\<exists>e'. gm_get (lk_entries (lockout_step l x)) key = Some e' \<and>
    lockedUntil e' = lockedUntil e \<and> failures e' = failures e"
  using assms
  by (cases x)
    (auto simp: keeps_lock_def lockout_locked_def recordFailure_def recordSuccess_def Let_def sweep_get
      split: option.splits)

lemma lock_survives:
  assumes "lockout_inv l" and "gm_get (lk_entries l) key = Some e"
    and "list_all (keeps_lock key (lockedUntil e)) xs"
  shows "\<exists>e'. gm_get (lk_entries (foldl lockout_step l xs)) key = Some e' \<and>
    lockedUntil e' = lockedUntil e \<and> failures e' = failures e"
  using assms
proof (induction xs arbitrary: l e)
  case (Cons x xs)
  obtain e' where "gm_get (lk_entries (lockout_step l x)) key = Some e'"
    "lockedUntil e' = lockedUntil e" "failures e' = failures e"
    using lock_survives_step [OF Cons.prems(1,2)] Cons.prems(3) by auto
  then show ?case using Cons.IH [OF lockout_inv_step [OF Cons.prems(1)], of x e'] Cons.prems(3) by auto
qed auto

lemma recordFailure_entry:
  assumes "lockout_inv l" and "key \<noteq> []" and "snd (recordFailure l now key) \<noteq> 0"
  shows "\<exists>e. gm_get (lk_entries (fst (recordFailure l now key))) key = Some e \<and>
    lockedUntil e = now + snd (recordFailure l now key)"
  using assms by (auto simp: recordFailure_def Let_def split: if_splits)

lemma locked_iff_entry:
  assumes "lockout_inv l" and "gm_get (lk_entries l) key = Some e" and "now < lockedUntil e"
  shows "snd (lockout_locked l now key) = (True, lockedUntil e - now)"
proof -
  have "key \<noteq> []" using assms by (auto simp: lockout_inv_def gm_keys_get)
  then show ?thesis using assms by (simp add: lockout_locked_def Let_def sweep_get)
qed

section \<open>Properties\<close>

text \<open>
  The window a failure arms is zero below the threshold and otherwise
  \<open>min(max, base * 2^(failures - threshold))\<close>, where \<open>failures\<close> counts the failure just
  recorded; it lies in the range of a \<open>time.Duration\<close>.
\<close>

theorem lockout_backoff:
  assumes "lockout_inv l" and "key \<noteq> []" and "lk_max l \<le> int64_max"
    and "gm_get (lk_entries (fst (recordFailure l now key))) key = Some e"
  shows "snd (recordFailure l now key) =
      (if failures e < lk_threshold l then 0
       else min (lk_max l) (lk_base l * 2 ^ (failures e - lk_threshold l))) \<and>
    in_int64 (snd (recordFailure l now key))"
proof -
  define d where "d = backoff_loop (failures e - lk_threshold l) (lk_base l) (lk_max l)"
  have base: "0 < lk_base l" "lk_base l \<le> lk_max l" using assms(1) by (auto simp: lockout_inv_def)
  have d: "0 < d" unfolding d_def using base by (intro backoff_loop_bounds [THEN conjunct1]) auto
  have closed: "min (lk_max l) d = min (lk_max l) (lk_base l * 2 ^ (failures e - lk_threshold l))"
    unfolding d_def using base by (intro backoff_loop_closed)
  have r: "snd (recordFailure l now key) = (if failures e < lk_threshold l then 0 else min (lk_max l) d)"
    using assms(2,4) by (auto simp: recordFailure_def Let_def d_def min_def split: if_splits)
  have "in_int64 (snd (recordFailure l now key))"
    using r d base assms(3) by (auto simp: in_int64_def int64_min_def)
  then show ?thesis using r closed by simp
qed

theorem lockout_backoff_witness:
  "snd (recordFailure (foldl lockout_step (newLoginLockout 0) (replicate 7 (Fail 1 ''ip''))) 2 ''ip'') =
   8 * second"
proof -
  let ?l = "foldl lockout_step (newLoginLockout 0) (replicate 7 (Fail 1 ''ip''))"
  have inv: "lockout_inv ?l" by (intro lockout_inv_run lockout_inv_new)
  have p: "lk_max ?l = 15 * minute" "lk_base ?l = second" "lk_threshold ?l = 5" by code_simp+
  have e: "gm_get (lk_entries (fst (recordFailure ?l 2 ''ip''))) ''ip'' =
      Some \<lparr> failures = 8, lockedUntil = 2 + 8 * second, lastSeen = 2 \<rparr>" by code_simp
  have "lk_max ?l \<le> int64_max" by code_simp
  from lockout_backoff [OF inv _ this e] show ?thesis
    by (simp add: p second_def minute_def)
qed

text \<open>
  C38: A lock holds for its whole window: once a failure has armed a lock of \<open>d\<close> at time
  \<open>now\<close>, no run of lookups, successes of other keys and failures of other keys before
  \<open>now + d\<close> (sweeps included) unlocks the key early, and a lookup then reports the exact
  time that is left.
\<close>

theorem lockout_holds:
  assumes "lockout_inv l" and "key \<noteq> []" and "recordFailure l now key = (l', d)" and "d \<noteq> 0"
    and "list_all (keeps_lock key (now + d)) xs" and "t < now + d"
  shows "snd (lockout_locked (foldl lockout_step l' xs) t key) = (True, now + d - t)"
proof -
  have inv: "lockout_inv l'" using lockout_inv_failure [OF assms(1), of now key] assms(3) by simp
  obtain e where "gm_get (lk_entries l') key = Some e" and u: "lockedUntil e = now + d"
    using recordFailure_entry [OF assms(1,2), of now] assms(3,4) by auto
  then obtain e' where "gm_get (lk_entries (foldl lockout_step l' xs)) key = Some e'"
    "lockedUntil e' = now + d"
    using lock_survives [OF inv, of key e xs] assms(5) by auto
  then show ?thesis using locked_iff_entry [OF lockout_inv_run [OF inv]] assms(6) by simp
qed

theorem lockout_holds_witness:
  "snd (lockout_locked
     (foldl lockout_step
        (fst (recordFailure (foldl lockout_step (newLoginLockout 0) (replicate 4 (Fail 1 ''ip''))) 2 ''ip''))
        [Ask 3 ''ip'', Succeed ''other'', Fail 5 ''x'']) 7 ''ip'') = (True, 2 + second - 7)"
proof (rule lockout_holds)
  let ?l = "foldl lockout_step (newLoginLockout 0) (replicate 4 (Fail 1 ''ip''))"
  show "lockout_inv ?l" by (intro lockout_inv_run lockout_inv_new)
  show "recordFailure ?l 2 ''ip'' = (fst (recordFailure ?l 2 ''ip''), second)" by code_simp
  show "second \<noteq> 0" "7 < 2 + second" by code_simp+
  show "list_all (keeps_lock ''ip'' (2 + second)) [Ask 3 ''ip'', Succeed ''other'', Fail 5 ''x'']" by code_simp
qed simp

end
