(* ===== verification/Single_Use.thy ===== *)
theory Single_Use
  imports Login_Lockout
begin

text \<open>
  The server-side single-use guard of the login handshake
  (\<open>backend/internal/auth/singleuse.go\<close>): an in-memory table from a key to the instant it
  may be used again, with a throttled sweep and a hard cap.

  \<open>SingleUseStore\<close> is a one-method interface in the source. The locale
  \<open>single_use_store\<close> is its contract; replay safety over arbitrary call sequences is proved
  from the contract alone and interpreted on the in-memory store.
\<close>

section \<open>Definitions\<close>

definition singleUseMaxEntries :: nat where "singleUseMaxEntries = 100000"
definition singleUseSweepInterval :: int where "singleUseSweepInterval = 1 * minute"

record memSingleUseStore =
  su_entries :: "(string, int) gomap"
  su_lastSweep :: int
  su_maxEntries :: nat
  su_sweepInterval :: int

definition newMemSingleUseStore :: "int \<Rightarrow> memSingleUseStore" where
  "newMemSingleUseStore now =
     \<lparr> su_entries = [], su_lastSweep = now, su_maxEntries = singleUseMaxEntries,
       su_sweepInterval = singleUseSweepInterval \<rparr>"

definition singleuse_setClock :: "memSingleUseStore \<Rightarrow> int \<Rightarrow> memSingleUseStore" where
  "singleuse_setClock s now = s\<lparr> su_lastSweep := now \<rparr>"

definition evictExpiredLocked :: "memSingleUseStore \<Rightarrow> int \<Rightarrow> memSingleUseStore" where
  "evictExpiredLocked s now = s\<lparr> su_entries := gm_filter (\<lambda>k e. now < e) (su_entries s) \<rparr>"

definition singleuse_maybeSweepLocked :: "memSingleUseStore \<Rightarrow> int \<Rightarrow> memSingleUseStore" where
  "singleuse_maybeSweepLocked s now =
     (if now - su_lastSweep s < su_sweepInterval s then s
      else (evictExpiredLocked s now)\<lparr> su_lastSweep := now \<rparr>)"

definition Consume :: "memSingleUseStore \<Rightarrow> int \<Rightarrow> string \<Rightarrow> int \<Rightarrow> memSingleUseStore \<times> bool" where
  "Consume s now key ttl =
     (let s = singleuse_maybeSweepLocked s now in
      if (case gm_get (su_entries s) key of Some e \<Rightarrow> now < e | None \<Rightarrow> False) then (s, False)
      else
        let s' = (if su_maxEntries s \<le> gm_len (su_entries s) then evictExpiredLocked s now else s) in
        if su_maxEntries s \<le> gm_len (su_entries s) \<and> su_maxEntries s' \<le> gm_len (su_entries s')
        then (s', False)
        else (s'\<lparr> su_entries := gm_put key (now + ttl) (su_entries s') \<rparr>, True))"

definition singleuse_size :: "memSingleUseStore \<Rightarrow> nat" where
  "singleuse_size s = gm_len (su_entries s)"

section \<open>The contract of a single-use store\<close>

text \<open>
  A call is \<open>(now, key, ttl)\<close>. The contract: an invariant; a notion of the instant until
  which a key is spent; a call that reports first use found the key not spent and leaves it
  spent until \<open>now + ttl\<close>; and no call forgets a key that is still spent at that time.
\<close>

type_synonym use_call = "int \<times> string \<times> int"

locale single_use_store =
  fixes use :: "'s \<Rightarrow> int \<Rightarrow> string \<Rightarrow> int \<Rightarrow> 's \<times> bool"
    and inv :: "'s \<Rightarrow> bool"
    and spent :: "'s \<Rightarrow> string \<Rightarrow> int \<Rightarrow> bool"
  assumes inv_use: "inv s \<Longrightarrow> inv (fst (use s now k ttl))"
    and first_use_fresh: "inv s \<Longrightarrow> snd (use s now k ttl) \<Longrightarrow> \<not> spent s k now"
    and first_use_spends: "inv s \<Longrightarrow> snd (use s now k ttl) \<Longrightarrow> t < now + ttl \<Longrightarrow> spent (fst (use s now k ttl)) k t"
    and spent_stays: "inv s \<Longrightarrow> spent s k t \<Longrightarrow> now \<le> t \<Longrightarrow> spent (fst (use s now k' ttl)) k t"
begin

fun run :: "'s \<Rightarrow> use_call list \<Rightarrow> 's" where
  "run s [] = s"
| "run s ((now, k, ttl) # cs) = run (fst (use s now k ttl)) cs"

lemma inv_run: "inv s \<Longrightarrow> inv (run s cs)"
  by (induction s cs rule: run.induct) (simp_all add: inv_use)

lemma spent_run:
  "inv s \<Longrightarrow> spent s k t \<Longrightarrow> \<forall>c \<in> set cs. fst c \<le> t \<Longrightarrow> spent (run s cs) k t"
  by (induction s cs rule: run.induct) (simp_all add: inv_use spent_stays)

lemma no_replay:
  assumes "inv s" and "snd (use s now k ttl)" and "\<forall>c \<in> set cs. fst c \<le> t" and "t < now + ttl"
  shows "\<not> snd (use (run (fst (use s now k ttl)) cs) t k ttl')"
proof
  let ?s = "run (fst (use s now k ttl)) cs"
  assume "snd (use ?s t k ttl')"
  moreover have "inv ?s" using assms(1) by (intro inv_run inv_use)
  moreover have "spent ?s k t"
    using assms by (intro spent_run inv_use first_use_spends)
  ultimately show False using first_use_fresh by blast
qed

end

section \<open>The in-memory store meets the contract\<close>

definition singleuse_inv :: "memSingleUseStore \<Rightarrow> bool" where
  "singleuse_inv s \<longleftrightarrow> gm_wf (su_entries s) \<and> gm_len (su_entries s) \<le> su_maxEntries s"

definition singleuse_spent :: "memSingleUseStore \<Rightarrow> string \<Rightarrow> int \<Rightarrow> bool" where
  "singleuse_spent s k t = (case gm_get (su_entries s) k of Some e \<Rightarrow> t < e | None \<Rightarrow> False)"

lemma evict_inv: "singleuse_inv s \<Longrightarrow> singleuse_inv (evictExpiredLocked s now)"
  by (auto simp: singleuse_inv_def evictExpiredLocked_def intro: order_trans [OF gm_len_filter_le])

lemma sweep_inv: "singleuse_inv s \<Longrightarrow> singleuse_inv (singleuse_maybeSweepLocked s now)"
  using evict_inv [of s now] by (auto simp: singleuse_maybeSweepLocked_def singleuse_inv_def)

lemma evict_get:
  "singleuse_inv s \<Longrightarrow> gm_get (su_entries (evictExpiredLocked s now)) k =
     (case gm_get (su_entries s) k of Some e \<Rightarrow> if now < e then Some e else None | None \<Rightarrow> None)"
  by (simp add: evictExpiredLocked_def singleuse_inv_def gm_get_filter)

lemma sweep_spent:
  "singleuse_inv s \<Longrightarrow> now \<le> t \<Longrightarrow>
   singleuse_spent (singleuse_maybeSweepLocked s now) k t = singleuse_spent s k t"
  by (auto simp: singleuse_maybeSweepLocked_def singleuse_spent_def evict_get split: option.splits)

lemma evict_spent:
  "singleuse_inv s \<Longrightarrow> now \<le> t \<Longrightarrow>
   singleuse_spent (evictExpiredLocked s now) k t = singleuse_spent s k t"
  by (auto simp: singleuse_spent_def evict_get split: option.splits)

lemma evict_maxEntries [simp]: "su_maxEntries (evictExpiredLocked s now) = su_maxEntries s"
  by (simp add: evictExpiredLocked_def)

text \<open>The two ways a call ends, on the swept store.\<close>

lemma Consume_cases:
  assumes "singleuse_inv s"
  obtains (rejected) s' where "Consume s now k ttl = (s', False)" and "singleuse_inv s'"
      and "\<And>k t. now \<le> t \<Longrightarrow> singleuse_spent s' k t = singleuse_spent s k t"
      and "su_maxEntries s' = su_maxEntries s"
    | (recorded) s' where "\<not> singleuse_spent s k now" and "singleuse_inv s'"
      and "gm_len (su_entries s') < su_maxEntries s'"
      and "\<And>k t. now \<le> t \<Longrightarrow> singleuse_spent s' k t = singleuse_spent s k t"
      and "Consume s now k ttl = (s'\<lparr> su_entries := gm_put k (now + ttl) (su_entries s') \<rparr>, True)"
      and "su_maxEntries s' = su_maxEntries s"
proof -
  define s1 where "s1 = singleuse_maybeSweepLocked s now"
  define s2 where "s2 = (if su_maxEntries s1 \<le> gm_len (su_entries s1) then evictExpiredLocked s1 now else s1)"
  have i1: "singleuse_inv s1" unfolding s1_def using assms by (rule sweep_inv)
  have i2: "singleuse_inv s2" unfolding s2_def using i1 evict_inv by simp
  have p1: "singleuse_spent s1 k t = singleuse_spent s k t" if "now \<le> t" for k t
    unfolding s1_def using assms that by (rule sweep_spent)
  have p2: "singleuse_spent s2 k t = singleuse_spent s k t" if "now \<le> t" for k t
    unfolding s2_def using i1 that p1 by (simp add: evict_spent)
  have m: "su_maxEntries s1 = su_maxEntries s" "su_maxEntries s2 = su_maxEntries s"
    by (simp_all add: s1_def s2_def singleuse_maybeSweepLocked_def)
  have c: "Consume s now k ttl =
     (if singleuse_spent s1 k now then (s1, False)
      else if su_maxEntries s1 \<le> gm_len (su_entries s1) \<and> su_maxEntries s2 \<le> gm_len (su_entries s2)
      then (s2, False) else (s2\<lparr> su_entries := gm_put k (now + ttl) (su_entries s2) \<rparr>, True))"
    by (simp add: Consume_def Let_def s1_def s2_def singleuse_spent_def)
  show thesis
  proof (cases "singleuse_spent s1 k now")
    case True
    then show ?thesis using rejected [of s1] c i1 p1 m by simp
  next
    case fresh: False
    show ?thesis
    proof (cases "su_maxEntries s1 \<le> gm_len (su_entries s1) \<and> su_maxEntries s2 \<le> gm_len (su_entries s2)")
      case True
      then show ?thesis using fresh rejected [of s2] c i2 p2 m by simp
    next
      case False
      then have "gm_len (su_entries s2) < su_maxEntries s2" by (auto simp: s2_def split: if_splits)
      then show ?thesis using fresh False recorded [of s2] c i2 p1 p2 m by simp
    qed
  qed
qed

lemma spent_put:
  "singleuse_spent (s\<lparr> su_entries := gm_put k e (su_entries s) \<rparr>) k' t =
   (if k' = k then t < e else singleuse_spent s k' t)"
  by (simp add: singleuse_spent_def)

interpretation mem_store: single_use_store Consume singleuse_inv singleuse_spent
proof
  fix s now k ttl assume i: "singleuse_inv s"
  show "singleuse_inv (fst (Consume s now k ttl))"
    using i
  proof (cases rule: Consume_cases [where now = now and k = k and ttl = ttl])
    case (recorded s')
    then show ?thesis using gm_len_put_le [of k "now + ttl" "su_entries s'"]
      by (auto simp: singleuse_inv_def)
  qed simp
  show "\<not> singleuse_spent s k now" if "snd (Consume s now k ttl)"
    using i that by (cases rule: Consume_cases [where now = now and k = k and ttl = ttl]) auto
  show "singleuse_spent (fst (Consume s now k ttl)) k t" if "snd (Consume s now k ttl)" "t < now + ttl" for t
    using i that by (cases rule: Consume_cases [where now = now and k = k and ttl = ttl]) (auto simp: spent_put)
next
  fix s k t now k' ttl assume i: "singleuse_inv s" and sp: "singleuse_spent s k t" "now \<le> t"
  show "singleuse_spent (fst (Consume s now k' ttl)) k t"
    using i
  proof (cases rule: Consume_cases [where now = now and k = k' and ttl = ttl])
    case (rejected s')
    then show ?thesis using sp by simp
  next
    case (recorded s')
    have "k \<noteq> k'"
    proof
      assume "k = k'"
      then show False using recorded(1) sp by (auto simp: singleuse_spent_def split: option.splits)
    qed
    then show ?thesis using recorded sp by (simp add: spent_put)
  qed
qed

lemma singleuse_inv_new: "singleuse_inv (newMemSingleUseStore now)"
  by (simp add: singleuse_inv_def newMemSingleUseStore_def gm_len_def)

lemma mem_store_max: "singleuse_inv s \<Longrightarrow> su_maxEntries (mem_store.run s cs) = su_maxEntries s"
proof (induction s cs rule: mem_store.run.induct)
  case (2 s now k ttl cs)
  have "su_maxEntries (fst (Consume s now k ttl)) = su_maxEntries s"
    using "2.prems" by (cases rule: Consume_cases [where now = now and k = k and ttl = ttl]) auto
  then show ?case using 2 by (simp add: mem_store.inv_use)
qed simp

section \<open>Properties\<close>

text \<open>
  C37: Replay safety: after a call that reported first use of a key at \<open>now\<close>, and any
  sequence of further calls up to time \<open>t\<close>, a call with the same key at \<open>t\<close> before
  \<open>now + ttl\<close> is not reported as first use, whatever was swept in between.
\<close>

theorem single_use_no_replay:
  assumes "singleuse_inv s" and "Consume s now k ttl = (s', True)"
    and "\<forall>c \<in> set cs. fst c \<le> t" and "t < now + ttl"
  shows "\<not> snd (Consume (mem_store.run s' cs) t k ttl')"
  using mem_store.no_replay [OF assms(1), of now k ttl cs t ttl'] assms(2-4) by simp

theorem single_use_no_replay_witness:
  "\<not> snd (Consume (mem_store.run (fst (Consume (newMemSingleUseStore 0) 5 ''st'' (10 * minute)))
       [(6, ''a'', 3), (9 * minute, ''b'', 1)]) (9 * minute) ''st'' 1)"
proof (rule single_use_no_replay)
  show "singleuse_inv (newMemSingleUseStore 0)" by (rule singleuse_inv_new)
  have "singleuse_maybeSweepLocked (newMemSingleUseStore 0) 5 = newMemSingleUseStore 0"
    by (simp add: singleuse_maybeSweepLocked_def newMemSingleUseStore_def singleUseSweepInterval_def minute_def second_def)
  then show "Consume (newMemSingleUseStore 0) 5 ''st'' (10 * minute) =
      (fst (Consume (newMemSingleUseStore 0) 5 ''st'' (10 * minute)), True)"
    by (simp add: Consume_def newMemSingleUseStore_def singleUseMaxEntries_def gm_len_def)
  show "\<forall>c \<in> set [(6, ''a'', 3), (9 * minute, ''b'', 1)]. fst c \<le> 9 * minute" "9 * minute < 5 + 10 * minute"
    by (simp_all add: minute_def second_def)
qed

text \<open>
  The table never outgrows its cap: after any sequence of calls on a fresh store it has
  at most \<open>singleUseMaxEntries\<close> entries.
\<close>

theorem single_use_bounded:
  "singleuse_size (mem_store.run (newMemSingleUseStore now) cs) \<le> singleUseMaxEntries"
proof -
  let ?s = "newMemSingleUseStore now"
  have "singleuse_inv (mem_store.run ?s cs)" by (intro mem_store.inv_run singleuse_inv_new)
  moreover have "su_maxEntries (mem_store.run ?s cs) = singleUseMaxEntries"
    by (simp add: mem_store_max singleuse_inv_new) (simp add: newMemSingleUseStore_def)
  ultimately show ?thesis by (simp add: singleuse_inv_def singleuse_size_def)
qed

end
