(* ===== verification/Rate_Limit.thy ===== *)
theory Rate_Limit
  imports Complex_Main Go_Http
begin

text \<open>
  The keyed token-bucket limiter and its middleware
  (\<open>backend/internal/ratelimit/ratelimit.go\<close>), and the client address it is keyed by.

  The bucket itself is \<open>golang.org/x/time/rate\<close>, which is not part of the repository: the
  type \<open>'b\<close> of a bucket and its two operations, \<open>rate.NewLimiter\<close> and \<open>AllowN\<close>, are
  parameters (\<open>newLim\<close>, \<open>allowN\<close>). The float64 rate is a rational number.
\<close>

section \<open>Definitions\<close>

record rl_config =
  RPS :: rat
  Burst :: int
  TTL :: int

definition defaultTTL :: int where
  "defaultTTL = 10 * 60 * 1000000000"

record 'b rl_entry =
  rl_lim :: 'b
  rl_lastSeen :: int

record 'b limiter =
  buckets :: "(string, 'b rl_entry) gomap"
  rl_rps :: rat
  rl_burst :: int
  rl_ttl :: int
  rl_disabled :: bool
  rl_lastSweep :: int

text \<open>\<open>int(f)\<close> of a float truncates towards zero.\<close>

definition trunc_rat :: "rat \<Rightarrow> int" where
  "trunc_rat q = (if 0 \<le> q then \<lfloor>q\<rfloor> else \<lceil>q\<rceil>)"

definition New :: "rl_config \<Rightarrow> int \<Rightarrow> 'b limiter" where
  "New c now =
     (let ttl = (if TTL c \<le> 0 then defaultTTL else TTL c);
          burst =
            (if Burst c \<le> 0 then
               let b = trunc_rat (RPS c);
                   b = (if of_int b < RPS c then b + 1 else b)
               in if b < 1 then 1 else b
             else Burst c)
      in \<lparr> buckets = [], rl_rps = RPS c, rl_burst = burst, rl_ttl = ttl,
           rl_disabled = (RPS c \<le> 0), rl_lastSweep = now \<rparr>)"

definition evictLocked :: "'b limiter \<Rightarrow> int \<Rightarrow> 'b limiter" where
  "evictLocked l now =
     l\<lparr> buckets := gm_filter (\<lambda>k e. \<not> rl_ttl l \<le> now - rl_lastSeen e) (buckets l) \<rparr>"

definition Allow ::
  "(rat \<Rightarrow> int \<Rightarrow> 'b) \<Rightarrow> ('b \<Rightarrow> int \<Rightarrow> nat \<Rightarrow> 'b \<times> bool) \<Rightarrow> 'b limiter \<Rightarrow> int \<Rightarrow> string \<Rightarrow> 'b limiter \<times> bool" where
  "Allow newLim allowN l now key =
     (if rl_disabled l then (l, True)
      else
        let l = (if rl_ttl l \<le> now - rl_lastSweep l
                 then (evictLocked l now)\<lparr> rl_lastSweep := now \<rparr> else l);
            lim = (case gm_get (buckets l) key of
                     Some e \<Rightarrow> rl_lim e
                   | None \<Rightarrow> newLim (rl_rps l) (rl_burst l));
            res = allowN lim now 1
        in (l\<lparr> buckets := gm_put key \<lparr> rl_lim = fst res, rl_lastSeen = now \<rparr> (buckets l) \<rparr>, snd res))"

definition limiter_Len :: "'b limiter \<Rightarrow> nat" where
  "limiter_Len l = gm_len (buckets l)"

text \<open>The middleware: the next handler and the denial response are arguments.\<close>

definition rl_Middleware ::
  "(rat \<Rightarrow> int \<Rightarrow> 'b) \<Rightarrow> ('b \<Rightarrow> int \<Rightarrow> nat \<Rightarrow> 'b \<times> bool) \<Rightarrow> (http_request \<Rightarrow> string) \<Rightarrow>
   (http_request \<Rightarrow> 'w) \<Rightarrow> (http_request \<Rightarrow> 'w) \<Rightarrow> 'b limiter \<Rightarrow> int \<Rightarrow> http_request \<Rightarrow> 'b limiter \<times> 'w" where
  "rl_Middleware newLim allowN key onDenied nxt l now r =
     (let k = key r in
      if k = [] then (l, nxt r)
      else case Allow newLim allowN l now k of
             (l', ok) \<Rightarrow> (l', if ok then nxt r else onDenied r))"

definition defaultTrustedProxyHops :: int where
  "defaultTrustedProxyHops = 1"

text \<open>\<open>lastIndexComma\<close> scans \<open>s[:end]\<close> downwards.\<close>

fun lastIndexComma :: "string \<Rightarrow> nat \<Rightarrow> nat option" where
  "lastIndexComma s 0 = None"
| "lastIndexComma s (Suc i) = (if s ! i = CHR '','' then Some i else lastIndexComma s i)"

definition blank :: "char \<Rightarrow> bool" where
  "blank c = (c = CHR '' '' \<or> c = CHR 0x09)"

definition trimSpace :: "string \<Rightarrow> string" where
  "trimSpace s = trim_right blank (trim_left blank s)"

fun nth_loop :: "string \<Rightarrow> nat \<Rightarrow> nat \<Rightarrow> string" where
  "nth_loop s en 0 = []"
| "nth_loop s en (Suc n) =
     (let i = lastIndexComma s en;
          start = (case i of None \<Rightarrow> 0 | Some j \<Rightarrow> j + 1);
          tok = trimSpace (drop start (take en s))
      in if n = 0 then tok
         else (case i of None \<Rightarrow> [] | Some j \<Rightarrow> nth_loop s j n))"

definition nthFromRight :: "string \<Rightarrow> nat \<Rightarrow> string" where
  "nthFromRight s n = nth_loop s (length s) n"

definition ClientIPHops :: "http_request \<Rightarrow> bool \<Rightarrow> int \<Rightarrow> string" where
  "ClientIPHops r trustForwarded trustedHops =
     (let hops = nat (if trustedHops < 1 then 1 else trustedHops);
          xff = header_get r ''X-Forwarded-For'';
          xrip = header_get r ''X-Real-Ip'';
          peer = (case split_host_port (remote_addr r) of
                    Some (host, port) \<Rightarrow> host
                  | None \<Rightarrow> remote_addr r)
      in if trustForwarded then
           if xff \<noteq> [] then
             (let ip = nthFromRight xff hops in if ip \<noteq> [] then ip else peer)
           else if xrip \<noteq> [] then trimSpace xrip
           else peer
         else peer)"

definition ClientIP :: "http_request \<Rightarrow> bool \<Rightarrow> string" where
  "ClientIP r trustForwarded = ClientIPHops r trustForwarded defaultTrustedProxyHops"

section \<open>The token walk\<close>

text \<open>The reference: split at the commas and count from the right.\<close>

definition nth_token_right :: "string \<Rightarrow> nat \<Rightarrow> string" where
  "nth_token_right s n =
     (let ts = rev (split_on CHR '','' s)
      in if 1 \<le> n \<and> n \<le> length ts then trimSpace (ts ! (n - 1)) else [])"

lemma lastIndexComma_take:
  "en \<le> length s \<Longrightarrow> lastIndexComma s en = last_index_byte (take en s) CHR '',''"
proof (induction en)
  case 0
  then show ?case by (simp add: last_index_byte_def)
next
  case (Suc i)
  then have t: "take (Suc i) s = take i s @ [s ! i]" by (simp add: take_Suc_conv_app_nth)
  show ?case
  proof (cases "s ! i = CHR '',''")
    case True
    then show ?thesis using Suc.prems last_index_byte_append [of "CHR '',''" "[]" "take i s"] t by simp
  next
    case False
    then show ?thesis using Suc t
      by (auto simp: last_index_byte_def option.map_comp comp_def intro!: option.map_cong dest!: index_byte_Some)
  qed
qed

lemma nth_loop_tokens:
  "en \<le> length s \<Longrightarrow> nth_loop s en n = nth_token_right (take en s) n"
proof (induction n arbitrary: en)
  case 0
  then show ?case by (simp add: nth_token_right_def)
next
  case (Suc n)
  let ?t = "take en s"
  show ?case
  proof (cases "last_index_byte ?t CHR '',''")
    case None
    then have "split_on CHR '','' ?t = [?t]" by (simp add: split_on_single)
    then show ?thesis using None Suc.prems
      by (cases n) (simp_all add: lastIndexComma_take nth_token_right_def Let_def del: last_index_byte_None)
  next
    case (Some j)
    from last_index_byte_Some [OF Some]
    have j: "?t = take j ?t @ CHR '','' # drop (Suc j) ?t" "CHR '','' \<notin> set (drop (Suc j) ?t)" "j < length ?t"
      by auto
    have tj: "take j ?t = take j s" using j(3) by (simp add: min_absorb1)
    have ts: "split_on CHR '','' ?t = split_on CHR '','' (take j s) @ [drop (Suc j) ?t]"
      using split_on_append [of "CHR '',''" "take j s" "drop (Suc j) ?t"] j tj by (simp add: split_on_single)
    show ?thesis
    proof (cases n)
      case 0
      then show ?thesis using Some Suc.prems ts by (simp add: lastIndexComma_take nth_token_right_def Let_def)
    next
      case (Suc m)
      then have "nth_loop s en (Suc n) = nth_token_right (take j s) n"
        using Some Suc.IH [of j] Suc.prems j(3) by (simp add: lastIndexComma_take)
      then show ?thesis using ts Suc by (simp add: nth_token_right_def Let_def)
    qed
  qed
qed

lemma nthFromRight_tokens: "nthFromRight s n = nth_token_right s n"
  by (simp add: nthFromRight_def nth_loop_tokens)

lemma nth_token_right_prefix:
  assumes "ts \<noteq> []" and "\<And>w. w \<in> set ts \<Longrightarrow> CHR '','' \<notin> set w"
  shows "nth_token_right (client @ '','' @ join_with '','' ts) (length ts) = trimSpace (hd ts)"
proof -
  have "split_on CHR '','' (client @ '','' @ join_with '','' ts) = split_on CHR '','' client @ ts"
    using split_on_append [of "CHR '',''" client "join_with '','' ts"] join_split [OF assms] by simp
  then show ?thesis using assms(1)
    by (cases ts) (auto simp: nth_token_right_def Let_def rev_nth nth_append)
qed

section \<open>The buckets\<close>

definition limiter_inv :: "'b limiter \<Rightarrow> bool" where
  "limiter_inv l \<longleftrightarrow> gm_wf (buckets l) \<and> 1 \<le> rl_burst l \<and> 0 < rl_ttl l"

lemma limiter_inv_New: "limiter_inv (New c now)"
  by (auto simp: limiter_inv_def New_def Let_def defaultTTL_def)

lemma limiter_inv_Allow: "limiter_inv l \<Longrightarrow> limiter_inv (fst (Allow newLim allowN l now key))"
  by (auto simp: limiter_inv_def Allow_def evictLocked_def Let_def)

lemma Allow_other:
  assumes "limiter_inv l" and "k' \<noteq> k" and "gm_get (buckets l) k' = Some e"
    and "now - rl_lastSeen e < rl_ttl l"
  shows "gm_get (buckets (fst (Allow newLim allowN l now k))) k' = Some e"
  using assms by (auto simp: Allow_def evictLocked_def Let_def limiter_inv_def gm_get_filter)

lemma Allow_no_new_keys:
  assumes "limiter_inv l" and "k' \<noteq> k" and "gm_get (buckets l) k' = None"
  shows "gm_get (buckets (fst (Allow newLim allowN l now k))) k' = None"
  using assms by (auto simp: Allow_def evictLocked_def Let_def limiter_inv_def gm_get_filter)

section \<open>Properties\<close>

text \<open>
  C39: The address used as limiter key cannot be forged: when forwarded headers are trusted
  and the trusted proxies have appended their \<open>n\<close> tokens, the key is the first of these
  tokens, whatever the client put before them; and when they are not trusted, no header has
  any influence.
\<close>

theorem client_ip_unforgeable:
  assumes "header_get r ''X-Forwarded-For'' = client @ '','' @ join_with '','' ts"
    and "ts \<noteq> []" and "\<forall>w \<in> set ts. CHR '','' \<notin> set w" and "trimSpace (hd ts) \<noteq> []"
  shows "ClientIPHops r True (int (length ts)) = trimSpace (hd ts) \<and>
    ClientIP (r\<lparr>req_header := h\<rparr>) False = ClientIP r False"
proof
  have "1 \<le> length ts" using assms(2) by (cases ts) auto
  then show "ClientIPHops r True (int (length ts)) = trimSpace (hd ts)"
    using nth_token_right_prefix [of ts client] assms
    by (simp add: ClientIPHops_def nthFromRight_tokens)
  show "ClientIP (r\<lparr>req_header := h\<rparr>) False = ClientIP r False"
    by (simp add: ClientIP_def ClientIPHops_def Let_def split: option.splits)
qed

theorem client_ip_unforgeable_witness:
  "ClientIPHops ((get_request ''h'' ''/'')\<lparr>req_header := (\<lambda>_. [''6.6.6.6, 1.2.3.4,9.9.9.9''])\<rparr>) True 2 = ''1.2.3.4''"
proof -
  let ?r = "(get_request ''h'' ''/'')\<lparr>req_header := (\<lambda>_. [''6.6.6.6, 1.2.3.4,9.9.9.9''])\<rparr>"
  have "header_get ?r ''X-Forwarded-For'' = ''6.6.6.6'' @ '','' @ join_with '','' ['' 1.2.3.4'', ''9.9.9.9'']"
    by (simp add: header_get_def)
  moreover have "trimSpace '' 1.2.3.4'' = ''1.2.3.4''" by code_simp
  ultimately show ?thesis
    using client_ip_unforgeable [of ?r "''6.6.6.6''" "['' 1.2.3.4'', ''9.9.9.9'']"] by simp
qed

text \<open>
  The hand-written token walk returns the \<open>n\<close>-th comma-separated token from the
  right, trimmed, and the empty string when there are fewer tokens.
\<close>

theorem nthFromRight_correct:
  "nthFromRight s n =
     (let ts = rev (split_on CHR '','' s)
      in if 1 \<le> n \<and> n \<le> length ts then trimSpace (ts ! (n - 1)) else [])"
  using nthFromRight_tokens [of s n] by (simp only: nth_token_right_def)

text \<open>
  Keys are isolated: a request under one key neither changes nor removes the bucket of
  another key that has been seen within the TTL, and creates none; and a key without a bucket
  is always let through once, provided a fresh bucket of capacity at least one holds a token.
\<close>

theorem limiter_isolation:
  assumes "limiter_inv l" and "k' \<noteq> k"
    and "\<And>rps b t. 1 \<le> b \<Longrightarrow> snd (allowN (newLim rps b) t 1)"
  shows "(gm_get (buckets l) k' = None \<longrightarrow> gm_get (buckets (fst (Allow newLim allowN l now k))) k' = None) \<and>
    (\<forall>e. gm_get (buckets l) k' = Some e \<and> now - rl_lastSeen e < rl_ttl l \<longrightarrow>
       gm_get (buckets (fst (Allow newLim allowN l now k))) k' = Some e) \<and>
    (gm_get (buckets l) k = None \<longrightarrow> snd (Allow newLim allowN l now k))"
proof (intro conjI impI allI)
  show "snd (Allow newLim allowN l now k)" if "gm_get (buckets l) k = None"
    using assms(1,3) that by (auto simp: Allow_def evictLocked_def Let_def limiter_inv_def gm_get_filter)
qed (use assms Allow_other Allow_no_new_keys in blast)+

theorem limiter_isolation_witness:
  "snd (Allow (\<lambda>rps b. b) (\<lambda>b t n. (b - int n, int n \<le> b))
     (fst (Allow (\<lambda>rps b. b) (\<lambda>b t n. (b - int n, int n \<le> b))
        (New \<lparr> RPS = 1 / 2, Burst = 0, TTL = 0 \<rparr> 0) 1 ''a'')) 2 ''b'')"
proof -
  let ?l = "fst (Allow (\<lambda>rps b. b) (\<lambda>b t n. (b - int n, int n \<le> b)) (New \<lparr> RPS = 1 / 2, Burst = 0, TTL = 0 \<rparr> 0) 1 ''a'')"
  have "limiter_inv ?l" by (intro limiter_inv_Allow limiter_inv_New)
  moreover have "gm_get (buckets ?l) ''b'' = None"
    by (intro Allow_no_new_keys limiter_inv_New) (simp_all add: New_def Let_def)
  ultimately show ?thesis
    using limiter_isolation [of ?l "''a''" "''b''" "\<lambda>b t n. (b - int n, int n \<le> b)" "\<lambda>rps b. b" 2] by simp
qed

end
