(* ===== verification/Access_Control.thy ===== *)
theory Access_Control
  imports Go_Http Site_Guarantees
begin

text \<open>
  Who may sign in, which requests carry authority, and what a member of a site may do:
  the OIDC access policy (\<open>backend/internal/auth/access.go\<close>), the double-submit CSRF guard
  (\<open>auth/csrf.go\<close>) and the role matrix of the REST API (\<open>api/authz.go\<close>).

  The membership store is SQL: its \<open>GetRole\<close> query is a parameter of the definitions that
  use it, as is the site lookup. \<open>rand.Read\<close> is the token argument of \<open>Issue\<close>.
\<close>

section \<open>The sign-in policy\<close>

record accessPolicy =
  ap_emails :: "string set"
  ap_domains :: "string set"
  ap_admins :: "string set"

record accessDecision =
  ad_Allow :: bool
  ad_Admin :: bool

definition toLowerSet :: "string list \<Rightarrow> string set" where
  "toLowerSet vs = set (filter (\<lambda>v. v \<noteq> []) (map (\<lambda>v. go_lower (trim_space v)) vs))"

definition newAccessPolicy :: "string list \<Rightarrow> string list \<Rightarrow> string list \<Rightarrow> accessPolicy" where
  "newAccessPolicy allowedEmails allowedDomains adminEmails =
     \<lparr> ap_emails = toLowerSet allowedEmails, ap_domains = toLowerSet allowedDomains,
       ap_admins = toLowerSet adminEmails \<rparr>"

definition emailDomain :: "string \<Rightarrow> string" where
  "emailDomain em =
     (case last_index_byte em CHR ''@'' of
        None \<Rightarrow> []
      | Some i \<Rightarrow> if i = length em - 1 then [] else go_lower (drop (i + 1) em))"

definition decide :: "accessPolicy \<Rightarrow> string \<Rightarrow> string \<Rightarrow> accessDecision" where
  "decide p email0 hd0 =
     (let em = go_lower (trim_space email0);
          hdc = go_lower (trim_space hd0);
          deny = \<lparr> ad_Allow = False, ad_Admin = False \<rparr>
      in if ap_emails p = {} \<and> ap_domains p = {} then deny
         else
           let allow = (ap_emails p \<noteq> {} \<and> em \<in> ap_emails p);
               allow = (if \<not> allow \<and> ap_domains p \<noteq> {} then
                          if emailDomain em \<in> ap_domains p then True
                          else hdc \<noteq> [] \<and> hdc \<in> ap_domains p
                        else allow)
           in if \<not> allow then deny
              else \<lparr> ad_Allow = True, ad_Admin = (em \<in> ap_admins p) \<rparr>)"

lemma toLowerSet_iff: "s \<in> toLowerSet vs \<longleftrightarrow> s \<noteq> [] \<and> (\<exists>v \<in> set vs. s = go_lower (trim_space v))"
  by (auto simp: toLowerSet_def)

lemma toLowerSet_Nil [simp]: "toLowerSet [] = {}"
  by (simp add: toLowerSet_def)

section \<open>The CSRF guard\<close>

record CSRF =
  csrf_cookieName :: string
  csrf_secure :: bool

definition csrfHeader :: string where
  "csrfHeader = ''X-CSRF-Token''"

definition csrf_CookieName :: "CSRF \<Rightarrow> string" where
  "csrf_CookieName c = (if csrf_secure c then ''__Host-'' @ csrf_cookieName c else csrf_cookieName c)"

definition csrf_readCookie :: "CSRF \<Rightarrow> http_request \<Rightarrow> string" where
  "csrf_readCookie c r = (case cookie r (csrf_CookieName c) of None \<Rightarrow> [] | Some v \<Rightarrow> v)"

text \<open>\<open>Issue\<close>: the cookie to set, if any, and the token; \<open>None\<close> is a failure of the random source.\<close>

definition csrf_Issue :: "CSRF \<Rightarrow> string option \<Rightarrow> http_request \<Rightarrow> (set_cookie option \<times> string) option" where
  "csrf_Issue c newCSRFToken r =
     (let cur = csrf_readCookie c r in
      if cur \<noteq> [] then Some (None, cur)
      else
        (case newCSRFToken of
           None \<Rightarrow> None
         | Some tok \<Rightarrow>
             Some (Some \<lparr> sc_Name = csrf_CookieName c, sc_Value = tok, sc_Path = ''/'', sc_MaxAge = 0,
                          sc_Secure = csrf_secure c, sc_HttpOnly = False, sc_SameSite = SameSiteLaxMode \<rparr>, tok)))"

definition csrf_clearCookie :: "CSRF \<Rightarrow> set_cookie" where
  "csrf_clearCookie c =
     \<lparr> sc_Name = csrf_CookieName c, sc_Value = [], sc_Path = ''/'', sc_MaxAge = - 1,
       sc_Secure = csrf_secure c, sc_HttpOnly = False, sc_SameSite = SameSiteLaxMode \<rparr>"

definition isSafeMethod :: "string \<Rightarrow> bool" where
  "isSafeMethod m = (m = ''GET'' \<or> m = ''HEAD'' \<or> m = ''OPTIONS'' \<or> m = ''TRACE'')"

definition csrf_Verify :: "CSRF \<Rightarrow> http_request \<Rightarrow> bool" where
  "csrf_Verify c r =
     (if isSafeMethod (req_method r) then True
      else if header_get r ''Authorization'' \<noteq> [] then True
      else
        let ck = csrf_readCookie c r; h = header_get r csrfHeader in
        if ck = [] \<or> h = [] then False else ck = h)"

definition csrf_Middleware :: "CSRF \<Rightarrow> (http_request \<Rightarrow> 'w) \<Rightarrow> (http_request \<Rightarrow> 'w) \<Rightarrow> http_request \<Rightarrow> 'w" where
  "csrf_Middleware c forbidden nxt r = (if csrf_Verify c r then nxt r else forbidden r)"

section \<open>The role matrix\<close>

type_synonym site_role = string

definition SiteRoleOwner :: site_role where "SiteRoleOwner = ''owner''"
definition SiteRoleEditor :: site_role where "SiteRoleEditor = ''editor''"
definition SiteRoleViewer :: site_role where "SiteRoleViewer = ''viewer''"

datatype capability = capRead | capWrite | capPublish | capOwner

definition roleRank :: "site_role \<Rightarrow> nat" where
  "roleRank r =
     (if r = SiteRoleOwner then 3 else if r = SiteRoleEditor then 2 else if r = SiteRoleViewer then 1 else 0)"

fun minRankFor :: "capability \<Rightarrow> nat" where
  "minRankFor capRead = 1"
| "minRankFor capWrite = 2"
| "minRankFor capPublish = 2"
| "minRankFor capOwner = 3"

definition roleAllows :: "site_role \<Rightarrow> capability \<Rightarrow> bool" where
  "roleAllows r c = (minRankFor c \<le> roleRank r)"

text \<open>What \<open>GetRole\<close> can come back with: a row, no row, or a failure of the store.\<close>

datatype role_row = HasRole site_role | NoMembership | StoreFails string

record session_user =
  su_SessionID :: string
  su_UserID :: uuid
  su_Email :: string
  su_DisplayName :: string
  su_AvatarURL :: "string option"
  su_IsAdmin :: bool
  su_CanCreateSites :: bool

record access =
  acc_site :: Site
  acc_user :: session_user
  acc_role :: site_role

record api_error =
  ae_status :: nat
  ae_code :: string
  ae_message :: string

definition effectiveRole :: "(uuid \<Rightarrow> uuid \<Rightarrow> role_row) \<Rightarrow> uuid \<Rightarrow> session_user \<Rightarrow> site_role option" where
  "effectiveRole getRole siteID user =
     (case getRole siteID (su_UserID user) of
        HasRole r \<Rightarrow> Some r
      | NoMembership \<Rightarrow> if su_IsAdmin user then Some SiteRoleOwner else None
      | StoreFails e \<Rightarrow> if su_IsAdmin user then Some SiteRoleOwner else None)"

definition err_unauthenticated :: api_error where
  "err_unauthenticated = \<lparr> ae_status = 401, ae_code = ''unauthenticated'', ae_message = ''authentication required'' \<rparr>"
definition err_site_not_found :: api_error where
  "err_site_not_found = \<lparr> ae_status = 404, ae_code = ''not_found'', ae_message = ''site not found'' \<rparr>"
definition err_no_permission :: api_error where
  "err_no_permission = \<lparr> ae_status = 403, ae_code = ''forbidden'', ae_message = ''you do not have permission to do that'' \<rparr>"

definition resolveAccess ::
  "(handle \<Rightarrow> Site result) \<Rightarrow> (uuid \<Rightarrow> uuid \<Rightarrow> role_row) \<Rightarrow> session_user option \<Rightarrow> handle \<Rightarrow> capability \<Rightarrow>
   api_error + access" where
  "resolveAccess lookup getRole user h c =
     (case user of
        None \<Rightarrow> Inl err_unauthenticated
      | Some u \<Rightarrow>
          (case lookup h of
             Inl e \<Rightarrow> Inl err_site_not_found
           | Inr st \<Rightarrow>
               (case effectiveRole getRole (st_ID st) u of
                  None \<Rightarrow> Inl err_site_not_found
                | Some role \<Rightarrow>
                    if \<not> roleAllows role c then Inl err_no_permission
                    else Inr \<lparr> acc_site = st, acc_user = u, acc_role = role \<rparr>)))"

section \<open>The site directory\<close>

text \<open>
  What the authorisation code relies on: a lookup by handle that succeeds returns a live site
  with that handle, and one that fails says "not found".
\<close>

locale site_directory =
  fixes inv :: "'s \<Rightarrow> bool" and lookup :: "'s \<Rightarrow> handle \<Rightarrow> Site result" and present :: "'s \<Rightarrow> handle \<Rightarrow> uuid \<Rightarrow> bool"
  assumes found: "inv s \<Longrightarrow> lookup s h = Inr x \<Longrightarrow> present s (go_lower h) (st_ID x) \<and> st_Handle x = go_lower h"
    and listed: "inv s \<Longrightarrow> present s (go_lower h) i \<Longrightarrow> \<exists>x. lookup s h = Inr x \<and> st_ID x = i"
    and missing: "lookup s h = Inl e \<Longrightarrow> e = Sentinel ErrNotFound"
begin

lemma found_only: "inv s \<Longrightarrow> lookup s h = Inr x \<Longrightarrow> present s (go_lower h) i \<longleftrightarrow> i = st_ID x"
  using found [of s h x] listed [of s h i] by auto

lemma none_present: "inv s \<Longrightarrow> lookup s h = Inl e \<Longrightarrow> \<not> present s (go_lower h) i"
  using listed [of s h i] by auto

lemma access_granted:
  assumes "inv s"
  shows "(\<exists>a. resolveAccess (lookup s) getRole (Some u) h c = Inr a) \<longleftrightarrow>
    (\<exists>i r. present s (go_lower h) i \<and> effectiveRole getRole i u = Some r \<and> roleAllows r c)"
proof (cases "lookup s h")
  case (Inl e)
  then show ?thesis using none_present [OF assms Inl] by (auto simp: resolveAccess_def)
next
  case (Inr x)
  show ?thesis using found_only [OF assms Inr] Inr by (auto simp: resolveAccess_def split: option.splits)
qed

lemma access_hidden:
  assumes "inv s"
  shows "resolveAccess (lookup s) getRole (Some u) h c = Inl err_site_not_found \<longleftrightarrow>
    (\<forall>i. present s (go_lower h) i \<longrightarrow> effectiveRole getRole i u = None)"
proof (cases "lookup s h")
  case (Inl e)
  then show ?thesis using none_present [OF assms Inl] by (auto simp: resolveAccess_def)
next
  case (Inr x)
  show ?thesis using found_only [OF assms Inr] Inr
    by (auto simp: resolveAccess_def err_no_permission_def err_site_not_found_def split: option.splits)
qed

end

definition live_site_id :: "FakeService \<Rightarrow> handle \<Rightarrow> uuid \<Rightarrow> bool" where
  "live_site_id f h i \<longleftrightarrow> (\<exists>s. gm_get (sites f) i = Some s \<and> is_live s \<and> sr_Handle (rec s) = h)"

lemma toSite_simps [simp]: "st_ID (toSite r) = sr_ID r" "st_Handle (toSite r) = sr_Handle r"
  "st_PublishMode (toSite r) = sr_PublishMode r"
  by (simp_all add: toSite_def Let_def)

interpretation svc_directory: site_directory svc_inv GetSiteByHandle live_site_id
proof
  fix s h x
  assume inv: "svc_inv s" and r: "GetSiteByHandle s h = Inr x"
  then obtain t where t: "live_by_handle s (go_lower h) = Some t" "x = toSite (rec t)"
    by (auto simp: GetSiteByHandle_def split: option.splits)
  obtain i where i: "(i, t) \<in> set (sites s)" "is_live t" "sr_Handle (rec t) = go_lower h"
    using live_by_handle_Some [OF t(1)] by blast
  have "gm_get (sites s) i = Some t" using inv i(1) by (simp add: svc_inv_def gm_in_get)
  then show "live_site_id s (go_lower h) (st_ID x) \<and> st_Handle x = go_lower h"
    using i t(2) svc_site [OF inv, of i t] by (auto simp: live_site_id_def)
next
  fix s h i
  assume inv: "svc_inv s" and "live_site_id s (go_lower h) i"
  then obtain t where t: "gm_get (sites s) i = Some t" "is_live t" "sr_Handle (rec t) = go_lower h"
    by (auto simp: live_site_id_def)
  have "GetSiteByHandle s h = Inr (toSite (rec t))"
    using live_by_handle_eq [OF inv t(1,2)] t(3) by (simp add: GetSiteByHandle_def)
  then show "\<exists>x. GetSiteByHandle s h = Inr x \<and> st_ID x = i" using svc_site [OF inv t(1)] by simp
next
  fix s h e
  assume "GetSiteByHandle s h = Inl e"
  then show "e = Sentinel ErrNotFound" by (simp add: GetSiteByHandle_def split: option.splits)
qed

definition example_user :: session_user where
  "example_user = \<lparr> su_SessionID = ''session'', su_UserID = ''u'', su_Email = ''u@example.com'', su_DisplayName = [],
     su_AvatarURL = None, su_IsAdmin = False, su_CanCreateSites = False \<rparr>"

section \<open>Properties\<close>

text \<open>
  The sign-in gate is exact and fails closed. A verified identity is let in precisely
  when its normalised address is on the allow list, or the domain of the address or the
  asserted hosted domain is on the domain list; it is an administrator only when it is let in
  and its own address is on the administrator list; and with both lists empty nobody is let
  in.
\<close>

theorem sign_in_exact:
  "(ad_Allow (decide (newAccessPolicy es ds adm) em hdc) \<longleftrightarrow>
      go_lower (trim_space em) \<in> toLowerSet es \<or>
      emailDomain (go_lower (trim_space em)) \<in> toLowerSet ds \<or>
      go_lower (trim_space hdc) \<in> toLowerSet ds) \<and>
   (ad_Admin (decide (newAccessPolicy es ds adm) em hdc) \<longleftrightarrow>
      ad_Allow (decide (newAccessPolicy es ds adm) em hdc) \<and> go_lower (trim_space em) \<in> toLowerSet adm) \<and>
   \<not> ad_Allow (decide (newAccessPolicy [] [] adm) em hdc)"
proof -
  have "go_lower [] \<notin> toLowerSet ds" by (simp add: toLowerSet_iff)
  then show ?thesis by (auto simp: decide_def newAccessPolicy_def Let_def)
qed

text \<open>
  The CSRF guard. An unsafe request without an \<open>Authorization\<close> header passes exactly
  when it carries a non-empty token in the guard's own cookie and the same token in the
  header; a cookie of any other name, such as one tossed by a hosted subdomain under the bare
  name, changes nothing; and the token handed out by \<open>Issue\<close> passes when it is echoed.
\<close>

theorem csrf_exact:
  assumes "\<not> isSafeMethod (req_method r)" and "header_get r ''Authorization'' = []"
  shows "(csrf_Verify c r \<longleftrightarrow>
      (\<exists>tok. tok \<noteq> [] \<and> cookie r (csrf_CookieName c) = Some tok \<and> header_get r csrfHeader = tok)) \<and>
    (\<forall>n v. n \<noteq> csrf_CookieName c \<longrightarrow>
      csrf_Verify c (r\<lparr> req_cookies := (n, v) # req_cookies r \<rparr>) = csrf_Verify c r) \<and>
    (\<forall>tok ck. tok \<noteq> [] \<longrightarrow> cookie r (csrf_CookieName c) = None \<longrightarrow> csrf_Issue c (Some tok) r = Some (Some ck, tok) \<longrightarrow>
      csrf_Verify c (r\<lparr> req_cookies := (sc_Name ck, sc_Value ck) # req_cookies r,
        req_header := (req_header r)(csrfHeader := [tok]) \<rparr>))"
proof (intro conjI allI impI)
  show "csrf_Verify c r \<longleftrightarrow>
      (\<exists>tok. tok \<noteq> [] \<and> cookie r (csrf_CookieName c) = Some tok \<and> header_get r csrfHeader = tok)"
    using assms by (auto simp: csrf_Verify_def csrf_readCookie_def Let_def split: option.splits)
next
  fix n v
  assume "n \<noteq> csrf_CookieName c"
  then show "csrf_Verify c (r\<lparr> req_cookies := (n, v) # req_cookies r \<rparr>) = csrf_Verify c r"
    by (simp add: csrf_Verify_def csrf_readCookie_def cookie_def header_get_def)
next
  fix tok ck
  assume a: "tok \<noteq> []" "cookie r (csrf_CookieName c) = None" "csrf_Issue c (Some tok) r = Some (Some ck, tok)"
  then have ck: "sc_Name ck = csrf_CookieName c" "sc_Value ck = tok"
    by (auto simp: csrf_Issue_def csrf_readCookie_def)
  have "''Authorization'' \<noteq> csrfHeader" by (simp add: csrfHeader_def)
  then show "csrf_Verify c (r\<lparr> req_cookies := (sc_Name ck, sc_Value ck) # req_cookies r,
        req_header := (req_header r)(csrfHeader := [tok]) \<rparr>)"
    using assms a(1) ck by (simp add: csrf_Verify_def csrf_readCookie_def cookie_def header_get_def)
qed

theorem csrf_exact_witness:
  "\<not> csrf_Verify \<lparr> csrf_cookieName = ''csrf'', csrf_secure = True \<rparr>
     ((get_request ''h'' ''/'')\<lparr> req_method := ''POST'', req_cookies := [(''csrf'', ''x'')] \<rparr>)"
proof -
  let ?c = "\<lparr> csrf_cookieName = ''csrf'', csrf_secure = True \<rparr>"
  let ?r = "(get_request ''h'' ''/'')\<lparr> req_method := ''POST'', req_cookies := [(''csrf'', ''x'')] \<rparr>"
  have h: "\<not> isSafeMethod (req_method ?r)" "header_get ?r ''Authorization'' = []"
    by (simp_all add: isSafeMethod_def header_get_def get_request_def)
  have "cookie ?r (csrf_CookieName ?c) = None" by (simp add: cookie_def csrf_CookieName_def)
  then show ?thesis using csrf_exact [OF h, of ?c] by simp
qed

text \<open>
  C19: What the REST API lets a signed-in user do. For a user who is not an instance
  administrator, a request on a handle is granted exactly when a live site has that handle
  and the user's membership role on it has the capability; a member whose role lacks it is
  told so (403); and a user without a membership gets the very answer (404) a handle that
  belongs to no site gets, so existence is not revealed.
\<close>

theorem rest_access_exact:
  assumes "reachable f" and "\<not> su_IsAdmin u"
  shows "((\<exists>a. resolveAccess (GetSiteByHandle f) getRole (Some u) h c = Inr a) \<longleftrightarrow>
      (\<exists>i r. live_site_id f (go_lower h) i \<and> getRole i (su_UserID u) = HasRole r \<and> roleAllows r c)) \<and>
    (resolveAccess (GetSiteByHandle f) getRole (Some u) h c = Inl err_site_not_found \<longleftrightarrow>
      \<not> (\<exists>i r. live_site_id f (go_lower h) i \<and> getRole i (su_UserID u) = HasRole r)) \<and>
    (resolveAccess (GetSiteByHandle f) getRole (Some u) h c = Inl err_no_permission \<longleftrightarrow>
      (\<exists>i r. live_site_id f (go_lower h) i \<and> getRole i (su_UserID u) = HasRole r \<and> \<not> roleAllows r c))"
proof -
  note inv = reachable_inv [OF assms(1)]
  have eff: "effectiveRole getRole i u = Some r \<longleftrightarrow> getRole i (su_UserID u) = HasRole r" for i r
    using assms(2) by (auto simp: effectiveRole_def split: role_row.splits)
  have none: "effectiveRole getRole i u = None \<longleftrightarrow> \<not> (\<exists>r. getRole i (su_UserID u) = HasRole r)" for i
    using eff [of i] by (cases "effectiveRole getRole i u") auto
  have uniq: "i = j" if "live_site_id f hh i" "live_site_id f hh j" for i j hh
    using that inv unfolding live_site_id_def svc_inv_def by blast
  have three: "resolveAccess (GetSiteByHandle f) getRole (Some u) h c = Inl err_no_permission \<longleftrightarrow>
      \<not> (\<exists>a. resolveAccess (GetSiteByHandle f) getRole (Some u) h c = Inr a) \<and>
      resolveAccess (GetSiteByHandle f) getRole (Some u) h c \<noteq> Inl err_site_not_found"
    by (auto simp: resolveAccess_def err_no_permission_def err_site_not_found_def split: sum.splits option.splits)
  show ?thesis
  proof (cases "\<exists>i. live_site_id f (go_lower h) i")
    case True
    then obtain i0 where i0: "live_site_id f (go_lower h) i \<longleftrightarrow> i = i0" for i using uniq by metis
    show ?thesis
      unfolding three svc_directory.access_granted [OF inv] svc_directory.access_hidden [OF inv] eff none i0
      by (cases "getRole i0 (su_UserID u)") simp_all
  next
    case False
    then show ?thesis
      unfolding three svc_directory.access_granted [OF inv] svc_directory.access_hidden [OF inv] by simp
  qed
qed

theorem rest_access_exact_witness:
  "\<exists>a. resolveAccess (GetSiteByHandle example_svc) (\<lambda>i u. HasRole SiteRoleEditor)
     (Some example_user) ''shop'' capWrite = Inr a"
proof -
  have h: "map_option (\<lambda>s. (sr_DeletedAt (rec s), sr_Handle (rec s))) (gm_get (sites example_svc) ''s1'') = Some (None, ''shop'')"
    and l: "go_lower ''shop'' = ''shop''" and r: "roleAllows SiteRoleEditor capWrite" by code_simp+
  from h have "live_site_id example_svc ''shop'' ''s1''" by (auto simp: live_site_id_def is_live_def)
  with rest_access_exact [OF example_reachable, of "example_user"
      "\<lambda>i u. HasRole SiteRoleEditor" "''shop''" capWrite] l r
  show ?thesis by (auto simp: example_user_def)
qed

end
