(* ===== verification/Mcp_Registry.thy ===== *)
theory Mcp_Registry
  imports Access_Control Rate_Limit
begin

text \<open>
  The frame every MCP tool runs in (\<open>backend/internal/mcpserver\<close>): the bearer token verifier
  (\<open>verifier.go\<close>), the per-token rate gate (\<open>limits.go\<close>), the guard, the error envelope and
  the path gate (\<open>registry.go\<close>), and the membership cap (\<open>authz.go\<close>).

  SQL queries are parameters (\<open>GetUserTokenByPrefix\<close>, \<open>GetRole\<close>), so are SHA-256 and the
  token bucket of \<open>golang.org/x/time/rate\<close>. A tool returns a value, a structured tool error,
  or a Go error that the transport reports as an internal failure.
\<close>

section \<open>Scopes, codes and the error envelope\<close>

type_synonym scope = string

definition scopeRead :: scope where "scopeRead = ''read''"
definition scopeWrite :: scope where "scopeWrite = ''write''"
definition scopePublish :: scope where "scopePublish = ''publish''"

type_synonym errorCode = string

definition codeUnauthenticated :: errorCode where "codeUnauthenticated = ''unauthenticated''"
definition codeForbidden :: errorCode where "codeForbidden = ''forbidden''"
definition codeValidation :: errorCode where "codeValidation = ''validation''"
definition codeConflict :: errorCode where "codeConflict = ''conflict''"
definition codeNotFound :: errorCode where "codeNotFound = ''not_found''"
definition codeHandleTaken :: errorCode where "codeHandleTaken = ''handle_taken''"
definition codePublishConflict :: errorCode where "codePublishConflict = ''publish_conflict''"
definition codeBranchExists :: errorCode where "codeBranchExists = ''branch_exists''"
definition codeNothingToCommit :: errorCode where "codeNothingToCommit = ''nothing_to_commit''"
definition codeTooLarge :: errorCode where "codeTooLarge = ''too_large''"
definition codeRateLimited :: errorCode where "codeRateLimited = ''rate_limited''"
definition codeQuotaExceeded :: errorCode where "codeQuotaExceeded = ''quota_exceeded''"

datatype detail = DString string | DStrings "string list" | DInt int

record toolErrorBody =
  te_Code :: errorCode
  te_Message :: string
  te_Details :: "(string \<times> detail) list"
  te_Retryable :: bool

datatype tool_fail = ToolError toolErrorBody | GoError string

type_synonym 'o tool_result = "tool_fail + 'o"

definition retryableFor :: "errorCode \<Rightarrow> bool" where
  "retryableFor code = (code = codeConflict \<or> code = codeRateLimited)"

definition toolErr :: "errorCode \<Rightarrow> string \<Rightarrow> (string \<times> detail) list \<Rightarrow> tool_fail" where
  "toolErr code msg details =
     ToolError \<lparr> te_Code = code, te_Message = msg, te_Details = details, te_Retryable = retryableFor code \<rparr>"

text \<open>\<open>errors.As\<close> picks the structured detail out of a conflict or a validation error.\<close>

fun conflict_details :: "site_error \<Rightarrow> (string \<times> detail) list" where
  "conflict_details (ConflictError b expected actual paths) =
     [(''expected'', DString expected), (''actual'', DString actual), (''current_sha'', DString actual),
      (''changed_paths'', DStrings paths)]"
| "conflict_details _ = []"

fun publish_details :: "site_error \<Rightarrow> (string \<times> detail) list" where
  "publish_details (PublishConflictError paths) = [(''paths'', DStrings paths)]"
| "publish_details _ = []"

fun validation_text :: "site_error \<Rightarrow> string" where
  "validation_text (ValidationError field reason) = field @ '': '' @ reason"
| "validation_text _ = ''validation failed''"

definition mapError :: "site_error \<Rightarrow> string \<Rightarrow> tool_fail" where
  "mapError e action =
     (if err_is e ErrConflict then
        toolErr codeConflict ''branch moved since base_sha; re-read and retry'' (conflict_details e)
      else if err_is e ErrPublishConflict then toolErr codePublishConflict ''publish merge conflict'' (publish_details e)
      else if err_is e ErrNotFound then toolErr codeNotFound ''not found'' []
      else if err_is e ErrHandleTaken then toolErr codeHandleTaken ''handle already taken'' []
      else if err_is e ErrBranchExists then toolErr codeBranchExists ''branch already exists'' []
      else if err_is e ErrNothingToCommit then toolErr codeNothingToCommit ''nothing to commit'' []
      else if err_is e ErrForbidden then toolErr codeForbidden ''forbidden'' []
      else if err_is e ErrReservedHandle then toolErr codeValidation ''handle is reserved'' []
      else if err_is e ErrValidation then toolErr codeValidation (validation_text e) []
      else if err_is e ErrZipTooLarge \<or> err_is e ErrZipTooManyFiles then toolErr codeTooLarge ''upload too large'' []
      else if err_is e ErrQuotaExceeded then toolErr codeQuotaExceeded ''per-site disk quota exceeded'' []
      else GoError (''internal error during '' @ action))"

section \<open>Paths\<close>

definition maxPathSegmentBytes :: nat where "maxPathSegmentBytes = 255"
definition maxPathTotalBytes :: nat where "maxPathTotalBytes = 1024"

definition mcpWriteDeniedExt :: "string list" where
  "mcpWriteDeniedExt = [''.mp4'', ''.webm'', ''.mp3'', ''.wav'', ''.pdf'']"

definition mcp_extAllowedForMCPWrite :: "string \<Rightarrow> bool" where
  "mcp_extAllowedForMCPWrite p =
     (let ext = go_lower (path_ext p)
      in if map_of MIMEByExt ext = None then False else ext \<notin> set mcpWriteDeniedExt)"

fun content_segments :: "string list \<Rightarrow> tool_fail option" where
  "content_segments [] = None"
| "content_segments (seg # segs) =
     (if maxPathSegmentBytes < length seg then Some (toolErr codeValidation ''path: segment too long'' [])
      else if seg = dotdot then Some (toolErr codeValidation ''path: must not contain \"..\" segments'' [])
      else if seg = ''.git'' then Some (toolErr codeValidation ''path: must not reference the \".git\" directory'' [])
      else content_segments segs)"

definition validateContentPath :: "string \<Rightarrow> bool \<Rightarrow> string tool_result" where
  "validateContentPath p forWrite =
     (if p = [] then Inl (toolErr codeValidation ''path: must not be empty'' [])
      else if CHR 0x00 \<in> set p then Inl (toolErr codeValidation ''path: must not contain NUL bytes'' [])
      else if CHR 0x5C \<in> set p then Inl (toolErr codeValidation ''path: must use forward slashes'' [])
      else if has_prefix p ''/'' then Inl (toolErr codeValidation ''path: must be repo-relative (no leading slash)'' [])
      else if maxPathTotalBytes < length p then Inl (toolErr codeValidation ''path: too long'' [])
      else if \<not> is_local p then Inl (toolErr codeValidation ''path: must not escape the repo root'' [])
      else
        let clean = path_clean p in
        if clean = dot \<or> clean = [] then
          Inl (toolErr codeValidation ''path: must reference a file, not the root'' [])
        else
          (case content_segments (split_on slash clean) of
             Some e \<Rightarrow> Inl e
           | None \<Rightarrow>
               if forWrite \<and> \<not> mcp_extAllowedForMCPWrite clean then
                 Inl (toolErr codeValidation ''path: file extension is not allowed for MCP write (text/static only)'' [])
               else Inr clean))"

section \<open>The principal\<close>

record TokenInfo =
  ti_UserID :: uuid
  ti_TokenID :: uuid
  ti_Scopes :: "scope list"
  ti_CanCreateSites :: bool

record token_row =
  tr_ID :: uuid
  tr_UserID :: uuid
  tr_TokenHash :: string
  tr_Scopes :: "scope list"
  tr_CanCreateSites :: bool
  tr_ExpiresAt :: "int option"
  tr_UserCanCreateSites :: bool

definition tokenPrefix :: string where "tokenPrefix = ''kotoji_pat_''"
definition prefixLen :: nat where "prefixLen = 12"

text \<open>9999-01-01 in nanoseconds.\<close>

definition noExpiry :: int where "noExpiry = 253370764800 * 1000000000"

text \<open>
  \<open>Verify\<close> fails with \<open>ErrInvalidToken\<close> (401) or, when the query fails, with a plain error
  (500); the row whose last use is stamped is part of the result.
\<close>

datatype verify_result = InvalidToken string | LookupFails string | Verified TokenInfo (expiry: int) (touched: uuid)

definition Verify ::
  "(string \<Rightarrow> string + token_row list) \<Rightarrow> (string \<Rightarrow> string) \<Rightarrow> int \<Rightarrow> string \<Rightarrow> verify_result" where
  "Verify byPrefix sha256 now token =
     (if \<not> has_prefix token tokenPrefix then InvalidToken ''mcpserver: malformed token''
      else if length token < prefixLen then InvalidToken ''mcpserver: short token''
      else
        (case byPrefix (take prefixLen token) of
           Inl e \<Rightarrow> LookupFails (''mcpserver: token lookup: '' @ e)
         | Inr rows \<Rightarrow>
             (case find (\<lambda>r. tr_TokenHash r = sha256 token) rows of
                None \<Rightarrow> InvalidToken ''mcpserver: unknown token''
              | Some r \<Rightarrow>
                  if (case tr_ExpiresAt r of Some t \<Rightarrow> \<not> now < t | None \<Rightarrow> False) then
                    InvalidToken ''mcpserver: expired token''
                  else
                    Verified
                      \<lparr> ti_UserID = tr_UserID r, ti_TokenID = tr_ID r, ti_Scopes = tr_Scopes r,
                        ti_CanCreateSites = (tr_CanCreateSites r \<and> tr_UserCanCreateSites r) \<rparr>
                      (case tr_ExpiresAt r of Some t \<Rightarrow> t | None \<Rightarrow> noExpiry) (tr_ID r))))"

section \<open>Limits and the rate gate\<close>

datatype toolClass = classRead | classWrite | classPublish | classCreate

record Limits =
  MaxFileBytes :: int
  MaxReadBytes :: int
  MaxDiffBytes :: int
  MaxListItems :: int
  MaxLogLimit :: int

definition limits_withDefaults :: "Limits \<Rightarrow> Limits" where
  "limits_withDefaults l =
     \<lparr> MaxFileBytes = (if MaxFileBytes l \<le> 0 then 5 * 1048576 else MaxFileBytes l),
       MaxReadBytes = (if MaxReadBytes l \<le> 0 then 1048576 else MaxReadBytes l),
       MaxDiffBytes = (if MaxDiffBytes l \<le> 0 then 1048576 else MaxDiffBytes l),
       MaxListItems = (if MaxListItems l \<le> 0 then 5000 else MaxListItems l),
       MaxLogLimit = (if MaxLogLimit l \<le> 0 then 100 else MaxLogLimit l) \<rparr>"

definition DefaultLimits :: Limits where
  "DefaultLimits = limits_withDefaults \<lparr> MaxFileBytes = 0, MaxReadBytes = 0, MaxDiffBytes = 0, MaxListItems = 0, MaxLogLimit = 0 \<rparr>"

text \<open>\<open>settings\<close>: calls per minute and burst of each class.\<close>

fun rateSetting :: "toolClass \<Rightarrow> int \<times> int" where
  "rateSetting classRead = (120, 30)"
| "rateSetting classWrite = (30, 10)"
| "rateSetting classPublish = (6, 3)"
| "rateSetting classCreate = (3, 3)"

type_synonym 'b memoryLimiter = "(uuid \<times> toolClass, 'b) gomap"

text \<open>
  The bucket operations: \<open>newLim\<close> is \<open>rate.NewLimiter\<close>, \<open>reserveN\<close> is \<open>ReserveN(now, 1)\<close>
  with the delay of the reservation (\<open>None\<close> when it is not OK), \<open>cancel\<close> undoes it.
\<close>

definition mcp_Allow ::
  "(rat \<Rightarrow> int \<Rightarrow> 'b) \<Rightarrow> ('b \<Rightarrow> int \<Rightarrow> 'b \<times> int option) \<Rightarrow> ('b \<Rightarrow> 'b) \<Rightarrow>
   'b memoryLimiter \<Rightarrow> int \<Rightarrow> uuid \<Rightarrow> toolClass \<Rightarrow> 'b memoryLimiter \<times> bool \<times> int" where
  "mcp_Allow newLim reserveN cancel m now tokenID cls =
     (let lim = (case gm_get m (tokenID, cls) of
                   Some l \<Rightarrow> l
                 | None \<Rightarrow> newLim (of_int (fst (rateSetting cls)) / 60) (snd (rateSetting cls)))
      in (case reserveN lim now of
            (l', None) \<Rightarrow> (gm_put (tokenID, cls) l' m, False, 1000000000)
          | (l', Some delay) \<Rightarrow>
              if 0 < delay then (gm_put (tokenID, cls) (cancel l') m, False, delay)
              else (gm_put (tokenID, cls) l' m, True, 0)))"

definition retry_seconds :: "int \<Rightarrow> int" where
  "retry_seconds d = (d + 999000000) div 1000000000"

text \<open>The guard around a tool: \<open>limiter\<close> is the rate gate, \<open>claims\<close> the verified principal.\<close>

definition guard ::
  "('l \<Rightarrow> uuid \<Rightarrow> toolClass \<Rightarrow> 'l \<times> bool \<times> int) \<Rightarrow> 'l \<Rightarrow> 's \<Rightarrow> toolClass \<Rightarrow> TokenInfo option \<Rightarrow>
   (TokenInfo \<Rightarrow> 's \<times> 'o tool_result) \<Rightarrow> 'l \<times> 's \<times> 'o tool_result" where
  "guard limiter l s cls claims fn =
     (case claims of
        None \<Rightarrow> (l, s, Inl (toolErr codeUnauthenticated ''invalid or missing token'' []))
      | Some c \<Rightarrow>
          (case limiter l (ti_TokenID c) cls of
             (l', False, retryAfter) \<Rightarrow>
               (l', s, Inl (toolErr codeRateLimited ''rate limit exceeded; back off and retry''
                              [(''retry_after'', DInt (retry_seconds retryAfter))]))
           | (l', True, _) \<Rightarrow> (case fn c of (s', r) \<Rightarrow> (l', s', r))))"

section \<open>The membership cap\<close>

definition roleScopes :: "site_role \<Rightarrow> scope list" where
  "roleScopes r =
     (if r = SiteRoleOwner \<or> r = SiteRoleEditor then [scopeRead, scopeWrite, scopePublish]
      else if r = SiteRoleViewer then [scopeRead] else [])"

definition intersectScopes :: "scope list \<Rightarrow> site_role \<Rightarrow> scope list" where
  "intersectScopes tokenScopes role = filter (\<lambda>sc. sc \<in> set tokenScopes) (roleScopes role)"

definition isSiteBusinessError :: "site_error \<Rightarrow> bool" where
  "isSiteBusinessError e = (err_is e ErrNotFound \<or> err_is e ErrValidation \<or> err_is e ErrReservedHandle)"

record authorized =
  au_site :: Site
  au_role :: site_role
  au_scopes :: "scope list"

definition mcp_site_not_found :: tool_fail where
  "mcp_site_not_found = toolErr codeNotFound ''site not found'' []"

definition authorizeSite ::
  "(handle \<Rightarrow> Site result) \<Rightarrow> (uuid \<Rightarrow> uuid \<Rightarrow> role_row) \<Rightarrow> TokenInfo \<Rightarrow> handle \<Rightarrow> scope \<Rightarrow> authorized tool_result" where
  "authorizeSite lookup getRole c h needed =
     (if h = [] then Inl (toolErr codeValidation ''site: required'' [])
      else
        (case lookup h of
           Inl e \<Rightarrow> if isSiteBusinessError e then Inl mcp_site_not_found else Inl (mapError e ''authorize_site'')
         | Inr s \<Rightarrow>
             (case getRole (st_ID s) (ti_UserID c) of
                NoMembership \<Rightarrow> Inl mcp_site_not_found
              | StoreFails e \<Rightarrow> Inl (mapError (ForeignError e) ''authorize_site'')
              | HasRole role \<Rightarrow>
                  let eff = intersectScopes (ti_Scopes c) role in
                  if needed \<notin> set eff then
                    Inl (toolErr codeForbidden (''your effective access on this site does not grant '' @ needed)
                           [(''role'', DString role), (''effective_scopes'', DStrings eff)])
                  else Inr \<lparr> au_site = s, au_role = role, au_scopes = eff \<rparr>)))"

end
