(* ===== verification/Mcp_Authz.thy ===== *)
theory Mcp_Authz
  imports Mcp_Registry
begin

text \<open>
  What the frame around the MCP tools guarantees: the path gate against the gate of the
  service, the membership cap against the role matrix of the REST API, the token verifier and
  the error envelope.
\<close>

section \<open>Cleaning a relative path\<close>

lemma clean_step_set: "set (clean_step r st seg) \<subseteq> set st \<union> {seg, dotdot}"
  by (auto simp: clean_step_def split: list.splits if_splits)

lemma clean_fold_set: "set (foldl (clean_step r) st segs) \<subseteq> set st \<union> set segs \<union> {dotdot}"
proof (induction segs arbitrary: st)
  case (Cons s segs)
  then show ?case using Cons [of "clean_step r st s"] clean_step_set [of r st s] by auto
qed auto

lemma clean_segs_set: "set (clean_segs r segs) \<subseteq> set segs \<union> {dotdot}"
  using clean_fold_set [of r "[]" segs] by (simp add: clean_segs_def)

lemma join_with_chars: "c \<in> set (join_with sep ws) \<Longrightarrow> c \<in> set sep \<or> (\<exists>w \<in> set ws. c \<in> set w)"
  by (induction sep ws rule: join_with.induct) auto

lemma split_on_chars: "w \<in> set (split_on c s) \<Longrightarrow> set w \<subseteq> set s"
proof (induction s arbitrary: w)
  case (Cons x s)
  then show ?case by (cases "split_on c s") (fastforce split: if_splits)+
qed simp

lemma path_clean_chars:
  assumes "\<not> has_prefix p [slash]" and "c \<in> set (path_clean p)"
  shows "c \<in> set p \<or> c = slash \<or> c = CHR ''.''"
proof -
  let ?ws = "clean_segs False (split_on slash p)"
  have "c \<in> set (join_with [slash] ?ws) \<or> c = CHR ''.''"
    using assms by (auto simp: path_clean_def Let_def split: if_splits)
  then show ?thesis
  proof
    assume "c \<in> set (join_with [slash] ?ws)"
    then consider "c = slash" | w where "w \<in> set ?ws" "c \<in> set w" using join_with_chars by fastforce
    then show ?thesis
    proof cases
      case (2 w)
      then have "w \<in> set (split_on slash p) \<or> w = dotdot" using clean_segs_set by blast
      then show ?thesis using 2(2) split_on_chars by auto
    qed simp
  qed simp
qed

text \<open>The gate of the service on a cleaned path: the same as on the path itself.\<close>

lemma clean_accepted:
  assumes "\<not> has_prefix p [slash]" and "clean_segs False (split_on slash p) \<noteq> []"
    and "CHR 0x00 \<notin> set p" and "CHR 0x5C \<notin> set p"
  shows "split_on slash (path_clean p) = clean_segs False (split_on slash p)"
    and "clean_segs False (split_on slash (path_clean p)) = clean_segs False (split_on slash p)"
    and "\<not> has_prefix (path_clean p) [slash]" and "path_clean p \<noteq> []"
    and "CHR 0x00 \<notin> set (path_clean p)" and "CHR 0x5C \<notin> set (path_clean p)"
proof -
  let ?ws = "clean_segs False (split_on slash p)"
  show split: "split_on slash (path_clean p) = ?ws"
    using split_clean_rel [OF assms(1)] assms(2) by (simp split: list.splits)
  show "clean_segs False (split_on slash (path_clean p)) = ?ws"
    unfolding split by (rule clean_segs_idem) (rule split_seg_no_slash)
  have body: "path_clean p = join_with [slash] ?ws"
    using assms(1,2) clean_body_Nil by (simp add: path_clean_def Let_def)
  show "\<not> has_prefix (path_clean p) [slash]" unfolding body by (rule not_rooted_body)
  show "path_clean p \<noteq> []" unfolding body using assms(2) clean_body_Nil by blast
  have "CHR 0x00 \<noteq> slash" "CHR 0x00 \<noteq> CHR ''.''" "CHR 0x5C \<noteq> slash" "CHR 0x5C \<noteq> CHR ''.''" by simp_all
  then show "CHR 0x00 \<notin> set (path_clean p)" "CHR 0x5C \<notin> set (path_clean p)"
    using path_clean_chars [OF assms(1)] assms(3,4) by blast+
qed

lemma content_segments_iff:
  "content_segments segs = None \<longleftrightarrow>
   (\<forall>seg \<in> set segs. length seg \<le> maxPathSegmentBytes \<and> seg \<noteq> dotdot \<and> seg \<noteq> gitDirSegment)"
  by (induction segs) (auto simp: gitDirSegment_def)

lemma ext_same: "mcp_extAllowedForMCPWrite = extAllowedForMCPWrite"
  by (simp add: fun_eq_iff mcp_extAllowedForMCPWrite_def extAllowedForMCPWrite_def mcpWriteDeniedExt_def mcpWriteDenied_def)

lemma validateContentPath_iff:
  "validateContentPath p w = Inr c \<longleftrightarrow>
   p \<noteq> [] \<and> CHR 0x00 \<notin> set p \<and> CHR 0x5C \<notin> set p \<and> \<not> has_prefix p [slash] \<and> length p \<le> maxPathTotalBytes \<and>
   clean_segs False (split_on slash p) \<noteq> [] \<and>
   (\<forall>seg \<in> set (clean_segs False (split_on slash p)).
      length seg \<le> maxPathSegmentBytes \<and> plain_seg seg \<and> seg \<noteq> gitDirSegment) \<and>
   (w \<longrightarrow> extAllowedForMCPWrite (path_clean p)) \<and> c = path_clean p"
proof (cases "p \<noteq> [] \<and> CHR 0x00 \<notin> set p \<and> CHR 0x5C \<notin> set p \<and> \<not> has_prefix p [slash] \<and> is_local p")
  case True
  let ?ws = "clean_segs False (split_on slash p)"
  have sp: "split_on slash (path_clean p) = (case ?ws of [] \<Rightarrow> [dot] | ws \<Rightarrow> ws)"
    using True by (intro split_clean_rel) simp
  have plain: "\<forall>seg \<in> set ?ws. plain_seg seg" using True is_local_iff [of p] by (simp add: list_all_iff)
  have root: "path_clean p = dot \<or> path_clean p = [] \<longleftrightarrow> ?ws = []"
    by (rule clean_root_iff) (use True plain in \<open>auto simp: list_all_iff\<close>)
  have "validateContentPath p w = Inr c \<longleftrightarrow> length p \<le> maxPathTotalBytes \<and> ?ws \<noteq> [] \<and>
      content_segments (split_on slash (path_clean p)) = None \<and> (w \<longrightarrow> extAllowedForMCPWrite (path_clean p)) \<and> c = path_clean p"
    using True root by (auto simp: validateContentPath_def Let_def ext_same split: option.splits)
  also have "\<dots> \<longleftrightarrow> length p \<le> maxPathTotalBytes \<and> ?ws \<noteq> [] \<and>
      (\<forall>seg \<in> set ?ws. length seg \<le> maxPathSegmentBytes \<and> plain_seg seg \<and> seg \<noteq> gitDirSegment) \<and>
      (w \<longrightarrow> extAllowedForMCPWrite (path_clean p)) \<and> c = path_clean p"
    using sp plain by (auto simp: content_segments_iff split: list.splits)
  finally show ?thesis using True by blast
next
  case False
  then have "\<not> (p \<noteq> [] \<and> CHR 0x00 \<notin> set p \<and> CHR 0x5C \<notin> set p \<and> \<not> has_prefix p [slash] \<and>
      (\<forall>seg \<in> set (clean_segs False (split_on slash p)). plain_seg seg))"
    using is_local_iff [of p] by (auto simp: list_all_iff)
  moreover have "validateContentPath p w \<noteq> Inr c"
    using False by (auto simp: validateContentPath_def)
  ultimately show ?thesis by blast
qed

section \<open>The membership cap\<close>

text \<open>The REST capability that corresponds to an MCP scope.\<close>

fun scope_capability :: "scope \<Rightarrow> capability option" where
  "scope_capability sc =
     (if sc = scopeRead then Some capRead else if sc = scopeWrite then Some capWrite
      else if sc = scopePublish then Some capPublish else None)"

lemma roleScopes_allow:
  "sc \<in> set (roleScopes r) \<longleftrightarrow> (\<exists>c. scope_capability sc = Some c \<and> roleAllows r c)"
  by (auto simp: roleScopes_def roleAllows_def roleRank_def scopeRead_def scopeWrite_def scopePublish_def
      SiteRoleOwner_def SiteRoleEditor_def SiteRoleViewer_def split: if_splits)

lemma intersectScopes_set: "set (intersectScopes ts r) = set ts \<inter> set (roleScopes r)"
  by (auto simp: intersectScopes_def)

lemma mapError_not_found: "mapError e a \<noteq> mcp_site_not_found"
  by (auto simp: mapError_def mcp_site_not_found_def toolErr_def codeNotFound_def codeConflict_def codePublishConflict_def codeValidation_def)

context site_directory
begin

lemma mcp_granted:
  assumes "inv s"
  shows "authorizeSite (lookup s) getRole c h needed = Inr a \<longleftrightarrow>
    h \<noteq> [] \<and> lookup s h = Inr (au_site a) \<and> getRole (st_ID (au_site a)) (ti_UserID c) = HasRole (au_role a) \<and>
    needed \<in> set (ti_Scopes c) \<and> needed \<in> set (roleScopes (au_role a)) \<and>
    au_scopes a = intersectScopes (ti_Scopes c) (au_role a)"
  by (cases a) (auto simp: authorizeSite_def Let_def intersectScopes_set split: sum.splits role_row.splits)

lemma mcp_hidden:
  assumes "inv s" and "h \<noteq> []"
  shows "authorizeSite (lookup s) getRole c h needed = Inl mcp_site_not_found \<longleftrightarrow>
    (\<forall>i. present s (go_lower h) i \<longrightarrow> getRole i (ti_UserID c) = NoMembership)"
proof (cases "lookup s h")
  case (Inl e)
  then have "isSiteBusinessError e" using missing [OF Inl] by (simp add: isSiteBusinessError_def)
  then show ?thesis using none_present [OF assms(1) Inl] Inl assms(2) by (simp add: authorizeSite_def)
next
  case (Inr x)
  have "toolErr codeForbidden m d \<noteq> mcp_site_not_found" for m d
    by (simp add: toolErr_def mcp_site_not_found_def codeForbidden_def codeNotFound_def)
  then show ?thesis using found_only [OF assms(1) Inr] Inr assms(2) mapError_not_found
    by (auto simp: authorizeSite_def Let_def split: role_row.splits)
qed

end

section \<open>Properties\<close>

text \<open>
  The path gate of the MCP tools. An accepted path is returned in cleaned form, which is
  stable under cleaning; the service's own gate accepts the returned path unless one of its
  elements begins with a dash; and every path the service's gate accepts, within the length
  caps, passes the MCP gate.
\<close>

theorem mcp_path_gate:
  "(validateContentPath p w = Inr c \<longrightarrow>
      c = path_clean p \<and> path_clean c = c \<and>
      (validatePathWith c (if w then Some extAllowedForMCPWrite else None) = None \<longleftrightarrow>
        (\<forall>seg \<in> set (split_on slash c). \<not> has_prefix seg ''-''))) \<and>
   (validatePathWith p (if w then Some extAllowedForMCPWrite else None) = None \<longrightarrow>
      length p \<le> maxPathTotalBytes \<longrightarrow> (\<forall>seg \<in> set (split_on slash (path_clean p)). length seg \<le> maxPathSegmentBytes) \<longrightarrow>
      validateContentPath p w = Inr (path_clean p))"
proof (intro conjI impI)
  let ?ws = "clean_segs False (split_on slash p)"
  assume "validateContentPath p w = Inr c"
  then have v: "\<not> has_prefix p [slash]" "?ws \<noteq> []" "CHR 0x00 \<notin> set p" "CHR 0x5C \<notin> set p"
    "\<forall>seg \<in> set ?ws. plain_seg seg \<and> seg \<noteq> gitDirSegment" "w \<longrightarrow> extAllowedForMCPWrite c" and c: "c = path_clean p"
    by (auto simp: validateContentPath_iff)
  show "c = path_clean p" by (rule c)
  note a = clean_accepted [OF v(1-4), folded c]
  have body: "c = join_with [slash] ?ws" using v(1,2) c clean_body_Nil by (simp add: path_clean_def Let_def)
  show cc: "path_clean c = c"
    using a(2,3) v(2) body clean_body_Nil [of False p] by (simp add: path_clean_def Let_def)
  show "validatePathWith c (if w then Some extAllowedForMCPWrite else None) = None \<longleftrightarrow>
        (\<forall>seg \<in> set (split_on slash c). \<not> has_prefix seg ''-'')"
    using a v(2,5,6) cc by (auto simp: validatePathWith_iff list_all_iff safe_seg_def)
next
  let ?ws = "clean_segs False (split_on slash p)"
  assume v: "validatePathWith p (if w then Some extAllowedForMCPWrite else None) = None"
    and l: "length p \<le> maxPathTotalBytes" "\<forall>seg \<in> set (split_on slash (path_clean p)). length seg \<le> maxPathSegmentBytes"
  then have "\<not> has_prefix p [slash]" "?ws \<noteq> []" "CHR 0x00 \<notin> set p" "CHR 0x5C \<notin> set p"
    by (auto simp: validatePathWith_iff)
  with l have "\<forall>seg \<in> set ?ws. length seg \<le> maxPathSegmentBytes" using clean_accepted(1) by simp
  with v l(1) show "validateContentPath p w = Inr (path_clean p)"
    by (auto simp: validateContentPath_iff validatePathWith_iff list_all_iff safe_seg_def split: if_splits)
qed

theorem mcp_path_gate_witness:
  "path_clean ''css/main.css'' = ''css/main.css'' \<and> validateMCPWritePath ''css/main.css'' = None"
proof -
  have a: "validateContentPath ''img/../css/./main.css'' True = Inr ''css/main.css''"
    and "\<forall>seg \<in> set (split_on slash ''css/main.css''). \<not> has_prefix seg ''-''" by code_simp+
  with mcp_path_gate [THEN conjunct1, THEN mp, THEN conjunct2, OF a] show ?thesis
    unfolding validateMCPWritePath_def if_True by blast
qed

text \<open>
  C18: The membership cap. A token reaches a site for a scope exactly when a live site has the
  handle, the token carries the scope and the user's current role on that site has the
  corresponding REST capability: a token never exceeds its owner. A token whose owner is no
  member gets the very answer a handle that belongs to no site gets.
\<close>

theorem mcp_membership_cap:
  assumes "reachable f" and "h \<noteq> []"
  shows "((\<exists>a. authorizeSite (GetSiteByHandle f) getRole c h needed = Inr a) \<longleftrightarrow>
      needed \<in> set (ti_Scopes c) \<and>
      (\<exists>i r cap. live_site_id f (go_lower h) i \<and> getRole i (ti_UserID c) = HasRole r \<and>
        scope_capability needed = Some cap \<and> roleAllows r cap)) \<and>
    (authorizeSite (GetSiteByHandle f) getRole c h needed = Inl mcp_site_not_found \<longleftrightarrow>
      (\<forall>i. live_site_id f (go_lower h) i \<longrightarrow> getRole i (ti_UserID c) = NoMembership))"
proof
  note inv = reachable_inv [OF assms(1)]
  show "(\<exists>a. authorizeSite (GetSiteByHandle f) getRole c h needed = Inr a) \<longleftrightarrow>
      needed \<in> set (ti_Scopes c) \<and>
      (\<exists>i r cap. live_site_id f (go_lower h) i \<and> getRole i (ti_UserID c) = HasRole r \<and>
        scope_capability needed = Some cap \<and> roleAllows r cap)" (is "?g \<longleftrightarrow> ?t \<and> ?e")
  proof
    assume ?g
    then obtain a where ok: "authorizeSite (GetSiteByHandle f) getRole c h needed = Inr a" by blast
    note a = svc_directory.mcp_granted [OF inv, THEN iffD1, OF ok, THEN conjunct2]
    obtain cap where "scope_capability needed = Some cap" "roleAllows (au_role a) cap"
      using a roleScopes_allow [of needed "au_role a"] by blast
    moreover have "live_site_id f (go_lower h) (st_ID (au_site a))"
      using svc_directory.found_only [OF inv, THEN iffD2] a by blast
    ultimately show "?t \<and> ?e" using a by blast
  next
    assume te: "?t \<and> ?e"
    then obtain i r where ir: "live_site_id f (go_lower h) i" "getRole i (ti_UserID c) = HasRole r"
      "needed \<in> set (roleScopes r)" using roleScopes_allow by blast
    obtain x where x: "GetSiteByHandle f h = Inr x" "st_ID x = i" using svc_directory.listed [OF inv ir(1)] by blast
    have "authorizeSite (GetSiteByHandle f) getRole c h needed =
        Inr \<lparr> au_site = x, au_role = r, au_scopes = intersectScopes (ti_Scopes c) r \<rparr>"
      by (rule svc_directory.mcp_granted [OF inv, THEN iffD2]) (use x ir te assms(2) in simp)
    then show ?g ..
  qed
  show "authorizeSite (GetSiteByHandle f) getRole c h needed = Inl mcp_site_not_found \<longleftrightarrow>
      (\<forall>i. live_site_id f (go_lower h) i \<longrightarrow> getRole i (ti_UserID c) = NoMembership)"
    by (rule svc_directory.mcp_hidden [OF inv assms(2)])
qed

theorem mcp_membership_cap_witness:
  "\<not> (\<exists>a. authorizeSite (GetSiteByHandle example_svc) (\<lambda>i u. HasRole SiteRoleViewer)
     \<lparr> ti_UserID = ''u'', ti_TokenID = ''t'', ti_Scopes = [''read'', ''write''], ti_CanCreateSites = False \<rparr>
     ''shop'' scopeWrite = Inr a)"
proof -
  have "scope_capability scopeWrite = Some capWrite" "\<not> roleAllows SiteRoleViewer capWrite" by code_simp+
  then show ?thesis
    using mcp_membership_cap [OF example_reachable, of "''shop''" "\<lambda>i u. HasRole SiteRoleViewer"
      "\<lparr> ti_UserID = ''u'', ti_TokenID = ''t'', ti_Scopes = [''read'', ''write''], ti_CanCreateSites = False \<rparr>" scopeWrite]
    by simp
qed

end
