(* ===== verification/Go_Base64.thy ===== *)
theory Go_Base64
  imports Kotoji_Prelude
begin

text \<open>
  The part of \<open>encoding/base64\<close> the modelled code uses: \<open>StdEncoding\<close> (padded, with \<open>+\<close>
  and \<open>/\<close>) and \<open>RawURLEncoding\<close> (unpadded, with \<open>-\<close> and \<open>_\<close>). As in Go, decoding skips
  carriage returns and newlines, and ignores the unused low bits of the last character.
\<close>

section \<open>The alphabets\<close>

definition b64_base :: string where
  "b64_base = ''ABCDEFGHIJKLMNOPQRSTUVWXYZabcdefghijklmnopqrstuvwxyz0123456789''"

definition b64_alphabet :: "bool \<Rightarrow> string" where
  "b64_alphabet url = b64_base @ (if url then ''-_'' else ''+/'')"

definition b64_char :: "bool \<Rightarrow> nat \<Rightarrow> char" where
  "b64_char url n = b64_alphabet url ! n"

definition b64_val :: "bool \<Rightarrow> char \<Rightarrow> nat option" where
  "b64_val url c = index_byte (b64_alphabet url) c"

section \<open>Encoding\<close>

fun b64_encode :: "bool \<Rightarrow> bool \<Rightarrow> nat list \<Rightarrow> string" where
  "b64_encode url pad [] = []"
| "b64_encode url pad [a] =
     [b64_char url (a div 4), b64_char url (a mod 4 * 16)] @ (if pad then ''=='' else [])"
| "b64_encode url pad [a, b] =
     [b64_char url (a div 4), b64_char url (a mod 4 * 16 + b div 16), b64_char url (b mod 16 * 4)] @
     (if pad then ''='' else [])"
| "b64_encode url pad (a # b # c # bs) =
     [b64_char url (a div 4), b64_char url (a mod 4 * 16 + b div 16),
      b64_char url (b mod 16 * 4 + c div 64), b64_char url (c mod 64)] @ b64_encode url pad bs"

section \<open>Decoding\<close>

fun b64_groups :: "bool \<Rightarrow> bool \<Rightarrow> string \<Rightarrow> nat list option" where
  "b64_groups url pad [] = Some []"
| "b64_groups url pad [_] = None"
| "b64_groups url pad [x, y] =
     (if pad then None
      else case (b64_val url x, b64_val url y) of
             (Some p, Some q) \<Rightarrow> Some [p * 4 + q div 16]
           | _ \<Rightarrow> None)"
| "b64_groups url pad [x, y, z] =
     (if pad then None
      else case (b64_val url x, b64_val url y, b64_val url z) of
             (Some p, Some q, Some r) \<Rightarrow> Some [p * 4 + q div 16, q mod 16 * 16 + r div 4]
           | _ \<Rightarrow> None)"
| "b64_groups url pad (x # y # z # w # cs) =
     (case (b64_val url x, b64_val url y) of
        (Some p, Some q) \<Rightarrow>
          (case (b64_val url z, b64_val url w) of
             (Some r, Some s) \<Rightarrow>
               map_option (\<lambda>bs. (p * 4 + q div 16) # (q mod 16 * 16 + r div 4) # (r mod 4 * 64 + s) # bs)
                 (b64_groups url pad cs)
           | (Some r, None) \<Rightarrow>
               if pad \<and> w = CHR ''='' \<and> cs = [] then Some [p * 4 + q div 16, q mod 16 * 16 + r div 4] else None
           | (None, _) \<Rightarrow>
               if pad \<and> z = CHR ''='' \<and> w = CHR ''='' \<and> cs = [] then Some [p * 4 + q div 16] else None)
      | _ \<Rightarrow> None)"

definition is_newline :: "char \<Rightarrow> bool" where
  "is_newline c = (c = CHR 0x0A \<or> c = CHR 0x0D)"

definition b64_decode :: "bool \<Rightarrow> bool \<Rightarrow> string \<Rightarrow> nat list option" where
  "b64_decode url pad s = b64_groups url pad (filter (\<lambda>c. \<not> is_newline c) s)"

text \<open>Byte strings are \<open>string\<close>; the codecs on them.\<close>

definition bytes_of :: "string \<Rightarrow> nat list" where
  "bytes_of s = map of_char s"

definition of_bytes :: "nat list \<Rightarrow> string" where
  "of_bytes bs = map char_of bs"

definition std_EncodeToString :: "string \<Rightarrow> string" where
  "std_EncodeToString s = b64_encode False True (bytes_of s)"

definition std_DecodeString :: "string \<Rightarrow> string option" where
  "std_DecodeString s = map_option of_bytes (b64_decode False True s)"

definition rawurl_EncodeToString :: "string \<Rightarrow> string" where
  "rawurl_EncodeToString s = b64_encode True False (bytes_of s)"

definition rawurl_DecodeString :: "string \<Rightarrow> string option" where
  "rawurl_DecodeString s = map_option of_bytes (b64_decode True False s)"

section \<open>Round trip\<close>

lemma b64_alphabet_facts:
  "length (b64_alphabet url) = 64" "distinct (b64_alphabet url)"
  "CHR ''='' \<notin> set (b64_alphabet url)" "CHR 0x0A \<notin> set (b64_alphabet url)" "CHR 0x0D \<notin> set (b64_alphabet url)"
  "CHR '':'' \<notin> set (b64_alphabet url)"
  by (cases url; simp add: b64_alphabet_def b64_base_def)+

lemma index_byte_nth: "distinct s \<Longrightarrow> n < length s \<Longrightarrow> index_byte s (s ! n) = Some n"
proof (induction s arbitrary: n)
  case (Cons c s)
  then show ?case by (cases n) (auto simp: nth_mem)
qed simp

lemma b64_val_char [simp]: "n < 64 \<Longrightarrow> b64_val url (b64_char url n) = Some n"
  by (simp add: b64_val_def b64_char_def index_byte_nth b64_alphabet_facts)

lemma b64_char_in: "n < 64 \<Longrightarrow> b64_char url n \<in> set (b64_alphabet url)"
  by (simp add: b64_char_def b64_alphabet_facts)

lemma b64_val_pad [simp]: "b64_val url CHR ''='' = None"
  by (simp add: b64_val_def b64_alphabet_facts)

lemma b64_encode_set:
  "\<forall>b \<in> set bs. b < 256 \<Longrightarrow> set (b64_encode url pad bs) \<subseteq> set (b64_alphabet url) \<union> (if pad then {CHR ''=''} else {})"
proof (induction url pad bs rule: b64_encode.induct)
  case (4 url pad a b c bs)
  have "a div 4 < 64" "a mod 4 * 16 + b div 16 < 64" "b mod 16 * 4 + c div 64 < 64" "c mod 64 < 64"
    using 4(2) by auto
  then show ?case using 4 b64_char_in by auto
next
  case (3 url pad a b)
  have "a div 4 < 64" "a mod 4 * 16 + b div 16 < 64" "b mod 16 * 4 < 64" using 3 by auto
  then show ?case using b64_char_in by auto
next
  case (2 url pad a)
  have "a div 4 < 64" "a mod 4 * 16 < 64" using 2 by auto
  then show ?case using b64_char_in by auto
qed simp

lemma b64_groups_encode: "\<forall>b \<in> set bs. b < 256 \<Longrightarrow> b64_groups url pad (b64_encode url pad bs) = Some bs"
proof (induction url pad bs rule: b64_encode.induct)
  case (4 url pad a b c bs)
  have lt: "a div 4 < 64" "a mod 4 * 16 + b div 16 < 64" "b mod 16 * 4 + c div 64 < 64" "c mod 64 < 64"
    using 4(2) by auto
  have "a div 4 * 4 + (a mod 4 * 16 + b div 16) div 16 = a" "(a mod 4 * 16 + b div 16) mod 16 * 16 + (b mod 16 * 4 + c div 64) div 4 = b"
      "(b mod 16 * 4 + c div 64) mod 4 * 64 + c mod 64 = c" using 4(2) by auto
  then show ?case using 4 lt by simp
next
  case (3 url pad a b)
  have "a div 4 < 64" "a mod 4 * 16 + b div 16 < 64" "b mod 16 * 4 < 64"
      "a div 4 * 4 + (a mod 4 * 16 + b div 16) div 16 = a" "(a mod 4 * 16 + b div 16) mod 16 * 16 + b mod 16 * 4 div 4 = b"
    using 3 by auto
  then show ?case by simp
next
  case (2 url pad a)
  have "a div 4 < 64" "a mod 4 * 16 < 64" "a div 4 * 4 + a mod 4 * 16 div 16 = a" using 2 by auto
  then show ?case by simp
qed simp

lemma b64_roundtrip: "\<forall>b \<in> set bs. b < 256 \<Longrightarrow> b64_decode url pad (b64_encode url pad bs) = Some bs"
proof -
  assume b: "\<forall>b \<in> set bs. b < 256"
  then have "\<not> is_newline c" if "c \<in> set (b64_encode url pad bs)" for c
    using that b64_encode_set [OF b, of url pad] b64_alphabet_facts(4,5) [of url]
    by (auto simp: is_newline_def split: if_splits)
  then have "filter (\<lambda>c. \<not> is_newline c) (b64_encode url pad bs) = b64_encode url pad bs" by simp
  then show ?thesis using b64_groups_encode [OF b] by (simp add: b64_decode_def)
qed

lemma bytes_of_lt: "\<forall>b \<in> set (bytes_of s). b < 256"
  by (auto simp: bytes_of_def)

lemma of_bytes_of [simp]: "of_bytes (bytes_of s) = s"
  by (simp add: of_bytes_def bytes_of_def comp_def)

lemma std_roundtrip [simp]: "std_DecodeString (std_EncodeToString s) = Some s"
  by (simp add: std_DecodeString_def std_EncodeToString_def b64_roundtrip [OF bytes_of_lt])

lemma rawurl_roundtrip [simp]: "rawurl_DecodeString (rawurl_EncodeToString s) = Some s"
  by (simp add: rawurl_DecodeString_def rawurl_EncodeToString_def b64_roundtrip [OF bytes_of_lt])

lemma rawurl_no_colon: "CHR '':'' \<notin> set (rawurl_EncodeToString s)"
  using b64_encode_set [OF bytes_of_lt, of True False s] b64_alphabet_facts(6) [of True]
  by (auto simp: rawurl_EncodeToString_def)

end
