(* ===== verification/Go_Time.thy ===== *)
theory Go_Time
  imports Go_Strconv
begin

text \<open>
  \<open>time.Time\<close> as nanoseconds since the Unix epoch, and the one layout the modelled code
  formats with and parses, \<open>2006-01-02T15:04:05Z07:00\<close>, for the years 0 to 9999. Formatting is
  in UTC. Parsing follows the grammar of RFC 3339.
\<close>

definition seconds_of :: "int \<Rightarrow> int" where
  "seconds_of t = t div 1000000000"

text \<open>Days since the epoch to a date of the proleptic Gregorian calendar.\<close>

definition civil_date :: "int \<Rightarrow> int \<times> int \<times> int" where
  "civil_date days =
     (let z = days + 719468;
          era = z div 146097;
          doe = z mod 146097;
          yoe = (doe - doe div 1460 + doe div 36524 - doe div 146096) div 365;
          doy = doe - (365 * yoe + yoe div 4 - yoe div 100);
          mp = (5 * doy + 2) div 153;
          d = doy - (153 * mp + 2) div 5 + 1;
          m = (if mp < 10 then mp + 3 else mp - 9)
      in (yoe + era * 400 + (if m \<le> 2 then 1 else 0), m, d))"

definition pad_int :: "nat \<Rightarrow> int \<Rightarrow> string" where
  "pad_int n i = pad_left n CHR ''0'' (show_int i)"

definition format_rfc3339 :: "int \<Rightarrow> string" where
  "format_rfc3339 t =
     (let s = seconds_of t; sod = s mod 86400 in
      case civil_date (s div 86400) of
        (y, m, d) \<Rightarrow>
          pad_int 4 y @ ''-'' @ pad_int 2 m @ ''-'' @ pad_int 2 d @ ''T'' @
          pad_int 2 (sod div 3600) @ '':'' @ pad_int 2 (sod mod 3600 div 60) @ '':'' @ pad_int 2 (sod mod 60) @ ''Z'')"

section \<open>Parsing\<close>

text \<open>The zero \<open>time.Time\<close>, 1 January of year 1.\<close>

definition zero_time :: int where "zero_time = - 62135596800 * 1000000000"

definition days_from_civil :: "int \<Rightarrow> int \<Rightarrow> int \<Rightarrow> int" where
  "days_from_civil y m d =
     (let y' = (if m \<le> 2 then y - 1 else y);
          era = y' div 400;
          yoe = y' mod 400;
          doy = (153 * (if 2 < m then m - 3 else m + 9) + 2) div 5 + d - 1;
          doe = yoe * 365 + yoe div 4 - yoe div 100 + doy
      in era * 146097 + doe - 719468)"

definition leap_year :: "int \<Rightarrow> bool" where
  "leap_year y = (4 dvd y \<and> (\<not> 100 dvd y \<or> 400 dvd y))"

definition days_in :: "int \<Rightarrow> int \<Rightarrow> int" where
  "days_in m y =
     (if m = 2 then (if leap_year y then 29 else 28) else if m \<in> {4, 6, 9, 11} then 30 else 31)"

definition num_in :: "string \<Rightarrow> int \<Rightarrow> int \<Rightarrow> int option" where
  "num_in s lo hi =
     (if s = [] \<or> \<not> list_all is_digit s then None
      else let v = int (digits_val 10 s) in if lo \<le> v \<and> v \<le> hi then Some v else None)"

text \<open>The offset east of UTC in seconds: \<open>Z\<close>, or a sign with hours and minutes.\<close>

definition parse_zone :: "string \<Rightarrow> int option" where
  "parse_zone z =
     (if z = ''Z'' then Some 0
      else if length z = 6 \<and> (z ! 0 = CHR ''+'' \<or> z ! 0 = CHR ''-'') \<and> z ! 3 = CHR '':'' then
        (case (num_in (take 2 (drop 1 z)) 0 23, num_in (drop 4 z) 0 59) of
           (Some h, Some m) \<Rightarrow> Some ((if z ! 0 = CHR ''-'' then - 1 else 1) * (h * 3600 + m * 60))
         | _ \<Rightarrow> None)
      else None)"

text \<open>The rest after the seconds: a fraction, of which nine digits count, and the zone.\<close>

definition parse_fraction :: "string \<Rightarrow> (int \<times> string) option" where
  "parse_fraction s =
     (if has_prefix s ''.'' then
        let ds = takeWhile is_digit (drop 1 s) in
        if ds = [] then None
        else Some (int (digits_val 10 (take 9 (ds @ replicate 9 CHR ''0''))), drop (1 + length ds) s)
      else Some (0, s))"

definition parse_rfc3339 :: "string \<Rightarrow> int option" where
  "parse_rfc3339 s =
     (if length s < 20 \<or> s ! 4 \<noteq> CHR ''-'' \<or> s ! 7 \<noteq> CHR ''-'' \<or> s ! 10 \<noteq> CHR ''T'' \<or>
         s ! 13 \<noteq> CHR '':'' \<or> s ! 16 \<noteq> CHR '':'' then None
      else
        (case (num_in (take 4 s) 0 9999, num_in (take 2 (drop 5 s)) 1 12, num_in (take 2 (drop 8 s)) 1 31,
               num_in (take 2 (drop 11 s)) 0 23, num_in (take 2 (drop 14 s)) 0 59, num_in (take 2 (drop 17 s)) 0 59) of
           (Some y, Some m, Some d, Some hh, Some mm, Some ss) \<Rightarrow>
             if days_in m y < d then None
             else
               (case parse_fraction (drop 19 s) of
                  None \<Rightarrow> None
                | Some (ns, z) \<Rightarrow>
                    (case parse_zone z of
                       None \<Rightarrow> None
                     | Some off \<Rightarrow>
                         Some ((days_from_civil y m d * 86400 + hh * 3600 + mm * 60 + ss - off) * 1000000000 + ns)))
         | _ \<Rightarrow> None))"

end
