(* ===== verification/Mcp_Tools.thy ===== *)
theory Mcp_Tools
  imports Mcp_Authz Go_Base64 Go_Time
begin

text \<open>
  The eleven MCP tools (\<open>backend/internal/mcpserver/tools.go\<close>) over the site service.

  A registry record carries what a tool reads besides the service: the configured domain, the
  limits and the membership queries of the store, which are parameters. A tool that only
  reads returns its result; a tool that may write returns the new service state and its
  result. The verified principal is the \<open>TokenInfo\<close> of the frame.
\<close>

section \<open>The registry\<close>

record user_row =
  ur_CanCreateSites :: bool
  ur_IsAdmin :: bool

record member_site_row =
  ms_ID :: uuid
  ms_Handle :: string
  ms_Role :: site_role
  ms_DefaultBranch :: string
  ms_PublishedCommitSha :: "string option"
  ms_UpdatedAt :: int

record registry =
  BaseDomain :: string
  Scheme :: string
  limits :: Limits
  GetRole :: "uuid \<Rightarrow> uuid \<Rightarrow> role_row"
  GetUserByID :: "uuid \<Rightarrow> string + user_row"
  ListSitesForUser :: "uuid \<Rightarrow> int \<Rightarrow> int \<Rightarrow> string + member_site_row list"

definition urlFor :: "registry \<Rightarrow> string \<Rightarrow> string" where
  "urlFor d label =
     (let scheme = (if Scheme d = [] then ''https'' else Scheme d) in
      if BaseDomain d = [] then scheme @ ''://'' @ label
      else scheme @ ''://'' @ label @ ''.'' @ BaseDomain d)"

definition publishedURL :: "registry \<Rightarrow> handle \<Rightarrow> string" where
  "publishedURL r h = urlFor r h"

definition previewURL :: "registry \<Rightarrow> handle \<Rightarrow> branch_name \<Rightarrow> string" where
  "previewURL r h branch = (if branch = BranchPublished then urlFor r h else urlFor r (h @ ''--'' @ branch))"

definition listSitesPageLimit :: int where "listSitesPageLimit = 1000"

definition encodingUTF8 :: string where "encodingUTF8 = ''utf-8''"
definition encodingBase64 :: string where "encodingBase64 = ''base64''"

definition actorFor :: "TokenInfo \<Rightarrow> Actor" where
  "actorFor c = \<lparr> ac_UserID = ti_UserID c, ac_Name = [], ac_Email = [], ac_Via = SourceMCP, ac_TokenID = Some (ti_TokenID c) \<rparr>"

definition branchOrDefault :: "string option \<Rightarrow> branch_name" where
  "branchOrDefault b = (case b of None \<Rightarrow> BranchDraft | Some n \<Rightarrow> if n = [] then BranchDraft else n)"

definition deref :: "string option \<Rightarrow> string" where
  "deref s = (case s of None \<Rightarrow> [] | Some x \<Rightarrow> x)"

section \<open>Arguments and results\<close>

record SiteSummary =
  ss_UUID :: string
  ss_Handle :: string
  ss_Role :: string
  ss_EffectiveScopes :: "string list"
  ss_PublishedURL :: string
  ss_DraftURL :: string
  ss_DefaultBranch :: string
  ss_IsPublished :: bool
  ss_UpdatedAt :: string

record ListFilesArgs =
  lfa_Site :: string
  lfa_Branch :: "string option"
  lfa_Path :: "string option"
  lfa_Ref :: "string option"
  lfa_Recursive :: "bool option"

record FileItem =
  fi_Path :: string
  fi_Size :: int
  fi_Mode :: string

record ListFilesResult =
  lfr_Branch :: string
  lfr_Commit :: string
  lfr_Files :: "FileItem list"
  lfr_Truncated :: bool

record ReadFileArgs =
  rfa_Site :: string
  rfa_Path :: string
  rfa_Branch :: "string option"
  rfa_Ref :: "string option"

record ReadFileResult =
  rfr_Path :: string
  rfr_Branch :: string
  rfr_Commit :: string
  rfr_BlobSHA :: string
  rfr_Encoding :: string
  rfr_Content :: string
  rfr_Size :: int
  rfr_Truncated :: bool

record WriteFileArgs =
  wfa_Site :: string
  wfa_Path :: string
  wfa_Content :: string
  wfa_Encoding :: "string option"
  wfa_BaseSHA :: string
  wfa_Branch :: "string option"
  wfa_Commit :: "bool option"
  wfa_Message :: "string option"

record WriteFileResult =
  wfr_Path :: string
  wfr_Branch :: string
  wfr_Committed :: bool
  wfr_Commit :: string
  wfr_BlobSHA :: string
  wfr_Pushed :: bool
  wfr_BytesWritten :: int
  wfr_Warnings :: "string list"

record CreateSiteArgs =
  csa_Handle :: string
  csa_Init :: "string option"
  csa_Template :: "string option"
  csa_Private :: "bool option"

record CreateSiteResult =
  csr_UUID :: string
  csr_Handle :: string
  csr_DraftURL :: string
  csr_DefaultBranch :: string
  csr_TokenHint :: string

record SaveArgs =
  sva_Site :: string
  sva_Branch :: "string option"
  sva_BaseSHA :: string
  sva_Message :: "string option"

record SaveResult =
  svr_Branch :: string
  svr_Commit :: string
  svr_NoOp :: bool
  svr_Pushed :: bool
  svr_FilesChanged :: int

record PublishArgs =
  pba_Site :: string
  pba_From :: "string option"
  pba_BaseSHA :: string
  pba_Message :: "string option"

record PublishResult =
  pbr_PublishedCommit :: string
  pbr_PublishedURL :: string
  pbr_From :: string
  pbr_FromCommit :: string
  pbr_Pushed :: bool
  pbr_Redeploy :: string

record GetDiffArgs =
  gda_Site :: string
  gda_From :: "string option"
  gda_To :: "string option"
  gda_Commit :: "string option"
  gda_Path :: "string option"
  gda_ContextLines :: "int option"
  gda_Format :: "string option"

record DiffFile =
  df_Path :: string
  df_Status :: string
  df_OldPath :: "string option"
  df_Additions :: int
  df_Deletions :: int
  df_Patch :: string

record GetDiffResult =
  gdr_From :: string
  gdr_To :: string
  gdr_FromCommit :: string
  gdr_ToCommit :: string
  gdr_Files :: "DiffFile list"
  gdr_Truncated :: bool

record GetLogArgs =
  gla_Site :: string
  gla_Branch :: "string option"
  gla_Path :: "string option"
  gla_Limit :: "int option"
  gla_Before :: "string option"

record LogCommit =
  lc_SHA :: string
  lc_Short :: string
  lc_Author :: string
  lc_Via :: string
  lc_Message :: string
  lc_CommittedAt :: string
  lc_FilesChanged :: int

record LogResult =
  lgr_Branch :: string
  lgr_Commits :: "LogCommit list"
  lgr_NextBefore :: "string option"

record RollbackArgs =
  rba_Site :: string
  rba_Branch :: "string option"
  rba_ToSHA :: string
  rba_BaseSHA :: string
  rba_Message :: "string option"

record RollbackResult =
  rbr_Branch :: string
  rbr_Commit :: string
  rbr_RestoredFrom :: string
  rbr_Pushed :: bool

record CreateBranchArgs =
  cba_Site :: string
  cba_Name :: string
  cba_From :: "string option"

record CreateBranchResult =
  cbr_Name :: string
  cbr_HeadSHA :: string
  cbr_PreviewSubdomain :: string

section \<open>Tools that read\<close>

definition authorize :: "registry \<Rightarrow> FakeService \<Rightarrow> TokenInfo \<Rightarrow> string \<Rightarrow> scope \<Rightarrow> authorized tool_result" where
  "authorize r f c h needed = authorizeSite (GetSiteByHandle f) (GetRole r) c h needed"

definition toSummary :: "registry \<Rightarrow> TokenInfo \<Rightarrow> member_site_row \<Rightarrow> SiteSummary" where
  "toSummary r c row =
     \<lparr> ss_UUID = ms_ID row, ss_Handle = ms_Handle row, ss_Role = ms_Role row,
       ss_EffectiveScopes = intersectScopes (ti_Scopes c) (ms_Role row),
       ss_PublishedURL = publishedURL r (ms_Handle row), ss_DraftURL = previewURL r (ms_Handle row) BranchDraft,
       ss_DefaultBranch = ms_DefaultBranch row,
       ss_IsPublished = (case ms_PublishedCommitSha row of None \<Rightarrow> False | Some h \<Rightarrow> h \<noteq> []),
       ss_UpdatedAt = format_rfc3339 (ms_UpdatedAt row) \<rparr>"

definition listSites :: "registry \<Rightarrow> TokenInfo \<Rightarrow> SiteSummary list tool_result" where
  "listSites r c =
     (case ListSitesForUser r (ti_UserID c) 0 listSitesPageLimit of
        Inl e \<Rightarrow> Inl (mapError (ForeignError e) ''list_sites'')
      | Inr rows \<Rightarrow> Inr (map (toSummary r c) rows))"

fun list_loop :: "int \<Rightarrow> FileItem list \<Rightarrow> FileEntry list \<Rightarrow> FileItem list \<times> bool" where
  "list_loop m files [] = (files, False)"
| "list_loop m files (e # es) =
     (if fe_IsDir e then list_loop m files es
      else if m \<le> int (length files) then (files, True)
      else list_loop m (files @ [\<lparr> fi_Path = fe_Path e, fi_Size = fe_Size e, fi_Mode = fe_Mode e \<rparr>]) es)"

definition listFiles :: "registry \<Rightarrow> FakeService \<Rightarrow> TokenInfo \<Rightarrow> ListFilesArgs \<Rightarrow> ListFilesResult tool_result" where
  "listFiles r f c inp =
     (case authorize r f c (lfa_Site inp) scopeRead of
        Inl e \<Rightarrow> Inl e
      | Inr ac \<Rightarrow>
          (case (if deref (lfa_Path inp) = [] then Inr [] else validateContentPath (deref (lfa_Path inp)) False) of
             Inl e \<Rightarrow> Inl e
           | Inr dir \<Rightarrow>
               let branch = branchOrDefault (lfa_Branch inp) in
               (case ListFiles f \<lparr> lf_SiteID = st_ID (au_site ac), lf_Branch = branch, lf_Dir = dir,
                                   lf_Ref = deref (lfa_Ref inp), lf_Recursive = (lfa_Recursive inp = Some True) \<rparr> of
                  Inl e \<Rightarrow> Inl (mapError e ''list_files'')
                | Inr (entries, h) \<Rightarrow>
                    (case list_loop (MaxListItems (limits r)) [] entries of
                       (files, truncated) \<Rightarrow>
                         Inr \<lparr> lfr_Branch = branch, lfr_Commit = h, lfr_Files = files, lfr_Truncated = truncated \<rparr>))))"

definition readFile :: "registry \<Rightarrow> FakeService \<Rightarrow> TokenInfo \<Rightarrow> ReadFileArgs \<Rightarrow> ReadFileResult tool_result" where
  "readFile r f c inp =
     (case authorize r f c (rfa_Site inp) scopeRead of
        Inl e \<Rightarrow> Inl e
      | Inr ac \<Rightarrow>
          (case validateContentPath (rfa_Path inp) False of
             Inl e \<Rightarrow> Inl e
           | Inr clean \<Rightarrow>
               let branch = branchOrDefault (rfa_Branch inp) in
               (case ReadFile f (st_ID (au_site ac)) branch (deref (rfa_Ref inp)) clean of
                  Inl e \<Rightarrow> Inl (mapError e ''read_file'')
                | Inr fc \<Rightarrow>
                    let truncated = (MaxReadBytes (limits r) < int (length (fc_Content fc)));
                        content = (if truncated then take (nat (MaxReadBytes (limits r))) (fc_Content fc) else fc_Content fc)
                    in Inr \<lparr> rfr_Path = fc_Path fc, rfr_Branch = branch, rfr_Commit = fc_SHA fc,
                             rfr_BlobSHA = fc_BlobSHA fc,
                             rfr_Encoding = (if fc_IsBinary fc then encodingBase64 else encodingUTF8),
                             rfr_Content = (if fc_IsBinary fc then std_EncodeToString content else content),
                             rfr_Size = fc_Size fc, rfr_Truncated = truncated \<rparr>)))"

text \<open>The loop over the changed files: patches are dropped once the byte budget is used up.\<close>

fun diff_loop :: "bool \<Rightarrow> int \<Rightarrow> FileDiff list \<Rightarrow> DiffFile list \<times> bool" where
  "diff_loop nameStatus budget [] = ([], False)"
| "diff_loop nameStatus budget (fd # fds) =
     (let df = \<lparr> df_Path = fd_Path fd, df_Status = fd_Status fd,
                 df_OldPath = (if fd_OldPath fd \<noteq> [] then Some (fd_OldPath fd) else None),
                 df_Additions = fd_Additions fd, df_Deletions = fd_Deletions fd, df_Patch = [] \<rparr>
      in if nameStatus then
           (case diff_loop nameStatus budget fds of (files, truncated) \<Rightarrow> (df # files, truncated))
         else if int (length (fd_UnifiedPatch fd)) \<le> budget then
           (case diff_loop nameStatus (budget - int (length (fd_UnifiedPatch fd))) fds of
              (files, truncated) \<Rightarrow> (df\<lparr> df_Patch := fd_UnifiedPatch fd \<rparr> # files, truncated))
         else
           (case diff_loop nameStatus budget fds of (files, _) \<Rightarrow> (df # files, True)))"

definition getDiff :: "registry \<Rightarrow> FakeService \<Rightarrow> TokenInfo \<Rightarrow> GetDiffArgs \<Rightarrow> GetDiffResult tool_result" where
  "getDiff r f c inp =
     (case authorize r f c (gda_Site inp) scopeRead of
        Inl e \<Rightarrow> Inl e
      | Inr ac \<Rightarrow>
          let single = (deref (gda_Commit inp) \<noteq> []);
              from_ref = (if single then deref (gda_Commit inp) @ ''^'' else deref (gda_From inp));
              to_ref = (if single then deref (gda_Commit inp) else deref (gda_To inp));
              nameStatus = (case gda_Format inp of None \<Rightarrow> False | Some fm \<Rightarrow> go_lower fm = ''name-status'')
          in if from_ref = [] then Inl (toolErr codeValidation ''from or commit is required'' [])
             else
               (case GetDiff f \<lparr> do_SiteID = st_ID (au_site ac), do_From = from_ref, do_To = to_ref,
                                 do_Path = deref (gda_Path inp),
                                 do_ContextLines = (case gda_ContextLines inp of None \<Rightarrow> 3 | Some n \<Rightarrow> n),
                                 do_NameStatus = nameStatus \<rparr> of
                  Inl e \<Rightarrow> Inl (mapError e ''get_diff'')
                | Inr dr \<Rightarrow>
                    (case diff_loop nameStatus (MaxDiffBytes (limits r)) (dr_Files dr) of
                       (files, truncated) \<Rightarrow>
                         Inr \<lparr> gdr_From = from_ref, gdr_To = to_ref, gdr_FromCommit = dr_FromSHA dr,
                               gdr_ToCommit = dr_ToSHA dr, gdr_Files = files, gdr_Truncated = truncated \<rparr>)))"

definition toLogCommit :: "CommitInfo \<Rightarrow> LogCommit" where
  "toLogCommit ci =
     \<lparr> lc_SHA = ci_SHA ci, lc_Short = ci_ShortSHA ci, lc_Author = ci_AuthorEmail ci, lc_Via = ci_Via ci,
       lc_Message = ci_Message ci, lc_CommittedAt = format_rfc3339 (ci_Committed ci),
       lc_FilesChanged = int (length (ci_Parents ci)) \<rparr>"

definition getLog :: "registry \<Rightarrow> FakeService \<Rightarrow> TokenInfo \<Rightarrow> GetLogArgs \<Rightarrow> LogResult tool_result" where
  "getLog r f c inp =
     (case authorize r f c (gla_Site inp) scopeRead of
        Inl e \<Rightarrow> Inl e
      | Inr ac \<Rightarrow>
          let branch = branchOrDefault (gla_Branch inp);
              limit = (case gla_Limit inp of None \<Rightarrow> 20 | Some n \<Rightarrow> n)
          in if limit < 1 \<or> MaxLogLimit (limits r) < limit then
               Inl (toolErr codeValidation (''limit: must be 1..'' @ show_int (MaxLogLimit (limits r))) [])
             else
               (case GetLog f \<lparr> lo_SiteID = st_ID (au_site ac), lo_Branch = branch, lo_Limit = limit,
                                lo_Before = deref (gla_Before inp), lo_Path = deref (gla_Path inp) \<rparr> of
                  Inl e \<Rightarrow> Inl (mapError e ''get_log'')
                | Inr commits \<Rightarrow>
                    let out = map toLogCommit commits in
                    Inr \<lparr> lgr_Branch = branch, lgr_Commits = out,
                          lgr_NextBefore = (if int (length out) = limit \<and> 0 < limit then Some (lc_SHA (last out)) else None) \<rparr>))"

section \<open>Tools that write\<close>

definition decodeContent :: "string \<Rightarrow> string option \<Rightarrow> string tool_result" where
  "decodeContent raw encoding =
     (let enc = (if deref encoding \<noteq> [] then go_lower (deref encoding) else encodingUTF8) in
      if enc = encodingUTF8 then Inr raw
      else if enc = encodingBase64 then
        (case std_DecodeString raw of
           None \<Rightarrow> Inl (toolErr codeValidation ''content: invalid base64'' [])
         | Some b \<Rightarrow> Inr b)
      else Inl (toolErr codeValidation (''encoding: must be 'utf-8' or 'base64'' @ [CHR 0x27]) []))"

definition writeFile ::
  "registry \<Rightarrow> FakeService \<Rightarrow> clock \<Rightarrow> TokenInfo \<Rightarrow> WriteFileArgs \<Rightarrow> FakeService \<times> WriteFileResult tool_result" where
  "writeFile r f clk c inp =
     (case authorize r f c (wfa_Site inp) scopeWrite of
        Inl e \<Rightarrow> (f, Inl e)
      | Inr ac \<Rightarrow>
          (case validateContentPath (wfa_Path inp) True of
             Inl e \<Rightarrow> (f, Inl e)
           | Inr clean \<Rightarrow>
               if wfa_BaseSHA inp = [] then
                 (f, Inl (toolErr codeValidation ''base_sha: required (no force overwrite in v1)'' []))
               else
                 let branch = branchOrDefault (wfa_Branch inp) in
                 if branch = BranchPublished then
                   (f, Inl (toolErr codeValidation ''branch: 'published' is not writable; use publish'' []))
                 else
                   (case decodeContent (wfa_Content inp) (wfa_Encoding inp) of
                      Inl e \<Rightarrow> (f, Inl e)
                    | Inr content \<Rightarrow>
                        if MaxFileBytes (limits r) < int (length content) then
                          (f, Inl (toolErr codeTooLarge (''content exceeds '' @ show_int (MaxFileBytes (limits r)) @ '' bytes'') []))
                        else
                          let commit = (case wfa_Commit inp of None \<Rightarrow> True | Some b \<Rightarrow> b) in
                          (case WriteFile f clk
                                  \<lparr> wf_SiteID = st_ID (au_site ac), wf_Branch = branch, wf_Path = clean,
                                    wf_Content = content, wf_BaseSHA = wfa_BaseSHA inp, wf_Commit = commit,
                                    wf_Message = deref (wfa_Message inp), wf_Actor = actorFor c \<rparr> of
                             (f', Inl e) \<Rightarrow> (f', Inl (mapError e ''write_file''))
                           | (f', Inr ci) \<Rightarrow>
                               (f', Inr \<lparr> wfr_Path = clean, wfr_Branch = branch, wfr_Committed = commit,
                                          wfr_Commit = ci_SHA ci, wfr_BlobSHA = [], wfr_Pushed = True,
                                          wfr_BytesWritten = int (length content), wfr_Warnings = [] \<rparr>)))))"

definition createSite ::
  "registry \<Rightarrow> FakeService \<Rightarrow> clock \<Rightarrow> uuid \<Rightarrow> TokenInfo \<Rightarrow> CreateSiteArgs \<Rightarrow> FakeService \<times> CreateSiteResult tool_result" where
  "createSite r f clk newID c inp =
     (if \<not> ti_CanCreateSites c then
        (f, Inl (toolErr codeForbidden ''this token cannot create sites; create the project in the dashboard'' []))
      else
        (case GetUserByID r (ti_UserID c) of
           Inl e \<Rightarrow> (f, Inl (mapError (ForeignError e) ''create_site''))
         | Inr user \<Rightarrow>
             if \<not> ur_CanCreateSites user \<and> \<not> ur_IsAdmin user then
               (f, Inl (toolErr codeForbidden ''your account is not allowed to create sites'' []))
             else
               (case CreateSite f clk newID
                       \<lparr> cs_Handle = csa_Handle inp, cs_OwnerID = ti_UserID c, cs_Visibility = ''private'',
                         cs_PublishMode = [], cs_Description = [], cs_Zip = None, cs_GitHubRepo = [],
                         cs_Actor = actorFor c \<rparr> of
                  (f', Inl e) \<Rightarrow> (f', Inl (mapError e ''create_site''))
                | (f', Inr s) \<Rightarrow>
                    (f', Inr \<lparr> csr_UUID = st_ID s, csr_Handle = st_Handle s,
                               csr_DraftURL = previewURL r (st_Handle s) BranchDraft,
                               csr_DefaultBranch = st_DefaultBranch s,
                               csr_TokenHint = ''your existing token already covers this new site (you are its owner); use it directly via MCP'' \<rparr>))))"

definition isNothingToCommit :: "site_error \<Rightarrow> bool" where
  "isNothingToCommit e = err_is e ErrNothingToCommit"

definition save :: "registry \<Rightarrow> FakeService \<Rightarrow> TokenInfo \<Rightarrow> SaveArgs \<Rightarrow> SaveResult tool_result" where
  "save r f c inp =
     (case authorize r f c (sva_Site inp) scopeWrite of
        Inl e \<Rightarrow> Inl e
      | Inr ac \<Rightarrow>
          if sva_BaseSHA inp = [] then Inl (toolErr codeValidation ''base_sha: required'' [])
          else
            let branch = branchOrDefault (sva_Branch inp) in
            if branch = BranchPublished then
              Inl (toolErr codeValidation ''branch: 'published' is not committable; use publish'' [])
            else
              (case Commit f \<lparr> cm_SiteID = st_ID (au_site ac), cm_Branch = branch, cm_Message = deref (sva_Message inp),
                               cm_BaseSHA = sva_BaseSHA inp, cm_Actor = actorFor c \<rparr> of
                 Inl e \<Rightarrow>
                   if isNothingToCommit e then
                     Inr \<lparr> svr_Branch = branch, svr_Commit = sva_BaseSHA inp, svr_NoOp = True, svr_Pushed = True, svr_FilesChanged = 0 \<rparr>
                   else Inl (mapError e ''save'')
               | Inr ci \<Rightarrow>
                   Inr \<lparr> svr_Branch = branch, svr_Commit = ci_SHA ci, svr_NoOp = False, svr_Pushed = True,
                         svr_FilesChanged = int (length (ci_Parents ci)) \<rparr>))"

definition publish ::
  "registry \<Rightarrow> FakeService \<Rightarrow> clock \<Rightarrow> TokenInfo \<Rightarrow> PublishArgs \<Rightarrow> FakeService \<times> PublishResult tool_result" where
  "publish r f clk c inp =
     (case authorize r f c (pba_Site inp) scopePublish of
        Inl e \<Rightarrow> (f, Inl e)
      | Inr ac \<Rightarrow>
          if au_role ac \<noteq> SiteRoleOwner \<and> st_PublishMode (au_site ac) \<noteq> ''direct'' then
            (f, Inl (toolErr codeForbidden ''this site requires publish requests; only the owner can publish directly'' []))
          else if pba_BaseSHA inp = [] then
            (f, Inl (toolErr codeValidation ''base_sha: required (tip of the source branch)'' []))
          else
            let from_branch = branchOrDefault (pba_From inp) in
            (case Publish f clk \<lparr> pu_SiteID = st_ID (au_site ac), pu_From = from_branch, pu_BaseSHA = pba_BaseSHA inp,
                                  pu_Message = deref (pba_Message inp), pu_Actor = actorFor c \<rparr> of
               (f', Inl e) \<Rightarrow> (f', Inl (mapError e ''publish''))
             | (f', Inr ci) \<Rightarrow>
                 (f', Inr \<lparr> pbr_PublishedCommit = ci_SHA ci, pbr_PublishedURL = publishedURL r (st_Handle (au_site ac)),
                            pbr_From = from_branch, pbr_FromCommit = pba_BaseSHA inp, pbr_Pushed = True, pbr_Redeploy = ''live'' \<rparr>)))"

definition rollback ::
  "registry \<Rightarrow> FakeService \<Rightarrow> clock \<Rightarrow> TokenInfo \<Rightarrow> RollbackArgs \<Rightarrow> FakeService \<times> RollbackResult tool_result" where
  "rollback r f clk c inp =
     (case authorize r f c (rba_Site inp) scopeWrite of
        Inl e \<Rightarrow> (f, Inl e)
      | Inr ac \<Rightarrow>
          if rba_ToSHA inp = [] then (f, Inl (toolErr codeValidation ''to_sha: required'' []))
          else if rba_BaseSHA inp = [] then (f, Inl (toolErr codeValidation ''base_sha: required'' []))
          else
            let branch = branchOrDefault (rba_Branch inp) in
            if branch = BranchPublished then
              (f, Inl (toolErr codeValidation ''branch: 'published' is not rollback-able; publish from a rolled-back draft'' []))
            else
              (case Rollback f clk (st_ID (au_site ac)) branch (rba_ToSHA inp) (rba_BaseSHA inp) (actorFor c) of
                 (f', Inl e) \<Rightarrow> (f', Inl (mapError e ''rollback''))
               | (f', Inr ci) \<Rightarrow>
                   (f', Inr \<lparr> rbr_Branch = branch, rbr_Commit = ci_SHA ci, rbr_RestoredFrom = rba_ToSHA inp, rbr_Pushed = True \<rparr>)))"

definition createBranch ::
  "registry \<Rightarrow> FakeService \<Rightarrow> TokenInfo \<Rightarrow> CreateBranchArgs \<Rightarrow> FakeService \<times> CreateBranchResult tool_result" where
  "createBranch r f c inp =
     (case authorize r f c (cba_Site inp) scopeWrite of
        Inl e \<Rightarrow> (f, Inl e)
      | Inr ac \<Rightarrow>
          if cba_Name inp = [] then (f, Inl (toolErr codeValidation ''name: required'' []))
          else
            let from_ref = (if deref (cba_From inp) \<noteq> [] then deref (cba_From inp) else ''draft'') in
            (case CreateBranch f (st_ID (au_site ac)) (cba_Name inp) from_ref of
               (f', Inl e) \<Rightarrow> (f', Inl (mapError e ''create_branch''))
             | (f', Inr b) \<Rightarrow>
                 (f', Inr \<lparr> cbr_Name = br_Name b, cbr_HeadSHA = br_HeadSHA b, cbr_PreviewSubdomain = br_PreviewSubdomain b \<rparr>)))"

section \<open>The tool table\<close>

text \<open>\<open>registerAll\<close>: a call, the rate class it is registered under, and the handler it runs.\<close>

datatype tool_call =
    CallListSites
  | CallListFiles ListFilesArgs
  | CallReadFile ReadFileArgs
  | CallWriteFile WriteFileArgs
  | CallCreateSite CreateSiteArgs
  | CallSave SaveArgs
  | CallPublish PublishArgs
  | CallGetDiff GetDiffArgs
  | CallGetLog GetLogArgs
  | CallRollback RollbackArgs
  | CallCreateBranch CreateBranchArgs

datatype tool_out =
    OutSites "SiteSummary list"
  | OutFiles ListFilesResult
  | OutRead ReadFileResult
  | OutWrite WriteFileResult
  | OutCreate CreateSiteResult
  | OutSave SaveResult
  | OutPublish PublishResult
  | OutDiff GetDiffResult
  | OutLog LogResult
  | OutRollback RollbackResult
  | OutBranch CreateBranchResult

fun tool_class :: "tool_call \<Rightarrow> toolClass" where
  "tool_class (CallWriteFile _) = classWrite"
| "tool_class (CallCreateSite _) = classCreate"
| "tool_class (CallSave _) = classWrite"
| "tool_class (CallPublish _) = classPublish"
| "tool_class (CallRollback _) = classWrite"
| "tool_class (CallCreateBranch _) = classWrite"
| "tool_class _ = classRead"

fun run_tool ::
  "registry \<Rightarrow> clock \<Rightarrow> uuid \<Rightarrow> FakeService \<Rightarrow> tool_call \<Rightarrow> TokenInfo \<Rightarrow> FakeService \<times> tool_out tool_result" where
  "run_tool r clk newID f CallListSites c = (f, map_sum id OutSites (listSites r c))"
| "run_tool r clk newID f (CallListFiles a) c = (f, map_sum id OutFiles (listFiles r f c a))"
| "run_tool r clk newID f (CallReadFile a) c = (f, map_sum id OutRead (readFile r f c a))"
| "run_tool r clk newID f (CallWriteFile a) c = map_prod id (map_sum id OutWrite) (writeFile r f clk c a)"
| "run_tool r clk newID f (CallCreateSite a) c = map_prod id (map_sum id OutCreate) (createSite r f clk newID c a)"
| "run_tool r clk newID f (CallSave a) c = (f, map_sum id OutSave (save r f c a))"
| "run_tool r clk newID f (CallPublish a) c = map_prod id (map_sum id OutPublish) (publish r f clk c a)"
| "run_tool r clk newID f (CallGetDiff a) c = (f, map_sum id OutDiff (getDiff r f c a))"
| "run_tool r clk newID f (CallGetLog a) c = (f, map_sum id OutLog (getLog r f c a))"
| "run_tool r clk newID f (CallRollback a) c = map_prod id (map_sum id OutRollback) (rollback r f clk c a)"
| "run_tool r clk newID f (CallCreateBranch a) c = map_prod id (map_sum id OutBranch) (createBranch r f c a)"

definition mcp_call ::
  "('l \<Rightarrow> uuid \<Rightarrow> toolClass \<Rightarrow> 'l \<times> bool \<times> int) \<Rightarrow> registry \<Rightarrow> clock \<Rightarrow> uuid \<Rightarrow> 'l \<Rightarrow> FakeService \<Rightarrow>
   TokenInfo option \<Rightarrow> tool_call \<Rightarrow> 'l \<times> FakeService \<times> tool_out tool_result" where
  "mcp_call limiter r clk newID l f claims t =
     guard limiter l f (tool_class t) claims (run_tool r clk newID f t)"

end
