(* ===== verification/Mcp_Guarantees.thy ===== *)
theory Mcp_Guarantees
  imports Mcp_Tools Site_Lifecycle
begin

text \<open>
  What a holder of an MCP token can and cannot do. Every tool call is either a read or one
  operation of the site service that the token's owner is permitted to run; the guarantees of
  the service carry over to the tools through that step.
\<close>

section \<open>A tool call as a step of the service\<close>

inductive permitted :: "registry \<Rightarrow> FakeService \<Rightarrow> TokenInfo \<Rightarrow> uuid \<Rightarrow> svc_op \<Rightarrow> bool"
  for r f c newID where
    p_write: "\<lbrakk> authorize r f c h scopeWrite = Inr a; wf_SiteID inp = st_ID (au_site a) \<rbrakk> \<Longrightarrow>
      permitted r f c newID (OpWriteFile clk inp)"
  | p_rollback: "authorize r f c h scopeWrite = Inr a \<Longrightarrow>
      permitted r f c newID (OpRollback clk (st_ID (au_site a)) n t b act)"
  | p_branch: "authorize r f c h scopeWrite = Inr a \<Longrightarrow>
      permitted r f c newID (OpCreateBranch (st_ID (au_site a)) n base)"
  | p_publish: "\<lbrakk> authorize r f c h scopePublish = Inr a; pu_SiteID inp = st_ID (au_site a);
        au_role a = SiteRoleOwner \<or> st_PublishMode (au_site a) = ''direct'' \<rbrakk> \<Longrightarrow>
      permitted r f c newID (OpPublish clk inp)"
  | p_create: "\<lbrakk> ti_CanCreateSites c; GetUserByID r (ti_UserID c) = Inr u;
        ur_CanCreateSites u \<or> ur_IsAdmin u; cs_OwnerID inp = ti_UserID c \<rbrakk> \<Longrightarrow>
      permitted r f c newID (OpCreateSite clk newID inp)"

lemma fst_case_result:
  "fst (case x of (f', Inl e) \<Rightarrow> (f', Inl (g e)) | (f', Inr y) \<Rightarrow> (f', Inr (h f' y))) = fst x"
  by (auto split: prod.splits sum.splits)

definition one_step :: "registry \<Rightarrow> FakeService \<Rightarrow> TokenInfo \<Rightarrow> uuid \<Rightarrow> FakeService \<Rightarrow> bool" where
  "one_step r f c newID f' \<longleftrightarrow> f' = f \<or> (\<exists>x. permitted r f c newID x \<and> f' = svc_apply f x)"

lemma one_step_refl [simp]: "one_step r f c newID f"
  by (simp add: one_step_def)

lemma one_stepI: "permitted r f c newID x \<Longrightarrow> f' = svc_apply f x \<Longrightarrow> one_step r f c newID f'"
  by (auto simp: one_step_def)

lemma writeFile_step: "one_step r f c newID (fst (writeFile r f clk c inp))"
  unfolding writeFile_def Let_def
  by (auto simp: fst_case_result split: sum.splits if_splits intro!: one_stepI [OF p_write])

lemma rollback_step: "one_step r f c newID (fst (rollback r f clk c inp))"
  unfolding rollback_def Let_def
  by (auto simp: fst_case_result split: sum.splits if_splits intro!: one_stepI [OF p_rollback])

lemma createBranch_step: "one_step r f c newID (fst (createBranch r f c inp))"
  unfolding createBranch_def Let_def
  by (auto simp: fst_case_result split: sum.splits if_splits intro!: one_stepI [OF p_branch])

lemma publish_step: "one_step r f c newID (fst (publish r f clk c inp))"
  unfolding publish_def Let_def
  by (auto simp: fst_case_result split: sum.splits if_splits intro!: one_stepI [OF p_publish])

lemma createSite_step: "one_step r f c newID (fst (createSite r f clk newID c inp))"
  unfolding createSite_def Let_def
  by (auto simp: fst_case_result split: sum.splits if_splits intro!: one_stepI [OF p_create])

lemma run_tool_step: "one_step r f c newID (fst (run_tool r clk newID f t c))"
  by (cases t) (simp_all add: writeFile_step rollback_step createBranch_step publish_step createSite_step)

section \<open>What a permitted operation touches\<close>

lemma writer_other: "writer f clk i name w \<Longrightarrow> j \<noteq> i \<Longrightarrow> gm_get (sites (fst w)) j = gm_get (sites f) j"
  by (induction rule: writer.induct) (simp_all add: commit_on_eq put_site_def)

lemma Publish_other: "j \<noteq> pu_SiteID inp \<Longrightarrow> gm_get (sites (fst (Publish f clk inp))) j = gm_get (sites f) j"
  by (auto simp: Publish_def Let_def nextSHA_def put_site_def split: sum.splits option.splits)

lemma CreateBranch_other: "j \<noteq> i \<Longrightarrow> gm_get (sites (fst (CreateBranch f i n base))) j = gm_get (sites f) j"
  by (auto simp: CreateBranch_def put_site_def split: sum.splits option.splits)

lemma CreateSite_other: "j \<noteq> newID \<Longrightarrow> gm_get (sites (fst (CreateSite f clk newID inp))) j = gm_get (sites f) j"
proof (cases "CreateSite f clk newID inp")
  case (Pair f' w)
  assume "j \<noteq> newID"
  then show ?thesis using Pair CreateSite_Inl [of f clk newID inp f'] CreateSite_Inr [of f clk newID inp f']
    by (cases w) (auto simp: put_site_def)
qed

lemma authorize_ok:
  assumes inv: "svc_inv f" and a: "authorize r f c h sc = Inr a"
  shows "sc \<in> set (ti_Scopes c)" "sc \<in> set (roleScopes (au_role a))"
    "GetRole r (st_ID (au_site a)) (ti_UserID c) = HasRole (au_role a)"
    "\<exists>s. gm_get (sites f) (st_ID (au_site a)) = Some s \<and> is_live s \<and> au_site a = toSite (rec s)"
proof -
  note g = svc_directory.mcp_granted [OF inv, THEN iffD1, OF a [unfolded authorize_def]]
  then show "sc \<in> set (ti_Scopes c)" "sc \<in> set (roleScopes (au_role a))"
    "GetRole r (st_ID (au_site a)) (ti_UserID c) = HasRole (au_role a)" by blast+
  from g obtain s where s: "live_by_handle f (go_lower h) = Some s" "au_site a = toSite (rec s)"
    by (auto simp: GetSiteByHandle_def split: option.splits)
  obtain i where i: "(i, s) \<in> set (sites f)" "is_live s" using live_by_handle_Some [OF s(1)] by blast
  have "gm_get (sites f) i = Some s" using inv i(1) by (simp add: svc_inv_def gm_in_get)
  then show "\<exists>s. gm_get (sites f) (st_ID (au_site a)) = Some s \<and> is_live s \<and> au_site a = toSite (rec s)"
    using svc_site [OF inv, of i s] s(2) i(2) by auto
qed

text \<open>The site a user may write to, or publish, with a token of the given scopes.\<close>

definition grants :: "registry \<Rightarrow> TokenInfo \<Rightarrow> uuid \<Rightarrow> scope \<Rightarrow> bool" where
  "grants r c i sc \<longleftrightarrow> sc \<in> set (ti_Scopes c) \<and>
     (\<exists>role. GetRole r i (ti_UserID c) = HasRole role \<and> sc \<in> set (roleScopes role))"

lemma authorize_grants: "svc_inv f \<Longrightarrow> authorize r f c h sc = Inr a \<Longrightarrow> grants r c (st_ID (au_site a)) sc"
  using authorize_ok by (auto simp: grants_def)

lemma permitted_enabled: "permitted r f c newID x \<Longrightarrow> gm_get (sites f) newID = None \<Longrightarrow> svc_enabled f x"
  by (induction rule: permitted.induct) simp_all

lemma permitted_changes:
  assumes inv: "svc_inv f" and p: "permitted r f c newID x" and d: "gm_get (sites (svc_apply f x)) i \<noteq> gm_get (sites f) i"
  shows "grants r c i scopeWrite \<or> grants r c i scopePublish \<or>
    i = newID \<and> ti_CanCreateSites c \<and> (\<exists>u. GetUserByID r (ti_UserID c) = Inr u \<and> (ur_CanCreateSites u \<or> ur_IsAdmin u))"
  using p d
proof (cases rule: permitted.cases)
  case (p_write h a inp clk)
  then have "i = wf_SiteID inp" using d writer_other [OF WriteFile_writer [OF inv, of clk inp], of i] by auto
  then show ?thesis using p_write authorize_grants [OF inv] by auto
next
  case (p_rollback h a clk n t b act)
  then have "i = st_ID (au_site a)" using d writer_other [OF Rollback_writer [OF inv, of clk "st_ID (au_site a)" n t b act], of i] by auto
  then show ?thesis using p_rollback authorize_grants [OF inv] by auto
next
  case (p_branch h a n base)
  then have "i = st_ID (au_site a)" using d CreateBranch_other [of i "st_ID (au_site a)" f n base] by auto
  then show ?thesis using p_branch authorize_grants [OF inv] by auto
next
  case (p_publish h a inp clk)
  then have "i = pu_SiteID inp" using d Publish_other [of i inp f clk] by auto
  then show ?thesis using p_publish authorize_grants [OF inv] by auto
next
  case (p_create u inp clk)
  then have "i = newID" using d CreateSite_other [of i newID f clk inp] by auto
  then show ?thesis using p_create by blast
qed

lemma permitted_publishes:
  assumes inv: "svc_inv f" and p: "permitted r f c newID x" and new: "gm_get (sites f) newID = None"
    and d: "branch_log (svc_apply f x) i BranchPublished \<noteq> branch_log f i BranchPublished"
  shows "grants r c i scopePublish \<and>
    (\<exists>s. gm_get (sites f) i = Some s \<and> is_live s \<and>
      (GetRole r i (ti_UserID c) = HasRole SiteRoleOwner \<or> sr_PublishMode (rec s) = ''direct''))"
proof -
  obtain clk inp where x: "x = OpPublish clk inp"
    using apply_published [OF inv permitted_enabled [OF p new]] d by blast
  from p [unfolded x] obtain h a where a: "authorize r f c h scopePublish = Inr a" "pu_SiteID inp = st_ID (au_site a)"
      "au_role a = SiteRoleOwner \<or> st_PublishMode (au_site a) = ''direct''"
    by (cases rule: permitted.cases) auto
  have i: "i = pu_SiteID inp"
    using d x Publish_other [of i inp f clk] by (cases "i = pu_SiteID inp") (auto simp: branch_log_def)
  obtain s where "gm_get (sites f) i = Some s" "is_live s" "au_site a = toSite (rec s)"
    using authorize_ok(4) [OF inv a(1)] a(2) i by auto
  then show ?thesis using authorize_grants [OF inv a(1)] authorize_ok(3) [OF inv a(1)] a(2,3) i by auto
qed

section \<open>Reading back what a tool wrote\<close>

lemma write_implies_read: "scopeWrite \<in> set (roleScopes role) \<Longrightarrow> scopeRead \<in> set (roleScopes role)"
  by (auto simp: roleScopes_def scopeRead_def scopeWrite_def split: if_splits)

lemma decode_read_encoding:
  "decodeContent (if bin then std_EncodeToString v else v) (Some (if bin then encodingBase64 else encodingUTF8)) = Inr v"
proof -
  have "go_lower encodingBase64 = encodingBase64" "go_lower encodingUTF8 = encodingUTF8" by code_simp+
  then show ?thesis
    by (simp add: decodeContent_def deref_def encodingBase64_def encodingUTF8_def std_roundtrip)
qed

lemma written_path_readable: "validateContentPath p True = Inr q \<Longrightarrow> validateContentPath p False = Inr q"
  by (simp add: validateContentPath_iff)

lemma authorize_again:
  assumes "svc_inv f'" and a: "authorize r f c h sc = Inr a" and "svc_inv f"
    and s': "gm_get (sites f') (st_ID (au_site a)) = Some s'" "is_live s'" "sr_Handle (rec s') = st_Handle (au_site a)"
    and sc': "sc' \<in> set (ti_Scopes c)" "sc' \<in> set (roleScopes (au_role a))"
  shows "\<exists>a'. authorize r f' c h sc' = Inr a' \<and> st_ID (au_site a') = st_ID (au_site a)"
proof -
  note g = svc_directory.mcp_granted [OF assms(3), THEN iffD1, OF a [unfolded authorize_def]]
  then have "st_Handle (au_site a) = go_lower h" using svc_directory.found [OF assms(3)] by blast
  then have "live_site_id f' (go_lower h) (st_ID (au_site a))" using s' by (auto simp: live_site_id_def)
  then obtain x where x: "GetSiteByHandle f' h = Inr x" "st_ID x = st_ID (au_site a)"
    using svc_directory.listed [OF assms(1)] by blast
  have "authorizeSite (GetSiteByHandle f') (GetRole r) c h sc' =
      Inr \<lparr> au_site = x, au_role = au_role a, au_scopes = intersectScopes (ti_Scopes c) (au_role a) \<rparr>"
    by (rule svc_directory.mcp_granted [OF assms(1), THEN iffD2]) (use g x sc' in simp)
  then show ?thesis using x(2) by (simp add: authorize_def)
qed

lemma writeFile_okE:
  assumes "writeFile r f clk c inp = (f', Inr w)"
  obtains a q v ci where "authorize r f c (wfa_Site inp) scopeWrite = Inr a"
    "validateContentPath (wfa_Path inp) True = Inr q" "decodeContent (wfa_Content inp) (wfa_Encoding inp) = Inr v"
    "int (length v) \<le> MaxFileBytes (limits r)" "wfr_Path w = q" "wfr_Commit w = ci_SHA ci"
    "WriteFile f clk \<lparr> wf_SiteID = st_ID (au_site a), wf_Branch = branchOrDefault (wfa_Branch inp), wf_Path = q,
       wf_Content = v, wf_BaseSHA = wfa_BaseSHA inp, wf_Commit = (case wfa_Commit inp of None \<Rightarrow> True | Some b \<Rightarrow> b),
       wf_Message = deref (wfa_Message inp), wf_Actor = actorFor c \<rparr> = (f', Inr ci)"
  using assms that unfolding writeFile_def Let_def
  by (auto split: sum.splits if_splits prod.splits)

lemma WriteFile_readback:
  assumes inv: "svc_inv f" and ok: "WriteFile f clk inp = (f', Inr ci)"
  shows "ReadFile f' (wf_SiteID inp) (wf_Branch inp) [] (wf_Path inp) =
      Inr \<lparr> fc_Path = wf_Path inp, fc_Content = wf_Content inp, fc_SHA = ci_SHA ci,
            fc_BlobSHA = hex40 (length (wf_Content inp)), fc_Size = int (length (wf_Content inp)),
            fc_IsBinary = isBinaryContent (wf_Content inp) \<rparr>"
    and "\<exists>s s'. gm_get (sites f) (wf_SiteID inp) = Some s \<and> gm_get (sites f') (wf_SiteID inp) = Some s' \<and>
      is_live s' \<and> sr_Handle (rec s') = sr_Handle (rec s)"
proof -
  from ok obtain s b msg where s: "gm_get (sites f) (wf_SiteID inp) = Some s" "is_live s"
    and c: "commit_on f clk (wf_SiteID inp) s (wf_Branch inp) b
      (gm_put (wf_Path inp) (wf_Content inp) (tip_tree b)) (wf_Actor inp) msg = (f', Inr ci)"
    unfolding WriteFile_ok by blast
  define k where "k = new_commit f b (gm_put (wf_Path inp) (wf_Content inp) (tip_tree b)) (wf_Actor inp) msg (clk 0)"
  define s' where "s' = touch (put_branch s (wf_Branch inp) (b @ [k])) (clk 1)"
  have s': "gm_get (sites f') (wf_SiteID inp) = Some s'" "is_live s'" "sr_Handle (rec s') = sr_Handle (rec s)"
    "gm_get (branches s') (wf_Branch inp) = Some (b @ [k])"
    using commit_on_site [OF c] s(2) by (auto simp: s'_def k_def touch_def put_branch_def is_live_def)
  have "ci_SHA ci = sha k" using c by (auto simp: commit_on_eq toCommitInfo_def k_def)
  moreover have "gm_get (tip_tree (b @ [k])) (wf_Path inp) = Some (wf_Content inp)" by (simp add: k_def)
  ultimately show "ReadFile f' (wf_SiteID inp) (wf_Branch inp) [] (wf_Path inp) =
      Inr \<lparr> fc_Path = wf_Path inp, fc_Content = wf_Content inp, fc_SHA = ci_SHA ci,
            fc_BlobSHA = hex40 (length (wf_Content inp)), fc_Size = int (length (wf_Content inp)),
            fc_IsBinary = isBinaryContent (wf_Content inp) \<rparr>"
    using ReadFile_tip [OF WriteFile_inv [OF inv ok] s'(1,2,4) validate_written [OF ok]] by simp
  show "\<exists>s s'. gm_get (sites f) (wf_SiteID inp) = Some s \<and> gm_get (sites f') (wf_SiteID inp) = Some s' \<and>
      is_live s' \<and> sr_Handle (rec s') = sr_Handle (rec s)" using s s' by blast
qed

section \<open>Bounded answers\<close>

definition item_of :: "FileEntry \<Rightarrow> FileItem" where
  "item_of e = \<lparr> fi_Path = fe_Path e, fi_Size = fe_Size e, fi_Mode = fe_Mode e \<rparr>"

lemma list_loop_spec:
  "0 \<le> m \<Longrightarrow> length files \<le> nat m \<Longrightarrow>
   list_loop m files es =
     (let all = files @ map item_of (filter (\<lambda>e. \<not> fe_IsDir e) es) in (take (nat m) all, nat m < length all))"
proof (induction es arbitrary: files)
  case (Cons e es)
  consider "fe_IsDir e" | "\<not> fe_IsDir e" "int (length files) < m" | "\<not> fe_IsDir e" "m \<le> int (length files)" by linarith
  then show ?case
  proof cases
    case 1
    then show ?thesis using Cons by simp
  next
    case 2
    then show ?thesis using Cons.IH [of "files @ [item_of e]"] Cons.prems by (simp add: item_of_def)
  next
    case 3
    then have "length files = nat m" using Cons.prems by linarith
    then show ?thesis using 3 by (simp add: Let_def)
  qed
qed (simp add: Let_def)

lemma diff_loop_paths: "map df_Path (fst (diff_loop ns b fds)) = map fd_Path fds"
  by (induction fds arbitrary: b) (cases ns; simp add: Let_def case_prod_beta)+

lemma diff_loop_budget: "0 \<le> b \<Longrightarrow> sum_list (map (int \<circ> length \<circ> df_Patch) (fst (diff_loop ns b fds))) \<le> b"
proof (induction fds arbitrary: b)
  case (Cons fd fds)
  show ?case
    using Cons.IH [of b] Cons.IH [of "b - int (length (fd_UnifiedPatch fd))"] Cons.prems
    by (cases ns; cases "int (length (fd_UnifiedPatch fd)) \<le> b") (simp_all add: Let_def case_prod_beta)
qed simp

lemma diff_loop_truncated:
  "0 \<le> b \<Longrightarrow> snd (diff_loop False b fds) \<longleftrightarrow> map df_Patch (fst (diff_loop False b fds)) \<noteq> map fd_UnifiedPatch fds"
proof (induction fds arbitrary: b)
  case (Cons fd fds)
  show ?case
    using Cons.IH [of "b - int (length (fd_UnifiedPatch fd))"] Cons.prems
    by (auto simp: Let_def case_prod_beta)
qed simp

lemma GetLog_length: "GetLog f opts = Inr cs \<Longrightarrow> 0 < lo_Limit opts \<Longrightarrow> int (length cs) \<le> lo_Limit opts"
proof -
  assume "GetLog f opts = Inr cs" "0 < lo_Limit opts"
  then obtain xs where "cs = take (nat (if defaultMaxLogLimit < lo_Limit opts then defaultMaxLogLimit else lo_Limit opts)) xs"
    by (auto simp: GetLog_def Let_def split: sum.splits option.splits)
  then show "int (length cs) \<le> lo_Limit opts" using \<open>0 < lo_Limit opts\<close> by (auto simp: split: if_splits)
qed

lemma limits_positive:
  "0 < MaxFileBytes (limits_withDefaults l)" "0 < MaxReadBytes (limits_withDefaults l)" "0 < MaxDiffBytes (limits_withDefaults l)"
  "0 < MaxListItems (limits_withDefaults l)" "0 < MaxLogLimit (limits_withDefaults l)"
  by (simp_all add: limits_withDefaults_def)

definition example_registry :: registry where
  "example_registry = \<lparr> BaseDomain = ''kotoji.dev'', Scheme = [], limits = DefaultLimits,
     GetRole = (\<lambda>i u. if u = ''u'' then HasRole SiteRoleEditor else NoMembership),
     GetUserByID = (\<lambda>u. Inr \<lparr> ur_CanCreateSites = False, ur_IsAdmin = False \<rparr>),
     ListSitesForUser = (\<lambda>u off lim. Inr []) \<rparr>"

definition example_token :: TokenInfo where
  "example_token = \<lparr> ti_UserID = ''u'', ti_TokenID = ''t'', ti_Scopes = [''read'', ''write''], ti_CanCreateSites = True \<rparr>"

definition example_call :: WriteFileArgs where
  "example_call = \<lparr> wfa_Site = ''Shop'', wfa_Path = ''./img/a.svg'', wfa_Content = ''aGk='', wfa_Encoding = Some ''Base64'',
     wfa_BaseSHA = hex40 1, wfa_Branch = None, wfa_Commit = None, wfa_Message = None \<rparr>"

lemma example_call_ok: "\<not> isl (snd (writeFile example_registry example_svc (\<lambda>_. 0) example_token example_call))"
  by code_simp

lemma example_decoded: "decodeContent (wfa_Content example_call) (wfa_Encoding example_call) = Inr ''hi''"
  by code_simp

section \<open>Properties\<close>

text \<open>
  C6: A tool call is confined. From any reachable state it leads to a reachable state; a site
  it changes is one on which the token carries the write or publish scope and the owner's
  current role grants it, or a new site made by a token and an account that may both create
  sites; and the published history of a site moves only for a token with the publish scope
  whose owner's role grants it, and only when that owner owns the site or the site publishes
  directly.
\<close>

theorem mcp_confined:
  assumes "reachable f" and "gm_get (sites f) newID = None" and "run_tool r clk newID f t c = (f', out)"
  shows "reachable f' \<and>
    (\<forall>i. gm_get (sites f') i \<noteq> gm_get (sites f) i \<longrightarrow>
      grants r c i scopeWrite \<or> grants r c i scopePublish \<or>
      i = newID \<and> ti_CanCreateSites c \<and>
      (\<exists>u. GetUserByID r (ti_UserID c) = Inr u \<and> (ur_CanCreateSites u \<or> ur_IsAdmin u))) \<and>
    (\<forall>i. branch_log f' i BranchPublished \<noteq> branch_log f i BranchPublished \<longrightarrow>
      grants r c i scopePublish \<and>
      (\<exists>s. gm_get (sites f) i = Some s \<and> is_live s \<and>
        (GetRole r i (ti_UserID c) = HasRole SiteRoleOwner \<or> sr_PublishMode (rec s) = ''direct'')))"
proof -
  note inv = reachable_inv [OF assms(1)]
  have "one_step r f c newID f'" using run_tool_step [of r f c newID clk t] assms(3) by simp
  then consider "f' = f" | x where "permitted r f c newID x" "f' = svc_apply f x" by (auto simp: one_step_def)
  then show ?thesis
  proof cases
    case 1
    then show ?thesis using assms(1) by simp
  next
    case (2 x)
    then have "reachable f'" using reachable_apply [OF assms(1)] permitted_enabled assms(2) by simp
    then show ?thesis
      using permitted_changes [OF inv 2(1)] permitted_publishes [OF inv 2(1) assms(2)] unfolding 2(2) by blast
  qed
qed

theorem mcp_confined_witness:
  "branch_log (fst (run_tool example_registry (\<lambda>_. 0) ''s2'' example_svc
      (CallPublish \<lparr> pba_Site = ''shop'', pba_From = None, pba_BaseSHA = hex40 1, pba_Message = None \<rparr>) example_token)) ''s1'' BranchPublished =
   branch_log example_svc ''s1'' BranchPublished"
proof -
  let ?t = "run_tool example_registry (\<lambda>_. 0) ''s2'' example_svc
      (CallPublish \<lparr> pba_Site = ''shop'', pba_From = None, pba_BaseSHA = hex40 1, pba_Message = None \<rparr>) example_token"
  have "gm_get (sites example_svc) ''s2'' = None" by (simp add: example_svc_def) code_simp
  moreover have "\<not> grants example_registry example_token ''s1'' scopePublish"
    by (simp add: grants_def example_token_def scopePublish_def)
  ultimately show ?thesis
    using mcp_confined [OF example_reachable _ prod.collapse [symmetric], of "''s2''" example_registry "\<lambda>_. 0"
      "CallPublish \<lparr> pba_Site = ''shop'', pba_From = None, pba_BaseSHA = hex40 1, pba_Message = None \<rparr>" example_token,
      THEN conjunct2, THEN conjunct2, THEN spec, of "''s1''"] by blast
qed

text \<open>
  What a tool wrote can be read back. After a successful \<open>write_file\<close>, \<open>read_file\<close> with
  the same site, path and branch succeeds for a token that also carries the read scope,
  reports the commit the write returned (the lock token for the next write), and its content
  decodes, under the encoding it names, to the very bytes that were written, as long as they
  fit the read cap.
\<close>

theorem mcp_write_read:
  assumes "reachable f" and w: "writeFile r f clk c inp = (f', Inr w)" and sc: "scopeRead \<in> set (ti_Scopes c)"
    and v: "decodeContent (wfa_Content inp) (wfa_Encoding inp) = Inr v" and len: "int (length v) \<le> MaxReadBytes (limits r)"
  shows "\<exists>out. readFile r f' c \<lparr> rfa_Site = wfa_Site inp, rfa_Path = wfa_Path inp, rfa_Branch = wfa_Branch inp, rfa_Ref = None \<rparr> = Inr out \<and>
    rfr_Commit out = wfr_Commit w \<and> rfr_Path out = wfr_Path w \<and> \<not> rfr_Truncated out \<and>
    decodeContent (rfr_Content out) (Some (rfr_Encoding out)) = Inr v"
proof -
  note inv = reachable_inv [OF assms(1)]
  let ?n = "branchOrDefault (wfa_Branch inp)"
  from w obtain a q ci where a: "authorize r f c (wfa_Site inp) scopeWrite = Inr a"
    and q: "validateContentPath (wfa_Path inp) True = Inr q" "wfr_Path w = q" "wfr_Commit w = ci_SHA ci"
    and wf: "WriteFile f clk \<lparr> wf_SiteID = st_ID (au_site a), wf_Branch = ?n, wf_Path = q,
       wf_Content = v, wf_BaseSHA = wfa_BaseSHA inp, wf_Commit = (case wfa_Commit inp of None \<Rightarrow> True | Some b \<Rightarrow> b),
       wf_Message = deref (wfa_Message inp), wf_Actor = actorFor c \<rparr> = (f', Inr ci)"
    using writeFile_okE [OF w] v by (metis sum.inject(2))
  have inv': "svc_inv f'" by (rule WriteFile_inv [OF inv wf])
  obtain s' where s': "gm_get (sites f') (st_ID (au_site a)) = Some s'" "is_live s'" "sr_Handle (rec s') = st_Handle (au_site a)"
    using WriteFile_readback(2) [OF inv wf] authorize_ok(4) [OF inv a] by auto
  obtain a' where a': "authorize r f' c (wfa_Site inp) scopeRead = Inr a'" "st_ID (au_site a') = st_ID (au_site a)"
    using authorize_again [OF inv' a inv s' sc] write_implies_read authorize_ok(2) [OF inv a] by blast
  have rd: "ReadFile f' (st_ID (au_site a)) ?n [] q =
    Inr \<lparr> fc_Path = q, fc_Content = v, fc_SHA = ci_SHA ci, fc_BlobSHA = hex40 (length v),
          fc_Size = int (length v), fc_IsBinary = isBinaryContent v \<rparr>"
    using WriteFile_readback(1) [OF inv wf] by simp
  show ?thesis
    unfolding readFile_def using a' written_path_readable [OF q(1)] rd q(2,3) len decode_read_encoding
    by (simp add: deref_def Let_def)
qed

theorem mcp_write_read_witness:
  "\<exists>out. readFile example_registry (fst (writeFile example_registry example_svc (\<lambda>_. 0) example_token example_call)) example_token
      \<lparr> rfa_Site = ''Shop'', rfa_Path = ''./img/a.svg'', rfa_Branch = None, rfa_Ref = None \<rparr> = Inr out \<and>
    decodeContent (rfr_Content out) (Some (rfr_Encoding out)) = Inr ''hi''"
proof -
  obtain f' w where w: "writeFile example_registry example_svc (\<lambda>_. 0) example_token example_call = (f', Inr w)"
    using result_ok [OF example_call_ok] by blast
  have sc: "scopeRead \<in> set (ti_Scopes example_token)" by (simp add: example_token_def scopeRead_def)
  have "int (length ''hi'') \<le> MaxReadBytes (limits example_registry)"
    by (simp add: example_registry_def DefaultLimits_def limits_withDefaults_def)
  from mcp_write_read [OF example_reachable w sc example_decoded this] show ?thesis
    using w by (auto simp: example_call_def)
qed

text \<open>
  The answers of the reading tools are bounded by the configured limits, whatever they
  are. \<open>list_files\<close> returns at most \<open>MaxListItems\<close> files; the patches of \<open>get_diff\<close> together
  stay within \<open>MaxDiffBytes\<close>, every changed path is listed, and the answer is marked truncated
  exactly when a patch the service computed is left out (except in the name-status format,
  which has no patches); \<open>get_log\<close> returns at most the
  requested number of commits, itself at most \<open>MaxLogLimit\<close>; \<open>read_file\<close> never returns more
  than \<open>MaxReadBytes\<close> bytes of a text file.
\<close>

theorem mcp_answers_bounded:
  assumes "limits r = limits_withDefaults l"
  shows "(listFiles r f c la = Inr lo \<longrightarrow> int (length (lfr_Files lo)) \<le> MaxListItems (limits r)) \<and>
    (getDiff r f c da = Inr d \<longrightarrow>
      sum_list (map (int \<circ> length \<circ> df_Patch) (gdr_Files d)) \<le> MaxDiffBytes (limits r) \<and>
      (\<exists>opts dr. GetDiff f opts = Inr dr \<and> map df_Path (gdr_Files d) = map fd_Path (dr_Files dr) \<and>
        (do_NameStatus opts \<longleftrightarrow> map_option go_lower (gda_Format da) = Some ''name-status'') \<and>
        (do_NameStatus opts \<or> gdr_Truncated d = (map df_Patch (gdr_Files d) \<noteq> map fd_UnifiedPatch (dr_Files dr))))) \<and>
    (getLog r f c ga = Inr g \<longrightarrow>
      int (length (lgr_Commits g)) \<le> MaxLogLimit (limits r) \<and>
      (\<forall>n. gla_Limit ga = Some n \<longrightarrow> int (length (lgr_Commits g)) \<le> n)) \<and>
    (readFile r f c ra = Inr x \<longrightarrow> rfr_Encoding x = encodingUTF8 \<longrightarrow> int (length (rfr_Content x)) \<le> MaxReadBytes (limits r))"
proof (intro conjI impI allI)
  note pos = limits_positive [of l, folded assms]
  assume "listFiles r f c la = Inr lo"
  then obtain es tr where "list_loop (MaxListItems (limits r)) [] es = (lfr_Files lo, tr)"
    by (auto simp: listFiles_def Let_def split: sum.splits prod.splits)
  then have "lfr_Files lo = take (nat (MaxListItems (limits r))) (map item_of (filter (\<lambda>e. \<not> fe_IsDir e) es))"
    using list_loop_spec [of "MaxListItems (limits r)" "[]" es] pos by (simp add: Let_def)
  then show "int (length (lfr_Files lo)) \<le> MaxListItems (limits r)" using pos by simp
next
  note pos = limits_positive [of l, folded assms]
  assume "getDiff r f c da = Inr d"
  then obtain opts dr where o: "GetDiff f opts = Inr dr" "do_NameStatus opts \<longleftrightarrow> map_option go_lower (gda_Format da) = Some ''name-status''"
      and l: "diff_loop (do_NameStatus opts) (MaxDiffBytes (limits r)) (dr_Files dr) = (gdr_Files d, gdr_Truncated d)"
    by (fastforce simp: getDiff_def Let_def split: sum.splits prod.splits option.splits if_splits)
  have b: "0 \<le> MaxDiffBytes (limits r)" using pos by simp
  show "sum_list (map (int \<circ> length \<circ> df_Patch) (gdr_Files d)) \<le> MaxDiffBytes (limits r)"
    using diff_loop_budget [OF b, of "do_NameStatus opts" "dr_Files dr"] l by simp
  show "\<exists>opts dr. GetDiff f opts = Inr dr \<and> map df_Path (gdr_Files d) = map fd_Path (dr_Files dr) \<and>
        (do_NameStatus opts \<longleftrightarrow> map_option go_lower (gda_Format da) = Some ''name-status'') \<and>
        (do_NameStatus opts \<or> gdr_Truncated d = (map df_Patch (gdr_Files d) \<noteq> map fd_UnifiedPatch (dr_Files dr)))"
    using o l diff_loop_paths [of "do_NameStatus opts" "MaxDiffBytes (limits r)" "dr_Files dr"]
      diff_loop_truncated [OF b, of "dr_Files dr"] by (cases "do_NameStatus opts") auto
next
  assume "getLog r f c ga = Inr g"
  then obtain opts cs where lg: "GetLog f opts = Inr cs" "0 < lo_Limit opts" and g: "lgr_Commits g = map toLogCommit cs"
      "lo_Limit opts = (case gla_Limit ga of None \<Rightarrow> 20 | Some n \<Rightarrow> n)" "lo_Limit opts \<le> MaxLogLimit (limits r)"
    by (fastforce simp: getLog_def Let_def not_less split: sum.splits if_splits)
  have g': "int (length (lgr_Commits g)) \<le> lo_Limit opts" using GetLog_length [OF lg] g(1) by simp
  then show "int (length (lgr_Commits g)) \<le> MaxLogLimit (limits r)" using g(3) by simp
  fix n
  show "gla_Limit ga = Some n \<Longrightarrow> int (length (lgr_Commits g)) \<le> n" using g(2) g' by simp
next
  note pos = limits_positive [of l, folded assms]
  assume "readFile r f c ra = Inr x" "rfr_Encoding x = encodingUTF8"
  moreover have "encodingBase64 \<noteq> encodingUTF8" by (simp add: encodingBase64_def encodingUTF8_def)
  ultimately show "int (length (rfr_Content x)) \<le> MaxReadBytes (limits r)"
    using pos by (auto simp: readFile_def Let_def split: sum.splits if_splits)
qed

theorem mcp_answers_bounded_witness:
  "int (length (lfr_Files (projr (listFiles example_registry example_svc example_token
     \<lparr> lfa_Site = ''shop'', lfa_Branch = None, lfa_Path = None, lfa_Ref = None, lfa_Recursive = None \<rparr>)))) \<le> 5000"
proof -
  let ?a = "\<lparr> lfa_Site = ''shop'', lfa_Branch = None, lfa_Path = None, lfa_Ref = None, lfa_Recursive = None \<rparr>"
  have "\<not> isl (listFiles example_registry example_svc example_token ?a)" by code_simp
  then have r: "listFiles example_registry example_svc example_token ?a = Inr (projr (listFiles example_registry example_svc example_token ?a))"
    by simp
  have l: "limits example_registry = limits_withDefaults \<lparr> MaxFileBytes = 0, MaxReadBytes = 0, MaxDiffBytes = 0, MaxListItems = 0, MaxLogLimit = 0 \<rparr>"
    by (simp add: example_registry_def DefaultLimits_def)
  have "MaxListItems (limits example_registry) = 5000" by (simp add: l limits_withDefaults_def)
  then show ?thesis using mcp_answers_bounded [OF l, THEN conjunct1, rule_format, OF r] by simp
qed

end
