(* ===== verification/Security_Headers.thy ===== *)
theory Security_Headers
  imports Go_Http Resolver
begin

text \<open>
  The security headers of the data plane (\<open>backend/internal/serve/headers.go\<close>) and the
  \<open><base>\<close> injection of path mode (\<open>backend/internal/serve/basehref.go\<close>).

  A response writer is the state a handler leaves: the header table, the cookies set, the
  status once written, and the body. \<open>ExtraHeaders\<close> is a list of pairs, in the order in which
  the loop over the Go map happens to visit them.
\<close>

section \<open>The response writer\<close>

record writer_state =
  w_header :: "string \<rightharpoonup> string"
  w_cookies :: "set_cookie list"
  w_status :: "nat option"
  w_body :: string

definition new_writer :: writer_state where
  "new_writer = \<lparr> w_header = Map.empty, w_cookies = [], w_status = None, w_body = [] \<rparr>"

definition header_set :: "string \<Rightarrow> string \<Rightarrow> writer_state \<Rightarrow> writer_state" where
  "header_set k v w = w\<lparr> w_header := (w_header w)(k \<mapsto> v) \<rparr>"

text \<open>Only the first \<open>WriteHeader\<close> counts; a body written before it implies status 200.\<close>

definition write_header :: "nat \<Rightarrow> writer_state \<Rightarrow> writer_state" where
  "write_header code w = (case w_status w of None \<Rightarrow> w\<lparr> w_status := Some code \<rparr> | Some _ \<Rightarrow> w)"

definition write_body :: "string \<Rightarrow> writer_state \<Rightarrow> writer_state" where
  "write_body s w = (write_header 200 w)\<lparr> w_body := w_body w @ s \<rparr>"

section \<open>The header set\<close>

record SecurityHeaderConfig =
  CSP :: string
  ConnectSrc :: string
  TopLevelSandbox :: bool
  ReferrerPolicy :: string
  PermissionsPolicy :: string
  FrameAncestors :: string
  FrameAncestorsControlOrigin :: string
  CrossOriginResourcePolicy :: string
  ExtraHeaders :: "(string \<times> string) list"

definition defaultConnectSrc :: string where "defaultConnectSrc = ''*''"
definition defaultReferrerPolicy :: string where "defaultReferrerPolicy = ''strict-origin-when-cross-origin''"
definition defaultPermissionsPolicy :: string where
  "defaultPermissionsPolicy = ''geolocation=(), microphone=(), camera=(), payment=(), usb=(), interest-cohort=()''"
definition quote_char :: string where "quote_char = [CHR 0x27]"
definition defaultFrameAncestors :: string where "defaultFrameAncestors = quote_char @ ''self'' @ quote_char"
definition defaultCrossOriginResourcePolicy :: string where "defaultCrossOriginResourcePolicy = ''same-site''"
definition serverBanner :: string where "serverBanner = ''kotoji''"
definition svgCSP :: string where "svgCSP = ''script-src '' @ quote_char @ ''none'' @ quote_char"

definition self_src :: string where "self_src = quote_char @ ''self'' @ quote_char"
definition unsafe_inline :: string where "unsafe_inline = quote_char @ ''unsafe-inline'' @ quote_char"
definition unsafe_eval :: string where "unsafe_eval = quote_char @ ''unsafe-eval'' @ quote_char"
definition none_src :: string where "none_src = quote_char @ ''none'' @ quote_char"

definition frame_ancestors :: "SecurityHeaderConfig \<Rightarrow> string" where
  "frame_ancestors c =
     (if FrameAncestors c \<noteq> [] then FrameAncestors c
      else if FrameAncestorsControlOrigin c \<noteq> [] then defaultFrameAncestors @ '' '' @ FrameAncestorsControlOrigin c
      else defaultFrameAncestors)"

definition csp_directives :: "SecurityHeaderConfig \<Rightarrow> string list" where
  "csp_directives c =
     [''default-src '' @ self_src,
      ''script-src '' @ self_src @ '' '' @ unsafe_inline @ '' '' @ unsafe_eval,
      ''style-src '' @ self_src @ '' '' @ unsafe_inline,
      ''img-src '' @ self_src @ '' data: blob:'',
      ''font-src '' @ self_src @ '' data:'',
      ''connect-src '' @ (if ConnectSrc c = [] then defaultConnectSrc else ConnectSrc c),
      ''media-src '' @ self_src @ '' data: blob:'',
      ''object-src '' @ none_src,
      ''base-uri '' @ self_src,
      ''form-action '' @ self_src,
      ''frame-ancestors '' @ frame_ancestors c] @
     (if TopLevelSandbox c then
        [''sandbox allow-scripts allow-forms allow-popups allow-modals allow-downloads allow-same-origin'']
      else [])"

definition buildCSP :: "SecurityHeaderConfig \<Rightarrow> string" where
  "buildCSP c = join_with ''; '' (csp_directives c)"

definition sec_normalize :: "SecurityHeaderConfig \<Rightarrow> SecurityHeaderConfig" where
  "sec_normalize c =
     (let c1 = (if ConnectSrc c = [] then c\<lparr> ConnectSrc := defaultConnectSrc \<rparr> else c);
          c2 = (if ReferrerPolicy c1 = [] then c1\<lparr> ReferrerPolicy := defaultReferrerPolicy \<rparr> else c1);
          c3 = (if PermissionsPolicy c2 = [] then c2\<lparr> PermissionsPolicy := defaultPermissionsPolicy \<rparr> else c2);
          c4 = (if FrameAncestors c3 = [] then c3\<lparr> FrameAncestors := frame_ancestors c3 \<rparr> else c3);
          c5 = (if CrossOriginResourcePolicy c4 = [] then c4\<lparr> CrossOriginResourcePolicy := defaultCrossOriginResourcePolicy \<rparr> else c4)
      in if CSP c5 = [] then c5\<lparr> CSP := buildCSP c5 \<rparr> else c5)"

definition zero_security :: SecurityHeaderConfig where
  "zero_security = \<lparr> CSP = [], ConnectSrc = [], TopLevelSandbox = False, ReferrerPolicy = [], PermissionsPolicy = [],
     FrameAncestors = [], FrameAncestorsControlOrigin = [], CrossOriginResourcePolicy = [], ExtraHeaders = [] \<rparr>"

definition DefaultSecurityHeaderConfig :: SecurityHeaderConfig where
  "DefaultSecurityHeaderConfig =
     (let c = zero_security\<lparr> ConnectSrc := defaultConnectSrc, ReferrerPolicy := defaultReferrerPolicy,
                PermissionsPolicy := defaultPermissionsPolicy, FrameAncestors := defaultFrameAncestors,
                CrossOriginResourcePolicy := defaultCrossOriginResourcePolicy \<rparr>
      in c\<lparr> CSP := buildCSP c \<rparr>)"

definition DefaultSecurityHeaderConfigForControl :: "string \<Rightarrow> SecurityHeaderConfig" where
  "DefaultSecurityHeaderConfigForControl controlOrigin =
     sec_normalize (zero_security\<lparr> ConnectSrc := defaultConnectSrc, ReferrerPolicy := defaultReferrerPolicy,
       PermissionsPolicy := defaultPermissionsPolicy, FrameAncestorsControlOrigin := controlOrigin,
       CrossOriginResourcePolicy := defaultCrossOriginResourcePolicy \<rparr>)"

definition fixed_headers :: "SecurityHeaderConfig \<Rightarrow> bool \<Rightarrow> (string \<times> string) list" where
  "fixed_headers c isSVG =
     [(''Content-Security-Policy'', if isSVG then svgCSP else CSP c),
      (''X-Content-Type-Options'', ''nosniff''),
      (''Referrer-Policy'', ReferrerPolicy c),
      (''Permissions-Policy'', PermissionsPolicy c),
      (''Cross-Origin-Opener-Policy'', ''same-origin''),
      (''Cross-Origin-Resource-Policy'',
         if CrossOriginResourcePolicy c = [] then defaultCrossOriginResourcePolicy else CrossOriginResourcePolicy c),
      (''Server'', serverBanner)]"

definition applySecurityHeaders :: "SecurityHeaderConfig \<Rightarrow> bool \<Rightarrow> writer_state \<Rightarrow> writer_state" where
  "applySecurityHeaders c isSVG w = foldl (\<lambda>w (k, v). header_set k v w) w (fixed_headers c isSVG @ ExtraHeaders c)"

section \<open>Base-href injection\<close>

definition baseHrefScanLimit :: nat where "baseHrefScanLimit = 65536"

definition isASCIISpace :: "char \<Rightarrow> bool" where
  "isASCIISpace b = (b = CHR '' '' \<or> b = CHR 0x09 \<or> b = CHR 0x0A \<or> b = CHR 0x0D \<or> b = CHR 0x0C)"

fun skip_space :: "string \<Rightarrow> nat" where
  "skip_space [] = 0"
| "skip_space (c # s) = (if isASCIISpace c then Suc (skip_space s) else 0)"

definition metaCharsetEnd :: "string \<Rightarrow> nat \<Rightarrow> nat option" where
  "metaCharsetEnd lower start =
     (let i = start + skip_space (drop start lower) in
      if \<not> has_prefix (drop i lower) ''<meta'' then None
      else
        (case index_byte (drop i lower) CHR ''>'' of
           None \<Rightarrow> None
         | Some gt \<Rightarrow>
             if \<not> contains (take (gt + 1) (drop i lower)) ''charset'' then None else Some (i + gt + 1)))"

definition base_boundary :: "string \<Rightarrow> nat \<Rightarrow> bool" where
  "base_boundary lower after =
     (length lower \<le> after \<or>
      lower ! after \<in> {CHR '' '', CHR ''>'', CHR 0x09, CHR 0x0A, CHR 0x0D, CHR ''/''})"

definition base_tag :: "string \<Rightarrow> string" where
  "base_tag pathPrefix = ''<base href='' @ [CHR 0x22] @ pathPrefix @ ''/'' @ [CHR 0x22] @ ''>''"

definition insert_position :: "string \<Rightarrow> nat option" where
  "insert_position lower =
     (if (case str_index lower ''<base'' of Some i \<Rightarrow> base_boundary lower (i + length ''<base'') | None \<Rightarrow> False) then None
      else
        (case str_index lower ''<head'' of
           None \<Rightarrow> None
         | Some headIdx \<Rightarrow>
             (case index_byte (drop headIdx lower) CHR ''>'' of
                None \<Rightarrow> None
              | Some gt \<Rightarrow>
                  let insertAt = headIdx + gt + 1 in
                  Some (case metaCharsetEnd lower insertAt of Some e \<Rightarrow> e | None \<Rightarrow> insertAt))))"

definition maybeInjectBaseHref :: "string \<Rightarrow> target \<Rightarrow> bool \<Rightarrow> string \<times> bool" where
  "maybeInjectBaseHref body t injectBaseHref =
     (if target.Source t \<noteq> SourcePath \<or> \<not> injectBaseHref \<or> target.PathPrefix t = [] then (body, False)
      else
        (case insert_position (go_lower (take baseHrefScanLimit body)) of
           None \<Rightarrow> (body, False)
         | Some insertAt \<Rightarrow> (take insertAt body @ base_tag (target.PathPrefix t) @ drop insertAt body, True)))"

lemma skip_space_le: "skip_space s \<le> length s"
  by (induction s) auto

end
