(* ===== verification/Tree_Provider.thy ===== *)
theory Tree_Provider
  imports Resolver Site_Guarantees Access_Control
begin

text \<open>
  The tree providers of the data plane (\<open>backend/internal/serve/treeprovider.go\<close>): the one
  backed by the site service, and the cache in front of it for previews.

  \<open>fs.FS\<close> is a type parameter (what \<open>open\<close> makes of a root directory), the optional
  \<open>RedirectResolver\<close> is a parameter, and the cache is stated over any inner provider.
\<close>

section \<open>The provider over the site service\<close>

datatype tree_error = ErrSiteNotFound | ErrBranchNotFound | RedirectError string | ServiceError site_error

record 'fs serve_tree =
  FS :: 'fs
  tree_CommitSHA :: string
  tree_CommitTime :: int
  tree_SiteID :: uuid
  tree_CacheVersion :: int
  tree_Exists :: bool

text \<open>\<open>ResolveRedirect\<close> answers with the new handle, that there is none, or an error.\<close>

type_synonym redirect_resolver = "string \<Rightarrow> string + string option"

definition service_Tree ::
  "(string \<Rightarrow> 'fs) \<Rightarrow> redirect_resolver option \<Rightarrow> FakeService \<Rightarrow> target \<Rightarrow> tree_error + 'fs serve_tree" where
  "service_Tree opener redirect f t =
     (let branch = (if target.Branch t = [] then BranchPublished else target.Branch t) in
      case GetSiteByHandle f (target.Handle t) of
        Inl e \<Rightarrow>
          if err_is e ErrNotFound then
            (case redirect of
               None \<Rightarrow> Inl ErrSiteNotFound
             | Some rr \<Rightarrow>
                 (case rr (target.Handle t) of
                    Inr (Some nh) \<Rightarrow> Inl (RedirectError nh)
                  | _ \<Rightarrow> Inl ErrSiteNotFound))
          else Inl (ServiceError e)
      | Inr s \<Rightarrow>
          (case ServedTree f (st_ID s) branch of
             Inl e \<Rightarrow> if err_is e ErrNotFound then Inl ErrBranchNotFound else Inl (ServiceError e)
           | Inr th \<Rightarrow>
               if \<not> th_Exists th then Inl ErrBranchNotFound
               else
                 Inr \<lparr> FS = opener (th_Root th), tree_CommitSHA = th_CommitSHA th, tree_CommitTime = th_CommitTime th,
                       tree_SiteID = st_ID s, tree_CacheVersion = st_CacheVersion s, tree_Exists = True \<rparr>))"

section \<open>The preview cache\<close>

record 'th cacheEntry =
  ce_th :: 'th
  ce_expires :: int
  ce_lastUsed :: int

record 'th CachingTreeProvider =
  cp_ttl :: int
  cp_max :: int
  cp_entries :: "(string, 'th cacheEntry) gomap"
  cp_lruOrder :: "string list"

definition NewCachingTreeProvider :: "int \<Rightarrow> int \<Rightarrow> 'th CachingTreeProvider" where
  "NewCachingTreeProvider ttl mx = \<lparr> cp_ttl = ttl, cp_max = mx, cp_entries = [], cp_lruOrder = [] \<rparr>"

text \<open>The loop over the map: the key with the smallest last use, the first one met among equals.\<close>

definition lru_victim :: "(string, 'th cacheEntry) gomap \<Rightarrow> string \<times> int" where
  "lru_victim m =
     foldl (\<lambda>(vk, vt) (k, e). if vk = [] \<or> ce_lastUsed e < vt then (k, ce_lastUsed e) else (vk, vt)) ([], 0) m"

definition evictIfNeededLocked :: "'th CachingTreeProvider \<Rightarrow> 'th CachingTreeProvider" where
  "evictIfNeededLocked c =
     (if int (gm_len (cp_entries c)) < cp_max c then c
      else
        let victim = fst (lru_victim (cp_entries c));
            c' = (if victim \<noteq> [] then c\<lparr> cp_entries := gm_del victim (cp_entries c) \<rparr> else c)
        in if 4 * cp_max c < int (length (cp_lruOrder c)) then c'\<lparr> cp_lruOrder := [] \<rparr> else c')"

definition cache_key :: "target \<Rightarrow> string" where
  "cache_key t = target.Handle t @ [CHR 0x00] @ target.Branch t"

text \<open>
  \<open>Tree\<close>: \<open>inner\<close> is the answer of the wrapped provider at the time of the call, used only on
  a miss or when the cache is bypassed; \<open>clk\<close> gives the successive readings of the clock.
\<close>

definition caching_Tree ::
  "'th CachingTreeProvider \<Rightarrow> clock \<Rightarrow> ('e + 'th) \<Rightarrow> target \<Rightarrow> 'th CachingTreeProvider \<times> ('e + 'th)" where
  "caching_Tree c clk inner t =
     (if \<not> IsPreview t \<or> cp_ttl c \<le> 0 \<or> cp_max c \<le> 0 then (c, inner)
      else
        let key = cache_key t;
            miss =
              (case inner of
                 Inl e \<Rightarrow> (c, Inl e)
               | Inr th \<Rightarrow>
                   let c1 = evictIfNeededLocked c in
                   (c1\<lparr> cp_entries := gm_put key \<lparr> ce_th = th, ce_expires = clk 1 + cp_ttl c, ce_lastUsed = clk 1 \<rparr> (cp_entries c1),
                        cp_lruOrder := cp_lruOrder c1 @ [key] \<rparr>, Inr th))
        in (case gm_get (cp_entries c) key of
              Some e \<Rightarrow>
                if clk 0 < ce_expires e then
                  (c\<lparr> cp_entries := gm_put key (e\<lparr> ce_lastUsed := clk 1 \<rparr>) (cp_entries c) \<rparr>, Inr (ce_th e))
                else miss
            | None \<Rightarrow> miss))"

section \<open>The victim and the bound\<close>

lemma lru_victim_in:
  assumes "m \<noteq> []" and "\<forall>k \<in> set (gm_keys m). k \<noteq> []"
  shows "fst (lru_victim m) \<in> set (gm_keys m)"
proof -
  let ?f = "\<lambda>(vk, vt) (k, e). if vk = [] \<or> ce_lastUsed e < vt then (k, ce_lastUsed e) else (vk, vt)"
  have "fst (foldl ?f a xs) \<in> insert (fst a) (set (map fst xs))" for a :: "string \<times> int" and xs :: "(string \<times> 'a cacheEntry) list"
    by (induction xs arbitrary: a) (fastforce split: if_splits)+
  from this [of "?f ([], 0) (hd m)" "tl m"] show ?thesis
    using assms by (cases m) (auto simp: lru_victim_def gm_keys_def split: prod.splits)
qed

definition cache_inv :: "'th CachingTreeProvider \<Rightarrow> bool" where
  "cache_inv c \<longleftrightarrow> gm_wf (cp_entries c) \<and> (\<forall>k \<in> set (gm_keys (cp_entries c)). k \<noteq> []) \<and>
     (0 < cp_max c \<longrightarrow> int (gm_len (cp_entries c)) \<le> cp_max c)"

lemma gm_len_del_present: "gm_wf m \<Longrightarrow> k \<in> set (gm_keys m) \<Longrightarrow> Suc (gm_len (gm_del k m)) = gm_len m"
proof (induction m)
  case (Cons p m)
  show ?case
  proof (cases "fst p = k")
    case True
    then have "gm_del k m = m" using Cons.prems by (auto simp: gm_del_def gm_wf_def filter_id_conv rev_image_eqI)
    then show ?thesis using True by (simp add: gm_len_def gm_del_def)
  next
    case False
    then show ?thesis using Cons by (simp add: gm_len_def gm_del_def gm_wf_def gm_keys_def)
  qed
qed (simp add: gm_keys_def)

lemma gm_len_put_present: "gm_wf m \<Longrightarrow> k \<in> set (gm_keys m) \<Longrightarrow> gm_len (gm_put k v m) = gm_len m"
  using gm_len_del_present [of m k] by (simp add: gm_len_def gm_put_def)

lemma gm_keys_put: "set (gm_keys (gm_put k v m)) = insert k (set (gm_keys m))"
  by (auto simp: gm_keys_get split: if_splits)

lemma gm_keys_del: "set (gm_keys (gm_del k m)) = set (gm_keys m) - {k}"
  by (auto simp: gm_keys_get split: if_splits)

lemma cache_key_nonempty [simp]: "cache_key t \<noteq> []"
  by (simp add: cache_key_def)

lemma evict_params [simp]: "cp_ttl (evictIfNeededLocked c) = cp_ttl c" "cp_max (evictIfNeededLocked c) = cp_max c"
  by (simp_all add: evictIfNeededLocked_def Let_def)

lemma evict_entries:
  "cp_entries (evictIfNeededLocked c) =
     (if int (gm_len (cp_entries c)) < cp_max c then cp_entries c
      else let v = fst (lru_victim (cp_entries c)) in if v \<noteq> [] then gm_del v (cp_entries c) else cp_entries c)"
  by (simp add: evictIfNeededLocked_def Let_def)

lemma evict_room:
  assumes "cache_inv c" and "0 < cp_max c"
  shows "cache_inv (evictIfNeededLocked c) \<and> int (gm_len (cp_entries (evictIfNeededLocked c))) < cp_max c"
proof (cases "int (gm_len (cp_entries c)) < cp_max c")
  case True
  then show ?thesis using assms(1) by (simp add: evictIfNeededLocked_def)
next
  case False
  let ?m = "cp_entries c"
  have "?m \<noteq> []" using False assms(2) by (auto simp: gm_len_def)
  then have v: "fst (lru_victim ?m) \<in> set (gm_keys ?m)" "fst (lru_victim ?m) \<noteq> []"
    using lru_victim_in [of ?m] assms(1) by (auto simp: cache_inv_def)
  have "cp_entries (evictIfNeededLocked c) = gm_del (fst (lru_victim ?m)) ?m" using False v(2) by (simp add: evict_entries)
  then show ?thesis
    using assms v(1) gm_len_del_present [of ?m "fst (lru_victim ?m)"] by (auto simp: cache_inv_def gm_keys_del)
qed

lemma cache_inv_new: "cache_inv (NewCachingTreeProvider ttl mx)"
  by (simp add: cache_inv_def NewCachingTreeProvider_def gm_keys_def gm_len_def)

definition cached :: "'th CachingTreeProvider \<Rightarrow> target \<Rightarrow> bool" where
  "cached c t \<longleftrightarrow> IsPreview t \<and> 0 < cp_ttl c \<and> 0 < cp_max c"

text \<open>The three outcomes of a call.\<close>

lemma caching_Tree_cases:
  obtains (bypass) "\<not> cached c t \<or> isl inner" "caching_Tree c clk inner t = (c, inner)"
  | (hit) e where "cached c t" "gm_get (cp_entries c) (cache_key t) = Some e" "clk 0 < ce_expires e"
      "caching_Tree c clk inner t =
         (c\<lparr> cp_entries := gm_put (cache_key t) (e\<lparr> ce_lastUsed := clk 1 \<rparr>) (cp_entries c) \<rparr>, Inr (ce_th e))"
  | (store) th where "cached c t" "inner = Inr th"
      "caching_Tree c clk inner t =
         (let c1 = evictIfNeededLocked c in
          c1\<lparr> cp_entries := gm_put (cache_key t) \<lparr> ce_th = th, ce_expires = clk 1 + cp_ttl c, ce_lastUsed = clk 1 \<rparr> (cp_entries c1),
              cp_lruOrder := cp_lruOrder c1 @ [cache_key t] \<rparr>, Inr th)"
proof (cases "cached c t")
  case False
  then show ?thesis by (intro bypass) (auto simp: cached_def caching_Tree_def)
next
  case True
  show ?thesis
  proof (cases "\<exists>e. gm_get (cp_entries c) (cache_key t) = Some e \<and> clk 0 < ce_expires e")
    case hit': True
    then show ?thesis using True by (auto simp: cached_def caching_Tree_def Let_def intro: hit)
  next
    case False
    then have "caching_Tree c clk inner t =
      (case inner of Inl e \<Rightarrow> (c, Inl e)
       | Inr th \<Rightarrow> (let c1 = evictIfNeededLocked c in
          c1\<lparr> cp_entries := gm_put (cache_key t) \<lparr> ce_th = th, ce_expires = clk 1 + cp_ttl c, ce_lastUsed = clk 1 \<rparr> (cp_entries c1),
              cp_lruOrder := cp_lruOrder c1 @ [cache_key t] \<rparr>, Inr th))"
      using True by (auto simp: cached_def caching_Tree_def Let_def split: option.splits sum.splits)
    then show ?thesis using True bypass store by (cases inner) auto
  qed
qed

lemma caching_params: "cp_ttl (fst (caching_Tree c clk inner t)) = cp_ttl c" "cp_max (fst (caching_Tree c clk inner t)) = cp_max c"
  by (cases rule: caching_Tree_cases [of c t inner clk]; simp add: Let_def)+

lemma caching_inv:
  assumes "cache_inv c"
  shows "cache_inv (fst (caching_Tree c clk inner t))"
proof (cases rule: caching_Tree_cases [of c t inner clk])
  case bypass
  then show ?thesis using assms by simp
next
  case (hit e)
  then have "cache_key t \<in> set (gm_keys (cp_entries c))" by (simp add: gm_keys_get)
  then show ?thesis using assms hit gm_len_put_present [of "cp_entries c" "cache_key t"]
    by (auto simp: cache_inv_def gm_keys_put)
next
  case (store th)
  let ?c1 = "evictIfNeededLocked c"
  have r: "cache_inv ?c1" "int (gm_len (cp_entries ?c1)) < cp_max c"
    using evict_room [OF assms] store(1) by (auto simp: cached_def)
  moreover have "gm_len (gm_put (cache_key t) v (cp_entries ?c1)) \<le> Suc (gm_len (cp_entries ?c1))" for v
    by (rule gm_len_put_le)
  then have "int (gm_len (gm_put (cache_key t) v (cp_entries ?c1))) \<le> cp_max c" for v
    using r(2) by (metis (no_types, opaque_lifting) of_nat_Suc of_nat_le_iff add.commute zless_imp_add1_zle order_trans)
  ultimately show ?thesis unfolding store(3) Let_def by (auto simp: cache_inv_def gm_keys_put)
qed

section \<open>Runs of the cache\<close>

type_synonym ('e, 'th) cache_call = "clock \<times> ('e + 'th) \<times> target"

definition cache_run :: "'th CachingTreeProvider \<Rightarrow> ('e, 'th) cache_call list \<Rightarrow> 'th CachingTreeProvider" where
  "cache_run c calls = foldl (\<lambda>c (clk, inner, t). fst (caching_Tree c clk inner t)) c calls"

text \<open>Every entry is the answer the inner provider gave to some call of the run.\<close>

definition answered :: "('e, 'th) cache_call list \<Rightarrow> int \<Rightarrow> string \<Rightarrow> 'th cacheEntry \<Rightarrow> bool" where
  "answered calls ttl k e \<longleftrightarrow>
     (\<exists>clk inner t. (clk, inner, t) \<in> set calls \<and> inner = Inr (ce_th e) \<and> IsPreview t \<and> k = cache_key t \<and>
        ce_expires e = clk 1 + ttl)"

lemma cache_run_snoc: "cache_run c (calls @ [(clk, inner, t)]) = fst (caching_Tree (cache_run c calls) clk inner t)"
  by (simp add: cache_run_def)

lemma cache_run_inv:
  fixes c :: "'th CachingTreeProvider" and calls :: "('e, 'th) cache_call list"
  assumes "cache_inv c" and "cp_entries c = []"
  shows "cache_inv (cache_run c calls) \<and> cp_ttl (cache_run c calls) = cp_ttl c \<and> cp_max (cache_run c calls) = cp_max c \<and>
    (\<forall>k e. gm_get (cp_entries (cache_run c calls)) k = Some e \<longrightarrow> answered calls (cp_ttl c) k e)"
proof (induction calls rule: rev_induct)
  case Nil
  then show ?case using assms by (simp add: cache_run_def)
next
  case (snoc x calls)
  obtain clk inner t where x: "x = (clk, inner, t)" by (cases x) auto
  let ?c = "cache_run c calls"
  have mono: "answered calls ttl k e \<Longrightarrow> answered (calls @ [x]) ttl k e" for ttl k e
    by (auto simp: answered_def)
  have "\<forall>k e. gm_get (cp_entries (fst (caching_Tree ?c clk inner t))) k = Some e \<longrightarrow> answered (calls @ [x]) (cp_ttl c) k e"
  proof (cases rule: caching_Tree_cases [of ?c t inner clk])
    case bypass
    then show ?thesis using snoc mono by simp
  next
    case (hit e)
    have "answered (calls @ [x]) (cp_ttl c) (cache_key t) (e\<lparr> ce_lastUsed := clk 1 \<rparr>)"
      using snoc mono hit(2) by (simp add: answered_def)
    then show ?thesis using hit(4) snoc mono by (auto simp: gm_get_put)
  next
    case (store th)
    have "answered (calls @ [x]) (cp_ttl c) (cache_key t) \<lparr> ce_th = th, ce_expires = clk 1 + cp_ttl c, ce_lastUsed = clk 1 \<rparr>"
      using store(1,2) x by (auto simp: answered_def cached_def)
    moreover have "gm_get (cp_entries (evictIfNeededLocked ?c)) k = Some e \<Longrightarrow> gm_get (cp_entries ?c) k = Some e" for k e
      by (auto simp: evict_entries Let_def gm_get_del split: if_splits)
    ultimately show ?thesis using store(3) snoc mono by (auto simp: gm_get_put Let_def)
  qed
  then show ?case using snoc caching_inv [of ?c clk inner t] caching_params [of ?c clk inner t] by (simp add: x cache_run_snoc)
qed

lemma cache_key_inj:
  assumes "CHR 0x00 \<notin> set (target.Handle t)" and "CHR 0x00 \<notin> set (target.Handle t')" and "cache_key t = cache_key t'"
  shows "target.Handle t = target.Handle t' \<and> target.Branch t = target.Branch t'"
proof -
  have "index_byte (cache_key t) CHR 0x00 = Some (length (target.Handle t))"
    "index_byte (cache_key t') CHR 0x00 = Some (length (target.Handle t'))"
    using assms(1,2) by (simp_all add: cache_key_def index_byte_append)
  then show ?thesis using assms(3) by (simp add: cache_key_def)
qed

definition example_tree_target :: "string \<Rightarrow> target" where
  "example_tree_target b = \<lparr> Handle = ''shop'', Branch = b, IsPreview = (b \<noteq> []), IsControl = False, Source = SourceHost, PathPrefix = [] \<rparr>"

section \<open>Properties\<close>

text \<open>
  What the data plane serves. In a reachable state the provider answers with a tree
  exactly when a live site has the handle and the branch (the published one when none is
  named) exists, and the tree is the one of the last commit of that branch's history; a
  missing branch of a live site and a handle of no live site are told apart.
\<close>

theorem served_tree_exact:
  assumes "reachable f"
  shows "let b = (if target.Branch t = [] then BranchPublished else target.Branch t);
      site = (\<lambda>i. live_site_id f (go_lower (target.Handle t)) i)
    in ((\<exists>th. service_Tree opener redirect f t = Inr th) \<longleftrightarrow> (\<exists>i cs. site i \<and> branch_log f i b = Some cs)) \<and>
       (\<forall>th. service_Tree opener redirect f t = Inr th \<longrightarrow>
          (\<exists>cs. site (tree_SiteID th) \<and> branch_log f (tree_SiteID th) b = Some cs \<and> cs \<noteq> [] \<and>
            tree_CommitSHA th = sha (last cs) \<and> tree_CommitTime th = committed_at (last cs))) \<and>
       (service_Tree opener redirect f t = Inl ErrBranchNotFound \<longleftrightarrow> (\<exists>i. site i \<and> branch_log f i b = None))"
proof -
  note inv = reachable_inv [OF assms]
  let ?b = "if target.Branch t = [] then BranchPublished else target.Branch t"
  show ?thesis
  proof (cases "GetSiteByHandle f (target.Handle t)")
    case (Inl e)
    have "service_Tree opener redirect f t \<noteq> Inr th" "service_Tree opener redirect f t \<noteq> Inl ErrBranchNotFound" for th
      using Inl by (auto simp: service_Tree_def Let_def split: if_splits option.splits sum.splits)
    then show ?thesis using svc_directory.none_present [OF inv Inl] by (simp add: Let_def)
  next
    case (Inr x)
    have only: "live_site_id f (go_lower (target.Handle t)) i \<longleftrightarrow> i = st_ID x" for i
      by (rule svc_directory.found_only [OF inv Inr])
    then obtain s where s: "gm_get (sites f) (st_ID x) = Some s" "is_live s" by (auto simp: live_site_id_def)
    have live: "liveSite f (st_ID x) = Inr s" using s by (simp add: liveSite_Inr)
    show ?thesis
    proof (cases "gm_get (branches s) ?b")
      case None
      then have "branch_log f (st_ID x) ?b = None" using s by (simp add: branch_log_def)
      moreover have "service_Tree opener redirect f t = Inl ErrBranchNotFound"
        using Inr live None by (simp add: service_Tree_def ServedTree_def Let_def)
      ultimately show ?thesis unfolding Let_def only by simp
    next
      case (Some cs)
      then have "branch_log f (st_ID x) ?b = Some cs" using s by (simp add: branch_log_def)
      moreover have tip: "tip cs = Some (last cs)" "cs \<noteq> []" using svc_branch_tip [OF inv s(1) Some] by auto
      moreover have "service_Tree opener redirect f t =
          Inr \<lparr> FS = opener [], tree_CommitSHA = sha (last cs), tree_CommitTime = committed_at (last cs),
                tree_SiteID = st_ID x, tree_CacheVersion = st_CacheVersion x, tree_Exists = True \<rparr>"
        using Inr live Some tip(1) by (simp add: service_Tree_def ServedTree_def Let_def)
      ultimately show ?thesis unfolding Let_def only by simp
    qed
  qed
qed

theorem served_tree_exact_witness:
  "service_Tree id None example_svc (example_tree_target []) = Inl ErrBranchNotFound"
proof -
  have h: "map_option (\<lambda>s. (sr_DeletedAt (rec s), sr_Handle (rec s), gm_get (branches s) BranchPublished)) (gm_get (sites example_svc) ''s1'') =
      Some (None, ''shop'', None)" and l: "go_lower ''shop'' = ''shop''" by code_simp+
  from h have "live_site_id example_svc ''shop'' ''s1''" "branch_log example_svc ''s1'' BranchPublished = None"
    by (auto simp: live_site_id_def is_live_def branch_log_def)
  then show ?thesis
    using served_tree_exact [OF example_reachable, of "example_tree_target []" id None] l
    by (auto simp: example_tree_target_def Let_def)
qed

text \<open>
  The preview cache. Whatever was asked before, a published target is always answered by
  the inner provider and never touches the cache; an error is always the inner provider's
  current answer; a preview is either its current answer or one it gave, for the same handle
  and branch, less than the time to live ago; and the cache never holds more than its
  configured number of entries.
\<close>

theorem preview_cache_bounds:
  fixes calls :: "('e, 'th) cache_call list"
  assumes run: "c = cache_run (NewCachingTreeProvider ttl mx) calls" and call: "caching_Tree c clk inner t = (c', res)"
    and nul: "list_all (\<lambda>(_, _, t'). CHR 0x00 \<notin> set (target.Handle t')) ((clk, inner, t) # calls)"
  shows "(\<not> IsPreview t \<longrightarrow> res = inner \<and> c' = c) \<and>
    (\<forall>e. res = Inl e \<longrightarrow> inner = Inl e) \<and>
    (\<forall>th. res = Inr th \<longrightarrow> inner = Inr th \<or>
      (\<exists>clk' t'. (clk', Inr th, t') \<in> set calls \<and> target.Handle t' = target.Handle t \<and>
        target.Branch t' = target.Branch t \<and> clk 0 < clk' 1 + ttl)) \<and>
    (0 < mx \<longrightarrow> int (gm_len (cp_entries c')) \<le> mx)"
proof -
  have new: "cp_entries (NewCachingTreeProvider ttl mx) = []" "cp_ttl (NewCachingTreeProvider ttl mx) = ttl"
    "cp_max (NewCachingTreeProvider ttl mx) = mx" by (simp_all add: NewCachingTreeProvider_def)
  note inv = cache_run_inv [OF cache_inv_new new(1), of calls, folded run, unfolded new]
  have "cache_inv c'" "cp_max c' = mx"
    using caching_inv [of c clk inner t] caching_params(2) [of c clk inner t] inv call by simp_all
  then have bound: "0 < mx \<longrightarrow> int (gm_len (cp_entries c')) \<le> mx" by (simp add: cache_inv_def)
  show ?thesis
  proof (cases rule: caching_Tree_cases [of c t inner clk])
    case bypass
    then show ?thesis using call bound by auto
  next
    case (hit e)
    have "answered calls ttl (cache_key t) e" using inv hit(2) by blast
    then obtain clk' t' where w: "(clk', Inr (ce_th e), t') \<in> set calls" "cache_key t = cache_key t'" "ce_expires e = clk' 1 + ttl"
      by (auto simp: answered_def)
    have "target.Handle t = target.Handle t' \<and> target.Branch t = target.Branch t'"
      using cache_key_inj [OF _ _ w(2)] nul w(1) by (fastforce simp: list_all_iff)
    moreover have "res = Inr (ce_th e)" "IsPreview t" using hit call by (auto simp: cached_def)
    ultimately show ?thesis using w(1,3) hit(3) bound by auto
  next
    case (store th)
    then have "res = Inr th" "IsPreview t" using call by (auto simp: Let_def cached_def)
    then show ?thesis using store(2) bound by auto
  qed
qed

theorem preview_cache_bounds_witness:
  "let t = example_tree_target ''draft'';
     c = cache_run (NewCachingTreeProvider 10 1) [((\<lambda>_. 0), Inr ''old'', t) :: (tree_error, string) cache_call];
     r = caching_Tree c (\<lambda>_. 5) (Inr ''new'' :: tree_error + string) t
   in snd r = Inr ''old'' \<and> int (gm_len (cp_entries (fst r))) \<le> 1"
proof -
  let ?t = "example_tree_target ''draft''"
  let ?calls = "[((\<lambda>_. 0), Inr ''old'', ?t) :: (tree_error, string) cache_call]"
  let ?r = "caching_Tree (cache_run (NewCachingTreeProvider 10 1) ?calls) (\<lambda>_. 5) (Inr ''new'' :: tree_error + string) ?t"
  have old: "snd ?r = Inr ''old''" by code_simp
  have "list_all (\<lambda>(_, _, t'). CHR 0x00 \<notin> set (target.Handle t')) (((\<lambda>_. 5), Inr ''new'', ?t) # ?calls)"
    by (simp add: example_tree_target_def)
  from preview_cache_bounds [OF refl prod.collapse [symmetric] this, of 10 1]
  have "int (gm_len (cp_entries (fst ?r))) \<le> 1" by simp
  with old show ?thesis by (simp add: Let_def)
qed

end
