(* ===== verification/Preview_Grant.thy ===== *)
theory Preview_Grant
  imports Resolver Access_Control Go_Base64 Go_Time
begin

text \<open>
  Preview authorisation of the data plane (\<open>backend/internal/serve/authz.go\<close>): the signed
  grant, the host-only cookie it is exchanged for, the optional bearer token, and the URL
  from which the grant is stripped.

  HMAC-SHA256 under the configured secret is the parameter \<open>mac\<close>, \<open>uuid.Parse\<close> is
  \<open>parseUUID\<close>, and the optional \<open>BearerValidator\<close> is a parameter too. Times are nanoseconds.
\<close>

section \<open>Query strings\<close>

text \<open>\<open>url.QueryUnescape\<close> and \<open>URL.Query().Get\<close> of \<open>net/url\<close>.\<close>

definition hex_val :: "char \<Rightarrow> nat option" where
  "hex_val c =
     (let n = (of_char c :: nat) in
      if 48 \<le> n \<and> n \<le> 57 then Some (n - 48)
      else if 97 \<le> n \<and> n \<le> 102 then Some (n - 87)
      else if 65 \<le> n \<and> n \<le> 70 then Some (n - 55) else None)"

fun query_unescape :: "string \<Rightarrow> string option" where
  "query_unescape [] = Some []"
| "query_unescape (c # s) =
     (if c = CHR ''%'' then
        (case s of
           a # b # rest \<Rightarrow>
             (case (hex_val a, hex_val b) of
                (Some x, Some y) \<Rightarrow> map_option ((#) (char_of (16 * x + y))) (query_unescape rest)
              | _ \<Rightarrow> None)
         | _ \<Rightarrow> None)
      else map_option ((#) (if c = CHR ''+'' then CHR '' '' else c)) (query_unescape s))"

definition cut_eq :: "string \<Rightarrow> string \<times> string" where
  "cut_eq s = (case index_byte s CHR ''='' of Some i \<Rightarrow> (take i s, drop (i + 1) s) | None \<Rightarrow> (s, []))"

definition query_pairs :: "string \<Rightarrow> (string \<times> string) list" where
  "query_pairs q =
     List.map_filter
       (\<lambda>pair. if pair = [] \<or> CHR '';'' \<in> set pair then None
               else (case cut_eq pair of
                       (k, v) \<Rightarrow>
                         (case (query_unescape k, query_unescape v) of (Some k', Some v') \<Rightarrow> Some (k', v') | _ \<Rightarrow> None)))
       (split_on CHR ''&'' q)"

definition query_get :: "string \<Rightarrow> string \<Rightarrow> string" where
  "query_get q k = (case map_of (query_pairs q) k of Some v \<Rightarrow> v | None \<Rightarrow> [])"

section \<open>Grants\<close>

datatype preview_error = ErrUnauthorized | ErrForbiddenPreview

definition PreviewCookieName :: string where "PreviewCookieName = ''kotoji_preview''"
definition PreviewGrantQueryParam :: string where "PreviewGrantQueryParam = ''kpt''"

text \<open>\<open>12 * time.Hour\<close>\<close>

definition defaultPreviewCookieTTL :: int where "defaultPreviewCookieTTL = 12 * 3600 * 1000000000"

record Action =
  SetCookie :: "set_cookie option"
  RedirectTo :: string

definition no_action :: Action where
  "no_action = \<lparr> SetCookie = None, RedirectTo = [] \<rparr>"

text \<open>The configuration, with HMAC under \<open>Secret\<close> as the function \<open>mac\<close>.\<close>

record GrantAuthzConfig =
  Secret :: string
  CookieSecure :: bool
  CookieTTL :: int
  Bearer :: "(string \<Rightarrow> uuid \<Rightarrow> preview_error option) option"

definition NewGrantAuthz :: "GrantAuthzConfig \<Rightarrow> string + GrantAuthzConfig" where
  "NewGrantAuthz c =
     (if length (Secret c) = 0 then Inl ''serve: preview grant secret is required''
      else if CookieTTL c \<le> 0 then Inr (c\<lparr> CookieTTL := defaultPreviewCookieTTL \<rparr>)
      else Inr c)"

record Grant =
  gr_SiteID :: uuid
  gr_Branch :: string
  gr_Exp :: int

definition grant_payload :: "uuid \<Rightarrow> string \<Rightarrow> int \<Rightarrow> string" where
  "grant_payload siteID branch exp = siteID @ '':'' @ branch @ '':'' @ show_int (seconds_of exp)"

definition SignGrant :: "(string \<Rightarrow> string \<Rightarrow> string) \<Rightarrow> GrantAuthzConfig \<Rightarrow> uuid \<Rightarrow> string \<Rightarrow> int \<Rightarrow> string" where
  "SignGrant hmac a siteID branch exp =
     (let payload = grant_payload siteID branch exp
      in payload @ '':'' @ rawurl_EncodeToString (hmac (Secret a) payload))"

text \<open>
  \<open>time.Unix(sec, 0)\<close>: the seconds are stored as a signed 64-bit count from year 1, so the
  addition wraps around for a time stamp close to the largest one.
\<close>

definition unix_time :: "int \<Rightarrow> int" where
  "unix_time sec =
     (let ext = sec + 62135596800; ext' = (if int64_max < ext then ext - 2 ^ 64 else ext)
      in (ext' - 62135596800) * 1000000000)"

definition verifyGrant ::
  "(string \<Rightarrow> string \<Rightarrow> string) \<Rightarrow> (string \<Rightarrow> uuid option) \<Rightarrow> GrantAuthzConfig \<Rightarrow> int \<Rightarrow> string \<Rightarrow> preview_error + Grant" where
  "verifyGrant hmac parseUUID a now token =
     (case last_index_byte token CHR '':'' of
        None \<Rightarrow> Inl ErrUnauthorized
      | Some i \<Rightarrow>
          let payload = take i token; sigB64 = drop (i + 1) token in
          (case rawurl_DecodeString sigB64 of
             None \<Rightarrow> Inl ErrUnauthorized
           | Some sig \<Rightarrow>
               if sig \<noteq> hmac (Secret a) payload then Inl ErrUnauthorized
               else
                 (case split_on CHR '':'' payload of
                    [p0, p1, p2] \<Rightarrow>
                      (case parseUUID p0 of
                         None \<Rightarrow> Inl ErrUnauthorized
                       | Some i \<Rightarrow>
                           (case parse_int64 p2 of
                              None \<Rightarrow> Inl ErrUnauthorized
                            | Some expUnix \<Rightarrow>
                                if \<not> now < unix_time expUnix then Inl ErrUnauthorized
                                else Inr \<lparr> gr_SiteID = i, gr_Branch = p1, gr_Exp = unix_time expUnix \<rparr>))
                  | _ \<Rightarrow> Inl ErrUnauthorized)))"

definition branchMatches :: "string \<Rightarrow> string \<Rightarrow> bool" where
  "branchMatches grantBranch targetBranch = (grantBranch = targetBranch)"

definition bearerToken :: "http_request \<Rightarrow> string" where
  "bearerToken r =
     (let h = header_get r ''Authorization'' in
      if length ''bearer '' < length h \<and> go_lower (take (length ''bearer '') h) = ''bearer ''
      then trim_space (drop (length ''bearer '') h) else [])"

definition grant_pair :: "string \<Rightarrow> bool" where
  "grant_pair pair = ((case index_byte pair CHR ''='' of Some e \<Rightarrow> take e pair | None \<Rightarrow> pair) = PreviewGrantQueryParam)"

definition stripGrantParam :: "string \<Rightarrow> string" where
  "stripGrantParam rawURL =
     (case index_byte rawURL CHR ''?'' of
        None \<Rightarrow> rawURL
      | Some i \<Rightarrow>
          let kept = filter (\<lambda>pair. pair \<noteq> [] \<and> \<not> grant_pair pair) (split_on CHR ''&'' (drop (i + 1) rawURL)) in
          if kept = [] then take i rawURL else take i rawURL @ ''?'' @ join_with ''&'' kept)"

definition newCookie :: "GrantAuthzConfig \<Rightarrow> string \<Rightarrow> set_cookie" where
  "newCookie a v =
     \<lparr> sc_Name = PreviewCookieName, sc_Value = v, sc_Path = ''/'', sc_MaxAge = CookieTTL a div 1000000000,
       sc_Secure = CookieSecure a, sc_HttpOnly = True, sc_SameSite = SameSiteLaxMode \<rparr>"

text \<open>\<open>URL.RequestURI()\<close>, for an origin-form request whose escaped path is given.\<close>

definition request_uri :: "string \<Rightarrow> http_request \<Rightarrow> string" where
  "request_uri escapedPath r =
     (if escapedPath = [] then ''/'' else escapedPath) @ (if raw_query r = [] then [] else ''?'' @ raw_query r)"

definition Authorize ::
  "(string \<Rightarrow> string \<Rightarrow> string) \<Rightarrow> (string \<Rightarrow> uuid option) \<Rightarrow> GrantAuthzConfig \<Rightarrow> int \<Rightarrow> target \<Rightarrow> string \<Rightarrow> http_request \<Rightarrow>
   uuid \<Rightarrow> preview_error + Action" where
  "Authorize hmac parseUUID a now t escapedPath r siteID =
     (let raw = query_get (raw_query r) PreviewGrantQueryParam in
      if raw \<noteq> [] then
        (case verifyGrant hmac parseUUID a now raw of
           Inl e \<Rightarrow> Inl e
         | Inr g \<Rightarrow>
             if gr_SiteID g \<noteq> siteID \<or> \<not> branchMatches (gr_Branch g) (target.Branch t) then Inl ErrForbiddenPreview
             else
               Inr \<lparr> SetCookie = Some (newCookie a (SignGrant hmac a siteID (target.Branch t) (now + CookieTTL a))),
                     RedirectTo = stripGrantParam (request_uri escapedPath r) \<rparr>)
      else
        let bearer =
          (case Bearer a of
             None \<Rightarrow> Inl ErrUnauthorized
           | Some validate \<Rightarrow>
               if bearerToken r \<noteq> [] then
                 (case validate (bearerToken r) siteID of Some e \<Rightarrow> Inl e | None \<Rightarrow> Inr no_action)
               else Inl ErrUnauthorized)
        in (case cookie r PreviewCookieName of
              None \<Rightarrow> bearer
            | Some ck \<Rightarrow>
                if ck = [] then bearer
                else
                  (case verifyGrant hmac parseUUID a now ck of
                     Inl e \<Rightarrow> bearer
                   | Inr g \<Rightarrow>
                       if gr_SiteID g \<noteq> siteID \<or> \<not> branchMatches (gr_Branch g) (target.Branch t) then Inl ErrForbiddenPreview
                       else Inr no_action)))"

definition OpenPreviewAuthz :: "target \<Rightarrow> http_request \<Rightarrow> uuid \<Rightarrow> preview_error + Action" where
  "OpenPreviewAuthz t r siteID = Inr no_action"

definition DenyPreviewAuthz :: "target \<Rightarrow> http_request \<Rightarrow> uuid \<Rightarrow> preview_error + Action" where
  "DenyPreviewAuthz t r siteID = Inl ErrUnauthorized"

section \<open>The codec\<close>

abbreviation colon :: char where "colon \<equiv> CHR '':''"

lemma split_three: "split_on colon s = [p, q, w] \<longleftrightarrow>
  s = p @ colon # q @ colon # w \<and> colon \<notin> set p \<and> colon \<notin> set q \<and> colon \<notin> set w"
proof
  assume sp: "split_on colon s = [p, q, w]"
  then have "s = p @ colon # q @ colon # w" using split_on_join [of colon s] by simp
  then show "s = p @ colon # q @ colon # w \<and> colon \<notin> set p \<and> colon \<notin> set q \<and> colon \<notin> set w"
    using split_on_no_sep [of _ colon s] sp by auto
qed (simp add: split_on_append split_on_single)

definition valid_grant ::
  "(string \<Rightarrow> string \<Rightarrow> string) \<Rightarrow> (string \<Rightarrow> uuid option) \<Rightarrow> GrantAuthzConfig \<Rightarrow> int \<Rightarrow> string \<Rightarrow> Grant \<Rightarrow> bool" where
  "valid_grant hmac parseUUID a now token g \<longleftrightarrow>
     (\<exists>p e n sig. token = p @ colon # gr_Branch g @ colon # e @ colon # sig \<and>
        rawurl_DecodeString sig = Some (hmac (Secret a) (p @ colon # gr_Branch g @ colon # e)) \<and>
        colon \<notin> set p \<and> colon \<notin> set (gr_Branch g) \<and> colon \<notin> set e \<and> colon \<notin> set sig \<and>
        parseUUID p = Some (gr_SiteID g) \<and> parse_int64 e = Some n \<and> gr_Exp g = unix_time n \<and> now < gr_Exp g)"

lemma verifyGrant_split:
  assumes "colon \<notin> set sig"
  shows "verifyGrant hmac parseUUID a now (payload @ colon # sig) =
    (case rawurl_DecodeString sig of
       None \<Rightarrow> Inl ErrUnauthorized
     | Some m \<Rightarrow>
         if m \<noteq> hmac (Secret a) payload then Inl ErrUnauthorized
         else
           (case split_on colon payload of
              [p0, p1, p2] \<Rightarrow>
                (case parseUUID p0 of
                   None \<Rightarrow> Inl ErrUnauthorized
                 | Some i \<Rightarrow>
                     (case parse_int64 p2 of
                        None \<Rightarrow> Inl ErrUnauthorized
                      | Some n \<Rightarrow>
                          if \<not> now < unix_time n then Inl ErrUnauthorized
                          else Inr \<lparr> gr_SiteID = i, gr_Branch = p1, gr_Exp = unix_time n \<rparr>))
            | _ \<Rightarrow> Inl ErrUnauthorized))"
  using assms by (simp add: verifyGrant_def last_index_byte_append Let_def)

lemma verifyGrant_iff: "verifyGrant hmac parseUUID a now token = Inr g \<longleftrightarrow> valid_grant hmac parseUUID a now token g"
proof
  assume v: "verifyGrant hmac parseUUID a now token = Inr g"
  then obtain i where i: "last_index_byte token colon = Some i" by (auto simp: verifyGrant_def split: option.splits)
  define payload sig where "payload = take i token" and "sig = drop (Suc i) token"
  have tok: "token = payload @ colon # sig" and ns: "colon \<notin> set sig"
    using last_index_byte_Some [OF i] by (simp_all add: payload_def sig_def)
  from v [unfolded tok verifyGrant_split [OF ns]] obtain p0 p2 where
      "split_on colon payload = [p0, gr_Branch g, p2]" "rawurl_DecodeString sig = Some (hmac (Secret a) payload)"
      "parseUUID p0 = Some (gr_SiteID g)" "\<exists>n. parse_int64 p2 = Some n \<and> gr_Exp g = unix_time n" "now < gr_Exp g"
    by (auto split: option.splits if_splits list.splits)
  then show "valid_grant hmac parseUUID a now token g"
    unfolding split_three valid_grant_def using tok ns by auto
next
  assume "valid_grant hmac parseUUID a now token g"
  then obtain p e n sig where t: "token = (p @ colon # gr_Branch g @ colon # e) @ colon # sig"
      "rawurl_DecodeString sig = Some (hmac (Secret a) (p @ colon # gr_Branch g @ colon # e))"
      "split_on colon (p @ colon # gr_Branch g @ colon # e) = [p, gr_Branch g, e]" "colon \<notin> set sig"
      "parseUUID p = Some (gr_SiteID g)" "parse_int64 e = Some n" "gr_Exp g = unix_time n" "now < gr_Exp g"
    unfolding split_three valid_grant_def by auto
  show "verifyGrant hmac parseUUID a now token = Inr g"
    unfolding t(1) verifyGrant_split [OF t(4)] using t(2-) by (simp add: split_on_append split_on_single)
qed

text \<open>What the signer has to be given for a grant to be readable.\<close>

definition signable :: "(string \<Rightarrow> uuid option) \<Rightarrow> uuid \<Rightarrow> string \<Rightarrow> int \<Rightarrow> bool" where
  "signable parseUUID i b exp \<longleftrightarrow> parseUUID i = Some i \<and> colon \<notin> set i \<and> colon \<notin> set b \<and>
     int64_min \<le> seconds_of exp \<and> seconds_of exp + 62135596800 \<le> int64_max"

lemma verify_signed:
  assumes "signable parseUUID i b exp"
  shows "verifyGrant hmac parseUUID a now (SignGrant hmac a i b exp) =
    (if now < seconds_of exp * 1000000000
     then Inr \<lparr> gr_SiteID = i, gr_Branch = b, gr_Exp = seconds_of exp * 1000000000 \<rparr> else Inl ErrUnauthorized)"
proof -
  let ?p = "grant_payload i b exp" and ?sig = "rawurl_EncodeToString (hmac (Secret a) (grant_payload i b exp))"
  have tok: "SignGrant hmac a i b exp = ?p @ colon # ?sig" by (simp add: SignGrant_def Let_def)
  have "split_on colon ?p = [i, b, show_int (seconds_of exp)]"
    unfolding split_three using assms show_int_no_colon by (simp add: grant_payload_def signable_def)
  moreover have "parse_int64 (show_int (seconds_of exp)) = Some (seconds_of exp)"
    using assms by (intro parse_show_int) (simp add: in_int64_def signable_def)
  moreover have "unix_time (seconds_of exp) = seconds_of exp * 1000000000"
    using assms by (simp add: unix_time_def signable_def)
  ultimately show ?thesis
    unfolding tok verifyGrant_split [OF rawurl_no_colon] using assms by (simp add: signable_def)
qed

lemma SignGrant_nonempty [simp]: "SignGrant hmac a i b exp \<noteq> []"
  by (simp add: SignGrant_def Let_def)

definition example_authz :: GrantAuthzConfig where
  "example_authz = \<lparr> Secret = ''k'', CookieSecure = True, CookieTTL = 3600000000000, Bearer = None \<rparr>"

definition example_hmac :: "string \<Rightarrow> string \<Rightarrow> string" where
  "example_hmac k p = k @ rev p"

definition example_target :: target where
  "example_target = \<lparr> Handle = ''shop'', Branch = ''draft'', IsPreview = True, IsControl = False, Source = SourceHost, PathPrefix = [] \<rparr>"

section \<open>Properties\<close>

text \<open>
  C28: Preview access is exact. Without a bearer validator, a request is let through precisely
  when the credential it presents (the grant in the URL when there is one, the preview cookie
  otherwise) is a well-formed token whose signature is the HMAC of its payload, that has not
  expired, and that names this very site and branch; with a credential for another site or
  branch the answer is "forbidden".
\<close>

theorem preview_access_exact:
  assumes "Bearer a = None"
  shows "let q = query_get (raw_query r) PreviewGrantQueryParam;
      cred = (if q \<noteq> [] then q else (case cookie r PreviewCookieName of Some v \<Rightarrow> v | None \<Rightarrow> []))
    in ((\<exists>act. Authorize hmac parseUUID a now t path r siteID = Inr act) \<longleftrightarrow>
         cred \<noteq> [] \<and> (\<exists>g. valid_grant hmac parseUUID a now cred g \<and> gr_SiteID g = siteID \<and> gr_Branch g = target.Branch t)) \<and>
       (Authorize hmac parseUUID a now t path r siteID = Inl ErrForbiddenPreview \<longleftrightarrow>
         cred \<noteq> [] \<and> (\<exists>g. valid_grant hmac parseUUID a now cred g \<and> (gr_SiteID g, gr_Branch g) \<noteq> (siteID, target.Branch t)))"
proof -
  have unauth: "verifyGrant hmac parseUUID a now x = Inl e \<Longrightarrow> e = ErrUnauthorized" for x e
    by (auto simp: verifyGrant_def Let_def split: option.splits if_splits list.splits)
  show ?thesis
    unfolding verifyGrant_iff [symmetric] Let_def using assms unauth
    by (auto simp: Authorize_def Let_def branchMatches_def split: option.splits sum.splits)
qed

theorem preview_access_exact_witness:
  "\<not> (\<exists>act. Authorize example_hmac Some example_authz 0 example_target ''/'' (get_request ''h'' ''/'') ''s1'' = Inr act)"
proof -
  have "query_get (raw_query (get_request ''h'' ''/'')) PreviewGrantQueryParam = []" by code_simp
  moreover have "cookie (get_request ''h'' ''/'') PreviewCookieName = None" by (simp add: cookie_def get_request_def)
  moreover have "Bearer example_authz = None" by (simp add: example_authz_def)
  ultimately show ?thesis
    using preview_access_exact [of example_authz "get_request ''h'' ''/''" example_hmac Some 0 example_target "''/''" "''s1''"]
    by (simp add: Let_def)
qed

text \<open>
  The exchange of a grant for a cookie. A grant signed for a site and branch is accepted
  there until it expires; the cookie handed out is bound to the host, and whoever presents it
  is let through for the same site and branch until the cookie's time is up, and is refused
  on every other site and branch.
\<close>

theorem preview_exchange:
  assumes sig: "signable parseUUID siteID (target.Branch t) exp" "now < seconds_of exp * 1000000000"
    and ttl: "signable parseUUID siteID (target.Branch t) (now + CookieTTL a)"
    and q: "query_get (raw_query r) PreviewGrantQueryParam = SignGrant hmac a siteID (target.Branch t) exp"
    and later: "now' < seconds_of (now + CookieTTL a) * 1000000000"
    and r': "query_get (raw_query r') PreviewGrantQueryParam = []" "cookie r' PreviewCookieName = Some (sc_Value ck)"
    and ck: "ck = newCookie a (SignGrant hmac a siteID (target.Branch t) (now + CookieTTL a))"
  shows "Authorize hmac parseUUID a now t path r siteID =
      Inr \<lparr> SetCookie = Some ck, RedirectTo = stripGrantParam (request_uri path r) \<rparr> \<and>
    Authorize hmac parseUUID a now' t path' r' siteID = Inr no_action \<and>
    (\<forall>t' other. (other, target.Branch t') \<noteq> (siteID, target.Branch t) \<longrightarrow>
      Authorize hmac parseUUID a now' t' path' r' other = Inl ErrForbiddenPreview)"
proof -
  have v: "verifyGrant hmac parseUUID a now (SignGrant hmac a siteID (target.Branch t) exp) =
      Inr \<lparr> gr_SiteID = siteID, gr_Branch = target.Branch t, gr_Exp = seconds_of exp * 1000000000 \<rparr>"
    using verify_signed [OF sig(1)] sig(2) by simp
  have c: "sc_Value ck = SignGrant hmac a siteID (target.Branch t) (now + CookieTTL a)" by (simp add: ck newCookie_def)
  have v': "verifyGrant hmac parseUUID a now' (sc_Value ck) =
      Inr \<lparr> gr_SiteID = siteID, gr_Branch = target.Branch t, gr_Exp = seconds_of (now + CookieTTL a) * 1000000000 \<rparr>"
    unfolding c using verify_signed [OF ttl] later by simp
  have "sc_Value ck \<noteq> []" by (simp add: c)
  then show ?thesis using v v' q r' ck by (auto simp: Authorize_def branchMatches_def)
qed

theorem preview_exchange_witness:
  "Authorize example_hmac Some example_authz 7 example_target ''/''
     ((get_request ''h'' ''/'')\<lparr> req_cookies :=
        [(PreviewCookieName, SignGrant example_hmac example_authz ''s1'' ''draft'' 3600000000000)] \<rparr>) ''s2'' = Inl ErrForbiddenPreview"
proof -
  let ?r = "(get_request ''h'' ''/'')\<lparr> raw_query := ''kpt='' @ SignGrant example_hmac example_authz ''s1'' ''draft'' 60000000000 \<rparr>"
  let ?c = "SignGrant example_hmac example_authz ''s1'' ''draft'' 3600000000000"
  let ?r' = "(get_request ''h'' ''/'')\<lparr> req_cookies := [(PreviewCookieName, ?c)] \<rparr>"
  have t: "target.Branch example_target = ''draft''" by (simp add: example_target_def)
  have s: "signable Some ''s1'' (target.Branch example_target) 60000000000"
      "signable Some ''s1'' (target.Branch example_target) (0 + CookieTTL example_authz)"
    by (simp_all add: t signable_def seconds_of_def int64_min_def int64_max_def example_authz_def)
  have n: "(0::int) < seconds_of 60000000000 * 1000000000" "7 < seconds_of (0 + CookieTTL example_authz) * 1000000000"
    by (simp_all add: seconds_of_def example_authz_def)
  have q: "query_get (raw_query ?r) PreviewGrantQueryParam =
      SignGrant example_hmac example_authz ''s1'' (target.Branch example_target) 60000000000"
    unfolding t by code_simp
  have q': "query_get (raw_query ?r') PreviewGrantQueryParam = []" by code_simp
  have c: "cookie ?r' PreviewCookieName = Some (sc_Value (newCookie example_authz
      (SignGrant example_hmac example_authz ''s1'' (target.Branch example_target) (0 + CookieTTL example_authz))))"
    by (simp add: cookie_def newCookie_def t example_authz_def)
  show ?thesis
    using preview_exchange [OF s(1) n(1) s(2) q n(2) q' c refl, THEN conjunct2, THEN conjunct2, rule_format, of "''s2''" example_target] by simp
qed

end
