(* ===== verification/Static_Serve.thy ===== *)
theory Static_Serve
  imports Security_Headers Tree_Provider Preview_Grant
begin

text \<open>
  The data-plane handler (\<open>backend/internal/serve/static.go\<close>): resolving the request,
  authorising a preview, finding the file, and writing it with its headers.

  The file system of a tree is two functions, \<open>fs.Stat\<close> (does the name exist, is it a
  directory) and open-and-read. \<open>http.ServeContent\<close> (ranges and the conditional headers) is a
  parameter, and so is the control-plane handler; the resolver, the tree provider and the
  preview authoriser are the functions of the other theories.
\<close>

section \<open>Parts of net/http\<close>

definition status_texts :: "(nat \<times> string) list" where
  "status_texts =
     [(100, ''Continue''),
      (101, ''Switching Protocols''),
      (102, ''Processing''),
      (103, ''Early Hints''),
      (200, ''OK''),
      (201, ''Created''),
      (202, ''Accepted''),
      (203, ''Non-Authoritative Information''),
      (204, ''No Content''),
      (205, ''Reset Content''),
      (206, ''Partial Content''),
      (207, ''Multi-Status''),
      (208, ''Already Reported''),
      (226, ''IM Used''),
      (300, ''Multiple Choices''),
      (301, ''Moved Permanently''),
      (302, ''Found''),
      (303, ''See Other''),
      (304, ''Not Modified''),
      (305, ''Use Proxy''),
      (307, ''Temporary Redirect''),
      (308, ''Permanent Redirect''),
      (400, ''Bad Request''),
      (401, ''Unauthorized''),
      (402, ''Payment Required''),
      (403, ''Forbidden''),
      (404, ''Not Found''),
      (405, ''Method Not Allowed''),
      (406, ''Not Acceptable''),
      (407, ''Proxy Authentication Required''),
      (408, ''Request Timeout''),
      (409, ''Conflict''),
      (410, ''Gone''),
      (411, ''Length Required''),
      (412, ''Precondition Failed''),
      (413, ''Request Entity Too Large''),
      (414, ''Request URI Too Long''),
      (415, ''Unsupported Media Type''),
      (416, ''Requested Range Not Satisfiable''),
      (417, ''Expectation Failed''),
      (418, ''I'm a teapot''),
      (421, ''Misdirected Request''),
      (422, ''Unprocessable Entity''),
      (423, ''Locked''),
      (424, ''Failed Dependency''),
      (425, ''Too Early''),
      (426, ''Upgrade Required''),
      (428, ''Precondition Required''),
      (429, ''Too Many Requests''),
      (431, ''Request Header Fields Too Large''),
      (451, ''Unavailable For Legal Reasons''),
      (500, ''Internal Server Error''),
      (501, ''Not Implemented''),
      (502, ''Bad Gateway''),
      (503, ''Service Unavailable''),
      (504, ''Gateway Timeout''),
      (505, ''HTTP Version Not Supported''),
      (506, ''Variant Also Negotiates''),
      (507, ''Insufficient Storage''),
      (508, ''Loop Detected''),
      (510, ''Not Extended''),
      (511, ''Network Authentication Required'')]"

definition StatusText :: "nat \<Rightarrow> string" where
  "StatusText code = (case map_of status_texts code of Some t \<Rightarrow> t | None \<Rightarrow> [])"

text \<open>\<open>http.TimeFormat\<close>: \<open>Mon, 02 Jan 2006 15:04:05 GMT\<close>.\<close>

definition weekday_names :: "string list" where
  "weekday_names = [''Sun'', ''Mon'', ''Tue'', ''Wed'', ''Thu'', ''Fri'', ''Sat'']"

definition month_names :: "string list" where
  "month_names = [''Jan'', ''Feb'', ''Mar'', ''Apr'', ''May'', ''Jun'', ''Jul'', ''Aug'', ''Sep'', ''Oct'', ''Nov'', ''Dec'']"

definition format_http_time :: "int \<Rightarrow> string" where
  "format_http_time t =
     (let s = seconds_of t; sod = s mod 86400; days = s div 86400 in
      case civil_date days of
        (y, m, d) \<Rightarrow>
          weekday_names ! nat ((days + 4) mod 7) @ '', '' @ pad_int 2 d @ '' '' @ month_names ! nat (m - 1) @ '' '' @ pad_int 4 y @ '' '' @
          pad_int 2 (sod div 3600) @ '':'' @ pad_int 2 (sod mod 3600 div 60) @ '':'' @ pad_int 2 (sod mod 60) @ '' GMT'')"

text \<open>
  \<open>http.Redirect\<close>. A URL that begins with two slashes and a non-empty authority names
  another host and is sent as it is; any other one without a scheme is made absolute and
  cleaned.
\<close>

definition names_authority :: "string \<Rightarrow> bool" where
  "names_authority url = (has_prefix url ''//'' \<and> (case drop 2 url of [] \<Rightarrow> False | c # _ \<Rightarrow> c \<noteq> slash \<and> c \<noteq> CHR ''?'' \<and> c \<noteq> CHR ''#''))"

definition redirect_target :: "string \<Rightarrow> string \<Rightarrow> string" where
  "redirect_target oldpath url =
     (if names_authority url then url
      else
        let old = (if oldpath = [] then ''/'' else oldpath);
            url1 = (if has_prefix url ''/'' then url
                    else (case last_index_byte old slash of Some i \<Rightarrow> take (i + 1) old | None \<Rightarrow> []) @ url);
            i = (case index_byte url1 CHR ''?'' of Some i \<Rightarrow> i | None \<Rightarrow> length url1);
            base = take i url1; query = drop i url1; cleaned = path_clean base
        in (if has_suffix base ''/'' \<and> \<not> has_suffix cleaned ''/'' then cleaned @ ''/'' else cleaned) @ query)"

definition hex_escape_non_ascii :: "string \<Rightarrow> string" where
  "hex_escape_non_ascii s =
     concat (map (\<lambda>c. if (of_char c :: nat) < 128 then [c] else CHR ''%'' # show_base 16 (of_char c)) s)"

definition http_html_escape :: "string \<Rightarrow> string" where
  "http_html_escape s =
     concat (map (\<lambda>c. if c = CHR ''&'' then ''&amp;'' else if c = CHR ''<'' then ''&lt;'' else if c = CHR ''>'' then ''&gt;''
       else if c = CHR 0x22 then ''&#34;'' else if c = CHR 0x27 then ''&#39;'' else [c]) s)"

definition http_redirect :: "http_request \<Rightarrow> string \<Rightarrow> nat \<Rightarrow> writer_state \<Rightarrow> writer_state" where
  "http_redirect r url code w =
     (let loc = redirect_target (url_path r) url;
          hadCT = (w_header w ''Content-Type'' \<noteq> None);
          w1 = header_set ''Location'' (hex_escape_non_ascii loc) w;
          w2 = (if \<not> hadCT \<and> (req_method r = ''GET'' \<or> req_method r = ''HEAD'')
                then header_set ''Content-Type'' ''text/html; charset=utf-8'' w1 else w1);
          w3 = write_header code w2
      in if \<not> hadCT \<and> req_method r = ''GET''
         then write_body (''<a href='' @ [CHR 0x22] @ http_html_escape loc @ [CHR 0x22] @ ''>'' @ StatusText code @ ''</a>.'' @ newline @ newline) w3
         else w3)"

section \<open>Configuration\<close>

record CacheConfig =
  AssetMaxAge :: int
  DisableETag :: bool
  ImmutableHint :: bool
  DisableBaseHref :: bool

definition etagEnabled :: "CacheConfig \<Rightarrow> bool" where "etagEnabled c = (\<not> DisableETag c)"
definition baseHrefEnabled :: "CacheConfig \<Rightarrow> bool" where "baseHrefEnabled c = (\<not> DisableBaseHref c)"

definition immutableAssetMaxAge :: int where "immutableAssetMaxAge = 365 * 24 * 3600 * 1000000000"
definition assetNoCacheControl :: string where "assetNoCacheControl = ''no-cache''"
definition htmlCacheControl :: string where "htmlCacheControl = ''no-cache, must-revalidate''"
definition previewCacheControl :: string where "previewCacheControl = ''private, no-store''"
definition allowMethods :: string where "allowMethods = ''GET, HEAD, OPTIONS''"
definition indexFile :: string where "indexFile = ''index.html''"
definition siteNotFoundFile :: string where "siteNotFoundFile = ''404.html''"
definition contentTypeOctetStream :: string where "contentTypeOctetStream = ''application/octet-stream''"
definition contentTypeTextHTMLUTF8 :: string where "contentTypeTextHTMLUTF8 = ''text/html; charset=utf-8''"

text \<open>The file system of a tree: whether a name exists and is a directory, and its bytes.\<close>

record serve_fs =
  fs_Stat :: "string \<Rightarrow> bool option"
  fs_Read :: "string \<Rightarrow> string option"

type_synonym tree_handle = "serve_fs serve_tree"

record Handler =
  h_resolver :: "http_request \<Rightarrow> resolve_error + target"
  h_trees :: "target \<Rightarrow> tree_error + tree_handle"
  h_authz :: "target \<Rightarrow> http_request \<Rightarrow> uuid \<Rightarrow> preview_error + Action"
  h_sec :: SecurityHeaderConfig
  h_cache :: CacheConfig
  h_unauth :: nat
  h_controlHandler :: "(http_request \<Rightarrow> writer_state \<Rightarrow> writer_state) option"
  h_tls :: "http_request \<Rightarrow> bool"
  h_ServeContent :: "http_request \<Rightarrow> int \<Rightarrow> string \<Rightarrow> writer_state \<Rightarrow> writer_state"

definition defaultPreviewUnauthStatus :: nat where "defaultPreviewUnauthStatus = 404"

definition all_unset :: "SecurityHeaderConfig \<Rightarrow> bool" where
  "all_unset sec = (CSP sec = [] \<and> ConnectSrc sec = [] \<and> ReferrerPolicy sec = [] \<and> PermissionsPolicy sec = [] \<and>
     FrameAncestors sec = [] \<and> FrameAncestorsControlOrigin sec = [] \<and> CrossOriginResourcePolicy sec = [])"

text \<open>\<open>NewHandler\<close>; a missing authoriser is \<open>None\<close>.\<close>

definition NewHandler ::
  "Handler \<Rightarrow> (target \<Rightarrow> http_request \<Rightarrow> uuid \<Rightarrow> preview_error + Action) option \<Rightarrow> Handler" where
  "NewHandler d authz =
     d\<lparr> h_unauth := (if h_unauth d = 0 then defaultPreviewUnauthStatus else h_unauth d),
        h_authz := (case authz of Some a \<Rightarrow> a | None \<Rightarrow> DenyPreviewAuthz),
        h_sec := (if all_unset (h_sec d) then DefaultSecurityHeaderConfig else sec_normalize (h_sec d)) \<rparr>"

section \<open>Pure helpers\<close>

definition cleanRequestPath :: "string \<Rightarrow> string option" where
  "cleanRequestPath reqPath =
     (if CHR 0x00 \<in> set reqPath then None
      else
        let c = path_clean (''/'' @ reqPath);
            cleaned = (if c \<noteq> ''/'' \<and> has_suffix reqPath ''/'' then c @ ''/'' else c)
        in if list_ex (\<lambda>seg. seg = dotdot \<or> seg = ''.git'') (split_on slash cleaned) then None else Some cleaned)"

definition stripDecodedPrefix :: "string \<Rightarrow> string \<Rightarrow> string" where
  "stripDecodedPrefix decodedPath pathPrefix =
     (let prefSegs = length (filter (\<lambda>c. c = slash) (trim_right (\<lambda>c. c = slash) (trim_left (\<lambda>c. c = slash) pathPrefix))) + 1;
          segs = split_on slash (trim_prefix decodedPath ''/'')
      in if length segs \<le> prefSegs then ''/'' else ''/'' @ join_with ''/'' (drop prefSegs segs))"

definition contentTypeForName :: "string \<Rightarrow> string" where
  "contentTypeForName name = (case map_of MIMEByExt (go_lower (path_ext name)) of Some t \<Rightarrow> t | None \<Rightarrow> [])"

definition makeETag :: "string \<Rightarrow> int \<Rightarrow> int \<Rightarrow> string" where
  "makeETag commitSHA cacheVersion len =
     (let s1 = (if 12 < length commitSHA then take 12 commitSHA else commitSHA);
          s2 = (if s1 = [] then ''dev'' else s1)
      in [CHR 0x22] @ s2 @ ''-'' @ show_int_base 16 cacheVersion @ ''-'' @ show_int_base 16 len @ [CHR 0x22])"

definition matchETag :: "string \<Rightarrow> string \<Rightarrow> bool" where
  "matchETag ifNoneMatch etag =
     (if ifNoneMatch = [] then False
      else if trim_space ifNoneMatch = ''*'' then True
      else list_ex (\<lambda>cand. trim_prefix (trim_space cand) ''W/'' = etag) (split_on CHR '','' ifNoneMatch))"

definition first_of_list :: "string \<Rightarrow> string" where
  "first_of_list v = (case index_byte v CHR '','' of Some i \<Rightarrow> take i v | None \<Rightarrow> v)"

definition requestScheme :: "Handler \<Rightarrow> http_request \<Rightarrow> string" where
  "requestScheme h r =
     (let proto = header_get r ''X-Forwarded-Proto'' in
      if proto \<noteq> [] then trim_space (first_of_list proto)
      else if h_tls h r then ''https'' else ''http'')"

definition hostSuffixForRedirect :: "http_request \<Rightarrow> string" where
  "hostSuffixForRedirect r =
     (let xfh = header_get r ''X-Forwarded-Host'';
          host = (if xfh \<noteq> [] then trim_space (first_of_list xfh) else req_host r)
      in (case index_byte host CHR ''.'' of Some i \<Rightarrow> drop i host | None \<Rightarrow> ''.'' @ host))"

definition brandedErrorBody :: "nat \<Rightarrow> string" where
  "brandedErrorBody status =
     (let title = (if StatusText status = [] then ''Error'' else StatusText status) in
      ''<!doctype html><html lang=\"en\"><head><meta charset=\"utf-8\">'' @
      ''<title>'' @ htmlEscape title @ ''</title></head><body>'' @
      ''<h1>'' @ htmlEscape (show_nat status @ '' '' @ title) @ ''</h1>'' @
      ''<p>kotoji</p></body></html>'')"

section \<open>Errors and redirects\<close>

definition writeError :: "Handler \<Rightarrow> http_request \<Rightarrow> nat \<Rightarrow> bool \<Rightarrow> writer_state \<Rightarrow> writer_state" where
  "writeError h r status isPreview w =
     (let w1 = applySecurityHeaders (h_sec h) False w;
          w2 = header_set ''Content-Type'' contentTypeTextHTMLUTF8 w1;
          w3 = header_set ''Cache-Control'' (if isPreview then previewCacheControl else htmlCacheControl) w2;
          w4 = write_header status w3
      in if req_method r = ''HEAD'' then w4 else write_body (brandedErrorBody status) w4)"

definition writeResolveError :: "Handler \<Rightarrow> http_request \<Rightarrow> resolve_error \<Rightarrow> writer_state \<Rightarrow> writer_state" where
  "writeResolveError h r e w = writeError h r (resolve_error.Status e) False w"

definition with_query :: "http_request \<Rightarrow> string \<Rightarrow> string" where
  "with_query r loc = (if raw_query r \<noteq> [] then loc @ ''?'' @ raw_query r else loc)"

definition moved :: "Handler \<Rightarrow> string \<Rightarrow> writer_state \<Rightarrow> writer_state" where
  "moved h loc w = write_header 301 (header_set ''Location'' loc (applySecurityHeaders (h_sec h) False w))"

definition redirectTrailingSlash :: "Handler \<Rightarrow> http_request \<Rightarrow> target \<Rightarrow> string \<Rightarrow> writer_state \<Rightarrow> writer_state" where
  "redirectTrailingSlash h r t inSitePath w = moved h (with_query r (target.PathPrefix t @ inSitePath)) w"

definition redirectRenamedHandle :: "Handler \<Rightarrow> http_request \<Rightarrow> target \<Rightarrow> string \<Rightarrow> writer_state \<Rightarrow> writer_state" where
  "redirectRenamedHandle h r t newHandle w =
     (let newLabel = (if IsPreview t then newHandle @ ''--'' @ target.Branch t else newHandle);
          loc = (if target.Source t = SourcePath then
                   ''/host/'' @ newLabel @ stripDecodedPrefix (url_path r) (target.PathPrefix t)
                 else
                   requestScheme h r @ ''://'' @ newLabel @ ''.'' @ trim_prefix (hostSuffixForRedirect r) ''.'' @ url_path r)
      in moved h (with_query r loc) w)"

definition handleTreeError :: "Handler \<Rightarrow> http_request \<Rightarrow> target \<Rightarrow> tree_error \<Rightarrow> writer_state \<Rightarrow> writer_state" where
  "handleTreeError h r t e w =
     (case e of
        RedirectError newHandle \<Rightarrow> redirectRenamedHandle h r t newHandle w
      | _ \<Rightarrow> writeError h r 404 (IsPreview t) w)"

section \<open>Serving a file\<close>

definition cache_control :: "CacheConfig \<Rightarrow> target \<Rightarrow> bool \<Rightarrow> bool \<Rightarrow> string" where
  "cache_control c t isHTML transformed =
     (if IsPreview t then previewCacheControl
      else if transformed then ''no-store''
      else if isHTML then htmlCacheControl
      else if AssetMaxAge c \<le> 0 then assetNoCacheControl
      else if ImmutableHint c then ''public, max-age='' @ show_int (immutableAssetMaxAge div 1000000000) @ '', immutable''
      else ''public, max-age='' @ show_int (AssetMaxAge c div 1000000000))"

definition applyCacheHeaders :: "Handler \<Rightarrow> target \<Rightarrow> tree_handle \<Rightarrow> bool \<Rightarrow> bool \<Rightarrow> writer_state \<Rightarrow> writer_state" where
  "applyCacheHeaders h t tree isHTML transformed w =
     header_set ''Cache-Control'' (cache_control (h_cache h) t isHTML transformed)
       (if tree_CommitTime tree \<noteq> zero_time
        then header_set ''Last-Modified'' (format_http_time (tree_CommitTime tree)) w else w)"

definition file_headers :: "Handler \<Rightarrow> string \<Rightarrow> writer_state \<Rightarrow> writer_state" where
  "file_headers h name w =
     (let w1 = applySecurityHeaders (h_sec h) (go_lower (path_ext name) = ''.svg'') w in
      if contentTypeForName name = [] then
        header_set ''Content-Disposition'' ''attachment'' (header_set ''Content-Type'' contentTypeOctetStream w1)
      else header_set ''Content-Type'' (contentTypeForName name) w1)"

definition file_body ::
  "Handler \<Rightarrow> http_request \<Rightarrow> target \<Rightarrow> tree_handle \<Rightarrow> string \<Rightarrow> nat \<Rightarrow> string \<Rightarrow> writer_state \<Rightarrow> writer_state" where
  "file_body h r t tree name status content w =
     (let isHTML = has_prefix (contentTypeForName name) ''text/html'' in
      case (if isHTML then maybeInjectBaseHref content t (baseHrefEnabled (h_cache h)) else (content, False)) of
        (body, transformed) \<Rightarrow>
          let w1 = applyCacheHeaders h t tree isHTML transformed w;
              send = (\<lambda>w2. if status \<noteq> 200 then
                             (let w3 = write_header status w2 in if req_method r \<noteq> ''HEAD'' then write_body body w3 else w3)
                           else h_ServeContent h r (tree_CommitTime tree) body w2)
          in if etagEnabled (h_cache h) \<and> \<not> IsPreview t \<and> \<not> transformed then
               let etag = makeETag (tree_CommitSHA tree) (tree_CacheVersion tree) (int (length body));
                   w2 = header_set ''ETag'' etag w1
               in if matchETag (header_get r ''If-None-Match'') etag then write_header 304 w2 else send w2
             else send w1)"

text \<open>
  \<open>writeContent\<close> and \<open>writeNotFound\<close> call each other when a file cannot be read; \<open>None\<close> is a
  call that never returns.
\<close>

partial_function (option) writeContent ::
  "Handler \<Rightarrow> http_request \<Rightarrow> target \<Rightarrow> tree_handle \<Rightarrow> string \<Rightarrow> nat \<Rightarrow> writer_state \<Rightarrow> writer_state option" where
  "writeContent h r t tree name status w =
     (let w1 = file_headers h name w in
      case fs_Read (FS tree) name of
        Some content \<Rightarrow> Some (file_body h r t tree name status content w1)
      | None \<Rightarrow>
          if fs_Stat (FS tree) siteNotFoundFile = Some False
          then writeContent h r t tree siteNotFoundFile 404 w1
          else Some (writeError h r 404 (IsPreview t) w1))"

definition writeNotFound ::
  "Handler \<Rightarrow> http_request \<Rightarrow> target \<Rightarrow> tree_handle \<Rightarrow> writer_state \<Rightarrow> writer_state option" where
  "writeNotFound h r t tree w =
     (if fs_Stat (FS tree) siteNotFoundFile = Some False
      then writeContent h r t tree siteNotFoundFile 404 w
      else Some (writeError h r 404 (IsPreview t) w))"

datatype resolved_file = ServeName string | TrailingRedirect string | NoFile

definition resolveTarget :: "serve_fs \<Rightarrow> string \<Rightarrow> resolved_file" where
  "resolveTarget fsys cleaned =
     (let inSite = trim_prefix cleaned ''/'';
          hadTrailingSlash = (has_suffix cleaned ''/'' \<and> cleaned \<noteq> ''/'')
      in if inSite = [] \<or> cleaned = ''/'' then
           (if fs_Stat fsys indexFile = Some False then ServeName indexFile else NoFile)
         else
           let trimmed = trim_suffix inSite ''/'' in
           (case fs_Stat fsys trimmed of
              None \<Rightarrow> NoFile
            | Some True \<Rightarrow>
                if \<not> hadTrailingSlash then TrailingRedirect (''/'' @ trimmed @ ''/'')
                else
                  let idx = trimmed @ ''/'' @ indexFile in
                  if fs_Stat fsys idx = Some False then ServeName idx else NoFile
            | Some False \<Rightarrow> if hadTrailingSlash then NoFile else ServeName trimmed))"

definition serveFile :: "Handler \<Rightarrow> http_request \<Rightarrow> target \<Rightarrow> tree_handle \<Rightarrow> writer_state \<Rightarrow> writer_state option" where
  "serveFile h r t tree w =
     (let reqPath = (if target.PathPrefix t \<noteq> [] then stripDecodedPrefix (url_path r) (target.PathPrefix t) else url_path r) in
      case cleanRequestPath reqPath of
        None \<Rightarrow> writeNotFound h r t tree w
      | Some cleaned \<Rightarrow>
          (case resolveTarget (FS tree) cleaned of
             TrailingRedirect loc \<Rightarrow> Some (redirectTrailingSlash h r t loc w)
           | NoFile \<Rightarrow> writeNotFound h r t tree w
           | ServeName name \<Rightarrow> writeContent h r t tree name 200 w))"

section \<open>The handler\<close>

definition add_cookie :: "set_cookie option \<Rightarrow> writer_state \<Rightarrow> writer_state" where
  "add_cookie ck w = (case ck of None \<Rightarrow> w | Some c \<Rightarrow> w\<lparr> w_cookies := w_cookies w @ [c] \<rparr>)"

definition serveProject :: "Handler \<Rightarrow> http_request \<Rightarrow> target \<Rightarrow> writer_state \<Rightarrow> writer_state option" where
  "serveProject h r t w =
     (case h_trees h t of
        Inl e \<Rightarrow> Some (handleTreeError h r t e w)
      | Inr tree \<Rightarrow>
          if IsPreview t then
            (case h_authz h t r (tree_SiteID tree) of
               Inl e \<Rightarrow> Some (writeError h r (h_unauth h) (IsPreview t) w)
             | Inr action \<Rightarrow>
                 let w1 = add_cookie (SetCookie action) w in
                 if RedirectTo action \<noteq> [] then
                   Some (http_redirect r (RedirectTo action) 302
                     (header_set ''Cache-Control'' previewCacheControl (applySecurityHeaders (h_sec h) False w1)))
                 else serveFile h r t tree w1)
          else serveFile h r t tree w)"

definition ServeHTTP :: "Handler \<Rightarrow> http_request \<Rightarrow> writer_state \<Rightarrow> writer_state option" where
  "ServeHTTP h r w =
     (case h_resolver h r of
        Inl e \<Rightarrow> Some (writeResolveError h r e w)
      | Inr t \<Rightarrow>
          if IsControl t then
            (case h_controlHandler h of
               Some ctl \<Rightarrow> Some (ctl r w)
             | None \<Rightarrow> Some (writeError h r 404 False w))
          else if req_method r = ''GET'' \<or> req_method r = ''HEAD'' then serveProject h r t w
          else if req_method r = ''OPTIONS'' then
            Some (write_header 204 (header_set ''Allow'' allowMethods (applySecurityHeaders (h_sec h) False w)))
          else
            Some (writeError h r 405 False (header_set ''Allow'' allowMethods (applySecurityHeaders (h_sec h) False w))))"

end
