(* ===== verification/Static_Props.thy ===== *)
theory Static_Props
  imports Static_Serve
begin

text \<open>
  What the data-plane handler guarantees: the security headers on every answer it writes
  itself, that it returns, what an unauthorised preview reveals, which names it opens, and
  where its redirects lead.
\<close>

section \<open>Headers\<close>

definition protected_headers :: "string list" where
  "protected_headers = [''Content-Security-Policy'', ''X-Content-Type-Options'', ''Referrer-Policy'', ''Permissions-Policy'',
     ''Cross-Origin-Opener-Policy'', ''Cross-Origin-Resource-Policy'', ''Server'']"

lemma fixed_headers_names: "map fst (fixed_headers c svg) = protected_headers"
  by (simp add: fixed_headers_def protected_headers_def)

lemma fixed_header_name: "(k, v) \<in> set (fixed_headers c svg) \<Longrightarrow> k \<in> set protected_headers"
  using imageI [of "(k, v)" "set (fixed_headers c svg)" fst] fixed_headers_names [of c svg] by (metis fst_conv set_map)

definition hardened :: "SecurityHeaderConfig \<Rightarrow> writer_state \<Rightarrow> bool" where
  "hardened c w \<longleftrightarrow> (\<exists>svg. \<forall>(k, v) \<in> set (fixed_headers c svg). w_header w k = Some v)"

lemma foldl_header_set:
  "w_header (foldl (\<lambda>w (k, v). header_set k v w) w kvs) = w_header w ++ map_of (rev kvs)"
  by (induction kvs arbitrary: w) (auto simp: header_set_def map_add_def fun_eq_iff split: option.splits)

lemma applySecurityHeaders_get:
  assumes "set (map fst (ExtraHeaders c)) \<inter> set protected_headers = {}" and "(k, v) \<in> set (fixed_headers c svg)"
  shows "w_header (applySecurityHeaders c svg w) k = Some v"
proof -
  have "k \<in> set protected_headers" using assms(2) by (rule fixed_header_name)
  then have "k \<notin> fst ` set (rev (ExtraHeaders c))" using assms(1) by auto
  then have "map_of (rev (ExtraHeaders c)) k = None" by (simp add: map_of_eq_None_iff)
  moreover have "map_of (rev (fixed_headers c svg)) k = Some v"
    using assms(2) by (intro map_of_is_SomeI) (simp_all add: rev_map [symmetric] fixed_headers_names protected_headers_def)
  ultimately show ?thesis by (simp add: applySecurityHeaders_def foldl_header_set map_add_def)
qed

lemma hardened_apply:
  assumes "set (map fst (ExtraHeaders c)) \<inter> set protected_headers = {}"
  shows "hardened c (applySecurityHeaders c svg w)"
  unfolding hardened_def using applySecurityHeaders_get [OF assms, of _ _ svg w] by blast

lemma hardened_cong: "(\<And>k. k \<in> set protected_headers \<Longrightarrow> w_header w' k = w_header w k) \<Longrightarrow> hardened c w \<Longrightarrow> hardened c w'"
  unfolding hardened_def using fixed_header_name [of _ _ c] by (metis (mono_tags, lifting) case_prodD case_prodI2)

lemma header_set_get [simp]: "w_header (header_set k v w) k' = (if k' = k then Some v else w_header w k')"
  by (simp add: header_set_def)

lemma write_header_get [simp]: "w_header (write_header s w) = w_header w"
  by (simp add: write_header_def split: option.splits)

lemma write_body_get [simp]: "w_header (write_body s w) = w_header w"
  by (simp add: write_body_def)

lemma hardened_set: "k \<notin> set protected_headers \<Longrightarrow> hardened c w \<Longrightarrow> hardened c (header_set k v w)"
  by (erule hardened_cong [rotated]) auto

lemma hardened_write [simp]: "hardened c (write_header s w) = hardened c w" "hardened c (write_body b w) = hardened c w"
  by (simp_all add: hardened_def)

text \<open>What is relied on from \<open>http.ServeContent\<close>: it leaves the protected headers alone.\<close>

definition keeps_protected :: "(http_request \<Rightarrow> int \<Rightarrow> string \<Rightarrow> writer_state \<Rightarrow> writer_state) \<Rightarrow> bool" where
  "keeps_protected sc \<longleftrightarrow> (\<forall>r m b w. \<forall>k \<in> set protected_headers. w_header (sc r m b w) k = w_header w k)"

lemma hardened_serve: "keeps_protected sc \<Longrightarrow> hardened c w \<Longrightarrow> hardened c (sc r m b w)"
  by (erule hardened_cong [rotated]) (simp add: keeps_protected_def)

section \<open>When the file writer returns\<close>

lemma writeContent_returns:
  assumes "writeContent h r t tree name st w = Some y"
  shows "name = siteNotFoundFile \<longrightarrow> fs_Stat (FS tree) siteNotFoundFile = Some False \<longrightarrow> fs_Read (FS tree) siteNotFoundFile \<noteq> None"
proof (rule writeContent.raw_induct [OF _ assms, of "\<lambda>h r t tree name st w y. name = siteNotFoundFile \<longrightarrow>
    fs_Stat (FS tree) siteNotFoundFile = Some False \<longrightarrow> fs_Read (FS tree) siteNotFoundFile \<noteq> None"], intro impI notI)
  fix wc h r t tree name st w y
  assume ih: "\<And>h r t tree name st w y. wc h r t tree name st w = Some y \<Longrightarrow> name = siteNotFoundFile \<longrightarrow>
      fs_Stat (FS tree) siteNotFoundFile = Some False \<longrightarrow> fs_Read (FS tree) siteNotFoundFile \<noteq> None"
    and body: "(let w1 = file_headers h name w in
      case fs_Read (FS tree) name of
        None \<Rightarrow>
          if fs_Stat (FS tree) siteNotFoundFile = Some False then wc h r t tree siteNotFoundFile 404 w1
          else Some (writeError h r 404 (IsPreview t) w1)
      | Some content \<Rightarrow> Some (file_body h r t tree name st content w1)) = Some y"
    and n: "name = siteNotFoundFile" "fs_Stat (FS tree) siteNotFoundFile = Some False" "fs_Read (FS tree) siteNotFoundFile = None"
  have "wc h r t tree siteNotFoundFile 404 (file_headers h siteNotFoundFile w) = Some y"
    using body n by (simp add: Let_def)
  then show False using ih n by blast
qed

lemma writeContent_stuck:
  assumes "fs_Read (FS tree) siteNotFoundFile = None" and "fs_Stat (FS tree) siteNotFoundFile = Some False"
  shows "writeContent h r t tree siteNotFoundFile st w = None"
  using writeContent_returns [of h r t tree siteNotFoundFile st w] assms
  by (cases "writeContent h r t tree siteNotFoundFile st w") auto

text \<open>The mutual recursion is at most two levels deep, or it does not end.\<close>

lemma writeContent_eq:
  "writeContent h r t tree name status w =
     (let w1 = file_headers h name w in
      case fs_Read (FS tree) name of
        Some content \<Rightarrow> Some (file_body h r t tree name status content w1)
      | None \<Rightarrow>
          if fs_Stat (FS tree) siteNotFoundFile = Some False then
            map_option (\<lambda>content. file_body h r t tree siteNotFoundFile 404 content (file_headers h siteNotFoundFile w1))
              (fs_Read (FS tree) siteNotFoundFile)
          else Some (writeError h r 404 (IsPreview t) w1))"
proof -
  have "writeContent h r t tree siteNotFoundFile 404 w' =
      map_option (\<lambda>content. file_body h r t tree siteNotFoundFile 404 content (file_headers h siteNotFoundFile w'))
        (fs_Read (FS tree) siteNotFoundFile)"
    if stat: "fs_Stat (FS tree) siteNotFoundFile = Some False" for w'
  proof (cases "fs_Read (FS tree) siteNotFoundFile")
    case None
    then show ?thesis using writeContent_stuck [OF None stat] by simp
  next
    case (Some content)
    then show ?thesis by (subst writeContent.simps) (simp add: Let_def)
  qed
  then show ?thesis by (subst writeContent.simps) (cases "fs_Read (FS tree) name"; simp add: Let_def)
qed

lemma writeNotFound_eq:
  "writeNotFound h r t tree w =
     (if fs_Stat (FS tree) siteNotFoundFile = Some False then
        map_option (\<lambda>content. file_body h r t tree siteNotFoundFile 404 content (file_headers h siteNotFoundFile w))
          (fs_Read (FS tree) siteNotFoundFile)
      else Some (writeError h r 404 (IsPreview t) w))"
  by (simp add: writeNotFound_def writeContent_eq Let_def split: option.splits)

lemma unprotected:
  "''Content-Type'' \<notin> set protected_headers" "''Content-Disposition'' \<notin> set protected_headers"
  "''Cache-Control'' \<notin> set protected_headers" "''Last-Modified'' \<notin> set protected_headers"
  "''ETag'' \<notin> set protected_headers" "''Location'' \<notin> set protected_headers" "''Allow'' \<notin> set protected_headers"
  by (simp_all add: protected_headers_def)

lemmas hardened_intros = unprotected [THEN hardened_set] hardened_apply

lemma hardened_writeError:
  "set (map fst (ExtraHeaders (h_sec h))) \<inter> set protected_headers = {} \<Longrightarrow> hardened (h_sec h) (writeError h r st p w)"
  by (simp add: writeError_def Let_def hardened_intros)

lemma hardened_moved:
  "set (map fst (ExtraHeaders (h_sec h))) \<inter> set protected_headers = {} \<Longrightarrow> hardened (h_sec h) (moved h loc w)"
  by (simp add: moved_def hardened_intros)

lemma hardened_redirect: "hardened c w \<Longrightarrow> hardened c (http_redirect r url code w)"
  by (simp add: http_redirect_def Let_def hardened_intros)

lemma hardened_file_headers:
  "set (map fst (ExtraHeaders (h_sec h))) \<inter> set protected_headers = {} \<Longrightarrow> hardened (h_sec h) (file_headers h name w)"
  by (simp add: file_headers_def Let_def hardened_intros)

lemma hardened_file_body:
  assumes "keeps_protected (h_ServeContent h)" and "hardened (h_sec h) w"
  shows "hardened (h_sec h) (file_body h r t tree name st content w)"
proof -
  obtain body tr where b: "(if has_prefix (contentTypeForName name) ''text/html''
      then maybeInjectBaseHref content t (baseHrefEnabled (h_cache h)) else (content, False)) = (body, tr)" by fastforce
  have w1: "hardened (h_sec h) (applyCacheHeaders h t tree b1 b2 w)" for b1 b2
    using assms(2) by (simp add: applyCacheHeaders_def hardened_intros)
  show ?thesis unfolding file_body_def Let_def b prod.case
    using w1 hardened_serve [OF assms(1)] by (simp add: hardened_intros)
qed

lemma hardened_content:
  assumes "set (map fst (ExtraHeaders (h_sec h))) \<inter> set protected_headers = {}" and "keeps_protected (h_ServeContent h)"
  shows "writeContent h r t tree name st w = Some w' \<Longrightarrow> hardened (h_sec h) w'"
    and "writeNotFound h r t tree w = Some w' \<Longrightarrow> hardened (h_sec h) w'"
  unfolding writeContent_eq writeNotFound_eq Let_def
  by (auto split: option.splits if_splits intro!: hardened_file_body hardened_file_headers hardened_writeError assms)

lemma hardened_serveFile:
  assumes "set (map fst (ExtraHeaders (h_sec h))) \<inter> set protected_headers = {}" and "keeps_protected (h_ServeContent h)"
    and "serveFile h r t tree w = Some w'"
  shows "hardened (h_sec h) w'"
  using assms(3) unfolding serveFile_def Let_def
  by (auto simp: redirectTrailingSlash_def split: option.splits resolved_file.splits
      dest: hardened_content [OF assms(1,2)] intro: hardened_moved [OF assms(1)])

section \<open>The names that are opened\<close>

lemma cleanRequestPath_Some:
  assumes "cleanRequestPath p = Some c"
  obtains ws where "list_all plain_seg ws" "''.git'' \<notin> set ws"
    "c = slash # join_with [slash] ws \<or> ws \<noteq> [] \<and> c = slash # join_with [slash] ws @ [slash]"
proof -
  define ws where "ws = clean_segs True (split_on slash (slash # p))"
  have plain: "list_all plain_seg ws" unfolding ws_def by (rule clean_segs_rooted_plain) (rule split_on_no_sep)
  have c0: "path_clean (slash # p) = slash # join_with [slash] ws" by (simp add: path_clean_def ws_def)
  have c: "c = slash # join_with [slash] ws \<or> ws \<noteq> [] \<and> c = slash # join_with [slash] ws @ [slash]"
    using assms by (cases ws) (auto simp: cleanRequestPath_def c0 Let_def split: if_splits)
  have "''.git'' \<notin> set (split_on slash c)"
    using assms by (auto simp: cleanRequestPath_def Let_def list_ex_iff split: if_splits)
  moreover have "ws \<noteq> [] \<Longrightarrow> set ws \<subseteq> set (split_on slash c)"
  proof -
    assume ne: "ws \<noteq> []"
    have sp: "split_on slash (join_with [slash] ws) = ws"
      using ne plain by (intro join_split) (auto simp: list_all_iff plain_seg_def)
    show "set ws \<subseteq> set (split_on slash c)" using c sp by (auto simp: split_on_append)
  qed
  ultimately have "''.git'' \<notin> set ws" by (cases ws) auto
  then show ?thesis using that plain c by blast
qed

lemma resolveTarget_name:
  assumes c: "cleanRequestPath p = Some c" and n: "resolveTarget fsys c = ServeName name"
  shows "fs_Stat fsys name = Some False \<and>
    (\<forall>seg \<in> set (split_on slash name). plain_seg seg \<and> seg \<noteq> ''.git'')"
proof -
  obtain ws where ws: "list_all plain_seg ws" "''.git'' \<notin> set ws"
    and c: "c = slash # join_with [slash] ws \<or> ws \<noteq> [] \<and> c = slash # join_with [slash] ws @ [slash]"
    by (rule cleanRequestPath_Some [OF c])
  have idx: "split_on slash indexFile = [indexFile]" "plain_seg indexFile" "indexFile \<noteq> ''.git''" by code_simp+
  show ?thesis
  proof (cases "ws = []")
    case True
    then have "c = [slash]" using c by simp
    then show ?thesis using n idx by (auto simp: resolveTarget_def Let_def split: if_splits)
  next
    case False
    let ?j = "join_with [slash] ws"
    have sp: "split_on slash ?j = ws" using False ws by (intro join_split) (auto simp: list_all_iff plain_seg_def)
    then have ne: "?j \<noteq> []" using ws(1) False by (cases ws) auto
    have nosuf: "\<not> has_suffix ?j [slash]"
    proof
      assume "has_suffix ?j [slash]"
      then obtain x where "?j = x @ slash # []" by (auto simp: has_suffix_iff)
      then have "[] \<in> set ws" using sp split_on_append [of slash x "[]"] by auto
      then show False using ws(1) by (auto simp: list_all_iff)
    qed
    have trim: "trim_suffix (?j @ [slash]) [slash] = ?j" "trim_suffix ?j [slash] = ?j"
      using nosuf trim_suffix_append [of ?j "[slash]"] by (simp_all add: trim_suffix_def)
    have cases: "name = ?j \<or> name = ?j @ slash # indexFile" and st: "fs_Stat fsys name = Some False"
      using c n ne trim nosuf
      by (auto simp: resolveTarget_def Let_def trim_prefix_def split: if_splits option.splits bool.splits)
    show ?thesis using cases st sp ws idx by (auto simp: split_on_append list_all_iff)
  qed
qed

section \<open>Redirects\<close>

lemma clean_rooted_not_double: "has_prefix p [slash] \<Longrightarrow> has_prefix (path_clean p @ x) [slash] \<and>
  (has_prefix (path_clean p @ x) [slash, slash] \<longrightarrow> path_clean p = [slash] \<and> has_prefix x [slash])"
proof -
  assume p: "has_prefix p [slash]"
  define ws where "ws = clean_segs True (split_on slash p)"
  have plain: "list_all plain_seg ws" unfolding ws_def by (rule clean_segs_rooted_plain) (rule split_on_no_sep)
  have c: "path_clean p = slash # join_with [slash] ws" using p by (simp add: path_clean_def ws_def)
  show ?thesis
  proof (cases ws)
    case Nil
    then show ?thesis using c by simp
  next
    case (Cons w rest)
    then obtain a u where "w = a # u" "a \<noteq> slash" using plain by (cases w) (auto simp: plain_seg_def)
    then show ?thesis using c Cons by (cases rest) auto
  qed
qed

lemma stripGrantParam_base:
  assumes "CHR ''?'' \<notin> set b"
  shows "stripGrantParam b = b" and "stripGrantParam (b @ CHR ''?'' # q) = b \<or> (\<exists>q'. stripGrantParam (b @ CHR ''?'' # q) = b @ CHR ''?'' # q')"
proof -
  have "index_byte b CHR ''?'' = None" using assms by simp
  then show "stripGrantParam b = b" by (simp only: stripGrantParam_def option.case)
  show "stripGrantParam (b @ CHR ''?'' # q) = b \<or> (\<exists>q'. stripGrantParam (b @ CHR ''?'' # q) = b @ CHR ''?'' # q')"
    using index_byte_append [OF assms, of q] by (simp add: stripGrantParam_def Let_def)
qed

lemma stripGrantParam_shape:
  assumes "CHR ''?'' \<notin> set path" and "path \<noteq> []"
  shows "stripGrantParam (request_uri path r) = path \<or> (\<exists>q. stripGrantParam (request_uri path r) = path @ CHR ''?'' # q)"
  using stripGrantParam_base [OF assms(1)] assms(2) by (cases "raw_query r = []") (simp_all add: request_uri_def)

lemma names_authority_query:
  "CHR ''?'' \<notin> set path \<Longrightarrow> path \<noteq> [] \<Longrightarrow> names_authority (path @ CHR ''?'' # q) = names_authority path"
  by (cases path rule: remdups_adj.cases) (auto simp: names_authority_def split: list.splits)

section \<open>Caching of previews\<close>

text \<open>
  Relied on from \<open>http.ServeContent\<close>: it sets neither an \<open>ETag\<close> nor a \<open>Cache-Control\<close> header
  (an error answer of its own may drop them).
\<close>

definition keeps_caching :: "(http_request \<Rightarrow> int \<Rightarrow> string \<Rightarrow> writer_state \<Rightarrow> writer_state) \<Rightarrow> bool" where
  "keeps_caching sc \<longleftrightarrow> (\<forall>r m b w. \<forall>k \<in> {''ETag'', ''Cache-Control''}. w_header (sc r m b w) k \<in> {None, w_header w k})"

definition unshared :: "writer_state \<Rightarrow> bool" where
  "unshared w \<longleftrightarrow> w_header w ''ETag'' = None \<and> w_header w ''Cache-Control'' \<in> {None, Some previewCacheControl}"

lemma unshared_set:
  "unshared w \<Longrightarrow> k \<noteq> ''ETag'' \<Longrightarrow> k \<noteq> ''Cache-Control'' \<or> v = previewCacheControl \<Longrightarrow> unshared (header_set k v w)"
  by (auto simp: unshared_def)

lemma unshared_write [simp]: "unshared (write_header s w) = unshared w" "unshared (write_body b w) = unshared w"
  "unshared (add_cookie ck w) = unshared w"
  by (simp_all add: unshared_def add_cookie_def split: option.splits)

lemma unshared_apply:
  assumes "set (map fst (ExtraHeaders c)) \<inter> {''ETag'', ''Cache-Control''} = {}" and "unshared w"
  shows "unshared (applySecurityHeaders c svg w)"
proof -
  have "map_of (rev (fixed_headers c svg @ ExtraHeaders c)) k = None" if k: "k \<in> {''ETag'', ''Cache-Control''}" for k
  proof -
    have "k \<notin> set protected_headers" using k unprotected(3,5) by blast
    then have "k \<notin> set (map fst (fixed_headers c svg @ ExtraHeaders c))"
      unfolding map_append fixed_headers_names set_append using assms(1) k by blast
    then show ?thesis by (simp add: map_of_eq_None_iff)
  qed
  then have "w_header (applySecurityHeaders c svg w) k = w_header w k" if "k \<in> {''ETag'', ''Cache-Control''}" for k
    using that unfolding applySecurityHeaders_def foldl_header_set map_add_def [of "w_header w"] by (simp only: option.case)
  then show ?thesis using assms(2) by (simp add: unshared_def)
qed

lemma unshared_file:
  assumes ex: "set (map fst (ExtraHeaders (h_sec h))) \<inter> {''ETag'', ''Cache-Control''} = {}" and "keeps_caching (h_ServeContent h)"
    and "IsPreview t" and "unshared w"
  shows "unshared (file_headers h name w)" and "unshared (file_body h r t tree name st content w)"
    and "unshared (writeError h r st True w)" and "unshared (moved h loc w)"
proof -
  show "unshared (file_headers h name w)" "unshared (writeError h r st True w)" "unshared (moved h loc w)"
    using unshared_apply [OF ex assms(4)] by (simp_all add: file_headers_def writeError_def moved_def Let_def unshared_set)
  obtain body tr where b: "(if has_prefix (contentTypeForName name) ''text/html''
      then maybeInjectBaseHref content t (baseHrefEnabled (h_cache h)) else (content, False)) = (body, tr)" by fastforce
  have w1: "unshared (applyCacheHeaders h t tree b1 b2 w)" for b1 b2
    using assms(3,4) by (simp add: applyCacheHeaders_def cache_control_def unshared_set)
  have sc: "unshared (h_ServeContent h r m bd w2)" if "unshared w2" for m bd w2
    using assms(2) that by (auto simp: keeps_caching_def unshared_def) (metis option.distinct(1) option.inject)+
  show "unshared (file_body h r t tree name st content w)"
    unfolding file_body_def Let_def b prod.case using w1 sc assms(3) by simp
qed

lemma unshared_serveFile:
  assumes "set (map fst (ExtraHeaders (h_sec h))) \<inter> {''ETag'', ''Cache-Control''} = {}" and "keeps_caching (h_ServeContent h)"
    and "IsPreview t" and "unshared w" and "serveFile h r t tree w = Some w'"
  shows "unshared w'"
  using assms(5) unshared_file [OF assms(1-3)] assms(3,4) unfolding serveFile_def writeContent_eq writeNotFound_eq Let_def
  by (auto simp: redirectTrailingSlash_def split: option.splits resolved_file.splits if_splits)

section \<open>A small handler to instantiate the properties on\<close>

definition example_fs :: serve_fs where
  "example_fs = \<lparr> fs_Stat = (\<lambda>n. if n = ''index.html'' \<or> n = ''404.html'' then Some False else None),
     fs_Read = (\<lambda>n. if n = ''index.html'' then Some ''hi'' else None) \<rparr>"

definition example_tree :: tree_handle where
  "example_tree = \<lparr> FS = example_fs, tree_CommitSHA = hex40 1, tree_CommitTime = 0, tree_SiteID = ''s1'', tree_CacheVersion = 0, tree_Exists = True \<rparr>"

definition plain_serve :: "http_request \<Rightarrow> int \<Rightarrow> string \<Rightarrow> writer_state \<Rightarrow> writer_state" where
  "plain_serve r m body w = (if req_method r = ''HEAD'' then write_header 200 w else write_body body (write_header 200 w))"

definition example_handler :: Handler where
  "example_handler = NewHandler
     \<lparr> h_resolver = (\<lambda>r. if req_host r = ''live'' then Inr ((example_target)\<lparr> IsPreview := False, Branch := [] \<rparr>) else Inr example_target),
       h_trees = (\<lambda>t. Inr example_tree), h_authz = OpenPreviewAuthz, h_sec = zero_security,
       h_cache = \<lparr> AssetMaxAge = 0, DisableETag = False, ImmutableHint = False, DisableBaseHref = False \<rparr>,
       h_unauth = 0, h_controlHandler = None, h_tls = (\<lambda>r. True), h_ServeContent = plain_serve \<rparr> None"

lemma plain_serve_keeps: "keeps_protected plain_serve"
  by (simp add: keeps_protected_def plain_serve_def)

section \<open>Properties\<close>



text \<open>
  C34: When the handler returns. It answers every request as long as a site's \<open>404.html\<close> that
  can be seen can also be read; and when it can be seen but not read, a request for a missing
  file of that site, once let through, never returns.
\<close>

theorem handler_returns:
  "((\<forall>t tree. h_trees h t = Inr tree \<longrightarrow>
       fs_Stat (FS tree) siteNotFoundFile = Some False \<longrightarrow> fs_Read (FS tree) siteNotFoundFile \<noteq> None) \<longrightarrow>
      (\<exists>w'. ServeHTTP h r w = Some w')) \<and>
   (h_resolver h r = Inr t \<longrightarrow> \<not> IsControl t \<longrightarrow> \<not> IsPreview t \<longrightarrow> req_method r = ''GET'' \<longrightarrow> target.PathPrefix t = [] \<longrightarrow>
      h_trees h t = Inr tree \<longrightarrow> cleanRequestPath (url_path r) = Some c \<longrightarrow> resolveTarget (FS tree) c = NoFile \<longrightarrow>
      fs_Stat (FS tree) siteNotFoundFile = Some False \<longrightarrow> fs_Read (FS tree) siteNotFoundFile = None \<longrightarrow>
      ServeHTTP h r w = None)"
proof (intro conjI impI)
  assume ok: "\<forall>t tree. h_trees h t = Inr tree \<longrightarrow>
       fs_Stat (FS tree) siteNotFoundFile = Some False \<longrightarrow> fs_Read (FS tree) siteNotFoundFile \<noteq> None"
  have served: "serveFile h r t tree w1 \<noteq> None" if "h_trees h t = Inr tree" for t tree w1
    using ok that
    by (auto simp: serveFile_def writeContent_eq writeNotFound_eq Let_def split: option.splits resolved_file.splits)
  have "serveProject h r t w \<noteq> None" for t
    using served by (auto simp: serveProject_def Let_def split: sum.splits)
  then show "\<exists>w'. ServeHTTP h r w = Some w'"
    by (auto simp: ServeHTTP_def split: sum.splits option.splits)
next
  assume "h_resolver h r = Inr t" "\<not> IsControl t" "\<not> IsPreview t" "req_method r = ''GET''" "target.PathPrefix t = []"
    "h_trees h t = Inr tree" "cleanRequestPath (url_path r) = Some c" "resolveTarget (FS tree) c = NoFile"
    "fs_Stat (FS tree) siteNotFoundFile = Some False" "fs_Read (FS tree) siteNotFoundFile = None"
  then show "ServeHTTP h r w = None"
    by (simp add: ServeHTTP_def serveProject_def serveFile_def writeNotFound_eq)
qed

theorem handler_returns_witness:
  "ServeHTTP example_handler (get_request ''live'' ''/missing'') new_writer = None"
proof -
  have h: "h_resolver example_handler (get_request ''live'' ''/missing'') = Inr (example_target\<lparr> IsPreview := False, Branch := [] \<rparr>)"
      "h_trees example_handler t = Inr example_tree" for t
    by (simp_all add: example_handler_def NewHandler_def get_request_def)
  have c: "cleanRequestPath (url_path (get_request ''live'' ''/missing'')) = Some ''/missing''" by code_simp
  have f: "resolveTarget (FS example_tree) ''/missing'' = NoFile" by code_simp
  have s: "fs_Stat (FS example_tree) siteNotFoundFile = Some False" "fs_Read (FS example_tree) siteNotFoundFile = None"
    by (simp_all add: example_tree_def example_fs_def siteNotFoundFile_def)
  show ?thesis
    using handler_returns [THEN conjunct2, rule_format, OF h(1) _ _ _ _ h(2) c f s]
    by (simp add: example_target_def get_request_def)
qed

text \<open>
  Previews stay private. An unauthorised request for a preview gets the configured error
  page, the same whatever the tree holds; and an answer to an authorised one never carries an
  \<open>ETag\<close> or a cache directive other than \<open>private, no-store\<close>.
\<close>

theorem preview_private:
  assumes "h_resolver h r = Inr t" and "IsPreview t" and "\<not> IsControl t" and "req_method r = ''GET'' \<or> req_method r = ''HEAD''"
    and "h_trees h t = Inr tree"
    and "set (map fst (ExtraHeaders (h_sec h))) \<inter> {''ETag'', ''Cache-Control''} = {}" and "keeps_caching (h_ServeContent h)"
  shows "(\<forall>e. h_authz h t r (tree_SiteID tree) = Inl e \<longrightarrow>
      ServeHTTP h r new_writer = Some (writeError h r (h_unauth h) True new_writer)) \<and>
    (\<forall>w. ServeHTTP h r new_writer = Some w \<longrightarrow>
      w_header w ''ETag'' = None \<and> w_header w ''Cache-Control'' \<in> {None, Some ''private, no-store''})"
proof -
  have p: "ServeHTTP h r new_writer = serveProject h r t new_writer"
    using assms(1,3,4) by (auto simp: ServeHTTP_def)
  have new: "unshared new_writer" by (simp add: unshared_def new_writer_def)
  have "unshared w" if "serveProject h r t new_writer = Some w" for w
  proof (cases "h_authz h t r (tree_SiteID tree)")
    case (Inl e)
    then show ?thesis using that assms(2,5) unshared_file(3) [OF assms(6,7,2) new] by (auto simp: serveProject_def)
  next
    case (Inr action)
    have a: "unshared (add_cookie (SetCookie action) new_writer)" using new by simp
    show ?thesis
    proof (cases "RedirectTo action = []")
      case True
      then show ?thesis using that Inr assms(2,5) unshared_serveFile [OF assms(6,7,2) a] by (simp add: serveProject_def Let_def)
    next
      case False
      have "unshared (header_set ''Cache-Control'' previewCacheControl (applySecurityHeaders (h_sec h) False (add_cookie (SetCookie action) new_writer)))"
        using unshared_apply [OF assms(6) a] by (simp add: unshared_set)
      then have "unshared (http_redirect r url c (header_set ''Cache-Control'' previewCacheControl
          (applySecurityHeaders (h_sec h) False (add_cookie (SetCookie action) new_writer))))" for url c
        by (simp add: http_redirect_def Let_def unshared_set)
      then show ?thesis using that Inr False assms(2,5) by (auto simp: serveProject_def Let_def)
    qed
  qed
  then show ?thesis unfolding p using assms(2,5) by (auto simp: serveProject_def unshared_def previewCacheControl_def)
qed

theorem preview_private_witness:
  "w_status (the (ServeHTTP example_handler (get_request ''h'' ''/'') new_writer)) = Some 404"
proof -
  let ?r = "get_request ''h'' ''/''"
  have h: "h_resolver example_handler ?r = Inr example_target" "IsPreview example_target" "\<not> IsControl example_target"
      "req_method ?r = ''GET'' \<or> req_method ?r = ''HEAD''" "h_trees example_handler example_target = Inr example_tree"
      "set (map fst (ExtraHeaders (h_sec example_handler))) \<inter> {''ETag'', ''Cache-Control''} = {}"
      "keeps_caching (h_ServeContent example_handler)" "h_authz example_handler = DenyPreviewAuthz" "h_unauth example_handler = 404"
    by (simp_all add: example_handler_def NewHandler_def get_request_def example_target_def DefaultSecurityHeaderConfig_def zero_security_def
        sec_normalize_def Let_def keeps_caching_def plain_serve_def defaultPreviewUnauthStatus_def)
  have "ServeHTTP example_handler ?r new_writer = Some (writeError example_handler ?r 404 True new_writer)"
    using preview_private [OF h(1-7)] h(8,9) by (simp add: DenyPreviewAuthz_def)
  moreover have "w_status (writeError hd ?r 404 True new_writer) = Some 404" for hd
  proof -
    have "w_status (foldl (\<lambda>w (k, v). header_set k v w) w kvs) = w_status w" for w kvs
      by (induction kvs arbitrary: w) (auto simp: header_set_def)
    then show ?thesis
      by (simp add: writeError_def Let_def applySecurityHeaders_def header_set_def write_header_def write_body_def new_writer_def)
  qed
  ultimately show ?thesis by simp
qed

text \<open>
  The file the handler serves for a request path is an existing regular file of the tree
  whose name has no empty, ".", ".." or ".git" element: nothing outside the tree and nothing
  of the repository's own data is opened, whatever the path.
\<close>

theorem served_name_contained:
  assumes "cleanRequestPath p = Some c" and "resolveTarget fsys c = ServeName name"
  shows "fs_Stat fsys name = Some False \<and> (\<forall>seg \<in> set (split_on slash name). plain_seg seg \<and> seg \<noteq> ''.git'')"
  by (rule resolveTarget_name [OF assms])

theorem served_name_contained_witness: "fs_Stat example_fs ''index.html'' = Some False"
proof -
  have "cleanRequestPath ''/a/../../'' = Some ''/''" "resolveTarget example_fs ''/'' = ServeName ''index.html''" by code_simp+
  then show ?thesis using served_name_contained by blast
qed

text \<open>
  Where the redirect after a grant exchange leads. For a request path without a query
  mark, the \<open>Location\<close> stays on the host exactly when the path does not begin with two
  slashes followed by a name: such a path is sent back as it is and names another host.
\<close>

theorem preview_redirect_origin:
  assumes "has_prefix path ''/''" and "CHR ''?'' \<notin> set path"
  shows "has_prefix (redirect_target old (stripGrantParam (request_uri path r))) ''/'' \<and>
    (has_prefix (redirect_target old (stripGrantParam (request_uri path r))) ''//'' \<longleftrightarrow> names_authority path)"
proof -
  have ne: "path \<noteq> []" using assms(1) by auto
  let ?url = "stripGrantParam (request_uri path r)"
  obtain q where url: "?url = path @ q" and q: "q = [] \<or> (\<exists>q'. q = CHR ''?'' # q')"
    using stripGrantParam_shape [OF assms(2) ne, of r] by auto
  have na: "names_authority ?url = names_authority path"
    using q url names_authority_query [OF assms(2) ne] by auto
  show ?thesis
  proof (cases "names_authority path")
    case True
    then have "redirect_target old ?url = path @ q" using na url by (simp add: redirect_target_def)
    moreover have "has_prefix path ''//''" using True by (simp add: names_authority_def)
    ultimately show ?thesis using True by (auto simp: has_prefix_iff)
  next
    case False
    have i: "(case index_byte (path @ q) CHR ''?'' of Some i \<Rightarrow> i | None \<Rightarrow> length (path @ q)) = length path"
    proof (cases "q = []")
      case True
      have "index_byte path CHR ''?'' = None" using assms(2) by simp
      then show ?thesis unfolding True append_Nil2 by (simp only: option.case)
    next
      case False
      then show ?thesis using q index_byte_append [OF assms(2)] by auto
    qed
    have hp: "has_prefix (path @ q) ''/''" using assms(1) by (auto simp: has_prefix_iff)
    define tail where "tail = (if has_suffix path ''/'' \<and> \<not> has_suffix (path_clean path) ''/'' then ''/'' else []) @ q"
    have rt: "redirect_target old ?url = path_clean path @ tail"
      using False na hp i by (simp add: redirect_target_def url Let_def tail_def)
    have "\<not> (path_clean path = [slash] \<and> has_prefix tail [slash])"
      using q by (auto simp: tail_def has_suffix_iff)
    then show ?thesis using clean_rooted_not_double [of path tail] assms(1) rt False by auto
  qed
qed

theorem preview_redirect_origin_witness:
  "has_prefix (redirect_target ''//evil.example/x'' (stripGrantParam (request_uri ''//evil.example/x'' (get_request ''h'' ''//evil.example/x'')))) ''//''"
proof -
  have "names_authority ''//evil.example/x''" by code_simp
  then show ?thesis using preview_redirect_origin [of "''//evil.example/x''"] by simp
qed

end
