(* ===== verification/Interaction.thy ===== *)
theory Interaction
  imports Kotoji_Prelude
begin

text \<open>
  Programs that talk to their environment. The parts of the backend that run other programs, use
  the file system or query a store are modelled as such programs: a program is either finished
  or issues one request and continues with the answer; what the environment answers is left
  open. A property of a program is stated for all answers that the environment may give, with
  a monitor that follows the requests and answers seen so far.
\<close>

section \<open>Programs\<close>

datatype ('r, 'n, 'a) proc = Ret 'a | Do 'r "'n \<Rightarrow> ('r, 'n, 'a) proc"

primrec bind :: "('r, 'n, 'a) proc \<Rightarrow> ('a \<Rightarrow> ('r, 'n, 'b) proc) \<Rightarrow> ('r, 'n, 'b) proc" where
  "bind (Ret x) f = f x"
| "bind (Do r k) f = Do r (\<lambda>a. bind (k a) f)"

lemma bind_Ret [simp]: "bind p Ret = p"
  by (induction p) auto

lemma bind_assoc: "bind (bind p f) g = bind p (\<lambda>x. bind (f x) g)"
  by (induction p) auto

section \<open>Properties of all runs\<close>

text \<open>
  \<open>wp P st A Q s p\<close>: from monitor state \<open>s\<close>, whatever the environment answers within \<open>A\<close>, every
  request of \<open>p\<close> satisfies \<open>P\<close> in the monitor state at that time, and the result satisfies \<open>Q\<close>
  in the last one. The monitor moves by \<open>st\<close> on each request and its answer.
\<close>

primrec wp :: "('s \<Rightarrow> 'r \<Rightarrow> bool) \<Rightarrow> ('s \<Rightarrow> 'r \<Rightarrow> 'n \<Rightarrow> 's) \<Rightarrow> ('r \<Rightarrow> 'n \<Rightarrow> bool) \<Rightarrow>
    ('s \<Rightarrow> 'a \<Rightarrow> bool) \<Rightarrow> 's \<Rightarrow> ('r, 'n, 'a) proc \<Rightarrow> bool" where
  "wp P st A Q s (Ret x) = Q s x"
| "wp P st A Q s (Do r k) = (P s r \<and> (\<forall>a. A r a \<longrightarrow> wp P st A Q (st s r a) (k a)))"

lemma wp_bind: "wp P st A Q s (bind p f) = wp P st A (\<lambda>s' x. wp P st A Q s' (f x)) s p"
  by (induction p arbitrary: s) auto

lemma wp_mono: "wp P st A Q s p \<Longrightarrow> (\<And>s' x. Q s' x \<Longrightarrow> Q' s' x) \<Longrightarrow> wp P st A Q' s p"
  by (induction p arbitrary: s) auto

lemma wp_bindI:
  assumes "wp P st A R s p" and "\<And>s' x. R s' x \<Longrightarrow> wp P st A Q s' (f x)"
  shows "wp P st A Q s (bind p f)"
  unfolding wp_bind using assms by (rule wp_mono)

section \<open>Properties of all requests\<close>

text \<open>The case without a monitor: every request satisfies \<open>P\<close>, the result \<open>Q\<close>.\<close>

primrec safe :: "('r \<Rightarrow> 'n \<Rightarrow> bool) \<Rightarrow> ('r \<Rightarrow> bool) \<Rightarrow> ('a \<Rightarrow> bool) \<Rightarrow> ('r, 'n, 'a) proc \<Rightarrow> bool" where
  "safe A P Q (Ret x) = Q x"
| "safe A P Q (Do r k) = (P r \<and> (\<forall>a. A r a \<longrightarrow> safe A P Q (k a)))"

named_theorems safe_intro \<open>rules that decompose a program\<close>

lemma safe_mono: "safe A P Q p \<Longrightarrow> (\<And>x. Q x \<Longrightarrow> Q' x) \<Longrightarrow> safe A P Q' p"
  by (induction p) auto

lemma safe_weaken: "safe A P Q p \<Longrightarrow> (\<And>r. P r \<Longrightarrow> P' r) \<Longrightarrow> safe A P' Q p"
  by (induction p) auto

lemma safe_bind: "safe A P Q (bind p f) = safe A P (\<lambda>x. safe A P Q (f x)) p"
  by (induction p) auto

lemma safe_bindI:
  assumes "safe A P R p" and "\<And>x. R x \<Longrightarrow> safe A P Q (f x)"
  shows "safe A P Q (bind p f)"
  unfolding safe_bind using assms by (rule safe_mono)

lemma safe_then:
  "safe A P (\<lambda>_. True) p \<Longrightarrow> (\<And>x. safe A P Q (f x)) \<Longrightarrow> safe A P Q (bind p f)"
  by (rule safe_bindI)

text \<open>Where nothing is said of the results.\<close>

lemma safe_seq [safe_intro]:
  "safe A P (\<lambda>_. True) p \<Longrightarrow> (\<And>x. safe A P (\<lambda>_. True) (f x)) \<Longrightarrow> safe A P (\<lambda>_. True) (bind p f)"
  by (rule safe_bindI)

lemma safe_Ret [safe_intro]: "safe A P (\<lambda>_. True) (Ret x)"
  by simp

lemma safe_bool [safe_intro]:
  "(r \<Longrightarrow> safe A P Q p) \<Longrightarrow> (\<not> r \<Longrightarrow> safe A P Q q) \<Longrightarrow> safe A P Q (case r of True \<Rightarrow> p | False \<Rightarrow> q)"
  by (cases r) auto

lemma safe_if [safe_intro]: "(b \<Longrightarrow> safe A P Q p) \<Longrightarrow> (\<not> b \<Longrightarrow> safe A P Q q) \<Longrightarrow> safe A P Q (if b then p else q)"
  by simp

lemma safe_sum [safe_intro]:
  "(\<And>e. r = Inl e \<Longrightarrow> safe A P Q (p e)) \<Longrightarrow> (\<And>x. r = Inr x \<Longrightarrow> safe A P Q (q x)) \<Longrightarrow>
   safe A P Q (case r of Inl e \<Rightarrow> p e | Inr x \<Rightarrow> q x)"
  by (cases r) auto

lemma safe_option [safe_intro]:
  "(r = None \<Longrightarrow> safe A P Q p) \<Longrightarrow> (\<And>x. r = Some x \<Longrightarrow> safe A P Q (q x)) \<Longrightarrow>
   safe A P Q (case r of None \<Rightarrow> p | Some x \<Rightarrow> q x)"
  by (cases r) auto

lemma safe_pair [safe_intro]: "(\<And>a b. x = (a, b) \<Longrightarrow> safe A P Q (p a b)) \<Longrightarrow> safe A P Q (case x of (a, b) \<Rightarrow> p a b)"
  by (cases x) auto

lemma safe_wp: "safe A P Q p \<longleftrightarrow> wp (\<lambda>_. P) (\<lambda>s r a. s) A (\<lambda>_. Q) s p"
  by (induction p) auto

section \<open>Runs against a concrete environment\<close>

primrec exec :: "('w \<Rightarrow> 'r \<Rightarrow> 'w \<times> 'n) \<Rightarrow> 'w \<Rightarrow> ('r, 'n, 'a) proc \<Rightarrow> 'w \<times> 'a" where
  "exec h w (Ret x) = (w, x)"
| "exec h w (Do r k) = exec h (fst (h w r)) (k (snd (h w r)))"

primrec trace :: "('w \<Rightarrow> 'r \<Rightarrow> 'w \<times> 'n) \<Rightarrow> 'w \<Rightarrow> ('r, 'n, 'a) proc \<Rightarrow> ('r \<times> 'n) list" where
  "trace h w (Ret x) = []"
| "trace h w (Do r k) = (r, snd (h w r)) # trace h (fst (h w r)) (k (snd (h w r)))"

lemma exec_bind: "exec h w (bind p f) = exec h (fst (exec h w p)) (f (snd (exec h w p)))"
  by (induction p arbitrary: w) simp_all

text \<open>\<open>ends h Q w p\<close>: the run of \<open>p\<close> from the world \<open>w\<close> ends in a world and with a result that satisfy \<open>Q\<close>.\<close>

definition ends :: "('w \<Rightarrow> 'r \<Rightarrow> 'w \<times> 'n) \<Rightarrow> ('w \<Rightarrow> 'a \<Rightarrow> bool) \<Rightarrow> 'w \<Rightarrow> ('r, 'n, 'a) proc \<Rightarrow> bool" where
  "ends h Q w p = (case exec h w p of (w', x) \<Rightarrow> Q w' x)"

lemma ends_Ret [simp]: "ends h Q w (Ret x) = Q w x"
  by (simp add: ends_def)

lemma ends_Do [simp]: "ends h Q w (Do r k) = ends h Q (fst (h w r)) (k (snd (h w r)))"
  by (simp add: ends_def)

lemma ends_bind: "ends h Q w (bind p f) = ends h (\<lambda>w' x. ends h Q w' (f x)) w p"
  by (simp add: ends_def exec_bind split: prod.split)

lemma ends_mono: "ends h Q w p \<Longrightarrow> (\<And>w' x. Q w' x \<Longrightarrow> Q' w' x) \<Longrightarrow> ends h Q' w p"
  by (simp add: ends_def split: prod.splits)

lemma ends_bindI:
  assumes "ends h R w p" and "\<And>w' x. R w' x \<Longrightarrow> ends h Q w' (f x)"
  shows "ends h Q w (bind p f)"
  unfolding ends_bind using assms by (rule ends_mono)

text \<open>Every request of a run passes the monitor, and its result the postcondition.\<close>

lemma wp_sound:
  assumes "wp P st A Q s p" and "\<And>w r. A r (snd (h w r))"
  shows "Q (foldl (\<lambda>s (r, a). st s r a) s (trace h w p)) (snd (exec h w p)) \<and>
    (\<forall>xs r a ys. trace h w p = xs @ (r, a) # ys \<longrightarrow> P (foldl (\<lambda>s (r, a). st s r a) s xs) r)"
  using assms(1)
proof (induction p arbitrary: s w)
  case (Ret x)
  then show ?case by simp
next
  case (Do r k)
  let ?a = "snd (h w r)" and ?w = "fst (h w r)"
  have "wp P st A Q (st s r ?a) (k ?a)" using Do.prems assms(2) by simp
  note IH = Do.IH [OF _ this, of ?w]
  show ?case
    using IH Do.prems by (auto simp: Cons_eq_append_conv)
qed

end
