(* ===== verification/Git_Prog.thy ===== *)
theory Git_Prog
  imports Site_Types Go_Time Interaction
begin

text \<open>
  The language in which the git-backed service (\<open>backend/internal/site/git_service.go\<close>) is
  modelled: the requests by which it runs the git program, calls the file system, the metadata
  store and the clock, and takes locks, and the answers to them.
\<close>

section \<open>Requests and answers\<close>

text \<open>
  A run of git ends well, with an exit status and the text on standard error, or because the
  context of the call is done (\<open>gitrunner.go\<close>).
\<close>

datatype git_fail = ExitStatus int string | ContextDone string

record StoreCreateSite =
  scs_Handle :: string
  scs_OwnerID :: uuid
  scs_Visibility :: string
  scs_PublishMode :: string
  scs_GitHubRepo :: "string option"
  scs_WebRoot :: string
  scs_Description :: string

datatype req =
    RGit (req_dir: string) (req_env: "string list") (req_args: "string list")
  | RMkdirAll string
  | RWriteFile string string
  | RRemoveAll string
  | RRename string string
  | RStat string
  | RReadFile string
  | RMkdirTemp string string
  | RReadDir string
  | RWalk string
  | ROpenFile string
  | RFlock string
  | RFunlock string
  | RLock uuid
  | RUnlock uuid
  | RRLock uuid
  | RRUnlock uuid
  | RClock
  | RMirrorEnabled
  | RMirrorToken
  | RGetSiteByID uuid
  | RGetSiteByHandle string
  | RGetSiteByRedirect string
  | RHandleIsTaken string
  | RCreateSiteWithOwner StoreCreateSite
  | RSoftDeleteSite uuid
  | RRenameHandleWithRedirect uuid string string
  | RListSitesForUser uuid int int
  | RSetPublished uuid "string option"
  | RSetSiteRemote uuid "string option"

text \<open>
  One entry that \<open>filepath.WalkDir\<close> would visit: its path, the error in reading it, whether it
  is a directory, and its size where \<open>Info\<close> gives one.
\<close>

record walk_entry =
  we_path :: string
  we_err :: "string option"
  we_dir :: bool
  we_size :: "int option"

datatype ans =
    AGit string "git_fail option"
  | ADone "string option"
  | AText "string + string"
  | ATexts "string + string list"
  | AWalk "walk_entry list"
  | ATime int
  | AFlag "string + bool"
  | ACreds string string
  | ARow "string + SiteRecord option"
  | ARows "string + SiteRecord list"

section \<open>Programs\<close>

type_synonym 'a prog = "(req, ans, 'a) proc"

text \<open>Programs with a Go error as one of their results: \<open>if err != nil { return err }\<close>.\<close>

type_synonym 'a io = "(site_error + 'a) prog"

definition throw :: "site_error \<Rightarrow> 'a io" where
  "throw e = Ret (Inl e)"

definition ok :: "'a \<Rightarrow> 'a io" where
  "ok x = Ret (Inr x)"

definition bindE :: "'a io \<Rightarrow> ('a \<Rightarrow> 'b io) \<Rightarrow> 'b io" where
  "bindE p f = bind p (\<lambda>r. case r of Inl e \<Rightarrow> Ret (Inl e) | Inr x \<Rightarrow> f x)"

definition check :: "site_error option \<Rightarrow> 'a io \<Rightarrow> 'a io" where
  "check e p = (case e of Some err \<Rightarrow> throw err | None \<Rightarrow> p)"

text \<open>One request each. An answer that does not fit the request does not occur; it reads as a failure.\<close>

definition do_git :: "string \<Rightarrow> string list \<Rightarrow> string list \<Rightarrow> (string \<times> git_fail option) prog" where
  "do_git dir env args =
     Do (RGit dir env args) (\<lambda>a. Ret (case a of AGit out f \<Rightarrow> (out, f) | _ \<Rightarrow> ([], Some (ExitStatus (- 1) []))))"

definition do_act :: "req \<Rightarrow> string option prog" where
  "do_act r = Do r (\<lambda>a. Ret (case a of ADone e \<Rightarrow> e | _ \<Rightarrow> Some []))"

definition do_text :: "req \<Rightarrow> (string + string) prog" where
  "do_text r = Do r (\<lambda>a. Ret (case a of AText x \<Rightarrow> x | _ \<Rightarrow> Inl []))"

definition do_texts :: "req \<Rightarrow> (string + string list) prog" where
  "do_texts r = Do r (\<lambda>a. Ret (case a of ATexts x \<Rightarrow> x | _ \<Rightarrow> Inl []))"

definition do_walk :: "string \<Rightarrow> walk_entry list prog" where
  "do_walk root = Do (RWalk root) (\<lambda>a. Ret (case a of AWalk es \<Rightarrow> es | _ \<Rightarrow> []))"

definition do_clock :: "int prog" where
  "do_clock = Do RClock (\<lambda>a. Ret (case a of ATime t \<Rightarrow> t | _ \<Rightarrow> 0))"

definition do_flag :: "req \<Rightarrow> (string + bool) prog" where
  "do_flag r = Do r (\<lambda>a. Ret (case a of AFlag x \<Rightarrow> x | _ \<Rightarrow> Inl []))"

definition do_creds :: "(string \<times> string) prog" where
  "do_creds = Do RMirrorToken (\<lambda>a. Ret (case a of ACreds t u \<Rightarrow> (t, u) | _ \<Rightarrow> ([], [])))"

definition do_row :: "req \<Rightarrow> (string + SiteRecord option) prog" where
  "do_row r = Do r (\<lambda>a. Ret (case a of ARow x \<Rightarrow> x | _ \<Rightarrow> Inl []))"

definition do_rows :: "req \<Rightarrow> (string + SiteRecord list) prog" where
  "do_rows r = Do r (\<lambda>a. Ret (case a of ARows x \<Rightarrow> x | _ \<Rightarrow> Inl []))"

definition do_unit :: "req \<Rightarrow> unit prog" where
  "do_unit r = Do r (\<lambda>a. Ret ())"

section \<open>Properties of programs with errors\<close>

lemma wp_bindE:
  "wp P st A Q s (bindE p f) =
     wp P st A (\<lambda>s' r. case r of Inl e \<Rightarrow> Q s' (Inl e) | Inr x \<Rightarrow> wp P st A Q s' (f x)) s p"
  unfolding bindE_def wp_bind by (intro arg_cong [of _ _ "\<lambda>q. wp P st A q s p"]) (auto simp: fun_eq_iff split: sum.splits)

lemma wp_throw [simp]: "wp P st A Q s (throw e) = Q s (Inl e)"
  by (simp add: throw_def)

lemma wp_ok [simp]: "wp P st A Q s (ok x) = Q s (Inr x)"
  by (simp add: ok_def)

lemma wp_check [simp]: "wp P st A Q s (check e p) = (case e of Some err \<Rightarrow> Q s (Inl err) | None \<Rightarrow> wp P st A Q s p)"
  by (simp add: check_def split: option.splits)

lemma safe_bindEI:
  assumes "safe A P (\<lambda>r. case r of Inl e \<Rightarrow> Q (Inl e) | Inr x \<Rightarrow> R x) p" and "\<And>x. R x \<Longrightarrow> safe A P Q (f x)"
  shows "safe A P Q (bindE p f)"
  unfolding bindE_def using assms(1) by (rule safe_bindI) (auto split: sum.splits intro: assms(2))

lemma safe_seqE [safe_intro]:
  "safe A P (\<lambda>_. True) p \<Longrightarrow> (\<And>x. safe A P (\<lambda>_. True) (f x)) \<Longrightarrow> safe A P (\<lambda>_. True) (bindE p f)"
  unfolding bindE_def by (erule safe_seq) (simp split: sum.splits)

lemma safe_throw [simp]: "safe A P Q (throw e) = Q (Inl e)"
  by (simp add: throw_def)

lemma safe_ok [simp]: "safe A P Q (ok x) = Q (Inr x)"
  by (simp add: ok_def)

lemma safe_ends [safe_intro]: "safe A P (\<lambda>_. True) (throw e)" "safe A P (\<lambda>_. True) (ok x)"
  by simp_all

lemma safe_check [safe_intro]: "(e = None \<Longrightarrow> safe A P (\<lambda>_. True) p) \<Longrightarrow> safe A P (\<lambda>_. True) (check e p)"
  by (simp add: check_def split: option.splits)

text \<open>The single requests, for a result of which nothing is said.\<close>

lemma safe_requests [safe_intro]:
  "P (RGit d e a) \<Longrightarrow> safe A P (\<lambda>_. True) (do_git d e a)"
  "P r \<Longrightarrow> safe A P (\<lambda>_. True) (do_act r)"
  "P r \<Longrightarrow> safe A P (\<lambda>_. True) (do_text r)"
  "P r \<Longrightarrow> safe A P (\<lambda>_. True) (do_texts r)"
  "P (RWalk root) \<Longrightarrow> safe A P (\<lambda>_. True) (do_walk root)"
  "P RClock \<Longrightarrow> safe A P (\<lambda>_. True) do_clock"
  "P r \<Longrightarrow> safe A P (\<lambda>_. True) (do_flag r)"
  "P RMirrorToken \<Longrightarrow> safe A P (\<lambda>_. True) do_creds"
  "P r \<Longrightarrow> safe A P (\<lambda>_. True) (do_row r)"
  "P r \<Longrightarrow> safe A P (\<lambda>_. True) (do_rows r)"
  "P r \<Longrightarrow> safe A P (\<lambda>_. True) (do_unit r)"
  by (simp_all add: do_git_def do_act_def do_text_def do_texts_def do_walk_def do_clock_def do_flag_def
      do_creds_def do_row_def do_rows_def do_unit_def)

end
