(* ===== verification/Git_Parse.thy ===== *)
theory Git_Parse
  imports Tree_Ops Go_Time
begin

text \<open>
  Reading what git prints (\<open>backend/internal/site/git_helpers.go\<close>): the log format and its
  parser, \<open>ls-tree\<close>, the two diff summaries and the unified patch.
\<close>

section \<open>String helpers\<close>

definition nl :: char where "nl = CHR 0x0A"
definition tab :: char where "tab = CHR 0x09"

text \<open>\<open>strings.SplitN\<close> for a positive count, and \<open>strings.Fields\<close>.\<close>

fun split_n :: "nat \<Rightarrow> char \<Rightarrow> string \<Rightarrow> string list" where
  "split_n 0 c s = []"
| "split_n (Suc 0) c s = [s]"
| "split_n (Suc (Suc n)) c s =
     (case index_byte s c of None \<Rightarrow> [s] | Some i \<Rightarrow> take i s # split_n (Suc n) c (drop (i + 1) s))"

definition go_fields :: "string \<Rightarrow> string list" where
  "go_fields s = filter (\<lambda>w. w \<noteq> []) (split_on CHR '' '' (map (\<lambda>c. if is_space c then CHR '' '' else c) s))"

text \<open>\<open>strings.LastIndex\<close>: the last position of a substring.\<close>

fun str_last_index :: "string \<Rightarrow> string \<Rightarrow> nat option" where
  "str_last_index [] p = (if p = [] then Some 0 else None)"
| "str_last_index (c # s) p =
     (case str_last_index s p of
        Some i \<Rightarrow> Some (Suc i)
      | None \<Rightarrow> if has_prefix (c # s) p then Some 0 else None)"

text \<open>The lines of an output without its last newlines.\<close>

definition output_lines :: "string \<Rightarrow> string list" where
  "output_lines out = filter (\<lambda>l. l \<noteq> []) (split_on nl (trim_right (\<lambda>c. c = nl) out))"

section \<open>The log\<close>

definition fieldSep :: char where "fieldSep = CHR 0x1F"
definition recordSep :: char where "recordSep = CHR 0x1E"

definition logFormat :: string where
  "logFormat = ''--pretty=format:%H'' @ [fieldSep] @ ''%h'' @ [fieldSep] @ ''%an'' @ [fieldSep] @
     ''%ae'' @ [fieldSep] @ ''%cI'' @ [fieldSep] @ ''%P'' @ [fieldSep] @ ''%B'' @ [recordSep]"

definition viaKey :: string where "viaKey = ''Kotoji-Via''"

definition viaTrailer :: "Actor \<Rightarrow> string" where
  "viaTrailer a = ''--trailer='' @ viaKey @ '': '' @ (if ac_Via a = [] then SourceSystem else ac_Via a)"

fun extract_via_lines :: "string list \<Rightarrow> string" where
  "extract_via_lines [] = []"
| "extract_via_lines (l # ls) =
     (let line = trim_space l in
      if has_prefix line (viaKey @ '':'') then trim_space (trim_prefix line (viaKey @ '':''))
      else extract_via_lines ls)"

definition extractVia :: "string \<Rightarrow> string" where
  "extractVia message = extract_via_lines (split_on nl message)"

definition parse_record :: "string \<Rightarrow> CommitInfo option" where
  "parse_record raw =
     (let r = trim_left (\<lambda>c. c = nl) raw in
      if trim_space r = [] then None
      else
        (case split_n 7 fieldSep r of
           [f0, f1, f2, f3, f4, f5, f6] \<Rightarrow>
             let msg = trim_right (\<lambda>c. c = nl) f6 in
             Some \<lparr> ci_SHA = trim_space f0, ci_ShortSHA = trim_space f1, ci_Message = msg,
                    ci_AuthorName = f2, ci_AuthorEmail = f3,
                    ci_Committed = (case parse_rfc3339 (trim_space f4) of Some t \<Rightarrow> t | None \<Rightarrow> zero_time),
                    ci_Parents = go_fields f5, ci_Via = extractVia msg \<rparr>
         | _ \<Rightarrow> None))"

definition parseLog :: "string \<Rightarrow> CommitInfo list" where
  "parseLog out = List.map_filter parse_record (split_on recordSep out)"

section \<open>The listing of a tree\<close>

definition parse_tree_line :: "string \<Rightarrow> FileEntry option" where
  "parse_tree_line line =
     (case index_byte line tab of
        None \<Rightarrow> None
      | Some t \<Rightarrow>
          let path = drop (t + 1) line; parts = go_fields (take t line) in
          if length parts < 3 then None
          else Some \<lparr> fe_Path = path, fe_Name = lastSegment path, fe_IsDir = (parts ! 1 = ''tree''),
                      fe_Size = (if 4 \<le> length parts \<and> parts ! 3 \<noteq> ''-'' then parse_int64_value (parts ! 3) else 0),
                      fe_Mode = parts ! 0 \<rparr>)"

definition parseLsTree :: "string \<Rightarrow> FileEntry list" where
  "parseLsTree out = List.map_filter parse_tree_line (output_lines out)"

section \<open>Diffs\<close>

definition new_diff :: "string \<Rightarrow> FileDiff" where
  "new_diff path = \<lparr> fd_Path = path, fd_OldPath = [], fd_Status = [], fd_Additions = 0, fd_Deletions = 0,
     fd_IsBinary = False, fd_UnifiedPatch = [] \<rparr>"

type_synonym diff_state = "(string, FileDiff) gomap \<times> string list"

definition numstat_line :: "diff_state \<Rightarrow> string \<Rightarrow> diff_state" where
  "numstat_line st line =
     (case split_n 3 tab line of
        [adds, dels, path] \<Rightarrow>
          let fd = (if adds = ''-'' \<and> dels = ''-'' then (new_diff path)\<lparr> fd_IsBinary := True \<rparr>
                    else (new_diff path)\<lparr> fd_Additions := parse_int64_value adds, fd_Deletions := parse_int64_value dels \<rparr>)
          in (gm_put path fd (fst st), snd st @ [path])
      | _ \<Rightarrow> st)"

text \<open>The path, the old path and the status of a line of \<open>--name-status\<close>.\<close>

definition status_fields :: "string \<Rightarrow> (string \<times> string \<times> string) option" where
  "status_fields line =
     (let fields = split_on tab line in
      if length fields < 2 then None
      else let code = fields ! 0 in
        if has_prefix code ''R'' then
          (if length fields < 3 then None else Some (fields ! 2, fields ! 1, ''renamed''))
        else if has_prefix code ''A'' then Some (fields ! 1, [], ''added'')
        else if has_prefix code ''D'' then Some (fields ! 1, [], ''deleted'')
        else Some (fields ! 1, [], ''modified''))"

definition status_line :: "diff_state \<Rightarrow> string \<Rightarrow> diff_state" where
  "status_line st line =
     (case status_fields line of
        None \<Rightarrow> st
      | Some (path, oldPath, status) \<Rightarrow>
          (case gm_get (fst st) path of
             Some fd \<Rightarrow> (gm_put path (fd\<lparr> fd_Status := status, fd_OldPath := oldPath \<rparr>) (fst st), snd st)
           | None \<Rightarrow>
               (gm_put path ((new_diff path)\<lparr> fd_Status := status, fd_OldPath := oldPath \<rparr>) (fst st), snd st @ [path])))"

definition first_occurrences :: "string list \<Rightarrow> string list" where
  "first_occurrences ps = rev (remdups (rev ps))"

definition mergeDiff :: "string \<Rightarrow> string \<Rightarrow> FileDiff list" where
  "mergeDiff numstat nameStatus =
     (let st = foldl status_line (foldl numstat_line ([], []) (output_lines numstat)) (output_lines nameStatus)
      in List.map_filter (gm_get (fst st)) (first_occurrences (snd st)))"

section \<open>Patches\<close>

definition parseDiffGitPath :: "string \<Rightarrow> string" where
  "parseDiffGitPath line =
     (case str_last_index line '' b/'' of Some i \<Rightarrow> drop (i + 3) line | None \<Rightarrow> [])"

text \<open>The state of the loop of \<open>splitUnified\<close>: the chunks so far, the current path and its text.\<close>

type_synonym unified_state = "(string, string) gomap \<times> string \<times> string"

definition flush_chunk :: "unified_state \<Rightarrow> unified_state" where
  "flush_chunk st =
     (case st of (out, curPath, cur) \<Rightarrow>
        (if curPath \<noteq> [] then gm_put curPath (trim_right (\<lambda>c. c = nl) cur) out else out, curPath, []))"

definition unified_line :: "unified_state \<Rightarrow> string \<Rightarrow> unified_state" where
  "unified_line st line =
     (let st' = (if has_prefix line ''diff --git ''
                 then (case flush_chunk st of (out, _, cur) \<Rightarrow> (out, parseDiffGitPath line, cur)) else st)
      in case st' of (out, curPath, cur) \<Rightarrow>
           if curPath \<noteq> [] then (out, curPath, cur @ line @ [nl]) else st')"

definition splitUnified :: "string \<Rightarrow> (string, string) gomap" where
  "splitUnified unified = fst (flush_chunk (foldl unified_line ([], [], []) (split_on nl unified)))"

definition attachPatches :: "FileDiff list \<Rightarrow> string \<Rightarrow> FileDiff list" where
  "attachPatches files unified =
     (let chunks = splitUnified unified in
      map (\<lambda>fd. case gm_get chunks (fd_Path fd) of Some patch \<Rightarrow> fd\<lparr> fd_UnifiedPatch := patch \<rparr> | None \<Rightarrow> fd) files)"

end
