(* ===== verification/Go_Url.thy ===== *)
theory Go_Url
  imports Go_Strconv
begin

text \<open>
  The part of \<open>net/url\<close> the modelled code uses: \<open>Parse\<close> with the checks that make it fail,
  \<open>Hostname\<close> and \<open>EscapedPath\<close>.
\<close>

section \<open>Escaping\<close>

datatype url_mode = EncodePath | EncodeHost | EncodeZone | EncodeUserPassword | EncodeFragment

definition is_alnum :: "char \<Rightarrow> bool" where
  "is_alnum c =
     (let n = (of_char c :: nat) in (97 \<le> n \<and> n \<le> 122) \<or> (65 \<le> n \<and> n \<le> 90) \<or> (48 \<le> n \<and> n \<le> 57))"

definition unhex :: "char \<Rightarrow> nat option" where
  "unhex c =
     (let n = (of_char c :: nat) in
      if 48 \<le> n \<and> n \<le> 57 then Some (n - 48)
      else if 97 \<le> n \<and> n \<le> 102 then Some (n - 87)
      else if 65 \<le> n \<and> n \<le> 70 then Some (n - 55) else None)"

definition shouldEscape :: "char \<Rightarrow> url_mode \<Rightarrow> bool" where
  "shouldEscape c mode =
     (if is_alnum c then False
      else if mode \<in> {EncodeHost, EncodeZone} \<and> c \<in> set ''!$&'' \<union> {CHR 0x27} \<union> set ''()*+,;=:[]<>'' \<union> {CHR 0x22} then False
      else if c \<in> set ''-_.~'' then False
      else if c \<in> set ''$&+,/:;=?@'' then
        (case mode of
           EncodePath \<Rightarrow> c = CHR ''?''
         | EncodeUserPassword \<Rightarrow> c \<in> set ''@/?:''
         | EncodeFragment \<Rightarrow> False
         | _ \<Rightarrow> True)
      else if mode = EncodeFragment \<and> c \<in> set ''!()*'' then False
      else True)"

text \<open>\<open>unescape\<close>: the decoded bytes, or \<open>None\<close> for a malformed escape or a byte a host may not have.\<close>

fun url_unescape :: "url_mode \<Rightarrow> string \<Rightarrow> string option" where
  "url_unescape mode [] = Some []"
| "url_unescape mode (c # s) =
     (if c = CHR ''%'' then
        (case s of
           a # b # rest \<Rightarrow>
             (case (unhex a, unhex b) of
                (Some x, Some y) \<Rightarrow>
                  if mode = EncodeHost \<and> x < 8 \<and> \<not> (a = CHR ''2'' \<and> b = CHR ''5'') then None
                  else if mode = EncodeZone \<and> \<not> (a = CHR ''2'' \<and> b = CHR ''5'') \<and> 16 * x + y \<noteq> 32 \<and>
                          shouldEscape (char_of (16 * x + y)) EncodeHost then None
                  else map_option (\<lambda>t. char_of (16 * x + y) # t) (url_unescape mode rest)
              | _ \<Rightarrow> None)
         | _ \<Rightarrow> None)
      else if mode \<in> {EncodeHost, EncodeZone} \<and> (of_char c :: nat) < 128 \<and> shouldEscape c mode then None
      else map_option (\<lambda>t. c # t) (url_unescape mode s))"

definition upper_hex :: "nat \<Rightarrow> char" where
  "upper_hex n = (if n < 10 then char_of (48 + n) else char_of (55 + n))"

definition url_escape :: "url_mode \<Rightarrow> string \<Rightarrow> string" where
  "url_escape mode s =
     concat (map (\<lambda>c. if shouldEscape c mode
                      then [CHR ''%'', upper_hex (of_char c div 16), upper_hex (of_char c mod 16)] else [c]) s)"

definition validEncoded :: "string \<Rightarrow> bool" where
  "validEncoded s =
     list_all (\<lambda>c. c \<in> set ''!$&'' \<union> {CHR 0x27} \<union> set ''()*+,;=:@[]%'' \<or> \<not> shouldEscape c EncodePath) s"

section \<open>Parsing\<close>

record url =
  url_Scheme :: string
  url_HasUser :: bool
  url_Host :: string
  url_Path :: string
  url_RawPath :: string

definition is_alpha :: "char \<Rightarrow> bool" where
  "is_alpha c = (let n = (of_char c :: nat) in (97 \<le> n \<and> n \<le> 122) \<or> (65 \<le> n \<and> n \<le> 90))"

text \<open>
  \<open>getScheme\<close>: the scheme and the rest. A leading colon is an error; a character that cannot be
  in a scheme means that there is none. The accumulator has the characters read so far.
\<close>

fun get_scheme :: "string \<Rightarrow> string \<Rightarrow> string \<Rightarrow> (string \<times> string) option" where
  "get_scheme raw acc [] = Some ([], raw)"
| "get_scheme raw acc (c # s) =
     (if is_alpha c then get_scheme raw (acc @ [c]) s
      else if is_digit c \<or> c \<in> set ''+-.'' then
        (if acc = [] then Some ([], raw) else get_scheme raw (acc @ [c]) s)
      else if c = CHR '':'' then (if acc = [] then None else Some (acc, s))
      else Some ([], raw))"

definition cut_at :: "char \<Rightarrow> string \<Rightarrow> string \<times> string" where
  "cut_at c s = (case index_byte s c of Some i \<Rightarrow> (take i s, drop (i + 1) s) | None \<Rightarrow> (s, []))"

definition validOptionalPort :: "string \<Rightarrow> bool" where
  "validOptionalPort port = (case port of [] \<Rightarrow> True | c # ds \<Rightarrow> c = CHR '':'' \<and> list_all is_digit ds)"

definition validUserinfo :: "string \<Rightarrow> bool" where
  "validUserinfo s =
     list_all (\<lambda>c. is_alnum c \<or> c \<in> set ''-._:~!$&'' \<union> {CHR 0x27} \<union> set ''()*+,;=%@'') s"

definition parse_host :: "string \<Rightarrow> string option" where
  "parse_host host =
     (if has_prefix host ''['' then
        (case last_index_byte host CHR '']'' of
           None \<Rightarrow> None
         | Some i \<Rightarrow>
             if \<not> validOptionalPort (drop (i + 1) host) then None
             else
               (case str_index (take i host) ''%25'' of
                  Some z \<Rightarrow>
                    (case (url_unescape EncodeHost (take z host), url_unescape EncodeZone (drop z (take i host)),
                           url_unescape EncodeHost (drop i host)) of
                       (Some a, Some b, Some c) \<Rightarrow> Some (a @ b @ c)
                     | _ \<Rightarrow> None)
                | None \<Rightarrow> url_unescape EncodeHost host))
      else
        (case last_index_byte host CHR '':'' of
           Some i \<Rightarrow> if \<not> validOptionalPort (drop i host) then None else url_unescape EncodeHost host
         | None \<Rightarrow> url_unescape EncodeHost host))"

text \<open>\<open>parseAuthority\<close>: whether there is user information, and the host.\<close>

definition parse_authority :: "string \<Rightarrow> (bool \<times> string) option" where
  "parse_authority authority =
     (case last_index_byte authority CHR ''@'' of
        None \<Rightarrow> map_option (\<lambda>h. (False, h)) (parse_host authority)
      | Some i \<Rightarrow>
          (case parse_host (drop (i + 1) authority) of
             None \<Rightarrow> None
           | Some h \<Rightarrow>
               let userinfo = take i authority in
               if \<not> validUserinfo userinfo then None
               else
                 (case cut_at CHR '':'' userinfo of (name, password) \<Rightarrow>
                    (case (url_unescape EncodeUserPassword name, url_unescape EncodeUserPassword password) of
                       (Some _, Some _) \<Rightarrow> Some (True, h)
                     | _ \<Rightarrow> None))))"

definition set_path :: "string \<Rightarrow> url \<Rightarrow> url option" where
  "set_path p u =
     map_option (\<lambda>path. u\<lparr> url_Path := path, url_RawPath := (if url_escape EncodePath path = p then [] else p) \<rparr>)
       (url_unescape EncodePath p)"

definition url_zero :: url where
  "url_zero = \<lparr> url_Scheme = [], url_HasUser = False, url_Host = [], url_Path = [], url_RawPath = [] \<rparr>"

text \<open>The unexported \<open>parse\<close>, on the part before the fragment, not for a request.\<close>

definition url_parse :: "string \<Rightarrow> url option" where
  "url_parse raw =
     (if \<exists>c \<in> set raw. (of_char c :: nat) < 32 \<or> (of_char c :: nat) = 127 then None
      else if raw = ''*'' then Some (url_zero\<lparr> url_Path := ''*'' \<rparr>)
      else
        (case get_scheme raw [] raw of
           None \<Rightarrow> None
         | Some (scheme0, rest0) \<Rightarrow>
             let scheme = go_lower scheme0;
                 u = url_zero\<lparr> url_Scheme := scheme \<rparr>;
                 rest = fst (cut_at CHR ''?'' rest0) in
             if \<not> has_prefix rest ''/'' \<and> scheme \<noteq> [] then Some u
             else if \<not> has_prefix rest ''/'' \<and> CHR '':'' \<in> set (fst (cut_at CHR ''/'' rest)) then None
             else if (scheme \<noteq> [] \<or> \<not> has_prefix rest ''///'') \<and> has_prefix rest ''//'' then
               (let body = drop 2 rest;
                    authority = (case index_byte body CHR ''/'' of Some i \<Rightarrow> take i body | None \<Rightarrow> body);
                    path = (case index_byte body CHR ''/'' of Some i \<Rightarrow> drop i body | None \<Rightarrow> []) in
                case parse_authority authority of
                  None \<Rightarrow> None
                | Some (user, host) \<Rightarrow> set_path path (u\<lparr> url_HasUser := user, url_Host := host \<rparr>))
             else set_path rest u))"

definition url_Parse :: "string \<Rightarrow> url option" where
  "url_Parse rawURL =
     (case cut_at CHR ''#'' rawURL of
        (body, frag) \<Rightarrow>
          (case url_parse body of
             None \<Rightarrow> None
           | Some u \<Rightarrow>
               if frag \<noteq> [] \<and> url_unescape EncodeFragment frag = None then None else Some u))"

definition url_Hostname :: "url \<Rightarrow> string" where
  "url_Hostname u =
     (let host = (case last_index_byte (url_Host u) CHR '':'' of
                    Some i \<Rightarrow> if validOptionalPort (drop i (url_Host u)) then take i (url_Host u) else url_Host u
                  | None \<Rightarrow> url_Host u)
      in if has_prefix host ''['' \<and> has_suffix host '']'' then butlast (tl host) else host)"

definition url_EscapedPath :: "url \<Rightarrow> string" where
  "url_EscapedPath u =
     (if url_RawPath u \<noteq> [] \<and> validEncoded (url_RawPath u) \<and> url_unescape EncodePath (url_RawPath u) = Some (url_Path u)
      then url_RawPath u
      else if url_Path u = ''*'' then ''*''
      else url_escape EncodePath (url_Path u))"

end
