(* ===== verification/Git_Remote.thy ===== *)
theory Git_Remote
  imports Site_Types Go_Url Go_Base64
begin

text \<open>
  The mirror remote (\<open>backend/internal/site/git_helpers.go\<close>, \<open>git_auth.go\<close>): the allow-list of
  remotes a tenant may configure, their normal form, and the environment that carries the
  credential of the mirror. \<open>net.ParseIP\<close> is a parameter: whether a string is an IP literal.
\<close>

section \<open>Definitions\<close>

definition normalizeRemoteURL :: "string \<Rightarrow> string" where
  "normalizeRemoteURL repo =
     (if contains repo ''://'' \<or> has_prefix repo ''git@'' then repo
      else ''https://github.com/'' @ trim_suffix repo ''.git'' @ ''.git'')"

text \<open>The pattern \<open>^[A-Za-z0-9](?:[A-Za-z0-9-]{0,38})/[A-Za-z0-9._-]{1,100}$\<close>.\<close>

definition ownerRepoRe :: "string \<Rightarrow> bool" where
  "ownerRepoRe s =
     (case index_byte s CHR ''/'' of
        None \<Rightarrow> False
      | Some i \<Rightarrow>
          let owner = take i s; repo = drop (i + 1) s in
          owner \<noteq> [] \<and> is_alnum (hd owner) \<and> length owner \<le> 39 \<and>
          list_all (\<lambda>c. is_alnum c \<or> c = CHR ''-'') (tl owner) \<and>
          repo \<noteq> [] \<and> length repo \<le> 100 \<and> list_all (\<lambda>c. is_alnum c \<or> c \<in> set ''._-'') repo)"

text \<open>\<open>strings.Trim(host, "[]")\<close>\<close>

definition trim_brackets :: "string \<Rightarrow> string" where
  "trim_brackets s = trim_right (\<lambda>c. c \<in> set ''[]'') (trim_left (\<lambda>c. c \<in> set ''[]'') s)"

definition isAllowedGitHubHost :: "(string \<Rightarrow> bool) \<Rightarrow> string \<Rightarrow> bool" where
  "isAllowedGitHubHost parseIP host0 =
     (let host = trim_suffix (go_lower (trim_space host0)) ''.'' in
      if host = [] then False
      else if parseIP (trim_brackets host) then False
      else host = ''github.com'')"

definition remote_error :: "string \<Rightarrow> site_error option" where
  "remote_error why = Some (ValidationError ''githubRepo'' why)"

definition validateRemoteURL :: "(string \<Rightarrow> bool) \<Rightarrow> string \<Rightarrow> site_error option" where
  "validateRemoteURL parseIP raw =
     (let repo = trim_space raw in
      if repo = [] then remote_error ''must not be empty''
      else if \<exists>c \<in> set repo. c \<in> {CHR 0x00, CHR 0x0A, CHR 0x0D, CHR '' '', CHR 0x09} then
        remote_error ''must not contain whitespace or control characters''
      else if has_prefix repo ''-'' then remote_error ''must not begin with a dash''
      else if has_prefix repo ''git@'' then
        (let rest = drop 4 repo in
         case index_byte rest CHR '':'' of
           None \<Rightarrow> remote_error ''ssh remote must be git@github.com:owner/repo''
         | Some i \<Rightarrow>
             if \<not> isAllowedGitHubHost parseIP (take i rest) then
               remote_error ''ssh remote must be git@github.com:owner/repo''
             else if \<not> ownerRepoRe (trim_suffix (drop (i + 1) rest) ''.git'') then
               remote_error ''must match owner/repo''
             else None)
      else if \<not> contains repo ''://'' then
        (if \<not> ownerRepoRe (trim_suffix repo ''.git'') then remote_error ''must match owner/repo'' else None)
      else
        (case url_Parse repo of
           None \<Rightarrow> remote_error ''is not a valid URL''
         | Some u \<Rightarrow>
             if url_Scheme u \<noteq> ''https'' then remote_error ''only https GitHub remotes are allowed''
             else if url_HasUser u then remote_error ''must not embed credentials''
             else if \<not> isAllowedGitHubHost parseIP (url_Hostname u) then
               remote_error ''host is not an allowed GitHub host''
             else if \<not> ownerRepoRe (trim_suffix (trim_prefix (url_EscapedPath u) ''/'') ''.git'') then
               remote_error ''must match /owner/repo''
             else None))"

definition githubBase :: string where "githubBase = ''https://github.com''"
definition defaultGitHubUser :: string where "defaultGitHubUser = ''x-access-token''"

text \<open>\<open>mirrorAuthEnv\<close> after the credential is known.\<close>

definition mirror_auth_env :: "string \<Rightarrow> string \<Rightarrow> string list" where
  "mirror_auth_env token user =
     (if token = [] then []
      else
        let user' = (if user = [] then defaultGitHubUser else user);
            cred = std_EncodeToString (user' @ '':'' @ token)
        in [''GIT_CONFIG_COUNT=1'', ''GIT_CONFIG_KEY_0=http.'' @ githubBase @ ''.extraHeader'',
            ''GIT_CONFIG_VALUE_0=Authorization: Basic '' @ cred])"

text \<open>\<open>isUniqueViolation\<close> on the text of a store error.\<close>

definition isUniqueViolation :: "string \<Rightarrow> bool" where
  "isUniqueViolation err = (contains err ''23505'' \<or> contains (go_lower err) ''unique constraint'')"

section \<open>Accepted remotes\<close>

lemma ownerRepoRe_form:
  assumes "ownerRepoRe s"
  obtains owner repo where "s = owner @ ''/'' @ repo" "owner \<noteq> []" "repo \<noteq> []"
    "\<forall>c \<in> set owner. is_alnum c \<or> c = CHR ''-''" "\<forall>c \<in> set repo. is_alnum c \<or> c \<in> set ''._-''"
proof -
  from assms obtain i where i: "index_byte s CHR ''/'' = Some i" by (auto simp: ownerRepoRe_def split: option.splits)
  let ?o = "take i s" and ?r = "drop (i + 1) s"
  have s: "s = ?o @ ''/'' @ ?r" using index_byte_Some [OF i] by (simp add: id_take_nth_drop [symmetric])
  have "?o \<noteq> []" "?r \<noteq> []" "is_alnum (hd ?o)" "\<forall>c \<in> set (tl ?o). is_alnum c \<or> c = CHR ''-''"
    "\<forall>c \<in> set ?r. is_alnum c \<or> c \<in> set ''._-''"
    using assms i by (auto simp: ownerRepoRe_def Let_def list_all_iff)
  moreover then have "\<forall>c \<in> set ?o. is_alnum c \<or> c = CHR ''-''" by (cases ?o) auto
  ultimately show ?thesis using that [OF s] by blast
qed

end
