(* ===== verification/Git_Support.thy ===== *)
theory Git_Support
  imports Git_Prog Git_Parse Git_Remote Site_Service
begin

text \<open>
  The ground of the git-backed implementation of \<open>site.Service\<close>
  (\<open>backend/internal/site/git_service.go\<close>, \<open>git_helpers.go\<close>, \<open>lock.go\<close>, \<open>gitrunner.go\<close>): its
  configuration, running git, the locks, the optimistic lock, committing, the materialised
  served trees and the disk quota, each as a program that issues requests in the order of the
  source, with every early return. The runner is the one of production, which takes an
  environment. A \<open>defer\<close> is a request after the body, on every way out of it.
\<close>

section \<open>Configuration and state\<close>

record git_config =
  gc_Root :: string
  gc_GitBin :: string
  gc_MirrorOn :: bool
  gc_ListLimit :: int
  gc_MaxLogLimit :: int
  gc_GitHubToken :: string
  gc_GitHubUser :: string
  gc_MirrorToken :: bool
  gc_MirrorEnabled :: bool
  gc_Zip :: ZipConfig
  gc_SiteQuotaBytes :: int
  gc_GitOpTimeout :: int

text \<open>\<open>gc_MirrorToken\<close> and \<open>gc_MirrorEnabled\<close> say whether the dynamic providers are set.\<close>

definition defaultGitOpTimeout :: int where "defaultGitOpTimeout = 120 * 1000000000"

definition git_withDefaults :: "git_config \<Rightarrow> git_config" where
  "git_withDefaults c = c\<lparr>
     gc_GitBin := (if gc_GitBin c = [] then ''git'' else gc_GitBin c),
     gc_ListLimit := (if gc_ListLimit c = 0 then defaultLogLimit else gc_ListLimit c),
     gc_MaxLogLimit := (if gc_MaxLogLimit c = 0 then defaultMaxLogLimit else gc_MaxLogLimit c),
     gc_Zip := zip_withDefaults (gc_Zip c),
     gc_GitOpTimeout := (if gc_GitOpTimeout c \<le> 0 then defaultGitOpTimeout else gc_GitOpTimeout c) \<rparr>"

text \<open>
  A header of a tar stream with its content, and the error that cuts the content short, as
  \<open>archive/tar\<close> delivers them.
\<close>

datatype tar_type = TarDir | TarReg | TarOther

record tar_header =
  tar_Name :: string
  tar_Typeflag :: tar_type
  tar_Content :: string
  tar_CopyErr :: "string option"

record gitService =
  gs_cfg :: git_config
  gs_tar :: "string \<Rightarrow> tar_header list \<times> string option"
  gs_parseIP :: "string \<Rightarrow> bool"

definition NewService :: "git_config \<Rightarrow> (string \<Rightarrow> tar_header list \<times> string option) \<Rightarrow> (string \<Rightarrow> bool) \<Rightarrow> gitService" where
  "NewService c tr ip = \<lparr> gs_cfg = git_withDefaults c, gs_tar = tr, gs_parseIP = ip \<rparr>"

abbreviation g_repo :: "gitService \<Rightarrow> uuid \<Rightarrow> string" where
  "g_repo g i \<equiv> repoDir (gc_Root (gs_cfg g)) i"

abbreviation g_gitDir :: "gitService \<Rightarrow> uuid \<Rightarrow> string" where
  "g_gitDir g i \<equiv> gitDir (gc_Root (gs_cfg g)) i"

abbreviation g_served :: "gitService \<Rightarrow> uuid \<Rightarrow> branch_name \<Rightarrow> string" where
  "g_served g i b \<equiv> servedDir (gc_Root (gs_cfg g)) i b"

abbreviation not_found :: "'a io" where
  "not_found \<equiv> throw (Sentinel ErrNotFound)"

abbreviation git_failed :: "string \<Rightarrow> 'a io" where
  "git_failed why \<equiv> throw (Wrapped ErrGit why)"

section \<open>Running git\<close>

text \<open>The error of a run: the exit status with the arguments, or the error of the context.\<close>

definition git_error :: "string list \<Rightarrow> git_fail option \<Rightarrow> site_error option" where
  "git_error args f =
     map_option (\<lambda>x. case x of ExitStatus code stderr \<Rightarrow> GitError args code stderr | ContextDone m \<Rightarrow> ForeignError m) f"

text \<open>\<open>wrapGit\<close>; the errors of other packages that reach it are those of a context.\<close>

definition wrapGit :: "site_error \<Rightarrow> site_error" where
  "wrapGit e =
     (case e of
        ForeignError m \<Rightarrow> e
      | _ \<Rightarrow> if err_is e ErrGit then e else Wrapped ErrGit (error_text e))"

definition authorEnv :: "Actor \<Rightarrow> string \<Rightarrow> string list" where
  "authorEnv a when =
     (let name = (if ac_Name a = [] then ''kotoji'' else ac_Name a);
          email = (if ac_Email a = [] then ac_UserID a @ ''@kotoji.local'' else ac_Email a)
      in [''GIT_AUTHOR_NAME='' @ name, ''GIT_AUTHOR_EMAIL='' @ email,
          ''GIT_COMMITTER_NAME='' @ name, ''GIT_COMMITTER_EMAIL='' @ email] @
         (if when \<noteq> [] then [''GIT_AUTHOR_DATE='' @ when, ''GIT_COMMITTER_DATE='' @ when] else []))"

definition git_run :: "gitService \<Rightarrow> uuid \<Rightarrow> string list \<Rightarrow> (string \<times> site_error option) prog" where
  "git_run g i args = bind (do_git (g_repo g i) [] args) (\<lambda>(out, f). Ret (out, git_error args f))"

definition runErr :: "gitService \<Rightarrow> uuid \<Rightarrow> string list \<Rightarrow> site_error option prog" where
  "runErr g i args = bind (git_run g i args) (\<lambda>(out, e). Ret e)"

definition runEnv :: "gitService \<Rightarrow> uuid \<Rightarrow> Actor \<Rightarrow> string list \<Rightarrow> (string \<times> site_error option) prog" where
  "runEnv g i a args =
     bind do_clock (\<lambda>t.
     bind (do_git (g_repo g i) (authorEnv a (format_rfc3339 t)) args) (\<lambda>(out, f). Ret (out, git_error args f)))"

text \<open>\<open>if out, e := g.run(...); e != nil { return wrapGit(e) }\<close>\<close>

definition run_ok :: "gitService \<Rightarrow> uuid \<Rightarrow> string list \<Rightarrow> string io" where
  "run_ok g i args =
     bind (git_run g i args) (\<lambda>(out, e). case e of None \<Rightarrow> ok out | Some err \<Rightarrow> throw (wrapGit err))"

definition revParse :: "gitService \<Rightarrow> uuid \<Rightarrow> string \<Rightarrow> string io" where
  "revParse g i ref =
     bind (git_run g i [''rev-parse'', ''--verify'', ''--quiet'', ''--end-of-options'', ref @ ''^{commit}''])
       (\<lambda>(out, e). let h = trim_space out in if e \<noteq> None \<or> h = [] then not_found else ok h)"

definition branchExists :: "gitService \<Rightarrow> uuid \<Rightarrow> branch_name \<Rightarrow> bool io" where
  "branchExists g i branch =
     bind (git_run g i [''show-ref'', ''--verify'', ''--quiet'', ''refs/heads/'' @ branch])
       (\<lambda>(out, e). case e of
          None \<Rightarrow> ok True
        | Some (GitError a code s) \<Rightarrow> if code = 1 then ok False else throw (GitError a code s)
        | Some err \<Rightarrow> throw err)"

section \<open>Locks\<close>

definition lockFilePath :: "string \<Rightarrow> string" where
  "lockFilePath dir = path_join dir ''kotoji.lock''"

definition acquireFileLock :: "string \<Rightarrow> string option prog" where
  "acquireFileLock dir =
     bind (do_act (RMkdirAll dir)) (\<lambda>e1. case e1 of
       Some m \<Rightarrow> Ret (Some (''site: lock mkdir: '' @ m))
     | None \<Rightarrow> bind (do_act (ROpenFile (lockFilePath dir))) (\<lambda>e2. case e2 of
         Some m \<Rightarrow> Ret (Some (''site: lock open: '' @ m))
       | None \<Rightarrow> bind (do_act (RFlock (lockFilePath dir))) (\<lambda>e3.
           Ret (map_option (\<lambda>m. ''site: flock: '' @ m) e3))))"

definition withWriteLock :: "gitService \<Rightarrow> uuid \<Rightarrow> 'a io \<Rightarrow> 'a io" where
  "withWriteLock g i fn =
     bind (do_unit (RLock i)) (\<lambda>_.
     bind (do_act (RStat (g_gitDir g i))) (\<lambda>missing.
     bind (if missing \<noteq> None then fn
           else bind (acquireFileLock (g_gitDir g i)) (\<lambda>le. case le of
                  Some m \<Rightarrow> git_failed m
                | None \<Rightarrow> bind fn (\<lambda>r. bind (do_unit (RFunlock (lockFilePath (g_gitDir g i)))) (\<lambda>_. Ret r))))
       (\<lambda>r. bind (do_unit (RUnlock i)) (\<lambda>_. Ret r))))"

definition withReadLock :: "uuid \<Rightarrow> 'a io \<Rightarrow> 'a io" where
  "withReadLock i fn =
     bind (do_unit (RRLock i)) (\<lambda>_. bind fn (\<lambda>r. bind (do_unit (RRUnlock i)) (\<lambda>_. Ret r)))"

section \<open>Helpers\<close>

definition load_site :: "string \<Rightarrow> uuid \<Rightarrow> SiteRecord option io" where
  "load_site what i =
     bind (do_row (RGetSiteByID i)) (\<lambda>r. case r of Inl e \<Rightarrow> git_failed (what @ e) | Inr row \<Rightarrow> ok row)"

text \<open>\<open>requireSite\<close>, and the same three lines at the head of the methods that have them inline.\<close>

definition live_site :: "string \<Rightarrow> uuid \<Rightarrow> SiteRecord io" where
  "live_site what i =
     bindE (load_site what i) (\<lambda>row. case row of
       None \<Rightarrow> not_found
     | Some r \<Rightarrow> if sr_DeletedAt r \<noteq> None then not_found else ok r)"

definition requireSite :: "uuid \<Rightarrow> SiteRecord io" where
  "requireSite i = live_site ''load site: '' i"

definition changedPaths :: "gitService \<Rightarrow> uuid \<Rightarrow> string \<Rightarrow> string \<Rightarrow> string list prog" where
  "changedPaths g i a b =
     bind (git_run g i [''diff'', ''--name-only'', ''--end-of-options'', a, b])
       (\<lambda>(out, e). Ret (if e \<noteq> None then [] else filter (\<lambda>l. l \<noteq> []) (split_on nl (trim_space out))))"

definition git_checkBaseSHA :: "gitService \<Rightarrow> uuid \<Rightarrow> branch_name \<Rightarrow> string \<Rightarrow> string list \<Rightarrow> unit io" where
  "git_checkBaseSHA g i branch baseSHA hint =
     bind (revParse g i branch) (\<lambda>r. case r of
       Inl _ \<Rightarrow> not_found
     | Inr t \<Rightarrow>
         if t = baseSHA then ok ()
         else bind (changedPaths g i baseSHA t) (\<lambda>changed.
           throw (ConflictError branch baseSHA t (if changed = [] then hint else changed))))"

definition checkoutBranch :: "gitService \<Rightarrow> uuid \<Rightarrow> branch_name \<Rightarrow> unit io" where
  "checkoutBranch g i branch =
     bind (git_run g i [''symbolic-ref'', ''--short'', ''HEAD'']) (\<lambda>(cur, e).
       if e = None \<and> trim_space cur = branch then ok ()
       else bindE (run_ok g i [''checkout'', branch]) (\<lambda>_. ok ()))"

definition commitInfo :: "gitService \<Rightarrow> uuid \<Rightarrow> string \<Rightarrow> CommitInfo io" where
  "commitInfo g i h =
     bindE (run_ok g i [''show'', ''-s'', logFormat, h]) (\<lambda>out. case parseLog out of
       [] \<Rightarrow> git_failed (''empty commit info for '' @ h)
     | c # cs \<Rightarrow> ok c)"

definition commitStaged :: "gitService \<Rightarrow> uuid \<Rightarrow> branch_name \<Rightarrow> Actor \<Rightarrow> string \<Rightarrow> CommitInfo io" where
  "commitStaged g i branch actor msg =
     bind (runEnv g i actor [''commit'', ''-m'', msg, viaTrailer actor]) (\<lambda>(out, e). case e of
       Some err \<Rightarrow> throw (wrapGit err)
     | None \<Rightarrow> bind (revParse g i branch) (\<lambda>r. case r of
         Inl err \<Rightarrow> throw (wrapGit err)
       | Inr t \<Rightarrow> commitInfo g i t))"

text \<open>The unmerged paths that \<open>ls-files -u\<close> prints, each once.\<close>

definition unmerged_paths :: "string \<Rightarrow> string list" where
  "unmerged_paths out =
     first_occurrences (List.map_filter (\<lambda>l. if l = [] then None else map_option (\<lambda>t. drop (t + 1) l) (index_byte l tab))
       (split_on nl (trim_space out)))"

definition conflictPaths :: "string \<Rightarrow> string list prog" where
  "conflictPaths wt = bind (do_git wt [] [''ls-files'', ''-u'']) (\<lambda>(out, f). Ret (if f \<noteq> None then [] else unmerged_paths out))"

section \<open>Disk\<close>

definition path_dir :: "string \<Rightarrow> string" where
  "path_dir p = (case last_index_byte p slash of Some i \<Rightarrow> path_clean (take (i + 1) p) | None \<Rightarrow> dot)"

definition kotojiMetaFile :: string where "kotojiMetaFile = ''.kotoji-served-sha''"

text \<open>One entry of the loop of \<open>extractTar\<close>; \<open>None\<close> is success.\<close>

definition extract_entry :: "string \<Rightarrow> tar_header \<Rightarrow> string option prog" where
  "extract_entry dst hdr =
     (let name = tar_Name hdr in
      if name = [] \<or> has_suffix name [slash] then Ret None
      else if \<not> is_local name then Ret (Some (''tar entry escapes root: '' @ name))
      else
        let full = path_join dst (path_clean name) in
        (case tar_Typeflag hdr of
           TarDir \<Rightarrow> do_act (RMkdirAll full)
         | TarReg \<Rightarrow>
             bind (do_act (RMkdirAll (path_dir full))) (\<lambda>e1. case e1 of
               Some m \<Rightarrow> Ret (Some m)
             | None \<Rightarrow> bind (do_act (RWriteFile full (tar_Content hdr))) (\<lambda>e2. case e2 of
                 Some m \<Rightarrow> Ret (Some m)
               | None \<Rightarrow> Ret (tar_CopyErr hdr)))
         | TarOther \<Rightarrow> Ret None))"

fun extract_entries :: "string \<Rightarrow> tar_header list \<Rightarrow> string option \<Rightarrow> string option prog" where
  "extract_entries dst [] ended = Ret (map_option (\<lambda>m. ''tar read: '' @ m) ended)"
| "extract_entries dst (hdr # hdrs) ended =
     bind (extract_entry dst hdr) (\<lambda>e. case e of Some m \<Rightarrow> Ret (Some m) | None \<Rightarrow> extract_entries dst hdrs ended)"

definition extractTar :: "gitService \<Rightarrow> string \<Rightarrow> string \<Rightarrow> string option prog" where
  "extractTar g bytes dst = (case gs_tar g bytes of (hdrs, ended) \<Rightarrow> extract_entries dst hdrs ended)"

definition act_or :: "req \<Rightarrow> string \<Rightarrow> unit io" where
  "act_or r what = bind (do_act r) (\<lambda>e. case e of Some m \<Rightarrow> git_failed (what @ m) | None \<Rightarrow> ok ())"

text \<open>The part of \<open>ensureServed\<close> that builds the tree in a temporary directory and moves it into place.\<close>

definition build_served :: "gitService \<Rightarrow> uuid \<Rightarrow> string \<Rightarrow> string \<Rightarrow> string \<Rightarrow> unit io" where
  "build_served g i h tmp dst =
     bind (do_git (g_repo g i) [] [''archive'', ''--format=tar'', h]) (\<lambda>(bytes, f).
       case git_error [''archive'', ''--format=tar'', h] f of
         Some err \<Rightarrow> throw (wrapGit err)
       | None \<Rightarrow> bind (extractTar g bytes tmp) (\<lambda>e. case e of
           Some m \<Rightarrow> git_failed (''served extract: '' @ m)
         | None \<Rightarrow> bindE (act_or (RWriteFile (path_join tmp kotojiMetaFile) h) ''served meta: '') (\<lambda>_.
             bind (do_act (RRemoveAll dst)) (\<lambda>_. act_or (RRename tmp dst) ''served swap: ''))))"

definition ensureServed :: "gitService \<Rightarrow> uuid \<Rightarrow> branch_name \<Rightarrow> string \<Rightarrow> unit io" where
  "ensureServed g i branch h =
     (let dst = g_served g i branch; parent = path_dir dst in
      bind (do_text (RReadFile (path_join dst kotojiMetaFile))) (\<lambda>meta.
        if (case meta of Inr m \<Rightarrow> trim_space m = h | Inl _ \<Rightarrow> False) then ok ()
        else bindE (act_or (RMkdirAll parent) ''served mkdir: '') (\<lambda>_.
          bind (do_text (RMkdirTemp parent ''.tmp-served-*'')) (\<lambda>t. case t of
            Inl m \<Rightarrow> git_failed (''served tmp: '' @ m)
          | Inr tmp \<Rightarrow> bind (build_served g i h tmp dst) (\<lambda>r. case r of
              Inl e \<Rightarrow> bind (do_act (RRemoveAll tmp)) (\<lambda>_. throw e)
            | Inr _ \<Rightarrow> ok ())))))"

definition refreshServed :: "gitService \<Rightarrow> uuid \<Rightarrow> branch_name \<Rightarrow> unit prog" where
  "refreshServed g i branch =
     bind (revParse g i branch) (\<lambda>r. case r of
       Inl _ \<Rightarrow> Ret ()
     | Inr h \<Rightarrow> bind (ensureServed g i branch h) (\<lambda>_. Ret ()))"

lemma length_dropWhile_less [termination_simp]: "length (dropWhile P xs) < Suc (length xs)"
  by (simp add: le_imp_less_Suc length_dropWhile_le)

text \<open>The callback of \<open>WalkDir\<close>: the served trees are skipped, an entry that cannot be read counts nothing.\<close>

fun walk_total :: "string \<Rightarrow> string \<Rightarrow> walk_entry list \<Rightarrow> int \<Rightarrow> string + int" where
  "walk_total root served [] acc = Inr acc"
| "walk_total root served (e # es) acc =
     (case we_err e of
        Some m \<Rightarrow> if we_path e = root then Inl m else walk_total root served es acc
      | None \<Rightarrow>
          if we_dir e \<and> we_path e = served then
            walk_total root served (dropWhile (\<lambda>x. has_prefix (we_path x) (served @ [slash])) es) acc
          else if we_dir e then walk_total root served es acc
          else walk_total root served es (acc + (case we_size e of Some n \<Rightarrow> n | None \<Rightarrow> 0)))"

definition repoDiskSize :: "gitService \<Rightarrow> uuid \<Rightarrow> int io" where
  "repoDiskSize g i =
     (let root = g_repo g i in
      bind (do_walk root) (\<lambda>es. case walk_total root (path_join root ''served'') es 0 of
        Inl m \<Rightarrow> git_failed (''measure repo size: '' @ m)
      | Inr n \<Rightarrow> ok n))"

definition enforceQuota :: "gitService \<Rightarrow> uuid \<Rightarrow> int \<Rightarrow> unit io" where
  "enforceQuota g i deltaBytes =
     (let quota = gc_SiteQuotaBytes (gs_cfg g) in
      if quota \<le> 0 then ok ()
      else bindE (repoDiskSize g i) (\<lambda>current.
        if quota < current + deltaBytes then throw (Sentinel ErrQuotaExceeded) else ok ()))"

definition gcRepo :: "gitService \<Rightarrow> uuid \<Rightarrow> unit prog" where
  "gcRepo g i = bind (git_run g i [''gc'', ''--auto'', ''--quiet'', ''--prune=now'']) (\<lambda>_. Ret ())"

end
