(* ===== verification/Git_Service.thy ===== *)
theory Git_Service
  imports Git_Support
begin

text \<open>
  The methods of the git-backed service (\<open>backend/internal/site/git_service.go\<close>, \<open>mirror.go\<close>,
  \<open>git_auth.go\<close>, the writing half of \<open>zip.go\<close>), each as a program.
\<close>

section \<open>The mirror\<close>

definition mirrorCreds :: "gitService \<Rightarrow> (string \<times> string) prog" where
  "mirrorCreds g =
     (if gc_MirrorToken (gs_cfg g) then do_creds else Ret (gc_GitHubToken (gs_cfg g), gc_GitHubUser (gs_cfg g)))"

definition mirrorAuthEnv :: "gitService \<Rightarrow> string list prog" where
  "mirrorAuthEnv g = bind (mirrorCreds g) (\<lambda>(token, user). Ret (mirror_auth_env token user))"

definition mirrorEnabled :: "gitService \<Rightarrow> bool prog" where
  "mirrorEnabled g =
     (if gc_MirrorEnabled (gs_cfg g) then bind (do_flag RMirrorEnabled) (\<lambda>r. Ret (r = Inr True))
      else Ret (gc_MirrorOn (gs_cfg g)))"

definition runMirror :: "gitService \<Rightarrow> uuid \<Rightarrow> string list \<Rightarrow> (string \<times> site_error option) prog" where
  "runMirror g i args =
     bind (mirrorAuthEnv g) (\<lambda>env.
     bind (do_git (g_repo g i) env args) (\<lambda>(out, f). Ret (out, git_error args f)))"

definition bestEffortMirror :: "gitService \<Rightarrow> uuid \<Rightarrow> branch_name \<Rightarrow> unit prog" where
  "bestEffortMirror g i branch =
     bind (mirrorEnabled g) (\<lambda>on.
       if \<not> on then Ret ()
       else bind (runErr g i [''remote'', ''get-url'', ''origin'']) (\<lambda>e.
         if e \<noteq> None then Ret ()
         else bind (runMirror g i [''push'', ''--force-with-lease'', ''origin'', branch]) (\<lambda>_. Ret ())))"

text \<open>The common end of the writers: \<open>g.refreshServed(...); g.bestEffortMirror(...); return ci, nil\<close>.\<close>

definition after_write :: "gitService \<Rightarrow> uuid \<Rightarrow> branch_name \<Rightarrow> CommitInfo \<Rightarrow> CommitInfo io" where
  "after_write g i branch ci =
     bind (refreshServed g i branch) (\<lambda>_. bind (bestEffortMirror g i branch) (\<lambda>_. ok ci))"

section \<open>Site lifecycle\<close>

text \<open>The loop that writes validated entries below a directory.\<close>

fun write_entries :: "string \<Rightarrow> zipEntry list \<Rightarrow> unit io" where
  "write_entries root [] = ok ()"
| "write_entries root (e # es) =
     (let full = path_join root (fst e) in
      bindE (act_or (RMkdirAll (path_dir full)) (''mkdir '' @ fst e @ '': '')) (\<lambda>_.
      bindE (act_or (RWriteFile full (snd e)) (''write '' @ fst e @ '': '')) (\<lambda>_.
        write_entries root es)))"

definition extractZipToWorktree :: "gitService \<Rightarrow> string \<Rightarrow> ZipSource \<Rightarrow> unit io" where
  "extractZipToWorktree g dir src =
     (case openZip (gc_Zip (gs_cfg g)) src of Inl e \<Rightarrow> throw e | Inr entries \<Rightarrow> write_entries dir entries)"

definition initRepo :: "gitService \<Rightarrow> uuid \<Rightarrow> CreateSiteInput \<Rightarrow> unit io" where
  "initRepo g i inp =
     (let dir = g_repo g i in
      bindE (act_or (RMkdirAll dir) ''mkdir repo: '') (\<lambda>_.
      bindE (run_ok g i [''init'', ''-b'', BranchDraft]) (\<lambda>_.
      bindE (case cs_Zip inp of
               Some src \<Rightarrow> extractZipToWorktree g dir src
             | None \<Rightarrow> act_or (RWriteFile (path_join dir ''index.html'') (defaultIndexHTML (cs_Handle inp))) ''seed index: '') (\<lambda>_.
      bindE (run_ok g i [''add'', ''-A'']) (\<lambda>_.
      bind (runEnv g i (cs_Actor inp) [''commit'', ''-m'', seed_message inp, viaTrailer (cs_Actor inp)]) (\<lambda>(out, e). case e of
        Some err \<Rightarrow> throw (wrapGit err)
      | None \<Rightarrow>
          if cs_GitHubRepo inp \<noteq> [] then
            bind (git_run g i [''remote'', ''add'', ''origin'', normalizeRemoteURL (cs_GitHubRepo inp)]) (\<lambda>_. ok ())
          else ok ()))))))"

definition store_input :: "CreateSiteInput \<Rightarrow> StoreCreateSite" where
  "store_input inp =
     \<lparr> scs_Handle = go_lower (cs_Handle inp), scs_OwnerID = cs_OwnerID inp,
       scs_Visibility = (if cs_Visibility inp = [] then ''private'' else cs_Visibility inp),
       scs_PublishMode = (if cs_PublishMode inp = [] then ''direct'' else cs_PublishMode inp),
       scs_GitHubRepo = emptyToNil (cs_GitHubRepo inp), scs_WebRoot = [], scs_Description = cs_Description inp \<rparr>"

definition handle_taken :: "string \<Rightarrow> bool io" where
  "handle_taken h =
     bind (do_flag (RHandleIsTaken h)) (\<lambda>r. case r of Inl e \<Rightarrow> git_failed (''handle check: '' @ e) | Inr b \<Rightarrow> ok b)"

definition git_CreateSite :: "gitService \<Rightarrow> CreateSiteInput \<Rightarrow> Site io" where
  "git_CreateSite g inp =
     check (ValidateHandle (cs_Handle inp))
    (check (if cs_GitHubRepo inp \<noteq> [] then validateRemoteURL (gs_parseIP g) (cs_GitHubRepo inp) else None)
    (bindE (handle_taken (go_lower (cs_Handle inp))) (\<lambda>taken.
       if taken then throw (Sentinel ErrHandleTaken)
       else bind (do_row (RCreateSiteWithOwner (store_input inp))) (\<lambda>r. case r of
         Inl e \<Rightarrow> if isUniqueViolation e then throw (Sentinel ErrHandleTaken) else git_failed (''create site row: '' @ e)
       | Inr None \<Rightarrow> git_failed ''create site row: ''
       | Inr (Some row) \<Rightarrow>
           bind (initRepo g (sr_ID row) inp) (\<lambda>res. case res of
             Inl e \<Rightarrow> bind (do_act (RRemoveAll (g_repo g (sr_ID row)))) (\<lambda>_.
                       bind (do_act (RSoftDeleteSite (sr_ID row))) (\<lambda>_. throw e))
           | Inr _ \<Rightarrow> ok (toSite row))))))"

definition git_GetSite :: "uuid \<Rightarrow> Site io" where
  "git_GetSite i = bindE (live_site ''get site: '' i) (\<lambda>r. ok (toSite r))"

definition git_GetSiteByHandle :: "handle \<Rightarrow> Site io" where
  "git_GetSiteByHandle h =
     bind (do_row (RGetSiteByHandle (go_lower h))) (\<lambda>r. case r of
       Inl e \<Rightarrow> git_failed (''get site by handle: '' @ e)
     | Inr None \<Rightarrow> not_found
     | Inr (Some row) \<Rightarrow> ok (toSite row))"

definition git_ListSites :: "uuid \<Rightarrow> Site list io" where
  "git_ListSites owner =
     bind (do_rows (RListSitesForUser owner 500 0)) (\<lambda>r. case r of
       Inl e \<Rightarrow> git_failed (''list sites: '' @ e) | Inr rows \<Rightarrow> ok (map toSite rows))"

definition isOwnRedirect :: "uuid \<Rightarrow> string \<Rightarrow> bool prog" where
  "isOwnRedirect i newLower =
     bind (do_row (RGetSiteByRedirect newLower)) (\<lambda>r. Ret (case r of Inr (Some row) \<Rightarrow> sr_ID row = i | _ \<Rightarrow> False))"

definition git_RenameHandle :: "uuid \<Rightarrow> handle \<Rightarrow> Site io" where
  "git_RenameHandle i newHandle =
     check (ValidateHandle newHandle)
    (bindE (live_site ''load site: '' i) (\<lambda>row.
       let newLower = go_lower newHandle;
           move = bind (do_act (RRenameHandleWithRedirect i (sr_Handle row) newLower)) (\<lambda>e. case e of
                    Some m \<Rightarrow> if isUniqueViolation m then throw (Sentinel ErrHandleTaken) else git_failed (''rename: '' @ m)
                  | None \<Rightarrow> ok (toSite (row\<lparr> sr_Handle := newLower \<rparr>)))
       in if newLower = sr_Handle row then ok (toSite row)
          else bindE (handle_taken newLower) (\<lambda>taken.
            if taken then bind (isOwnRedirect i newLower) (\<lambda>own. if \<not> own then throw (Sentinel ErrHandleTaken) else move)
            else move)))"

definition git_DeleteSite :: "uuid \<Rightarrow> unit io" where
  "git_DeleteSite i =
     bindE (live_site ''load site: '' i) (\<lambda>_. act_or (RSoftDeleteSite i) ''soft delete: '')"

section \<open>Branches\<close>

fun branch_entries :: "gitService \<Rightarrow> uuid \<Rightarrow> SiteRecord \<Rightarrow> string list \<Rightarrow> Branch list io" where
  "branch_entries g i row [] = ok []"
| "branch_entries g i row (line # ls) =
     (case go_fields line of
        name # h # _ \<Rightarrow>
          bindE (commitInfo g i h) (\<lambda>ci. bindE (branch_entries g i row ls) (\<lambda>bs.
            ok (\<lparr> br_Name = name, br_HeadSHA = h, br_IsPublished = (name = BranchPublished), br_LastCommit = ci,
                  br_PreviewSubdomain = previewSubdomain (sr_Handle row) name \<rparr> # bs)))
      | _ \<Rightarrow> branch_entries g i row ls)"

definition git_ListBranches :: "gitService \<Rightarrow> uuid \<Rightarrow> Branch list io" where
  "git_ListBranches g i =
     bindE (live_site ''load site: '' i) (\<lambda>row. withReadLock i
       (bindE (run_ok g i [''for-each-ref'', ''--format=%(refname:short) %(objectname)'', ''refs/heads/'']) (\<lambda>out.
          branch_entries g i row (split_on nl (trim_space out)))))"

definition git_CreateBranch :: "gitService \<Rightarrow> uuid \<Rightarrow> branch_name \<Rightarrow> string \<Rightarrow> Branch io" where
  "git_CreateBranch g i name src0 =
     check (validateBranchName name)
    (check (if name = BranchPublished \<or> name = BranchDraft then Some (ValidationError ''branch'' ''reserved branch name'') else None)
    (bindE (live_site ''load site: '' i) (\<lambda>row.
       let src = (if src0 = [] then BranchDraft else src0) in
       withWriteLock g i
        (bind (branchExists g i name) (\<lambda>ex. case ex of
           Inl e \<Rightarrow> throw (wrapGit e)
         | Inr True \<Rightarrow> throw (Sentinel ErrBranchExists)
         | Inr False \<Rightarrow>
             bindE (revParse g i src) (\<lambda>h.
             bindE (run_ok g i [''branch'', name, h]) (\<lambda>_.
             bindE (commitInfo g i h) (\<lambda>ci.
               ok \<lparr> br_Name = name, br_HeadSHA = h, br_IsPublished = False, br_LastCommit = ci,
                    br_PreviewSubdomain = previewSubdomain (sr_Handle row) name \<rparr>))))))))"

definition git_DeleteBranch :: "gitService \<Rightarrow> uuid \<Rightarrow> branch_name \<Rightarrow> unit io" where
  "git_DeleteBranch g i name =
     check (if name = BranchPublished \<or> name = BranchDraft
            then Some (ValidationError ''branch'' ''cannot delete the published or draft branch'') else None)
    (bindE (load_site ''load site: '' i) (\<lambda>row.
       if row = None then not_found
       else withWriteLock g i
        (bind (branchExists g i name) (\<lambda>ex. case ex of
           Inl e \<Rightarrow> throw (wrapGit e)
         | Inr False \<Rightarrow> not_found
         | Inr True \<Rightarrow>
             bindE (run_ok g i [''branch'', ''-D'', name]) (\<lambda>_.
             bind (do_act (RRemoveAll (g_served g i name))) (\<lambda>_. ok ()))))))"

section \<open>Reading\<close>

definition git_ListFiles :: "gitService \<Rightarrow> ListFilesInput \<Rightarrow> (FileEntry list \<times> string) io" where
  "git_ListFiles g inp =
     check (validateDir (lf_Dir inp))
    (withReadLock (lf_SiteID inp)
      (bindE (revParse g (lf_SiteID inp) (if lf_Ref inp = [] then lf_Branch inp else lf_Ref inp)) (\<lambda>h.
       bindE (run_ok g (lf_SiteID inp)
                ([''ls-tree'', ''--long''] @ (if lf_Recursive inp then [''-r''] else []) @ [h, ''--''] @
                 (if lf_Dir inp \<noteq> [] then [trim_suffix (lf_Dir inp) [slash] @ [slash]] else []))) (\<lambda>out.
         ok (parseLsTree out, h)))))"

definition git_ReadFile :: "gitService \<Rightarrow> uuid \<Rightarrow> branch_name \<Rightarrow> string \<Rightarrow> string \<Rightarrow> FileContent io" where
  "git_ReadFile g i branch ref path =
     check (validateReadPath path)
    (withReadLock i
      (bindE (revParse g i (if ref = [] then branch else ref)) (\<lambda>h.
         let spec = h @ '':'' @ path in
         bind (git_run g i [''cat-file'', ''-p'', spec]) (\<lambda>(content, e).
           if e \<noteq> None then not_found
           else bind (git_run g i [''rev-parse'', ''--verify'', ''--quiet'', spec]) (\<lambda>(blob, e2).
             ok \<lparr> fc_Path = path, fc_Content = content, fc_SHA = h,
                  fc_BlobSHA = (if e2 \<noteq> None then [] else trim_space blob),
                  fc_Size = int (length content), fc_IsBinary = isBinaryContent content \<rparr>)))))"

section \<open>Writing\<close>

definition git_WriteFile :: "gitService \<Rightarrow> WriteFileInput \<Rightarrow> CommitInfo io" where
  "git_WriteFile g inp =
     (let i = wf_SiteID inp; branch = wf_Branch inp in
      check (refuseProtectedBranch branch)
     (check (validateWritePath (wf_Actor inp) (wf_Path inp))
     (check (if wf_BaseSHA inp = [] then Some (base_required ''required (never treated as force)'') else None)
     (bindE (withWriteLock g i
        (bindE (requireSite i) (\<lambda>_.
         bindE (git_checkBaseSHA g i branch (wf_BaseSHA inp) [wf_Path inp]) (\<lambda>_.
         bindE (checkoutBranch g i branch) (\<lambda>_.
         bindE (enforceQuota g i (int (length (wf_Content inp)))) (\<lambda>_.
           let full = path_join (g_repo g i) (wf_Path inp) in
         bindE (act_or (RMkdirAll (path_dir full)) ''mkdir: '') (\<lambda>_.
         bindE (act_or (RWriteFile full (wf_Content inp)) ''write blob: '') (\<lambda>_.
         bindE (run_ok g i [''add'', ''--'', wf_Path inp]) (\<lambda>_.
           commitStaged g i branch (wf_Actor inp)
             (if wf_Message inp = [] then ''Update '' @ wf_Path inp else wf_Message inp))))))))))
        (\<lambda>ci. after_write g i branch ci)))))"

definition git_DeleteFile ::
  "gitService \<Rightarrow> uuid \<Rightarrow> branch_name \<Rightarrow> string \<Rightarrow> string \<Rightarrow> Actor \<Rightarrow> CommitInfo io" where
  "git_DeleteFile g i branch path baseSHA actor =
     check (refuseProtectedBranch branch)
    (check (validateReadPath path)
    (check (if baseSHA = [] then Some (base_required ''required (never treated as force)'') else None)
    (bindE (withWriteLock g i
        (bindE (requireSite i) (\<lambda>_.
         bindE (git_checkBaseSHA g i branch baseSHA [path]) (\<lambda>_.
         bindE (checkoutBranch g i branch) (\<lambda>_.
         bind (git_run g i [''rm'', ''--'', path]) (\<lambda>(out, e).
           if e \<noteq> None then not_found
           else commitStaged g i branch actor (''Delete '' @ path)))))))
       (\<lambda>ci. after_write g i branch ci))))"

definition git_Commit :: "gitService \<Rightarrow> CommitInput \<Rightarrow> CommitInfo io" where
  "git_Commit g inp =
     (let i = cm_SiteID inp; branch = cm_Branch inp in
      check (refuseProtectedBranch branch)
     (check (if cm_BaseSHA inp = [] then Some (base_required ''required (never treated as force)'') else None)
     (bindE (withWriteLock g i
        (bindE (requireSite i) (\<lambda>_.
         bindE (git_checkBaseSHA g i branch (cm_BaseSHA inp) []) (\<lambda>_.
         bindE (checkoutBranch g i branch) (\<lambda>_.
         bindE (run_ok g i [''status'', ''--porcelain'']) (\<lambda>status.
           if trim_space status = [] then throw (Sentinel ErrNothingToCommit)
           else bindE (run_ok g i [''add'', ''-A'']) (\<lambda>_.
             commitStaged g i branch (cm_Actor inp) (if cm_Message inp = [] then ''Save'' else cm_Message inp))))))))
        (\<lambda>ci. after_write g i branch ci))))"

text \<open>\<open>for _, de := range dirents\<close>: everything but the metadata and the served trees is removed.\<close>

fun clear_worktree :: "string \<Rightarrow> string list \<Rightarrow> unit io" where
  "clear_worktree root [] = ok ()"
| "clear_worktree root (name # names) =
     (if name = gitDirSegment \<or> name = ''served'' then clear_worktree root names
      else bindE (act_or (RRemoveAll (path_join root name)) ''clear worktree: '') (\<lambda>_. clear_worktree root names))"

definition replaceWorktree :: "gitService \<Rightarrow> uuid \<Rightarrow> zipEntry list \<Rightarrow> unit io" where
  "replaceWorktree g i entries =
     (let root = g_repo g i in
      bind (do_texts (RReadDir root)) (\<lambda>r. case r of
        Inl m \<Rightarrow> git_failed (''read worktree: '' @ m)
      | Inr names \<Rightarrow> bindE (clear_worktree root names) (\<lambda>_. write_entries root entries)))"

definition git_ImportZip ::
  "gitService \<Rightarrow> uuid \<Rightarrow> branch_name \<Rightarrow> ZipSource \<Rightarrow> string \<Rightarrow> Actor \<Rightarrow> CommitInfo io" where
  "git_ImportZip g i branch src baseSHA actor =
     check (refuseProtectedBranch branch)
    (case openZip (gc_Zip (gs_cfg g)) src of
       Inl e \<Rightarrow> throw e
     | Inr entries \<Rightarrow>
         bindE (withWriteLock g i
          (bindE (requireSite i) (\<lambda>_.
           bind (branchExists g i branch) (\<lambda>ex. case ex of
             Inl e \<Rightarrow> throw (wrapGit e)
           | Inr exists \<Rightarrow>
               bindE (if exists then
                        check (if baseSHA = [] then Some (base_required ''required for an existing branch'') else None)
                          (bindE (git_checkBaseSHA g i branch baseSHA []) (\<lambda>_. checkoutBranch g i branch))
                      else ok ()) (\<lambda>_.
               bindE (enforceQuota g i (zipEntriesBytes entries)) (\<lambda>_.
               bindE (replaceWorktree g i entries) (\<lambda>_.
               bindE (run_ok g i [''add'', ''-A'']) (\<lambda>_.
               bindE (run_ok g i [''status'', ''--porcelain'']) (\<lambda>status.
                 if trim_space status = [] then throw (Sentinel ErrNothingToCommit)
                 else bindE (commitStaged g i branch actor
                               (if Filename src = [] then ''Import archive'' else ''Import '' @ Filename src)) (\<lambda>ci.
                   bind (gcRepo g i) (\<lambda>_. ok ci)))))))))))
          (\<lambda>ci. after_write g i branch ci))"

end
