(* ===== verification/Git_Publish.thy ===== *)
theory Git_Publish
  imports Git_Service
begin

text \<open>
  Publishing, history, serving and the mirror operations of the git-backed service
  (\<open>backend/internal/site/git_service.go\<close>, \<open>git_helpers.go\<close>, \<open>mirror.go\<close>), each as a program.
\<close>

section \<open>Publish\<close>

text \<open>
  \<open>mergeIntoPublished\<close>: the conflicting paths with the error, or the merge commit. The three
  parts are the body with the merge, the frame that removes the work tree, and the frame that
  prunes and removes the temporary directory.
\<close>

definition merge_in_worktree ::
  "gitService \<Rightarrow> uuid \<Rightarrow> branch_name \<Rightarrow> string \<Rightarrow> Actor \<Rightarrow> string \<Rightarrow> string \<Rightarrow> (string list \<times> site_error + string) prog" where
  "merge_in_worktree g i src srcTip actor userMsg wt =
     (let msg = (if userMsg = [] then ''publish: '' @ src @ ''@'' @ take 7 srcTip else userMsg);
          args = [''merge'', ''--no-ff'', ''-m'', msg, srcTip] in
      bind do_clock (\<lambda>t.
      bind (do_git wt (authorEnv actor (format_rfc3339 t)) args) (\<lambda>(out, f). case git_error args f of
        Some err \<Rightarrow>
          bind (conflictPaths wt) (\<lambda>conflicts.
          bind (do_git wt [] [''merge'', ''--abort'']) (\<lambda>_. Ret (Inl (conflicts, wrapGit err))))
      | None \<Rightarrow>
          bind (revParse g i BranchPublished) (\<lambda>r. case r of
            Inl e \<Rightarrow> Ret (Inl ([], e)) | Inr h \<Rightarrow> Ret (Inr h)))))"

definition merge_with_worktree ::
  "gitService \<Rightarrow> uuid \<Rightarrow> branch_name \<Rightarrow> string \<Rightarrow> Actor \<Rightarrow> string \<Rightarrow> string \<Rightarrow> (string list \<times> site_error + string) prog" where
  "merge_with_worktree g i src srcTip actor userMsg wt =
     bind (git_run g i [''worktree'', ''add'', ''-f'', wt, BranchPublished]) (\<lambda>(out, e). case e of
       Some err \<Rightarrow> Ret (Inl ([], wrapGit err))
     | None \<Rightarrow> bind (merge_in_worktree g i src srcTip actor userMsg wt) (\<lambda>r.
         bind (git_run g i [''worktree'', ''remove'', ''--force'', wt]) (\<lambda>_. Ret r)))"

definition mergeIntoPublished ::
  "gitService \<Rightarrow> uuid \<Rightarrow> branch_name \<Rightarrow> string \<Rightarrow> Actor \<Rightarrow> string \<Rightarrow> (string list \<times> site_error + string) prog" where
  "mergeIntoPublished g i src srcTip actor userMsg =
     bind (do_text (RMkdirTemp [] ''kotoji-merge-*'')) (\<lambda>t. case t of
       Inl m \<Rightarrow> Ret (Inl ([], Wrapped ErrGit (''merge tmp: '' @ m)))
     | Inr wt \<Rightarrow> bind (merge_with_worktree g i src srcTip actor userMsg wt) (\<lambda>r.
         bind (git_run g i [''worktree'', ''prune'']) (\<lambda>_. bind (do_act (RRemoveAll wt)) (\<lambda>_. Ret r))))"

definition finishPublish :: "gitService \<Rightarrow> uuid \<Rightarrow> string \<Rightarrow> unit io" where
  "finishPublish g i h =
     bind (refreshServed g i BranchPublished) (\<lambda>_. act_or (RSetPublished i (Some h)) ''set published pointer: '')"

text \<open>Moving the published ref to a commit: \<open>update-ref\<close>, \<open>commitInfo\<close>, \<open>finishPublish\<close>.\<close>

definition move_published :: "gitService \<Rightarrow> uuid \<Rightarrow> string \<Rightarrow> CommitInfo io" where
  "move_published g i h =
     bindE (run_ok g i [''update-ref'', ''refs/heads/'' @ BranchPublished, h]) (\<lambda>_.
     bindE (commitInfo g i h) (\<lambda>ci. bindE (finishPublish g i h) (\<lambda>_. ok ci)))"

definition git_publish_locked :: "gitService \<Rightarrow> PublishInput \<Rightarrow> branch_name \<Rightarrow> CommitInfo io" where
  "git_publish_locked g inp src =
     (let i = pu_SiteID inp in
      bindE (requireSite i) (\<lambda>_.
      bindE (revParse g i src) (\<lambda>srcTip.
        if srcTip \<noteq> pu_BaseSHA inp then throw (ConflictError src (pu_BaseSHA inp) srcTip [])
        else bind (branchExists g i BranchPublished) (\<lambda>ex. case ex of
          Inl e \<Rightarrow> throw (wrapGit e)
        | Inr False \<Rightarrow> move_published g i srcTip
        | Inr True \<Rightarrow>
            bindE (revParse g i BranchPublished) (\<lambda>pubTip.
              if pubTip = srcTip then commitInfo g i pubTip
              else bind (runErr g i [''merge-base'', ''--is-ancestor'', BranchPublished, srcTip]) (\<lambda>ff.
                if ff = None then move_published g i srcTip
                else bind (mergeIntoPublished g i src srcTip (pu_Actor inp) (pu_Message inp)) (\<lambda>m. case m of
                  Inl (paths, e) \<Rightarrow> if paths \<noteq> [] then throw (PublishConflictError paths) else throw e
                | Inr h \<Rightarrow> bindE (commitInfo g i h) (\<lambda>ci. bindE (finishPublish g i h) (\<lambda>_. ok ci)))))))))"

definition git_Publish :: "gitService \<Rightarrow> PublishInput \<Rightarrow> CommitInfo io" where
  "git_Publish g inp =
     (let src = (if pu_From inp = [] then BranchDraft else pu_From inp) in
      check (if src = BranchPublished then Some (ValidationError ''from'' ''cannot publish from the published branch'') else None)
     (check (if pu_BaseSHA inp = [] then Some (base_required ''required (tip of the source branch)'') else None)
     (bindE (withWriteLock g (pu_SiteID inp) (git_publish_locked g inp src)) (\<lambda>ci.
        bind (bestEffortMirror g (pu_SiteID inp) BranchPublished) (\<lambda>_. ok ci)))))"

section \<open>History\<close>

definition path_args :: "string \<Rightarrow> string list" where
  "path_args p = (if p \<noteq> [] then [''--'', p] else [])"

definition git_GetDiff :: "gitService \<Rightarrow> DiffOptions \<Rightarrow> DiffResult io" where
  "git_GetDiff g inp =
     (let i = do_SiteID inp in
      withReadLock i
       (bindE (revParse g i (do_From inp)) (\<lambda>fromSHA.
        bind (if do_To inp = [] then Ret ([], [fromSHA])
              else bind (revParse g i (do_To inp)) (\<lambda>r.
                let toSHA = (case r of Inl _ \<Rightarrow> emptyTreeSHA | Inr h \<Rightarrow> h) in Ret (toSHA, [fromSHA, toSHA]))) (\<lambda>(toSHA, range).
        bindE (run_ok g i ([''diff'', ''--numstat''] @ range @ path_args (do_Path inp))) (\<lambda>numOut.
        bindE (run_ok g i ([''diff'', ''--name-status'', ''-M''] @ range @ path_args (do_Path inp))) (\<lambda>nsOut.
          let files = mergeDiff numOut nsOut in
          if do_NameStatus inp then ok \<lparr> dr_FromSHA = fromSHA, dr_ToSHA = toSHA, dr_Files = files \<rparr>
          else
            bindE (run_ok g i ([''diff'', ''--unified='' @ show_int (if do_ContextLines inp = 0 then 3 else do_ContextLines inp)] @
                     range @ path_args (do_Path inp))) (\<lambda>puOut.
              ok \<lparr> dr_FromSHA = fromSHA, dr_ToSHA = toSHA, dr_Files = attachPatches files puOut \<rparr>)))))))"

definition log_limit :: "gitService \<Rightarrow> int \<Rightarrow> int" where
  "log_limit g n =
     (let limit = (if n \<le> 0 then gc_ListLimit (gs_cfg g) else n)
      in if gc_MaxLogLimit (gs_cfg g) < limit then gc_MaxLogLimit (gs_cfg g) else limit)"

definition git_GetLog :: "gitService \<Rightarrow> LogOptions \<Rightarrow> CommitInfo list io" where
  "git_GetLog g inp =
     (let i = lo_SiteID inp in
      withReadLock i
       (bindE (revParse g i (lo_Branch inp)) (\<lambda>_.
        bindE (if lo_Before inp = [] then ok (lo_Branch inp)
               else bindE (revParse g i (lo_Before inp)) (\<lambda>before. ok (before @ ''^''))) (\<lambda>ref.
          bind (git_run g i ([''log'', ''-n'', show_int (log_limit g (lo_Limit inp)), logFormat, ref, ''--''] @
                  (if lo_Path inp \<noteq> [] then [lo_Path inp] else []))) (\<lambda>(out, e). case e of
            Some (GitError a code s) \<Rightarrow> ok []
          | Some err \<Rightarrow> throw (wrapGit err)
          | None \<Rightarrow> ok (parseLog out))))))"

definition git_Rollback ::
  "gitService \<Rightarrow> uuid \<Rightarrow> branch_name \<Rightarrow> string \<Rightarrow> string \<Rightarrow> Actor \<Rightarrow> CommitInfo io" where
  "git_Rollback g i branch toSHA baseSHA actor =
     check (refuseProtectedBranch branch)
    (check (if baseSHA = [] then Some (base_required ''required'') else None)
    (check (if toSHA = [] then Some (ValidationError ''toSha'' ''required'') else None)
    (bindE (withWriteLock g i
        (bindE (requireSite i) (\<lambda>_.
         bindE (git_checkBaseSHA g i branch baseSHA []) (\<lambda>_.
         bindE (revParse g i toSHA) (\<lambda>target.
         bind (runErr g i [''merge-base'', ''--is-ancestor'', target, branch]) (\<lambda>anc.
           if anc \<noteq> None then not_found
           else
             bindE (checkoutBranch g i branch) (\<lambda>_.
             bindE (run_ok g i [''read-tree'', target]) (\<lambda>_.
             bindE (run_ok g i [''checkout-index'', ''-a'', ''-f'']) (\<lambda>_.
             bindE (run_ok g i [''clean'', ''-fd'']) (\<lambda>_.
               commitStaged g i branch actor (''Rollback to '' @ take 7 target)))))))))))
       (\<lambda>ci. after_write g i branch ci))))"

section \<open>The data plane\<close>

definition git_ServedTree :: "gitService \<Rightarrow> uuid \<Rightarrow> branch_name \<Rightarrow> TreeHandle io" where
  "git_ServedTree g i branch =
     bindE (live_site ''load site: '' i) (\<lambda>_. withReadLock i
       (bindE (revParse g i branch) (\<lambda>h.
        bindE (ensureServed g i branch h) (\<lambda>_.
        bindE (commitInfo g i h) (\<lambda>ci.
          ok \<lparr> th_Root = g_served g i branch, th_CommitSHA = h, th_CommitTime = ci_Committed ci, th_Exists = True \<rparr>)))))"

definition git_find_handle :: "string \<Rightarrow> SiteRecord io" where
  "git_find_handle h =
     bind (do_row (RGetSiteByHandle h)) (\<lambda>r. case r of
       Inl e \<Rightarrow> git_failed (''resolve handle: '' @ e)
     | Inr (Some row) \<Rightarrow> ok row
     | Inr None \<Rightarrow> bind (do_row (RGetSiteByRedirect h)) (\<lambda>r2. case r2 of
         Inl e \<Rightarrow> git_failed (''resolve redirect: '' @ e)
       | Inr None \<Rightarrow> not_found
       | Inr (Some row) \<Rightarrow> ok row))"

definition git_ResolveForServing :: "gitService \<Rightarrow> string \<Rightarrow> ServeTarget io" where
  "git_ResolveForServing g hostOrPath =
     (case parseHostOrPath hostOrPath of
        Inl e \<Rightarrow> throw e
      | Inr (handle, branch) \<Rightarrow>
          check (if branch = BranchPublished \<and> contains hostOrPath doubleHyphen
                 then Some (ValidationError ''branch'' ''published is not addressable via --'') else None)
         (check (ValidateHandleForResolver handle)
         (check (if branch \<noteq> BranchPublished then validateBranchName branch else None)
         (bindE (git_find_handle (go_lower handle)) (\<lambda>row.
          bindE (git_ServedTree g (sr_ID row) branch) (\<lambda>th.
            ok \<lparr> sv_SiteID = sr_ID row, sv_Handle = sr_Handle row, sv_Branch = branch,
                 sv_Root = th_Root th, sv_HeadSHA = th_CommitSHA th \<rparr>))))))"

section \<open>Mirror operations\<close>

definition store_result :: "req \<Rightarrow> unit io" where
  "store_result r = bind (do_act r) (\<lambda>e. case e of Some m \<Rightarrow> throw (ForeignError m) | None \<Rightarrow> ok ())"

definition git_SetRemote :: "gitService \<Rightarrow> uuid \<Rightarrow> string \<Rightarrow> unit io" where
  "git_SetRemote g i url =
     bindE (live_site ''load site: '' i) (\<lambda>_.
       check (if url \<noteq> [] then validateRemoteURL (gs_parseIP g) url else None)
       (withWriteLock g i
         (if url = [] then
            bind (runErr g i [''remote'', ''remove'', ''origin'']) (\<lambda>_. store_result (RSetSiteRemote i None))
          else
            let norm = normalizeRemoteURL url in
            bind (runErr g i [''remote'', ''add'', ''origin'', norm]) (\<lambda>e.
            bindE (if e \<noteq> None then bindE (run_ok g i [''remote'', ''set-url'', ''origin'', norm]) (\<lambda>_. ok ()) else ok ()) (\<lambda>_.
              store_result (RSetSiteRemote i (Some url)))))))"

definition git_MirrorPush :: "gitService \<Rightarrow> uuid \<Rightarrow> branch_name list \<Rightarrow> unit io" where
  "git_MirrorPush g i names =
     bindE (load_site ''load site: '' i) (\<lambda>row.
       if row = None then not_found
       else withReadLock i
        (bind (runMirror g i ([''push'', ''--force-with-lease'', ''origin''] @ (if names = [] then [BranchPublished] else names)))
          (\<lambda>(out, e). case e of Some err \<Rightarrow> throw (wrapGit err) | None \<Rightarrow> ok ())))"

text \<open>\<open>FetchAndUpdate\<close> under the lock, after the fetch.\<close>

definition fast_forward_branch :: "gitService \<Rightarrow> uuid \<Rightarrow> branch_name \<Rightarrow> CommitInfo io" where
  "fast_forward_branch g i branch =
     (let move = (\<lambda>h. bindE (run_ok g i [''update-ref'', ''refs/heads/'' @ branch, h]) (\<lambda>_. commitInfo g i h)) in
      bind (revParse g i branch) (\<lambda>lt.
      bindE (revParse g i (''origin/'' @ branch)) (\<lambda>remoteTip. case lt of
        Inl _ \<Rightarrow> bindE (move remoteTip) (\<lambda>ci. bind (refreshServed g i branch) (\<lambda>_. ok ci))
      | Inr localTip \<Rightarrow>
          if localTip = remoteTip then commitInfo g i localTip
          else bind (runErr g i [''merge-base'', ''--is-ancestor'', localTip, remoteTip]) (\<lambda>anc.
            if anc \<noteq> None then throw (PublishConflictError [])
            else bindE (move remoteTip) (\<lambda>ci.
              bind (refreshServed g i branch) (\<lambda>_.
                if branch = BranchPublished then bind (do_act (RSetPublished i (Some remoteTip))) (\<lambda>_. ok ci)
                else ok ci))))))"

definition git_FetchAndUpdate :: "gitService \<Rightarrow> uuid \<Rightarrow> branch_name \<Rightarrow> CommitInfo io" where
  "git_FetchAndUpdate g i branch =
     bindE (load_site ''load site: '' i) (\<lambda>row.
       if row = None then not_found
       else withWriteLock g i
        (bind (runMirror g i [''fetch'', ''origin'', branch]) (\<lambda>(out, e). case e of
           Some err \<Rightarrow> throw (wrapGit err)
         | None \<Rightarrow> fast_forward_branch g i branch)))"

end
