(* ===== verification/Git_Args.thy ===== *)
theory Git_Args
  imports Git_Publish
begin

text \<open>
  All methods of the git-backed service as one family of programs, and the safety of the
  command lines they build: text that comes from a caller is never read by git as an option.
\<close>

section \<open>The methods of the service\<close>

datatype git_op =
    GCreateSite CreateSiteInput
  | GGetSite uuid
  | GGetSiteByHandle handle
  | GListSites uuid
  | GRenameHandle uuid handle
  | GDeleteSite uuid
  | GListBranches uuid
  | GCreateBranch uuid branch_name string
  | GDeleteBranch uuid branch_name
  | GListFiles ListFilesInput
  | GReadFile uuid branch_name string string
  | GWriteFile WriteFileInput
  | GDeleteFile uuid branch_name string string Actor
  | GCommit CommitInput
  | GImportZip uuid branch_name ZipSource string Actor
  | GPublish PublishInput
  | GGetDiff DiffOptions
  | GGetLog LogOptions
  | GRollback uuid branch_name string string Actor
  | GServedTree uuid branch_name
  | GResolveForServing string
  | GSetRemote uuid string
  | GMirrorPush uuid "branch_name list"
  | GFetchAndUpdate uuid branch_name

definition outcome :: "'a io \<Rightarrow> site_error option prog" where
  "outcome p = bind p (\<lambda>r. Ret (case r of Inl e \<Rightarrow> Some e | Inr _ \<Rightarrow> None))"

text \<open>The program of a call, reduced to its error.\<close>

fun git_call :: "gitService \<Rightarrow> git_op \<Rightarrow> site_error option prog" where
  "git_call g (GCreateSite inp) = outcome (git_CreateSite g inp)"
| "git_call g (GGetSite i) = outcome (git_GetSite i)"
| "git_call g (GGetSiteByHandle h) = outcome (git_GetSiteByHandle h)"
| "git_call g (GListSites o1) = outcome (git_ListSites o1)"
| "git_call g (GRenameHandle i h) = outcome (git_RenameHandle i h)"
| "git_call g (GDeleteSite i) = outcome (git_DeleteSite i)"
| "git_call g (GListBranches i) = outcome (git_ListBranches g i)"
| "git_call g (GCreateBranch i n src) = outcome (git_CreateBranch g i n src)"
| "git_call g (GDeleteBranch i n) = outcome (git_DeleteBranch g i n)"
| "git_call g (GListFiles inp) = outcome (git_ListFiles g inp)"
| "git_call g (GReadFile i b ref p) = outcome (git_ReadFile g i b ref p)"
| "git_call g (GWriteFile inp) = outcome (git_WriteFile g inp)"
| "git_call g (GDeleteFile i b p base a) = outcome (git_DeleteFile g i b p base a)"
| "git_call g (GCommit inp) = outcome (git_Commit g inp)"
| "git_call g (GImportZip i b z base a) = outcome (git_ImportZip g i b z base a)"
| "git_call g (GPublish inp) = outcome (git_Publish g inp)"
| "git_call g (GGetDiff inp) = outcome (git_GetDiff g inp)"
| "git_call g (GGetLog inp) = outcome (git_GetLog g inp)"
| "git_call g (GRollback i b t base a) = outcome (git_Rollback g i b t base a)"
| "git_call g (GServedTree i b) = outcome (git_ServedTree g i b)"
| "git_call g (GResolveForServing h) = outcome (git_ResolveForServing g h)"
| "git_call g (GSetRemote i u) = outcome (git_SetRemote g i u)"
| "git_call g (GMirrorPush i bs) = outcome (git_MirrorPush g i bs)"
| "git_call g (GFetchAndUpdate i b) = outcome (git_FetchAndUpdate g i b)"

text \<open>The branch texts a call takes from its caller.\<close>

fun op_branches :: "git_op \<Rightarrow> branch_name list" where
  "op_branches (GDeleteBranch i n) = [n]"
| "op_branches (GWriteFile inp) = [wf_Branch inp]"
| "op_branches (GDeleteFile i b p base a) = [b]"
| "op_branches (GCommit inp) = [cm_Branch inp]"
| "op_branches (GImportZip i b z base a) = [b]"
| "op_branches (GGetLog inp) = [lo_Branch inp]"
| "op_branches (GRollback i b t base a) = [b]"
| "op_branches (GServedTree i b) = [b]"
| "op_branches (GMirrorPush i bs) = bs"
| "op_branches (GFetchAndUpdate i b) = [b]"
| "op_branches _ = []"

section \<open>Command lines\<close>

definition fixed_options :: "string list" where
  "fixed_options =
     [''--verify'', ''--quiet'', ''--name-only'', ''--short'', ''-s'', logFormat, ''-u'', ''--format=tar'',
      ''--auto'', ''--prune=now'', ''--force-with-lease'', ''-A'', ''--format=%(refname:short) %(objectname)'',
      ''-D'', ''--long'', ''-r'', ''-p'', ''--porcelain'', ''--no-ff'', ''--abort'', ''-f'', ''--force'',
      ''--is-ancestor'', ''--numstat'', ''--name-status'', ''-M'', ''-a'', ''-fd'']"

text \<open>
  A command line is safe when everything in it that git could read as an option is one of the
  options written in the code. Behind \<open>--\<close> and \<open>--end-of-options\<close> nothing is an option, and the
  word after \<open>-m\<close>, \<open>-n\<close> or \<open>-b\<close> is the value of that option.
\<close>

definition ends_options :: "string \<Rightarrow> bool" where
  "ends_options a \<longleftrightarrow> a = ''--'' \<or> a = ''--end-of-options''"

definition takes_value :: "string \<Rightarrow> bool" where
  "takes_value a \<longleftrightarrow> a = ''-m'' \<or> a = ''-n'' \<or> a = ''-b''"

definition written_option :: "string \<Rightarrow> bool" where
  "written_option a \<longleftrightarrow>
     a \<in> set fixed_options \<or> has_prefix a ''--trailer=Kotoji-Via: '' \<or> has_prefix a ''--unified=''"

fun safe_args :: "string list \<Rightarrow> bool" where
  "safe_args [] = True"
| "safe_args (a # as) =
     (if ends_options a then True
      else if takes_value a then safe_args (drop 1 as)
      else (has_prefix a ''-'' \<longrightarrow> written_option a) \<and> safe_args as)"

fun cmd_ok :: "req \<Rightarrow> bool" where
  "cmd_ok (RGit dir env args) = safe_args args"
| "cmd_ok _ = True"

text \<open>
  What is relied on: \<open>rev-parse\<close> and \<open>for-each-ref\<close> print object names, and a temporary directory
  has an absolute path.
\<close>

definition undashed :: "string \<Rightarrow> bool" where
  "undashed s \<longleftrightarrow> s \<noteq> [] \<and> \<not> has_prefix s ''-''"

fun git_prints_names :: "req \<Rightarrow> ans \<Rightarrow> bool" where
  "git_prints_names (RGit dir env args) (AGit out None) =
     (if take 1 args = [''rev-parse''] then trim_space out = [] \<or> undashed (trim_space out)
      else if take 1 args = [''for-each-ref''] then
        (\<forall>line \<in> set (split_on nl (trim_space out)). \<forall>name h rest. go_fields line = name # h # rest \<longrightarrow> undashed h)
      else True)"
| "git_prints_names (RMkdirTemp dir pat) (AText (Inr p)) = has_prefix p [slash]"
| "git_prints_names _ _ = True"

abbreviation cmds :: "('a \<Rightarrow> bool) \<Rightarrow> 'a prog \<Rightarrow> bool" where
  "cmds \<equiv> safe git_prints_names cmd_ok"

lemma undashed_append [simp]: "undashed a \<Longrightarrow> undashed (a @ b)"
  by (cases a) (auto simp: undashed_def)

lemma undashedD [simp]: "undashed a \<Longrightarrow> \<not> has_prefix a ''-''"
  by (simp add: undashed_def)

lemma safe_args_operand [simp]: "\<not> has_prefix a ''-'' \<Longrightarrow> safe_args (a # as) = safe_args as"
  by (auto simp: ends_options_def takes_value_def)

lemma safe_args_ends [simp]: "safe_args (''--'' # as)" "safe_args (''--end-of-options'' # as)"
  by (simp_all add: ends_options_def)

lemma safe_args_value [simp]: "safe_args (''-m'' # v # as) = safe_args as"
  "safe_args (''-n'' # v # as) = safe_args as" "safe_args (''-b'' # v # as) = safe_args as"
  by (simp_all add: ends_options_def takes_value_def)

lemma safe_args_written:
  assumes "written_option a"
  shows "safe_args (a # as) = safe_args as"
proof -
  have "\<not> ends_options a" "\<not> takes_value a"
    using assms by (auto simp: written_option_def fixed_options_def logFormat_def ends_options_def takes_value_def)
  then show ?thesis using assms by simp
qed

declare safe_args.simps(2) [simp del]

lemma undashed_Cons [simp]: "undashed (c # s) \<longleftrightarrow> c \<noteq> CHR ''-''"
  by (auto simp: undashed_def)

lemma undashed_names [simp]: "undashed BranchDraft" "undashed BranchPublished" "undashed emptyTreeSHA"
  by (simp_all add: BranchDraft_def BranchPublished_def emptyTreeSHA_def)

lemma safe_args_literals [simp]:
  "safe_args (''--verify'' # as) = safe_args as"
  "safe_args (''--quiet'' # as) = safe_args as"
  "safe_args (''--name-only'' # as) = safe_args as"
  "safe_args (''--short'' # as) = safe_args as"
  "safe_args (''-s'' # as) = safe_args as"
  "safe_args (''-u'' # as) = safe_args as"
  "safe_args (''--format=tar'' # as) = safe_args as"
  "safe_args (''--auto'' # as) = safe_args as"
  "safe_args (''--prune=now'' # as) = safe_args as"
  "safe_args (''--force-with-lease'' # as) = safe_args as"
  "safe_args (''-A'' # as) = safe_args as"
  "safe_args (''--format=%(refname:short) %(objectname)'' # as) = safe_args as"
  "safe_args (''-D'' # as) = safe_args as"
  "safe_args (''--long'' # as) = safe_args as"
  "safe_args (''-r'' # as) = safe_args as"
  "safe_args (''-p'' # as) = safe_args as"
  "safe_args (''--porcelain'' # as) = safe_args as"
  "safe_args (''--no-ff'' # as) = safe_args as"
  "safe_args (''--abort'' # as) = safe_args as"
  "safe_args (''-f'' # as) = safe_args as"
  "safe_args (''--force'' # as) = safe_args as"
  "safe_args (''--is-ancestor'' # as) = safe_args as"
  "safe_args (''--numstat'' # as) = safe_args as"
  "safe_args (''--name-status'' # as) = safe_args as"
  "safe_args (''-M'' # as) = safe_args as"
  "safe_args (''-a'' # as) = safe_args as"
  "safe_args (''-fd'' # as) = safe_args as"
  "safe_args (logFormat # as) = safe_args as"
  by (simp_all only: safe_args_written written_option_def fixed_options_def list.set_intros set_simps insert_iff simp_thms)

lemma safe_args_built [simp]:
  "safe_args (viaTrailer a # as) = safe_args as" "safe_args ((''--unified='' @ v) # as) = safe_args as"
  by (rule safe_args_written; simp add: written_option_def viaTrailer_def viaKey_def)+

lemmas safe_args_unified [simp] = safe_args_built(2) [unfolded append_Cons append_Nil]

section \<open>Programs with safe command lines\<close>

named_theorems cmds_intro \<open>programs with safe command lines\<close>

lemma git_run_cmds [cmds_intro]: "safe_args args \<Longrightarrow> cmds (\<lambda>_. True) (git_run g i args)"
  by (simp add: git_run_def do_git_def safe_bind split: prod.splits)

lemma runErr_cmds [cmds_intro]: "safe_args args \<Longrightarrow> cmds (\<lambda>_. True) (runErr g i args)"
  by (simp add: runErr_def git_run_def do_git_def safe_bind split: prod.splits)

lemma run_ok_cmds [cmds_intro]: "safe_args args \<Longrightarrow> cmds (\<lambda>_. True) (run_ok g i args)"
  by (simp add: run_ok_def git_run_def do_git_def safe_bind split: prod.splits option.splits)

lemma runEnv_cmds [cmds_intro]: "safe_args args \<Longrightarrow> cmds (\<lambda>_. True) (runEnv g i a args)"
  by (simp add: runEnv_def do_git_def do_clock_def safe_bind split: prod.splits)

lemma runMirror_cmds [cmds_intro]: "safe_args args \<Longrightarrow> cmds (\<lambda>_. True) (runMirror g i args)"
  by (simp add: runMirror_def mirrorAuthEnv_def mirrorCreds_def do_creds_def do_git_def safe_bind split: prod.splits)

text \<open>A resolved revision is not empty and does not begin with a dash.\<close>

lemma revParse_cmds [cmds_intro]: "cmds (\<lambda>r. case r of Inl e \<Rightarrow> True | Inr h \<Rightarrow> undashed h) (revParse g i ref)"
proof -
  define args where "args = [''rev-parse'', ''--verify'', ''--quiet'', ''--end-of-options'', ref @ ''^{commit}'']"
  let ?r = "RGit (g_repo g i) [] args"
  let ?h = "\<lambda>out. trim_space out"
  have law: "take (Suc 0) args = [''rev-parse'']" by (simp add: args_def)
  have args: "safe_args args" by (simp add: args_def)
  have "revParse g i ref = Do ?r (\<lambda>a. case a of
      AGit out f \<Rightarrow> if f \<noteq> None \<or> ?h out = [] then not_found else ok (?h out) | _ \<Rightarrow> not_found)"
    by (auto simp: revParse_def git_run_def do_git_def args_def git_error_def Let_def fun_eq_iff split: ans.splits)
  then show ?thesis using args law by (auto split: ans.splits option.splits)
qed

named_theorems cmds_first \<open>the binds whose first result carries information\<close>

lemma bind_rev [cmds_first]:
  assumes "\<And>r. (\<And>h. r = Inr h \<Longrightarrow> undashed h) \<Longrightarrow> cmds (\<lambda>_. True) (f r)"
  shows "cmds (\<lambda>_. True) (bind (revParse g i ref) f)"
  using revParse_cmds by (rule safe_bindI) (auto intro: assms split: sum.splits)

lemma bindE_rev [cmds_first]:
  assumes "\<And>h. undashed h \<Longrightarrow> cmds (\<lambda>_. True) (f h)"
  shows "cmds (\<lambda>_. True) (bindE (revParse g i ref) f)"
  using revParse_cmds by (rule safe_bindEI) (auto intro: assms)

lemma bind_temp [cmds_first]:
  assumes "\<And>r. (\<And>p. r = Inr p \<Longrightarrow> undashed p) \<Longrightarrow> cmds (\<lambda>_. True) (f r)"
  shows "cmds (\<lambda>_. True) (bind (do_text (RMkdirTemp d pat)) f)"
proof -
  have "undashed p" if "has_prefix p [slash]" for p using that by (cases p) auto
  then show ?thesis unfolding do_text_def by (auto intro!: assms split: ans.splits sum.splits)
qed

lemma branchExists_cmds [cmds_intro]: "cmds (\<lambda>_. True) (branchExists g i b)"
  unfolding branchExists_def by (rule safe_seq, rule git_run_cmds) (auto split: prod.splits option.splits site_error.splits)

lemma withWriteLock_cmds [cmds_intro]: "cmds (\<lambda>_. True) fn \<Longrightarrow> cmds (\<lambda>_. True) (withWriteLock g i fn)"
  unfolding withWriteLock_def acquireFileLock_def
  by (rule cmds_first cmds_intro safe_intro | assumption | simp)+

lemma withReadLock_cmds [cmds_intro]: "cmds (\<lambda>_. True) fn \<Longrightarrow> cmds (\<lambda>_. True) (withReadLock i fn)"
  unfolding withReadLock_def by (rule cmds_first cmds_intro safe_intro | assumption | simp)+

lemma act_or_cmds [cmds_intro]: "cmd_ok r \<Longrightarrow> cmds (\<lambda>_. True) (act_or r what)"
  unfolding act_or_def by (rule cmds_first cmds_intro safe_intro | simp)+

lemma load_site_cmds [cmds_intro]:
  "cmds (\<lambda>_. True) (load_site what i)" "cmds (\<lambda>_. True) (live_site what i)" "cmds (\<lambda>_. True) (requireSite i)"
  unfolding requireSite_def live_site_def load_site_def by (rule cmds_first cmds_intro safe_intro | simp)+

lemma changedPaths_cmds [cmds_intro]: "cmds (\<lambda>_. True) (changedPaths g i a b)"
  unfolding changedPaths_def by (rule cmds_first cmds_intro safe_intro | simp)+

lemma checkBase_cmds [cmds_intro]: "cmds (\<lambda>_. True) (git_checkBaseSHA g i b base hint)"
  unfolding git_checkBaseSHA_def by (rule cmds_first cmds_intro safe_intro | simp)+

lemma checkout_cmds [cmds_intro]: "\<not> has_prefix b ''-'' \<Longrightarrow> cmds (\<lambda>_. True) (checkoutBranch g i b)"
  unfolding checkoutBranch_def by (rule cmds_first cmds_intro safe_intro | simp)+

lemma commitInfo_cmds [cmds_intro]: "undashed h \<Longrightarrow> cmds (\<lambda>_. True) (commitInfo g i h)"
  unfolding commitInfo_def by (rule cmds_first cmds_intro safe_intro | simp split: list.splits)+

lemma commitStaged_cmds [cmds_intro]: "cmds (\<lambda>_. True) (commitStaged g i b a msg)"
  unfolding commitStaged_def by (rule cmds_first cmds_intro safe_intro | simp)+

lemma conflictPaths_cmds [cmds_intro]: "cmds (\<lambda>_. True) (conflictPaths wt)"
  unfolding conflictPaths_def by (rule cmds_first cmds_intro safe_intro | simp)+

lemma extract_entry_cmds [cmds_intro]: "cmds (\<lambda>_. True) (extract_entry dst hdr)"
  unfolding extract_entry_def Let_def by (rule cmds_first cmds_intro safe_intro conjI impI | simp split: tar_type.splits)+

lemma extract_entries_cmds [cmds_intro]: "cmds (\<lambda>_. True) (extract_entries dst hdrs ended)"
  by (induction hdrs) (simp, (rule cmds_first cmds_intro safe_intro | simp)+)

lemma extractTar_cmds [cmds_intro]: "cmds (\<lambda>_. True) (extractTar g bytes dst)"
  unfolding extractTar_def by (rule cmds_first cmds_intro safe_intro | simp)+

lemma build_served_cmds [cmds_intro]: "undashed h \<Longrightarrow> cmds (\<lambda>_. True) (build_served g i h tmp dst)"
  unfolding build_served_def by (rule cmds_first cmds_intro safe_intro | simp)+

lemma ensureServed_cmds [cmds_intro]: "undashed h \<Longrightarrow> cmds (\<lambda>_. True) (ensureServed g i b h)"
  unfolding ensureServed_def Let_def by (rule cmds_first cmds_intro safe_intro | simp)+

lemma refreshServed_cmds [cmds_intro]: "cmds (\<lambda>_. True) (refreshServed g i b)"
  unfolding refreshServed_def by (rule cmds_first cmds_intro safe_intro | simp)+

lemma repoDiskSize_cmds [cmds_intro]: "cmds (\<lambda>_. True) (repoDiskSize g i)"
  unfolding repoDiskSize_def Let_def by (rule cmds_first cmds_intro safe_intro | simp)+

lemma enforceQuota_cmds [cmds_intro]: "cmds (\<lambda>_. True) (enforceQuota g i n)"
  unfolding enforceQuota_def Let_def by (rule cmds_first cmds_intro safe_intro | simp)+

lemma gcRepo_cmds [cmds_intro]: "cmds (\<lambda>_. True) (gcRepo g i)"
  unfolding gcRepo_def by (rule cmds_first cmds_intro safe_intro | simp)+

lemma mirrorEnabled_cmds [cmds_intro]: "cmds (\<lambda>_. True) (mirrorEnabled g)"
  unfolding mirrorEnabled_def by (rule cmds_first cmds_intro safe_intro | simp)+

lemma bestEffortMirror_cmds [cmds_intro]: "\<not> has_prefix b ''-'' \<Longrightarrow> cmds (\<lambda>_. True) (bestEffortMirror g i b)"
  unfolding bestEffortMirror_def by (rule cmds_first cmds_intro safe_intro | simp)+

lemma after_write_cmds [cmds_intro]: "\<not> has_prefix b ''-'' \<Longrightarrow> cmds (\<lambda>_. True) (after_write g i b ci)"
  unfolding after_write_def by (rule cmds_first cmds_intro safe_intro | simp)+

lemma write_entries_cmds [cmds_intro]: "cmds (\<lambda>_. True) (write_entries root es)"
  by (induction es) (simp, unfold write_entries.simps Let_def, (rule cmds_first cmds_intro safe_intro | simp)+)

lemma clear_worktree_cmds [cmds_intro]: "cmds (\<lambda>_. True) (clear_worktree root names)"
  by (induction names) (simp, unfold clear_worktree.simps, (rule cmds_first cmds_intro safe_intro | simp)+)

lemma replaceWorktree_cmds [cmds_intro]: "cmds (\<lambda>_. True) (replaceWorktree g i es)"
  unfolding replaceWorktree_def Let_def by (rule cmds_first cmds_intro safe_intro | simp)+

lemma extractZip_cmds [cmds_intro]: "cmds (\<lambda>_. True) (extractZipToWorktree g dir src)"
  unfolding extractZipToWorktree_def by (rule cmds_first cmds_intro safe_intro | simp)+

lemma handle_taken_cmds [cmds_intro]: "cmds (\<lambda>_. True) (handle_taken h)"
  unfolding handle_taken_def by (rule cmds_first cmds_intro safe_intro | simp)+

section \<open>The methods\<close>

lemma trim_left_dash: "has_prefix s ''-'' \<Longrightarrow> has_prefix (trim_space s) ''-''"
proof -
  assume "has_prefix s ''-''"
  then obtain t where s: "s = CHR ''-'' # t" by (cases s) auto
  have "trim_left is_space s = s" by (simp add: s trim_left_def is_space_def)
  moreover have "trim_right is_space (CHR ''-'' # t) = CHR ''-'' # rev (dropWhile is_space (rev t))"
    by (simp add: trim_right_def dropWhile_append is_space_def)
  ultimately show ?thesis by (simp add: trim_space_def s)
qed

lemma remote_undashed: "validateRemoteURL ip url = None \<Longrightarrow> \<not> has_prefix (normalizeRemoteURL url) ''-''"
  using trim_left_dash [of url]
  by (auto simp: validateRemoteURL_def normalizeRemoteURL_def Let_def remote_error_def split: if_splits)

lemma branch_undashed: "validateBranchName b = None \<Longrightarrow> \<not> has_prefix b ''-''"
  by (cases b) (auto simp: validateBranchName_iff host_label_def is_alnum_lower_def Let_def)

lemma initRepo_cmds [cmds_intro]: "(cs_GitHubRepo inp \<noteq> [] \<longrightarrow> validateRemoteURL ip (cs_GitHubRepo inp) = None) \<Longrightarrow> cmds (\<lambda>_. True) (initRepo g i inp)"
  unfolding initRepo_def Let_def
  by (rule cmds_first cmds_intro safe_intro | simp add: remote_undashed)+

lemma CreateSite_cmds [cmds_intro]: "cmds (\<lambda>_. True) (git_CreateSite g inp)"
  unfolding git_CreateSite_def
  by (rule cmds_first cmds_intro safe_intro | simp split: if_splits)+

lemma lookup_cmds [cmds_intro]: "cmds (\<lambda>_. True) (git_GetSite i)" "cmds (\<lambda>_. True) (git_GetSiteByHandle h)" "cmds (\<lambda>_. True) (git_ListSites o1)"
  unfolding git_GetSite_def git_GetSiteByHandle_def git_ListSites_def
  by (rule cmds_first cmds_intro safe_intro | simp)+

lemma RenameHandle_cmds [cmds_intro]: "cmds (\<lambda>_. True) (git_RenameHandle i h)"
  unfolding git_RenameHandle_def isOwnRedirect_def Let_def
  by (rule cmds_first cmds_intro safe_intro | simp)+

lemma DeleteSite_cmds [cmds_intro]: "cmds (\<lambda>_. True) (git_DeleteSite i)"
  unfolding git_DeleteSite_def
  by (rule cmds_first cmds_intro safe_intro | simp)+

lemma CreateBranch_cmds [cmds_intro]: "cmds (\<lambda>_. True) (git_CreateBranch g i n src)"
  unfolding git_CreateBranch_def Let_def
  by (rule cmds_first cmds_intro safe_intro | simp add: branch_undashed)+

lemma DeleteBranch_cmds [cmds_intro]: "\<not> has_prefix n ''-'' \<Longrightarrow> cmds (\<lambda>_. True) (git_DeleteBranch g i n)"
  unfolding git_DeleteBranch_def
  by (rule cmds_first cmds_intro safe_intro | simp)+

lemma ListFiles_cmds [cmds_intro]: "cmds (\<lambda>_. True) (git_ListFiles g inp)"
  unfolding git_ListFiles_def
  by (rule cmds_first cmds_intro safe_intro | simp)+

lemma ReadFile_cmds [cmds_intro]: "cmds (\<lambda>_. True) (git_ReadFile g i b ref p)"
  unfolding git_ReadFile_def Let_def
  by (rule cmds_first cmds_intro safe_intro | simp)+

lemma WriteFile_cmds [cmds_intro]: "\<not> has_prefix (wf_Branch inp) ''-'' \<Longrightarrow> cmds (\<lambda>_. True) (git_WriteFile g inp)"
  unfolding git_WriteFile_def Let_def
  by (rule cmds_first cmds_intro safe_intro | simp)+

lemma DeleteFile_cmds [cmds_intro]: "\<not> has_prefix b ''-'' \<Longrightarrow> cmds (\<lambda>_. True) (git_DeleteFile g i b p base a)"
  unfolding git_DeleteFile_def
  by (rule cmds_first cmds_intro safe_intro | simp)+

lemma Commit_cmds [cmds_intro]: "\<not> has_prefix (cm_Branch inp) ''-'' \<Longrightarrow> cmds (\<lambda>_. True) (git_Commit g inp)"
  unfolding git_Commit_def Let_def
  by (rule cmds_first cmds_intro safe_intro | simp)+

lemma ImportZip_cmds [cmds_intro]: "\<not> has_prefix b ''-'' \<Longrightarrow> cmds (\<lambda>_. True) (git_ImportZip g i b z base a)"
  unfolding git_ImportZip_def
  by (rule cmds_first cmds_intro safe_intro | simp)+

lemma branch_entries_cmds:
  assumes "\<forall>line \<in> set ls. \<forall>name h rest. go_fields line = name # h # rest \<longrightarrow> undashed h"
  shows "cmds (\<lambda>_. True) (branch_entries g i row ls)"
  using assms
proof (induction ls)
  case (Cons l ls)
  then have IH: "cmds (\<lambda>_. True) (branch_entries g i row ls)" by simp
  show ?case
  proof (cases "go_fields l")
    case (Cons name hs)
    then show ?thesis using IH Cons.prems
      by (cases hs) (simp_all, (rule cmds_first cmds_intro safe_intro IH | simp)+)
  qed (use IH in simp)
qed simp

lemma ListBranches_cmds [cmds_intro]: "cmds (\<lambda>_. True) (git_ListBranches g i)"
proof -
  define args where "args = [''for-each-ref'', ''--format=%(refname:short) %(objectname)'', ''refs/heads/'']"
  have args: "safe_args args" "take (Suc 0) args \<noteq> [''rev-parse'']" "take (Suc 0) args = [''for-each-ref'']"
    by (simp_all add: args_def)
  let ?fine = "\<lambda>out. \<forall>line \<in> set (split_on nl (trim_space out)). \<forall>name h rest. go_fields line = name # h # rest \<longrightarrow> undashed h"
  have "run_ok g i args = Do (RGit (g_repo g i) [] args) (\<lambda>a. case a of
      AGit out f \<Rightarrow> (case git_error args f of None \<Rightarrow> ok out | Some err \<Rightarrow> throw (wrapGit err))
    | _ \<Rightarrow> throw (wrapGit (GitError args (- 1) [])))"
    by (auto simp: run_ok_def git_run_def do_git_def git_error_def fun_eq_iff split: ans.splits)
  then have "cmds (\<lambda>r. case r of Inl e \<Rightarrow> True | Inr out \<Rightarrow> ?fine out) (run_ok g i args)"
    using args by (auto simp: git_error_def split: ans.splits option.splits)
  then have "cmds (\<lambda>_. True) (bindE (run_ok g i args) (\<lambda>out. branch_entries g i row (split_on nl (trim_space out))))" for row
    by (rule safe_bindEI) (rule branch_entries_cmds)
  then show ?thesis unfolding git_ListBranches_def args_def
    by (intro safe_seqE [OF load_site_cmds(2)] withReadLock_cmds)
qed

lemma merge_in_cmds [cmds_intro]: "undashed h \<Longrightarrow> undashed wt \<Longrightarrow> cmds (\<lambda>_. True) (merge_in_worktree g i src h a msg wt)"
  unfolding merge_in_worktree_def Let_def
  by (rule cmds_first cmds_intro safe_intro | simp)+

lemma merge_with_cmds [cmds_intro]: "undashed h \<Longrightarrow> undashed wt \<Longrightarrow> cmds (\<lambda>_. True) (merge_with_worktree g i src h a msg wt)"
  unfolding merge_with_worktree_def
  by (rule cmds_first cmds_intro safe_intro | simp)+

lemma mergeInto_cmds: "undashed h \<Longrightarrow> cmds (\<lambda>_. True) (mergeIntoPublished g i src h a msg)"
  unfolding mergeIntoPublished_def
  by (rule cmds_first cmds_intro safe_intro | simp)+

lemma finish_cmds [cmds_intro]: "cmds (\<lambda>_. True) (finishPublish g i h)"
  unfolding finishPublish_def
  by (rule cmds_first cmds_intro safe_intro | simp)+

lemma move_cmds [cmds_intro]: "undashed h \<Longrightarrow> cmds (\<lambda>_. True) (move_published g i h)"
  unfolding move_published_def
  by (rule cmds_first cmds_intro safe_intro | simp)+

text \<open>A successful merge resolves the published branch anew.\<close>

lemma merge_result:
  assumes "undashed h"
  shows "cmds (\<lambda>r. case r of Inl e \<Rightarrow> True | Inr h' \<Rightarrow> undashed h') (mergeIntoPublished g i src h a msg)"
proof -
  let ?Q = "\<lambda>r. case r of Inl e \<Rightarrow> True | Inr h' \<Rightarrow> undashed h'"
  have temp: "undashed p" if "has_prefix p [slash]" for p using that by (cases p) auto
  have body: "cmds ?Q (merge_in_worktree g i src h a msg wt)" for wt
    unfolding merge_in_worktree_def Let_def
    by (intro safe_then [OF safe_requests(6)] safe_then [OF safe_requests(1)] safe_pair safe_option
        safe_then [OF conflictPaths_cmds] safe_bindI [OF revParse_cmds])
      (simp_all add: assms split: sum.splits)
  have frame: "cmds ?Q (merge_with_worktree g i src h a msg wt)" if "undashed wt" for wt
    unfolding merge_with_worktree_def
    by (intro safe_then [OF git_run_cmds] safe_pair safe_option safe_bindI [OF body]) (simp_all add: that)
  have "cmds (\<lambda>r. case r of Inl e \<Rightarrow> True | Inr p \<Rightarrow> undashed p) (do_text (RMkdirTemp [] ''kotoji-merge-*''))"
    using temp by (auto simp: do_text_def split: ans.splits sum.splits)
  then show ?thesis unfolding mergeIntoPublished_def
    by (rule safe_bindI)
      (auto intro!: safe_bindI [OF frame] safe_then [OF git_run_cmds] safe_then [OF safe_requests(2)] split: sum.splits)
qed

lemma bind_merge [cmds_first]:
  assumes "undashed h" and "\<And>r. (\<And>h'. r = Inr h' \<Longrightarrow> undashed h') \<Longrightarrow> cmds (\<lambda>_. True) (f r)"
  shows "cmds (\<lambda>_. True) (bind (mergeIntoPublished g i src h a msg) f)"
  using merge_result [OF assms(1)] by (rule safe_bindI) (auto intro: assms(2) split: sum.splits)

lemma publish_locked_cmds [cmds_intro]: "cmds (\<lambda>_. True) (git_publish_locked g inp src)"
  unfolding git_publish_locked_def Let_def
  by (rule cmds_first cmds_intro safe_intro | simp)+

lemma Publish_cmds [cmds_intro]: "cmds (\<lambda>_. True) (git_Publish g inp)"
  unfolding git_Publish_def Let_def
  by (rule cmds_first cmds_intro safe_intro | simp)+

text \<open>The revision range of a diff is one object name or two.\<close>

lemma GetDiff_cmds [cmds_intro]: "cmds (\<lambda>_. True) (git_GetDiff g inp)"
proof -
  let ?range = "\<lambda>(t, rng). (\<forall>x \<in> set rng. undashed x)"
  have ops: "safe_args (rng @ path_args p)" if "\<forall>x \<in> set rng. undashed x" for rng p
    using that by (induction rng) (auto simp: path_args_def)
  have body: "cmds (\<lambda>_. True) (bind (if do_To inp = [] then Ret ([], [fromSHA])
              else bind (revParse g i (do_To inp)) (\<lambda>r.
                let toSHA = (case r of Inl _ \<Rightarrow> emptyTreeSHA | Inr h \<Rightarrow> h) in Ret (toSHA, [fromSHA, toSHA]))) f)"
    if "undashed fromSHA" "\<And>t rng. \<forall>x \<in> set rng. undashed x \<Longrightarrow> cmds (\<lambda>_. True) (f (t, rng))" for fromSHA i and f :: "_ \<Rightarrow> DiffResult io"
  proof (rule safe_bindI [where R = ?range])
    show "cmds ?range (if do_To inp = [] then Ret ([], [fromSHA])
              else bind (revParse g i (do_To inp)) (\<lambda>r.
                let toSHA = (case r of Inl _ \<Rightarrow> emptyTreeSHA | Inr h \<Rightarrow> h) in Ret (toSHA, [fromSHA, toSHA])))"
      using that(1) by (auto intro!: safe_bindI [OF revParse_cmds] simp: Let_def split: sum.splits)
  qed (use that(2) in auto)
  show ?thesis unfolding git_GetDiff_def Let_def
    apply (rule withReadLock_cmds bindE_rev body [unfolded Let_def])+
     apply assumption
    by (rule cmds_first cmds_intro safe_intro | simp add: ops)+
qed

lemma GetLog_cmds [cmds_intro]: "\<not> has_prefix (lo_Branch inp) ''-'' \<Longrightarrow> cmds (\<lambda>_. True) (git_GetLog g inp)"
proof -
  assume b: "\<not> has_prefix (lo_Branch inp) ''-''"
  let ?R = "\<lambda>r. case r of Inl e \<Rightarrow> True | Inr ref \<Rightarrow> \<not> has_prefix ref ''-''"
  have ref: "cmds ?R (if lo_Before inp = [] then ok (lo_Branch inp)
               else bindE (revParse g i (lo_Before inp)) (\<lambda>before. ok (before @ ''^'')))" for i
    using b by (auto intro!: safe_bindEI [where R = undashed] safe_mono [OF revParse_cmds] split: sum.splits)
  show ?thesis unfolding git_GetLog_def Let_def
    apply (rule withReadLock_cmds bindE_rev safe_bindEI [OF ref])+
    by (rule cmds_first cmds_intro safe_intro | simp split: site_error.splits)+
qed

lemma Rollback_cmds [cmds_intro]: "\<not> has_prefix b ''-'' \<Longrightarrow> cmds (\<lambda>_. True) (git_Rollback g i b t base a)"
  unfolding git_Rollback_def
  by (rule cmds_first cmds_intro safe_intro | simp)+

lemma ServedTree_cmds [cmds_intro]: "cmds (\<lambda>_. True) (git_ServedTree g i b)"
  unfolding git_ServedTree_def
  by (rule cmds_first cmds_intro safe_intro | simp)+

lemma find_handle_cmds [cmds_intro]: "cmds (\<lambda>_. True) (git_find_handle h)"
  unfolding git_find_handle_def
  by (rule cmds_first cmds_intro safe_intro | simp)+

lemma ResolveForServing_cmds [cmds_intro]: "cmds (\<lambda>_. True) (git_ResolveForServing g h)"
  unfolding git_ResolveForServing_def
  by (rule cmds_first cmds_intro safe_intro | simp)+

lemma store_result_cmds [cmds_intro]: "cmd_ok r \<Longrightarrow> cmds (\<lambda>_. True) (store_result r)"
  unfolding store_result_def
  by (rule cmds_first cmds_intro safe_intro | simp)+

lemma SetRemote_cmds [cmds_intro]: "cmds (\<lambda>_. True) (git_SetRemote g i u)"
  unfolding git_SetRemote_def Let_def
  by (rule cmds_first cmds_intro safe_intro | simp add: remote_undashed)+

lemma safe_args_operands: "\<forall>b \<in> set bs. \<not> has_prefix b ''-'' \<Longrightarrow> safe_args bs"
  by (induction bs) auto

lemma MirrorPush_cmds [cmds_intro]: "\<forall>b \<in> set bs. \<not> has_prefix b ''-'' \<Longrightarrow> cmds (\<lambda>_. True) (git_MirrorPush g i bs)"
  unfolding git_MirrorPush_def
  by (rule cmds_first cmds_intro safe_intro | simp add: safe_args_operands)+

lemma fast_forward_cmds [cmds_intro]: "cmds (\<lambda>_. True) (fast_forward_branch g i b)"
  unfolding fast_forward_branch_def Let_def
  by (rule cmds_first cmds_intro safe_intro | simp)+

lemma FetchAndUpdate_cmds [cmds_intro]: "\<not> has_prefix b ''-'' \<Longrightarrow> cmds (\<lambda>_. True) (git_FetchAndUpdate g i b)"
  unfolding git_FetchAndUpdate_def
  by (rule cmds_first cmds_intro safe_intro | simp)+

lemma outcome_cmds [cmds_intro]: "cmds (\<lambda>_. True) p \<Longrightarrow> cmds (\<lambda>_. True) (outcome p)"
  unfolding outcome_def by (rule safe_then) simp_all

section \<open>An example\<close>

text \<open>A service and an environment in which every request succeeds and every revision is the same commit.\<close>

definition example_git :: gitService where
  "example_git =
     NewService \<lparr> gc_Root = ''/data/sites'', gc_GitBin = [], gc_MirrorOn = True, gc_ListLimit = 0, gc_MaxLogLimit = 0,
       gc_GitHubToken = ''secret'', gc_GitHubUser = [], gc_MirrorToken = False, gc_MirrorEnabled = False,
       gc_Zip = zip_zero, gc_SiteQuotaBytes = 0, gc_GitOpTimeout = 0 \<rparr> (\<lambda>bytes. ([], None)) (\<lambda>s. False)"

definition example_row :: SiteRecord where
  "example_row = \<lparr> sr_ID = ''u1'', sr_Handle = ''blog'', sr_OwnerID = ''o1'', sr_Visibility = ''private'',
     sr_DefaultBranch = ''draft'', sr_PublishedSHA = None, sr_PublishedAt = None, sr_PublishMode = ''direct'', sr_GitHubRepo = None,
     sr_WebRoot = [], sr_Description = [], sr_CacheVersion = 0, sr_DeletedAt = None, sr_CreatedAt = 0, sr_UpdatedAt = 0 \<rparr>"

definition example_record :: string where
  "example_record = join_with [fieldSep] [''c0ffee'', ''c0ffee'', ''Ann'', ''ann@example.org'', ''2024-01-01T00:00:00Z'', [], ''Update a''] @ [recordSep]"

fun example_env :: "unit \<Rightarrow> req \<Rightarrow> unit \<times> ans" where
  "example_env w (RGit d e args) =
     (w, AGit (if hd args = ''rev-parse'' then ''c0ffee'' else if hd args = ''show'' then example_record else []) None)"
| "example_env w (RGetSiteByID i) = (w, ARow (Inr (Some example_row)))"
| "example_env w (RReadFile p) = (w, AText (Inr ''c0ffee''))"
| "example_env w RClock = (w, ATime 0)"
| "example_env w (RMkdirTemp d pat) = (w, AText (Inr ''/tmp/x''))"
| "example_env w r = (w, ADone None)"

definition example_write :: WriteFileInput where
  "example_write = \<lparr> wf_SiteID = ''u1'', wf_Branch = ''draft'', wf_Path = ''a.html'', wf_Content = ''x'', wf_BaseSHA = ''c0ffee'',
     wf_Commit = True, wf_Message = ''--amend'', wf_Actor = \<lparr> ac_UserID = ''o1'', ac_Name = ''Ann'', ac_Email = [], ac_Via = SourceEditor, ac_TokenID = None \<rparr> \<rparr>"

lemma exec_bindE: "exec h w (bindE p f) =
  (case snd (exec h w p) of Inl e \<Rightarrow> (fst (exec h w p), Inl e) | Inr x \<Rightarrow> exec h (fst (exec h w p)) (f x))"
  by (simp add: bindE_def exec_bind split: sum.splits)

lemma exec_ends: "exec h w (throw e) = (w, Inl e)" "exec h w (ok x) = (w, Inr x)"
  "exec h w (check None p) = exec h w p" "exec h w (check (Some err) p) = (w, Inl err)"
  by (simp_all add: throw_def ok_def check_def)

lemma exec_requests:
  "exec h w (do_git d e args) = (fst (h w (RGit d e args)), case snd (h w (RGit d e args)) of AGit out f \<Rightarrow> (out, f) | _ \<Rightarrow> ([], Some (ExitStatus (- 1) [])))"
  "exec h w (do_act r) = (fst (h w r), case snd (h w r) of ADone x \<Rightarrow> x | _ \<Rightarrow> Some [])"
  "exec h w (do_text r) = (fst (h w r), case snd (h w r) of AText x \<Rightarrow> x | _ \<Rightarrow> Inl [])"
  "exec h w (do_row r) = (fst (h w r), case snd (h w r) of ARow x \<Rightarrow> x | _ \<Rightarrow> Inl [])"
  "exec h w (do_unit r) = (fst (h w r), ())"
  "exec h w do_clock = (fst (h w RClock), case snd (h w RClock) of ATime t \<Rightarrow> t | _ \<Rightarrow> 0)"
  by (simp_all add: do_git_def do_act_def do_text_def do_row_def do_unit_def do_clock_def)

lemmas exec_rules = exec_bind exec_bindE exec_ends exec_requests

lemma example_runs:
  "exec example_env w (git_run g i args) = (w, if hd args = ''rev-parse'' then ''c0ffee'' else if hd args = ''show'' then example_record else [], None)"
  "exec example_env w (runEnv g i a args) = (w, if hd args = ''rev-parse'' then ''c0ffee'' else if hd args = ''show'' then example_record else [], None)"
  by (simp_all add: git_run_def runEnv_def exec_rules git_error_def)

lemma example_revParse: "exec example_env w (revParse g i ref) = (w, Inr ''c0ffee'')"
proof -
  have "trim_space ''c0ffee'' = ''c0ffee''" by code_simp
  then show ?thesis by (simp add: revParse_def exec_rules example_runs)
qed

lemma example_commitInfo: "\<exists>ci. exec example_env w (commitInfo g i h) = (w, Inr ci)"
proof -
  obtain c cs where "parseLog example_record = c # cs"
    by (cases "parseLog example_record") (code_simp, simp)
  then show ?thesis by (simp add: commitInfo_def run_ok_def exec_rules example_runs)
qed

lemma example_served: "exec example_env w (refreshServed g i b) = (w, ())" "exec example_env w (bestEffortMirror example_git i b) = (w, ())"
proof -
  have "trim_space ''c0ffee'' = ''c0ffee''" by code_simp
  then show "exec example_env w (refreshServed g i b) = (w, ())"
    by (simp add: refreshServed_def ensureServed_def exec_rules example_revParse Let_def)
  show "exec example_env w (bestEffortMirror example_git i b) = (w, ())"
    by (simp add: bestEffortMirror_def mirrorEnabled_def runErr_def runMirror_def mirrorAuthEnv_def mirrorCreds_def
        example_git_def NewService_def git_withDefaults_def exec_rules example_runs git_error_def)
qed

lemma example_site: "exec example_env w (requireSite i) = (w, Inr example_row)"
  by (simp add: requireSite_def live_site_def load_site_def exec_rules example_row_def)

lemma example_lock: "exec example_env w (withWriteLock g i fn) = (fst (exec example_env w fn), snd (exec example_env w fn))"
  by (simp add: withWriteLock_def acquireFileLock_def exec_rules)

lemma example_check: "exec example_env w (git_checkBaseSHA g i b ''c0ffee'' hint) = (w, Inr ())"
  by (simp add: git_checkBaseSHA_def exec_rules example_revParse)

lemma example_checkout: "exec example_env w (checkoutBranch g i b) = (w, Inr ())"
  by (simp add: checkoutBranch_def run_ok_def exec_rules example_runs)

lemma example_commit: "\<exists>ci. exec example_env w (commitStaged g i b a msg) = (w, Inr ci)"
  using example_commitInfo by (simp add: commitStaged_def exec_rules example_runs example_revParse)

lemma example_write_succeeds: "snd (exec example_env () (git_call example_git (GWriteFile example_write))) = None"
proof -
  have gates: "refuseProtectedBranch (wf_Branch example_write) = None"
    "validateWritePath (wf_Actor example_write) (wf_Path example_write) = None" by code_simp+
  have base: "wf_BaseSHA example_write = ''c0ffee''" by (simp add: example_write_def)
  have quota: "exec example_env w (enforceQuota example_git i n) = (w, Inr ())" for w i n
    by (simp add: enforceQuota_def exec_rules example_git_def NewService_def git_withDefaults_def)
  obtain ci where ci: "exec example_env () (commitStaged example_git (wf_SiteID example_write) (wf_Branch example_write)
      (wf_Actor example_write) (if wf_Message example_write = [] then ''Update '' @ wf_Path example_write else wf_Message example_write)) = ((), Inr ci)"
    using example_commit by blast
  have "exec example_env () (git_WriteFile example_git example_write) = ((), Inr ci)"
    unfolding git_WriteFile_def Let_def gates base act_or_def run_ok_def after_write_def
    using ci by (simp add: exec_rules example_lock example_site example_check example_checkout quota example_runs example_served)
  then show ?thesis by (simp add: outcome_def exec_bind)
qed

lemma example_prints: "git_prints_names r (snd (example_env w r))"
proof (cases r)
  case (RGit d e args)
  have "trim_space ''c0ffee'' = ''c0ffee''" "trim_space [] = []" "split_on nl [] = [[]]" "go_fields [] = []" by code_simp+
  then show ?thesis using RGit by (cases args) (auto simp: undashed_def)
qed auto

section \<open>The theorem\<close>

text \<open>
  C9: In every call of the git-backed service, whatever git and the file system answer, no text
  of the caller (paths, messages, revisions, remote addresses, actor names) reaches git in a place
  where it would be read as an option: each word of a command line that begins with a dash is an
  option written in the code, the value of one, or stands behind the end of the options. Only
  branch texts are not looked at by the service in every operation and must not begin with a dash.
\<close>

theorem git_arguments_safe:
  assumes "\<forall>b \<in> set (op_branches op). \<not> has_prefix b ''-''"
  shows "safe git_prints_names cmd_ok (\<lambda>_. True) (git_call g op)"
  using assms by (cases op) (simp_all, (rule cmds_intro | simp)+)

theorem git_arguments_safe_witness:
  "op_branches (GWriteFile example_write) = [''draft''] \<and>
   safe git_prints_names cmd_ok (\<lambda>_. True) (git_call example_git (GWriteFile example_write)) \<and>
   (\<forall>r. git_prints_names r (snd (example_env () r))) \<and>
   snd (exec example_env () (git_call example_git (GWriteFile example_write))) = None"
proof -
  have b: "op_branches (GWriteFile example_write) = [''draft'']" by (simp add: example_write_def)
  then have "\<forall>b \<in> set (op_branches (GWriteFile example_write)). \<not> has_prefix b ''-''" by simp
  from git_arguments_safe [OF this, of example_git] show ?thesis
    using b example_write_succeeds example_prints by simp
qed

end
