(* ===== verification/Git_Locks.thy ===== *)
theory Git_Locks
  imports Git_Args
begin

text \<open>
  The lock discipline of the git-backed service (\<open>lock.go\<close> and the uses of \<open>withWriteLock\<close> and
  \<open>withReadLock\<close>): no call takes a lock while it holds one, every call gives back what it took,
  and what changes a repository happens under its write lock.
\<close>

section \<open>Classes of requests\<close>

text \<open>The requests about locks; a new row stands in the place of a lock, as nobody else knows its site.\<close>

fun lock_req :: "req \<Rightarrow> bool" where
  "lock_req (RLock i) = True"
| "lock_req (RUnlock i) = True"
| "lock_req (RRLock i) = True"
| "lock_req (RRUnlock i) = True"
| "lock_req (RFlock p) = True"
| "lock_req (RFunlock p) = True"
| "lock_req (RCreateSiteWithOwner x) = True"
| "lock_req _ = False"

text \<open>The git commands that change the refs, the index, the work tree, the objects or the configuration.\<close>

definition changing_commands :: "string list" where
  "changing_commands =
     [''init'', ''add'', ''rm'', ''commit'', ''checkout'', ''read-tree'', ''checkout-index'', ''clean'',
      ''update-ref'', ''branch'', ''worktree'', ''merge'', ''fetch'', ''gc'']"

definition changes_repo :: "string list \<Rightarrow> bool" where
  "changes_repo args \<longleftrightarrow>
     args \<noteq> [] \<and> (hd args \<in> set changing_commands \<or> hd args = ''remote'' \<and> take 1 (tl args) \<noteq> [''get-url''])"

fun changes :: "req \<Rightarrow> bool" where
  "changes (RGit d e args) = changes_repo args"
| "changes _ = False"

text \<open>A change goes to the repository in \<open>dir\<close>, or is a merge in a work tree of its own.\<close>

fun on_repo :: "string \<Rightarrow> req \<Rightarrow> bool" where
  "on_repo dir (RGit d e args) = (d = dir \<or> hd args = ''merge'')"
| "on_repo dir _ = True"

definition reading_req :: "req \<Rightarrow> bool" where
  "reading_req r \<longleftrightarrow> \<not> lock_req r \<and> \<not> changes r"

definition writing_req :: "string \<Rightarrow> req \<Rightarrow> bool" where
  "writing_req dir r \<longleftrightarrow> \<not> lock_req r \<and> (changes r \<longrightarrow> on_repo dir r)"

abbreviation any_answer :: "req \<Rightarrow> ans \<Rightarrow> bool" where
  "any_answer \<equiv> \<lambda>_ _. True"

abbreviation reading :: "'a prog \<Rightarrow> bool" where
  "reading p \<equiv> safe any_answer reading_req (\<lambda>_. True) p"

abbreviation writing :: "string \<Rightarrow> 'a prog \<Rightarrow> bool" where
  "writing dir p \<equiv> safe any_answer (writing_req dir) (\<lambda>_. True) p"

section \<open>The parts of the calls\<close>

lemma reading_writing: "reading p \<Longrightarrow> writing dir p"
  by (erule safe_weaken) (simp add: reading_req_def writing_req_def)

lemma reading_plain [simp]:
  "reading_req (RMkdirAll p)" "reading_req (RWriteFile p c)" "reading_req (RRemoveAll p)" "reading_req (RRename p q)"
  "reading_req (RStat p)" "reading_req (RReadFile p)" "reading_req (RMkdirTemp p q)" "reading_req (RReadDir p)"
  "reading_req (RWalk p)" "reading_req RClock" "reading_req RMirrorEnabled" "reading_req RMirrorToken"
  "reading_req (RGetSiteByID i)" "reading_req (RGetSiteByHandle h)" "reading_req (RGetSiteByRedirect h)"
  "reading_req (RHandleIsTaken h)" "reading_req (RSoftDeleteSite i)"
  "reading_req (RRenameHandleWithRedirect i a b)" "reading_req (RListSitesForUser i n m)" "reading_req (RSetPublished i v)"
  "reading_req (RSetSiteRemote i v)" "reading_req (ROpenFile p)"
  by (simp_all add: reading_req_def)

lemma reading_git [simp]: "reading_req (RGit d e args) \<longleftrightarrow> \<not> changes_repo args"
  by (simp add: reading_req_def)

named_theorems reading_intro \<open>programs that take no lock and change no repository\<close>
named_theorems writing_intro \<open>programs that take no lock and change one repository\<close>

lemma reading_runs [reading_intro]:
  "\<not> changes_repo args \<Longrightarrow> reading (git_run g i args)"
  "\<not> changes_repo args \<Longrightarrow> reading (runErr g i args)"
  "\<not> changes_repo args \<Longrightarrow> reading (run_ok g i args)"
  "\<not> changes_repo args \<Longrightarrow> reading (runMirror g i args)"
  unfolding runErr_def run_ok_def git_run_def runMirror_def mirrorAuthEnv_def mirrorCreds_def
  by (rule safe_intro | simp)+

lemma reading_loops [reading_intro]:
  "reading (extract_entry dst hdr)" "reading (extract_entries dst hdrs ended)"
  "reading (write_entries root es)" "reading (clear_worktree root names)"
proof -
  show *: "reading (extract_entry dst hdr)" for hdr
    unfolding extract_entry_def Let_def by (rule safe_intro conjI impI | simp split: tar_type.splits)+
  show "reading (extract_entries dst hdrs ended)"
    by (induction hdrs) (simp, (rule * safe_intro | simp)+)
  show "reading (write_entries root es)"
    by (induction es) (simp, unfold write_entries.simps Let_def act_or_def, (rule safe_intro | simp)+)
  show "reading (clear_worktree root names)"
    by (induction names) (simp, unfold clear_worktree.simps act_or_def, (rule safe_intro | simp)+)
qed

lemma reading_parts [reading_intro]:
  "reading (revParse g i ref)" "reading (changedPaths g i a b)" "reading (commitInfo g i h)" "reading (conflictPaths wt)"
  "reading (extractTar g bytes dst)" "reading (repoDiskSize g i)" "reading (mirrorEnabled g)" "reading (load_site what i)"
  "reading (handle_taken hd1)" "reading (branchExists g i b)"
  unfolding revParse_def changedPaths_def commitInfo_def conflictPaths_def extractTar_def repoDiskSize_def Let_def
    mirrorEnabled_def load_site_def handle_taken_def branchExists_def
  by (rule reading_intro safe_intro | simp add: changes_repo_def changing_commands_def split: list.splits site_error.splits)+

lemma reading_served [reading_intro]: "reading (ensureServed g i b h)" "reading (refreshServed g i b)"
proof -
  have build: "reading (build_served g i h tmp dst)" for h tmp dst
    unfolding build_served_def act_or_def
    by (rule reading_intro safe_intro | simp add: changes_repo_def changing_commands_def)+
  show *: "reading (ensureServed g i b h)" for h
    unfolding ensureServed_def Let_def act_or_def by (rule build safe_intro | simp)+
  show "reading (refreshServed g i b)"
    unfolding refreshServed_def by (rule * reading_intro safe_intro | simp)+
qed

lemma reading_checks [reading_intro]:
  "reading (requireSite i)" "reading (live_site what i)" "reading (git_checkBaseSHA g i b base hint)"
  "reading (enforceQuota g i n)" "reading (replaceWorktree g i es)" "reading (extractZipToWorktree g dir src)"
  "reading (bestEffortMirror g i b)" "reading (after_write g i b ci)" "reading (finishPublish g i h)"
  "reading (isOwnRedirect i h)"
  unfolding requireSite_def live_site_def git_checkBaseSHA_def enforceQuota_def replaceWorktree_def extractZipToWorktree_def
    bestEffortMirror_def after_write_def finishPublish_def isOwnRedirect_def act_or_def Let_def
  by (rule reading_intro safe_intro | simp add: changes_repo_def changing_commands_def)+

lemma writing_git: "writing_req dir (RGit d e args) \<longleftrightarrow> (changes_repo args \<longrightarrow> d = dir \<or> hd args = ''merge'')"
  by (auto simp: writing_req_def)

lemma writing_runs [writing_intro]:
  "writing (g_repo g i) (git_run g i args)" "writing (g_repo g i) (runErr g i args)"
  "writing (g_repo g i) (run_ok g i args)" "writing (g_repo g i) (runEnv g i a args)"
  "writing (g_repo g i) (runMirror g i args)"
  unfolding runErr_def run_ok_def git_run_def runEnv_def runMirror_def mirrorAuthEnv_def mirrorCreds_def
  by (rule safe_intro | simp add: writing_git | simp add: writing_req_def)+

lemmas writing_read [writing_intro] = reading_intro [THEN reading_writing]

lemma writing_steps [writing_intro]:
  "writing (g_repo g i) (checkoutBranch g i b)" "writing (g_repo g i) (commitStaged g i b a msg)"
  "writing (g_repo g i) (gcRepo g i)" "writing (g_repo g i) (move_published g i h)"
  "writing (g_repo g i) (store_result (RSetSiteRemote i v))" "writing (g_repo g i) (fast_forward_branch g i b)"
  unfolding checkoutBranch_def commitStaged_def gcRepo_def move_published_def store_result_def fast_forward_branch_def Let_def
  by (rule writing_intro safe_intro | simp | simp add: writing_req_def)+

lemma writing_merge [writing_intro]: "writing (g_repo g i) (mergeIntoPublished g i src h a msg)"
  unfolding mergeIntoPublished_def merge_with_worktree_def merge_in_worktree_def Let_def
  by (rule writing_intro safe_intro | simp add: writing_git | simp add: writing_req_def)+

section \<open>The lock monitor\<close>

text \<open>
  The locks one call holds: none, the write lock of a site (with the file lock or without), the
  read lock of a site, or, in place of a lock, the row of a site that the call itself creates.
\<close>

datatype lock_state = Free | Writing uuid bool | Reading uuid | Creating uuid

fun lock_step :: "lock_state \<Rightarrow> req \<Rightarrow> ans \<Rightarrow> lock_state" where
  "lock_step s (RLock i) a = Writing i False"
| "lock_step s (RUnlock i) a = Free"
| "lock_step s (RRLock i) a = Reading i"
| "lock_step s (RRUnlock i) a = Free"
| "lock_step (Writing i f) (RFlock p) (ADone None) = Writing i True"
| "lock_step (Writing i f) (RFunlock p) a = Writing i False"
| "lock_step Free (RCreateSiteWithOwner x) (ARow (Inr (Some row))) = Creating (sr_ID row)"
| "lock_step s r a = s"

definition lock_ok :: "gitService \<Rightarrow> lock_state \<Rightarrow> req \<Rightarrow> bool" where
  "lock_ok g s r =
     (case r of
        RLock i \<Rightarrow> s = Free
      | RRLock i \<Rightarrow> s = Free
      | RUnlock i \<Rightarrow> s = Writing i False
      | RRUnlock i \<Rightarrow> s = Reading i
      | RFlock p \<Rightarrow> (\<exists>i. s = Writing i False \<and> p = lockFilePath (g_gitDir g i))
      | RFunlock p \<Rightarrow> (\<exists>i. s = Writing i True \<and> p = lockFilePath (g_gitDir g i))
      | RGit d e args \<Rightarrow>
          changes_repo args \<longrightarrow>
          (case s of Writing i f \<Rightarrow> on_repo (g_repo g i) r | Creating i \<Rightarrow> on_repo (g_repo g i) r | _ \<Rightarrow> False)
      | _ \<Rightarrow> True)"

abbreviation locks :: "gitService \<Rightarrow> lock_state \<Rightarrow> (lock_state \<Rightarrow> 'a \<Rightarrow> bool) \<Rightarrow> 'a prog \<Rightarrow> bool" where
  "locks g s Q p \<equiv> wp (lock_ok g) lock_step any_answer Q s p"

text \<open>Without lock requests the monitor stays where it is.\<close>

lemma lock_step_plain: "\<not> lock_req r \<Longrightarrow> lock_step s r a = s"
  by (cases s; cases r) auto

lemma locks_reading:
  assumes "reading p"
  shows "locks g s (\<lambda>s' _. s' = s) p"
  using assms
proof (induction p)
  case (Do r k)
  then have r: "\<not> lock_req r" "\<not> changes r" by (auto simp: reading_req_def)
  have "lock_ok g s r" using r by (cases r) (simp_all add: lock_ok_def)
  then show ?case using Do lock_step_plain [OF r(1)] by simp
qed simp

lemma locks_writing:
  assumes "writing (g_repo g i) p" and "s = Writing i f \<or> s = Creating i"
  shows "locks g s (\<lambda>s' _. s' = s) p"
  using assms(1)
proof (induction p)
  case (Do r k)
  then have r: "\<not> lock_req r" "changes r \<longrightarrow> on_repo (g_repo g i) r" by (auto simp: writing_req_def)
  have "lock_ok g s r" using r assms(2) by (cases r) (auto simp: lock_ok_def)
  then show ?case using Do lock_step_plain [OF r(1)] by simp
qed simp

lemma locks_seqE:
  assumes "locks g s (\<lambda>s' _. s' = s) p" and "\<And>x. locks g s (\<lambda>s' _. s' = s) (f x)"
  shows "locks g s (\<lambda>s' _. s' = s) (bindE p f)"
  unfolding wp_bindE using assms(1) by (rule wp_mono) (use assms(2) in \<open>auto split: sum.splits\<close>)

lemma locks_seq:
  assumes "locks g s (\<lambda>s' _. s' = s) p" and "\<And>x. locks g s (\<lambda>s' _. s' = s) (f x)"
  shows "locks g s (\<lambda>s' _. s' = s) (bind p f)"
  using assms(1) by (rule wp_bindI) (use assms(2) in auto)

lemma locks_check: "locks g s (\<lambda>s' _. s' = s) p \<Longrightarrow> locks g s (\<lambda>s' _. s' = s) (check e p)"
  by (simp split: option.splits)

lemma locks_if:
  "locks g s (\<lambda>s' _. s' = s) p \<Longrightarrow> locks g s (\<lambda>s' _. s' = s) q \<Longrightarrow> locks g s (\<lambda>s' _. s' = s) (if b then p else q)"
  by simp

lemma locks_sum:
  "(\<And>e. locks g s (\<lambda>s' _. s' = s) (p e)) \<Longrightarrow> (\<And>x. locks g s (\<lambda>s' _. s' = s) (q x)) \<Longrightarrow>
   locks g s (\<lambda>s' _. s' = s) (case r of Inl e \<Rightarrow> p e | Inr x \<Rightarrow> q x)"
  by (cases r) auto

lemma lock_step_flock [simp]: "lock_step (Writing i f) (RFlock p) (ADone x) = Writing i (f \<or> x = None)"
  by (cases x; cases f) auto

text \<open>The two frames: what is taken is given back on every way out.\<close>

lemma locks_write:
  assumes "writing (g_repo g i) fn"
  shows "locks g Free (\<lambda>s _. s = Free) (withWriteLock g i fn)"
proof -
  have fn: "locks g (Writing i f) (\<lambda>s _. s = Writing i f) fn" for f
    by (rule locks_writing [OF assms]) simp
  have flock: "locks g (Writing i False)
      (\<lambda>s le. s = Writing i (le = None)) (acquireFileLock (g_gitDir g i))"
    by (simp add: acquireFileLock_def do_act_def lock_ok_def split: ans.splits option.splits)
  have body: "locks g (Writing i False) (\<lambda>s _. s = Writing i False)
      (bind (acquireFileLock (g_gitDir g i)) (\<lambda>le. case le of
         Some m \<Rightarrow> git_failed m
       | None \<Rightarrow> bind fn (\<lambda>r. bind (do_unit (RFunlock (lockFilePath (g_gitDir g i)))) (\<lambda>_. Ret r))))"
    using flock by (rule wp_bindI) (auto simp: do_unit_def lock_ok_def intro!: wp_bindI [OF fn] split: option.splits)
  have middle: "locks g (Writing i False) (\<lambda>s _. s = Writing i False) (if missing \<noteq> None then fn else
      bind (acquireFileLock (g_gitDir g i)) (\<lambda>le. case le of
         Some m \<Rightarrow> git_failed m
       | None \<Rightarrow> bind fn (\<lambda>r. bind (do_unit (RFunlock (lockFilePath (g_gitDir g i)))) (\<lambda>_. Ret r))))" for missing :: "string option"
    using fn [of False] body by simp
  have stat: "locks g (Writing i False) (\<lambda>s _. s = Writing i False) (do_act (RStat (g_gitDir g i)))"
    by (simp add: do_act_def lock_ok_def)
  have unlock: "locks g (Writing i False) (\<lambda>s _. s = Free) (bind (do_unit (RUnlock i)) (\<lambda>_. Ret r))" for r :: "site_error + 'a"
    by (simp add: do_unit_def lock_ok_def)
  have "locks g (Writing i False) (\<lambda>s _. s = Free) (bind (do_act (RStat (g_gitDir g i))) (\<lambda>missing.
      bind (if missing \<noteq> None then fn else
        bind (acquireFileLock (g_gitDir g i)) (\<lambda>le. case le of
         Some m \<Rightarrow> git_failed m
       | None \<Rightarrow> bind fn (\<lambda>r. bind (do_unit (RFunlock (lockFilePath (g_gitDir g i)))) (\<lambda>_. Ret r))))
      (\<lambda>r. bind (do_unit (RUnlock i)) (\<lambda>_. Ret r))))"
    by (rule wp_bindI [OF stat], hypsubst, rule wp_bindI [OF middle], hypsubst, rule unlock)
  then show ?thesis unfolding withWriteLock_def
    by (simp only: do_unit_def [of "RLock i"] bind.simps wp.simps lock_ok_def req.case lock_step.simps simp_thms)
qed

lemma locks_read:
  assumes "reading fn"
  shows "locks g Free (\<lambda>s _. s = Free) (withReadLock i fn)"
proof -
  have "locks g (Reading i) (\<lambda>s _. s = Reading i) fn" by (rule locks_reading [OF assms])
  then show ?thesis unfolding withReadLock_def do_unit_def
    by (auto simp: lock_ok_def wp_bind elim!: wp_mono)
qed

section \<open>The calls\<close>

lemmas locks_intro = locks_write locks_read locks_check locks_if

lemma reading_rows:
  "reading (git_GetSite i)" "reading (git_GetSiteByHandle h)" "reading (git_ListSites o1)"
  "reading (git_RenameHandle i h)" "reading (git_DeleteSite i)" "reading (git_find_handle s)"
  unfolding git_GetSite_def git_GetSiteByHandle_def git_ListSites_def git_RenameHandle_def git_DeleteSite_def
    git_find_handle_def act_or_def Let_def
  by (rule reading_intro safe_intro | simp)+

lemma reading_branches [reading_intro]: "reading (branch_entries g i row ls)"
proof (induction ls)
  case (Cons l ls)
  show ?case unfolding branch_entries.simps
    by (cases "go_fields l"; cases "tl (go_fields l)") (simp_all add: Cons, (rule reading_intro safe_intro Cons | simp)+)
qed simp

lemmas read_only = reading_intro safe_intro

lemmas locks_lookup = locks_reading [OF reading_checks(2)] locks_reading [OF reading_parts(8)]

lemma locks_ServedTree: "locks g Free (\<lambda>s _. s = Free) (git_ServedTree g i b)"
  unfolding git_ServedTree_def by (intro locks_seqE locks_intro locks_lookup) (rule read_only | simp)+

lemma locks_ListBranches: "locks g Free (\<lambda>s _. s = Free) (git_ListBranches g i)"
  unfolding git_ListBranches_def
  by (intro locks_seqE locks_intro locks_lookup) (rule read_only | simp add: changes_repo_def changing_commands_def)+

lemma locks_ListFiles: "locks g Free (\<lambda>s _. s = Free) (git_ListFiles g inp)"
  unfolding git_ListFiles_def
  by (intro locks_intro) (rule read_only | simp add: changes_repo_def changing_commands_def)+

lemma locks_ReadFile: "locks g Free (\<lambda>s _. s = Free) (git_ReadFile g i b ref p)"
  unfolding git_ReadFile_def Let_def
  by (intro locks_intro) (rule read_only | simp add: changes_repo_def changing_commands_def)+

lemma locks_GetDiff: "locks g Free (\<lambda>s _. s = Free) (git_GetDiff g inp)"
  unfolding git_GetDiff_def Let_def
  by (intro locks_read) (rule read_only | simp add: changes_repo_def changing_commands_def)+

lemma locks_GetLog: "locks g Free (\<lambda>s _. s = Free) (git_GetLog g inp)"
  unfolding git_GetLog_def Let_def
  by (intro locks_read) (rule read_only | simp add: changes_repo_def changing_commands_def split: site_error.splits)+

lemma locks_MirrorPush: "locks g Free (\<lambda>s _. s = Free) (git_MirrorPush g i bs)"
  unfolding git_MirrorPush_def
  by (intro locks_seqE locks_intro locks_lookup) (rule read_only | simp add: changes_repo_def changing_commands_def)+

lemma locks_WriteFile: "locks g Free (\<lambda>s _. s = Free) (git_WriteFile g inp)"
  unfolding git_WriteFile_def Let_def act_or_def
  by (intro locks_seqE locks_check locks_write locks_reading [OF reading_checks(8)])
    (rule writing_intro safe_intro | simp add: writing_req_def)+

lemma locks_DeleteFile: "locks g Free (\<lambda>s _. s = Free) (git_DeleteFile g i b p base a)"
  unfolding git_DeleteFile_def
  by (intro locks_seqE locks_check locks_write locks_reading [OF reading_checks(8)])
    (rule writing_intro safe_intro | simp)+

lemma locks_Commit: "locks g Free (\<lambda>s _. s = Free) (git_Commit g inp)"
  unfolding git_Commit_def Let_def
  by (intro locks_seqE locks_check locks_write locks_reading [OF reading_checks(8)])
    (rule writing_intro safe_intro | simp)+

lemma locks_Rollback: "locks g Free (\<lambda>s _. s = Free) (git_Rollback g i b t base a)"
  unfolding git_Rollback_def
  by (intro locks_seqE locks_check locks_write locks_reading [OF reading_checks(8)])
    (rule writing_intro safe_intro | simp)+

lemma locks_ImportZip: "locks g Free (\<lambda>s _. s = Free) (git_ImportZip g i b z base a)"
  unfolding git_ImportZip_def
  by (cases "openZip (gc_Zip (gs_cfg g)) z"; simp only: sum.case;
      intro locks_seqE locks_check locks_write locks_reading [OF reading_checks(8)] locks_reading;
      (rule writing_intro safe_intro | simp)+)

lemma locks_Publish: "locks g Free (\<lambda>s _. s = Free) (git_Publish g inp)"
  unfolding git_Publish_def git_publish_locked_def Let_def
  by (intro locks_seqE locks_check locks_write)
    (rule writing_intro safe_intro | rule locks_reading, (rule read_only | simp)+ | simp)+

lemma locks_CreateBranch: "locks g Free (\<lambda>s _. s = Free) (git_CreateBranch g i n src)"
  unfolding git_CreateBranch_def Let_def
  by (intro locks_seqE locks_check locks_write locks_lookup) (rule writing_intro safe_intro | simp)+

lemma locks_DeleteBranch: "locks g Free (\<lambda>s _. s = Free) (git_DeleteBranch g i n)"
  unfolding git_DeleteBranch_def
  by (intro locks_seqE locks_check locks_if locks_write locks_lookup) (rule writing_intro safe_intro | simp add: writing_req_def)+

lemma locks_SetRemote: "locks g Free (\<lambda>s _. s = Free) (git_SetRemote g i u)"
  unfolding git_SetRemote_def Let_def
  by (intro locks_seqE locks_check locks_write locks_lookup) (rule writing_intro safe_intro | simp)+

lemma locks_FetchAndUpdate: "locks g Free (\<lambda>s _. s = Free) (git_FetchAndUpdate g i b)"
  unfolding git_FetchAndUpdate_def
  by (intro locks_seqE locks_if locks_write locks_lookup) (rule writing_intro safe_intro | simp)+

lemma locks_ResolveForServing: "locks g Free (\<lambda>s _. s = Free) (git_ResolveForServing g h)"
proof (cases "parseHostOrPath h")
  case (Inr p)
  then show ?thesis unfolding git_ResolveForServing_def
    by (cases p) (auto intro!: locks_seqE locks_check locks_ServedTree locks_reading [OF reading_rows(6)] simp del: wp_check)
qed (simp add: git_ResolveForServing_def)

lemma writing_initRepo: "writing (g_repo g i) (initRepo g i inp)"
  unfolding initRepo_def Let_def act_or_def
  by (rule writing_intro safe_intro | simp add: writing_req_def)+

definition nothing_held :: "lock_state \<Rightarrow> bool" where
  "nothing_held s \<longleftrightarrow> s = Free \<or> (\<exists>i. s = Creating i)"

lemma nothing_held_simps [simp]: "nothing_held Free" "nothing_held (Creating i)"
  by (simp_all add: nothing_held_def)

lemma locks_CreateSite: "locks g Free (\<lambda>s _. nothing_held s) (git_CreateSite g inp)"
proof -
  let ?held = "\<lambda>s _. nothing_held s"
  have undo: "locks g (Creating i) ?held (bind (do_act (RRemoveAll d)) (\<lambda>_. bind (do_act (RSoftDeleteSite i)) (\<lambda>_. throw e)))" for i d e
    by (simp add: do_act_def lock_ok_def)
  have repo: "locks g (Creating i) ?held (bind (initRepo g i inp) (\<lambda>res. case res of
      Inl e \<Rightarrow> bind (do_act (RRemoveAll (g_repo g i))) (\<lambda>_. bind (do_act (RSoftDeleteSite i)) (\<lambda>_. throw e))
    | Inr _ \<Rightarrow> ok x))" for i x
    by (rule wp_bindI [OF locks_writing [OF writing_initRepo]]) (auto simp: undo split: sum.splits)
  have row: "locks g Free (\<lambda>s r. case r of Inr (Some row) \<Rightarrow> s = Creating (sr_ID row) | _ \<Rightarrow> s = Free)
      (do_row (RCreateSiteWithOwner x))" for x
    by (auto simp: do_row_def lock_ok_def split: ans.splits sum.splits option.splits)
  have taken: "locks g Free (\<lambda>s _. s = Free) (handle_taken h)" for h
    by (rule locks_reading) (rule reading_intro)
  have "locks g Free ?held (bind (do_row (RCreateSiteWithOwner (store_input inp))) (\<lambda>r. case r of
         Inl e \<Rightarrow> if isUniqueViolation e then throw (Sentinel ErrHandleTaken) else git_failed (''create site row: '' @ e)
       | Inr None \<Rightarrow> git_failed ''create site row: ''
       | Inr (Some row) \<Rightarrow>
           bind (initRepo g (sr_ID row) inp) (\<lambda>res. case res of
             Inl e \<Rightarrow> bind (do_act (RRemoveAll (g_repo g (sr_ID row)))) (\<lambda>_.
                       bind (do_act (RSoftDeleteSite (sr_ID row))) (\<lambda>_. throw e))
           | Inr _ \<Rightarrow> ok (toSite row))))"
    using repo by (intro wp_bindI [OF row]) (auto split: sum.splits option.splits)
  then show ?thesis unfolding git_CreateSite_def
    by (auto simp: wp_bindE intro!: wp_mono [OF taken] split: option.splits sum.splits)
qed

lemma locks_outcome: "locks g s (\<lambda>s' _. R s') p \<Longrightarrow> locks g s (\<lambda>s' _. R s') (outcome p)"
  unfolding outcome_def by (erule wp_bindI) simp

lemma locks_held: "locks g Free (\<lambda>s _. s = Free) p \<Longrightarrow> locks g Free (\<lambda>s _. nothing_held s) p"
  by (erule wp_mono) simp

lemmas locks_calls = locks_CreateSite reading_rows [THEN locks_reading, THEN locks_held]
  locks_ListBranches [THEN locks_held] locks_CreateBranch [THEN locks_held] locks_DeleteBranch [THEN locks_held]
  locks_ListFiles [THEN locks_held] locks_ReadFile [THEN locks_held] locks_WriteFile [THEN locks_held]
  locks_DeleteFile [THEN locks_held] locks_Commit [THEN locks_held] locks_ImportZip [THEN locks_held]
  locks_Publish [THEN locks_held] locks_GetDiff [THEN locks_held] locks_GetLog [THEN locks_held]
  locks_Rollback [THEN locks_held] locks_ServedTree [THEN locks_held] locks_ResolveForServing [THEN locks_held]
  locks_SetRemote [THEN locks_held] locks_MirrorPush [THEN locks_held] locks_FetchAndUpdate [THEN locks_held]


end
