(* ===== verification/Git_Secret.thy ===== *)
theory Git_Secret
  imports Git_Locks
begin

text \<open>
  Where the credential of the mirror (\<open>git_auth.go\<close>) can go: into the environment of a fetch or
  a push, and nowhere else. Two runs with different credentials issue the same requests but for
  that environment, and end with the same result.
\<close>

section \<open>Runs that differ in the credential\<close>

text \<open>A request as somebody sees it who cannot look into the environment of a fetch or a push.\<close>

fun blur :: "req \<Rightarrow> req" where
  "blur (RGit d env args) =
     (if take 1 args = [''push''] \<or> take 1 args = [''fetch''] then RGit d [] args else RGit d env args)"
| "blur r = r"

text \<open>
  Two programs agree when their requests look the same and, for the same answers, they agree
  again; the provider of the credential may answer them differently.
\<close>

primrec agree :: "'a prog \<Rightarrow> 'a prog \<Rightarrow> bool" where
  "agree (Ret x) q \<longleftrightarrow> q = Ret x"
| "agree (Do r k) q \<longleftrightarrow>
     (case q of
        Ret y \<Rightarrow> False
      | Do r' k' \<Rightarrow> blur r = blur r' \<and> (\<forall>a a'. a = a' \<or> r = RMirrorToken \<longrightarrow> agree (k a) (k' a')))"

definition with_creds :: "gitService \<Rightarrow> string \<Rightarrow> string \<Rightarrow> gitService" where
  "with_creds g token user = g\<lparr> gs_cfg := (gs_cfg g)\<lparr> gc_GitHubToken := token, gc_GitHubUser := user \<rparr> \<rparr>"

lemma with_creds_simps [simp]:
  "gc_Root (gs_cfg (with_creds g t u)) = gc_Root (gs_cfg g)"
  "gc_MirrorOn (gs_cfg (with_creds g t u)) = gc_MirrorOn (gs_cfg g)"
  "gc_ListLimit (gs_cfg (with_creds g t u)) = gc_ListLimit (gs_cfg g)"
  "gc_MaxLogLimit (gs_cfg (with_creds g t u)) = gc_MaxLogLimit (gs_cfg g)"
  "gc_MirrorToken (gs_cfg (with_creds g t u)) = gc_MirrorToken (gs_cfg g)"
  "gc_MirrorEnabled (gs_cfg (with_creds g t u)) = gc_MirrorEnabled (gs_cfg g)"
  "gc_Zip (gs_cfg (with_creds g t u)) = gc_Zip (gs_cfg g)"
  "gc_SiteQuotaBytes (gs_cfg (with_creds g t u)) = gc_SiteQuotaBytes (gs_cfg g)"
  "gs_tar (with_creds g t u) = gs_tar g" "gs_parseIP (with_creds g t u) = gs_parseIP g"
  by (simp_all add: with_creds_def)

named_theorems agree_intro \<open>programs that agree\<close>

lemma agree_bind [agree_intro]:
  "agree p q \<Longrightarrow> (\<And>x. agree (f x) (f' x)) \<Longrightarrow> agree (bind p f) (bind q f')"
proof (induction p arbitrary: q)
  case (Do r k)
  then show ?case by (cases q) auto
qed auto

lemma agree_bindE [agree_intro]:
  "agree p q \<Longrightarrow> (\<And>x. agree (f x) (f' x)) \<Longrightarrow> agree (bindE p f) (bindE q f')"
  unfolding bindE_def by (erule agree_bind) (simp split: sum.splits)

lemma agree_Ret [agree_intro]: "agree (Ret x) (Ret x)" "agree (throw e) (throw e)" "agree (ok y) (ok y)"
  by (simp_all add: throw_def ok_def)

lemma agree_check [agree_intro]: "(e = None \<Longrightarrow> agree p q) \<Longrightarrow> agree (check e p) (check e q)"
  by (simp add: check_def agree_Ret split: option.splits)

lemma agree_if [agree_intro]: "agree p p' \<Longrightarrow> agree q q' \<Longrightarrow> agree (if b then p else q) (if b then p' else q')"
  by simp

lemma agree_cases [agree_intro]:
  "(\<And>e. agree (p e) (p' e)) \<Longrightarrow> (\<And>x. agree (q x) (q' x)) \<Longrightarrow>
     agree (case s of Inl e \<Rightarrow> p e | Inr x \<Rightarrow> q x) (case s of Inl e \<Rightarrow> p' e | Inr x \<Rightarrow> q' x)"
  "agree m m' \<Longrightarrow> (\<And>x. agree (q x) (q' x)) \<Longrightarrow>
     agree (case t of None \<Rightarrow> m | Some x \<Rightarrow> q x) (case t of None \<Rightarrow> m' | Some x \<Rightarrow> q' x)"
  "(\<And>a b. agree (n a b) (n' a b)) \<Longrightarrow> agree (case z of (a, b) \<Rightarrow> n a b) (case z of (a, b) \<Rightarrow> n' a b)"
  "agree m m' \<Longrightarrow> agree m2 m2' \<Longrightarrow> agree (case w of True \<Rightarrow> m | False \<Rightarrow> m2) (case w of True \<Rightarrow> m' | False \<Rightarrow> m2')"
  by (auto split: sum.splits option.splits prod.splits bool.splits)

text \<open>A program that does not ask for the credential agrees with itself.\<close>

abbreviation unasking :: "'a prog \<Rightarrow> bool" where
  "unasking p \<equiv> safe any_answer (\<lambda>r. r \<noteq> RMirrorToken) (\<lambda>_. True) p"

lemma agree_refl: "unasking p \<Longrightarrow> agree p p"
  by (induction p) auto

section \<open>The parts that do not ask\<close>

text \<open>The helpers that do not look at the credential of the configuration.\<close>

lemma same_runs [simp]:
  "git_run (with_creds g t u) = git_run g" "runErr (with_creds g t u) = runErr g" "run_ok (with_creds g t u) = run_ok g"
  "runEnv (with_creds g t u) = runEnv g" "revParse (with_creds g t u) = revParse g"
  "branchExists (with_creds g t u) = branchExists g" "withWriteLock (with_creds g t u) = withWriteLock g"
  "changedPaths (with_creds g t u) = changedPaths g" "checkoutBranch (with_creds g t u) = checkoutBranch g"
  "commitInfo (with_creds g t u) = commitInfo g" "commitStaged (with_creds g t u) = commitStaged g"
  "git_checkBaseSHA (with_creds g t u) = git_checkBaseSHA g"
  unfolding fun_eq_iff git_run_def runErr_def run_ok_def runEnv_def revParse_def branchExists_def withWriteLock_def
    changedPaths_def checkoutBranch_def commitInfo_def commitStaged_def git_checkBaseSHA_def with_creds_simps
  by (intro allI refl)+

lemma same_disk [simp]:
  "extractTar (with_creds g t u) = extractTar g" "build_served (with_creds g t u) = build_served g"
  "ensureServed (with_creds g t u) = ensureServed g" "refreshServed (with_creds g t u) = refreshServed g"
  "repoDiskSize (with_creds g t u) = repoDiskSize g" "enforceQuota (with_creds g t u) = enforceQuota g"
  "gcRepo (with_creds g t u) = gcRepo g" "mirrorEnabled (with_creds g t u) = mirrorEnabled g"
  "extractZipToWorktree (with_creds g t u) = extractZipToWorktree g" "initRepo (with_creds g t u) = initRepo g"
  "replaceWorktree (with_creds g t u) = replaceWorktree g"
  unfolding fun_eq_iff extractTar_def build_served_def ensureServed_def refreshServed_def repoDiskSize_def
    enforceQuota_def gcRepo_def mirrorEnabled_def extractZipToWorktree_def initRepo_def replaceWorktree_def Let_def
    with_creds_simps same_runs
  by (intro allI refl)+

lemma same_publish [simp]:
  "merge_in_worktree (with_creds g t u) = merge_in_worktree g" "merge_with_worktree (with_creds g t u) = merge_with_worktree g"
  "mergeIntoPublished (with_creds g t u) = mergeIntoPublished g" "finishPublish (with_creds g t u) = finishPublish g"
  "move_published (with_creds g t u) = move_published g" "git_publish_locked (with_creds g t u) = git_publish_locked g"
  "fast_forward_branch (with_creds g t u) = fast_forward_branch g"
  unfolding fun_eq_iff merge_in_worktree_def merge_with_worktree_def mergeIntoPublished_def finishPublish_def
    move_published_def git_publish_locked_def fast_forward_branch_def Let_def with_creds_simps same_runs same_disk
  by (intro allI refl)+

lemma same_branches [simp]: "branch_entries (with_creds g t u) i row ls = branch_entries g i row ls"
  by (induction ls) (simp_all split: list.splits)

lemma same_calls [simp]:
  "git_CreateSite (with_creds g t u) = git_CreateSite g" "git_ListBranches (with_creds g t u) = git_ListBranches g"
  "git_CreateBranch (with_creds g t u) = git_CreateBranch g" "git_DeleteBranch (with_creds g t u) = git_DeleteBranch g"
  "git_ListFiles (with_creds g t u) = git_ListFiles g" "git_ReadFile (with_creds g t u) = git_ReadFile g"
  "git_GetDiff (with_creds g t u) = git_GetDiff g" "git_GetLog (with_creds g t u) = git_GetLog g"
  "git_ServedTree (with_creds g t u) = git_ServedTree g" "git_ResolveForServing (with_creds g t u) = git_ResolveForServing g"
  "git_SetRemote (with_creds g t u) = git_SetRemote g"
  unfolding fun_eq_iff git_CreateSite_def git_ListBranches_def git_CreateBranch_def git_DeleteBranch_def
    git_ListFiles_def git_ReadFile_def git_GetDiff_def git_GetLog_def log_limit_def git_ServedTree_def
    git_ResolveForServing_def git_SetRemote_def Let_def with_creds_simps same_runs same_disk same_publish same_branches
  by (intro allI refl)+

named_theorems unasking_intro \<open>programs that do not ask for the credential\<close>

lemma unasking_runs [unasking_intro]:
  "unasking (git_run g i args)" "unasking (runErr g i args)" "unasking (run_ok g i args)" "unasking (runEnv g i a args)"
  "unasking (revParse g i ref)" "unasking (branchExists g i b)" "unasking (changedPaths g i x y)"
  "unasking (commitInfo g i h)" "unasking (conflictPaths wt)" "unasking (load_site what i)" "unasking (act_or (RMkdirAll d) what)"
  unfolding runErr_def run_ok_def git_run_def runEnv_def revParse_def branchExists_def changedPaths_def commitInfo_def
    conflictPaths_def load_site_def act_or_def Let_def
  by (rule safe_intro | simp split: list.splits site_error.splits)+

lemma unasking_act [unasking_intro]: "r \<noteq> RMirrorToken \<Longrightarrow> unasking (act_or r what)" "r \<noteq> RMirrorToken \<Longrightarrow> unasking (store_result r)"
  unfolding act_or_def store_result_def by (rule safe_intro | simp)+

lemma unasking_loops [unasking_intro]:
  "unasking (extract_entry dst hdr)" "unasking (extract_entries dst hdrs ended)"
  "unasking (write_entries root es)" "unasking (clear_worktree root names)" "unasking (branch_entries g i row ls)"
proof -
  show *: "unasking (extract_entry dst hdr)" for hdr
    unfolding extract_entry_def Let_def by (rule safe_intro conjI impI | simp split: tar_type.splits)+
  show "unasking (extract_entries dst hdrs ended)"
    by (induction hdrs) (simp, (rule * safe_intro | simp)+)
  show "unasking (write_entries root es)"
    by (induction es) (simp, unfold write_entries.simps Let_def, (rule unasking_intro safe_intro | simp)+)
  show "unasking (clear_worktree root names)"
    by (induction names) (simp, unfold clear_worktree.simps, (rule unasking_intro safe_intro | simp)+)
  show "unasking (branch_entries g i row ls)"
    by (induction ls) (auto intro!: safe_seqE unasking_runs split: list.splits)
qed

lemma unasking_disk [unasking_intro]:
  "unasking (extractTar g bytes dst)" "unasking (build_served g i h tmp dst)" "unasking (repoDiskSize g i)"
  "unasking (mirrorEnabled g)" "unasking (gcRepo g i)" "unasking (live_site what i)" "unasking (checkoutBranch g i b)"
  "unasking (git_checkBaseSHA g i b base hint)" "unasking (extractZipToWorktree g dir src)" "unasking (replaceWorktree g i es)"
  "unasking (commitStaged g i b a msg)" "unasking (handle_taken hd1)" "unasking (isOwnRedirect i hd2)" "unasking (git_find_handle hd3)"
  unfolding extractTar_def build_served_def repoDiskSize_def mirrorEnabled_def gcRepo_def live_site_def checkoutBranch_def
    git_checkBaseSHA_def extractZipToWorktree_def replaceWorktree_def commitStaged_def handle_taken_def isOwnRedirect_def
    git_find_handle_def Let_def
  by (rule unasking_intro safe_intro | simp)+

lemma unasking_served [unasking_intro]:
  "unasking (ensureServed g i b h)" "unasking (enforceQuota g i n)" "unasking (requireSite i)"
  "unasking (initRepo g i inp)" "unasking (merge_in_worktree g i src tp a msg wt)"
  unfolding ensureServed_def enforceQuota_def requireSite_def initRepo_def merge_in_worktree_def Let_def
  by (rule unasking_intro safe_intro | simp)+

lemma unasking_refresh [unasking_intro]:
  "unasking (refreshServed g i b)" "unasking (mergeIntoPublished g i src tp a msg)"
  unfolding refreshServed_def mergeIntoPublished_def merge_with_worktree_def
  by (rule unasking_intro safe_intro | simp)+

lemma unasking_publish [unasking_intro]: "unasking (finishPublish g i h)" "unasking (move_published g i h)" "unasking (fast_forward_branch g i b)"
  unfolding finishPublish_def move_published_def fast_forward_branch_def Let_def
  by (rule unasking_intro safe_intro | simp)+

lemma unasking_locked [unasking_intro]:
  "unasking fn \<Longrightarrow> unasking (withWriteLock g i fn)" "unasking fn \<Longrightarrow> unasking (withReadLock i fn)"
  unfolding withWriteLock_def withReadLock_def acquireFileLock_def
  by (rule safe_intro | assumption | simp)+

section \<open>The parts that ask\<close>

lemma agree_git:
  assumes "take 1 args = [''push''] \<or> take 1 args = [''fetch'']"
  shows "agree (do_git d env args) (do_git d env' args)"
  using assms by (simp add: do_git_def)

text \<open>The credential enters the environment of the command and is gone.\<close>

lemma agree_runMirror [agree_intro]:
  assumes "take 1 args = [''push''] \<or> take 1 args = [''fetch'']"
  shows "agree (runMirror g i args) (runMirror (with_creds g t u) i args)"
proof (cases "gc_MirrorToken (gs_cfg g)")
  case True
  have "agree (bind (do_git d env args) f) (bind (do_git d env' args) f)" if "\<And>x. agree (f x) (f x)"
    for d env env' and f :: "_ \<Rightarrow> (string \<times> site_error option) prog"
    using that by (intro agree_bind agree_git [OF assms])
  then show ?thesis using True
    by (auto simp: runMirror_def mirrorAuthEnv_def mirrorCreds_def do_creds_def split: prod.splits)
next
  case False
  then show ?thesis
    by (auto simp: runMirror_def mirrorAuthEnv_def mirrorCreds_def intro!: agree_bind agree_git [OF assms] split: prod.splits)
qed

lemma agree_mirror [agree_intro]: "agree (bestEffortMirror g i b) (bestEffortMirror (with_creds g t u) i b)"
  unfolding bestEffortMirror_def same_runs same_disk
  by (intro agree_intro agree_refl unasking_intro) simp

lemma agree_after [agree_intro]: "agree (after_write g i b ci) (after_write (with_creds g t u) i b ci)"
  unfolding after_write_def same_disk by (intro agree_intro agree_refl unasking_intro)

lemma agree_writer:
  "unasking fn \<Longrightarrow> agree (bindE (withWriteLock g i fn) (\<lambda>ci. after_write g i b ci))
     (bindE (withWriteLock g i fn) (\<lambda>ci. after_write (with_creds g t u) i b ci))"
  by (intro agree_bindE agree_after agree_refl unasking_locked)

lemma agree_writers:
  "agree (git_WriteFile g win) (git_WriteFile (with_creds g t u) win)"
  "agree (git_DeleteFile g i b p base a) (git_DeleteFile (with_creds g t u) i b p base a)"
  "agree (git_Commit g cin) (git_Commit (with_creds g t u) cin)"
  "agree (git_Rollback g i b tgt base a) (git_Rollback (with_creds g t u) i b tgt base a)"
  unfolding git_WriteFile_def git_DeleteFile_def git_Commit_def git_Rollback_def Let_def
    same_runs same_disk with_creds_simps
  by (rule agree_check agree_writer unasking_intro safe_intro | simp)+

lemma agree_ImportZip: "agree (git_ImportZip g i b z base a) (git_ImportZip (with_creds g t u) i b z base a)"
  unfolding git_ImportZip_def same_runs same_disk with_creds_simps
  by (rule agree_check agree_cases agree_Ret agree_writer unasking_intro safe_intro | simp)+

lemma unasking_publish_locked [unasking_intro]: "unasking (git_publish_locked g inp src)"
  unfolding git_publish_locked_def Let_def by (rule unasking_intro safe_intro | simp)+

lemma agree_Publish: "agree (git_Publish g inp) (git_Publish (with_creds g t u) inp)"
  unfolding git_Publish_def Let_def same_runs same_publish
  by (intro agree_check agree_bindE agree_bind agree_mirror agree_Ret agree_refl unasking_locked unasking_publish_locked)

lemma agree_locked:
  assumes "agree p q"
  shows "agree (withWriteLock g i p) (withWriteLock g i q)" "agree (withReadLock i p) (withReadLock i q)"
proof -
  have act: "r \<noteq> RMirrorToken \<Longrightarrow> agree (do_act r) (do_act r)" "agree (do_unit r) (do_unit r)" for r
    by (simp_all add: do_act_def do_unit_def)
  show "agree (withWriteLock g i p) (withWriteLock g i q)" "agree (withReadLock i p) (withReadLock i q)"
    unfolding withWriteLock_def withReadLock_def acquireFileLock_def
    by (rule agree_bind agree_if agree_cases agree_Ret act assms | simp)+
qed

lemma agree_MirrorPush: "agree (git_MirrorPush g i bs) (git_MirrorPush (with_creds g t u) i bs)"
  unfolding git_MirrorPush_def
  by (rule agree_bindE agree_bind agree_if agree_cases agree_Ret agree_locked agree_runMirror agree_refl unasking_intro | simp)+

lemma agree_FetchAndUpdate: "agree (git_FetchAndUpdate g i b) (git_FetchAndUpdate (with_creds g t u) i b)"
  unfolding git_FetchAndUpdate_def same_runs same_publish
  by (rule agree_bindE agree_bind agree_if agree_cases agree_Ret agree_locked agree_runMirror agree_refl unasking_intro | simp)+

lemma unasking_calls:
  "unasking (git_CreateSite g inp)" "unasking (git_GetSite i)" "unasking (git_GetSiteByHandle hdl)" "unasking (git_ListSites o1)"
  "unasking (git_RenameHandle i hdl)" "unasking (git_DeleteSite i)" "unasking (git_ListBranches g i)"
  "unasking (git_CreateBranch g i n src)" "unasking (git_DeleteBranch g i n)" "unasking (git_ListFiles g fin)"
  "unasking (git_ReadFile g i b ref p)" "unasking (git_GetDiff g din)" "unasking (git_GetLog g lin)"
  "unasking (git_ServedTree g i b)" "unasking (git_SetRemote g i url)"
  unfolding git_CreateSite_def git_GetSite_def git_GetSiteByHandle_def git_ListSites_def git_RenameHandle_def git_DeleteSite_def
    git_ListBranches_def git_CreateBranch_def git_DeleteBranch_def git_ListFiles_def git_ReadFile_def git_GetDiff_def
    git_GetLog_def git_ServedTree_def git_SetRemote_def Let_def
  by (rule unasking_intro safe_intro | simp split: site_error.splits)+

lemma unasking_Resolve: "unasking (git_ResolveForServing g h)"
  unfolding git_ResolveForServing_def by (rule unasking_calls unasking_intro safe_intro | simp)+

lemmas agree_calls = agree_writers agree_ImportZip agree_Publish agree_MirrorPush agree_FetchAndUpdate
  unasking_calls [THEN agree_refl] unasking_Resolve [THEN agree_refl]

text \<open>
  C24: The GitHub credential stays where it belongs. Two runs of any call, of services configured
  with different tokens and user names, or given different ones by the provider, issue the same
  requests with the same arguments and end with the same result or error, as long as everything
  else answers the same; only the environment of a fetch or a push may differ. So neither a
  command line, a file, the metadata store nor an error value tells anything of the credential.
\<close>

theorem credential_confined: "agree (git_call g op) (git_call (with_creds g token user) op)"
  by (cases op; simp only: git_call.simps same_calls outcome_def; rule agree_bind, rule agree_calls, rule agree_Ret)

end
