(* ===== verification/Git_Guard.thy ===== *)
theory Git_Guard
  imports Git_Locks
begin

text \<open>
  Optimistic locking in the git-backed service (\<open>checkBaseSHA\<close> and its use in \<open>WriteFile\<close>,
  \<open>DeleteFile\<close>, \<open>Commit\<close>, \<open>Rollback\<close> and \<open>Publish\<close>): nothing is changed before git has named the
  caller's base commit as the tip of the branch, under the write lock, and what is changed then
  is what the call is about.
\<close>

section \<open>What a guarded call may do\<close>

text \<open>The site, the branch and the base commit of a guarded call.\<close>

fun guard_of :: "git_op \<Rightarrow> (uuid \<times> branch_name \<times> string) option" where
  "guard_of (GWriteFile inp) = Some (wf_SiteID inp, wf_Branch inp, wf_BaseSHA inp)"
| "guard_of (GDeleteFile i b p base a) = Some (i, b, base)"
| "guard_of (GCommit inp) = Some (cm_SiteID inp, cm_Branch inp, cm_BaseSHA inp)"
| "guard_of (GRollback i b t base a) = Some (i, b, base)"
| "guard_of (GPublish inp) =
     Some (pu_SiteID inp, if pu_From inp = [] then BranchDraft else pu_From inp, pu_BaseSHA inp)"
| "guard_of _ = None"

text \<open>The changing commands of a guarded call, and the file it writes.\<close>

definition is_commit :: "string list \<Rightarrow> bool" where
  "is_commit args \<longleftrightarrow> take 2 args = [''commit'', ''-m''] \<and> length args = 4"

fun commands_of :: "git_op \<Rightarrow> string list \<Rightarrow> bool" where
  "commands_of (GWriteFile inp) args \<longleftrightarrow>
     args = [''checkout'', wf_Branch inp] \<or> args = [''add'', ''--'', wf_Path inp] \<or> is_commit args"
| "commands_of (GDeleteFile i b p base a) args \<longleftrightarrow>
     args = [''checkout'', b] \<or> args = [''rm'', ''--'', p] \<or> is_commit args"
| "commands_of (GCommit inp) args \<longleftrightarrow>
     args = [''checkout'', cm_Branch inp] \<or> args = [''add'', ''-A''] \<or> is_commit args"
| "commands_of (GRollback i b t base a) args \<longleftrightarrow>
     args = [''checkout'', b] \<or> take 1 args = [''read-tree''] \<or> args = [''checkout-index'', ''-a'', ''-f''] \<or>
     args = [''clean'', ''-fd''] \<or> is_commit args"
| "commands_of (GPublish inp) args \<longleftrightarrow>
     args = [''update-ref'', ''refs/heads/published'', pu_BaseSHA inp] \<or> take 1 args = [''worktree''] \<or>
     args = [''merge'', ''--abort''] \<or> take 1 args = [''merge''] \<and> last args = pu_BaseSHA inp"
| "commands_of _ args \<longleftrightarrow> False"

fun file_change :: "req \<Rightarrow> bool" where
  "file_change (RWriteFile p c) = True"
| "file_change (RRemoveAll p) = True"
| "file_change (RRename p q) = True"
| "file_change _ = False"

definition alters :: "req \<Rightarrow> bool" where
  "alters r \<longleftrightarrow> changes r \<or> file_change r"

fun git_args :: "req \<Rightarrow> string list" where
  "git_args (RGit d e args) = args"
| "git_args _ = []"

section \<open>The monitor\<close>

text \<open>
  Before the lock; under the lock; under the lock after git has answered the base commit for the
  branch; and after the lock, with whether it had.
\<close>

datatype guard_phase = Before | Locked | Matched | After bool

definition tip_query :: "gitService \<Rightarrow> uuid \<Rightarrow> branch_name \<Rightarrow> req" where
  "tip_query g i b =
     RGit (g_repo g i) [] [''rev-parse'', ''--verify'', ''--quiet'', ''--end-of-options'', b @ ''^{commit}'']"

definition answers_commit :: "string \<Rightarrow> ans \<Rightarrow> bool" where
  "answers_commit h a = (case a of AGit out None \<Rightarrow> trim_space out = h | _ \<Rightarrow> False)"

definition guard_step ::
  "gitService \<Rightarrow> uuid \<times> branch_name \<times> string \<Rightarrow> guard_phase \<Rightarrow> req \<Rightarrow> ans \<Rightarrow> guard_phase" where
  "guard_step g gd s r a =
     (case gd of (i, b, base) \<Rightarrow>
        (case s of
           Before \<Rightarrow> if r = RLock i then Locked else Before
         | Locked \<Rightarrow>
             if r = RUnlock i then After False
             else if r = tip_query g i b \<and> answers_commit base a then Matched else Locked
         | Matched \<Rightarrow> if r = RUnlock i then After True else Matched
         | After m \<Rightarrow> After m))"

definition guard_ok :: "git_op \<Rightarrow> guard_phase \<Rightarrow> req \<Rightarrow> bool" where
  "guard_ok op s r =
     (case s of
        Matched \<Rightarrow> changes r \<longrightarrow> commands_of op (git_args r)
      | After True \<Rightarrow> \<not> changes r
      | _ \<Rightarrow> \<not> alters r)"

abbreviation guarded ::
  "gitService \<Rightarrow> git_op \<Rightarrow> uuid \<times> branch_name \<times> string \<Rightarrow> guard_phase \<Rightarrow> (guard_phase \<Rightarrow> 'a \<Rightarrow> bool) \<Rightarrow> 'a prog \<Rightarrow> bool" where
  "guarded g op gd s Q p \<equiv> wp (guard_ok op) (guard_step g gd) any_answer Q s p"

text \<open>A program that changes nothing, and one that changes what the call is about.\<close>

definition still_req :: "req \<Rightarrow> bool" where
  "still_req r \<longleftrightarrow> \<not> lock_req r \<and> \<not> alters r"

definition effect_req :: "git_op \<Rightarrow> req \<Rightarrow> bool" where
  "effect_req op r \<longleftrightarrow> \<not> lock_req r \<and> (changes r \<longrightarrow> commands_of op (git_args r))"

abbreviation still :: "'a prog \<Rightarrow> bool" where
  "still p \<equiv> safe any_answer still_req (\<lambda>_. True) p"

abbreviation effect :: "git_op \<Rightarrow> 'a prog \<Rightarrow> bool" where
  "effect op p \<equiv> safe any_answer (effect_req op) (\<lambda>_. True) p"

lemma not_unlock: "\<not> lock_req r \<Longrightarrow> r \<noteq> RUnlock i \<and> r \<noteq> RLock i"
  by auto

lemma guarded_still:
  assumes "still p" and "s = Locked \<or> s = Matched"
  shows "guarded g op gd s (\<lambda>s' _. s' = Matched \<or> s' = Locked \<and> s = Locked) p"
  using assms
proof (induction p arbitrary: s)
  case (Do r k)
  have r: "\<not> lock_req r" "\<not> alters r" using Do.prems by (auto simp: still_req_def)
  let ?st = "guard_step g gd s r"
  have ok: "guard_ok op s r" using r Do.prems by (auto simp: guard_ok_def alters_def)
  have step: "?st a = Matched \<or> ?st a = Locked \<and> s = Locked" for a
    using not_unlock [OF r(1)] Do.prems(2) by (auto simp: guard_step_def split: prod.splits)
  have "guarded g op gd (?st a) (\<lambda>s' _. s' = Matched \<or> s' = Locked \<and> s = Locked) (k a)" for a
    by (rule wp_mono [OF Do.IH [of "k a" "?st a"]]) (use Do.prems step [of a] in auto)
  then show ?case using ok by simp
qed auto

lemma guarded_effect: "effect op p \<Longrightarrow> guarded g op gd Matched (\<lambda>s _. s = Matched) p"
proof (induction p)
  case (Do r k)
  have r: "\<not> lock_req r" "changes r \<longrightarrow> commands_of op (git_args r)" using Do.prems by (auto simp: effect_req_def)
  have "guard_step g gd Matched r a = Matched" for a
    using not_unlock [OF r(1)] by (auto simp: guard_step_def split: prod.splits)
  then show ?case using Do r by (simp add: guard_ok_def)
qed simp

lemma guarded_after: "reading p \<Longrightarrow> guarded g op gd (After True) (\<lambda>s _. s = After True) p"
proof (induction p)
  case (Do r k)
  then show ?case by (auto simp: reading_req_def guard_ok_def guard_step_def split: prod.splits)
qed simp

section \<open>The frame and the check\<close>

lemma still_plain [simp]:
  "still_req (RStat p)" "still_req (RMkdirAll p)" "still_req (ROpenFile p)" "still_req (RWalk p)"
  "still_req (RGetSiteByID i)" "still_req (RGit d e args) \<longleftrightarrow> \<not> changes_repo args"
  by (auto simp: still_req_def alters_def)

text \<open>Resolving the branch to the base commit is the match.\<close>

lemma guarded_tip:
  "guarded g op (i, b, base) Locked
     (\<lambda>s r. (s = Locked \<or> s = Matched) \<and> (r = Inr base \<longrightarrow> s = Matched)) (revParse g i b)"
proof -
  define args where "args = [''rev-parse'', ''--verify'', ''--quiet'', ''--end-of-options'', b @ ''^{commit}'']"
  have q: "tip_query g i b = RGit (g_repo g i) [] args" by (simp add: tip_query_def args_def)
  have ok: "guard_ok op Locked (RGit (g_repo g i) [] args)"
    by (simp add: guard_ok_def alters_def changes_repo_def changing_commands_def args_def)
  have "revParse g i b = Do (RGit (g_repo g i) [] args) (\<lambda>a. case a of
      AGit out f \<Rightarrow> if f \<noteq> None \<or> trim_space out = [] then not_found else ok (trim_space out) | _ \<Rightarrow> not_found)"
    by (auto simp: revParse_def git_run_def do_git_def args_def git_error_def Let_def fun_eq_iff split: ans.splits)
  then show ?thesis using ok
    by (auto simp: guard_step_def q answers_commit_def split: ans.splits)
qed

lemma guarded_check:
  "guarded g op (i, b, base) Locked
     (\<lambda>s r. (s = Locked \<or> s = Matched) \<and> (\<not> isl r \<longrightarrow> s = Matched)) (git_checkBaseSHA g i b base hint)"
proof -
  have diff: "still (changedPaths g i base t)" for t
    unfolding changedPaths_def git_run_def
    by (rule safe_intro | simp add: changes_repo_def changing_commands_def)+
  show ?thesis unfolding git_checkBaseSHA_def
    by (rule wp_bindI [OF guarded_tip])
      (auto simp: wp_bind elim!: wp_mono [OF guarded_still [OF diff]] split: sum.splits)
qed

lemma guarded_site: "guarded g op (i, b, base) Locked (\<lambda>s _. s = Locked) (requireSite j)"
  unfolding requireSite_def live_site_def load_site_def do_row_def
  by (simp add: wp_bindE wp_bind guard_ok_def alters_def guard_step_def tip_query_def split: sum.splits option.splits)

text \<open>The lock frame around a body that succeeds only after the match.\<close>

abbreviation body_post :: "guard_phase \<Rightarrow> site_error + 'a \<Rightarrow> bool" where
  "body_post s r \<equiv> (s = Locked \<or> s = Matched) \<and> (\<not> isl r \<longrightarrow> s = Matched)"

lemma guarded_lock:
  assumes "guarded g op (i, b, base) Locked body_post fn"
  shows "guarded g op (i, b, base) Before (\<lambda>s r. s = After (\<not> isl r) \<or> isl r \<and> s = After True) (withWriteLock g i fn)"
proof -
  let ?gd = "(i, b, base)"
  have free: "guarded g op ?gd s (\<lambda>s' r'. s' = s \<and> r' = r) (bind (do_unit (RFunlock q)) (\<lambda>_. Ret r))"
    if "s = Locked \<or> s = Matched" for s q and r :: "site_error + 'a"
    using that by (auto simp: do_unit_def guard_ok_def alters_def guard_step_def tip_query_def)
  have acq: "guarded g op ?gd Locked (\<lambda>s _. s = Locked) (acquireFileLock d)" for d
    unfolding acquireFileLock_def do_act_def
    by (simp add: guard_ok_def alters_def guard_step_def tip_query_def split: option.splits)
  have body: "guarded g op ?gd Locked body_post (bind (acquireFileLock d) (\<lambda>le. case le of
         Some m \<Rightarrow> git_failed m
       | None \<Rightarrow> bind fn (\<lambda>r. bind (do_unit (RFunlock q)) (\<lambda>_. Ret r))))" for d q
    by (rule wp_bindI [OF acq]) (auto intro!: wp_bindI [OF assms] wp_mono [OF free] split: option.splits)
  have unlock: "guarded g op ?gd s (\<lambda>s r. s = After (\<not> isl r) \<or> isl r \<and> s = After True)
      (bind (do_unit (RUnlock i)) (\<lambda>_. Ret r))" if "body_post s r" for s and r :: "site_error + 'a"
    using that by (auto simp: do_unit_def guard_ok_def alters_def guard_step_def)
  have stat: "guarded g op ?gd Locked (\<lambda>s _. s = Locked) (do_act (RStat d))" for d
    by (simp add: do_act_def guard_ok_def alters_def guard_step_def tip_query_def)
  show ?thesis unfolding withWriteLock_def do_unit_def [of "RLock i"] bind.simps wp.simps
    by (auto simp: guard_ok_def alters_def guard_step_def intro!: wp_bindI [OF stat] wp_bindI [OF assms] wp_bindI [OF body] unlock)
qed

text \<open>
  A call of the common shape: site, check, effect; the error is whatever comes first, and a
  success comes after the match.
\<close>

lemma guarded_body:
  assumes "\<And>u. effect op (f u)"
  shows "guarded g op (i, b, base) Locked body_post
    (bindE (requireSite j) (\<lambda>_. bindE (git_checkBaseSHA g i b base hint) f))"
proof -
  have "guarded g op (i, b, base) Locked body_post (bindE (git_checkBaseSHA g i b base hint) f)"
    unfolding wp_bindE
    by (rule wp_mono [OF guarded_check]) (auto intro!: wp_mono [OF guarded_effect [OF assms]] split: sum.splits)
  then show ?thesis unfolding wp_bindE
    by (intro wp_mono [OF guarded_site]) (auto split: sum.splits)
qed

lemma guarded_writer:
  assumes "\<And>u. effect op (f u)"
  shows "guarded g op (i, b, base) Before (\<lambda>s r. \<not> isl r \<longrightarrow> s = After True)
    (bindE (withWriteLock g i (bindE (requireSite j) (\<lambda>_. bindE (git_checkBaseSHA g i b base hint) f)))
       (\<lambda>ci. after_write g i b ci))"
proof -
  have "guarded g op (i, b, base) (After True) (\<lambda>s r. \<not> isl r \<longrightarrow> s = After True) (after_write g i b ci)" for ci
    by (rule wp_mono [OF guarded_after [OF reading_checks(8)]]) simp
  then show ?thesis unfolding wp_bindE
    by (intro wp_mono [OF guarded_lock [OF guarded_body [OF assms]]]) (auto split: sum.splits)
qed

lemma effect_plain [simp]:
  "effect_req op (RMkdirAll p)" "effect_req op (RWriteFile p c)" "effect_req op (RRemoveAll p)" "effect_req op (RRename p q)"
  "effect_req op (RMkdirTemp p q)" "effect_req op RClock" "effect_req op (RSetPublished i v)"
  "effect_req op (RGit d e args) \<longleftrightarrow> (changes_repo args \<longrightarrow> commands_of op args)"
  by (simp_all add: effect_req_def)

lemma reading_effect: "reading p \<Longrightarrow> effect op p"
  by (erule safe_weaken) (simp add: reading_req_def effect_req_def)

named_theorems effect_intro \<open>programs that change what a guarded call is about\<close>

lemmas effect_read [effect_intro] = reading_intro [THEN reading_effect]

lemma effect_runs [effect_intro]:
  "commands_of op args \<Longrightarrow> effect op (git_run g i args)" "commands_of op args \<Longrightarrow> effect op (run_ok g i args)"
  "commands_of op args \<Longrightarrow> effect op (runEnv g i a args)"
  unfolding run_ok_def git_run_def runEnv_def by (rule safe_intro | simp)+

lemma effect_commit: "(\<And>args. is_commit args \<Longrightarrow> commands_of op args) \<Longrightarrow> effect op (commitStaged g i b a msg)"
  unfolding commitStaged_def by (rule effect_intro safe_intro | simp add: is_commit_def)+

lemma effect_checkout: "commands_of op [''checkout'', b] \<Longrightarrow> effect op (checkoutBranch g i b)"
  unfolding checkoutBranch_def
  by (rule effect_intro safe_intro | simp add: changes_repo_def changing_commands_def)+

section \<open>The guarded calls\<close>

lemma guarded_refused: "guarded g op gd Before (\<lambda>s r. \<not> isl r \<longrightarrow> s = After True) p \<Longrightarrow>
  guarded g op gd Before (\<lambda>s r. \<not> isl r \<longrightarrow> s = After True) (check e p)"
  by (simp split: option.splits)

lemma guarded_WriteFile:
  "guarded g (GWriteFile inp) (wf_SiteID inp, wf_Branch inp, wf_BaseSHA inp) Before
     (\<lambda>s r. \<not> isl r \<longrightarrow> s = After True) (git_WriteFile g inp)"
  unfolding git_WriteFile_def Let_def act_or_def
  by (intro guarded_refused guarded_writer)
    (rule effect_checkout effect_commit safe_seqE effect_runs(2) effect_intro safe_intro | simp)+

lemma guarded_DeleteFile:
  "guarded g (GDeleteFile i b p base a) (i, b, base) Before
     (\<lambda>s r. \<not> isl r \<longrightarrow> s = After True) (git_DeleteFile g i b p base a)"
  unfolding git_DeleteFile_def
  by (intro guarded_refused guarded_writer)
    (rule effect_checkout effect_commit safe_seqE effect_runs(1) effect_intro safe_intro | simp)+

lemma guarded_Commit:
  "guarded g (GCommit inp) (cm_SiteID inp, cm_Branch inp, cm_BaseSHA inp) Before
     (\<lambda>s r. \<not> isl r \<longrightarrow> s = After True) (git_Commit g inp)"
  unfolding git_Commit_def Let_def
  by (intro guarded_refused guarded_writer)
    (rule effect_checkout effect_commit safe_seqE effect_intro safe_intro
      | simp add: changes_repo_def changing_commands_def)+

lemma guarded_Rollback:
  "guarded g (GRollback i b t base a) (i, b, base) Before
     (\<lambda>s r. \<not> isl r \<longrightarrow> s = After True) (git_Rollback g i b t base a)"
  unfolding git_Rollback_def
  by (intro guarded_refused guarded_writer)
    (rule effect_checkout effect_commit safe_seqE effect_intro safe_intro
      | simp add: changes_repo_def changing_commands_def)+

text \<open>Publish moves the published branch to the base commit or merges that commit.\<close>

lemma effect_merge:
  "effect (GPublish inp) (mergeIntoPublished g i src (pu_BaseSHA inp) a msg)"
  unfolding mergeIntoPublished_def merge_with_worktree_def merge_in_worktree_def Let_def
  by (rule safe_intro effect_intro effect_runs(1) | simp)+

lemma effect_move: "effect (GPublish inp) (move_published g i (pu_BaseSHA inp))"
  unfolding move_published_def
  by (rule safe_seqE effect_runs(2) effect_intro safe_intro | simp add: BranchPublished_def)+

lemma effect_publish:
  "effect (GPublish inp) (bind (branchExists g i BranchPublished) (\<lambda>ex. case ex of
       Inl e \<Rightarrow> throw (wrapGit e)
     | Inr False \<Rightarrow> move_published g i (pu_BaseSHA inp)
     | Inr True \<Rightarrow>
         bindE (revParse g i BranchPublished) (\<lambda>pubTip.
           if pubTip = pu_BaseSHA inp then commitInfo g i pubTip
           else bind (runErr g i [''merge-base'', ''--is-ancestor'', BranchPublished, pu_BaseSHA inp]) (\<lambda>ff.
             if ff = None then move_published g i (pu_BaseSHA inp)
             else bind (mergeIntoPublished g i src (pu_BaseSHA inp) (pu_Actor inp) (pu_Message inp)) (\<lambda>m. case m of
               Inl (paths, e) \<Rightarrow> if paths \<noteq> [] then throw (PublishConflictError paths) else throw e
             | Inr h \<Rightarrow> bindE (commitInfo g i h) (\<lambda>ci. bindE (finishPublish g i h) (\<lambda>_. ok ci)))))))"
  by (rule effect_move effect_merge safe_seq safe_seqE effect_intro safe_intro | simp add: changes_repo_def changing_commands_def)+

lemma guarded_Publish:
  assumes "guard_of (GPublish inp) = Some gd"
  shows "guarded g (GPublish inp) gd Before (\<lambda>s r. \<not> isl r \<longrightarrow> s = After True) (git_Publish g inp)"
proof -
  define src where "src = (if pu_From inp = [] then BranchDraft else pu_From inp)"
  have gd: "gd = (pu_SiteID inp, src, pu_BaseSHA inp)" using assms by (auto simp: src_def split: if_splits)
  have "guarded g (GPublish inp) gd Locked body_post (git_publish_locked g inp src)"
    unfolding git_publish_locked_def Let_def gd wp_bindE
    apply (rule wp_mono [OF guarded_site])
    apply (clarsimp split: sum.split)
    apply (rule wp_mono [OF guarded_tip])
    apply (clarsimp split: sum.split)
    apply (rule wp_mono [OF guarded_effect [OF effect_publish]])
    by auto
  then have locked: "guarded g (GPublish inp) gd Before (\<lambda>s r. s = After (\<not> isl r) \<or> isl r \<and> s = After True)
      (withWriteLock g (pu_SiteID inp) (git_publish_locked g inp src))"
    unfolding gd by (rule guarded_lock)
  have mirror: "guarded g (GPublish inp) gd (After True) (\<lambda>s _. s = After True) (bestEffortMirror g i b)" for i b
    by (rule guarded_after [OF reading_checks(7)])
  show ?thesis unfolding git_Publish_def Let_def src_def [symmetric]
    by (intro guarded_refused)
      (auto simp: wp_bindE intro!: wp_mono [OF locked] wp_bindI [OF mirror] split: sum.splits)
qed

lemma guarded_outcome:
  "guarded g op gd s (\<lambda>s r. \<not> isl r \<longrightarrow> R s) p \<Longrightarrow> guarded g op gd s (\<lambda>s e. e = None \<longrightarrow> R s) (outcome p)"
  unfolding outcome_def by (erule wp_bindI) (auto split: sum.splits)

text \<open>
  C8: No lost update in the git-backed service. In a write, a deletion, a commit, a rollback and a
  publish, whatever the environment answers: no command that changes the repository is run and no
  file is written, removed or renamed until git has answered, under the write lock of the site,
  that the tip of the branch is the base commit which the caller named; from then to the release
  of the lock only the commands of that call are run, and a publish moves the published branch to
  that very commit or merges that very commit; after the release no command changes the
  repository. The call succeeds only if the base commit was matched.
\<close>

theorem git_no_lost_update:
  assumes "guard_of op = Some gd"
  shows "wp (guard_ok op) (guard_step g gd) (\<lambda>_ _. True) (\<lambda>s e. e = None \<longrightarrow> s = After True) Before (git_call g op)"
  using assms guarded_WriteFile guarded_DeleteFile guarded_Commit guarded_Rollback guarded_Publish
  by (cases op) (auto intro!: guarded_outcome)

theorem git_no_lost_update_witness:
  "foldl (\<lambda>s (r, a). guard_step example_git (''u1'', ''draft'', ''c0ffee'') s r a) Before
     (trace example_env () (git_call example_git (GWriteFile example_write))) = After True"
proof -
  have "guard_of (GWriteFile example_write) = Some (''u1'', ''draft'', ''c0ffee'')" by (simp add: example_write_def)
  from wp_sound [OF git_no_lost_update [OF this, of example_git], of example_env "()"]
  show ?thesis using example_write_succeeds by simp
qed

end
