(* ===== verification/Git_Files.thy ===== *)
theory Git_Files
  imports Git_Locks
begin

text \<open>
  The files that the git-backed service touches: every path it hands to the file system, and
  every directory it runs git in, lies in the directory of the site the call is about, or is a
  temporary directory.
\<close>

section \<open>Paths below a directory\<close>

text \<open>The elements of an absolute path once it is resolved.\<close>

definition path_elems :: "string \<Rightarrow> string list" where
  "path_elems p = clean_segs True (split_on slash p)"

definition inside :: "string \<Rightarrow> string \<Rightarrow> bool" where
  "inside d p \<longleftrightarrow> has_prefix p [slash] \<and> take (length (path_elems d)) (path_elems p) = path_elems d"

text \<open>Properly below, and written without detours.\<close>

definition below :: "string \<Rightarrow> string \<Rightarrow> bool" where
  "below d p \<longleftrightarrow> inside d p \<and> path_clean p = p \<and> length (path_elems d) < length (path_elems p)"

lemma path_elems_join: "list_all plain_seg ws \<Longrightarrow> path_elems (slash # join_with [slash] ws) = ws"
proof (cases "ws = []")
  case False
  assume pl: "list_all plain_seg ws"
  then have "split_on slash (join_with [slash] ws) = ws"
    using False by (intro join_split) (auto simp: list_all_iff plain_seg_def)
  then show ?thesis using clean_segs_plain [OF pl] by (simp add: path_elems_def)
qed (simp add: path_elems_def)

lemma path_elems_plain: "list_all plain_seg (path_elems p)"
  unfolding path_elems_def by (rule clean_segs_rooted_plain) (rule split_seg_no_slash)

lemma path_clean_elems: "has_prefix p [slash] \<Longrightarrow> path_clean p = slash # join_with [slash] (path_elems p)"
  by (simp add: path_clean_def path_elems_def Let_def)

lemma path_elems_clean: "has_prefix p [slash] \<Longrightarrow> path_elems (path_clean p) = path_elems p"
  by (simp add: path_clean_elems path_elems_join path_elems_plain)

text \<open>Joining a local path appends its elements.\<close>

lemma join_elems:
  assumes "has_prefix p [slash]" and "is_local q"
  shows "path_elems (path_join p q) = path_elems p @ clean_segs False (split_on slash q)"
    and "has_prefix (path_join p q) [slash]" and "path_clean (path_join p q) = path_join p q"
proof -
  have q: "q \<noteq> []" using assms(2) by (auto simp: is_local_def)
  show "path_elems (path_join p q) = path_elems p @ clean_segs False (split_on slash q)"
    using clean_split_join [OF assms(1) q, of "[]"] clean_segs_append_local [OF assms(2), of True "split_on slash p"]
    by (simp add: path_elems_def)
  show "has_prefix (path_join p q) [slash]" by (rule path_join_is_rooted [OF assms(1) q])
  show "path_clean (path_join p q) = path_join p q" using q by (simp add: path_join_def path_clean_idem)
qed

lemma inside_self: "has_prefix d [slash] \<Longrightarrow> inside d d"
  by (simp add: inside_def)

lemma inside_join: "inside d p \<Longrightarrow> is_local q \<Longrightarrow> inside d (path_join p q)"
proof -
  assume i: "inside d p" and q: "is_local q"
  then have p: "has_prefix p [slash]" and t: "take (length (path_elems d)) (path_elems p) = path_elems d" by (auto simp: inside_def)
  then have "length (path_elems d) \<le> length (path_elems p)" by (metis length_take min.absorb_iff2 nat_le_linear take_all)
  then show ?thesis using join_elems [OF p q] t by (simp add: inside_def)
qed

lemma inside_len: "inside d p \<Longrightarrow> length (path_elems d) \<le> length (path_elems p)"
  unfolding inside_def by (metis length_take min.absorb_iff2 nat_le_linear take_all)

lemma below_inside: "below d p \<Longrightarrow> inside d p"
  by (simp add: below_def)

lemma below_join:
  assumes "inside d p" and "is_local q" and "clean_segs False (split_on slash q) \<noteq> [] \<or> below d p"
  shows "below d (path_join p q)"
proof -
  have p: "has_prefix p [slash]" using assms(1) by (simp add: inside_def)
  show ?thesis using inside_join [OF assms(1,2)] join_elems [OF p assms(2)] assms(3) inside_len [OF assms(1)]
    by (cases "clean_segs False (split_on slash q)") (auto simp: below_def)
qed

lemma local_plain: "plain_seg w \<Longrightarrow> is_local w \<and> clean_segs False (split_on slash w) = [w]"
  by (cases w) (auto simp: is_local_iff split_on_single clean_segs_plain plain_seg_def list_all_iff)

text \<open>The parent of a path properly below a directory lies in the directory.\<close>

lemma path_dir_elems:
  assumes "list_all plain_seg (us @ [w])"
  shows "path_dir (slash # join_with [slash] (us @ [w])) = slash # join_with [slash] us"
proof -
  have w: "slash \<notin> set w" and us: "list_all plain_seg us" using assms by (auto simp: plain_seg_def)
  show ?thesis
  proof (cases "us = []")
    case True
    have "last_index_byte (slash # w) slash = Some 0" using last_index_byte_append [OF w, of "[]"] by simp
    then show ?thesis using True by (simp add: path_dir_def path_clean_def Let_def)
  next
    case False
    let ?x = "slash # join_with [slash] us"
    have form: "slash # join_with [slash] (us @ [w]) = ?x @ slash # w" using False by (simp add: join_with_append)
    have "last_index_byte (?x @ slash # w) slash = Some (length ?x)" by (rule last_index_byte_append [OF w])
    moreover have "path_elems (?x @ [slash]) = us"
    proof -
      have "split_on slash (?x @ [slash]) = split_on slash ?x @ [[]]" by (simp add: split_on_append)
      moreover have "clean_segs True (split_on slash ?x @ [[]]) = clean_segs True (split_on slash ?x)"
        by (simp add: clean_segs_def clean_step_def)
      ultimately show ?thesis using path_elems_join [OF us] by (simp add: path_elems_def)
    qed
    ultimately show ?thesis unfolding form path_dir_def
      by (simp add: path_clean_elems)
  qed
qed

lemma inside_dir: "below d p \<Longrightarrow> inside d (path_dir p)"
proof -
  assume b: "below d p"
  then have p: "p = slash # join_with [slash] (path_elems p)" using path_clean_elems [of p] by (auto simp: below_def inside_def)
  obtain us w where e: "path_elems p = us @ [w]" using b by (cases "path_elems p" rule: rev_cases) (auto simp: below_def)
  have pl: "list_all plain_seg (us @ [w])" using path_elems_plain [of p] e by simp
  have dir: "path_dir p = slash # join_with [slash] us" using path_dir_elems [OF pl] p e by simp
  moreover have "path_elems (path_dir p) = us" using pl unfolding dir by (intro path_elems_join) simp
  moreover have "take (length (path_elems d)) us = path_elems d"
    using b e by (auto simp: below_def inside_def)
  ultimately show ?thesis by (simp add: inside_def)
qed

lemma local_clean: "is_local p \<Longrightarrow> is_local (path_clean p)"
proof -
  assume l: "is_local p"
  then have nr: "\<not> has_prefix p [slash]" and pl: "list_all plain_seg (clean_segs False (split_on slash p))"
    by (auto simp: is_local_iff)
  show ?thesis
  proof (cases "clean_segs False (split_on slash p) = []")
    case True
    then have "path_clean p = dot" using nr by (simp add: path_clean_def Let_def)
    moreover have "is_local dot" by code_simp
    ultimately show ?thesis by simp
  next
    case False
    let ?b = "join_with [slash] (clean_segs False (split_on slash p))"
    have "path_clean p = ?b" "?b \<noteq> []" using nr False clean_body_Nil by (auto simp: path_clean_def Let_def)
    moreover have "split_on slash ?b = clean_segs False (split_on slash p)" using False by (rule split_clean_body)
    ultimately show ?thesis using pl not_rooted_body clean_segs_plain [OF pl, of False] by (simp add: is_local_iff)
  qed
qed

section \<open>What a call may touch\<close>

text \<open>The sites directory and the temporary directory are absolute, and an identifier is one path element.\<close>

definition disk_ok :: "string \<Rightarrow> gitService \<Rightarrow> uuid \<Rightarrow> bool" where
  "disk_ok T g i \<longleftrightarrow> has_prefix (gc_Root (gs_cfg g)) [slash] \<and> has_prefix T [slash] \<and> plain_seg i"

definition contained :: "string \<Rightarrow> gitService \<Rightarrow> uuid \<Rightarrow> req \<Rightarrow> bool" where
  "contained T g i r =
     (let own = inside (g_repo g i) in
      (case r of
         RGit d e args \<Rightarrow> own d \<or> inside T d
       | RMkdirAll p \<Rightarrow> own p
       | RWriteFile p c \<Rightarrow> own p
       | RRemoveAll p \<Rightarrow> own p \<or> inside T p
       | RRename p q \<Rightarrow> own p \<and> own q
       | RStat p \<Rightarrow> own p
       | RReadFile p \<Rightarrow> own p
       | RMkdirTemp d pat \<Rightarrow> d = [] \<or> own d
       | RReadDir p \<Rightarrow> own p
       | RWalk p \<Rightarrow> own p
       | ROpenFile p \<Rightarrow> own p
       | RFlock p \<Rightarrow> own p
       | RFunlock p \<Rightarrow> own p
       | _ \<Rightarrow> True))"

text \<open>
  What is relied on: \<open>os.MkdirTemp\<close> makes a directory in the one it is given, or in the temporary
  directory; \<open>os.ReadDir\<close> gives the names of entries; the store answers with rows of the site.
\<close>

definition in_temp :: "string \<Rightarrow> req \<Rightarrow> string \<Rightarrow> bool" where
  "in_temp T r p =
     (case r of
        RMkdirTemp d pat \<Rightarrow> (\<exists>name. plain_seg name \<and> p = path_join (if d = [] then T else d) name)
      | _ \<Rightarrow> True)"

definition fs_answers :: "string \<Rightarrow> uuid \<Rightarrow> req \<Rightarrow> ans \<Rightarrow> bool" where
  "fs_answers T i r a =
     (case a of
        AText (Inr p) \<Rightarrow> in_temp T r p
      | ATexts (Inr names) \<Rightarrow> list_all plain_seg names
      | ARow (Inr (Some row)) \<Rightarrow> sr_ID row = i
      | _ \<Rightarrow> True)"

abbreviation kept :: "string \<Rightarrow> gitService \<Rightarrow> uuid \<Rightarrow> 'a prog \<Rightarrow> bool" where
  "kept T g i p \<equiv> safe (fs_answers T i) (contained T g i) (\<lambda>_. True) p"

lemma contained_simps [simp]:
  "contained T g i (RGit d e args) \<longleftrightarrow> inside (g_repo g i) d \<or> inside T d"
  "contained T g i (RMkdirAll p) \<longleftrightarrow> inside (g_repo g i) p"
  "contained T g i (RWriteFile p c) \<longleftrightarrow> inside (g_repo g i) p"
  "contained T g i (RRemoveAll p) \<longleftrightarrow> inside (g_repo g i) p \<or> inside T p"
  "contained T g i (RRename p q) \<longleftrightarrow> inside (g_repo g i) p \<and> inside (g_repo g i) q"
  "contained T g i (RStat p) \<longleftrightarrow> inside (g_repo g i) p"
  "contained T g i (RReadFile p) \<longleftrightarrow> inside (g_repo g i) p"
  "contained T g i (RMkdirTemp p pat) \<longleftrightarrow> p = [] \<or> inside (g_repo g i) p"
  "contained T g i (RReadDir p) \<longleftrightarrow> inside (g_repo g i) p"
  "contained T g i (RWalk p) \<longleftrightarrow> inside (g_repo g i) p"
  "contained T g i (ROpenFile p) \<longleftrightarrow> inside (g_repo g i) p"
  "contained T g i (RFlock p) \<longleftrightarrow> inside (g_repo g i) p"
  "contained T g i (RFunlock p) \<longleftrightarrow> inside (g_repo g i) p"
  "contained T g i RClock" "contained T g i RMirrorEnabled" "contained T g i RMirrorToken"
  "contained T g i (RGetSiteByID j)" "contained T g i (RGetSiteByHandle h)" "contained T g i (RGetSiteByRedirect h)"
  "contained T g i (RHandleIsTaken h)" "contained T g i (RCreateSiteWithOwner x)" "contained T g i (RSoftDeleteSite j)"
  "contained T g i (RRenameHandleWithRedirect j h h')" "contained T g i (RListSitesForUser j n m)"
  "contained T g i (RSetPublished j v)" "contained T g i (RSetSiteRemote j v)" "contained T g i (RLock j)"
  "contained T g i (RUnlock j)" "contained T g i (RRLock j)" "contained T g i (RRUnlock j)"
  by (simp_all add: contained_def Let_def)

lemma local_names [simp]:
  "is_local ''.git''" "is_local ''served''" "is_local ''kotoji.lock''" "is_local ''index.html''" "is_local kotojiMetaFile"
  by code_simp+

text \<open>The directories of a site.\<close>

lemma site_dirs:
  assumes "disk_ok T g i"
  shows "inside (g_repo g i) (g_repo g i)" "inside (g_repo g i) (g_gitDir g i)"
    "inside (g_repo g i) (lockFilePath (g_gitDir g i))" "inside (g_repo g i) (path_join (g_repo g i) ''served'')"
    "has_prefix T [slash]"
proof -
  show repo: "inside (g_repo g i) (g_repo g i)"
    using assms unfolding repoDir_def disk_ok_def
    by (intro inside_self path_join_is_rooted) (auto simp: plain_seg_def)
  show "inside (g_repo g i) (g_gitDir g i)" "inside (g_repo g i) (lockFilePath (g_gitDir g i))"
    "inside (g_repo g i) (path_join (g_repo g i) ''served'')"
    unfolding gitDir_def lockFilePath_def by (intro inside_join repo local_names)+
  show "has_prefix T [slash]" using assms by (simp add: disk_ok_def)
qed

lemma branch_local: "validateBranchName b = None \<Longrightarrow> plain_seg b"
  using host_label_safe by (auto simp: validateBranchName_iff safe_seg_def)

lemma served_below:
  assumes "disk_ok T g i" and "validateBranchName b = None"
  shows "below (g_repo g i) (g_served g i b)"
  unfolding servedDir_def
  using site_dirs(4) [OF assms(1)] local_plain [OF branch_local [OF assms(2)]] by (intro below_join) auto

section \<open>The parts of the calls\<close>

named_theorems kept_intro \<open>programs that stay in the directory of the site\<close>
named_theorems kept_first \<open>the binds whose first result carries information\<close>

lemma wp_bind_temp [kept_first]:
  assumes "disk_ok T g i" and "d = [] \<or> inside (g_repo g i) d"
    and "\<And>e. kept T g i (f (Inl e))"
    and "\<And>name. plain_seg name \<Longrightarrow> kept T g i (f (Inr (path_join (if d = [] then T else d) name)))"
  shows "kept T g i (bind (do_text (RMkdirTemp d pat)) f)"
  using assms(2-4) unfolding do_text_def
  by (auto simp: fs_answers_def in_temp_def split: ans.splits sum.splits)

lemma bind_names [kept_first]:
  assumes "disk_ok T g i" and "inside (g_repo g i) d"
    and "\<And>e. kept T g i (f (Inl e))" and "\<And>names. list_all plain_seg names \<Longrightarrow> kept T g i (f (Inr names))"
  shows "kept T g i (bind (do_texts (RReadDir d)) f)"
  using assms(2-4) unfolding do_texts_def
  by (auto simp: fs_answers_def split: ans.splits sum.splits)

lemma kept_runs [kept_intro]:
  assumes "disk_ok T g i"
  shows "kept T g i (git_run g i args)" "kept T g i (runErr g i args)" "kept T g i (run_ok g i args)"
    "kept T g i (runEnv g i a args)" "kept T g i (runMirror g i args)"
  unfolding runErr_def run_ok_def git_run_def runEnv_def runMirror_def mirrorAuthEnv_def mirrorCreds_def
  by (rule safe_intro | simp add: site_dirs [OF assms])+

lemma kept_queries [kept_intro]:
  assumes "disk_ok T g i"
  shows "kept T g i (revParse g i ref)" "kept T g i (branchExists g i b)" "kept T g i (changedPaths g i x y)"
    "kept T g i (commitInfo g i h)" "kept T g i (load_site what j)" "kept T g i (live_site what j)" "kept T g i (requireSite j)"
    "kept T g i (handle_taken hdl)" "kept T g i (isOwnRedirect j hdl)" "kept T g i (mirrorEnabled g)" "kept T g i (gcRepo g i)"
    "kept T g i (repoDiskSize g i)"
  unfolding revParse_def branchExists_def changedPaths_def commitInfo_def requireSite_def live_site_def load_site_def
    handle_taken_def isOwnRedirect_def mirrorEnabled_def gcRepo_def repoDiskSize_def Let_def
  by (rule kept_intro [OF assms] safe_intro | simp add: site_dirs [OF assms] split: list.splits site_error.splits)+

lemma kept_entry [kept_intro]:
  assumes "disk_ok T g i" and "below (g_repo g i) dst"
  shows "kept T g i (extract_entry dst hdr)"
proof -
  have b: "below (g_repo g i) (path_join dst (path_clean n))" if "is_local n" for n
    using assms(2) that by (intro below_join local_clean below_inside) auto
  show ?thesis unfolding extract_entry_def Let_def
    by (rule safe_intro conjI impI | simp add: b below_inside inside_dir split: tar_type.splits)+
qed

lemma kept_entries [kept_intro]:
  assumes "disk_ok T g i" and "below (g_repo g i) dst"
  shows "kept T g i (extract_entries dst hdrs ended)"
  by (induction hdrs) (simp, (rule kept_entry [OF assms] safe_intro | simp)+)

lemma kept_served [kept_intro]:
  assumes "disk_ok T g i" and "validateBranchName b = None"
  shows "kept T g i (ensureServed g i b h)"
proof -
  note served = served_below [OF assms]
  have tmp: "below (g_repo g i) (path_join (path_dir (g_served g i b)) name)" if "plain_seg name" for name
    using inside_dir [OF served] local_plain [OF that] by (intro below_join) auto
  have build: "kept T g i (build_served g i h tmp (g_served g i b))" if "below (g_repo g i) tmp" for tmp
    unfolding build_served_def extractTar_def act_or_def
    using that served
    by (rule_tac safe_intro kept_entries [OF assms(1)] | simp add: site_dirs [OF assms(1)] below_inside inside_join)+
  have dir: "path_dir (g_served g i b) \<noteq> []" using inside_dir [OF served] by (auto simp: inside_def)
  show ?thesis unfolding ensureServed_def Let_def act_or_def
    by (rule wp_bind_temp [OF assms(1)] safe_intro build
      | clarsimp simp: site_dirs [OF assms(1)] below_inside inside_dir inside_join served tmp dir)+
qed

lemma kept_refresh [kept_intro]:
  assumes "disk_ok T g i" and "validateBranchName b = None"
  shows "kept T g i (refreshServed g i b)"
  unfolding refreshServed_def
  by (rule kept_intro [OF assms(1)] safe_intro | simp add: assms)+

lemma published_branch: "validateBranchName BranchPublished = None"
  by code_simp

lemma kept_mirror [kept_intro]: "disk_ok T g i \<Longrightarrow> kept T g i (bestEffortMirror g i b)"
  unfolding bestEffortMirror_def by (rule kept_intro safe_intro | assumption | simp)+

lemma kept_after [kept_intro]:
  "disk_ok T g i \<Longrightarrow> validateBranchName b = None \<Longrightarrow> kept T g i (after_write g i b ci)"
  unfolding after_write_def by (rule kept_intro safe_intro | assumption | simp)+

lemma kept_steps [kept_intro]:
  assumes "disk_ok T g i"
  shows "kept T g i (git_checkBaseSHA g i b base hint)" "kept T g i (checkoutBranch g i b)"
    "kept T g i (commitStaged g i b a msg)" "kept T g i (enforceQuota g i n)" "kept T g i (finishPublish g i h)"
  unfolding git_checkBaseSHA_def checkoutBranch_def commitStaged_def enforceQuota_def finishPublish_def act_or_def Let_def
  by (rule kept_intro [OF assms] safe_intro | simp add: published_branch)+

lemma kept_locked [kept_intro]:
  assumes "disk_ok T g i" and "kept T g i fn"
  shows "kept T g i (withWriteLock g i fn)" "kept T g i (withReadLock j fn)"
  unfolding withWriteLock_def withReadLock_def acquireFileLock_def
  by (rule safe_intro assms(2) | simp add: site_dirs [OF assms(1)])+

text \<open>The entries of an accepted archive are local paths.\<close>

lemma zip_entry_local: "readZipFile c f tot = Inr e \<Longrightarrow> is_local (fst e) \<and> clean_segs False (split_on slash (fst e)) \<noteq> []"
proof -
  assume r: "readZipFile c f tot = Inr e"
  let ?n = "zf_name f"
  have g: "zipFileGuard c f = None" and e: "fst e = path_clean ?n"
    using r by (auto simp: readZipFile_def split: option.splits zip_data.splits if_splits)
  then have l: "is_local ?n" and ok: "\<not> (path_clean ?n = dot \<or> has_prefix (path_clean ?n) ''../'' \<or> contains (path_clean ?n) ''/../'')"
    by (auto simp: zipFileGuard_def Let_def split: if_splits)
  note checks = local_clean_checks [OF l]
  have ne: "clean_segs False (split_on slash ?n) \<noteq> []" using ok checks(1) by blast
  have "list_all plain_seg (clean_segs False (split_on slash ?n))" using l by (simp add: is_local_iff)
  then show ?thesis using local_clean [OF l] ne checks(2) [OF ne] clean_segs_plain by (simp add: e)
qed

lemma zip_entries_local:
  "openZip c src = Inr es \<Longrightarrow> list_all (\<lambda>e. is_local (fst e) \<and> clean_segs False (split_on slash (fst e)) \<noteq> []) es"
proof -
  have "readZipFiles c fs tot = Inr es \<Longrightarrow> list_all (\<lambda>e. is_local (fst e) \<and> clean_segs False (split_on slash (fst e)) \<noteq> []) es" for fs tot
    by (induction c fs tot arbitrary: es rule: readZipFiles.induct)
      (auto split: if_splits sum.splits prod.splits dest: zip_entry_local)
  then show "openZip c src = Inr es \<Longrightarrow> ?thesis"
    by (auto simp: openZip_def validateAndReadZip_def split: if_splits zip_reader.splits sum.splits)
qed

lemma kept_write_entries [kept_intro]:
  assumes "disk_ok T g i" and "list_all (\<lambda>e. is_local (fst e) \<and> clean_segs False (split_on slash (fst e)) \<noteq> []) es"
  shows "kept T g i (write_entries (g_repo g i) es)"
  using assms(2)
proof (induction es)
  case (Cons e es)
  then have b: "below (g_repo g i) (path_join (g_repo g i) (fst e))" and IH: "kept T g i (write_entries (g_repo g i) es)"
    by (auto intro!: below_join site_dirs [OF assms(1)])
  show ?case unfolding write_entries.simps Let_def act_or_def
    by (rule safe_intro IH | simp add: below_inside [OF b] inside_dir [OF b])+
qed simp

lemma kept_clear [kept_intro]:
  assumes "disk_ok T g i" and "list_all plain_seg names"
  shows "kept T g i (clear_worktree (g_repo g i) names)"
  using assms(2)
proof (induction names)
  case (Cons n names)
  then have b: "inside (g_repo g i) (path_join (g_repo g i) n)" and IH: "kept T g i (clear_worktree (g_repo g i) names)"
    using local_plain by (auto intro!: inside_join site_dirs [OF assms(1)])
  show ?case unfolding clear_worktree.simps act_or_def by (rule safe_intro IH | simp add: b)+
qed simp

lemma kept_worktree [kept_intro]:
  assumes "disk_ok T g i" and "list_all (\<lambda>e. is_local (fst e) \<and> clean_segs False (split_on slash (fst e)) \<noteq> []) es"
  shows "kept T g i (replaceWorktree g i es)"
  unfolding replaceWorktree_def Let_def
  by (rule bind_names [OF assms(1)] kept_clear [OF assms(1)] kept_write_entries [OF assms] safe_intro | clarsimp simp: site_dirs [OF assms(1)])+

lemma kept_zip [kept_intro]: "disk_ok T g i \<Longrightarrow> kept T g i (extractZipToWorktree g (g_repo g i) src)"
  unfolding extractZipToWorktree_def
  by (cases "openZip (gc_Zip (gs_cfg g)) src") (auto intro!: kept_write_entries dest: zip_entries_local)

lemma kept_init [kept_intro]:
  assumes "disk_ok T g i"
  shows "kept T g i (initRepo g i inp)"
  unfolding initRepo_def Let_def act_or_def
  by (rule kept_intro [OF assms] safe_intro | simp add: site_dirs [OF assms] inside_join)+

text \<open>The work tree of a merge is a temporary directory.\<close>

lemma kept_merge [kept_intro]:
  assumes "disk_ok T g i"
  shows "kept T g i (mergeIntoPublished g i src h a msg)"
proof -
  have wt: "inside T (path_join T name)" if "plain_seg name" for name
    using local_plain [OF that] by (intro inside_join inside_self site_dirs [OF assms]) auto
  show ?thesis
    unfolding mergeIntoPublished_def merge_with_worktree_def merge_in_worktree_def conflictPaths_def Let_def
    by (rule wp_bind_temp [OF assms] kept_intro [OF assms] safe_intro | clarsimp simp: wt)+
qed

lemma kept_move [kept_intro]:
  assumes "disk_ok T g i"
  shows "kept T g i (move_published g i h)"
  unfolding move_published_def by (rule kept_intro [OF assms] safe_intro)+

section \<open>The calls\<close>

lemma kept_rows:
  assumes "disk_ok T g i"
  shows "kept T g i (git_GetSite j)" "kept T g i (git_GetSiteByHandle hdl)" "kept T g i (git_ListSites o1)"
    "kept T g i (git_RenameHandle j hdl)" "kept T g i (git_DeleteSite j)"
  unfolding git_GetSite_def git_GetSiteByHandle_def git_ListSites_def git_RenameHandle_def git_DeleteSite_def act_or_def Let_def
  by (rule kept_intro [OF assms] safe_intro | simp)+

lemma bind_row:
  assumes "\<And>e. kept T g i (f (Inl e))" and "kept T g i (f (Inr None))"
    and "\<And>row. sr_ID row = i \<Longrightarrow> kept T g i (f (Inr (Some row)))" and "contained T g i r"
  shows "kept T g i (bind (do_row r) f)"
  using assms unfolding do_row_def by (auto simp: fs_answers_def split: ans.splits sum.splits option.splits)

lemma kept_CreateSite:
  assumes "disk_ok T g i"
  shows "kept T g i (git_CreateSite g inp)"
proof -
  have created: "kept T g (sr_ID row) (bind (initRepo g (sr_ID row) inp) (\<lambda>res. case res of
      Inl e \<Rightarrow> bind (do_act (RRemoveAll (g_repo g (sr_ID row)))) (\<lambda>_. bind (do_act (RSoftDeleteSite (sr_ID row))) (\<lambda>_. throw e))
    | Inr _ \<Rightarrow> ok (toSite row)))" if "disk_ok T g (sr_ID row)" for row
    by (rule kept_intro [OF that] safe_intro | simp add: site_dirs [OF that])+
  show ?thesis unfolding git_CreateSite_def using assms
    by (intro safe_check safe_seqE safe_if kept_queries(8) [OF assms] bind_row)
      (auto intro!: created split: if_splits)
qed

lemma kept_entries_of [kept_intro]:
  assumes "disk_ok T g i"
  shows "kept T g i (branch_entries g i row ls)"
proof (induction ls)
  case (Cons l ls)
  show ?case unfolding branch_entries.simps
    by (cases "go_fields l"; cases "tl (go_fields l)") (simp_all add: Cons, (rule kept_intro [OF assms] safe_intro Cons | simp)+)
qed simp

lemma kept_queries_of:
  assumes "disk_ok T g i"
  shows "kept T g i (git_ListBranches g i)" "kept T g i (git_CreateBranch g i n src)" "kept T g i (git_ReadFile g i b ref p)"
    "kept T g i (git_SetRemote g i url)" "kept T g i (git_MirrorPush g i bs)"
  unfolding git_ListBranches_def git_CreateBranch_def git_ReadFile_def git_SetRemote_def git_MirrorPush_def store_result_def Let_def
  by (rule kept_intro [OF assms] safe_intro | simp add: assms)+

lemma kept_inputs:
  shows "disk_ok T g (lf_SiteID fin) \<Longrightarrow> kept T g (lf_SiteID fin) (git_ListFiles g fin)"
    "disk_ok T g (do_SiteID din) \<Longrightarrow> kept T g (do_SiteID din) (git_GetDiff g din)"
    "disk_ok T g (lo_SiteID lin) \<Longrightarrow> kept T g (lo_SiteID lin) (git_GetLog g lin)"
    "disk_ok T g (pu_SiteID pin) \<Longrightarrow> kept T g (pu_SiteID pin) (git_Publish g pin)"
  unfolding git_ListFiles_def git_GetDiff_def git_GetLog_def git_Publish_def git_publish_locked_def Let_def
  by (rule kept_intro safe_intro | assumption | simp split: site_error.splits)+

lemma kept_branch_calls:
  assumes "disk_ok T g i" and "validateBranchName b = None"
  shows "kept T g i (git_DeleteFile g i b p base a)" "kept T g i (git_Rollback g i b t base a)"
    "kept T g i (git_ServedTree g i b)" "kept T g i (git_DeleteBranch g i b)" "kept T g i (git_FetchAndUpdate g i b)"
  unfolding git_DeleteFile_def git_Rollback_def git_ServedTree_def git_DeleteBranch_def git_FetchAndUpdate_def
    fast_forward_branch_def Let_def
  by (rule kept_intro [OF assms(1)] safe_intro | simp add: assms below_inside [OF served_below [OF assms]])+

lemma write_path_below:
  assumes "disk_ok T g i" and "validateWritePath a p = None"
  shows "below (g_repo g i) (path_join (g_repo g i) p)"
proof -
  have "\<exists>ok. validatePathWith p ok = None"
    using assms(2) by (auto simp: validateWritePath_def validatePath_def validateMCPWritePath_def split: if_splits)
  then obtain ok where v: "validatePathWith p ok = None" ..
  then have "clean_segs False (split_on slash p) \<noteq> []" by (simp add: validatePathWith_iff)
  then show ?thesis using accepted_local [OF v] by (intro below_join site_dirs [OF assms(1)]) auto
qed

lemma kept_WriteFile:
  assumes "disk_ok T g (wf_SiteID inp)" and "validateBranchName (wf_Branch inp) = None"
  shows "kept T g (wf_SiteID inp) (git_WriteFile g inp)"
proof (cases "validateWritePath (wf_Actor inp) (wf_Path inp)")
  case None
  note b = write_path_below [OF assms(1) None]
  show ?thesis unfolding git_WriteFile_def Let_def act_or_def
    by (rule kept_intro [OF assms(1)] safe_intro | simp add: assms below_inside [OF b] inside_dir [OF b])+
qed (simp add: git_WriteFile_def check_def split: option.splits)

lemma kept_Commit:
  assumes "disk_ok T g (cm_SiteID inp)" and "validateBranchName (cm_Branch inp) = None"
  shows "kept T g (cm_SiteID inp) (git_Commit g inp)"
  unfolding git_Commit_def Let_def
  by (rule kept_intro [OF assms(1)] safe_intro | simp add: assms)+

lemma kept_ImportZip:
  assumes "disk_ok T g i" and "validateBranchName b = None"
  shows "kept T g i (git_ImportZip g i b z base a)"
  unfolding git_ImportZip_def
  by (rule kept_intro [OF assms(1)] safe_intro | simp add: assms zip_entries_local)+

lemma bind_find:
  assumes "disk_ok T g i" and "\<And>row. sr_ID row = i \<Longrightarrow> kept T g i (f row)"
  shows "kept T g i (bindE (git_find_handle h) f)"
proof -
  have "safe (fs_answers T i) (contained T g i) (\<lambda>r. case r of Inl e \<Rightarrow> True | Inr row \<Rightarrow> sr_ID row = i) (git_find_handle h)"
    unfolding git_find_handle_def do_row_def
    by (auto simp: fs_answers_def split: ans.splits sum.splits option.splits)
  then show ?thesis by (rule safe_bindEI) (rule assms(2))
qed

lemma kept_Resolve:
  assumes "disk_ok T g i"
  shows "kept T g i (git_ResolveForServing g h)"
proof (cases "parseHostOrPath h")
  case (Inr p)
  obtain hd1 b where p: "p = (hd1, b)" by fastforce
  have "kept T g i (git_ServedTree g i b)"
    if "(if b \<noteq> BranchPublished then validateBranchName b else None) = None"
    using that published_branch by (intro kept_branch_calls(3) [OF assms]) (auto split: if_splits)
  then show ?thesis unfolding git_ResolveForServing_def Inr p sum.case prod.case
    by (intro safe_check bind_find [OF assms] safe_seqE) simp_all
qed (simp add: git_ResolveForServing_def)

text \<open>The site a call names; the other calls find it in the store.\<close>

fun op_site :: "git_op \<Rightarrow> uuid option" where
  "op_site (GCreateSite inp) = None"
| "op_site (GGetSite i) = Some i"
| "op_site (GGetSiteByHandle h) = None"
| "op_site (GListSites o1) = None"
| "op_site (GRenameHandle i h) = Some i"
| "op_site (GDeleteSite i) = Some i"
| "op_site (GListBranches i) = Some i"
| "op_site (GCreateBranch i n src) = Some i"
| "op_site (GDeleteBranch i n) = Some i"
| "op_site (GListFiles inp) = Some (lf_SiteID inp)"
| "op_site (GReadFile i b ref p) = Some i"
| "op_site (GWriteFile inp) = Some (wf_SiteID inp)"
| "op_site (GDeleteFile i b p base a) = Some i"
| "op_site (GCommit inp) = Some (cm_SiteID inp)"
| "op_site (GImportZip i b z base a) = Some i"
| "op_site (GPublish inp) = Some (pu_SiteID inp)"
| "op_site (GGetDiff inp) = Some (do_SiteID inp)"
| "op_site (GGetLog inp) = Some (lo_SiteID inp)"
| "op_site (GRollback i b t base a) = Some i"
| "op_site (GServedTree i b) = Some i"
| "op_site (GResolveForServing h) = None"
| "op_site (GSetRemote i u) = Some i"
| "op_site (GMirrorPush i bs) = Some i"
| "op_site (GFetchAndUpdate i b) = Some i"

lemma kept_outcome: "kept T g i p \<Longrightarrow> kept T g i (outcome p)"
  unfolding outcome_def by (erule safe_then) simp

lemmas kept_calls = kept_rows kept_CreateSite kept_queries_of kept_inputs kept_branch_calls kept_WriteFile kept_Commit
  kept_ImportZip kept_Resolve

text \<open>
  C14: The git-backed service stays in the directory of the site. In every call, whatever the
  content of archives, tar streams, paths and the answers of git are, each file that is written,
  read, removed or renamed and each directory that git runs in is resolved to a path in the
  repository directory of the one site the call is about, or to a fresh temporary directory. It
  is enough that the branch texts of the calls that do not check them are well-formed labels.
\<close>

theorem git_files_contained:
  assumes "disk_ok T g i" and "op_site op = None \<or> op_site op = Some i"
    and "\<forall>b \<in> set (op_branches op). validateBranchName b = None"
  shows "safe (fs_answers T i) (contained T g i) (\<lambda>_. True) (git_call g op)"
  using assms by (cases op) (auto intro!: kept_outcome kept_calls)

theorem git_files_contained_witness:
  "safe (fs_answers ''/tmp'' ''u1'') (contained ''/tmp'' example_git ''u1'') (\<lambda>_. True) (git_call example_git (GWriteFile example_write)) \<and>
   contained ''/tmp'' example_git ''u1'' (RWriteFile ''/data/sites/u1/a/../b.html'' []) \<and>
   \<not> contained ''/tmp'' example_git ''u1'' (RWriteFile ''/data/sites/u1/../u2/b.html'' [])"
proof -
  have "disk_ok ''/tmp'' example_git ''u1''"
    by (simp add: disk_ok_def example_git_def NewService_def git_withDefaults_def plain_seg_def)
  moreover have "op_site (GWriteFile example_write) = Some ''u1''" by (simp add: example_write_def)
  moreover have "op_branches (GWriteFile example_write) = [''draft'']" by (simp add: example_write_def)
  moreover have "validateBranchName ''draft'' = None" by code_simp
  ultimately have "safe (fs_answers ''/tmp'' ''u1'') (contained ''/tmp'' example_git ''u1'') (\<lambda>_. True)
      (git_call example_git (GWriteFile example_write))"
    by (intro git_files_contained) simp_all
  moreover have "inside (g_repo example_git ''u1'') ''/data/sites/u1/a/../b.html''"
    "\<not> inside (g_repo example_git ''u1'') ''/data/sites/u1/../u2/b.html''" by code_simp+
  ultimately show ?thesis by simp
qed

end
