(* ===== verification/Git_History.thy ===== *)
theory Git_History
  imports Git_Parse
begin

text \<open>
  What git prints in the service's log format and what \<open>parseLog\<close> reads from it: the round trip
  for commits whose texts are free of the separators, and what happens otherwise.
\<close>

section \<open>The log as git prints it\<close>

record log_record =
  lr_sha :: string
  lr_short :: string
  lr_name :: string
  lr_email :: string
  lr_date :: string
  lr_parents :: "string list"
  lr_body :: string

definition record_fields :: "log_record \<Rightarrow> string list" where
  "record_fields r = [lr_sha r, lr_short r, lr_name r, lr_email r, lr_date r, join_with '' '' (lr_parents r)]"

text \<open>The expansion of the format without its last separator, and a log: the records on lines of their own.\<close>

definition record_text :: "log_record \<Rightarrow> string" where
  "record_text r = concat (map (\<lambda>f. f @ [fieldSep]) (record_fields r)) @ lr_body r"

definition git_log :: "log_record list \<Rightarrow> string" where
  "git_log rs = join_with [nl] (map (\<lambda>r. record_text r @ [recordSep]) rs)"

definition word_ok :: "string \<Rightarrow> bool" where
  "word_ok s \<longleftrightarrow> s \<noteq> [] \<and> list_all (\<lambda>c. \<not> is_space c \<and> c \<noteq> fieldSep \<and> c \<noteq> recordSep) s"

definition text_ok :: "string \<Rightarrow> bool" where
  "text_ok s \<longleftrightarrow> fieldSep \<notin> set s \<and> recordSep \<notin> set s"

text \<open>Hashes, dates and parents are words; a name or an address has neither separator; a message has no record separator.\<close>

definition printable :: "log_record \<Rightarrow> bool" where
  "printable r \<longleftrightarrow>
     word_ok (lr_sha r) \<and> word_ok (lr_short r) \<and> word_ok (lr_date r) \<and> list_all word_ok (lr_parents r) \<and>
     text_ok (lr_name r) \<and> text_ok (lr_email r) \<and> recordSep \<notin> set (lr_body r)"

definition log_commit :: "log_record \<Rightarrow> CommitInfo" where
  "log_commit r =
     (let msg = trim_right (\<lambda>c. c = nl) (lr_body r) in
      \<lparr> ci_SHA = lr_sha r, ci_ShortSHA = lr_short r, ci_Message = msg, ci_AuthorName = lr_name r,
        ci_AuthorEmail = lr_email r,
        ci_Committed = (case parse_rfc3339 (lr_date r) of Some t \<Rightarrow> t | None \<Rightarrow> zero_time),
        ci_Parents = lr_parents r, ci_Via = extractVia msg \<rparr>)"

section \<open>Reading it back\<close>

lemma split_n_step:
  "c \<notin> set f \<Longrightarrow> split_n (Suc (Suc n)) c (f @ c # s) = f # split_n (Suc n) c s"
  by (simp add: index_byte_append)

lemma seps: "fieldSep \<noteq> recordSep" "fieldSep \<noteq> CHR '' ''" "recordSep \<noteq> CHR '' ''" "recordSep \<noteq> nl" "fieldSep \<noteq> nl"
  "is_space nl" "is_space CHR '' ''" "\<not> is_space fieldSep" "\<not> is_space recordSep"
  by code_simp+

lemma word_trim: "word_ok s \<Longrightarrow> trim_space s = s"
  by (rule trim_space_id) (auto simp: word_ok_def list_all_iff)

lemma go_fields_words:
  assumes "list_all word_ok ws"
  shows "go_fields (join_with '' '' ws) = ws"
proof (cases "ws = []")
  case False
  have sp: "\<not> is_space c" if "w \<in> set ws" "c \<in> set w" for w c
    using assms that by (auto simp: list_all_iff word_ok_def)
  have id: "map (\<lambda>c. if is_space c then CHR '' '' else c) (join_with '' '' vs) = join_with '' '' vs"
    if "set vs \<subseteq> set ws" for vs
    using that
  proof (induction "'' ''" vs rule: join_with.induct)
    case (2 w) then show ?case using sp by (auto intro!: map_idI)
  next
    case (3 w v vs)
    have "map (\<lambda>c. if is_space c then CHR '' '' else c) w = w" using 3(2) sp by (auto intro!: map_idI)
    then show ?case using 3 by simp
  qed simp
  have "CHR '' '' \<notin> set w" if "w \<in> set ws" for w using sp [OF that] seps(7) by blast
  then have "split_on CHR '' '' (join_with '' '' ws) = ws" using False by (intro join_split) auto
  moreover have "filter (\<lambda>w. w \<noteq> []) ws = ws" using assms by (auto simp: list_all_iff word_ok_def intro!: filter_True)
  ultimately show ?thesis using id [of ws] by (simp add: go_fields_def)
qed (simp add: go_fields_def)

lemma words_text: "list_all word_ok ws \<Longrightarrow> text_ok (join_with '' '' ws)"
proof (induction "'' ''" ws rule: join_with.induct)
  case (2 w)
  then show ?case by (auto simp: text_ok_def word_ok_def list_all_iff)
next
  case (3 w v vs)
  then show ?case using seps(2,3) by (auto simp: text_ok_def word_ok_def list_all_iff)
qed (simp add: text_ok_def)

lemma parse_printed:
  assumes "printable r"
  shows "parse_record (record_text r) = Some (log_commit r)" and "parse_record (nl # record_text r) = Some (log_commit r)"
    and "recordSep \<notin> set (record_text r)"
proof -
  note p = assms [unfolded printable_def]
  have par: "text_ok (join_with '' '' (lr_parents r))" using p words_text by blast
  have w: "word_ok s \<Longrightarrow> text_ok s" for s by (auto simp: word_ok_def text_ok_def list_all_iff)
  have fs: "fieldSep \<notin> set f" "recordSep \<notin> set f" if "f \<in> set (record_fields r)" for f
    using that p par w by (auto simp: record_fields_def text_ok_def)
  have all_fs: "\<forall>f \<in> set (record_fields r). fieldSep \<notin> set f" using fs(1) by blast
  show "recordSep \<notin> set (record_text r)" using fs(2) p seps(1) by (auto simp: record_text_def)
  obtain c s where sha: "lr_sha r = c # s" "\<not> is_space c" using p by (cases "lr_sha r") (auto simp: word_ok_def)
  have start: "\<exists>t. record_text r = c # t" using sha by (simp add: record_text_def record_fields_def)
  then have trim: "trim_left (\<lambda>c. c = nl) (record_text r) = record_text r" using sha(2) seps(6) by (intro trim_left_id) auto
  have blank: "trim_space (record_text r) \<noteq> []"
  proof
    assume e: "trim_space (record_text r) = []"
    from start obtain t where t: "record_text r = c # t" ..
    have "rev (dropWhile is_space (rev (c # t))) \<noteq> []" using sha(2) by (simp add: dropWhile_eq_Nil_conv)
    then show False using e sha(2) by (simp add: t trim_space_def trim_left_def trim_right_def)
  qed
  have "split_n 7 fieldSep (record_text r) = record_fields r @ [lr_body r]"
    using all_fs by (simp add: record_text_def record_fields_def split_n_step numeral_eq_Suc del: split_n.simps(3))
  then show one: "parse_record (record_text r) = Some (log_commit r)"
    using trim blank p by (simp add: parse_record_def record_fields_def log_commit_def Let_def word_trim go_fields_words)
  have "trim_left (\<lambda>c. c = nl) (nl # record_text r) = record_text r" using trim by (simp add: trim_left_def)
  then show "parse_record (nl # record_text r) = Some (log_commit r)" using one trim by (simp add: parse_record_def)
qed

lemma parseLog_step: "recordSep \<notin> set x \<Longrightarrow> parse_record x = Some c \<Longrightarrow> parseLog (x @ recordSep # s) = c # parseLog s"
  by (simp add: parseLog_def split_on_append split_on_single map_filter_simps)

lemma parseLog_Nil: "parseLog [] = []"
  by (simp add: parseLog_def map_filter_simps parse_record_def trim_left_def trim_space_def trim_right_def)

lemma parseLog_printed:
  assumes "list_all printable rs"
  shows "parseLog (git_log rs) = map log_commit rs \<and> (rs \<noteq> [] \<longrightarrow> parseLog (nl # git_log rs) = map log_commit rs)"
  using assms
proof (induction rs)
  case (Cons r rs)
  then have p: "printable r" by simp
  note pr = parse_printed [OF p]
  have tail: "git_log (r # rs) = record_text r @ recordSep # (if rs = [] then [] else nl # git_log rs)"
    by (cases rs) (simp_all add: git_log_def)
  have rest: "parseLog (if rs = [] then [] else nl # git_log rs) = map log_commit rs"
    using Cons by (auto simp: parseLog_Nil)
  have "recordSep \<notin> set (nl # record_text r)" using pr(3) seps(4) by auto
  then show ?case using parseLog_step [OF pr(3,1)] parseLog_step [of "nl # record_text r"] pr(2) rest
    by (simp add: tail)
qed (simp add: git_log_def parseLog_Nil)

definition example_log :: log_record where
  "example_log = \<lparr> lr_sha = ''c0ffee01'', lr_short = ''c0ffee0'', lr_name = ''Ann B'', lr_email = ''ann@example.org'',
     lr_date = ''2024-01-01T00:00:00Z'', lr_parents = [''aa'', ''bb''], lr_body = ''Fix'' @ [nl, nl] @ ''Kotoji-Via: mcp'' @ [nl] \<rparr>"

lemma example_log_printable: "printable example_log"
  by code_simp

section \<open>The theorems\<close>

text \<open>
  C31: Reading a log gives back what was committed: for any list of commits whose hashes, dates
  and parents are words, whose author fields have neither separator and whose messages have no
  record separator (they may have line breaks and field separators), \<open>parseLog\<close> of git's output
  is that list, in order, with every field, the message without its trailing line breaks.
\<close>

theorem log_roundtrip:
  assumes "list_all printable rs"
  shows "parseLog (git_log rs) = map log_commit rs"
  using parseLog_printed [OF assms] by blast

theorem log_roundtrip_witness:
  "map ci_Via (parseLog (git_log [example_log, example_log])) = [''mcp'', ''mcp''] \<and>
   map ci_Parents (parseLog (git_log [example_log, example_log])) = [[''aa'', ''bb''], [''aa'', ''bb'']]"
proof -
  have "list_all printable [example_log, example_log]" using example_log_printable by simp
  from log_roundtrip [OF this] have eq: "parseLog (git_log [example_log, example_log]) = [log_commit example_log, log_commit example_log]"
    by simp
  have "ci_Via (log_commit example_log) = ''mcp''" "ci_Parents (log_commit example_log) = [''aa'', ''bb'']" by code_simp+
  then show ?thesis by (simp add: eq)
qed

text \<open>
  A message is not checked for the record separator, and with it one commit is read as two:
  for every commit and every forged record (with any hash, author and date) there is a message of
  the first such that its log is read as the commit followed by the forged one.
\<close>

theorem log_record_forged:
  assumes "printable r" and "printable forged"
  shows "parseLog (git_log [r\<lparr> lr_body := lr_body r @ [recordSep] @ record_text forged \<rparr>]) = [log_commit r, log_commit forged]"
proof -
  have "git_log [r\<lparr> lr_body := lr_body r @ [recordSep] @ record_text forged \<rparr>] =
      record_text r @ recordSep # record_text forged @ recordSep # []"
    by (simp add: git_log_def record_text_def record_fields_def)
  then show ?thesis
    using parseLog_step [OF parse_printed(3,1) [OF assms(1)]] parseLog_step [OF parse_printed(3,1) [OF assms(2)], of "[]"]
    by (simp add: parseLog_Nil)
qed

theorem log_record_forged_witness:
  "length (parseLog (git_log [example_log\<lparr> lr_body := ''Fix'' @ [recordSep] @ record_text example_log \<rparr>])) = 2"
proof -
  have "printable (example_log\<lparr> lr_body := ''Fix'' \<rparr>)" by code_simp
  from log_record_forged [OF this example_log_printable] show ?thesis by simp
qed

end
