(* ===== verification/Go_Hex.thy ===== *)
theory Go_Hex
  imports Go_Url
begin

text \<open>The hexadecimal codec of the standard library (\<open>encoding/hex\<close>), with its round trip.\<close>

text \<open>\<open>hex.DecodeString\<close> and \<open>hex.EncodeToString\<close>.\<close>

fun hex_DecodeString :: "string \<Rightarrow> string option" where
  "hex_DecodeString [] = Some []"
| "hex_DecodeString [c] = None"
| "hex_DecodeString (a # b # s) =
     (case (unhex a, unhex b) of
        (Some x, Some y) \<Rightarrow> map_option (\<lambda>t. char_of (16 * x + y) # t) (hex_DecodeString s)
      | _ \<Rightarrow> None)"

definition hex_digit :: "nat \<Rightarrow> char" where
  "hex_digit n = (if n < 10 then char_of (48 + n) else char_of (87 + n))"

definition hex_EncodeToString :: "string \<Rightarrow> string" where
  "hex_EncodeToString s = concat (map (\<lambda>c. let n = (of_char c :: nat) in [hex_digit (n div 16), hex_digit (n mod 16)]) s)"

lemma unhex_digit: "n < 16 \<Longrightarrow> unhex (hex_digit n) = Some n"
proof -
  assume n: "n < 16"
  have "(of_char (char_of (48 + n) :: char) :: nat) = 48 + n" "(of_char (char_of (87 + n) :: char) :: nat) = 87 + n"
    using n by (simp_all add: take_bit_nat_eq_self)
  then show ?thesis using n by (simp add: unhex_def hex_digit_def Let_def)
qed

lemma hex_roundtrip: "hex_DecodeString (hex_EncodeToString s) = Some s"
proof (induction s)
  case (Cons c s)
  have "(of_char c :: nat) < 256" by simp
  then have "(of_char c :: nat) div 16 < 16" "(of_char c :: nat) mod 16 < 16" by (simp_all add: less_mult_imp_div_less)
  then have "hex_DecodeString (hex_EncodeToString (c # s)) =
      map_option (\<lambda>t. char_of (16 * (of_char c div 16) + of_char c mod 16 :: nat) # t) (hex_DecodeString (hex_EncodeToString s))"
    by (simp add: hex_EncodeToString_def Let_def unhex_digit)
  then show ?case using Cons by simp
qed (simp add: hex_EncodeToString_def)

end
