(* ===== verification/Webhook.thy ===== *)
theory Webhook
  imports Interaction Go_Http Go_Hex Site_Types
begin

text \<open>
  The receiver of GitHub push notifications (\<open>backend/internal/webhook/github.go\<close>). HMAC-SHA256
  and the decoding of the JSON payload are parameters; the store and the site service are what
  the handler sends requests to.
\<close>

section \<open>The handler\<close>

definition signatureHeader :: string where "signatureHeader = ''X-Hub-Signature-256''"

text \<open>The headers of a request are stored under their canonical names.\<close>

definition eventHeader :: string where "eventHeader = ''X-Github-Event''"
definition sigPrefix :: string where "sigPrefix = ''sha256=''"
definition maxBodyBytes :: nat where "maxBodyBytes = 5 * 2 ^ 20"
definition refPrefix :: string where "refPrefix = ''refs/heads/''"

text \<open>What the handler asks the store and the service, and their answers.\<close>

datatype hook_req =
    GetSiteByGitHubRepo string
  | HookFetchAndUpdate uuid branch_name
  | InsertAudit (aud_site: uuid) (aud_repo: string) (aud_branch: string) (aud_sha: "string option") (aud_kind: string)

datatype lookup_error = NoSuchRow | StoreFailure string

datatype hook_ans =
    SiteAnswer "lookup_error + uuid"
  | UpdateAnswer "site_error + CommitInfo"
  | AuditAnswer "string option"

type_synonym 'a hook = "(hook_req, hook_ans, 'a) proc"

record hook_deps =
  hook_Secret :: string
  hook_hmac :: "string \<Rightarrow> string \<Rightarrow> string"
  hook_unmarshal :: "string \<Rightarrow> (string \<times> string) option"

text \<open>\<open>hook_unmarshal\<close>: the \<open>ref\<close> and \<open>repository.full_name\<close> of a push event.\<close>

definition http_Error :: "string \<Rightarrow> nat \<Rightarrow> http_response" where
  "http_Error msg code =
     \<lparr> resp_status = code,
       resp_header = [''Content-Type'' \<mapsto> ''text/plain; charset=utf-8'', ''X-Content-Type-Options'' \<mapsto> ''nosniff''],
       resp_body = msg @ [CHR 0x0A] \<rparr>"

definition writeOK :: "string \<Rightarrow> http_response" where
  "writeOK msg =
     \<lparr> resp_status = 200, resp_header = [''Content-Type'' \<mapsto> ''text/plain; charset=utf-8''], resp_body = msg \<rparr>"

definition verifySignature :: "hook_deps \<Rightarrow> string \<Rightarrow> string \<Rightarrow> bool" where
  "verifySignature d header body =
     (if \<not> has_prefix header sigPrefix then False
      else
        (case hex_DecodeString (drop (length sigPrefix) header) of
           None \<Rightarrow> False
         | Some got \<Rightarrow> got = hook_hmac d (hook_Secret d) body))"

definition trackedBranch :: branch_name where
  "trackedBranch = BranchPublished"

text \<open>\<open>audit\<close>: best effort; a failure is logged only.\<close>

definition hook_audit :: "uuid \<Rightarrow> string \<Rightarrow> string \<Rightarrow> string \<Rightarrow> string \<Rightarrow> unit hook" where
  "hook_audit i repo branch commitSHA kind =
     Do (InsertAudit i repo branch (if commitSHA \<noteq> [] then Some commitSHA else None) kind) (\<lambda>_. Ret ())"

definition hook_lookup :: "string \<Rightarrow> (lookup_error + uuid) hook" where
  "hook_lookup repo =
     Do (GetSiteByGitHubRepo repo) (\<lambda>a. Ret (case a of SiteAnswer r \<Rightarrow> r | _ \<Rightarrow> Inl (StoreFailure [])))"

definition hook_update :: "uuid \<Rightarrow> branch_name \<Rightarrow> (site_error + CommitInfo) hook" where
  "hook_update i b =
     Do (HookFetchAndUpdate i b) (\<lambda>a. Ret (case a of UpdateAnswer r \<Rightarrow> r | _ \<Rightarrow> Inl (ForeignError [])))"

text \<open>The last two steps of \<open>ServeHTTP\<close>: fast-forward and audit.\<close>

definition apply_push :: "uuid \<Rightarrow> string \<Rightarrow> string \<Rightarrow> http_response hook" where
  "apply_push i repo branch =
     bind (hook_update i trackedBranch) (\<lambda>r. case r of
       Inl e \<Rightarrow>
         if err_is e ErrPublishConflict then
           bind (hook_audit i repo branch [] ''non_fast_forward'') (\<lambda>_.
             Ret (writeOK ''ignored: non-fast-forward (manual sync required)''))
         else Ret (http_Error ''update failed'' 500)
     | Inr ci \<Rightarrow> bind (hook_audit i repo branch (ci_SHA ci) ''fast_forward'') (\<lambda>_. Ret (writeOK ''updated'')))"

text \<open>Steps 3 to 6 of \<open>ServeHTTP\<close>: from the name of the repository and the branch on.\<close>

definition handle_push :: "string \<Rightarrow> string \<Rightarrow> http_response hook" where
  "handle_push repo branch =
     bind (hook_lookup repo) (\<lambda>l. case l of
       Inl NoSuchRow \<Rightarrow> Ret (writeOK ''ignored: unknown repo'')
     | Inl (StoreFailure m) \<Rightarrow> Ret (http_Error ''internal error'' 500)
     | Inr i \<Rightarrow>
         if branch \<noteq> trackedBranch then Ret (writeOK ''ignored: branch not tracked'')
         else apply_push i repo branch)"

text \<open>\<open>body\<close> is what reading the request's body gives; \<open>None\<close> is an error of the connection.\<close>

definition webhook_ServeHTTP :: "hook_deps \<Rightarrow> http_request \<Rightarrow> string option \<Rightarrow> http_response hook" where
  "webhook_ServeHTTP d r body0 =
     (if req_method r \<noteq> ''POST'' then
        Ret (let e = http_Error ''method not allowed'' 405 in e\<lparr> resp_header := (resp_header e)(''Allow'' \<mapsto> ''POST'') \<rparr>)
      else if hook_Secret d = [] then Ret (http_Error ''webhook not configured'' 503)
      else
        (case body0 of
           None \<Rightarrow> Ret (http_Error ''request too large'' 413)
         | Some body \<Rightarrow>
             if maxBodyBytes < length body then Ret (http_Error ''request too large'' 413)
             else if \<not> verifySignature d (header_get r signatureHeader) body then Ret (http_Error ''invalid signature'' 401)
             else if go_lower (header_get r eventHeader) \<noteq> ''push'' then Ret (writeOK ''ignored: not a push event'')
             else
               (case hook_unmarshal d body of
                  None \<Rightarrow> Ret (http_Error ''malformed push payload'' 400)
                | Some (ref, fullName) \<Rightarrow>
                    let repo = trim_space fullName; branch = trim_prefix ref refPrefix in
                    if repo = [] \<or> branch = ref \<or> branch = [] then Ret (writeOK ''ignored: no trackable branch ref'')
                    else handle_push repo branch)))"

section \<open>What a delivery can do\<close>

text \<open>A delivery that is authentic and about a branch of a repository.\<close>

definition authentic_push :: "hook_deps \<Rightarrow> http_request \<Rightarrow> string option \<Rightarrow> string \<Rightarrow> string \<Rightarrow> bool" where
  "authentic_push d r body0 repo branch \<longleftrightarrow>
     (\<exists>body digest fullName. req_method r = ''POST'' \<and> hook_Secret d \<noteq> [] \<and> body0 = Some body \<and> length body \<le> maxBodyBytes \<and>
        header_get r signatureHeader = ''sha256='' @ digest \<and>
        hex_DecodeString digest = Some (hook_hmac d (hook_Secret d) body) \<and>
        go_lower (header_get r eventHeader) = ''push'' \<and>
        hook_unmarshal d body = Some (''refs/heads/'' @ branch, fullName) \<and> branch \<noteq> [] \<and>
        repo = trim_space fullName \<and> repo \<noteq> [])"

text \<open>The monitor: nothing asked yet; the site of the repository; the outcome of the update; audited.\<close>

datatype hook_state = Asked "(lookup_error + uuid) option" | Updated uuid "site_error + CommitInfo" | Audited uuid "site_error + CommitInfo"

fun hook_step :: "hook_state \<Rightarrow> hook_req \<Rightarrow> hook_ans \<Rightarrow> hook_state" where
  "hook_step (Asked x) (GetSiteByGitHubRepo repo) a = Asked (Some (case a of SiteAnswer l \<Rightarrow> l | _ \<Rightarrow> Inl (StoreFailure [])))"
| "hook_step s (HookFetchAndUpdate i b) a = Updated i (case a of UpdateAnswer u \<Rightarrow> u | _ \<Rightarrow> Inl (ForeignError []))"
| "hook_step (Updated i u) (InsertAudit j repo b sha k) a = Audited i u"
| "hook_step s r a = s"

fun hook_ok :: "hook_deps \<Rightarrow> http_request \<Rightarrow> string option \<Rightarrow> hook_state \<Rightarrow> hook_req \<Rightarrow> bool" where
  "hook_ok d r body0 s (GetSiteByGitHubRepo repo) \<longleftrightarrow> s = Asked None \<and> (\<exists>branch. authentic_push d r body0 repo branch)"
| "hook_ok d r body0 s (HookFetchAndUpdate i b) \<longleftrightarrow>
     s = Asked (Some (Inr i)) \<and> b = BranchPublished \<and> (\<exists>repo. authentic_push d r body0 repo BranchPublished)"
| "hook_ok d r body0 s (InsertAudit i repo b sha k) \<longleftrightarrow>
     b = BranchPublished \<and> authentic_push d r body0 repo b \<and>
     ((\<exists>ci. s = Updated i (Inr ci) \<and> k = ''fast_forward'' \<and> sha = (if ci_SHA ci = [] then None else Some (ci_SHA ci))) \<or>
      (\<exists>e. s = Updated i (Inl e) \<and> err_is e ErrPublishConflict \<and> k = ''non_fast_forward'' \<and> sha = None))"

definition hook_post :: "hook_state \<Rightarrow> http_response \<Rightarrow> bool" where
  "hook_post s resp \<longleftrightarrow>
     (resp_body resp = ''updated'' \<longrightarrow> resp_status resp = 200) \<and>
     (resp_body resp = ''updated'' \<longleftrightarrow> (\<exists>i ci. s = Audited i (Inr ci))) \<and>
     (case s of
        Asked (Some (Inl (StoreFailure m))) \<Rightarrow> resp_status resp = 500
      | Updated i (Inl e) \<Rightarrow> resp_status resp = 500
      | Audited i u \<Rightarrow> resp_status resp = 200
      | _ \<Rightarrow> resp_status resp \<in> {200, 400, 401, 405, 413, 503})"

lemma verifySignature_iff:
  "verifySignature d header body \<longleftrightarrow>
     (\<exists>digest. header = ''sha256='' @ digest \<and> hex_DecodeString digest = Some (hook_hmac d (hook_Secret d) body))"
proof -
  have "has_prefix header sigPrefix \<longleftrightarrow> (\<exists>digest. header = ''sha256='' @ digest)"
    unfolding sigPrefix_def by (rule has_prefix_iff)
  then show ?thesis by (auto simp: verifySignature_def sigPrefix_def split: option.splits)
qed

lemma trim_ref: "trim_prefix ref refPrefix \<noteq> ref \<Longrightarrow> ref = ''refs/heads/'' @ trim_prefix ref refPrefix"
proof -
  assume ne: "trim_prefix ref refPrefix \<noteq> ref"
  then have "has_prefix ref refPrefix" by (auto simp: trim_prefix_def split: if_splits)
  then obtain s where "ref = refPrefix @ s" unfolding has_prefix_iff by blast
  then have "trim_prefix ref refPrefix = s" by (simp only: trim_prefix_append)
  then show ?thesis using \<open>ref = refPrefix @ s\<close> by (simp only: refPrefix_def)
qed

lemma apply_push_ok:
  assumes "authentic_push d r body0 repo branch" and "branch = BranchPublished"
  shows "wp (hook_ok d r body0) hook_step (\<lambda>_ _. True) hook_post (Asked (Some (Inr i))) (apply_push i repo branch)"
  using assms unfolding apply_push_def hook_update_def hook_audit_def
  by (auto simp: trackedBranch_def hook_post_def writeOK_def http_Error_def split: hook_ans.splits sum.splits)

lemma handle_push_ok:
  assumes "authentic_push d r body0 repo branch"
  shows "wp (hook_ok d r body0) hook_step (\<lambda>_ _. True) hook_post (Asked None) (handle_push repo branch)"
  using assms apply_push_ok [OF assms] unfolding handle_push_def hook_lookup_def
  by (auto simp: hook_post_def writeOK_def http_Error_def trackedBranch_def split: hook_ans.splits sum.splits lookup_error.splits)

text \<open>A delivery is answered at once, or it is an authentic push.\<close>

lemma webhook_cases:
  "(\<exists>resp. webhook_ServeHTTP d r body0 = Ret resp \<and> hook_post (Asked None) resp) \<or>
   (\<exists>repo branch. authentic_push d r body0 repo branch \<and> webhook_ServeHTTP d r body0 = handle_push repo branch)"
proof (cases "\<exists>body ref fullName. req_method r = ''POST'' \<and> hook_Secret d \<noteq> [] \<and> body0 = Some body \<and> length body \<le> maxBodyBytes \<and>
    verifySignature d (header_get r signatureHeader) body \<and> go_lower (header_get r eventHeader) = ''push'' \<and>
    hook_unmarshal d body = Some (ref, fullName) \<and> trim_space fullName \<noteq> [] \<and> trim_prefix ref refPrefix \<noteq> ref \<and> trim_prefix ref refPrefix \<noteq> []")
  case True
  then obtain body ref fullName where b: "req_method r = ''POST''" "hook_Secret d \<noteq> []" "body0 = Some body" "length body \<le> maxBodyBytes"
    "verifySignature d (header_get r signatureHeader) body" "go_lower (header_get r eventHeader) = ''push''"
    "hook_unmarshal d body = Some (ref, fullName)" "trim_space fullName \<noteq> []" "trim_prefix ref refPrefix \<noteq> ref" "trim_prefix ref refPrefix \<noteq> []"
    by blast
  then have "authentic_push d r body0 (trim_space fullName) (trim_prefix ref refPrefix)"
    using trim_ref [OF b(9)] unfolding authentic_push_def verifySignature_iff by metis
  moreover have "webhook_ServeHTTP d r body0 = handle_push (trim_space fullName) (trim_prefix ref refPrefix)"
    using b by (simp add: webhook_ServeHTTP_def Let_def)
  ultimately show ?thesis by blast
next
  case False
  then have "\<exists>resp. webhook_ServeHTTP d r body0 = Ret resp \<and> hook_post (Asked None) resp"
    by (auto simp: webhook_ServeHTTP_def hook_post_def writeOK_def http_Error_def Let_def split: option.splits)
  then show ?thesis by blast
qed

section \<open>The theorems\<close>

definition example_hook :: hook_deps where
  "example_hook = \<lparr> hook_Secret = ''k'', hook_hmac = (\<lambda>k m. k @ m), hook_unmarshal = (\<lambda>b. Some (''refs/heads/published'', ''acme/site'')) \<rparr>"

definition example_delivery :: http_request where
  "example_delivery = (get_request ''kotoji.example'' ''/webhooks/github'')\<lparr> req_method := ''POST'',
     req_header := (\<lambda>n. if n = signatureHeader then [''sha256=6b7b7d''] else if n = eventHeader then [''push''] else []) \<rparr>"

fun example_hook_env :: "hook_req \<Rightarrow> hook_ans" where
  "example_hook_env (GetSiteByGitHubRepo repo) = SiteAnswer (Inr ''u1'')"
| "example_hook_env (HookFetchAndUpdate i b) =
     UpdateAnswer (Inr \<lparr> ci_SHA = ''c0ffee'', ci_ShortSHA = [], ci_Message = [], ci_AuthorName = [], ci_AuthorEmail = [], ci_Committed = 0, ci_Parents = [], ci_Via = [] \<rparr>)"
| "example_hook_env (InsertAudit i repo b sha k) = AuditAnswer None"


text \<open>
  An authentic push is applied: when the body is signed with the configured secret and names
  the published branch of a repository which the store knows, then the site of that repository is
  fast-forwarded, the update is recorded with its commit, and the answer is \<open>updated\<close>.
\<close>

theorem webhook_push_applied:
  assumes "req_method r = ''POST''" and "hook_Secret d \<noteq> []" and "length body \<le> maxBodyBytes"
    and "header_get r signatureHeader = ''sha256='' @ hex_EncodeToString (hook_hmac d (hook_Secret d) body)"
    and "go_lower (header_get r eventHeader) = ''push''"
    and "hook_unmarshal d body = Some (''refs/heads/'' @ BranchPublished, repo)" and "trim_space repo = repo" and "repo \<noteq> []"
    and "env (GetSiteByGitHubRepo repo) = SiteAnswer (Inr i)"
    and "env (HookFetchAndUpdate i BranchPublished) = UpdateAnswer (Inr ci)" and "ci_SHA ci \<noteq> []"
  shows "map fst (trace (\<lambda>w q. (w, env q)) () (webhook_ServeHTTP d r (Some body))) =
      [GetSiteByGitHubRepo repo, HookFetchAndUpdate i BranchPublished,
       InsertAudit i repo BranchPublished (Some (ci_SHA ci)) ''fast_forward''] \<and>
    snd (exec (\<lambda>w q. (w, env q)) () (webhook_ServeHTTP d r (Some body))) = writeOK ''updated''"
proof -
  have sig: "verifySignature d (header_get r signatureHeader) body"
    unfolding verifySignature_iff using assms(4) hex_roundtrip by blast
  have ref: "trim_prefix (''refs/heads/'' @ BranchPublished) refPrefix = BranchPublished"
    unfolding refPrefix_def by (rule trim_prefix_append)
  have "webhook_ServeHTTP d r (Some body) = handle_push repo BranchPublished"
    unfolding webhook_ServeHTTP_def using assms(1-3,5-8) sig ref
    by (simp add: Let_def) (simp add: BranchPublished_def)
  then show ?thesis using assms(9-11)
    by (simp add: handle_push_def hook_lookup_def apply_push_def hook_update_def hook_audit_def trackedBranch_def)
qed

theorem webhook_push_applied_witness:
  "snd (exec (\<lambda>w q. (w, example_hook_env q)) () (webhook_ServeHTTP example_hook example_delivery (Some ''{}''))) = writeOK ''updated''"
proof -
  have h: "header_get example_delivery signatureHeader = ''sha256='' @ hex_EncodeToString (hook_hmac example_hook (hook_Secret example_hook) ''{}'')"
    "header_get example_delivery eventHeader = ''push''" "go_lower ''push'' = ''push''" "trim_space ''acme/site'' = ''acme/site''" by code_simp+
  have u: "hook_unmarshal example_hook ''{}'' = Some (''refs/heads/'' @ BranchPublished, ''acme/site'')"
    by (simp add: example_hook_def BranchPublished_def)
  have p: "req_method example_delivery = ''POST''" "hook_Secret example_hook \<noteq> []" "length ''{}'' \<le> maxBodyBytes"
    by (simp_all add: example_delivery_def example_hook_def maxBodyBytes_def)
  show ?thesis
    using webhook_push_applied [OF p h(1) _ u h(4) _ example_hook_env.simps(1) example_hook_env.simps(2)] h(2,3) by simp
qed

end
