(* ===== verification/Tls_Decision.thy ===== *)
theory Tls_Decision
  imports Resolver
begin

text \<open>
  The gate of on-demand certificates (\<open>backend/internal/tlsedge/decision.go\<close>): may this instance
  obtain a certificate for a host? The gate asks the resolver of the data plane and, through a
  cache, whether the site exists. The control host, the state of the handshake's context and the
  site lookup are arguments of each call: the values that the injected functions have then.
\<close>

section \<open>Definitions\<close>

definition existsCacheTTL :: int where "existsCacheTTL = 30 * 1000000000"
definition existsNegCacheTTL :: int where "existsNegCacheTTL = 10 * 1000000000"

record existsCacheEntry =
  ce_exists :: bool
  ce_expires :: int

record Decider =
  de_resolver :: resolver
  de_cache :: "(string, existsCacheEntry) gomap"

definition NewDecider :: "resolver \<Rightarrow> Decider" where
  "NewDecider r = \<lparr> de_resolver = r, de_cache = [] \<rparr>"

definition normalizeHost :: "string \<Rightarrow> string" where
  "normalizeHost h0 =
     (let h = go_lower (trim_space h0) in
      if h = [] then []
      else if has_prefix h ''['' then
        (case index_byte h CHR '']'' of Some e \<Rightarrow> take (e + 1) h | None \<Rightarrow> h)
      else
        (case last_index_byte h CHR '':'' of
           Some i \<Rightarrow> if CHR '':'' \<notin> set (take i h) then take i h else h
         | None \<Rightarrow> h))"

definition syntheticRequest :: "string \<Rightarrow> http_request" where
  "syntheticRequest host =
     \<lparr> req_method = ''GET'', req_host = host, url_host = host, url_path = ''/'', raw_query = [],
       remote_addr = [], req_header = (\<lambda>_. []), req_cookies = [] \<rparr>"

text \<open>The state of the world at one call.\<close>

record handshake =
  hs_now :: int
  hs_ctxErr :: "string option"
  hs_controlHost :: string
  hs_siteExists :: "string \<Rightarrow> string + bool"

definition existsCached :: "Decider \<Rightarrow> handshake \<Rightarrow> string \<Rightarrow> Decider \<times> (string + bool)" where
  "existsCached d hs h =
     (let now = hs_now hs;
          miss =
            (case hs_ctxErr hs of
               Some e \<Rightarrow> (d, Inl e)
             | None \<Rightarrow>
                 (case hs_siteExists hs h of
                    Inl e \<Rightarrow> (d, Inl e)
                  | Inr ex \<Rightarrow>
                      let ttl = (if \<not> ex then existsNegCacheTTL else existsCacheTTL)
                      in (d\<lparr> de_cache := gm_put h \<lparr> ce_exists = ex, ce_expires = now + ttl \<rparr> (de_cache d) \<rparr>, Inr ex)))
      in (case gm_get (de_cache d) h of
            Some e \<Rightarrow> if now < ce_expires e then (d, Inr (ce_exists e)) else miss
          | None \<Rightarrow> miss))"

datatype refusal = EmptyHost | Unresolved resolve_error | NotProject | LookupFailed string | NoSite

text \<open>\<open>Allow\<close>: \<open>None\<close> lets the certificate be obtained.\<close>

definition tls_Allow :: "Decider \<Rightarrow> handshake \<Rightarrow> string \<Rightarrow> Decider \<times> refusal option" where
  "tls_Allow d hs name =
     (let host = normalizeHost name in
      if host = [] then (d, Some EmptyHost)
      else
        let ch = normalizeHost (hs_controlHost hs) in
        if ch \<noteq> [] \<and> host = ch then (d, None)
        else
          (case Resolve (de_resolver d) (syntheticRequest host) of
             Inl e \<Rightarrow> (d, Some (Unresolved e))
           | Inr t \<Rightarrow>
               if IsControl t then (d, None)
               else if target.Handle t = [] then (d, Some NotProject)
               else
                 (case existsCached d hs (target.Handle t) of
                    (d', Inl e) \<Rightarrow> (d', Some (LookupFailed e))
                  | (d', Inr ex) \<Rightarrow> if \<not> ex then (d', Some NoSite) else (d', None))))"

section \<open>Histories\<close>

text \<open>The handle that a call asks the cache for.\<close>

definition asks_for :: "Decider \<Rightarrow> handshake \<Rightarrow> string \<Rightarrow> string option" where
  "asks_for d hs name =
     (let host = normalizeHost name; ch = normalizeHost (hs_controlHost hs) in
      if host = [] \<or> (ch \<noteq> [] \<and> host = ch) then None
      else
        (case Resolve (de_resolver d) (syntheticRequest host) of
           Inl e \<Rightarrow> None
         | Inr t \<Rightarrow> if IsControl t \<or> target.Handle t = [] then None else Some (target.Handle t)))"

text \<open>A lookup with a definite answer: when, for which handle, and whether the site was there.\<close>

type_synonym lookup = "int \<times> string \<times> bool"

definition fresh_entry :: "Decider \<Rightarrow> int \<Rightarrow> string \<Rightarrow> bool" where
  "fresh_entry d now h = (case gm_get (de_cache d) h of Some e \<Rightarrow> now < ce_expires e | None \<Rightarrow> False)"

definition new_lookups :: "Decider \<Rightarrow> handshake \<Rightarrow> string \<Rightarrow> lookup list" where
  "new_lookups d hs name =
     (case asks_for d hs name of
        None \<Rightarrow> []
      | Some h \<Rightarrow>
          if fresh_entry d (hs_now hs) h \<or> hs_ctxErr hs \<noteq> None then []
          else (case hs_siteExists hs h of Inl e \<Rightarrow> [] | Inr b \<Rightarrow> [(hs_now hs, h, b)]))"

text \<open>The states of the gate and the lookups so far, the last one first.\<close>

inductive gate :: "resolver \<Rightarrow> lookup list \<Rightarrow> Decider \<Rightarrow> bool" for r where
  start: "gate r [] (NewDecider r)"
| handshake: "gate r log d \<Longrightarrow> gate r (new_lookups d hs name @ log) (fst (tls_Allow d hs name))"

definition last_lookup :: "lookup list \<Rightarrow> string \<Rightarrow> (int \<times> bool) option" where
  "last_lookup log h = map_option (\<lambda>(t, h', b). (t, b)) (find (\<lambda>(t, h', b). h' = h) log)"

definition ttl_of :: "bool \<Rightarrow> int" where
  "ttl_of b = (if b then existsCacheTTL else existsNegCacheTTL)"

text \<open>The cache holds the last lookup of each handle.\<close>

definition cache_agrees :: "lookup list \<Rightarrow> Decider \<Rightarrow> bool" where
  "cache_agrees log d \<longleftrightarrow>
     (\<forall>h. gm_get (de_cache d) h = map_option (\<lambda>(t, b). \<lparr> ce_exists = b, ce_expires = t + ttl_of b \<rparr>) (last_lookup log h))"

lemma existsCached_cases:
  "existsCached d hs h =
     (if fresh_entry d (hs_now hs) h then (d, Inr (ce_exists (the (gm_get (de_cache d) h))))
      else case hs_ctxErr hs of
        Some e \<Rightarrow> (d, Inl e)
      | None \<Rightarrow> (case hs_siteExists hs h of
          Inl e \<Rightarrow> (d, Inl e)
        | Inr b \<Rightarrow> (d\<lparr> de_cache := gm_put h \<lparr> ce_exists = b, ce_expires = hs_now hs + ttl_of b \<rparr> (de_cache d) \<rparr>, Inr b)))"
  by (auto simp: existsCached_def fresh_entry_def ttl_of_def Let_def split: option.splits sum.splits)

lemma Allow_asks:
  "asks_for d hs name = Some h \<Longrightarrow> tls_Allow d hs name =
     (case existsCached d hs h of (d', Inl e) \<Rightarrow> (d', Some (LookupFailed e)) | (d', Inr b) \<Rightarrow> if \<not> b then (d', Some NoSite) else (d', None))"
  "asks_for d hs name = None \<Longrightarrow> fst (tls_Allow d hs name) = d"
  by (auto simp: asks_for_def tls_Allow_def Let_def split: if_splits sum.splits)

lemma last_lookup_Cons: "last_lookup ((t, h', b) # log) h = (if h' = h then Some (t, b) else last_lookup log h)"
  by (simp add: last_lookup_def)

lemma Allow_state:
  "fst (tls_Allow d hs name) =
     (case new_lookups d hs name of
        (t, h, b) # _ \<Rightarrow> d\<lparr> de_cache := gm_put h \<lparr> ce_exists = b, ce_expires = t + ttl_of b \<rparr> (de_cache d) \<rparr>
      | [] \<Rightarrow> d)"
proof (cases "asks_for d hs name")
  case None
  then show ?thesis by (simp add: Allow_asks(2) new_lookups_def)
next
  case (Some h)
  then show ?thesis
    by (auto simp: Allow_asks(1) [OF Some] existsCached_cases new_lookups_def split: option.splits sum.splits)
qed

lemma gate_cache: "gate r log d \<Longrightarrow> cache_agrees log d \<and> de_resolver d = r"
proof (induction rule: gate.induct)
  case start
  then show ?case by (simp add: cache_agrees_def NewDecider_def last_lookup_def)
next
  case (handshake log d hs name)
  have single: "new_lookups d hs name = [] \<or> (\<exists>t h b. new_lookups d hs name = [(t, h, b)])"
    by (auto simp: new_lookups_def split: option.splits sum.splits)
  then show ?case using handshake
    by (auto simp: Allow_state cache_agrees_def last_lookup_Cons gm_get_put)
qed

lemma fresh_lookup:
  assumes "gate r log d" and "fresh_entry d now h"
  shows "\<exists>t. (t, h, ce_exists (the (gm_get (de_cache d) h))) \<in> set log \<and> now < t + ttl_of (ce_exists (the (gm_get (de_cache d) h)))"
proof -
  have c: "gm_get (de_cache d) h = map_option (\<lambda>(t, b). \<lparr> ce_exists = b, ce_expires = t + ttl_of b \<rparr>) (last_lookup log h)"
    using gate_cache [OF assms(1)] by (simp add: cache_agrees_def)
  with assms(2) obtain t b where l: "last_lookup log h = Some (t, b)" "now < t + ttl_of b"
    by (cases "last_lookup log h") (auto simp: fresh_entry_def)
  have "(t, h, b) \<in> set log" using l(1) by (auto simp: last_lookup_def dest!: find_SomeD)
  then show ?thesis using l c by auto
qed

lemma Allow_answer:
  assumes "gate r log d" and "asks_for d hs name = Some h" and "existsCached d hs h = (d', Inr b)"
  shows "\<exists>t. (t, h, b) \<in> set (new_lookups d hs name @ log) \<and> hs_now hs < t + ttl_of b"
proof (cases "fresh_entry d (hs_now hs) h")
  case True
  then show ?thesis using fresh_lookup [OF assms(1) True] assms(3) by (auto simp: existsCached_cases)
next
  case False
  then have "new_lookups d hs name = [(hs_now hs, h, b)]"
    using assms(2,3) by (auto simp: existsCached_cases new_lookups_def split: option.splits sum.splits)
  then show ?thesis by (auto simp: ttl_of_def existsCacheTTL_def existsNegCacheTTL_def)
qed

section \<open>The theorems\<close>

definition example_resolver :: resolver where
  "example_resolver = NewResolver example_config"

definition example_handshake :: handshake where
  "example_handshake = \<lparr> hs_now = 0, hs_ctxErr = None, hs_controlHost = ''hosting.example.com'', hs_siteExists = (\<lambda>h. Inr (h = ''calc'')) \<rparr>"

text \<open>
  C25: A certificate is obtained only for a host this instance answers for: after any history of
  handshakes, a host that is let through is the control host, or the resolver of the data plane
  resolves it to the control plane, or it resolves it to a handle for which the store said, less
  than 30 seconds before, that the site exists. So no certificate is asked for a site that has
  been gone for 30 seconds, nor for one that never was.
\<close>

theorem tls_issue_sound:
  assumes "gate r log d" and "tls_Allow d hs name = (d', None)"
  shows "normalizeHost name \<noteq> [] \<and>
    (normalizeHost name = normalizeHost (hs_controlHost hs) \<or>
     (\<exists>t. Resolve r (syntheticRequest (normalizeHost name)) = Inr t \<and>
        (IsControl t \<or>
         (\<exists>when. (when, target.Handle t, True) \<in> set (new_lookups d hs name @ log) \<and> hs_now hs < when + existsCacheTTL))))"
proof (cases "asks_for d hs name")
  case None
  then show ?thesis using assms gate_cache [OF assms(1)]
    by (auto simp: asks_for_def tls_Allow_def Let_def split: if_splits sum.splits prod.splits)
next
  case (Some h)
  have r: "de_resolver d = r" using gate_cache [OF assms(1)] by simp
  obtain t where t: "Resolve r (syntheticRequest (normalizeHost name)) = Inr t" "target.Handle t = h" "normalizeHost name \<noteq> []"
    using Some by (auto simp: asks_for_def Let_def r split: if_splits sum.splits)
  obtain d'' where "existsCached d hs h = (d'', Inr True)"
    using assms(2) by (auto simp: Allow_asks(1) [OF Some] split: prod.splits sum.splits if_splits)
  from Allow_answer [OF assms(1) Some this] show ?thesis using t by (auto simp: ttl_of_def)
qed

theorem tls_issue_sound_witness:
  "\<exists>when. (when, ''calc'', True) \<in> set (new_lookups (NewDecider example_resolver) example_handshake ''calc.hosting.example.com'') \<and>
     0 < when + existsCacheTTL"
proof -
  have "gate example_resolver [] (NewDecider example_resolver)" by (rule gate.start)
  moreover have "snd (tls_Allow (NewDecider example_resolver) example_handshake ''calc.hosting.example.com'') = None"
    "normalizeHost ''calc.hosting.example.com'' \<noteq> normalizeHost (hs_controlHost example_handshake)"
    "(case Resolve example_resolver (syntheticRequest (normalizeHost ''calc.hosting.example.com'')) of
        Inl e \<Rightarrow> False | Inr t \<Rightarrow> \<not> IsControl t \<and> target.Handle t = ''calc'')" by code_simp+
  ultimately show ?thesis
    using tls_issue_sound [of example_resolver "[]" "NewDecider example_resolver" example_handshake "''calc.hosting.example.com''"]
    by (cases "tls_Allow (NewDecider example_resolver) example_handshake ''calc.hosting.example.com''")
      (auto simp: example_handshake_def split: sum.splits)
qed



end
