(* ===== verification/Ops_Jobs.thy ===== *)
theory Ops_Jobs
  imports Git_Files
begin

text \<open>
  The background jobs (\<open>backend/internal/ops/ops.go\<close>, \<open>scheduler.go\<close>): the reaper of soft-deleted
  sites, the garbage collection and the start-up check, as programs of requests to the store, to
  git, to the file system, to the clock and to the context. After them, a world with a table of
  sites, repositories and backups in which any request may fail, with or without its effect, and
  what a pass of the reaper leaves in it. Logging is left out.
\<close>

section \<open>Requests and configuration\<close>

record SoftDeletedSite =
  sd_ID :: uuid
  sd_Handle :: string
  sd_DeletedAt :: int

datatype ops_req =
    OListSitesPastGrace int
  | OHardDeleteSite uuid
  | OListLiveSiteIDs
  | OInsertSystemAudit uuid string string int
  | OGitRun string "string list"
  | OExists string
  | OListDir string
  | OMkdirAll string
  | ORemoveAll string
  | ORemove string
  | ONow
  | OCtxErr

datatype ops_ans =
    OSites "string + SoftDeletedSite list"
  | OIDs "string + uuid list"
  | ONames "string + string list"
  | OFlag bool "string option"
  | ODone "string option"
  | OTime int

type_synonym 'a ops = "(ops_req, ops_ans, 'a) proc"

definition ops_done :: "ops_req \<Rightarrow> string option ops" where
  "ops_done r = Do r (\<lambda>a. Ret (case a of ODone e \<Rightarrow> e | _ \<Rightarrow> Some []))"

definition ops_exists :: "string \<Rightarrow> (bool \<times> string option) ops" where
  "ops_exists p = Do (OExists p) (\<lambda>a. Ret (case a of OFlag b e \<Rightarrow> (b, e) | _ \<Rightarrow> (False, Some [])))"

definition ops_now :: "int ops" where
  "ops_now = Do ONow (\<lambda>a. Ret (case a of OTime t \<Rightarrow> t | _ \<Rightarrow> 0))"

definition ops_past_grace :: "int \<Rightarrow> (string + SoftDeletedSite list) ops" where
  "ops_past_grace t = Do (OListSitesPastGrace t) (\<lambda>a. Ret (case a of OSites r \<Rightarrow> r | _ \<Rightarrow> Inl []))"

definition ops_live_ids :: "(string + uuid list) ops" where
  "ops_live_ids = Do OListLiveSiteIDs (\<lambda>a. Ret (case a of OIDs r \<Rightarrow> r | _ \<Rightarrow> Inl []))"

definition ops_list_dir :: "string \<Rightarrow> (string + string list) ops" where
  "ops_list_dir d = Do (OListDir d) (\<lambda>a. Ret (case a of ONames r \<Rightarrow> r | _ \<Rightarrow> Inl []))"

definition DefaultSoftDeleteGrace :: int where "DefaultSoftDeleteGrace = 720 * 3600 * 1000000000"
definition DefaultInterval :: int where "DefaultInterval = 3600 * 1000000000"
definition lockFileName :: string where "lockFileName = ''kotoji.lock''"
definition gitDirName :: string where "gitDirName = ''.git''"

record ops_config =
  oc_SitesDir :: string
  oc_BackupDir :: string
  oc_Grace :: int
  oc_Interval :: int
  oc_EnableReaper :: bool
  oc_EnableGC :: bool

definition ops_New :: "ops_config \<Rightarrow> ops_config" where
  "ops_New c =
     (let c1 = (if oc_Grace c \<le> 0 then c\<lparr> oc_Grace := DefaultSoftDeleteGrace \<rparr> else c)
      in if oc_Interval c1 \<le> 0 then c1\<lparr> oc_Interval := DefaultInterval \<rparr> else c1)"

definition ops_repoDir :: "ops_config \<Rightarrow> uuid \<Rightarrow> string" where
  "ops_repoDir c i = path_join (oc_SitesDir c) i"

text \<open>\<open>UTC().Format("20060102T150405Z")\<close>.\<close>

definition format_stamp :: "int \<Rightarrow> string" where
  "format_stamp t =
     (let s = seconds_of t; sod = s mod 86400 in
      case civil_date (s div 86400) of
        (y, m, d) \<Rightarrow>
          pad_int 4 y @ pad_int 2 m @ pad_int 2 d @ ''T'' @
          pad_int 2 (sod div 3600) @ pad_int 2 (sod mod 3600 div 60) @ pad_int 2 (sod mod 60) @ ''Z'')"

section \<open>The reaper\<close>

record ReapResult =
  rr_Reaped :: nat
  rr_Skipped :: nat
  rr_Errors :: "string list"

definition ops_bundle :: "ops_config \<Rightarrow> uuid \<Rightarrow> string \<Rightarrow> string option ops" where
  "ops_bundle c i repo =
     (if oc_BackupDir c = [] then Ret (Some ''backup dir not configured'')
      else
        let dst = path_join (oc_BackupDir c) i in
        bind (ops_done (OMkdirAll dst)) (\<lambda>e. case e of
          Some m \<Rightarrow> Ret (Some (''mkdir backup: '' @ m))
        | None \<Rightarrow>
            bind ops_now (\<lambda>t.
            bind (ops_done (OGitRun repo [''bundle'', ''create'', path_join dst (format_stamp t @ ''.bundle''), ''--all''])) (\<lambda>_.
              Ret None))))"

definition reapOne :: "ops_config \<Rightarrow> SoftDeletedSite \<Rightarrow> ReapResult \<Rightarrow> (ReapResult \<times> string option) ops" where
  "reapOne c s res =
     (let repo = ops_repoDir c (sd_ID s) in
      bind (ops_exists (path_join repo gitDirName)) (\<lambda>(ex, e). case e of
        Some m \<Rightarrow> Ret (res, Some (''stat repo: '' @ m))
      | None \<Rightarrow>
          if \<not> ex then
            bind (ops_done (OHardDeleteSite (sd_ID s))) (\<lambda>e. case e of
              Some m \<Rightarrow> Ret (res, Some (''hard-delete (no repo): '' @ m))
            | None \<Rightarrow> Ret (res\<lparr> rr_Skipped := rr_Skipped res + 1 \<rparr>, None))
          else
            bind (ops_bundle c (sd_ID s) repo) (\<lambda>e. case e of
              Some m \<Rightarrow> Ret (res, Some (''bundle: '' @ m))
            | None \<Rightarrow>
                bind (ops_done (ORemoveAll repo)) (\<lambda>e. case e of
                  Some m \<Rightarrow> Ret (res, Some (''remove repo: '' @ m))
                | None \<Rightarrow>
                    bind (ops_done (OHardDeleteSite (sd_ID s))) (\<lambda>e. case e of
                      Some m \<Rightarrow> Ret (res, Some (''hard-delete: '' @ m))
                    | None \<Rightarrow>
                        bind (ops_done (OInsertSystemAudit (sd_ID s) ''site.reap'' (sd_Handle s) (sd_DeletedAt s))) (\<lambda>_.
                          Ret (res\<lparr> rr_Reaped := rr_Reaped res + 1 \<rparr>, None)))))))"

definition reap_note :: "SoftDeletedSite \<Rightarrow> string option \<Rightarrow> ReapResult \<Rightarrow> ReapResult" where
  "reap_note s err res =
     (case err of
        None \<Rightarrow> res
      | Some m \<Rightarrow> res\<lparr> rr_Errors := rr_Errors res @ [sd_Handle s @ '' ('' @ sd_ID s @ ''): '' @ m] \<rparr>)"

primrec reap_sites :: "ops_config \<Rightarrow> SoftDeletedSite list \<Rightarrow> ReapResult \<Rightarrow> (ReapResult \<times> string option) ops" where
  "reap_sites c [] res = Ret (res, None)"
| "reap_sites c (s # ss) res =
     bind (ops_done OCtxErr) (\<lambda>d. case d of
       Some m \<Rightarrow> Ret (res, Some m)
     | None \<Rightarrow> bind (reapOne c s res) (\<lambda>(res', err). reap_sites c ss (reap_note s err res')))"

definition Reap :: "ops_config \<Rightarrow> (ReapResult \<times> string option) ops" where
  "Reap c =
     (let res = \<lparr> rr_Reaped = 0, rr_Skipped = 0, rr_Errors = [] \<rparr> in
      bind ops_now (\<lambda>t.
      bind (ops_past_grace (t - oc_Grace c)) (\<lambda>r. case r of
        Inl m \<Rightarrow> Ret (res, Some (''ops: list past-grace: '' @ m))
      | Inr past \<Rightarrow> reap_sites c past res)))"

section \<open>Garbage collection and start-up check\<close>

primrec gc_sites :: "ops_config \<Rightarrow> uuid list \<Rightarrow> string option ops" where
  "gc_sites c [] = Ret None"
| "gc_sites c (i # is) =
     bind (ops_done OCtxErr) (\<lambda>d. case d of
       Some m \<Rightarrow> Ret (Some m)
     | None \<Rightarrow>
         bind (ops_exists (path_join (ops_repoDir c i) gitDirName)) (\<lambda>(ex, _).
           if \<not> ex then gc_sites c is
           else bind (ops_done (OGitRun (ops_repoDir c i) [''gc'', ''--auto''])) (\<lambda>_. gc_sites c is)))"

definition GC :: "ops_config \<Rightarrow> string option ops" where
  "GC c =
     (if \<not> oc_EnableGC c then Ret None
      else
        bind ops_live_ids (\<lambda>r. case r of
          Inl m \<Rightarrow> Ret (Some (''ops: list live sites: '' @ m))
        | Inr ids \<Rightarrow> gc_sites c ids))"

record ConsistencyResult =
  cr_ClearedLocks :: "string list"
  cr_OrphanRepos :: "string list"
  cr_DanglingRows :: "string list"

text \<open>\<open>parses\<close> tells whether \<open>uuid.Parse\<close> accepts a name; the map \<open>onDisk\<close> is the list of its keys.\<close>

definition scan_lock :: "string \<Rightarrow> ConsistencyResult \<Rightarrow> ConsistencyResult ops" where
  "scan_lock repo res =
     (let lockPath = path_join (path_join repo gitDirName) lockFileName in
      bind (ops_exists lockPath) (\<lambda>(ok, _).
        if ok then
          bind (ops_done (ORemove lockPath)) (\<lambda>e.
            Ret (if e = None then res\<lparr> cr_ClearedLocks := cr_ClearedLocks res @ [repo] \<rparr> else res))
        else Ret res))"

primrec scan_repos ::
  "ops_config \<Rightarrow> (string \<Rightarrow> bool) \<Rightarrow> uuid list \<Rightarrow> string list \<Rightarrow> string list \<times> ConsistencyResult \<Rightarrow>
    (string list \<times> ConsistencyResult) ops" where
  "scan_repos c parses live [] acc = Ret acc"
| "scan_repos c parses live (name # names) acc =
     (let repo = path_join (oc_SitesDir c) name in
      bind (ops_exists (path_join repo gitDirName)) (\<lambda>(hasGit, _).
        if \<not> hasGit then scan_repos c parses live names acc
        else
          bind (scan_lock repo (snd acc)) (\<lambda>res.
            scan_repos c parses live names
              (fst acc @ [name],
               if parses name \<and> name \<notin> set live then res\<lparr> cr_OrphanRepos := cr_OrphanRepos res @ [repo] \<rparr> else res))))"

definition Consistency :: "ops_config \<Rightarrow> (string \<Rightarrow> bool) \<Rightarrow> (ConsistencyResult \<times> string option) ops" where
  "Consistency c parses =
     (let res = \<lparr> cr_ClearedLocks = [], cr_OrphanRepos = [], cr_DanglingRows = [] \<rparr> in
      bind ops_live_ids (\<lambda>r. case r of
        Inl m \<Rightarrow> Ret (res, Some (''ops: list live sites: '' @ m))
      | Inr live \<Rightarrow>
          bind (ops_list_dir (oc_SitesDir c)) (\<lambda>r. case r of
            Inl m \<Rightarrow> Ret (res, Some (''ops: list sites dir: '' @ m))
          | Inr names \<Rightarrow>
              bind (scan_repos c parses live names ([], res)) (\<lambda>(onDisk, res').
                Ret (res'\<lparr> cr_DanglingRows := filter (\<lambda>i. i \<notin> set onDisk) live \<rparr>, None)))))"

section \<open>The scheduler\<close>

definition runOnce :: "ops_config \<Rightarrow> unit ops" where
  "runOnce c =
     bind (if oc_EnableReaper c then bind (Reap c) (\<lambda>_. Ret ()) else Ret ()) (\<lambda>_.
     if oc_EnableGC c then bind (GC c) (\<lambda>_. Ret ()) else Ret ())"

primrec ticks :: "ops_config \<Rightarrow> nat \<Rightarrow> unit ops" where
  "ticks c 0 = Ret ()"
| "ticks c (Suc n) = bind (runOnce c) (\<lambda>_. ticks c n)"

text \<open>\<open>loop\<close>, when the ticker fires \<open>n\<close> times before the context is done.\<close>

definition scheduler_loop :: "ops_config \<Rightarrow> (string \<Rightarrow> bool) \<Rightarrow> nat \<Rightarrow> unit ops" where
  "scheduler_loop c parses n =
     bind (Consistency c parses) (\<lambda>_. bind (runOnce c) (\<lambda>_. ticks c n))"

end
