(* ===== verification/Fault_World.thy ===== *)
theory Fault_World
  imports Interaction
begin

text \<open>
  Runs in which requests fail. A world is a function \<open>h\<close> that carries out a request; a fault makes a
  request fail without effect, or lets it take effect and reports a failure. A run that is cut
  off is one in which every request fails from some point on.
\<close>

datatype fault = Works | Fails | FailsLate

text \<open>The world with a list of faults to come; after the list nothing fails. \<open>bad\<close> turns an answer into a failure.\<close>

definition faulty :: "('w \<Rightarrow> 'r \<Rightarrow> 'w \<times> 'n) \<Rightarrow> ('n \<Rightarrow> 'n) \<Rightarrow> 'w \<times> fault list \<Rightarrow> 'r \<Rightarrow> ('w \<times> fault list) \<times> 'n" where
  "faulty h bad s r =
     (case h (fst s) r of (w', a) \<Rightarrow>
       (case snd s of
          [] \<Rightarrow> ((w', []), a)
        | f # fs \<Rightarrow>
            (case f of
               Works \<Rightarrow> ((w', fs), a)
             | Fails \<Rightarrow> ((fst s, fs), bad a)
             | FailsLate \<Rightarrow> ((w', fs), bad a))))"

text \<open>\<open>survives h bad Q w p\<close>: whatever fails, the run of \<open>p\<close> from \<open>w\<close> ends in a world and with a result that satisfy \<open>Q\<close>.\<close>

primrec survives :: "('w \<Rightarrow> 'r \<Rightarrow> 'w \<times> 'n) \<Rightarrow> ('n \<Rightarrow> 'n) \<Rightarrow> ('w \<Rightarrow> 'a \<Rightarrow> bool) \<Rightarrow> 'w \<Rightarrow> ('r, 'n, 'a) proc \<Rightarrow> bool" where
  "survives h bad Q w (Ret x) = Q w x"
| "survives h bad Q w (Do r k) =
     (case h w r of (w', a) \<Rightarrow>
        survives h bad Q w' (k a) \<and> survives h bad Q w (k (bad a)) \<and> survives h bad Q w' (k (bad a)))"

lemma survives_bind: "survives h bad Q w (bind p f) = survives h bad (\<lambda>w' x. survives h bad Q w' (f x)) w p"
  by (induction p arbitrary: w) (auto split: prod.splits)

lemma survives_mono: "survives h bad Q w p \<Longrightarrow> (\<And>w' x. Q w' x \<Longrightarrow> Q' w' x) \<Longrightarrow> survives h bad Q' w p"
  by (induction p arbitrary: w) (auto split: prod.splits)

lemma survives_bindI:
  assumes "survives h bad R w p" and "\<And>w' x. R w' x \<Longrightarrow> survives h bad Q w' (f x)"
  shows "survives h bad Q w (bind p f)"
  unfolding survives_bind using assms by (rule survives_mono)

text \<open>That is what the lists of faults give.\<close>

lemma survives_iff: "survives h bad Q w p \<longleftrightarrow> (\<forall>fs. ends (faulty h bad) (\<lambda>s x. Q (fst s) x) (w, fs) p)"
proof (induction p arbitrary: w)
  case (Ret x)
  then show ?case by simp
next
  case (Do r k)
  obtain w' a where h: "h w r = (w', a)" by (cases "h w r")
  let ?E = "\<lambda>w p. \<forall>fs. ends (faulty h bad) (\<lambda>s x. Q (fst s) x) (w, fs) p"
  have "?E w (Do r k) \<longleftrightarrow> ?E w' (k a) \<and> ?E w (k (bad a)) \<and> ?E w' (k (bad a))"
  proof (intro iffI conjI allI)
    fix fs assume E: "?E w (Do r k)"
    show "ends (faulty h bad) (\<lambda>s x. Q (fst s) x) (w', fs) (k a)"
      using E [rule_format, of "Works # fs"] by (simp add: faulty_def h)
    show "ends (faulty h bad) (\<lambda>s x. Q (fst s) x) (w, fs) (k (bad a))"
      using E [rule_format, of "Fails # fs"] by (simp add: faulty_def h)
    show "ends (faulty h bad) (\<lambda>s x. Q (fst s) x) (w', fs) (k (bad a))"
      using E [rule_format, of "FailsLate # fs"] by (simp add: faulty_def h)
  next
    fix fs assume "?E w' (k a) \<and> ?E w (k (bad a)) \<and> ?E w' (k (bad a))"
    then show "ends (faulty h bad) (\<lambda>s x. Q (fst s) x) (w, fs) (Do r k)"
      by (simp add: faulty_def h split: list.split fault.split)
  qed
  then show ?case by (simp add: h Do.IH)
qed

text \<open>Where nothing fails the run is one of these.\<close>

lemma survives_ends: "survives h bad Q w p \<Longrightarrow> ends h Q w p"
  by (induction p arbitrary: w) (auto split: prod.splits)

end
