(* ===== verification/Ops_World.thy ===== *)
theory Ops_World
  imports Ops_Jobs Fault_World
begin

text \<open>
  What a pass of the reaper leaves behind. The world has the table of sites, the repositories
  under the sites directory with their histories, and the backups; any request may fail.
\<close>

section \<open>The world\<close>

text \<open>A row of the table of sites: identifier, handle and, where the site is soft-deleted, when.\<close>

type_synonym site_row = "uuid \<times> string \<times> int option"

record ops_world =
  ow_rows :: "site_row list"
  ow_repos :: "(string, string) gomap"
  ow_backups :: "(string, string) gomap"
  ow_now :: int

definition past :: "int \<Rightarrow> site_row \<Rightarrow> bool" where
  "past t r = (case snd (snd r) of None \<Rightarrow> False | Some d \<Rightarrow> d < t)"

definition deleted_at :: "site_row \<Rightarrow> int" where
  "deleted_at r = (case snd (snd r) of None \<Rightarrow> zero_time | Some d \<Rightarrow> d)"

definition past_sites :: "int \<Rightarrow> site_row list \<Rightarrow> SoftDeletedSite list" where
  "past_sites t rows =
     map (\<lambda>r. \<lparr> sd_ID = fst r, sd_Handle = fst (snd r), sd_DeletedAt = deleted_at r \<rparr>)
       (sort_key deleted_at (filter (past t) rows))"

definition repo_exists :: "ops_world \<Rightarrow> string \<Rightarrow> bool" where
  "repo_exists w p = (\<exists>k \<in> set (gm_keys (ow_repos w)). path_join k gitDirName = p)"

text \<open>\<open>git bundle create\<close> writes the history of the repository it runs in.\<close>

definition git_effect :: "ops_world \<Rightarrow> string \<Rightarrow> string list \<Rightarrow> ops_world \<times> ops_ans" where
  "git_effect w repo args =
     (case gm_get (ow_repos w) repo of
        None \<Rightarrow> (w, ODone (Some ''not a git repository''))
      | Some history \<Rightarrow>
          (case args of
             [a, b, out, d] \<Rightarrow>
               if a = ''bundle'' \<and> b = ''create'' then (w\<lparr> ow_backups := gm_put out history (ow_backups w) \<rparr>, ODone None)
               else (w, ODone None)
           | _ \<Rightarrow> (w, ODone None)))"

definition ops_effect :: "ops_world \<Rightarrow> ops_req \<Rightarrow> ops_world \<times> ops_ans" where
  "ops_effect w r =
     (case r of
        OListSitesPastGrace t \<Rightarrow> (w, OSites (Inr (past_sites t (ow_rows w))))
      | OHardDeleteSite i \<Rightarrow> (w\<lparr> ow_rows := filter (\<lambda>r. fst r \<noteq> i) (ow_rows w) \<rparr>, ODone None)
      | OListLiveSiteIDs \<Rightarrow> (w, OIDs (Inr (map fst (filter (\<lambda>r. snd (snd r) = None) (ow_rows w)))))
      | OInsertSystemAudit i action handle t \<Rightarrow> (w, ODone None)
      | OGitRun repo args \<Rightarrow> git_effect w repo args
      | OExists p \<Rightarrow> (w, OFlag (repo_exists w p) None)
      | OListDir d \<Rightarrow> (w, ONames (Inr (map (\<lambda>k. last (path_elems k)) (gm_keys (ow_repos w)))))
      | OMkdirAll d \<Rightarrow> (w, ODone None)
      | ORemoveAll p \<Rightarrow> (w\<lparr> ow_repos := gm_del p (ow_repos w) \<rparr>, ODone None)
      | ORemove p \<Rightarrow> (w, ODone None)
      | ONow \<Rightarrow> (w, OTime (ow_now w))
      | OCtxErr \<Rightarrow> (w, ODone None))"

lemma ops_effect_simps [simp]:
  "ops_effect w (OListSitesPastGrace t) = (w, OSites (Inr (past_sites t (ow_rows w))))"
  "ops_effect w (OHardDeleteSite i) = (w\<lparr> ow_rows := filter (\<lambda>r. fst r \<noteq> i) (ow_rows w) \<rparr>, ODone None)"
  "ops_effect w (OInsertSystemAudit i action handle t) = (w, ODone None)"
  "ops_effect w (OGitRun repo args) = git_effect w repo args"
  "ops_effect w (OExists p) = (w, OFlag (repo_exists w p) None)"
  "ops_effect w (OMkdirAll d) = (w, ODone None)"
  "ops_effect w (ORemoveAll p) = (w\<lparr> ow_repos := gm_del p (ow_repos w) \<rparr>, ODone None)"
  "ops_effect w ONow = (w, OTime (ow_now w))"
  "ops_effect w OCtxErr = (w, ODone None)"
  by (simp_all add: ops_effect_def)

definition failed :: "ops_ans \<Rightarrow> ops_ans" where
  "failed a =
     (case a of
        OSites _ \<Rightarrow> OSites (Inl ''fault'')
      | OIDs _ \<Rightarrow> OIDs (Inl ''fault'')
      | ONames _ \<Rightarrow> ONames (Inl ''fault'')
      | OFlag _ _ \<Rightarrow> OFlag False (Some ''fault'')
      | ODone _ \<Rightarrow> ODone (Some ''fault'')
      | OTime t \<Rightarrow> OTime t)"

definition ops_wf :: "ops_config \<Rightarrow> ops_world \<Rightarrow> bool" where
  "ops_wf c w \<longleftrightarrow>
     has_prefix (oc_SitesDir c) [slash] \<and> list_all (\<lambda>r. plain_seg (fst r)) (ow_rows w) \<and>
     distinct (map fst (ow_rows w)) \<and>
     list_all (\<lambda>k. \<exists>i. plain_seg i \<and> k = ops_repoDir c i) (gm_keys (ow_repos w))"

section \<open>Single requests\<close>

definition same_view :: "ops_world \<Rightarrow> ops_world \<Rightarrow> bool" where
  "same_view w w' \<longleftrightarrow> ow_rows w' = ow_rows w \<and> ow_repos w' = ow_repos w \<and> ow_now w' = ow_now w"

lemma git_effect_view: "same_view w (fst (git_effect w repo args))" and
  git_effect_done: "\<exists>e. snd (git_effect w repo args) = ODone e"
  by (auto simp: git_effect_def same_view_def split: option.splits list.splits)

lemma same_view_trans [trans]: "same_view a b \<Longrightarrow> same_view b d \<Longrightarrow> same_view a d"
  by (simp add: same_view_def)

lemma same_view_refl [simp]: "same_view w w"
  by (simp add: same_view_def)

definition quiet :: "ops_req \<Rightarrow> bool" where
  "quiet r = (case r of OHardDeleteSite i \<Rightarrow> False | ORemoveAll p \<Rightarrow> False | _ \<Rightarrow> True)"

lemma quiet_effect: "quiet r \<Longrightarrow> same_view w (fst (ops_effect w r))"
  by (cases r) (simp_all add: quiet_def ops_effect_def git_effect_view)

text \<open>\<open>endures Q w p\<close>: whatever fails, \<open>p\<close> ends in \<open>Q\<close>.\<close>

abbreviation endures :: "(ops_world \<Rightarrow> 'a \<Rightarrow> bool) \<Rightarrow> ops_world \<Rightarrow> 'a ops \<Rightarrow> bool" where
  "endures \<equiv> survives ops_effect failed"

lemma ends_quiet_done: "quiet r \<Longrightarrow> endures (\<lambda>w' e. same_view w w') w (ops_done r)"
  using quiet_effect [of r w] by (auto simp: ops_done_def split: prod.split)

lemma ends_now: "endures (\<lambda>w' t. same_view w w' \<and> t = ow_now w) w ops_now"
  by (simp add: ops_now_def failed_def)

lemma ends_exists: "endures (\<lambda>w' (b, e). same_view w w' \<and> (e = None \<longrightarrow> b = repo_exists w p)) w (ops_exists p)"
  by (simp add: ops_exists_def failed_def)

lemma ends_past_grace:
  "endures (\<lambda>w' r. same_view w w' \<and> (\<forall>ss. r = Inr ss \<longrightarrow> ss = past_sites t (ow_rows w))) w (ops_past_grace t)"
  by (simp add: ops_past_grace_def failed_def)

lemma ends_remove:
  "endures (\<lambda>w' e. ow_rows w' = ow_rows w \<and> ow_now w' = ow_now w \<and>
     (ow_repos w' = gm_del p (ow_repos w) \<or> e \<noteq> None \<and> ow_repos w' = ow_repos w)) w (ops_done (ORemoveAll p))"
  by (simp add: ops_done_def failed_def)

lemma ends_hard_delete:
  "endures (\<lambda>w' e. ow_repos w' = ow_repos w \<and> ow_now w' = ow_now w \<and>
     (ow_rows w' = filter (\<lambda>r. fst r \<noteq> i) (ow_rows w) \<or> e \<noteq> None \<and> ow_rows w' = ow_rows w)) w (ops_done (OHardDeleteSite i))"
  by (simp add: ops_done_def failed_def)

section \<open>A pass with faults\<close>

text \<open>
  \<open>reaped c I w w'\<close>: of the sites \<open>I\<close> some repositories are gone, some rows are gone, no row of
  a repository that is still there, and nothing else has changed.
\<close>

definition reaped :: "ops_config \<Rightarrow> uuid set \<Rightarrow> ops_world \<Rightarrow> ops_world \<Rightarrow> bool" where
  "reaped c I w w' \<longleftrightarrow>
     ow_now w' = ow_now w \<and>
     (\<exists>D E. D \<subseteq> I \<and> E \<subseteq> I \<and>
        ow_rows w' = filter (\<lambda>r. fst r \<notin> D) (ow_rows w) \<and>
        (\<forall>p. gm_get (ow_repos w') p = (if p \<in> ops_repoDir c ` E then None else gm_get (ow_repos w) p)) \<and>
        (\<forall>i \<in> D. gm_get (ow_repos w') (ops_repoDir c i) = None))"

lemma reapedI:
  assumes "ow_now w' = ow_now w" and "D \<subseteq> I" and "E \<subseteq> I" and "ow_rows w' = filter (\<lambda>r. fst r \<notin> D) (ow_rows w)"
    and "\<And>p. gm_get (ow_repos w') p = (if p \<in> ops_repoDir c ` E then None else gm_get (ow_repos w) p)"
    and "\<And>i. i \<in> D \<Longrightarrow> gm_get (ow_repos w') (ops_repoDir c i) = None"
  shows "reaped c I w w'"
  unfolding reaped_def using assms by blast

lemma reaped_same: "same_view w w' \<Longrightarrow> reaped c I w w'"
  by (rule reapedI [of _ _ "{}" _ "{}"]) (auto simp: same_view_def)

lemma reaped_mono: "reaped c I w w' \<Longrightarrow> I \<subseteq> J \<Longrightarrow> reaped c J w w'"
  unfolding reaped_def by (meson subset_trans)

lemma reaped_trans: "reaped c I w w1 \<Longrightarrow> reaped c I w1 w2 \<Longrightarrow> reaped c I w w2"
proof -
  assume a: "reaped c I w w1" and b: "reaped c I w1 w2"
  from a obtain D E where 1: "ow_now w1 = ow_now w" "D \<subseteq> I" "E \<subseteq> I" "ow_rows w1 = filter (\<lambda>r. fst r \<notin> D) (ow_rows w)"
    "\<And>p. gm_get (ow_repos w1) p = (if p \<in> ops_repoDir c ` E then None else gm_get (ow_repos w) p)"
    "\<And>i. i \<in> D \<Longrightarrow> gm_get (ow_repos w1) (ops_repoDir c i) = None"
    unfolding reaped_def by blast
  from b obtain D' E' where 2: "ow_now w2 = ow_now w1" "D' \<subseteq> I" "E' \<subseteq> I" "ow_rows w2 = filter (\<lambda>r. fst r \<notin> D') (ow_rows w1)"
    "\<And>p. gm_get (ow_repos w2) p = (if p \<in> ops_repoDir c ` E' then None else gm_get (ow_repos w1) p)"
    "\<And>i. i \<in> D' \<Longrightarrow> gm_get (ow_repos w2) (ops_repoDir c i) = None"
    unfolding reaped_def by blast
  show ?thesis
  proof (rule reapedI [of _ _ "D \<union> D'" _ "E \<union> E'"])
    show "ow_now w2 = ow_now w" using 1(1) 2(1) by simp
    show "ow_rows w2 = filter (\<lambda>r. fst r \<notin> D \<union> D') (ow_rows w)"
      unfolding 1(4) 2(4) filter_filter by (rule filter_cong) auto
    show "D \<union> D' \<subseteq> I" "E \<union> E' \<subseteq> I" using 1(2,3) 2(2,3) by auto
    show "gm_get (ow_repos w2) p = (if p \<in> ops_repoDir c ` (E \<union> E') then None else gm_get (ow_repos w) p)" for p
      unfolding 2(5) 1(5) by auto
    show "gm_get (ow_repos w2) (ops_repoDir c i) = None" if "i \<in> D \<union> D'" for i
    proof (cases "i \<in> D'")
      case True
      then show ?thesis by (rule 2(6))
    next
      case False
      then have "i \<in> D" using that by simp
      then show ?thesis unfolding 2(5) using 1(6) by simp
    qed
  qed
qed

lemma reaped_remove:
  "ow_rows w' = ow_rows w \<Longrightarrow> ow_now w' = ow_now w \<Longrightarrow> ow_repos w' = gm_del (ops_repoDir c i) (ow_repos w) \<Longrightarrow>
   reaped c {i} w w'"
  by (rule reapedI [of _ _ "{}" _ "{i}"]) auto

lemma reaped_delete:
  "ow_rows w' = filter (\<lambda>r. fst r \<noteq> i) (ow_rows w) \<Longrightarrow> ow_now w' = ow_now w \<Longrightarrow> ow_repos w' = ow_repos w \<Longrightarrow>
   gm_get (ow_repos w) (ops_repoDir c i) = None \<Longrightarrow> reaped c {i} w w'"
  by (rule reapedI [of _ _ "{i}" _ "{}"]) auto

lemma ends_delete_reaped:
  assumes "gm_get (ow_repos w) (ops_repoDir c i) = None"
  shows "endures (\<lambda>w' e. reaped c {i} w w') w (ops_done (OHardDeleteSite i))"
  using ends_hard_delete [of w i]
  by (rule survives_mono) (use assms in \<open>auto intro: reaped_delete reaped_same simp: same_view_def\<close>)

lemma ends_bundle: "endures (\<lambda>w' e. same_view w w') w (ops_bundle c i repo)"
proof (cases "oc_BackupDir c = []")
  case False
  have "endures (\<lambda>w' e. same_view w w') w'
      (bind ops_now (\<lambda>t. bind (ops_done (OGitRun repo [''bundle'', ''create'', path_join d (format_stamp t @ ''.bundle''), ''--all''])) (\<lambda>_. Ret None)))"
    if "same_view w w'" for w' d
    by (rule survives_bindI [OF ends_now], rule survives_bindI [OF ends_quiet_done])
       (use that in \<open>auto simp: quiet_def intro: same_view_trans\<close>)
  then show ?thesis
    unfolding ops_bundle_def Let_def using False
    by (auto intro!: survives_bindI [OF ends_quiet_done] simp: quiet_def split: option.split)
qed (simp add: ops_bundle_def)

lemma join_plain_elems:
  "has_prefix root [slash] \<Longrightarrow> plain_seg i \<Longrightarrow> path_elems (path_join root i) = path_elems root @ [i]"
  using join_elems(1) [of root i] local_plain [of i] by simp

lemma git_dir_inj:
  assumes "has_prefix root [slash]" and "plain_seg i" and "plain_seg j"
    and "path_join (path_join root i) gitDirName = path_join (path_join root j) gitDirName"
  shows "i = j"
proof -
  have r: "has_prefix (path_join root k) [slash]" if "plain_seg k" for k
    using that by (intro path_join_is_rooted assms(1)) auto
  have "plain_seg gitDirName" by (simp add: gitDirName_def plain_seg_def)
  then have e: "path_elems (path_join (path_join root k) gitDirName) = path_elems root @ [k, gitDirName]" if "plain_seg k" for k
    using join_plain_elems [OF r [OF that]] join_plain_elems [OF assms(1) that] by simp
  have "path_elems root @ [i, gitDirName] = path_elems (path_join (path_join root i) gitDirName)"
    by (rule e [OF assms(2), symmetric])
  also have "\<dots> = path_elems root @ [j, gitDirName]"
    unfolding assms(4) by (rule e [OF assms(3)])
  finally show ?thesis by simp
qed

lemma repo_exists_iff:
  assumes "ops_wf c w" and "plain_seg i"
  shows "repo_exists w (path_join (ops_repoDir c i) gitDirName) \<longleftrightarrow> gm_get (ow_repos w) (ops_repoDir c i) \<noteq> None"
proof
  assume "repo_exists w (path_join (ops_repoDir c i) gitDirName)"
  then obtain k where k: "k \<in> set (gm_keys (ow_repos w))" "path_join k gitDirName = path_join (ops_repoDir c i) gitDirName"
    by (auto simp: repo_exists_def)
  moreover obtain j where "plain_seg j" "k = ops_repoDir c j"
    using k(1) assms(1) by (auto simp: ops_wf_def list_all_iff)
  ultimately have "k = ops_repoDir c i"
    using git_dir_inj [of "oc_SitesDir c" j i] assms by (simp add: ops_wf_def ops_repoDir_def)
  then show "gm_get (ow_repos w) (ops_repoDir c i) \<noteq> None" using k(1) by (simp add: gm_keys_get)
next
  assume "gm_get (ow_repos w) (ops_repoDir c i) \<noteq> None"
  then show "repo_exists w (path_join (ops_repoDir c i) gitDirName)"
    unfolding gm_keys_get [symmetric] repo_exists_def by blast
qed

lemma reaped_wf: "reaped c I w w' \<Longrightarrow> ops_wf c w \<Longrightarrow> ops_wf c w'"
proof -
  assume r: "reaped c I w w'" and wf: "ops_wf c w"
  have "set (gm_keys (ow_repos w')) \<subseteq> set (gm_keys (ow_repos w))"
    using r unfolding reaped_def subset_iff gm_keys_get by metis
  moreover have "set (ow_rows w') \<subseteq> set (ow_rows w)" using r unfolding reaped_def by auto
  moreover have "distinct (map fst (ow_rows w'))"
    using r wf unfolding reaped_def ops_wf_def by (auto intro: distinct_map_filter)
  ultimately show ?thesis using wf unfolding ops_wf_def list_all_iff by blast
qed

lemma ends_reapOne:
  assumes wf: "ops_wf c w" and i: "plain_seg (sd_ID s)"
  shows "endures (\<lambda>w' x. reaped c {sd_ID s} w w') w (reapOne c s res)"
proof -
  let ?i = "sd_ID s" and ?repo = "ops_repoDir c (sd_ID s)" and ?R = "\<lambda>w' x. reaped c {sd_ID s} w w'"
  have finish: "endures ?R w1 (bind (ops_done (OHardDeleteSite ?i)) f)"
    if "reaped c {?i} w w1" "gm_get (ow_repos w1) ?repo = None" and f: "\<And>w2 e. reaped c {?i} w w2 \<Longrightarrow> endures ?R w2 (f e)" for w1 f
    by (rule survives_bindI [OF ends_delete_reaped [OF that(2)]]) (rule f, rule reaped_trans [OF that(1)])
  have audit: "endures ?R w1 (bind (ops_done (OInsertSystemAudit a b d t)) (\<lambda>_. Ret x))"
    if "reaped c {?i} w w1" for w1 a b d t and x :: "ReapResult \<times> string option"
    by (rule survives_bindI [OF ends_quiet_done]) (use that in \<open>auto simp: quiet_def intro: reaped_trans reaped_same\<close>)
  have remove: "endures ?R w1 (bind (ops_done (ORemoveAll ?repo)) f)"
    if "same_view w w1" and f: "\<And>w2 e. reaped c {?i} w w2 \<Longrightarrow> e = None \<longrightarrow> gm_get (ow_repos w2) ?repo = None \<Longrightarrow> endures ?R w2 (f e)"
    for w1 f
  proof (rule survives_bindI [OF ends_remove])
    fix w2 :: ops_world and e :: "string option"
    assume a: "ow_rows w2 = ow_rows w1 \<and> ow_now w2 = ow_now w1 \<and>
      (ow_repos w2 = gm_del ?repo (ow_repos w1) \<or> e \<noteq> None \<and> ow_repos w2 = ow_repos w1)"
    then have "reaped c {?i} w1 w2" using reaped_remove [of w2 w1 c ?i] reaped_same [of w1 w2] by (auto simp: same_view_def)
    then have "reaped c {?i} w w2" using reaped_trans reaped_same that(1) by blast
    then show "endures ?R w2 (f e)" using a by (intro f) auto
  qed
  have backup: "endures ?R w1 (bind (ops_bundle c ?i ?repo) f)"
    if "same_view w w1" and f: "\<And>w2 e. same_view w w2 \<Longrightarrow> endures ?R w2 (f e)" for w1 f
    by (rule survives_bindI [OF ends_bundle]) (rule f, rule same_view_trans [OF that(1)])
  show ?thesis
    unfolding reapOne_def Let_def
  proof (rule survives_bindI [OF ends_exists], clarify)
    fix w1 b and e :: "string option" assume v: "same_view w w1" and e: "e = None \<longrightarrow> b = repo_exists w (path_join ?repo gitDirName)"
    note r1 = reaped_same [OF v, of c "{?i}"]
    have "gm_get (ow_repos w1) ?repo = None" if "e = None" "\<not> b"
      using that e repo_exists_iff [OF wf i] v by (simp add: same_view_def)
    then show "endures ?R w1 (case e of Some m \<Rightarrow> Ret (res, Some (''stat repo: '' @ m)) | None \<Rightarrow>
        if \<not> b then bind (ops_done (OHardDeleteSite ?i)) (\<lambda>e. case e of
              Some m \<Rightarrow> Ret (res, Some (''hard-delete (no repo): '' @ m))
            | None \<Rightarrow> Ret (res\<lparr> rr_Skipped := rr_Skipped res + 1 \<rparr>, None))
        else bind (ops_bundle c ?i ?repo) (\<lambda>e. case e of
              Some m \<Rightarrow> Ret (res, Some (''bundle: '' @ m))
            | None \<Rightarrow> bind (ops_done (ORemoveAll ?repo)) (\<lambda>e. case e of
                  Some m \<Rightarrow> Ret (res, Some (''remove repo: '' @ m))
                | None \<Rightarrow> bind (ops_done (OHardDeleteSite ?i)) (\<lambda>e. case e of
                      Some m \<Rightarrow> Ret (res, Some (''hard-delete: '' @ m))
                    | None \<Rightarrow> bind (ops_done (OInsertSystemAudit ?i ''site.reap'' (sd_Handle s) (sd_DeletedAt s))) (\<lambda>_.
                          Ret (res\<lparr> rr_Reaped := rr_Reaped res + 1 \<rparr>, None))))))"
      using v by (auto intro!: finish backup remove audit simp: reaped_same split: option.split)
  qed
qed

lemma ends_reap_sites:
  assumes "ops_wf c w" and "\<forall>s \<in> set ss. plain_seg (sd_ID s)"
  shows "endures (\<lambda>w' x. reaped c (sd_ID ` set ss) w w') w (reap_sites c ss res)"
  using assms
proof (induction ss arbitrary: w res)
  case Nil
  then show ?case by (simp add: reaped_same)
next
  case (Cons s ss)
  let ?I = "sd_ID ` set (s # ss)"
  have one: "endures (\<lambda>w2 x. reaped c ?I w w2) w1 (bind (reapOne c s res) (\<lambda>(r, e). reap_sites c ss (reap_note s e r)))"
    if v: "same_view w w1" for w1
  proof -
    have wf1: "ops_wf c w1" by (rule reaped_wf [OF reaped_same [OF v] Cons.prems(1)])
    have pl: "plain_seg (sd_ID s)" using Cons.prems(2) by simp
    show ?thesis
    proof (rule survives_bindI [OF ends_reapOne [OF wf1 pl]], clarify)
      fix w2 x and e :: "string option" assume r: "reaped c {sd_ID s} w1 w2"
      have "reaped c ?I w w2"
        by (rule reaped_trans [OF reaped_same [OF v] reaped_mono [OF r]]) simp
      then show "endures (\<lambda>w3 x. reaped c ?I w w3) w2 (reap_sites c ss (reap_note s e x))"
        using Cons.prems(2)
        by (intro survives_mono [OF Cons.IH [OF reaped_wf [OF r wf1]]]) (auto intro: reaped_trans reaped_mono)
    qed
  qed
  show ?case
    unfolding reap_sites.simps
    by (rule survives_bindI [OF ends_quiet_done]) (use one in \<open>auto simp: quiet_def reaped_same split: option.split\<close>)
qed

definition past_ids :: "int \<Rightarrow> ops_world \<Rightarrow> uuid set" where
  "past_ids t w = {i. \<exists>r \<in> set (ow_rows w). fst r = i \<and> past t r}"

lemma past_sites_ids: "sd_ID ` set (past_sites t (ow_rows w)) = past_ids t w"
  by (force simp: past_sites_def past_ids_def image_image)

lemma ends_Reap:
  assumes wf: "ops_wf c w"
  shows "endures (\<lambda>w' x. reaped c (past_ids (ow_now w - oc_Grace c) w) w w') w (Reap c)"
proof -
  let ?t = "ow_now w - oc_Grace c"
  have sites: "endures (\<lambda>w2 x. reaped c (past_ids ?t w) w w2) w1 (reap_sites c (past_sites ?t (ow_rows w)) res)"
    if v: "same_view w w1" for w1 res
  proof (rule survives_mono [OF ends_reap_sites])
    show "ops_wf c w1" by (rule reaped_wf [OF reaped_same [OF v] wf])
    have "\<forall>i \<in> past_ids ?t w. plain_seg i" using wf by (auto simp: ops_wf_def past_ids_def list_all_iff)
    then show "\<forall>s \<in> set (past_sites ?t (ow_rows w)). plain_seg (sd_ID s)"
      unfolding past_sites_ids [symmetric] by simp
  qed (simp add: past_sites_ids reaped_trans [OF reaped_same [OF v]])
  show ?thesis
    unfolding Reap_def Let_def
  proof (rule survives_bindI [OF ends_now], clarify, rule survives_bindI [OF ends_past_grace])
    fix w1 w2 and r :: "string + SoftDeletedSite list"
    assume "same_view w w1" and "same_view w1 w2 \<and> (\<forall>ss. r = Inr ss \<longrightarrow> ss = past_sites ?t (ow_rows w1))"
    then show "endures (\<lambda>w' x. reaped c (past_ids ?t w) w w') w2
        (case r of Inl m \<Rightarrow> Ret (\<lparr> rr_Reaped = 0, rr_Skipped = 0, rr_Errors = [] \<rparr>, Some (''ops: list past-grace: '' @ m))
         | Inr l \<Rightarrow> reap_sites c l \<lparr> rr_Reaped = 0, rr_Skipped = 0, rr_Errors = [] \<rparr>)"
      using sites [of w2] by (auto simp: same_view_def reaped_same split: sum.split)
  qed
qed

section \<open>A pass without faults\<close>

definition backup_file :: "ops_config \<Rightarrow> int \<Rightarrow> uuid \<Rightarrow> string" where
  "backup_file c t i = path_join (path_join (oc_BackupDir c) i) (format_stamp t @ ''.bundle'')"

text \<open>What reaping one site does when nothing fails.\<close>

definition reap_effect :: "ops_config \<Rightarrow> uuid \<Rightarrow> ops_world \<Rightarrow> ops_world" where
  "reap_effect c i w =
     w\<lparr> ow_rows := filter (\<lambda>r. fst r \<noteq> i) (ow_rows w),
        ow_repos := gm_del (ops_repoDir c i) (ow_repos w),
        ow_backups := (case gm_get (ow_repos w) (ops_repoDir c i) of None \<Rightarrow> ow_backups w
                       | Some history \<Rightarrow> gm_put (backup_file c (ow_now w) i) history (ow_backups w)) \<rparr>"

lemma gm_del_absent: "gm_get m k = None \<Longrightarrow> gm_del k m = m"
  unfolding gm_del_def gm_get_def map_of_eq_None_iff by (rule filter_True) force

lemma clean_reapOne:
  assumes "ops_wf c w" and "plain_seg (sd_ID s)" and "oc_BackupDir c \<noteq> []"
  shows "ends ops_effect (\<lambda>w' (res', e). w' = reap_effect c (sd_ID s) w \<and> e = None \<and> rr_Errors res' = rr_Errors res) w (reapOne c s res)"
proof (cases "gm_get (ow_repos w) (ops_repoDir c (sd_ID s))")
  case None
  then show ?thesis
    using assms repo_exists_iff [OF assms(1,2)]
    by (simp add: reapOne_def Let_def ops_exists_def ops_done_def ends_bind reap_effect_def gm_del_absent)
next
  case (Some history)
  then show ?thesis
    using assms repo_exists_iff [OF assms(1,2)]
    by (simp add: reapOne_def Let_def ops_exists_def ops_done_def ops_now_def ops_bundle_def ends_bind
        reap_effect_def git_effect_def backup_file_def)
qed

lemma reap_effect_view [simp]:
  "ow_now (reap_effect c i w) = ow_now w"
  by (simp add: reap_effect_def)

lemma reap_effect_wf: "ops_wf c w \<Longrightarrow> ops_wf c (reap_effect c i w)"
  by (auto simp: ops_wf_def reap_effect_def list_all_iff gm_keys_def gm_del_def distinct_map_filter)

lemma clean_reap_sites:
  assumes "ops_wf c w" and "\<forall>s \<in> set ss. plain_seg (sd_ID s)" and "oc_BackupDir c \<noteq> []"
  shows "ends ops_effect (\<lambda>w' (res', e). w' = fold (reap_effect c) (map sd_ID ss) w \<and> e = None \<and> rr_Errors res' = rr_Errors res) w
    (reap_sites c ss res)"
  using assms
proof (induction ss arbitrary: w res)
  case Nil
  then show ?case by simp
next
  case (Cons s ss)
  have pl: "plain_seg (sd_ID s)" using Cons.prems(2) by simp
  have "ends ops_effect (\<lambda>w' (res', e). w' = fold (reap_effect c) (map sd_ID (s # ss)) w \<and> e = None \<and> rr_Errors res' = rr_Errors res) w
      (bind (reapOne c s res) (\<lambda>(res', err). reap_sites c ss (reap_note s err res')))"
  proof (rule ends_bindI [OF clean_reapOne [OF Cons.prems(1) pl Cons.prems(3)]])
    fix w1 and x :: "ReapResult \<times> string option"
    assume x: "case x of (res', e) \<Rightarrow> w1 = reap_effect c (sd_ID s) w \<and> e = None \<and> rr_Errors res' = rr_Errors res"
    obtain r1 where x1: "x = (r1, None)" "w1 = reap_effect c (sd_ID s) w" "rr_Errors r1 = rr_Errors res" using x by (cases x) auto
    have "ends ops_effect (\<lambda>w' (res', e). w' = fold (reap_effect c) (map sd_ID ss) w1 \<and> e = None \<and> rr_Errors res' = rr_Errors r1)
        w1 (reap_sites c ss r1)"
      using Cons.prems by (intro Cons.IH) (auto simp: x1(2) intro: reap_effect_wf)
    then show "ends ops_effect (\<lambda>w' (res', e). w' = fold (reap_effect c) (map sd_ID (s # ss)) w \<and> e = None \<and> rr_Errors res' = rr_Errors res)
        w1 (case x of (res', err) \<Rightarrow> reap_sites c ss (reap_note s err res'))"
      using x1 by (simp add: reap_note_def)
  qed
  then show ?case
    by (simp add: ends_bind ops_done_def)
qed

lemma fold_reap_rows: "ow_rows (fold (reap_effect c) is w) = filter (\<lambda>r. fst r \<notin> set is) (ow_rows w)"
  by (induction "is" arbitrary: w) (auto simp: reap_effect_def intro!: filter_cong)

lemma fold_reap_repos:
  "gm_get (ow_repos (fold (reap_effect c) is w)) p = (if p \<in> ops_repoDir c ` set is then None else gm_get (ow_repos w) p)"
  by (induction "is" arbitrary: w) (auto simp: reap_effect_def)

lemma fold_reap_now [simp]: "ow_now (fold (reap_effect c) is w) = ow_now w"
  by (induction "is" arbitrary: w) auto

lemma clean_Reap:
  assumes "ops_wf c w" and "oc_BackupDir c \<noteq> []"
  defines "t \<equiv> ow_now w - oc_Grace c"
  shows "ends ops_effect (\<lambda>w' (res, e). w' = fold (reap_effect c) (map sd_ID (past_sites t (ow_rows w))) w \<and> e = None \<and> rr_Errors res = []) w (Reap c)"
proof -
  have "\<forall>i \<in> past_ids t w. plain_seg i" using assms(1) by (auto simp: ops_wf_def past_ids_def list_all_iff)
  then have "\<forall>s \<in> set (past_sites t (ow_rows w)). plain_seg (sd_ID s)"
    unfolding past_sites_ids [symmetric] by simp
  from clean_reap_sites [OF assms(1) this assms(2), of "\<lparr> rr_Reaped = 0, rr_Skipped = 0, rr_Errors = [] \<rparr>"]
  show ?thesis
    by (simp add: Reap_def Let_def ops_now_def ops_past_grace_def ends_bind t_def)
qed

section \<open>Recovery and backups\<close>

lemma past_mono: "past t r \<Longrightarrow> t \<le> t' \<Longrightarrow> past t' r"
  by (auto simp: past_def split: option.splits)

lemma past_ids_filter:
  assumes "distinct (map fst (ow_rows w))"
  shows "filter (\<lambda>r. fst r \<notin> past_ids t w) (ow_rows w) = filter (\<lambda>r. \<not> past t r) (ow_rows w)"
proof (rule filter_cong [OF refl])
  fix r assume r: "r \<in> set (ow_rows w)"
  have "past t r" if "r' \<in> set (ow_rows w)" "fst r' = fst r" "past t r'" for r'
    using that r assms eq_key_imp_eq_value [of "ow_rows w" "fst r" "snd r" "snd r'"] by (metis prod.collapse)
  then show "(fst r \<notin> past_ids t w) = (\<not> past t r)" using r by (auto simp: past_ids_def)
qed

lemma reaped_past_ids:
  assumes "reaped c (past_ids t0 w) w w1" and "t0 \<le> t" and "distinct (map fst (ow_rows w))"
  shows "filter (\<lambda>r. fst r \<notin> past_ids t w1) (ow_rows w1) = filter (\<lambda>r. \<not> past t r) (ow_rows w)"
    and "p \<in> ops_repoDir c ` past_ids t w1 \<or> gm_get (ow_repos w1) p = None \<longleftrightarrow>
      p \<in> ops_repoDir c ` past_ids t w \<or> gm_get (ow_repos w) p = None"
    and "p \<notin> ops_repoDir c ` past_ids t w \<Longrightarrow> gm_get (ow_repos w1) p = gm_get (ow_repos w) p"
proof -
  obtain D E where D: "D \<subseteq> past_ids t0 w" "E \<subseteq> past_ids t0 w" "ow_rows w1 = filter (\<lambda>r. fst r \<notin> D) (ow_rows w)"
    and repos: "\<And>p. gm_get (ow_repos w1) p = (if p \<in> ops_repoDir c ` E then None else gm_get (ow_repos w) p)"
    and gone: "\<And>i. i \<in> D \<Longrightarrow> gm_get (ow_repos w1) (ops_repoDir c i) = None"
    using assms(1) unfolding reaped_def by blast
  have sub: "past_ids t0 w \<subseteq> past_ids t w" using past_mono [OF _ assms(2)] by (auto simp: past_ids_def)
  have ids: "past_ids t w1 = past_ids t w - D" unfolding past_ids_def D(3) by force
  show "filter (\<lambda>r. fst r \<notin> past_ids t w1) (ow_rows w1) = filter (\<lambda>r. \<not> past t r) (ow_rows w)"
    unfolding past_ids_filter [OF assms(3), symmetric] D(3) filter_filter ids
    using D(1) sub by (intro filter_cong) auto
  show "p \<notin> ops_repoDir c ` past_ids t w \<Longrightarrow> gm_get (ow_repos w1) p = gm_get (ow_repos w) p"
    using D(2) sub by (auto simp: repos)
  show "p \<in> ops_repoDir c ` past_ids t w1 \<or> gm_get (ow_repos w1) p = None \<longleftrightarrow>
      p \<in> ops_repoDir c ` past_ids t w \<or> gm_get (ow_repos w) p = None"
  proof (cases "p \<in> ops_repoDir c ` past_ids t w")
    case True
    then obtain i where i: "i \<in> past_ids t w" "p = ops_repoDir c i" by blast
    have "p \<in> ops_repoDir c ` past_ids t w1 \<or> gm_get (ow_repos w1) p = None"
      using gone [of i] i unfolding ids by (cases "i \<in> D") simp_all
    then show ?thesis using True by simp
  next
    case False
    then have "p \<notin> ops_repoDir c ` E" "p \<notin> ops_repoDir c ` past_ids t w1" using D(2) sub unfolding ids by auto
    then show ?thesis using False by (simp add: repos)
  qed
qed

lemma no_slash_pad: "slash \<notin> set (pad_int n i)"
proof -
  have "slash \<notin> set (show_nat k)" for k
    using show_nat_digits [of k] by (auto simp: list_all_iff is_digit_def)
  then show ?thesis by (auto simp: pad_int_def pad_left_def show_int_def show_int_base_def show_nat_def)
qed

lemma backup_file_inj:
  assumes "has_prefix (oc_BackupDir c) [slash]" and "plain_seg i" and "plain_seg j" and "backup_file c t i = backup_file c t j"
  shows "i = j"
proof -
  let ?f = "format_stamp t @ ''.bundle''"
  have "slash \<notin> set (format_stamp t)" using no_slash_pad by (simp add: format_stamp_def Let_def split: prod.split)
  then have "plain_seg ?f" by (simp add: plain_seg_def append_eq_Cons_conv)
  have r: "has_prefix (path_join (oc_BackupDir c) k) [slash]" if "plain_seg k" for k
    using that by (intro path_join_is_rooted assms(1)) auto
  have e: "path_elems (backup_file c t k) = path_elems (oc_BackupDir c) @ [k, ?f]" if "plain_seg k" for k
    unfolding backup_file_def
    using join_plain_elems [OF r [OF that] \<open>plain_seg ?f\<close>] join_plain_elems [OF assms(1) that] by simp
  have "path_elems (oc_BackupDir c) @ [i, ?f] = path_elems (oc_BackupDir c) @ [j, ?f]"
    unfolding e [OF assms(2), symmetric] e [OF assms(3), symmetric] assms(4) ..
  then show ?thesis by simp
qed

lemma fold_reap_backups:
  assumes "has_prefix (oc_BackupDir c) [slash]" and "list_all plain_seg (i # is)" and "i \<notin> set is"
    and "gm_get (ow_backups w) (backup_file c (ow_now w) i) = Some h"
  shows "gm_get (ow_backups (fold (reap_effect c) is w)) (backup_file c (ow_now w) i) = Some h"
  using assms(2-4)
proof (induction "is" arbitrary: w)
  case (Cons j js)
  have "backup_file c (ow_now w) i \<noteq> backup_file c (ow_now w) j"
    using backup_file_inj [OF assms(1), of i j] Cons.prems by auto
  then have "gm_get (ow_backups (reap_effect c j w)) (backup_file c (ow_now w) i) = Some h"
    using Cons.prems(3) by (simp add: reap_effect_def split: option.split)
  then show ?case using Cons.IH [of "reap_effect c j w"] Cons.prems by simp
qed simp

section \<open>Theorems\<close>

definition example_ops :: ops_config where
  "example_ops = \<lparr> oc_SitesDir = ''/data/sites'', oc_BackupDir = ''/data/backups'', oc_Grace = 10, oc_Interval = 5,
     oc_EnableReaper = True, oc_EnableGC = True \<rparr>"

text \<open>One live site, one deleted at time 1.\<close>

definition example_ops_world :: ops_world where
  "example_ops_world =
     \<lparr> ow_rows = [(''u1'', ''blog'', None), (''u2'', ''old'', Some 1)],
        ow_repos = [(''/data/sites/u1'', ''history of blog''), (''/data/sites/u2'', ''history of old'')],
        ow_backups = [], ow_now = 20 \<rparr>"

lemma example_paths:
  "ops_repoDir example_ops ''u1'' = ''/data/sites/u1''" "ops_repoDir example_ops ''u2'' = ''/data/sites/u2''"
  by code_simp+

lemma example_ops_wf: "ops_wf example_ops example_ops_world"
proof -
  have "plain_seg ''u1'' \<and> plain_seg ''u2''" by code_simp
  then show ?thesis
    unfolding ops_wf_def using example_paths
    by (auto simp: example_ops_world_def gm_keys_def has_prefix_iff example_ops_def ops_repoDir_def)
qed



lemma past_sites_distinct: "distinct (map fst (ow_rows w)) \<Longrightarrow> distinct (map sd_ID (past_sites t (ow_rows w)))"
  by (simp add: past_sites_def comp_def distinct_map distinct_map_filter inj_on_def)

text \<open>
  When nothing fails, the history of every repository that a pass removes is in its backup
  afterwards, in a file of its own.
\<close>

theorem reap_keeps_history:
  assumes "ops_wf c w" and "has_prefix (oc_BackupDir c) [slash]"
    and "(i, handle, Some d) \<in> set (ow_rows w)" and "d < ow_now w - oc_Grace c"
    and "gm_get (ow_repos w) (ops_repoDir c i) = Some history"
  shows "ends ops_effect (\<lambda>w' _. gm_get (ow_repos w') (ops_repoDir c i) = None \<and>
      gm_get (ow_backups w') (backup_file c (ow_now w) i) = Some history) w (Reap c)"
proof -
  let ?t = "ow_now w - oc_Grace c"
  let ?is = "map sd_ID (past_sites ?t (ow_rows w))"
  have set_is: "set ?is = past_ids ?t w" unfolding set_map by (rule past_sites_ids)
  have d: "distinct ?is" using assms(1) by (intro past_sites_distinct) (simp add: ops_wf_def)
  have "i \<in> set ?is" unfolding set_is past_ids_def using assms(3,4) by (force simp: past_def)
  then obtain xs ys where split: "?is = xs @ i # ys" by (meson split_list)
  have pl: "list_all plain_seg ?is"
    unfolding list_all_iff set_is using assms(1) by (auto simp: ops_wf_def past_ids_def list_all_iff)
  let ?w1 = "fold (reap_effect c) xs w" and ?w2 = "reap_effect c i (fold (reap_effect c) xs w)"
  have "ops_repoDir c i \<notin> ops_repoDir c ` set xs"
  proof
    assume "ops_repoDir c i \<in> ops_repoDir c ` set xs"
    then obtain j where j: "j \<in> set xs" "ops_repoDir c i = ops_repoDir c j" by blast
    then have "plain_seg i" "plain_seg j" using pl unfolding split by (auto simp: list_all_iff)
    then have "i = j" using j(2) git_dir_inj [of "oc_SitesDir c" i j] assms(1) by (simp add: ops_repoDir_def ops_wf_def)
    then show False using j(1) d unfolding split by simp
  qed
  then have "gm_get (ow_repos ?w1) (ops_repoDir c i) = Some history" using assms(5) by (simp add: fold_reap_repos)
  then have "gm_get (ow_backups ?w2) (backup_file c (ow_now ?w2) i) = Some history" by (simp add: reap_effect_def)
  moreover have "list_all plain_seg (i # ys)" "i \<notin> set ys" using pl d unfolding split by auto
  ultimately have "gm_get (ow_backups (fold (reap_effect c) ys ?w2)) (backup_file c (ow_now ?w2) i) = Some history"
    using fold_reap_backups [OF assms(2)] by blast
  then have "gm_get (ow_backups (fold (reap_effect c) ?is w)) (backup_file c (ow_now w) i) = Some history"
    unfolding split by simp
  moreover have "gm_get (ow_repos (fold (reap_effect c) ?is w)) (ops_repoDir c i) = None"
    using \<open>i \<in> set ?is\<close> unfolding fold_reap_repos by simp
  moreover have "oc_BackupDir c \<noteq> []" using assms(2) by auto
  ultimately show ?thesis
    by (intro ends_mono [OF clean_Reap [OF assms(1)]]) auto
qed

theorem reap_keeps_history_witness:
  "gm_get (ow_backups (fst (exec ops_effect example_ops_world (Reap example_ops)))) ''/data/backups/u2/19700101T000000Z.bundle'' =
     Some ''history of old''"
proof -
  have "backup_file example_ops 20 ''u2'' = ''/data/backups/u2/19700101T000000Z.bundle''" by code_simp
  moreover have "ow_now example_ops_world = 20" "oc_Grace example_ops = 10"
    by (simp_all add: example_ops_world_def example_ops_def)
  moreover have "(''u2'', ''old'', Some 1) \<in> set (ow_rows example_ops_world)" by (simp add: example_ops_world_def)
  moreover have "gm_get (ow_repos example_ops_world) (ops_repoDir example_ops ''u2'') = Some ''history of old''"
    unfolding example_paths by (simp add: example_ops_world_def gm_get_def)
  moreover have "has_prefix (oc_BackupDir example_ops) [slash]" by (simp add: example_ops_def has_prefix_iff)
  ultimately show ?thesis
    using reap_keeps_history [OF example_ops_wf, of "''u2''" "''old''" 1 "''history of old''"]
    by (simp add: ends_def split: prod.splits)
qed

text \<open>
  When the bundle command fails, the pass goes on: here it removes the repository and the row
  of a site, reports success, and leaves no backup.
\<close>

theorem reap_loses_history:
  "ends (faulty ops_effect failed) (\<lambda>(w, _) (res, e). e = None \<and> rr_Errors res = [] \<and> rr_Reaped res = 1 \<and>
      gm_get (ow_repos w) (ops_repoDir example_ops ''u2'') = None \<and> ow_backups w = [])
    (example_ops_world, replicate 6 Works @ [Fails]) (Reap example_ops)"
proof -
  have "past_sites 10 (ow_rows example_ops_world) = [\<lparr> sd_ID = ''u2'', sd_Handle = ''old'', sd_DeletedAt = 1 \<rparr>]"
    by (simp add: past_sites_def example_ops_world_def past_def deleted_at_def)
  moreover have "path_join ''/data/sites/u1'' gitDirName = ''/data/sites/u1/.git''" "path_join ''/data/sites/u2'' gitDirName = ''/data/sites/u2/.git''"
    by code_simp+
  moreover have "oc_BackupDir example_ops \<noteq> []" "oc_Grace example_ops = 10" by (simp_all add: example_ops_def)
  moreover have "replicate 6 Works = [Works, Works, Works, Works, Works, Works]" by (simp add: numeral_eq_Suc)
  ultimately show ?thesis
    by (simp add: Reap_def Let_def ops_now_def ops_past_grace_def ends_bind faulty_def example_ops_world_def
        reapOne_def ops_exists_def ops_done_def ops_bundle_def failed_def repo_exists_def gm_keys_def example_paths
        git_effect_def gm_get_def gm_del_def reap_note_def)
qed

section \<open>Garbage collection and start-up check\<close>

text \<open>The requests that the other two jobs may make: the only file removed is the lock of a repository.\<close>

definition calm :: "ops_config \<Rightarrow> ops_req \<Rightarrow> bool" where
  "calm c r =
     (case r of
        OHardDeleteSite _ \<Rightarrow> False
      | ORemoveAll _ \<Rightarrow> False
      | OMkdirAll _ \<Rightarrow> False
      | ORemove p \<Rightarrow> (\<exists>name. p = path_join (path_join (path_join (oc_SitesDir c) name) gitDirName) lockFileName)
      | OGitRun d args \<Rightarrow> (\<exists>i. d = ops_repoDir c i) \<and> args = [''gc'', ''--auto'']
      | _ \<Rightarrow> True)"

abbreviation calm_run :: "ops_config \<Rightarrow> 'a ops \<Rightarrow> bool" where
  "calm_run c \<equiv> safe (\<lambda>_ _. True) (calm c) (\<lambda>_. True)"

lemma calm_ask [safe_intro]:
  "calm c r \<Longrightarrow> calm_run c (ops_done r)" "calm_run c (ops_exists p)" "calm_run c ops_live_ids" "calm_run c (ops_list_dir d)"
  by (simp_all add: ops_done_def ops_exists_def ops_live_ids_def ops_list_dir_def calm_def)

lemma calm_gc_sites: "calm_run c (gc_sites c is)"
  by (induction "is") (simp_all, (rule safe_intro | simp add: calm_def | blast)+)

lemma calm_scan_repos: "calm_run c (scan_repos c parses live names acc)"
proof (induction names arbitrary: acc)
  case (Cons name names)
  have "calm_run c (scan_lock (path_join (oc_SitesDir c) name) res)" for res
    unfolding scan_lock_def Let_def by (rule safe_intro | simp add: calm_def | blast)+
  with Cons.IH show ?case
    unfolding scan_repos.simps Let_def by (intro safe_intro)
qed simp

lemma calm_jobs: "calm_run c (GC c)" "calm_run c (Consistency c parses)"
  unfolding GC_def Consistency_def Let_def by (intro safe_intro calm_gc_sites calm_scan_repos)+

text \<open>With the reaper switched off the scheduler as a whole is as harmless.\<close>

lemma scheduler_calm: "\<not> oc_EnableReaper c \<Longrightarrow> calm_run c (scheduler_loop c parses n)"
proof -
  assume "\<not> oc_EnableReaper c"
  then have once: "calm_run c (runOnce c)" unfolding runOnce_def by (auto intro!: safe_intro calm_jobs)
  then have "calm_run c (ticks c n)" by (induction n) (auto intro!: safe_intro)
  then show ?thesis unfolding scheduler_loop_def by (intro safe_intro calm_jobs once)
qed

text \<open>A disk that does not fail: which paths exist, which locks can be removed, the live sites and the names below the sites directory.\<close>

definition disk_env :: "(string \<Rightarrow> bool) \<Rightarrow> (string \<Rightarrow> bool) \<Rightarrow> uuid list \<Rightarrow> string list \<Rightarrow> unit \<Rightarrow> ops_req \<Rightarrow> unit \<times> ops_ans" where
  "disk_env ex rm live names u r =
     (u, case r of
        OListLiveSiteIDs \<Rightarrow> OIDs (Inr live)
      | OListDir d \<Rightarrow> ONames (Inr names)
      | OExists p \<Rightarrow> OFlag (ex p) None
      | ORemove p \<Rightarrow> ODone (if rm p then None else Some ''busy'')
      | _ \<Rightarrow> ODone None)"

definition is_repo :: "ops_config \<Rightarrow> (string \<Rightarrow> bool) \<Rightarrow> string \<Rightarrow> bool" where
  "is_repo c ex name = ex (path_join (path_join (oc_SitesDir c) name) gitDirName)"

definition lock_of :: "ops_config \<Rightarrow> string \<Rightarrow> string" where
  "lock_of c name = path_join (path_join (path_join (oc_SitesDir c) name) gitDirName) lockFileName"

lemma exec_scan_repos:
  "exec (disk_env ex rm live names0) () (scan_repos c parses live names (seen, res)) =
     ((), (seen @ filter (is_repo c ex) names,
       \<lparr> cr_ClearedLocks = cr_ClearedLocks res @ map (path_join (oc_SitesDir c)) (filter (\<lambda>n. is_repo c ex n \<and> ex (lock_of c n) \<and> rm (lock_of c n)) names),
          cr_OrphanRepos = cr_OrphanRepos res @ map (path_join (oc_SitesDir c)) (filter (\<lambda>n. is_repo c ex n \<and> parses n \<and> n \<notin> set live) names),
          cr_DanglingRows = cr_DanglingRows res \<rparr>))"
proof (induction names arbitrary: seen res)
  case (Cons name names)
  then show ?case
    unfolding scan_repos.simps Let_def scan_lock_def
    by (cases "is_repo c ex name"; cases "ex (lock_of c name)"; cases "rm (lock_of c name)")
      (simp_all add: exec_bind ops_exists_def ops_done_def disk_env_def is_repo_def [symmetric] lock_of_def [symmetric])
qed simp

text \<open>
  The garbage collection and the start-up check remove nothing but lock files, run no git command
  but \<open>gc --auto\<close> and touch no row, whatever they are answered. On a disk that answers, the check
  reports exactly the locks it has cleared, the repositories whose name is a UUID that is not
  among the live sites (a soft-deleted site is among those), and the live sites that have no repository.
\<close>

theorem consistency_check:
  "safe (\<lambda>_ _. True) (calm c) (\<lambda>_. True) (GC c) \<and> safe (\<lambda>_ _. True) (calm c) (\<lambda>_. True) (Consistency c parses) \<and>
   snd (exec (disk_env ex rm live names) () (Consistency c parses)) =
     (\<lparr> cr_ClearedLocks = map (path_join (oc_SitesDir c)) (filter (\<lambda>n. is_repo c ex n \<and> ex (lock_of c n) \<and> rm (lock_of c n)) names),
        cr_OrphanRepos = map (path_join (oc_SitesDir c)) (filter (\<lambda>n. is_repo c ex n \<and> parses n \<and> n \<notin> set live) names),
        cr_DanglingRows = filter (\<lambda>i. \<not> (i \<in> set names \<and> is_repo c ex i)) live \<rparr>, None)"
  using calm_jobs [of c] exec_scan_repos [of ex rm live names c parses names "[]"]
  by (simp add: Consistency_def Let_def exec_bind ops_live_ids_def ops_list_dir_def disk_env_def)

end
