(* ===== verification/Secret_Box.thy ===== *)
theory Secret_Box
  imports Go_Hex Go_Base64
begin

text \<open>
  Sealing of secrets at rest (\<open>backend/internal/secretbox/secretbox.go\<close>, \<open>key.go\<close>). The AEAD of the
  standard library and SHA-256 are parameters: an \<open>aead\<close> has the operations of \<open>cipher.AEAD\<close> for one
  key, and \<open>aead_ok\<close> is what the documentation promises of them.
\<close>

section \<open>Sealing and opening\<close>

record aead =
  ae_NonceSize :: nat
  ae_Overhead :: nat
  ae_Seal :: "string \<Rightarrow> string \<Rightarrow> string"
  ae_Open :: "string \<Rightarrow> string \<Rightarrow> string option"

definition aead_ok :: "aead \<Rightarrow> bool" where
  "aead_ok a \<longleftrightarrow>
     (\<forall>n p. length n = ae_NonceSize a \<longrightarrow>
        length (ae_Seal a n p) = length p + ae_Overhead a \<and> ae_Open a n (ae_Seal a n p) = Some p) \<and>
     (\<forall>n s p. length n = ae_NonceSize a \<longrightarrow> ae_Open a n s = Some p \<longrightarrow> s = ae_Seal a n p)"

definition KeySize :: nat where "KeySize = 32"
definition versionByte :: char where "versionByte = CHR 0x01"
definition ErrSealDerivedKeyProd :: string where
  "ErrSealDerivedKeyProd = ''secretbox: refusing to seal a secret under the derived key in production'' @
     '' '' @ [CHR 0xE2, CHR 0x80, CHR 0x94] @ '' set KOTOJI_SECRET_KEY''"

record Box =
  bx_aead :: aead
  bx_sealDisabled :: bool

text \<open>\<open>gcm key\<close> is \<open>cipher.NewGCM\<close> of \<open>aes.NewCipher(key)\<close>; a key of 32 bytes has one.\<close>

definition newBox :: "(string \<Rightarrow> aead) \<Rightarrow> string \<Rightarrow> bool \<Rightarrow> string + Box" where
  "newBox gcm key sealDisabled =
     (if length key \<noteq> KeySize then Inl ''secretbox: key must be exactly 32 bytes''
      else Inr \<lparr> bx_aead = gcm key, bx_sealDisabled = sealDisabled \<rparr>)"

definition box_New :: "(string \<Rightarrow> aead) \<Rightarrow> string \<Rightarrow> string + Box" where
  "box_New gcm key = newBox gcm key False"

definition NewSealDisabled :: "(string \<Rightarrow> aead) \<Rightarrow> string \<Rightarrow> string + Box" where
  "NewSealDisabled gcm key = newBox gcm key True"

text \<open>\<open>random\<close> is what reading a nonce from the random source gives.\<close>

definition box_Seal :: "Box \<Rightarrow> string + string \<Rightarrow> string \<Rightarrow> string + string" where
  "box_Seal b random plaintext =
     (if bx_sealDisabled b then Inl ErrSealDerivedKeyProd
      else
        (case random of
           Inl e \<Rightarrow> Inl e
         | Inr nonce \<Rightarrow> Inr (std_EncodeToString ((versionByte # nonce) @ ae_Seal (bx_aead b) nonce plaintext))))"

definition box_Open :: "Box \<Rightarrow> string \<Rightarrow> string option" where
  "box_Open b encoded =
     (if encoded = [] then None
      else
        (case std_DecodeString encoded of
           None \<Rightarrow> None
         | Some raw \<Rightarrow>
             let ns = ae_NonceSize (bx_aead b) in
             if length raw < 1 + ns + ae_Overhead (bx_aead b) then None
             else if raw ! 0 \<noteq> versionByte then None
             else ae_Open (bx_aead b) (take ns (drop 1 raw)) (drop (1 + ns) raw)))"

section \<open>The key\<close>

definition keySeedPrefix :: string where "keySeedPrefix = ''kotoji-secretbox|''"

text \<open>The decoders in the order of the loop: standard, raw standard, URL, raw URL.\<close>

definition base64_decoders :: "(string \<Rightarrow> string option) list" where
  "base64_decoders =
     [\<lambda>s. map_option of_bytes (b64_decode False True s), \<lambda>s. map_option of_bytes (b64_decode False False s),
      \<lambda>s. map_option of_bytes (b64_decode True True s), \<lambda>s. map_option of_bytes (b64_decode True False s)]"

definition usable_key :: "string option \<Rightarrow> string option" where
  "usable_key d = (case d of Some b \<Rightarrow> if KeySize \<le> length b then Some (take KeySize b) else None | None \<Rightarrow> None)"

primrec first_key :: "(string \<Rightarrow> string option) list \<Rightarrow> string \<Rightarrow> string option" where
  "first_key [] v = None"
| "first_key (enc # encs) v = (case usable_key (enc v) of Some k \<Rightarrow> Some k | None \<Rightarrow> first_key encs v)"

definition decodeExplicitKey :: "string \<Rightarrow> string option" where
  "decodeExplicitKey v0 =
     (let v = trim_space v0 in
      if v = [] then None
      else
        (case usable_key (hex_DecodeString v) of
           Some k \<Rightarrow> Some k
         | None \<Rightarrow> first_key base64_decoders v))"

definition ExplicitKeyProvided :: "string \<Rightarrow> bool" where
  "ExplicitKeyProvided v = (decodeExplicitKey v \<noteq> None)"

definition ResolveKey :: "(string \<Rightarrow> string) \<Rightarrow> string \<Rightarrow> string \<Rightarrow> string \<Rightarrow> string \<Rightarrow> string \<Rightarrow> string" where
  "ResolveKey sha256 secretKeyEnv adminPwSeed oidcSecret controlBaseURL baseDomain =
     (case decodeExplicitKey secretKeyEnv of
        Some k \<Rightarrow> k
      | None \<Rightarrow>
          sha256 (keySeedPrefix @ adminPwSeed @ ''|'' @ oidcSecret @ ''|'' @ controlBaseURL @ ''|'' @ baseDomain))"

section \<open>Properties\<close>

lemma std_Encode_ne: "s \<noteq> [] \<Longrightarrow> std_EncodeToString s \<noteq> []"
proof
  assume "s \<noteq> []" and "std_EncodeToString s = []"
  moreover have "std_DecodeString [] = Some []" by (simp add: std_DecodeString_def b64_decode_def of_bytes_def)
  ultimately show False using std_roundtrip [of s] by simp
qed

lemma open_sealed:
  assumes "aead_ok (bx_aead b)" and "length nonce = ae_NonceSize (bx_aead b)"
  shows "box_Open b (std_EncodeToString ((versionByte # nonce) @ ae_Seal (bx_aead b) nonce p)) = Some p"
  using assms std_Encode_ne [of "(versionByte # nonce) @ ae_Seal (bx_aead b) nonce p"]
  by (simp add: box_Open_def aead_ok_def)

lemma open_authentic:
  assumes "aead_ok (bx_aead b)" and "box_Open b s = Some p"
  shows "\<exists>nonce. length nonce = ae_NonceSize (bx_aead b) \<and>
    std_DecodeString s = Some ((versionByte # nonce) @ ae_Seal (bx_aead b) nonce p)"
proof -
  let ?a = "bx_aead b"
  obtain raw where raw: "std_DecodeString s = Some raw" "1 + ae_NonceSize ?a + ae_Overhead ?a \<le> length raw" "raw ! 0 = versionByte"
    "ae_Open ?a (take (ae_NonceSize ?a) (drop 1 raw)) (drop (1 + ae_NonceSize ?a) raw) = Some p"
    using assms(2) unfolding box_Open_def by (auto simp: Let_def not_less split: if_splits option.splits)
  obtain r rs where r: "raw = r # rs" using raw(2) by (cases raw) auto
  let ?n = "take (ae_NonceSize ?a) rs"
  have "length ?n = ae_NonceSize ?a" using raw(2) r by simp
  moreover have "drop (ae_NonceSize ?a) rs = ae_Seal ?a ?n p"
    using assms(1) raw(4) calculation unfolding aead_ok_def r by simp
  then have "raw = (versionByte # ?n) @ ae_Seal ?a ?n p"
    using raw(3) r append_take_drop_id [of "ae_NonceSize ?a" rs] by simp
  ultimately show ?thesis using raw(1) by blast
qed

lemma hex_bad: "c \<in> set s \<Longrightarrow> unhex c = None \<Longrightarrow> hex_DecodeString s = None"
  by (induction s rule: hex_DecodeString.induct) (auto split: option.splits)

lemma hex_digits_no_space: "c \<in> set (hex_EncodeToString s) \<Longrightarrow> \<not> is_space c"
proof -
  assume "c \<in> set (hex_EncodeToString s)"
  then obtain x where "c = hex_digit ((of_char x :: nat) div 16) \<or> c = hex_digit ((of_char x :: nat) mod 16)"
    by (auto simp: hex_EncodeToString_def Let_def)
  moreover have "(of_char x :: nat) div 16 < 16" "(of_char x :: nat) mod 16 < 16" by (simp_all add: less_mult_imp_div_less)
  ultimately obtain n where n: "n < 16" "c = hex_digit n" by metis
  have "(of_char (char_of (48 + n) :: char) :: nat) = 48 + n" "(of_char (char_of (87 + n) :: char) :: nat) = 87 + n"
    using n by (simp_all add: take_bit_nat_eq_self)
  then show ?thesis using n by (simp add: is_space_def hex_digit_def)
qed

lemma std_no_space: "c \<in> set (std_EncodeToString s) \<Longrightarrow> \<not> is_space c"
proof -
  assume "c \<in> set (std_EncodeToString s)"
  then have "c \<in> set (b64_alphabet False) \<union> {CHR ''=''}"
    unfolding std_EncodeToString_def using b64_encode_set [OF bytes_of_lt, of False True] by auto
  moreover have "list_all (\<lambda>c. \<not> is_space c) (CHR ''='' # b64_alphabet False)" by code_simp
  ultimately show ?thesis by (auto simp: list_all_iff)
qed

lemma b64_padded: "length bs mod 3 \<noteq> 0 \<Longrightarrow> CHR ''='' \<in> set (b64_encode url True bs)"
proof (induction url True bs rule: b64_encode.induct)
  case (4 url a b c bs)
  have "length (a # b # c # bs) mod 3 = length bs mod 3" by (simp add: numeral_3_eq_3 [symmetric] Suc3_eq_add_3)
  then show ?case using 4 by simp
qed simp_all

lemma explicit_hex:
  assumes "length k = KeySize"
  shows "decodeExplicitKey (hex_EncodeToString k) = Some k"
proof -
  have "hex_EncodeToString k \<noteq> []" using assms by (cases k) (auto simp: hex_EncodeToString_def KeySize_def Let_def)
  moreover have "trim_space (hex_EncodeToString k) = hex_EncodeToString k"
    by (rule trim_space_id) (rule hex_digits_no_space)
  ultimately show ?thesis using assms by (simp add: decodeExplicitKey_def hex_roundtrip usable_key_def)
qed

lemma explicit_std:
  assumes "length k = KeySize"
  shows "decodeExplicitKey (std_EncodeToString k) = Some k"
proof -
  have "CHR ''='' \<in> set (std_EncodeToString k)"
    unfolding std_EncodeToString_def by (rule b64_padded) (simp add: bytes_of_def assms KeySize_def)
  moreover have "unhex CHR ''='' = None" by code_simp
  ultimately have "hex_DecodeString (std_EncodeToString k) = None" by (rule hex_bad)
  moreover have "trim_space (std_EncodeToString k) = std_EncodeToString k"
    by (rule trim_space_id) (rule std_no_space)
  moreover have "std_EncodeToString k \<noteq> []" using assms by (intro std_Encode_ne) (auto simp: KeySize_def)
  moreover have "map_option of_bytes (b64_decode False True (std_EncodeToString k)) = Some k"
    using std_roundtrip [of k] by (simp add: std_DecodeString_def)
  moreover have "usable_key (Some k) = Some k" using assms by (simp add: usable_key_def)
  ultimately show ?thesis unfolding decodeExplicitKey_def Let_def base64_decoders_def
    by (simp only: first_key.simps option.case usable_key_def if_False)
qed

lemma usable_key_length: "usable_key d = Some k \<Longrightarrow> length k = KeySize"
  by (auto simp: usable_key_def split: option.splits if_splits)

lemma first_key_length: "first_key encs v = Some k \<Longrightarrow> length k = KeySize"
  by (induction encs) (auto split: option.splits intro: usable_key_length)

lemma explicit_key_length: "decodeExplicitKey v = Some k \<Longrightarrow> length k = KeySize"
  unfolding decodeExplicitKey_def
  by (auto simp: Let_def split: if_splits option.splits intro: usable_key_length first_key_length)

text \<open>An AEAD for the examples: it masks nothing and appends the nonce as its tag.\<close>

definition example_aead :: aead where
  "example_aead = \<lparr> ae_NonceSize = 2, ae_Overhead = 2, ae_Seal = (\<lambda>n p. p @ n),
     ae_Open = (\<lambda>n s. if length s < 2 \<or> drop (length s - 2) s \<noteq> n then None else Some (take (length s - 2) s)) \<rparr>"

lemma example_aead_ok: "aead_ok example_aead"
  by (auto simp: aead_ok_def example_aead_def split: if_splits)

definition example_box :: Box where
  "example_box = \<lparr> bx_aead = example_aead, bx_sealDisabled = False \<rparr>"

text \<open>
  A key that an operator supplies as the hexadecimal or the base64 text of 32 bytes is the key
  that is used; a box built from the resolved key exists, opens what it has sealed, and opens
  nothing but the sealing of the text that it returns; a box for a derived key in production
  seals nothing.
\<close>

theorem secret_box_correct:
  assumes "\<And>m. length (sha256 m) = KeySize" and "\<And>key. length key = KeySize \<Longrightarrow> aead_ok (gcm key)"
    and "length k = KeySize"
  shows "ResolveKey sha256 (hex_EncodeToString k) a o' u d = k \<and> ResolveKey sha256 (std_EncodeToString k) a o' u d = k \<and>
    (\<exists>b. box_New gcm (ResolveKey sha256 env a o' u d) = Inr b \<and>
      (\<forall>nonce p. length nonce = ae_NonceSize (bx_aead b) \<longrightarrow>
         (\<exists>s. box_Seal b (Inr nonce) p = Inr s \<and> box_Open b s = Some p)) \<and>
      (\<forall>s p. box_Open b s = Some p \<longrightarrow>
         (\<exists>nonce t. box_Seal b (Inr nonce) p = Inr t \<and> std_DecodeString s = std_DecodeString t))) \<and>
    (\<exists>b. NewSealDisabled gcm (ResolveKey sha256 env a o' u d) = Inr b \<and> (\<forall>r p. box_Seal b r p = Inl ErrSealDerivedKeyProd))"
proof (intro conjI)
  show "ResolveKey sha256 (hex_EncodeToString k) a o' u d = k" "ResolveKey sha256 (std_EncodeToString k) a o' u d = k"
    using explicit_hex [OF assms(3)] explicit_std [OF assms(3)] by (simp_all add: ResolveKey_def)
  let ?key = "ResolveKey sha256 env a o' u d"
  have len: "length ?key = KeySize"
    using assms(1) explicit_key_length [of env] by (auto simp: ResolveKey_def split: option.split)
  let ?b = "\<lparr> bx_aead = gcm ?key, bx_sealDisabled = False \<rparr>"
  have ok: "aead_ok (bx_aead ?b)" using assms(2) [OF len] by simp
  have seal: "box_Seal ?b (Inr nonce) p = Inr (std_EncodeToString ((versionByte # nonce) @ ae_Seal (bx_aead ?b) nonce p))" for nonce p
    by (simp add: box_Seal_def)
  show "\<exists>b. box_New gcm ?key = Inr b \<and>
      (\<forall>nonce p. length nonce = ae_NonceSize (bx_aead b) \<longrightarrow> (\<exists>s. box_Seal b (Inr nonce) p = Inr s \<and> box_Open b s = Some p)) \<and>
      (\<forall>s p. box_Open b s = Some p \<longrightarrow> (\<exists>nonce t. box_Seal b (Inr nonce) p = Inr t \<and> std_DecodeString s = std_DecodeString t))"
  proof (intro exI [of _ ?b] conjI allI impI)
    show "box_New gcm ?key = Inr ?b" using len by (simp add: box_New_def newBox_def)
    show "\<exists>s. box_Seal ?b (Inr nonce) p = Inr s \<and> box_Open ?b s = Some p" if "length nonce = ae_NonceSize (bx_aead ?b)" for nonce p
      unfolding seal using open_sealed [OF ok that] by blast
    show "\<exists>nonce t. box_Seal ?b (Inr nonce) p = Inr t \<and> std_DecodeString s = std_DecodeString t" if "box_Open ?b s = Some p" for s p
      using open_authentic [OF ok that] unfolding seal by (metis std_roundtrip)
  qed
  show "\<exists>b. NewSealDisabled gcm ?key = Inr b \<and> (\<forall>r p. box_Seal b r p = Inl ErrSealDerivedKeyProd)"
    using len by (simp add: NewSealDisabled_def newBox_def box_Seal_def)
qed

theorem secret_box_correct_witness:
  "\<exists>b s. box_New (\<lambda>_. example_aead) (ResolveKey (\<lambda>_. replicate 32 CHR ''k'') [] [] [] [] []) = Inr b \<and>
     box_Seal b (Inr ''nn'') ''token'' = Inr s \<and> box_Open b s = Some ''token''"
proof -
  have len: "length (replicate 32 CHR ''k'') = KeySize" by (simp add: KeySize_def)
  obtain b where b: "box_New (\<lambda>_. example_aead) (ResolveKey (\<lambda>_. replicate 32 CHR ''k'') [] [] [] [] []) = Inr b"
    "\<forall>nonce p. length nonce = ae_NonceSize (bx_aead b) \<longrightarrow> (\<exists>s. box_Seal b (Inr nonce) p = Inr s \<and> box_Open b s = Some p)"
    using secret_box_correct [of "\<lambda>_. replicate 32 CHR ''k''" "\<lambda>_. example_aead" "replicate 32 CHR ''k''" "[]" "[]" "[]" "[]" "[]"]
      len example_aead_ok by blast
  have "ae_NonceSize (bx_aead b) = 2"
    using b(1) by (auto simp: box_New_def newBox_def example_aead_def split: if_splits)
  then show ?thesis using b by fastforce
qed

end
