(* ===== verification/Settings_Store.thy ===== *)
theory Settings_Store
  imports Secret_Box Fault_World
begin

text \<open>
  The settings of the instance (\<open>backend/internal/db/store.go\<close>, \<open>tx.go\<close>): the administrator's password
  hash and the GitHub, domain and OIDC configurations as rows of the table \<open>instance_settings\<close>,
  written in one transaction, secrets sealed. The operations are programs of requests to the
  database and to the random source. A value with its \<open>Set\<close> flag is an option.
\<close>

section \<open>The database\<close>

datatype db_req =
    DBegin
  | DCommit
  | DRollback
  | DGet string
  | DSet string string
  | DDelete string
  | DPut string string
  | DRandom nat

text \<open>\<open>DSet\<close> and \<open>DDelete\<close> are statements of the open transaction, \<open>DPut\<close> is one outside of it.\<close>

datatype row_error = NoRows | RowError string

datatype db_ans =
    DValue "row_error + string"
  | DOk "string option"
  | DBytes "string + string"

type_synonym 'a dbp = "(db_req, db_ans, 'a) proc"

definition db_done :: "db_req \<Rightarrow> string option dbp" where
  "db_done r = Do r (\<lambda>a. Ret (case a of DOk e \<Rightarrow> e | _ \<Rightarrow> Some []))"

definition GetInstanceSetting :: "string \<Rightarrow> (row_error + string) dbp" where
  "GetInstanceSetting k = Do (DGet k) (\<lambda>a. Ret (case a of DValue r \<Rightarrow> r | _ \<Rightarrow> Inl (RowError [])))"

definition read_random :: "nat \<Rightarrow> (string + string) dbp" where
  "read_random n = Do (DRandom n) (\<lambda>a. Ret (case a of DBytes r \<Rightarrow> r | _ \<Rightarrow> Inl []))"

definition ErrTxClosed :: string where "ErrTxClosed = ''tx is closed''"

text \<open>The deferred rollback of \<open>WithTx\<close>, after an error.\<close>

definition roll_back :: "string \<Rightarrow> string option dbp" where
  "roll_back err =
     bind (db_done DRollback) (\<lambda>rb. Ret (Some (case rb of
       Some m \<Rightarrow> if m \<noteq> ErrTxClosed then err @ [CHR 0x0A] @ ''db: rollback: '' @ m else err
     | None \<Rightarrow> err)))"

definition WithTx :: "string option dbp \<Rightarrow> string option dbp" where
  "WithTx fn =
     bind (db_done DBegin) (\<lambda>e. case e of
       Some m \<Rightarrow> Ret (Some (''db: begin tx: '' @ m))
     | None \<Rightarrow>
         bind fn (\<lambda>e. case e of
           Some err \<Rightarrow> roll_back err
         | None \<Rightarrow>
             bind (db_done DCommit) (\<lambda>e. case e of
               Some m \<Rightarrow> roll_back (''db: commit: '' @ m)
             | None \<Rightarrow> Ret None)))"

section \<open>Keys\<close>

definition SettingAdminPasswordHash :: string where "SettingAdminPasswordHash = ''admin_password_hash''"
definition SettingGitHubMirrorEnabled :: string where "SettingGitHubMirrorEnabled = ''github_mirror_enabled''"
definition SettingGitHubOrg :: string where "SettingGitHubOrg = ''github_org''"
definition SettingGitHubWebhookSecret :: string where "SettingGitHubWebhookSecret = ''github_webhook_secret''"
definition SettingGitHubToken :: string where "SettingGitHubToken = ''github_token''"
definition SettingBaseDomain :: string where "SettingBaseDomain = ''base_domain''"
definition SettingControlBaseURL :: string where "SettingControlBaseURL = ''control_base_url''"
definition SettingOIDCEnabled :: string where "SettingOIDCEnabled = ''oidc_enabled''"
definition SettingOIDCIssuer :: string where "SettingOIDCIssuer = ''oidc_issuer''"
definition SettingOIDCClientID :: string where "SettingOIDCClientID = ''oidc_client_id''"
definition SettingOIDCClientSecret :: string where "SettingOIDCClientSecret = ''oidc_client_secret''"
definition SettingOIDCRedirectURL :: string where "SettingOIDCRedirectURL = ''oidc_redirect_url''"
definition SettingOIDCAllowedEmails :: string where "SettingOIDCAllowedEmails = ''oidc_allowed_emails''"
definition SettingOIDCAllowedDomains :: string where "SettingOIDCAllowedDomains = ''oidc_allowed_domains''"
definition SettingOIDCAdminEmails :: string where "SettingOIDCAdminEmails = ''oidc_admin_emails''"
definition boolTrue :: string where "boolTrue = ''true''"
definition boolFalse :: string where "boolFalse = ''false''"

lemmas setting_keys = SettingAdminPasswordHash_def SettingGitHubMirrorEnabled_def SettingGitHubOrg_def SettingGitHubWebhookSecret_def
  SettingGitHubToken_def SettingBaseDomain_def SettingControlBaseURL_def SettingOIDCEnabled_def SettingOIDCIssuer_def
  SettingOIDCClientID_def SettingOIDCClientSecret_def SettingOIDCRedirectURL_def SettingOIDCAllowedEmails_def
  SettingOIDCAllowedDomains_def SettingOIDCAdminEmails_def

definition getSetting :: "string \<Rightarrow> (string + string option) dbp" where
  "getSetting key =
     bind (GetInstanceSetting key) (\<lambda>r. Ret (case r of
       Inl NoRows \<Rightarrow> Inr None
     | Inl (RowError m) \<Rightarrow> Inl (''db: get setting '' @ [CHR 0x22] @ key @ [CHR 0x22] @ '': '' @ m)
     | Inr v \<Rightarrow> Inr (Some v)))"

definition setOrDeleteSetting :: "string \<Rightarrow> string \<Rightarrow> string option dbp" where
  "setOrDeleteSetting key v = (if v = [] then db_done (DDelete key) else db_done (DSet key v))"

section \<open>Administrator's password\<close>

definition GetAdminPasswordHash :: "(string + string option) dbp" where
  "GetAdminPasswordHash =
     bind (GetInstanceSetting SettingAdminPasswordHash) (\<lambda>r. Ret (case r of
       Inl NoRows \<Rightarrow> Inr None
     | Inl (RowError m) \<Rightarrow> Inl (''db: get admin password hash: '' @ m)
     | Inr v \<Rightarrow> Inr (Some v)))"

definition SetAdminPasswordHash :: "string \<Rightarrow> string option dbp" where
  "SetAdminPasswordHash hash =
     bind (db_done (DPut SettingAdminPasswordHash hash)) (\<lambda>e. Ret (case e of
       Some m \<Rightarrow> Some (''db: set admin password hash: '' @ m)
     | None \<Rightarrow> None))"

section \<open>Steps of a transaction\<close>

text \<open>A step with the prefix of its error; the steps of a callback in order, up to the first error.\<close>

definition db_step :: "string \<Rightarrow> string option dbp \<Rightarrow> string option dbp" where
  "db_step what p = bind p (\<lambda>e. Ret (case e of Some m \<Rightarrow> Some (what @ m) | None \<Rightarrow> None))"

primrec db_steps :: "string option dbp list \<Rightarrow> string option dbp" where
  "db_steps [] = Ret None"
| "db_steps (p # ps) = bind p (\<lambda>e. case e of Some m \<Rightarrow> Ret (Some m) | None \<Rightarrow> db_steps ps)"

text \<open>
  The secret of a configuration: removed, sealed and stored, or left alone. \<open>label\<close> is its name in
  the error messages.
\<close>

definition secret_step :: "Box option \<Rightarrow> string \<Rightarrow> string \<Rightarrow> bool \<Rightarrow> string option \<Rightarrow> string option dbp" where
  "secret_step box key label clear v =
     (if clear then db_step (''db: clear '' @ key @ '': '') (db_done (DDelete key))
      else
        (case v of
           None \<Rightarrow> Ret None
         | Some secret \<Rightarrow>
             if secret = [] then Ret None
             else
               (case box of
                  None \<Rightarrow> Ret (Some (''db: cannot store '' @ label @ '' without a secret key configured''))
                | Some b \<Rightarrow>
                    bind (if bx_sealDisabled b then Ret (Inl []) else read_random (ae_NonceSize (bx_aead b))) (\<lambda>random.
                      case box_Seal b random secret of
                        Inl m \<Rightarrow> Ret (Some (''db: encrypt '' @ key @ '': '' @ m))
                      | Inr ct \<Rightarrow> db_step (''db: set '' @ key @ '': '') (db_done (DSet key ct))))))"

text \<open>The secret of a configuration read back: a value that cannot be opened counts as absent.\<close>

definition open_secret :: "Box option \<Rightarrow> string option \<Rightarrow> string option" where
  "open_secret box v =
     (case v of
        Some ct \<Rightarrow> if ct \<noteq> [] then (case box of Some b \<Rightarrow> box_Open b ct | None \<Rightarrow> None) else None
      | None \<Rightarrow> None)"

definition bool_setting :: "bool \<Rightarrow> string" where
  "bool_setting b = (if b then boolTrue else boolFalse)"

section \<open>GitHub mirror\<close>

record GitHubConfig =
  gh_Enabled :: "bool option"
  gh_Token :: "string option"
  gh_Org :: string
  gh_WebhookSecret :: string

record SetGitHubConfigInput =
  gi_Enabled :: "bool option"
  gi_Org :: "string option"
  gi_WebhookSecret :: "string option"
  gi_Token :: "string option"
  gi_ClearToken :: bool

definition string_or_empty :: "string option \<Rightarrow> string" where
  "string_or_empty v = (case v of Some s \<Rightarrow> s | None \<Rightarrow> [])"

definition GetGitHubConfig :: "Box option \<Rightarrow> (string + GitHubConfig) dbp" where
  "GetGitHubConfig box =
     bind (getSetting SettingGitHubMirrorEnabled) (\<lambda>r. case r of Inl m \<Rightarrow> Ret (Inl m) | Inr enabled \<Rightarrow>
     bind (getSetting SettingGitHubOrg) (\<lambda>r. case r of Inl m \<Rightarrow> Ret (Inl m) | Inr org \<Rightarrow>
     bind (getSetting SettingGitHubWebhookSecret) (\<lambda>r. case r of Inl m \<Rightarrow> Ret (Inl m) | Inr hook \<Rightarrow>
     bind (getSetting SettingGitHubToken) (\<lambda>r. case r of Inl m \<Rightarrow> Ret (Inl m) | Inr token \<Rightarrow>
       Ret (Inr \<lparr> gh_Enabled = map_option (\<lambda>v. v = boolTrue) enabled, gh_Token = open_secret box token,
         gh_Org = string_or_empty org, gh_WebhookSecret = string_or_empty hook \<rparr>)))))"

definition SetGitHubConfig :: "Box option \<Rightarrow> SetGitHubConfigInput \<Rightarrow> string option dbp" where
  "SetGitHubConfig box i =
     WithTx (db_steps
       ((case gi_Enabled i of Some b \<Rightarrow> [db_step ''db: set github_mirror_enabled: '' (db_done (DSet SettingGitHubMirrorEnabled (bool_setting b)))] | None \<Rightarrow> []) @
        (case gi_Org i of Some v \<Rightarrow> [db_step ''db: set github_org: '' (db_done (DSet SettingGitHubOrg v))] | None \<Rightarrow> []) @
        (case gi_WebhookSecret i of Some v \<Rightarrow> [db_step ''db: set github_webhook_secret: '' (db_done (DSet SettingGitHubWebhookSecret v))] | None \<Rightarrow> []) @
        [secret_step box SettingGitHubToken ''github token'' (gi_ClearToken i) (gi_Token i)]))"

section \<open>Domain\<close>

record DomainConfig =
  dc_BaseDomain :: "string option"
  dc_ControlBaseURL :: "string option"

definition GetDomainConfig :: "(string + DomainConfig) dbp" where
  "GetDomainConfig =
     bind (getSetting SettingBaseDomain) (\<lambda>r. case r of Inl m \<Rightarrow> Ret (Inl m) | Inr base \<Rightarrow>
     bind (getSetting SettingControlBaseURL) (\<lambda>r. case r of Inl m \<Rightarrow> Ret (Inl m) | Inr control \<Rightarrow>
       Ret (Inr \<lparr> dc_BaseDomain = base, dc_ControlBaseURL = control \<rparr>)))"

definition plain_step :: "string \<Rightarrow> string option \<Rightarrow> string option dbp list" where
  "plain_step key v = (case v of Some s \<Rightarrow> [db_step (''db: set '' @ key @ '': '') (setOrDeleteSetting key s)] | None \<Rightarrow> [])"

text \<open>The argument has the two optional fields of \<open>SetDomainConfigInput\<close>.\<close>

definition SetDomainConfig :: "DomainConfig \<Rightarrow> string option dbp" where
  "SetDomainConfig i =
     WithTx (db_steps (plain_step SettingBaseDomain (dc_BaseDomain i) @ plain_step SettingControlBaseURL (dc_ControlBaseURL i)))"

section \<open>OIDC\<close>

record OIDCConfig =
  od_Enabled :: "bool option"
  od_Issuer :: "string option"
  od_ClientID :: "string option"
  od_ClientSecret :: "string option"
  od_RedirectURL :: "string option"
  od_AllowedEmails :: "string option"
  od_AllowedDomains :: "string option"
  od_AdminEmails :: "string option"

record SetOIDCConfigInput = OIDCConfig +
  oi_ClearClientSecret :: bool

primrec getSettings :: "string list \<Rightarrow> (string + string option list) dbp" where
  "getSettings [] = Ret (Inr [])"
| "getSettings (k # ks) =
     bind (getSetting k) (\<lambda>r. case r of Inl m \<Rightarrow> Ret (Inl m) | Inr v \<Rightarrow>
     bind (getSettings ks) (\<lambda>r. case r of Inl m \<Rightarrow> Ret (Inl m) | Inr vs \<Rightarrow> Ret (Inr (v # vs))))"

definition oidc_plain_keys :: "string list" where
  "oidc_plain_keys = [SettingOIDCIssuer, SettingOIDCClientID, SettingOIDCRedirectURL, SettingOIDCAllowedEmails,
     SettingOIDCAllowedDomains, SettingOIDCAdminEmails]"

definition GetOIDCConfig :: "Box option \<Rightarrow> (string + OIDCConfig) dbp" where
  "GetOIDCConfig box =
     bind (getSetting SettingOIDCEnabled) (\<lambda>r. case r of Inl m \<Rightarrow> Ret (Inl m) | Inr enabled \<Rightarrow>
     bind (getSettings oidc_plain_keys) (\<lambda>r. case r of Inl m \<Rightarrow> Ret (Inl m) | Inr fs \<Rightarrow>
     bind (getSetting SettingOIDCClientSecret) (\<lambda>r. case r of Inl m \<Rightarrow> Ret (Inl m) | Inr secret \<Rightarrow>
       Ret (Inr \<lparr> od_Enabled = map_option (\<lambda>v. v = boolTrue) enabled, od_Issuer = fs ! 0, od_ClientID = fs ! 1,
         od_ClientSecret = open_secret box secret, od_RedirectURL = fs ! 2, od_AllowedEmails = fs ! 3,
         od_AllowedDomains = fs ! 4, od_AdminEmails = fs ! 5 \<rparr>))))"

definition SetOIDCConfig :: "Box option \<Rightarrow> SetOIDCConfigInput \<Rightarrow> string option dbp" where
  "SetOIDCConfig box i =
     WithTx (db_steps
       ((case od_Enabled i of Some b \<Rightarrow> [db_step ''db: set oidc_enabled: '' (db_done (DSet SettingOIDCEnabled (bool_setting b)))] | None \<Rightarrow> []) @
        plain_step SettingOIDCIssuer (od_Issuer i) @ plain_step SettingOIDCClientID (od_ClientID i) @
        plain_step SettingOIDCRedirectURL (od_RedirectURL i) @ plain_step SettingOIDCAllowedEmails (od_AllowedEmails i) @
        plain_step SettingOIDCAllowedDomains (od_AllowedDomains i) @ plain_step SettingOIDCAdminEmails (od_AdminEmails i) @
        [secret_step box SettingOIDCClientSecret ''oidc client secret'' (oi_ClearClientSecret i) (od_ClientSecret i)]))"

end
