(* ===== verification/Settings_Props.thy ===== *)
theory Settings_Props
  imports Settings_Store
begin

text \<open>
  What the settings operations guarantee on a database with transactions in which any statement
  may fail: an update happens as a whole or not at all, what is written is read back, and
  secrets are stored sealed only.
\<close>

section \<open>The database as a world\<close>

record db_world =
  dw_rows :: "(string, string) gomap"
  dw_tx :: "(string, string) gomap option"
  dw_rand :: "nat \<Rightarrow> string"

definition db_effect :: "db_world \<Rightarrow> db_req \<Rightarrow> db_world \<times> db_ans" where
  "db_effect w r =
     (case r of
        DBegin \<Rightarrow> (w\<lparr> dw_tx := Some (dw_rows w) \<rparr>, DOk None)
      | DCommit \<Rightarrow>
          (case dw_tx w of
             Some m \<Rightarrow> (w\<lparr> dw_rows := m, dw_tx := None \<rparr>, DOk None)
           | None \<Rightarrow> (w, DOk (Some ErrTxClosed)))
      | DRollback \<Rightarrow> (w\<lparr> dw_tx := None \<rparr>, DOk (if dw_tx w = None then Some ErrTxClosed else None))
      | DGet k \<Rightarrow> (w, DValue (case gm_get (dw_rows w) k of None \<Rightarrow> Inl NoRows | Some v \<Rightarrow> Inr v))
      | DSet k v \<Rightarrow> (w\<lparr> dw_tx := map_option (gm_put k v) (dw_tx w) \<rparr>, DOk (if dw_tx w = None then Some ErrTxClosed else None))
      | DDelete k \<Rightarrow> (w\<lparr> dw_tx := map_option (gm_del k) (dw_tx w) \<rparr>, DOk (if dw_tx w = None then Some ErrTxClosed else None))
      | DPut k v \<Rightarrow> (w\<lparr> dw_rows := gm_put k v (dw_rows w) \<rparr>, DOk None)
      | DRandom n \<Rightarrow> (w, DBytes (Inr (dw_rand w n))))"

lemma db_effect_simps [simp]:
  "db_effect w DBegin = (w\<lparr> dw_tx := Some (dw_rows w) \<rparr>, DOk None)"
  "dw_tx w = Some m \<Longrightarrow> db_effect w DCommit = (w\<lparr> dw_rows := m, dw_tx := None \<rparr>, DOk None)"
  "db_effect w DRollback = (w\<lparr> dw_tx := None \<rparr>, DOk (if dw_tx w = None then Some ErrTxClosed else None))"
  "db_effect w (DGet k) = (w, DValue (case gm_get (dw_rows w) k of None \<Rightarrow> Inl NoRows | Some v \<Rightarrow> Inr v))"
  "db_effect w (DSet k v) = (w\<lparr> dw_tx := map_option (gm_put k v) (dw_tx w) \<rparr>, DOk (if dw_tx w = None then Some ErrTxClosed else None))"
  "db_effect w (DDelete k) = (w\<lparr> dw_tx := map_option (gm_del k) (dw_tx w) \<rparr>, DOk (if dw_tx w = None then Some ErrTxClosed else None))"
  "db_effect w (DPut k v) = (w\<lparr> dw_rows := gm_put k v (dw_rows w) \<rparr>, DOk None)"
  "db_effect w (DRandom n) = (w, DBytes (Inr (dw_rand w n)))"
  by (simp_all add: db_effect_def)

definition db_failed :: "db_ans \<Rightarrow> db_ans" where
  "db_failed a =
     (case a of
        DValue _ \<Rightarrow> DValue (Inl (RowError ''fault''))
      | DOk _ \<Rightarrow> DOk (Some ''fault'')
      | DBytes _ \<Rightarrow> DBytes (Inl ''fault''))"

lemma db_failed_simps [simp]:
  "db_failed (DValue x) = DValue (Inl (RowError ''fault''))" "db_failed (DOk e) = DOk (Some ''fault'')" "db_failed (DBytes b) = DBytes (Inl ''fault'')"
  by (simp_all add: db_failed_def)

section \<open>Updates\<close>

text \<open>An update is a list of keys with their new values, \<open>None\<close> for a row that is removed.\<close>

type_synonym writes = "(string \<times> string option) list"

definition apply_write :: "string \<times> string option \<Rightarrow> (string, string) gomap \<Rightarrow> (string, string) gomap" where
  "apply_write kv m = (case snd kv of None \<Rightarrow> gm_del (fst kv) m | Some v \<Rightarrow> gm_put (fst kv) v m)"

definition apply_writes :: "writes \<Rightarrow> (string, string) gomap \<Rightarrow> (string, string) gomap" where
  "apply_writes ws m = fold apply_write ws m"

lemma get_apply_write: "gm_get (apply_write kv m) k = (if k = fst kv then snd kv else gm_get m k)"
  by (simp add: apply_write_def split: option.split)

lemma get_apply_writes: "gm_get (apply_writes ws m) k = (case map_of (rev ws) k of Some v \<Rightarrow> v | None \<Rightarrow> gm_get m k)"
  unfolding apply_writes_def
  by (induction ws arbitrary: m) (auto simp: get_apply_write map_add_def split: option.split)

text \<open>What a step writes, given the random source; \<open>None\<close> where it cannot succeed.\<close>

type_synonym step_spec = "(nat \<Rightarrow> string) \<Rightarrow> writes option"

definition both :: "step_spec \<Rightarrow> step_spec \<Rightarrow> step_spec" where
  "both s s' rnd = (case s rnd of None \<Rightarrow> None | Some l \<Rightarrow> map_option (\<lambda>l'. l @ l') (s' rnd))"

definition plain_writes :: "string \<Rightarrow> string option \<Rightarrow> writes" where
  "plain_writes key v = (case v of None \<Rightarrow> [] | Some s \<Rightarrow> [(key, if s = [] then None else Some s)])"

definition put_writes :: "string \<Rightarrow> string option \<Rightarrow> writes" where
  "put_writes key v = (case v of None \<Rightarrow> [] | Some s \<Rightarrow> [(key, Some s)])"

definition sealed :: "Box \<Rightarrow> string \<Rightarrow> string \<Rightarrow> string" where
  "sealed b nonce p = std_EncodeToString ((versionByte # nonce) @ ae_Seal (bx_aead b) nonce p)"

definition secret_spec :: "Box option \<Rightarrow> string \<Rightarrow> bool \<Rightarrow> string option \<Rightarrow> step_spec" where
  "secret_spec box key clear v rnd =
     (if clear then Some [(key, None)]
      else if v = None \<or> v = Some [] then Some []
      else
        (case box of
           None \<Rightarrow> None
         | Some b \<Rightarrow>
             if bx_sealDisabled b then None
             else Some [(key, Some (sealed b (rnd (ae_NonceSize (bx_aead b))) (string_or_empty v)))]))"

section \<open>Steps\<close>

text \<open>
  Within a transaction a step leaves the committed rows and the random source alone and, if it
  reports success, has made its writes; where nothing fails it succeeds when it can.
\<close>

definition in_tx :: "db_world \<Rightarrow> db_world \<Rightarrow> bool" where
  "in_tx w w' \<longleftrightarrow> dw_rows w' = dw_rows w \<and> dw_rand w' = dw_rand w \<and> dw_tx w' \<noteq> None"

definition has_written :: "writes option \<Rightarrow> (string, string) gomap \<Rightarrow> (string, string) gomap \<Rightarrow> bool" where
  "has_written s m m' \<longleftrightarrow> (\<exists>l. s = Some l \<and> m' = apply_writes l m)"

definition step_ok :: "string option dbp \<Rightarrow> step_spec \<Rightarrow> bool" where
  "step_ok p s \<longleftrightarrow> (\<forall>w m. dw_tx w = Some m \<longrightarrow>
     survives db_effect db_failed (\<lambda>w' e. in_tx w w' \<and> (e = None \<longrightarrow> has_written (s (dw_rand w)) m (the (dw_tx w')))) w p \<and>
     ends db_effect (\<lambda>w' e. in_tx w w' \<and> (e = None \<longleftrightarrow> s (dw_rand w) \<noteq> None)) w p)"

lemma step_okI:
  assumes "\<And>w m. dw_tx w = Some m \<Longrightarrow>
      survives db_effect db_failed (\<lambda>w' e. in_tx w w' \<and> (e = None \<longrightarrow> has_written (s (dw_rand w)) m (the (dw_tx w')))) w p"
    and "\<And>w m. dw_tx w = Some m \<Longrightarrow> ends db_effect (\<lambda>w' e. in_tx w w' \<and> (e = None \<longleftrightarrow> s (dw_rand w) \<noteq> None)) w p"
  shows "step_ok p s"
  unfolding step_ok_def using assms by blast

lemma step_okD:
  assumes "step_ok p s" and "dw_tx w = Some m"
  shows "survives db_effect db_failed (\<lambda>w' e. in_tx w w' \<and> (e = None \<longrightarrow> has_written (s (dw_rand w)) m (the (dw_tx w')))) w p"
    and "ends db_effect (\<lambda>w' e. in_tx w w' \<and> (e = None \<longleftrightarrow> s (dw_rand w) \<noteq> None)) w p"
  using assms unfolding step_ok_def by simp_all

lemmas step_defs = db_step_def db_done_def survives_bind ends_bind in_tx_def has_written_def apply_writes_def apply_write_def

lemma nothing_ok: "step_ok (Ret None) (\<lambda>_. Some [])"
  by (rule step_okI) (simp_all add: step_defs)

lemma set_ok: "step_ok (db_step what (db_done (DSet k v))) (\<lambda>_. Some [(k, Some v)])"
  by (rule step_okI) (simp_all add: step_defs)

lemma delete_ok: "step_ok (db_step what (db_done (DDelete k))) (\<lambda>_. Some [(k, None)])"
  by (rule step_okI) (simp_all add: step_defs)

lemma one_step: "db_steps [p] = p"
proof -
  have "(\<lambda>e. case e of None \<Rightarrow> Ret None | Some m \<Rightarrow> Ret (Some m)) = (Ret :: string option \<Rightarrow> string option dbp)" by (rule ext) (simp split: option.split)
  then show ?thesis by (simp only: db_steps.simps bind_Ret)
qed

lemma plain_ok: "step_ok (db_steps (plain_step k v)) (\<lambda>_. Some (plain_writes k v))"
proof (cases v)
  case (Some s)
  have "step_ok (db_step what (setOrDeleteSetting k s)) (\<lambda>_. Some [(k, if s = [] then None else Some s)])" for what
    using set_ok delete_ok by (simp add: setOrDeleteSetting_def)
  then show ?thesis by (simp only: Some plain_step_def plain_writes_def option.case one_step)
qed (simp add: plain_step_def plain_writes_def nothing_ok)

lemma put_ok:
  "step_ok (db_steps (case v of Some x \<Rightarrow> [db_step what (db_done (DSet k (f x)))] | None \<Rightarrow> [])) (\<lambda>_. Some (put_writes k (map_option f v)))"
proof (cases v)
  case (Some s)
  then show ?thesis by (simp only: put_writes_def option.case option.map one_step set_ok)
qed (simp add: put_writes_def nothing_ok)

lemma secret_ok: "step_ok (secret_step box key label clear v) (secret_spec box key clear v)"
proof (cases "clear \<or> v = None \<or> v = Some []")
  case True
  then show ?thesis
    using delete_ok [of "''db: clear '' @ key @ '': ''" key] nothing_ok
    by (auto simp: secret_step_def secret_spec_def [abs_def])
next
  case False
  then obtain s where s: "\<not> clear" "v = Some s" "s \<noteq> []" by (cases v) auto
  show ?thesis
    by (rule step_okI; cases box)
       (use s in \<open>simp_all add: secret_step_def secret_spec_def box_Seal_def read_random_def step_defs sealed_def string_or_empty_def\<close>)
qed

lemma apply_writes_append [simp]: "apply_writes (a @ b) m = apply_writes b (apply_writes a m)"
  by (simp add: apply_writes_def)

text \<open>Steps in a row.\<close>

lemma step_ok_append:
  assumes "step_ok (db_steps ps) s" and "step_ok (db_steps qs) s'"
  shows "step_ok (db_steps (ps @ qs)) (both s s')"
proof -
  have run: "db_steps (ps @ qs) = bind (db_steps ps) (\<lambda>e. case e of Some m \<Rightarrow> Ret (Some m) | None \<Rightarrow> db_steps qs)"
    by (induction ps) (simp_all add: bind_assoc, auto intro!: arg_cong2 [where f = bind] ext split: option.split)
  show ?thesis
  proof (rule step_okI)
    fix w :: db_world and m assume tx: "dw_tx w = Some m"
    show "survives db_effect db_failed (\<lambda>w' e. in_tx w w' \<and> (e = None \<longrightarrow> has_written (both s s' (dw_rand w)) m (the (dw_tx w')))) w (db_steps (ps @ qs))"
      unfolding run
    proof (rule survives_bindI [OF step_okD(1) [OF assms(1) tx]])
      fix w1 and e :: "string option"
      assume w1: "in_tx w w1 \<and> (e = None \<longrightarrow> has_written (s (dw_rand w)) m (the (dw_tx w1)))"
      then obtain m1 where m1: "dw_tx w1 = Some m1" by (auto simp: in_tx_def)
      show "survives db_effect db_failed (\<lambda>w' e. in_tx w w' \<and> (e = None \<longrightarrow> has_written (both s s' (dw_rand w)) m (the (dw_tx w')))) w1
          (case e of Some m \<Rightarrow> Ret (Some m) | None \<Rightarrow> db_steps qs)"
        using w1 m1 by (cases e) (auto simp: both_def in_tx_def has_written_def intro!: survives_mono [OF step_okD(1) [OF assms(2) m1]])
    qed
    show "ends db_effect (\<lambda>w' e. in_tx w w' \<and> (e = None \<longleftrightarrow> both s s' (dw_rand w) \<noteq> None)) w (db_steps (ps @ qs))"
      unfolding run
    proof (rule ends_bindI [OF step_okD(2) [OF assms(1) tx]])
      fix w1 and e :: "string option"
      assume w1: "in_tx w w1 \<and> (e = None \<longleftrightarrow> s (dw_rand w) \<noteq> None)"
      then obtain m1 where m1: "dw_tx w1 = Some m1" by (auto simp: in_tx_def)
      show "ends db_effect (\<lambda>w' e. in_tx w w' \<and> (e = None \<longleftrightarrow> both s s' (dw_rand w) \<noteq> None)) w1 (case e of Some m \<Rightarrow> Ret (Some m) | None \<Rightarrow> db_steps qs)"
        using w1 m1 by (cases e) (auto simp: both_def in_tx_def intro!: ends_mono [OF step_okD(2) [OF assms(2) m1]] split: option.splits)
    qed
  qed
qed

text \<open>A transaction: all of its writes, or none.\<close>

definition atomic :: "writes option \<Rightarrow> db_world \<Rightarrow> db_world \<Rightarrow> string option \<Rightarrow> bool" where
  "atomic s w w' e \<longleftrightarrow>
     (dw_rows w' = dw_rows w \<or> has_written s (dw_rows w) (dw_rows w')) \<and> (e = None \<longrightarrow> has_written s (dw_rows w) (dw_rows w'))"

lemma survives_begin:
  "survives db_effect db_failed Q w (bind (db_done DBegin) f) \<longleftrightarrow>
     survives db_effect db_failed Q (w\<lparr> dw_tx := Some (dw_rows w) \<rparr>) (f None) \<and> survives db_effect db_failed Q w (f (Some ''fault'')) \<and>
     survives db_effect db_failed Q (w\<lparr> dw_tx := Some (dw_rows w) \<rparr>) (f (Some ''fault''))"
  by (simp add: db_done_def)

lemma ends_begin: "ends db_effect Q w (bind (db_done DBegin) f) \<longleftrightarrow> ends db_effect Q (w\<lparr> dw_tx := Some (dw_rows w) \<rparr>) (f None)"
  by (simp add: db_done_def)

lemma withTx_atomic:
  assumes "step_ok p s"
  shows "survives db_effect db_failed (atomic (s (dw_rand w)) w) w (WithTx p)"
    and "ends db_effect (\<lambda>w' e. dw_rand w' = dw_rand w \<and> (e = None \<longleftrightarrow> s (dw_rand w) \<noteq> None)) w (WithTx p)"
proof -
  let ?w = "w\<lparr> dw_tx := Some (dw_rows w) \<rparr>"
  let ?commit = "\<lambda>e. case e of Some err \<Rightarrow> roll_back err
      | None \<Rightarrow> bind (db_done DCommit) (\<lambda>e. case e of Some m \<Rightarrow> roll_back (''db: commit: '' @ m) | None \<Rightarrow> Ret None)"
  have tx: "dw_tx ?w = Some (dw_rows w)" by simp
  have "survives db_effect db_failed (atomic (s (dw_rand w)) w) ?w (bind p ?commit)"
    by (rule survives_bindI [OF step_okD(1) [OF assms tx]])
       (auto simp: roll_back_def db_done_def survives_bind atomic_def in_tx_def has_written_def split: option.split)
  then show "survives db_effect db_failed (atomic (s (dw_rand w)) w) w (WithTx p)"
    unfolding WithTx_def survives_begin option.case by (intro conjI; (assumption | simp add: atomic_def))
  have "ends db_effect (\<lambda>w' e. dw_rand w' = dw_rand w \<and> (e = None \<longleftrightarrow> s (dw_rand w) \<noteq> None)) ?w (bind p ?commit)"
    by (rule ends_bindI [OF step_okD(2) [OF assms tx]])
       (auto simp: roll_back_def db_done_def ends_bind in_tx_def split: option.split)
  then show "ends db_effect (\<lambda>w' e. dw_rand w' = dw_rand w \<and> (e = None \<longleftrightarrow> s (dw_rand w) \<noteq> None)) w (WithTx p)"
    unfolding WithTx_def ends_begin option.case .
qed

section \<open>The operations\<close>

datatype settings_op =
    SetGitHub SetGitHubConfigInput
  | SetDomain DomainConfig
  | SetOIDC SetOIDCConfigInput
  | SetPassword string

definition settings_call :: "Box option \<Rightarrow> settings_op \<Rightarrow> string option dbp" where
  "settings_call box op =
     (case op of
        SetGitHub i \<Rightarrow> SetGitHubConfig box i
      | SetDomain i \<Rightarrow> SetDomainConfig i
      | SetOIDC i \<Rightarrow> SetOIDCConfig box i
      | SetPassword h \<Rightarrow> SetAdminPasswordHash h)"

text \<open>What an operation writes; \<open>None\<close> where a secret cannot be sealed.\<close>

definition settings_writes :: "Box option \<Rightarrow> settings_op \<Rightarrow> step_spec" where
  "settings_writes box op rnd =
     (case op of
        SetGitHub i \<Rightarrow>
          map_option (\<lambda>l. put_writes SettingGitHubMirrorEnabled (map_option bool_setting (gi_Enabled i)) @ put_writes SettingGitHubOrg (gi_Org i) @
              put_writes SettingGitHubWebhookSecret (gi_WebhookSecret i) @ l)
            (secret_spec box SettingGitHubToken (gi_ClearToken i) (gi_Token i) rnd)
      | SetDomain i \<Rightarrow> Some (plain_writes SettingBaseDomain (dc_BaseDomain i) @ plain_writes SettingControlBaseURL (dc_ControlBaseURL i))
      | SetOIDC i \<Rightarrow>
          map_option (\<lambda>l. put_writes SettingOIDCEnabled (map_option bool_setting (od_Enabled i)) @
              plain_writes SettingOIDCIssuer (od_Issuer i) @ plain_writes SettingOIDCClientID (od_ClientID i) @
              plain_writes SettingOIDCRedirectURL (od_RedirectURL i) @ plain_writes SettingOIDCAllowedEmails (od_AllowedEmails i) @
              plain_writes SettingOIDCAllowedDomains (od_AllowedDomains i) @ plain_writes SettingOIDCAdminEmails (od_AdminEmails i) @ l)
            (secret_spec box SettingOIDCClientSecret (oi_ClearClientSecret i) (od_ClientSecret i) rnd)
      | SetPassword h \<Rightarrow> Some [(SettingAdminPasswordHash, Some h)])"

lemma step_ok_eq: "step_ok p s \<Longrightarrow> (\<And>rnd. s rnd = s' rnd) \<Longrightarrow> step_ok p s'"
  by (simp add: step_ok_def)

lemma put_id_ok:
  "step_ok (db_steps (case v of Some x \<Rightarrow> [db_step what (db_done (DSet k x))] | None \<Rightarrow> [])) (\<lambda>_. Some (put_writes k v))"
  using put_ok [where f = "\<lambda>x. x" and v = v] by (simp add: option.map_ident)

lemma secret_last: "step_ok (db_steps [secret_step box key label clear v]) (secret_spec box key clear v)"
  unfolding one_step by (rule secret_ok)

lemmas step_chain = step_ok_append plain_ok put_ok put_id_ok secret_last

lemma settings_call_atomic:
  "survives db_effect db_failed (atomic (settings_writes box op (dw_rand w)) w) w (settings_call box op)"
  "ends db_effect (\<lambda>w' e. dw_rand w' = dw_rand w \<and> (e = None \<longleftrightarrow> settings_writes box op (dw_rand w) \<noteq> None)) w (settings_call box op)"
proof -
  have tx: "survives db_effect db_failed (atomic (settings_writes box op (dw_rand w)) w) w (WithTx p) \<and>
      ends db_effect (\<lambda>w' e. dw_rand w' = dw_rand w \<and> (e = None \<longleftrightarrow> settings_writes box op (dw_rand w) \<noteq> None)) w (WithTx p)"
    if "step_ok p s" "\<And>rnd. s rnd = settings_writes box op rnd" for p s
    using withTx_atomic [OF step_ok_eq [OF that]] by simp
  have "survives db_effect db_failed (atomic (settings_writes box op (dw_rand w)) w) w (settings_call box op) \<and>
    ends db_effect (\<lambda>w' e. dw_rand w' = dw_rand w \<and> (e = None \<longleftrightarrow> settings_writes box op (dw_rand w) \<noteq> None)) w (settings_call box op)"
  proof (cases op)
    case (SetGitHub i)
    show ?thesis
      unfolding settings_call_def SetGitHub settings_op.case SetGitHubConfig_def
      by (rule tx [unfolded SetGitHub], (rule step_chain)+)
         (simp add: both_def settings_writes_def option.map_comp comp_def map_option_case split: option.split)
  next
    case (SetDomain i)
    show ?thesis
      unfolding settings_call_def SetDomain settings_op.case SetDomainConfig_def
      by (rule tx [unfolded SetDomain], (rule step_chain)+) (simp add: both_def settings_writes_def)
  next
    case (SetOIDC i)
    show ?thesis
      unfolding settings_call_def SetOIDC settings_op.case SetOIDCConfig_def
      by (rule tx [unfolded SetOIDC], (rule step_chain)+)
         (simp add: both_def settings_writes_def option.map_comp comp_def map_option_case split: option.split)
  next
    case (SetPassword h)
    show ?thesis
      unfolding settings_call_def SetPassword settings_op.case SetAdminPasswordHash_def
      by (simp add: db_done_def settings_writes_def atomic_def has_written_def apply_writes_def apply_write_def)
  qed
  then show "survives db_effect db_failed (atomic (settings_writes box op (dw_rand w)) w) w (settings_call box op)"
    "ends db_effect (\<lambda>w' e. dw_rand w' = dw_rand w \<and> (e = None \<longleftrightarrow> settings_writes box op (dw_rand w) \<noteq> None)) w (settings_call box op)"
    by simp_all
qed

section \<open>Reading back\<close>

definition read_github :: "Box option \<Rightarrow> (string, string) gomap \<Rightarrow> GitHubConfig" where
  "read_github box m =
     \<lparr> gh_Enabled = map_option (\<lambda>v. v = boolTrue) (gm_get m SettingGitHubMirrorEnabled), gh_Token = open_secret box (gm_get m SettingGitHubToken),
       gh_Org = string_or_empty (gm_get m SettingGitHubOrg), gh_WebhookSecret = string_or_empty (gm_get m SettingGitHubWebhookSecret) \<rparr>"

definition read_domain :: "(string, string) gomap \<Rightarrow> DomainConfig" where
  "read_domain m = \<lparr> dc_BaseDomain = gm_get m SettingBaseDomain, dc_ControlBaseURL = gm_get m SettingControlBaseURL \<rparr>"

definition read_oidc :: "Box option \<Rightarrow> (string, string) gomap \<Rightarrow> OIDCConfig" where
  "read_oidc box m =
     \<lparr> od_Enabled = map_option (\<lambda>v. v = boolTrue) (gm_get m SettingOIDCEnabled), od_Issuer = gm_get m SettingOIDCIssuer,
       od_ClientID = gm_get m SettingOIDCClientID, od_ClientSecret = open_secret box (gm_get m SettingOIDCClientSecret),
       od_RedirectURL = gm_get m SettingOIDCRedirectURL, od_AllowedEmails = gm_get m SettingOIDCAllowedEmails,
       od_AllowedDomains = gm_get m SettingOIDCAllowedDomains, od_AdminEmails = gm_get m SettingOIDCAdminEmails \<rparr>"

lemma ends_getSetting: "ends db_effect Q w (bind (getSetting k) f) = ends db_effect Q w (f (Inr (gm_get (dw_rows w) k)))"
  by (simp add: getSetting_def GetInstanceSetting_def ends_bind split: option.split)

lemma ends_get_github: "ends db_effect Q w (GetGitHubConfig box) = Q w (Inr (read_github box (dw_rows w)))"
  by (simp add: GetGitHubConfig_def ends_getSetting read_github_def)

lemma ends_get_domain: "ends db_effect Q w GetDomainConfig = Q w (Inr (read_domain (dw_rows w)))"
  by (simp add: GetDomainConfig_def ends_getSetting read_domain_def)

lemma ends_get_oidc: "ends db_effect Q w (GetOIDCConfig box) = Q w (Inr (read_oidc box (dw_rows w)))"
  by (simp add: GetOIDCConfig_def oidc_plain_keys_def ends_getSetting bind_assoc read_oidc_def)

text \<open>What an update makes of a plain field, of a flag and of a secret.\<close>

definition new_plain :: "string option \<Rightarrow> string option \<Rightarrow> string option" where
  "new_plain v old = (case v of None \<Rightarrow> old | Some s \<Rightarrow> if s = [] then None else Some s)"

definition new_value :: "'a option \<Rightarrow> 'a option \<Rightarrow> 'a option" where
  "new_value v old = (case v of None \<Rightarrow> old | Some s \<Rightarrow> Some s)"

definition new_secret :: "bool \<Rightarrow> string option \<Rightarrow> string option \<Rightarrow> string option" where
  "new_secret clear v old = (if clear then None else if v = None \<or> v = Some [] then old else v)"

definition updated_github :: "SetGitHubConfigInput \<Rightarrow> GitHubConfig \<Rightarrow> GitHubConfig" where
  "updated_github i old =
     \<lparr> gh_Enabled = new_value (gi_Enabled i) (gh_Enabled old), gh_Token = new_secret (gi_ClearToken i) (gi_Token i) (gh_Token old),
       gh_Org = string_or_empty (new_value (gi_Org i) (Some (gh_Org old))),
       gh_WebhookSecret = string_or_empty (new_value (gi_WebhookSecret i) (Some (gh_WebhookSecret old))) \<rparr>"

definition updated_domain :: "DomainConfig \<Rightarrow> DomainConfig \<Rightarrow> DomainConfig" where
  "updated_domain i old =
     \<lparr> dc_BaseDomain = new_plain (dc_BaseDomain i) (dc_BaseDomain old), dc_ControlBaseURL = new_plain (dc_ControlBaseURL i) (dc_ControlBaseURL old) \<rparr>"

definition updated_oidc :: "SetOIDCConfigInput \<Rightarrow> OIDCConfig \<Rightarrow> OIDCConfig" where
  "updated_oidc i old =
     \<lparr> od_Enabled = new_value (od_Enabled i) (od_Enabled old), od_Issuer = new_plain (od_Issuer i) (od_Issuer old),
       od_ClientID = new_plain (od_ClientID i) (od_ClientID old),
       od_ClientSecret = new_secret (oi_ClearClientSecret i) (od_ClientSecret i) (od_ClientSecret old),
       od_RedirectURL = new_plain (od_RedirectURL i) (od_RedirectURL old), od_AllowedEmails = new_plain (od_AllowedEmails i) (od_AllowedEmails old),
       od_AllowedDomains = new_plain (od_AllowedDomains i) (od_AllowedDomains old), od_AdminEmails = new_plain (od_AdminEmails i) (od_AdminEmails old) \<rparr>"

text \<open>Single updates on the table.\<close>

lemma get_plain_writes: "gm_get (apply_writes (plain_writes key v) m) k = (if k = key then new_plain v (gm_get m key) else gm_get m k)"
  by (simp add: plain_writes_def new_plain_def apply_writes_def get_apply_write split: option.split)

lemma get_put_writes: "gm_get (apply_writes (put_writes key v) m) k = (if k = key then new_value v (gm_get m key) else gm_get m k)"
  by (simp add: put_writes_def new_value_def apply_writes_def get_apply_write split: option.split)

lemma get_secret_writes_other: "secret_spec box key clear v rnd = Some l \<Longrightarrow> k \<noteq> key \<Longrightarrow> gm_get (apply_writes l m) k = gm_get m k"
  by (auto simp: secret_spec_def apply_writes_def get_apply_write split: if_splits option.splits)

lemma sealed_ne: "sealed b nonce p \<noteq> []"
  unfolding sealed_def by (rule std_Encode_ne) simp

lemma get_secret_writes:
  assumes "aead_ok (bx_aead b)" and "length (rnd (ae_NonceSize (bx_aead b))) = ae_NonceSize (bx_aead b)"
    and "secret_spec (Some b) key clear v rnd = Some l"
  shows "open_secret (Some b) (gm_get (apply_writes l m) key) = new_secret clear v (open_secret (Some b) (gm_get m key))"
proof (cases "clear \<or> v = None \<or> v = Some []")
  case True
  then show ?thesis using assms(3) by (auto simp: secret_spec_def new_secret_def apply_writes_def apply_write_def open_secret_def)
next
  case False
  then obtain p where p: "\<not> clear" "v = Some p" "p \<noteq> []" by (cases v) auto
  have "box_Open b (sealed b (rnd (ae_NonceSize (bx_aead b))) p) = Some p"
    unfolding sealed_def by (rule open_sealed [OF assms(1,2)])
  then show ?thesis
    using p assms(3) sealed_ne
    by (auto simp: secret_spec_def new_secret_def apply_writes_def apply_write_def open_secret_def string_or_empty_def split: if_splits)
qed

lemma bool_setting_iff [simp]: "bool_setting b = boolTrue \<longleftrightarrow> b"
  by (simp add: bool_setting_def boolTrue_def boolFalse_def)

lemma new_value_bool: "map_option (\<lambda>v. v = boolTrue) (new_value (map_option bool_setting v) old) = new_value v (map_option (\<lambda>v. v = boolTrue) old)"
  by (cases v) (simp_all add: new_value_def)

lemma new_value_empty: "string_or_empty (new_value v old) = string_or_empty (new_value v (Some (string_or_empty old)))"
  by (cases v) (simp_all add: new_value_def string_or_empty_def)

lemma read_github_updated:
  assumes "aead_ok (bx_aead b)" and "length (rnd (ae_NonceSize (bx_aead b))) = ae_NonceSize (bx_aead b)"
    and "settings_writes (Some b) (SetGitHub i) rnd = Some l"
  shows "read_github (Some b) (apply_writes l m) = updated_github i (read_github (Some b) m)"
proof -
  obtain l' where l': "secret_spec (Some b) SettingGitHubToken (gi_ClearToken i) (gi_Token i) rnd = Some l'"
    "l = put_writes SettingGitHubMirrorEnabled (map_option bool_setting (gi_Enabled i)) @ put_writes SettingGitHubOrg (gi_Org i) @
      put_writes SettingGitHubWebhookSecret (gi_WebhookSecret i) @ l'"
    using assms(3) by (auto simp: settings_writes_def)
  show ?thesis
    using get_secret_writes [where b = b, OF assms(1) _ l'(1)] assms(2)
    by (simp add: l'(2) read_github_def updated_github_def get_put_writes get_secret_writes_other [OF l'(1)] new_value_bool setting_keys
        new_value_empty [of _ "gm_get m _"])
qed

lemma read_oidc_updated:
  assumes "aead_ok (bx_aead b)" and "length (rnd (ae_NonceSize (bx_aead b))) = ae_NonceSize (bx_aead b)"
    and "settings_writes (Some b) (SetOIDC i) rnd = Some l"
  shows "read_oidc (Some b) (apply_writes l m) = updated_oidc i (read_oidc (Some b) m)"
proof -
  obtain l' where l': "secret_spec (Some b) SettingOIDCClientSecret (oi_ClearClientSecret i) (od_ClientSecret i) rnd = Some l'"
    "l = put_writes SettingOIDCEnabled (map_option bool_setting (od_Enabled i)) @
      plain_writes SettingOIDCIssuer (od_Issuer i) @ plain_writes SettingOIDCClientID (od_ClientID i) @
      plain_writes SettingOIDCRedirectURL (od_RedirectURL i) @ plain_writes SettingOIDCAllowedEmails (od_AllowedEmails i) @
      plain_writes SettingOIDCAllowedDomains (od_AllowedDomains i) @ plain_writes SettingOIDCAdminEmails (od_AdminEmails i) @ l'"
    using assms(3) by (auto simp: settings_writes_def)
  show ?thesis
    using get_secret_writes [where b = b, OF assms(1) _ l'(1)] assms(2)
    by (simp add: l'(2) read_oidc_def updated_oidc_def get_put_writes get_plain_writes get_secret_writes_other [OF l'(1)] new_value_bool setting_keys)
qed

lemma read_domain_updated:
  "settings_writes box (SetDomain i) rnd = Some l \<Longrightarrow> read_domain (apply_writes l m) = updated_domain i (read_domain m)"
  by (auto simp: setting_keys settings_writes_def read_domain_def updated_domain_def get_plain_writes)

lemma ends_conj: "ends h Q w p \<Longrightarrow> ends h R w p \<Longrightarrow> ends h (\<lambda>w' x. Q w' x \<and> R w' x) w p"
  by (simp add: ends_def split: prod.splits)

lemma writes_possible: "\<not> bx_sealDisabled b \<Longrightarrow> settings_writes (Some b) op rnd \<noteq> None"
  by (cases op) (auto simp: settings_writes_def secret_spec_def)

lemma settings_call_done:
  assumes "\<not> bx_sealDisabled b" and "\<And>l. settings_writes (Some b) op (dw_rand w) = Some l \<Longrightarrow> R (apply_writes l (dw_rows w))"
  shows "ends db_effect (\<lambda>w' e. e = None \<and> R (dw_rows w')) w (settings_call (Some b) op)"
  using ends_conj [OF survives_ends [OF settings_call_atomic(1)] settings_call_atomic(2)]
  by (rule ends_mono) (use assms writes_possible [OF assms(1), of op "dw_rand w"] in \<open>auto simp: atomic_def has_written_def\<close>)

text \<open>
  C26: Whatever fails: after an update of the settings the table has all of the changes, or is as it was;
  when the update reports success it has them.
\<close>

theorem settings_atomic:
  "survives db_effect db_failed (\<lambda>w' e.
      (dw_rows w' = dw_rows w \<or> (\<exists>l. settings_writes box op (dw_rand w) = Some l \<and> dw_rows w' = apply_writes l (dw_rows w))) \<and>
      (e = None \<longrightarrow> (\<exists>l. settings_writes box op (dw_rand w) = Some l \<and> dw_rows w' = apply_writes l (dw_rows w))))
    w (settings_call box op)"
  using settings_call_atomic(1) [of box op w] by (simp add: atomic_def [abs_def] has_written_def)

theorem settings_atomic_witness:
  "(\<exists>l. settings_writes (Some example_box) (SetPassword ''h'') (\<lambda>n. replicate n CHR ''r'') = Some l) \<and>
   survives db_effect db_failed (\<lambda>w' e. dw_rows w' = [] \<or> dw_rows w' = [(SettingAdminPasswordHash, ''h'')])
     \<lparr> dw_rows = [], dw_tx = None, dw_rand = (\<lambda>n. replicate n CHR ''r'') \<rparr> (settings_call (Some example_box) (SetPassword ''h''))"
  using settings_atomic [of "\<lparr> dw_rows = [], dw_tx = None, dw_rand = (\<lambda>n. replicate n CHR ''r'') \<rparr>" "Some example_box" "SetPassword ''h''"]
  by (auto simp: settings_writes_def apply_writes_def apply_write_def gm_put_def gm_del_def elim!: survives_mono)

text \<open>
  C27: With a box that may seal, and where nothing fails, an update of the OIDC, GitHub or domain settings
  succeeds and the next read returns each field as updated: an absent field is as before, an
  empty plain field is unset, a secret comes back as it was given unless it was cleared or left empty.
\<close>

theorem settings_roundtrip:
  assumes "aead_ok (bx_aead b)" and "\<not> bx_sealDisabled b" and "\<And>n. length (dw_rand w n) = n"
  shows "ends db_effect (\<lambda>w1 e. e = None \<and>
        ends db_effect (\<lambda>_ r. r = Inr (updated_oidc i (read_oidc (Some b) (dw_rows w)))) w1 (GetOIDCConfig (Some b))) w (SetOIDCConfig (Some b) i) \<and>
    ends db_effect (\<lambda>w1 e. e = None \<and>
        ends db_effect (\<lambda>_ r. r = Inr (updated_github j (read_github (Some b) (dw_rows w)))) w1 (GetGitHubConfig (Some b))) w (SetGitHubConfig (Some b) j) \<and>
    ends db_effect (\<lambda>w1 e. e = None \<and>
        ends db_effect (\<lambda>_ r. r = Inr (updated_domain k (read_domain (dw_rows w)))) w1 GetDomainConfig) w (SetDomainConfig k)"
  unfolding ends_get_oidc ends_get_github ends_get_domain
  using settings_call_done [OF assms(2), of "SetOIDC i" w "\<lambda>m. Inr (read_oidc (Some b) m) = (Inr (updated_oidc i (read_oidc (Some b) (dw_rows w))) :: string + _)"]
    settings_call_done [OF assms(2), of "SetGitHub j" w "\<lambda>m. Inr (read_github (Some b) m) = (Inr (updated_github j (read_github (Some b) (dw_rows w))) :: string + _)"]
    settings_call_done [OF assms(2), of "SetDomain k" w "\<lambda>m. Inr (read_domain m) = (Inr (updated_domain k (read_domain (dw_rows w))) :: string + _)"]
    read_oidc_updated [OF assms(1), of "dw_rand w" i] read_github_updated [OF assms(1), of "dw_rand w" j] read_domain_updated [of "Some b" k] assms(3)
  by (simp add: settings_call_def)

definition example_db :: "(string, string) gomap \<Rightarrow> db_world" where
  "example_db m = \<lparr> dw_rows = m, dw_tx = None, dw_rand = (\<lambda>n. replicate n CHR ''r'') \<rparr>"

definition example_oidc :: SetOIDCConfigInput where
  "example_oidc = \<lparr> od_Enabled = Some True, od_Issuer = Some ''https://id'', od_ClientID = None, od_ClientSecret = Some ''secret'',
     od_RedirectURL = Some [], od_AllowedEmails = None, od_AllowedDomains = None, od_AdminEmails = None, oi_ClearClientSecret = False \<rparr>"

theorem settings_roundtrip_witness:
  "ends db_effect (\<lambda>w1 e. e = None \<and> ends db_effect (\<lambda>_ r. r = Inr
       \<lparr> od_Enabled = Some True, od_Issuer = Some ''https://id'', od_ClientID = Some ''c'', od_ClientSecret = Some ''secret'',
         od_RedirectURL = None, od_AllowedEmails = None, od_AllowedDomains = None, od_AdminEmails = None \<rparr>) w1 (GetOIDCConfig (Some example_box)))
     (example_db [(SettingOIDCClientID, ''c'')]) (SetOIDCConfig (Some example_box) example_oidc)"
proof -
  have b: "aead_ok (bx_aead example_box)" "\<not> bx_sealDisabled example_box" by (simp_all add: example_box_def example_aead_ok)
  have "updated_oidc example_oidc (read_oidc (Some example_box) (dw_rows (example_db [(SettingOIDCClientID, ''c'')]))) =
      \<lparr> od_Enabled = Some True, od_Issuer = Some ''https://id'', od_ClientID = Some ''c'', od_ClientSecret = Some ''secret'',
         od_RedirectURL = None, od_AllowedEmails = None, od_AllowedDomains = None, od_AdminEmails = None \<rparr>"
    by (simp add: updated_oidc_def read_oidc_def example_oidc_def example_db_def new_plain_def new_value_def new_secret_def
        gm_get_def setting_keys open_secret_def)
  then show ?thesis
    using settings_roundtrip [OF b, of "example_db [(SettingOIDCClientID, ''c'')]" example_oidc] by (simp add: example_db_def)
qed

section \<open>Secrets at rest\<close>

text \<open>The tables that calls of the operations lead to from an empty one, with any faults and any random bytes.\<close>

inductive settings_history :: "Box option \<Rightarrow> (string, string) gomap \<Rightarrow> bool" for box where
  no_call: "settings_history box []"
| one_call: "settings_history box (dw_rows w) \<Longrightarrow>
    exec (faulty db_effect db_failed) (w, fs) (settings_call box op) = ((w', fs'), e) \<Longrightarrow> settings_history box (dw_rows w')"

definition secret_keys :: "string set" where
  "secret_keys = {SettingGitHubToken, SettingOIDCClientSecret}"

definition sealed_value :: "Box option \<Rightarrow> string \<Rightarrow> bool" where
  "sealed_value box v \<longleftrightarrow> (\<exists>b nonce p. box = Some b \<and> \<not> bx_sealDisabled b \<and> v = sealed b nonce p)"

lemma sealed_valueI: "\<not> bx_sealDisabled b \<Longrightarrow> sealed_value (Some b) (sealed b nonce p)"
  unfolding sealed_value_def by blast

lemma writes_sealed:
  assumes "settings_writes box op rnd = Some l" and "key \<in> secret_keys"
    and "\<And>v. gm_get m key = Some v \<Longrightarrow> sealed_value box v" and "gm_get (apply_writes l m) key = Some v"
  shows "sealed_value box v"
proof -
  have secret: "sealed_value box v" if s: "secret_spec box k clear p rnd = Some l'" and g: "gm_get (apply_writes l' m') key = Some v"
    and "gm_get m' key = gm_get m key" for k clear p l' m'
  proof (cases "k = key \<and> (clear \<or> p \<noteq> None \<and> p \<noteq> Some [])")
    case True
    then show ?thesis
      using s g by (auto simp: secret_spec_def apply_writes_def apply_write_def intro: sealed_valueI split: if_splits option.splits)
  next
    case False
    then have "gm_get (apply_writes l' m') key = gm_get m' key"
      using s by (auto simp: secret_spec_def apply_writes_def get_apply_write split: if_splits option.splits)
    then show ?thesis using g that(3) assms(3) by simp
  qed
  have other: "gm_get (apply_writes (put_writes k x) m') key = gm_get m' key" "gm_get (apply_writes (plain_writes k x) m') key = gm_get m' key"
    if "k \<notin> secret_keys" for k x m'
    using that assms(2) by (auto simp: get_put_writes get_plain_writes)
  have keys: "SettingGitHubMirrorEnabled \<notin> secret_keys" "SettingGitHubOrg \<notin> secret_keys" "SettingGitHubWebhookSecret \<notin> secret_keys"
    "SettingBaseDomain \<notin> secret_keys" "SettingControlBaseURL \<notin> secret_keys" "SettingOIDCEnabled \<notin> secret_keys" "SettingOIDCIssuer \<notin> secret_keys"
    "SettingOIDCClientID \<notin> secret_keys" "SettingOIDCRedirectURL \<notin> secret_keys" "SettingOIDCAllowedEmails \<notin> secret_keys"
    "SettingOIDCAllowedDomains \<notin> secret_keys" "SettingOIDCAdminEmails \<notin> secret_keys" "SettingAdminPasswordHash \<notin> secret_keys"
    by (simp_all add: secret_keys_def setting_keys)
  show ?thesis
  proof (cases op)
    case (SetGitHub i)
    then show ?thesis using assms(1,4) secret by (auto simp: settings_writes_def other keys)
  next
    case (SetDomain i)
    then show ?thesis using assms(1,3,4) by (auto simp: settings_writes_def other keys)
  next
    case (SetOIDC i)
    then show ?thesis using assms(1,4) secret by (auto simp: settings_writes_def other keys)
  next
    case (SetPassword h)
    then have l: "l = put_writes SettingAdminPasswordHash (Some h)" using assms(1) by (simp add: settings_writes_def put_writes_def)
    show ?thesis using assms(3,4) unfolding l other(1) [OF keys(13)] by simp
  qed
qed

text \<open>
  C16: Whatever calls are made and whatever fails, the rows of the GitHub token and of the OIDC client
  secret hold a value that the box has sealed, or nothing: never a text that was given, and
  nothing at all without a box that may seal.
\<close>

theorem settings_secrets_sealed:
  assumes "settings_history box m" and "key = SettingGitHubToken \<or> key = SettingOIDCClientSecret" and "gm_get m key = Some v"
  shows "\<exists>b nonce p. box = Some b \<and> \<not> bx_sealDisabled b \<and>
    v = std_EncodeToString ((versionByte # nonce) @ ae_Seal (bx_aead b) nonce p)"
proof -
  have key: "key \<in> secret_keys" using assms(2) by (auto simp: secret_keys_def)
  have "\<forall>v. gm_get m key = Some v \<longrightarrow> sealed_value box v"
    using assms(1)
  proof induction
    case no_call
    then show ?case by simp
  next
    case (one_call w fs op w' fs' e)
    have "atomic (settings_writes box op (dw_rand w)) w w' e"
      using settings_call_atomic(1) [of box op w, unfolded survives_iff, rule_format, of fs] one_call.hyps(2) by (simp add: ends_def)
    then show ?case
      using one_call.IH writes_sealed [OF _ key, of box op "dw_rand w" _ "dw_rows w"]
      unfolding atomic_def has_written_def by metis
  qed
  then show ?thesis using assms(3) unfolding sealed_value_def sealed_def by blast
qed

theorem settings_secrets_sealed_witness:
  "\<exists>m v nonce p. settings_history (Some example_box) m \<and> gm_get m SettingOIDCClientSecret = Some v \<and>
     v = std_EncodeToString ((versionByte # nonce) @ ae_Seal (bx_aead example_box) nonce p)"
proof -
  obtain w fs e where run: "exec (faulty db_effect db_failed) (example_db [], []) (settings_call (Some example_box) (SetOIDC example_oidc)) = ((w, fs), e)"
    by (metis prod.collapse)
  have reach: "settings_history (Some example_box) (dw_rows w)"
    using settings_history.one_call [OF _ run] settings_history.no_call by (simp add: example_db_def)
  have clean: "exec (faulty h bad) (w0, []) p = ((fst (exec h w0 p), []), snd (exec h w0 p))" for h :: "db_world \<Rightarrow> db_req \<Rightarrow> _" and bad w0 and p :: "string option dbp"
    by (induction p arbitrary: w0) (simp_all add: faulty_def split: prod.split)
  have b: "\<not> bx_sealDisabled example_box" by (simp add: example_box_def)
  have "ends db_effect (\<lambda>w' e. e = None \<and> gm_get (dw_rows w') SettingOIDCClientSecret \<noteq> None) (example_db []) (settings_call (Some example_box) (SetOIDC example_oidc))"
  proof (rule settings_call_done [OF b])
    fix l assume "settings_writes (Some example_box) (SetOIDC example_oidc) (dw_rand (example_db [])) = Some l"
    then show "gm_get (apply_writes l (dw_rows (example_db []))) SettingOIDCClientSecret \<noteq> None"
      using b by (auto simp: settings_writes_def secret_spec_def example_oidc_def apply_writes_def get_apply_write)
  qed
  then obtain v where "gm_get (dw_rows w) SettingOIDCClientSecret = Some v"
    using run unfolding clean by (auto simp: ends_def split: prod.splits)
  then show ?thesis using settings_secrets_sealed [OF reach, of SettingOIDCClientSecret v] reach by auto
qed

end
