(* ===== verification/Domain_Config.thy ===== *)
theory Domain_Config
  imports Settings_Props Go_Http
begin

text \<open>
  The base domain and the control base URL (\<open>backend/internal/domaincfg/validate.go\<close>,
  \<open>domaincfg.go\<close>) and the administrator's update of them (\<open>backend/internal/api/admin_domain.go\<close>):
  the environment goes before the database, the database before what the request says. A request
  is given with a flag for TLS; the JSON body is given decoded. The audit row is left out.
\<close>

section \<open>Validation\<close>

definition maxHostnameLen :: nat where "maxHostnameLen = 253"
definition maxLabelLen :: nat where "maxLabelLen = 63"

definition dns_char :: "char \<Rightarrow> bool" where
  "dns_char c = (let n = (of_char c :: nat) in (97 \<le> n \<and> n \<le> 122) \<or> (48 \<le> n \<and> n \<le> 57) \<or> c = CHR ''-'')"

text \<open>\<open>None\<close> accepts; the text is the reason of a refusal.\<close>

definition validateLabel :: "string \<Rightarrow> string option" where
  "validateLabel label =
     (if label = [] then Some ''empty label (consecutive dots)''
      else if maxLabelLen < length label then Some ''label too long (max 63 chars)''
      else if label ! 0 = CHR ''-'' \<or> label ! (length label - 1) = CHR ''-'' then Some ''label must not start or end with a hyphen''
      else if \<not> list_all dns_char label then Some ''label has invalid characters (allowed: a-z 0-9 -)''
      else None)"

primrec validateLabels :: "string list \<Rightarrow> string option" where
  "validateLabels [] = None"
| "validateLabels (l # ls) = (case validateLabel l of Some reason \<Rightarrow> Some reason | None \<Rightarrow> validateLabels ls)"

definition ValidateBaseDomain :: "string \<Rightarrow> string option" where
  "ValidateBaseDomain s =
     (let h = trim_space s in
      if h = [] then Some ''must not be empty''
      else if h \<noteq> go_lower h then Some ''must be lowercase''
      else if maxHostnameLen < length h then Some ''too long (max 253 chars)''
      else if has_suffix h ''.'' then Some ''must not end with a dot''
      else if str_index h ''://'' \<noteq> None \<or> (\<exists>c \<in> set h. c \<in> set '' /:?#@'') then
        Some ''must be a bare hostname (no scheme, port, or path)''
      else validateLabels (split_on CHR ''.'' h))"

definition ValidateControlBaseURL :: "string \<Rightarrow> string option" where
  "ValidateControlBaseURL s =
     (let raw = trim_space s in
      if raw = [] then Some ''must not be empty''
      else
        (case url_Parse raw of
           None \<Rightarrow> Some ''not a valid URL''
         | Some u \<Rightarrow>
             if go_lower (url_Scheme u) \<noteq> ''http'' \<and> go_lower (url_Scheme u) \<noteq> ''https'' then Some ''must use the http or https scheme''
             else if url_Host u = [] \<or> url_Hostname u = [] then Some ''must include a host''
             else if CHR ''#'' \<in> set raw then Some ''must not contain a fragment''
             else if trim_right (\<lambda>c. c = CHR ''/'') (url_Path u) \<noteq> [] then Some ''must not include a path''
             else None))"

definition NormalizeControlBaseURL :: "string \<Rightarrow> string" where
  "NormalizeControlBaseURL s = trim_right (\<lambda>c. c = CHR ''/'') (trim_space s)"

section \<open>The provider\<close>

datatype config_source = SourceEnv | SourceDB | SourceDerived

record Effective =
  ef_Value :: string
  ef_Source :: config_source
  ef_Locked :: bool

record Resolved =
  re_BaseDomain :: Effective
  re_ControlBaseURL :: Effective
  re_ControlHost :: string

record Provider =
  pv_envBaseDomain :: string
  pv_envBaseDomainSet :: bool
  pv_envControlBaseURL :: string
  pv_envControlSet :: bool
  pv_cache :: DomainConfig
  pv_cacheOK :: bool
  pv_cacheErr :: "string option"
  pv_cacheOnce :: bool

definition no_domain_config :: DomainConfig where
  "no_domain_config = \<lparr> dc_BaseDomain = None, dc_ControlBaseURL = None \<rparr>"

definition provider_New :: "string \<Rightarrow> bool \<Rightarrow> string \<Rightarrow> bool \<Rightarrow> Provider" where
  "provider_New base baseSet control controlSet =
     \<lparr> pv_envBaseDomain = trim_space base, pv_envBaseDomainSet = baseSet, pv_envControlBaseURL = trim_space control,
       pv_envControlSet = controlSet, pv_cache = no_domain_config, pv_cacheOK = False, pv_cacheErr = None, pv_cacheOnce = False \<rparr>"

definition InvalidateCache :: "Provider \<Rightarrow> Provider" where
  "InvalidateCache p = p\<lparr> pv_cacheOK := False, pv_cacheOnce := False, pv_cacheErr := None \<rparr>"

definition baseDomainEnvLocked :: "Provider \<Rightarrow> bool" where
  "baseDomainEnvLocked p = (pv_envBaseDomainSet p \<and> pv_envBaseDomain p \<noteq> [])"

definition controlEnvLocked :: "Provider \<Rightarrow> bool" where
  "controlEnvLocked p = (pv_envControlSet p \<and> pv_envControlBaseURL p \<noteq> [])"

definition needsDB :: "Provider \<Rightarrow> bool" where
  "needsDB p = (\<not> baseDomainEnvLocked p \<or> \<not> controlEnvLocked p)"

definition first_hop :: "string \<Rightarrow> string" where
  "first_hop v = (case index_byte v CHR '','' of Some i \<Rightarrow> trim_space (take i v) | None \<Rightarrow> v)"

definition requestSchemeHost :: "(http_request \<times> bool) option \<Rightarrow> string \<times> string" where
  "requestSchemeHost r0 =
     (case r0 of
        None \<Rightarrow> ([], [])
      | Some (r, tls) \<Rightarrow>
          let xfh = trim_space (header_get r ''X-Forwarded-Host'');
              host = (if xfh \<noteq> [] then first_hop xfh else req_host r);
              xfp = trim_space (header_get r ''X-Forwarded-Proto'');
              scheme = (if xfp \<noteq> [] then go_lower (first_hop xfp) else if tls then ''https'' else ''http'')
          in (scheme, host))"

definition hostWithoutPort :: "string \<Rightarrow> string" where
  "hostWithoutPort host0 =
     (let host = trim_space host0 in
      if host = [] then [] else (case split_host_port host of Some (h, _) \<Rightarrow> h | None \<Rightarrow> host))"

definition hostOf :: "string \<Rightarrow> string" where
  "hostOf rawURL =
     (if rawURL = [] then []
      else (case url_Parse rawURL of None \<Rightarrow> [] | Some u \<Rightarrow> if url_Host u = [] then [] else url_Hostname u))"

definition set_value :: "string option \<Rightarrow> string option" where
  "set_value v = (case v of Some s \<Rightarrow> if s \<noteq> [] then Some s else None | None \<Rightarrow> None)"

definition resolveBaseDomain :: "Provider \<Rightarrow> DomainConfig \<Rightarrow> string \<Rightarrow> Effective" where
  "resolveBaseDomain p dbcfg host =
     (if baseDomainEnvLocked p then \<lparr> ef_Value = pv_envBaseDomain p, ef_Source = SourceEnv, ef_Locked = True \<rparr>
      else
        (case set_value (dc_BaseDomain dbcfg) of
           Some v \<Rightarrow> \<lparr> ef_Value = v, ef_Source = SourceDB, ef_Locked = False \<rparr>
         | None \<Rightarrow> \<lparr> ef_Value = hostWithoutPort host, ef_Source = SourceDerived, ef_Locked = False \<rparr>))"

definition resolveControlBaseURL :: "Provider \<Rightarrow> DomainConfig \<Rightarrow> string \<Rightarrow> string \<Rightarrow> Effective" where
  "resolveControlBaseURL p dbcfg scheme host =
     (if controlEnvLocked p then \<lparr> ef_Value = pv_envControlBaseURL p, ef_Source = SourceEnv, ef_Locked = True \<rparr>
      else
        (case set_value (dc_ControlBaseURL dbcfg) of
           Some v \<Rightarrow> \<lparr> ef_Value = v, ef_Source = SourceDB, ef_Locked = False \<rparr>
         | None \<Rightarrow>
             \<lparr> ef_Value = (if host \<noteq> [] then (if scheme = [] then ''http'' else scheme) @ ''://'' @ host else []),
               ef_Source = SourceDerived, ef_Locked = False \<rparr>))"

definition cachedDomainConfig :: "Provider \<Rightarrow> (Provider \<times> DomainConfig) dbp" where
  "cachedDomainConfig p =
     (if pv_cacheOnce p then Ret (p, pv_cache p)
      else
        bind GetDomainConfig (\<lambda>r. case r of
          Inl e \<Rightarrow>
            Ret (p\<lparr> pv_cacheOnce := True, pv_cacheErr := Some e, pv_cache := no_domain_config, pv_cacheOK := False \<rparr>, no_domain_config)
        | Inr cfg \<Rightarrow>
            Ret (p\<lparr> pv_cacheOnce := True, pv_cacheErr := None, pv_cache := cfg, pv_cacheOK := True \<rparr>, cfg)))"

definition resolve_with :: "Provider \<Rightarrow> (http_request \<times> bool) option \<Rightarrow> DomainConfig \<Rightarrow> Resolved" where
  "resolve_with p r dbcfg =
     (case requestSchemeHost r of (scheme, host) \<Rightarrow>
        let c = resolveControlBaseURL p dbcfg scheme host in
        \<lparr> re_BaseDomain = resolveBaseDomain p dbcfg host, re_ControlBaseURL = c, re_ControlHost = hostOf (ef_Value c) \<rparr>)"

definition provider_Resolve :: "Provider \<Rightarrow> (http_request \<times> bool) option \<Rightarrow> (Provider \<times> Resolved) dbp" where
  "provider_Resolve p r =
     bind (if needsDB p then cachedDomainConfig p else Ret (p, no_domain_config)) (\<lambda>(p', dbcfg).
       Ret (p', resolve_with p' r dbcfg))"

section \<open>The administrator's update\<close>

text \<open>An error answer: status, code, field and reason.\<close>

record rest_refusal =
  rf_status :: nat
  rf_code :: string
  rf_field :: string
  rf_reason :: string

definition domain_field :: "bool \<Rightarrow> (string \<Rightarrow> string option) \<Rightarrow> (string \<Rightarrow> string) \<Rightarrow> string \<Rightarrow> string option \<Rightarrow> rest_refusal + string option" where
  "domain_field locked validate canon field v =
     (case v of
        None \<Rightarrow> Inr None
      | Some s \<Rightarrow>
          if locked then Inl \<lparr> rf_status = 409, rf_code = ''conflict'', rf_field = field, rf_reason = ''locked by environment'' \<rparr>
          else if s = [] then Inr (Some [])
          else
            (case validate s of
               Some reason \<Rightarrow> Inl \<lparr> rf_status = 422, rf_code = ''validation'', rf_field = field, rf_reason = reason \<rparr>
             | None \<Rightarrow> Inr (Some (canon s))))"

text \<open>\<open>body\<close> has the two optional fields of the request; \<open>None\<close> is a body that does not decode.\<close>

definition adminPutDomain ::
  "Provider \<Rightarrow> http_request \<times> bool \<Rightarrow> (string option \<times> string option) option \<Rightarrow> (Provider \<times> (rest_refusal + Resolved)) dbp" where
  "adminPutDomain p r body =
     (case body of
        None \<Rightarrow> Ret (p, Inl \<lparr> rf_status = 400, rf_code = ''validation'', rf_field = [], rf_reason = ''malformed JSON'' \<rparr>)
      | Some (base, control) \<Rightarrow>
          (case domain_field (baseDomainEnvLocked p) ValidateBaseDomain (\<lambda>s. s) ''baseDomain'' base of
             Inl e \<Rightarrow> Ret (p, Inl e)
           | Inr base' \<Rightarrow>
               (case domain_field (controlEnvLocked p) ValidateControlBaseURL NormalizeControlBaseURL ''controlBaseURL'' control of
                  Inl e \<Rightarrow> Ret (p, Inl e)
                | Inr control' \<Rightarrow>
                    if base' = None \<and> control' = None then
                      bind (provider_Resolve p (Some r)) (\<lambda>(p', res). Ret (p', Inr res))
                    else
                      bind (SetDomainConfig \<lparr> dc_BaseDomain = base', dc_ControlBaseURL = control' \<rparr>) (\<lambda>e. case e of
                        Some m \<Rightarrow> Ret (p, Inl \<lparr> rf_status = 500, rf_code = ''internal'', rf_field = [], rf_reason = [] \<rparr>)
                      | None \<Rightarrow>
                          bind (provider_Resolve (InvalidateCache p) (Some r)) (\<lambda>(p', res). Ret (p', Inr res))))))"

section \<open>Host names\<close>

text \<open>The names that are meant: dotted labels of lower-case letters, digits and inner hyphens.\<close>

definition dns_label :: "string \<Rightarrow> bool" where
  "dns_label l \<longleftrightarrow> l \<noteq> [] \<and> length l \<le> 63 \<and> list_all dns_char l \<and> hd l \<noteq> CHR ''-'' \<and> last l \<noteq> CHR ''-''"

definition dns_name :: "string \<Rightarrow> bool" where
  "dns_name h \<longleftrightarrow> length h \<le> 253 \<and> (\<exists>ls. ls \<noteq> [] \<and> h = join_with [CHR ''.''] ls \<and> list_all dns_label ls)"

lemma validateLabel_iff: "validateLabel l = None \<longleftrightarrow> dns_label l"
  by (cases "l = []") (auto simp: validateLabel_def dns_label_def maxLabelLen_def hd_conv_nth last_conv_nth)

lemma validateLabels_iff: "validateLabels ls = None \<longleftrightarrow> list_all dns_label ls"
  by (induction ls) (auto simp: validateLabel_iff [symmetric] split: option.split)

lemma dns_char_facts:
  assumes "dns_char c"
  shows "c \<noteq> CHR ''.''" "lower_char c = c" "c \<notin> set '' /:?#@''" "\<not> is_space c"
proof -
  have "dns_char c \<longrightarrow> c \<noteq> CHR ''.'' \<and> lower_char c = c \<and> c \<notin> set '' /:?#@'' \<and> \<not> is_space c" for c
    by (cases c) (auto simp: dns_char_def lower_char_def is_space_def Let_def)
  then show "c \<noteq> CHR ''.''" "lower_char c = c" "c \<notin> set '' /:?#@''" "\<not> is_space c" using assms by blast+
qed

lemma join_set: "c \<in> set (join_with [sep] ls) \<Longrightarrow> c = sep \<or> (\<exists>l \<in> set ls. c \<in> set l)"
  by (induction "[sep]" ls rule: join_with.induct) auto

lemma dns_name_chars:
  assumes "h = join_with [CHR ''.''] ls" and "list_all dns_label ls" and "c \<in> set h"
  shows "c = CHR ''.'' \<or> dns_char c"
  using join_set [of c "CHR ''.''" ls] assms by (auto simp: list_all_iff dns_label_def)

lemma dns_split: "ls \<noteq> [] \<Longrightarrow> list_all dns_label ls \<Longrightarrow> split_on CHR ''.'' (join_with [CHR ''.''] ls) = ls"
  by (rule join_split) (auto simp: list_all_iff dns_label_def dest: dns_char_facts(1))

lemma not_dot_suffix:
  assumes "ls \<noteq> []" and "list_all dns_label ls"
  shows "\<not> has_suffix (join_with [CHR ''.''] ls) ''.''"
proof
  assume "has_suffix (join_with [CHR ''.''] ls) ''.''"
  then obtain a where "join_with [CHR ''.''] ls = a @ CHR ''.'' # []" by (auto simp: has_suffix_iff)
  then have "ls = split_on CHR ''.'' a @ [[]]"
    using dns_split [OF assms] split_on_append [of "CHR ''.''" a "[]"] by simp
  then show False using assms(2) by (simp add: dns_label_def)
qed

text \<open>
  C30: The validator of the base domain accepts a text exactly when, without surrounding white space,
  it is a DNS name of at most 253 characters.
\<close>

theorem base_domain_exact: "ValidateBaseDomain s = None \<longleftrightarrow> dns_name (trim_space s)"
proof -
  let ?h = "trim_space s"
  have "ValidateBaseDomain s = None" if name: "dns_name ?h"
  proof -
    obtain ls where ls: "ls \<noteq> []" "?h = join_with [CHR ''.''] ls" "list_all dns_label ls" using name by (auto simp: dns_name_def)
    note chars = dns_name_chars [OF ls(2,3)]
    have dot: "lower_char CHR ''.'' = CHR ''.''" "CHR ''.'' \<notin> set '' /:?#@''" by code_simp+
    have "lower_char c = c" if "c \<in> set ?h" for c
      using chars [OF that] dns_char_facts(2) dot(1) by blast
    then have "go_lower ?h = ?h" unfolding go_lower_def by (intro map_idI)
    moreover have sp: "split_on CHR ''.'' ?h = ls" unfolding ls(2) by (rule dns_split [OF ls(1,3)])
    moreover have "?h \<noteq> []"
    proof
      assume "?h = []"
      then have "ls = [[]]" using sp by simp
      then show False using ls(3) by (simp add: dns_label_def)
    qed
    moreover have plain: "\<forall>c \<in> set ?h. c \<notin> set '' /:?#@''"
    proof
      fix c assume "c \<in> set ?h"
      from chars [OF this] show "c \<notin> set '' /:?#@''" by (elim disjE) (simp_all only: dot(2) dns_char_facts(3) not_False_eq_True)
    qed
    moreover have "CHR '':'' \<notin> set ?h" using plain by (meson list.set_intros)
    then have "\<not> contains ?h ''://''" unfolding contains_iff by (metis in_set_conv_decomp append_Cons append_assoc)
    then have "str_index ?h ''://'' = None" unfolding str_index_None .
    moreover have "\<not> has_suffix ?h ''.''" unfolding ls(2) by (rule not_dot_suffix [OF ls(1,3)])
    moreover have "validateLabels (split_on CHR ''.'' ?h) = None"
      unfolding sp validateLabels_iff by (rule ls(3))
    moreover have "length ?h \<le> 253" using name unfolding dns_name_def by blast
    ultimately show ?thesis unfolding ValidateBaseDomain_def Let_def by (simp add: maxHostnameLen_def)
  qed
  moreover have "dns_name ?h" if "ValidateBaseDomain s = None"
  proof -
    have "length ?h \<le> 253" "validateLabels (split_on CHR ''.'' ?h) = None"
      using that by (auto simp: ValidateBaseDomain_def Let_def maxHostnameLen_def split: if_splits)
    then show ?thesis
      unfolding dns_name_def validateLabels_iff by (auto intro!: exI [of _ "split_on CHR ''.'' ?h"])
  qed
  ultimately show ?thesis by blast
qed

section \<open>Precedence\<close>

text \<open>
  A value that the environment sets is answered whatever the database and the request say, and
  when it sets both the database is not asked. Otherwise, once the cache is filled, the stored
  value is answered where there is one, and only then what the request says.
\<close>

theorem domain_precedence:
  "(baseDomainEnvLocked p \<longrightarrow> re_BaseDomain (resolve_with p r cfg) = \<lparr> ef_Value = pv_envBaseDomain p, ef_Source = SourceEnv, ef_Locked = True \<rparr>) \<and>
   (controlEnvLocked p \<longrightarrow> re_ControlBaseURL (resolve_with p r cfg) = \<lparr> ef_Value = pv_envControlBaseURL p, ef_Source = SourceEnv, ef_Locked = True \<rparr>) \<and>
   (baseDomainEnvLocked p \<longrightarrow> controlEnvLocked p \<longrightarrow> (\<exists>res. provider_Resolve p r = Ret (p, res))) \<and>
   (\<not> baseDomainEnvLocked p \<longrightarrow> dc_BaseDomain cfg = Some v \<longrightarrow> v \<noteq> [] \<longrightarrow>
      re_BaseDomain (resolve_with p r cfg) = \<lparr> ef_Value = v, ef_Source = SourceDB, ef_Locked = False \<rparr>) \<and>
   (\<not> baseDomainEnvLocked p \<longrightarrow> dc_BaseDomain cfg = None \<longrightarrow>
      re_BaseDomain (resolve_with p r cfg) = \<lparr> ef_Value = hostWithoutPort (snd (requestSchemeHost r)), ef_Source = SourceDerived, ef_Locked = False \<rparr>)"
  by (simp add: provider_Resolve_def needsDB_def resolve_with_def resolveBaseDomain_def resolveControlBaseURL_def set_value_def Let_def
      split: prod.split)

definition example_provider :: Provider where
  "example_provider = provider_New [] False [] False"

theorem domain_precedence_witness:
  "ef_Value (re_BaseDomain (resolve_with example_provider None \<lparr> dc_BaseDomain = Some ''example.com'', dc_ControlBaseURL = None \<rparr>)) = ''example.com''"
proof -
  have "\<not> baseDomainEnvLocked example_provider" by (simp add: example_provider_def provider_New_def baseDomainEnvLocked_def)
  then show ?thesis
    using domain_precedence [of example_provider None "\<lparr> dc_BaseDomain = Some ''example.com'', dc_ControlBaseURL = None \<rparr>" "''example.com''"] by simp
qed

section \<open>Update and read\<close>

lemma ends_resolve_fresh:
  "\<not> pv_cacheOnce p \<Longrightarrow> needsDB p \<Longrightarrow> ends db_effect Q w (provider_Resolve p r) =
     Q w (p\<lparr> pv_cacheOnce := True, pv_cacheErr := None, pv_cache := read_domain (dw_rows w), pv_cacheOK := True \<rparr>,
       resolve_with (p\<lparr> pv_cacheOnce := True, pv_cacheErr := None, pv_cache := read_domain (dw_rows w), pv_cacheOK := True \<rparr>) r (read_domain (dw_rows w)))"
  by (simp add: provider_Resolve_def cachedDomainConfig_def bind_assoc ends_bind ends_get_domain)

lemma resolve_cached: "pv_cacheOnce p \<Longrightarrow> needsDB p \<Longrightarrow> provider_Resolve p r = Ret (p, resolve_with p r (pv_cache p))"
  by (simp add: provider_Resolve_def cachedDomainConfig_def)

lemma base_from_cache:
  "\<not> baseDomainEnvLocked p \<Longrightarrow> dc_BaseDomain cfg = Some v \<Longrightarrow> v \<noteq> [] \<Longrightarrow>
   re_BaseDomain (resolve_with p r cfg) = \<lparr> ef_Value = v, ef_Source = SourceDB, ef_Locked = False \<rparr>"
  by (simp add: resolve_with_def resolveBaseDomain_def set_value_def Let_def split: prod.split)

lemma lock_updates [simp]:
  "baseDomainEnvLocked (p\<lparr> pv_cacheOnce := a, pv_cacheErr := b, pv_cache := c, pv_cacheOK := d \<rparr>) = baseDomainEnvLocked p"
  "controlEnvLocked (p\<lparr> pv_cacheOnce := a, pv_cacheErr := b, pv_cache := c, pv_cacheOK := d \<rparr>) = controlEnvLocked p"
  "baseDomainEnvLocked (InvalidateCache p) = baseDomainEnvLocked p" "controlEnvLocked (InvalidateCache p) = controlEnvLocked p"
  "needsDB (InvalidateCache p) = needsDB p" "needsDB (p\<lparr> pv_cacheOnce := a, pv_cacheErr := b, pv_cache := c, pv_cacheOK := d \<rparr>) = needsDB p"
  "pv_cacheOnce (InvalidateCache p) = False"
  by (simp_all add: baseDomainEnvLocked_def controlEnvLocked_def needsDB_def InvalidateCache_def)

lemma ends_SetDomainConfig:
  "ends db_effect (\<lambda>w' e. e = None \<and> read_domain (dw_rows w') = updated_domain i (read_domain (dw_rows w))) w (SetDomainConfig i)"
proof -
  have "\<not> bx_sealDisabled example_box" by (simp add: example_box_def)
  from settings_call_done [OF this, of "SetDomain i" w "\<lambda>m. read_domain m = updated_domain i (read_domain (dw_rows w))"]
  show ?thesis using read_domain_updated by (auto simp: settings_call_def)
qed

lemma valid_not_empty: "ValidateBaseDomain base = None \<Longrightarrow> base \<noteq> []"
  by (auto simp: ValidateBaseDomain_def trim_space_def trim_left_def trim_right_def)

text \<open>
  An update of the base domain is refused, with nothing asked of the database, when the environment
  sets the value or when the text is no host name. Otherwise, on a database that answers, it
  succeeds, and from then on every request resolves to the new value, whatever was cached before,
  with no further read.
\<close>

theorem domain_put_applied:
  assumes "ValidateBaseDomain base = None"
  shows "(baseDomainEnvLocked p \<longrightarrow> (\<exists>e. rf_status e = 409 \<and> adminPutDomain p r (Some (Some base, control)) = Ret (p, Inl e))) \<and>
    (\<not> baseDomainEnvLocked p \<longrightarrow> bad \<noteq> [] \<longrightarrow> \<not> dns_name (trim_space bad) \<longrightarrow>
       (\<exists>e. rf_status e = 422 \<and> adminPutDomain p r (Some (Some bad, control)) = Ret (p, Inl e))) \<and>
    (\<not> baseDomainEnvLocked p \<longrightarrow>
       ends db_effect (\<lambda>w1 (p1, res). (\<exists>view. res = Inr view) \<and> gm_get (dw_rows w1) SettingBaseDomain = Some base \<and>
           (\<forall>r'. \<exists>res2. provider_Resolve p1 r' = Ret (p1, res2) \<and>
              re_BaseDomain res2 = \<lparr> ef_Value = base, ef_Source = SourceDB, ef_Locked = False \<rparr>))
         w (adminPutDomain p r (Some (Some base, None))))"
proof (intro conjI impI)
  assume "baseDomainEnvLocked p"
  then show "\<exists>e. rf_status e = 409 \<and> adminPutDomain p r (Some (Some base, control)) = Ret (p, Inl e)"
    by (simp add: adminPutDomain_def domain_field_def)
next
  assume "\<not> baseDomainEnvLocked p" "bad \<noteq> []" "\<not> dns_name (trim_space bad)"
  then show "\<exists>e. rf_status e = 422 \<and> adminPutDomain p r (Some (Some bad, control)) = Ret (p, Inl e)"
    using base_domain_exact [of bad] by (auto simp: adminPutDomain_def domain_field_def split: option.split)
next
  assume free: "\<not> baseDomainEnvLocked p"
  have ne: "base \<noteq> []" by (rule valid_not_empty [OF assms])
  have f: "domain_field (baseDomainEnvLocked p) ValidateBaseDomain (\<lambda>s. s) ''baseDomain'' (Some base) = Inr (Some base)"
    using free ne assms by (simp add: domain_field_def)
  have g: "domain_field l v c n None = Inr None" for l v c n by (simp add: domain_field_def)
  have need: "needsDB p" using free by (simp add: needsDB_def)
  show "ends db_effect (\<lambda>w1 (p1, res). (\<exists>view. res = Inr view) \<and> gm_get (dw_rows w1) SettingBaseDomain = Some base \<and>
      (\<forall>r'. \<exists>res2. provider_Resolve p1 r' = Ret (p1, res2) \<and> re_BaseDomain res2 = \<lparr> ef_Value = base, ef_Source = SourceDB, ef_Locked = False \<rparr>))
    w (adminPutDomain p r (Some (Some base, None)))"
    unfolding adminPutDomain_def option.case prod.case f g sum.case
  proof (simp only: option.distinct simp_thms if_False, rule ends_bindI [OF ends_SetDomainConfig], elim conjE, hypsubst, simp only: option.case)
    fix w1 :: db_world
    assume "read_domain (dw_rows w1) = updated_domain \<lparr> dc_BaseDomain = Some base, dc_ControlBaseURL = None \<rparr> (read_domain (dw_rows w))"
    then have b: "dc_BaseDomain (read_domain (dw_rows w1)) = Some base" using ne by (simp add: updated_domain_def new_plain_def)
    then have "gm_get (dw_rows w1) SettingBaseDomain = Some base" by (simp add: read_domain_def)
    then show "ends db_effect (\<lambda>w1 (p1, res). (\<exists>view. res = Inr view) \<and> gm_get (dw_rows w1) SettingBaseDomain = Some base \<and>
        (\<forall>r'. \<exists>res2. provider_Resolve p1 r' = Ret (p1, res2) \<and> re_BaseDomain res2 = \<lparr> ef_Value = base, ef_Source = SourceDB, ef_Locked = False \<rparr>))
      w1 (bind (provider_Resolve (InvalidateCache p) (Some r)) (\<lambda>(p', res). Ret (p', Inr res)))"
      using b need free ne by (simp add: ends_bind ends_resolve_fresh resolve_cached base_from_cache)
  qed
qed

theorem domain_put_applied_witness:
  "ends db_effect (\<lambda>w1 _. gm_get (dw_rows w1) SettingBaseDomain = Some ''sites.example.com'') (example_db [])
     (adminPutDomain example_provider (get_request ''h'' ''/'', False) (Some (Some ''sites.example.com'', None)))"
proof -
  have "ValidateBaseDomain ''sites.example.com'' = None" by code_simp
  moreover have "\<not> baseDomainEnvLocked example_provider" by (simp add: example_provider_def provider_New_def baseDomainEnvLocked_def)
  ultimately have "ends db_effect (\<lambda>w1 (p1, res). (\<exists>view. res = Inr view) \<and> gm_get (dw_rows w1) SettingBaseDomain = Some ''sites.example.com'' \<and>
      (\<forall>r'. \<exists>res2. provider_Resolve p1 r' = Ret (p1, res2) \<and> re_BaseDomain res2 = \<lparr> ef_Value = ''sites.example.com'', ef_Source = SourceDB, ef_Locked = False \<rparr>))
    (example_db []) (adminPutDomain example_provider (get_request ''h'' ''/'', False) (Some (Some ''sites.example.com'', None)))"
    using domain_put_applied by blast
  then show ?thesis by (rule ends_mono) auto
qed

text \<open>
  A failed read is cached: until the next update every request is answered without asking the
  database again, from the request, although the database may hold a value.
\<close>

theorem domain_read_error_sticks:
  assumes "\<not> pv_cacheOnce p" and "\<not> baseDomainEnvLocked p"
  shows "ends (faulty db_effect db_failed) (\<lambda>_ (p1, _). \<forall>r'. \<exists>res2. provider_Resolve p1 r' = Ret (p1, res2) \<and>
      re_BaseDomain res2 = \<lparr> ef_Value = hostWithoutPort (snd (requestSchemeHost r')), ef_Source = SourceDerived, ef_Locked = False \<rparr>)
    (w, [Fails]) (provider_Resolve p r)"
proof -
  have "needsDB p" using assms(2) by (simp add: needsDB_def)
  then show ?thesis
    using assms
    by (simp add: provider_Resolve_def cachedDomainConfig_def GetDomainConfig_def getSetting_def GetInstanceSetting_def ends_bind faulty_def
        resolve_with_def resolveBaseDomain_def set_value_def no_domain_config_def Let_def bind_assoc split: prod.split)
qed

end
