(* ===== verification/Meta_Store.thy ===== *)
theory Meta_Store
  imports Mcp_Registry Settings_Store
begin

text \<open>
  The tables behind accounts, memberships, tokens and sessions, and the queries of
  \<open>backend/internal/db/gen\<close> over them (\<open>members.sql.go\<close>, \<open>tokens.sql.go\<close>, \<open>auth.sql.go\<close>,
  \<open>audit.sql.go\<close>), with the constraints of the migrations: primary and foreign keys, enumerations
  and checks. The time of a statement and the identifiers that the database makes are arguments.
  The sites table is the service's; a foreign key to it is met by the callers, who look the site
  up first.
\<close>

section \<open>Rows\<close>

record User =
  us_ID :: uuid
  us_Email :: string
  us_DisplayName :: string
  us_AvatarURL :: "string option"
  us_IsAdmin :: bool
  us_CanCreateSites :: bool
  us_IsActive :: bool

record SiteMember =
  mb_SiteID :: uuid
  mb_UserID :: uuid
  mb_Role :: site_role
  mb_CreatedAt :: int
  mb_CreatedBy :: "uuid option"

record UserToken =
  ut_ID :: uuid
  ut_UserID :: uuid
  ut_Name :: string
  ut_TokenPrefix :: string
  ut_TokenHash :: string
  ut_Scopes :: "scope list"
  ut_CanCreateSites :: bool
  ut_CreatedAt :: int
  ut_LastUsedAt :: "int option"
  ut_ExpiresAt :: "int option"
  ut_RevokedAt :: "int option"

record Session =
  se_ID :: string
  se_UserID :: uuid
  se_CreatedAt :: int
  se_ExpiresAt :: int
  se_LastSeenAt :: int
  se_UserAgent :: string
  se_IpAddr :: "string option"

record AuditEntry =
  al_ActorUserID :: "uuid option"
  al_SiteID :: "uuid option"
  al_TokenID :: "uuid option"
  al_Action :: string
  al_Source :: string
  al_CommitSha :: "string option"

record MetaDB =
  db_users :: "User list"
  db_members :: "SiteMember list"
  db_tokens :: "UserToken list"
  db_sessions :: "Session list"
  db_audit :: "AuditEntry list"

type_synonym 'a rows = "row_error + 'a"

section \<open>Members\<close>

definition valid_site_role :: "site_role \<Rightarrow> bool" where
  "valid_site_role r = (r \<in> {SiteRoleOwner, SiteRoleEditor, SiteRoleViewer})"

definition is_member :: "uuid \<Rightarrow> uuid \<Rightarrow> SiteMember \<Rightarrow> bool" where
  "is_member i u m = (mb_SiteID m = i \<and> mb_UserID m = u)"

definition find_user :: "MetaDB \<Rightarrow> uuid \<Rightarrow> User option" where
  "find_user d u = find (\<lambda>x. us_ID x = u) (db_users d)"

definition find_member :: "MetaDB \<Rightarrow> uuid \<Rightarrow> uuid \<Rightarrow> SiteMember option" where
  "find_member d i u = find (is_member i u) (db_members d)"

definition set_role :: "MetaDB \<Rightarrow> uuid \<Rightarrow> uuid \<Rightarrow> site_role \<Rightarrow> MetaDB" where
  "set_role d i u role = d\<lparr> db_members := map (\<lambda>m. if is_member i u m then m\<lparr> mb_Role := role \<rparr> else m) (db_members d) \<rparr>"

text \<open>The upsert: on a conflict only the role is replaced.\<close>

definition sql_AddMember :: "MetaDB \<Rightarrow> int \<Rightarrow> uuid \<Rightarrow> uuid \<Rightarrow> site_role \<Rightarrow> uuid option \<Rightarrow> MetaDB rows" where
  "sql_AddMember d now i u role createdBy =
     (if \<not> valid_site_role role then Inl (RowError ''invalid input value for enum site_role'')
      else if find_member d i u \<noteq> None then Inr (set_role d i u role)
      else if find_user d u = None then Inl (RowError ''violates foreign key constraint'')
      else Inr (d\<lparr> db_members := db_members d @
             [\<lparr> mb_SiteID = i, mb_UserID = u, mb_Role = role, mb_CreatedAt = now, mb_CreatedBy = createdBy \<rparr>] \<rparr>))"

definition sql_AddOwnerMembership :: "MetaDB \<Rightarrow> int \<Rightarrow> uuid \<Rightarrow> uuid \<Rightarrow> MetaDB rows" where
  "sql_AddOwnerMembership d now i u = sql_AddMember d now i u SiteRoleOwner (Some u)"

definition sql_GetMember :: "MetaDB \<Rightarrow> uuid \<Rightarrow> uuid \<Rightarrow> SiteMember rows" where
  "sql_GetMember d i u = (case find_member d i u of None \<Rightarrow> Inl NoRows | Some m \<Rightarrow> Inr m)"

definition sql_GetRole :: "MetaDB \<Rightarrow> uuid \<Rightarrow> uuid \<Rightarrow> site_role rows" where
  "sql_GetRole d i u = (case find_member d i u of None \<Rightarrow> Inl NoRows | Some m \<Rightarrow> Inr (mb_Role m))"

text \<open>The join with the users, newest first.\<close>

definition sql_ListMembers :: "MetaDB \<Rightarrow> uuid \<Rightarrow> (SiteMember \<times> User) list rows" where
  "sql_ListMembers d i =
     Inr (List.map_filter (\<lambda>m. map_option (Pair m) (find_user d (mb_UserID m)))
       (sort_key (\<lambda>m. - mb_CreatedAt m) (filter (\<lambda>m. mb_SiteID m = i) (db_members d))))"

definition sql_UpdateMemberRole :: "MetaDB \<Rightarrow> uuid \<Rightarrow> uuid \<Rightarrow> site_role \<Rightarrow> MetaDB rows" where
  "sql_UpdateMemberRole d i u role =
     (if \<not> valid_site_role role then Inl (RowError ''invalid input value for enum site_role'')
      else Inr (set_role d i u role))"

definition sql_RemoveMember :: "MetaDB \<Rightarrow> uuid \<Rightarrow> uuid \<Rightarrow> MetaDB rows" where
  "sql_RemoveMember d i u = Inr (d\<lparr> db_members := filter (\<lambda>m. \<not> is_member i u m) (db_members d) \<rparr>)"

section \<open>Users\<close>

text \<open>The address is of type \<open>CITEXT\<close>: it is compared without regard to case.\<close>

definition email_is :: "string \<Rightarrow> User \<Rightarrow> bool" where
  "email_is mail u = (go_lower (us_Email u) = go_lower mail)"

definition sql_GetUserByEmail :: "MetaDB \<Rightarrow> string \<Rightarrow> User rows" where
  "sql_GetUserByEmail d mail = (case find (email_is mail) (db_users d) of None \<Rightarrow> Inl NoRows | Some u \<Rightarrow> Inr u)"

definition sql_GetUserByID :: "MetaDB \<Rightarrow> uuid \<Rightarrow> User rows" where
  "sql_GetUserByID d u = (case find_user d u of None \<Rightarrow> Inl NoRows | Some x \<Rightarrow> Inr x)"

definition update_user :: "MetaDB \<Rightarrow> (User \<Rightarrow> bool) \<Rightarrow> (User \<Rightarrow> User) \<Rightarrow> MetaDB" where
  "update_user d p f = d\<lparr> db_users := map (\<lambda>u. if p u then f u else u) (db_users d) \<rparr>"

definition sql_SetUserAdminFlags :: "MetaDB \<Rightarrow> uuid \<Rightarrow> bool \<Rightarrow> bool \<Rightarrow> MetaDB rows" where
  "sql_SetUserAdminFlags d i admin create =
     Inr (update_user d (\<lambda>u. us_ID u = i) (\<lambda>u. u\<lparr> us_IsAdmin := admin, us_CanCreateSites := create \<rparr>))"

definition sql_PromoteUserAdmin :: "MetaDB \<Rightarrow> uuid \<Rightarrow> MetaDB rows" where
  "sql_PromoteUserAdmin d i = Inr (update_user d (\<lambda>u. us_ID u = i) (\<lambda>u. u\<lparr> us_IsAdmin := True \<rparr>))"

definition new_user :: "uuid \<Rightarrow> string \<Rightarrow> string \<Rightarrow> string option \<Rightarrow> User" where
  "new_user i mail name avatar =
     \<lparr> us_ID = i, us_Email = mail, us_DisplayName = name, us_AvatarURL = avatar, us_IsAdmin = False,
       us_CanCreateSites = True, us_IsActive = True \<rparr>"

definition sql_UpsertUser :: "MetaDB \<Rightarrow> uuid \<Rightarrow> string \<Rightarrow> string \<Rightarrow> string option \<Rightarrow> (MetaDB \<times> User) rows" where
  "sql_UpsertUser d newID mail name avatar =
     (let refresh = (\<lambda>u. u\<lparr> us_DisplayName := name, us_AvatarURL := (case avatar of Some a \<Rightarrow> Some a | None \<Rightarrow> us_AvatarURL u) \<rparr>) in
      (case find (email_is mail) (db_users d) of
         Some u \<Rightarrow> Inr (update_user d (email_is mail) refresh, refresh u)
       | None \<Rightarrow> let u = new_user newID mail name avatar in Inr (d\<lparr> db_users := db_users d @ [u] \<rparr>, u)))"

section \<open>Tokens\<close>

definition sql_CreateUserToken ::
  "MetaDB \<Rightarrow> int \<Rightarrow> uuid \<Rightarrow> uuid \<Rightarrow> string \<Rightarrow> string \<Rightarrow> string \<Rightarrow> scope list \<Rightarrow> bool \<Rightarrow> int option \<Rightarrow> (MetaDB \<times> UserToken) rows" where
  "sql_CreateUserToken d now newID u name pfx hash scopes create expires =
     (if length hash \<noteq> 32 \<or> length pfx \<noteq> 12 \<or> \<not> set scopes \<subseteq> {''read'', ''write'', ''publish''} then
        Inl (RowError ''violates check constraint'')
      else if find_user d u = None then Inl (RowError ''violates foreign key constraint'')
      else if \<exists>t \<in> set (db_tokens d). ut_TokenHash t = hash then Inl (RowError ''violates unique constraint'')
      else
        let t = \<lparr> ut_ID = newID, ut_UserID = u, ut_Name = name, ut_TokenPrefix = pfx, ut_TokenHash = hash, ut_Scopes = scopes,
                  ut_CanCreateSites = create, ut_CreatedAt = now, ut_LastUsedAt = None, ut_ExpiresAt = expires, ut_RevokedAt = None \<rparr>
        in Inr (d\<lparr> db_tokens := db_tokens d @ [t] \<rparr>, t))"

definition token_active :: "int \<Rightarrow> UserToken \<Rightarrow> bool" where
  "token_active now t =
     (ut_RevokedAt t = None \<and> (case ut_ExpiresAt t of None \<Rightarrow> True | Some e \<Rightarrow> now < e))"

definition sql_GetUserTokenByPrefix :: "MetaDB \<Rightarrow> int \<Rightarrow> string \<Rightarrow> token_row list rows" where
  "sql_GetUserTokenByPrefix d now pfx =
     Inr (List.map_filter (\<lambda>t.
       (case find_user d (ut_UserID t) of
          None \<Rightarrow> None
        | Some u \<Rightarrow>
            if ut_TokenPrefix t = pfx \<and> token_active now t \<and> us_IsActive u then
              Some \<lparr> tr_ID = ut_ID t, tr_UserID = ut_UserID t, tr_TokenHash = ut_TokenHash t, tr_Scopes = ut_Scopes t,
                     tr_CanCreateSites = ut_CanCreateSites t, tr_ExpiresAt = ut_ExpiresAt t,
                     tr_UserCanCreateSites = us_CanCreateSites u \<rparr>
            else None)) (db_tokens d))"

definition sql_ListUserTokens :: "MetaDB \<Rightarrow> uuid \<Rightarrow> UserToken list rows" where
  "sql_ListUserTokens d u = Inr (sort_key (\<lambda>t. - ut_CreatedAt t) (filter (\<lambda>t. ut_UserID t = u) (db_tokens d)))"

definition revoke :: "int \<Rightarrow> uuid \<Rightarrow> uuid \<Rightarrow> UserToken \<Rightarrow> UserToken" where
  "revoke now i u t = (if ut_ID t = i \<and> ut_UserID t = u \<and> ut_RevokedAt t = None then t\<lparr> ut_RevokedAt := Some now \<rparr> else t)"

definition sql_RevokeUserToken :: "MetaDB \<Rightarrow> int \<Rightarrow> uuid \<Rightarrow> uuid \<Rightarrow> MetaDB rows" where
  "sql_RevokeUserToken d now i u = Inr (d\<lparr> db_tokens := map (revoke now i u) (db_tokens d) \<rparr>)"

definition sql_TouchUserToken :: "MetaDB \<Rightarrow> int \<Rightarrow> uuid \<Rightarrow> MetaDB rows" where
  "sql_TouchUserToken d now i =
     Inr (d\<lparr> db_tokens := map (\<lambda>t. if ut_ID t = i then t\<lparr> ut_LastUsedAt := Some now \<rparr> else t) (db_tokens d) \<rparr>)"

section \<open>Sessions\<close>

definition sql_CreateSession ::
  "MetaDB \<Rightarrow> int \<Rightarrow> string \<Rightarrow> uuid \<Rightarrow> int \<Rightarrow> string \<Rightarrow> string option \<Rightarrow> (MetaDB \<times> Session) rows" where
  "sql_CreateSession d now i u expires agent ip =
     (if \<exists>s \<in> set (db_sessions d). se_ID s = i then Inl (RowError ''violates unique constraint'')
      else if find_user d u = None then Inl (RowError ''violates foreign key constraint'')
      else
        let s = \<lparr> se_ID = i, se_UserID = u, se_CreatedAt = now, se_ExpiresAt = expires, se_LastSeenAt = now,
                  se_UserAgent = agent, se_IpAddr = ip \<rparr>
        in Inr (d\<lparr> db_sessions := db_sessions d @ [s] \<rparr>, s))"

definition find_session :: "MetaDB \<Rightarrow> string \<Rightarrow> Session option" where
  "find_session d i = find (\<lambda>s. se_ID s = i) (db_sessions d)"

definition sql_GetSession :: "MetaDB \<Rightarrow> int \<Rightarrow> string \<Rightarrow> (Session \<times> User) rows" where
  "sql_GetSession d now i =
     (case find_session d i of
        None \<Rightarrow> Inl NoRows
      | Some s \<Rightarrow>
          (case find_user d (se_UserID s) of
             None \<Rightarrow> Inl NoRows
           | Some u \<Rightarrow> if now < se_ExpiresAt s \<and> us_IsActive u then Inr (s, u) else Inl NoRows))"

definition sql_TouchSession :: "MetaDB \<Rightarrow> int \<Rightarrow> string \<Rightarrow> MetaDB rows" where
  "sql_TouchSession d now i =
     Inr (d\<lparr> db_sessions := map (\<lambda>s. if se_ID s = i then s\<lparr> se_LastSeenAt := now \<rparr> else s) (db_sessions d) \<rparr>)"

definition sql_DeleteSession :: "MetaDB \<Rightarrow> string \<Rightarrow> MetaDB rows" where
  "sql_DeleteSession d i = Inr (d\<lparr> db_sessions := filter (\<lambda>s. se_ID s \<noteq> i) (db_sessions d) \<rparr>)"

definition sql_DeleteUserSessions :: "MetaDB \<Rightarrow> uuid \<Rightarrow> MetaDB rows" where
  "sql_DeleteUserSessions d u = Inr (d\<lparr> db_sessions := filter (\<lambda>s. se_UserID s \<noteq> u) (db_sessions d) \<rparr>)"

definition sql_DeleteExpiredSessions :: "MetaDB \<Rightarrow> int \<Rightarrow> (MetaDB \<times> int) rows" where
  "sql_DeleteExpiredSessions d now =
     (let kept = filter (\<lambda>s. \<not> se_ExpiresAt s < now) (db_sessions d) in
      Inr (d\<lparr> db_sessions := kept \<rparr>, int (length (db_sessions d) - length kept)))"

section \<open>Audit\<close>

definition sql_InsertAudit :: "MetaDB \<Rightarrow> AuditEntry \<Rightarrow> MetaDB rows" where
  "sql_InsertAudit d e = Inr (d\<lparr> db_audit := db_audit d @ [e] \<rparr>)"

section \<open>Facts\<close>

text \<open>The tables are well formed: keys are unique, references have a target, and values are of their type.\<close>

definition token_typed :: "UserToken \<Rightarrow> bool" where
  "token_typed t \<longleftrightarrow> length (ut_TokenHash t) = 32 \<and> length (ut_TokenPrefix t) = 12 \<and> set (ut_Scopes t) \<subseteq> {''read'', ''write'', ''publish''}"

definition meta_wf :: "MetaDB \<Rightarrow> bool" where
  "meta_wf d \<longleftrightarrow>
     distinct (map us_ID (db_users d)) \<and>
     distinct (map (\<lambda>m. (mb_SiteID m, mb_UserID m)) (db_members d)) \<and>
     distinct (map se_ID (db_sessions d)) \<and> distinct (map ut_TokenHash (db_tokens d)) \<and>
     (\<forall>m \<in> set (db_members d). find_user d (mb_UserID m) \<noteq> None \<and> valid_site_role (mb_Role m)) \<and>
     (\<forall>t \<in> set (db_tokens d). find_user d (ut_UserID t) \<noteq> None \<and> token_typed t) \<and>
     (\<forall>s \<in> set (db_sessions d). find_user d (se_UserID s) \<noteq> None)"

lemma find_user_cong [simp]:
  "find_user (d\<lparr> db_members := ms \<rparr>) u = find_user d u"
  "find_user (d\<lparr> db_tokens := ts \<rparr>) u = find_user d u"
  "find_user (d\<lparr> db_sessions := ss \<rparr>) u = find_user d u"
  "find_user (d\<lparr> db_audit := es \<rparr>) u = find_user d u"
  by (simp_all add: find_user_def)

lemma find_member_iff:
  assumes "meta_wf d"
  shows "find_member d i u = Some m \<longleftrightarrow> m \<in> set (db_members d) \<and> is_member i u m"
proof
  assume "find_member d i u = Some m"
  then show "m \<in> set (db_members d) \<and> is_member i u m"
    using find_SomeD [of "is_member i u" "db_members d" m] by (simp add: find_member_def)
next
  assume m: "m \<in> set (db_members d) \<and> is_member i u m"
  then obtain m' where m': "find_member d i u = Some m'"
    unfolding find_member_def by (cases "find (is_member i u) (db_members d)") (auto simp: find_None_iff)
  then have "m' \<in> set (db_members d)" "is_member i u m'"
    using find_SomeD [of "is_member i u" "db_members d" m'] by (simp_all add: find_member_def)
  moreover have "inj_on (\<lambda>m. (mb_SiteID m, mb_UserID m)) (set (db_members d))"
    using assms by (simp add: meta_wf_def distinct_map)
  ultimately have "m' = m" using m by (auto simp: is_member_def inj_on_def)
  then show "find_member d i u = Some m" using m' by simp
qed

lemma find_member_None: "find_member d i u = None \<longleftrightarrow> (\<forall>m \<in> set (db_members d). \<not> is_member i u m)"
  by (auto simp: find_member_def find_None_iff)

lemma find_user_iff: "find_user d u \<noteq> None \<longleftrightarrow> u \<in> us_ID ` set (db_users d)"
  by (auto simp: find_user_def find_None_iff)

lemma wf_members:
  assumes "meta_wf d" and "distinct (map (\<lambda>m. (mb_SiteID m, mb_UserID m)) ms)"
    and "\<forall>m \<in> set ms. find_user d (mb_UserID m) \<noteq> None \<and> valid_site_role (mb_Role m)"
  shows "meta_wf (d\<lparr> db_members := ms \<rparr>)"
  using assms by (simp add: meta_wf_def)

lemma map_keys: "(\<And>x. k (f x) = k x) \<Longrightarrow> map k (map f xs) = map k xs"
  by (induction xs) auto

lemma wf_set_role:
  assumes wf: "meta_wf d" and role: "valid_site_role role"
  shows "meta_wf (set_role d i u role)"
  unfolding set_role_def
proof (rule wf_members [OF wf])
  let ?f = "\<lambda>m. if is_member i u m then m\<lparr> mb_Role := role \<rparr> else m"
  let ?k = "\<lambda>m. (mb_SiteID m, mb_UserID m)"
  have keys: "map ?k (map ?f (db_members d)) = map ?k (db_members d)" by (rule map_keys) simp
  show "distinct (map ?k (map ?f (db_members d)))" unfolding keys using wf by (simp add: meta_wf_def)
  show "\<forall>m \<in> set (map ?f (db_members d)). find_user d (mb_UserID m) \<noteq> None \<and> valid_site_role (mb_Role m)"
    using wf role by (auto simp: meta_wf_def)
qed

lemma wf_member_queries:
  "meta_wf d \<Longrightarrow> sql_AddMember d now i u role by = Inr d' \<Longrightarrow> meta_wf d'"
  "meta_wf d \<Longrightarrow> sql_UpdateMemberRole d i u role = Inr d' \<Longrightarrow> meta_wf d'"
  "meta_wf d \<Longrightarrow> sql_RemoveMember d i u = Inr d' \<Longrightarrow> meta_wf d'"
proof -
  assume wf: "meta_wf d"
  show "sql_UpdateMemberRole d i u role = Inr d' \<Longrightarrow> meta_wf d'"
    using wf wf_set_role by (auto simp: sql_UpdateMemberRole_def split: if_splits)
  show "sql_RemoveMember d i u = Inr d' \<Longrightarrow> meta_wf d'"
  proof -
    assume "sql_RemoveMember d i u = Inr d'"
    then have d': "d' = d\<lparr> db_members := filter (\<lambda>m. \<not> is_member i u m) (db_members d) \<rparr>" by (simp add: sql_RemoveMember_def)
    show ?thesis unfolding d' using wf by (intro wf_members distinct_map_filter) (auto simp: meta_wf_def)
  qed
  show "sql_AddMember d now i u role by = Inr d' \<Longrightarrow> meta_wf d'"
  proof -
    assume a: "sql_AddMember d now i u role by = Inr d'"
    let ?m = "\<lparr> mb_SiteID = i, mb_UserID = u, mb_Role = role, mb_CreatedAt = now, mb_CreatedBy = by \<rparr>"
    consider "d' = set_role d i u role" "valid_site_role role"
      | "d' = d\<lparr> db_members := db_members d @ [?m] \<rparr>" "valid_site_role role" "find_user d u \<noteq> None" "find_member d i u = None"
      using a by (auto simp: sql_AddMember_def split: if_splits)
    then show ?thesis
    proof cases
      case 1
      then show ?thesis using wf_set_role [OF wf] by simp
    next
      case 2
      have "distinct (map (\<lambda>m. (mb_SiteID m, mb_UserID m)) (db_members d @ [?m]))"
        using wf 2(4) by (auto simp: meta_wf_def find_member_None is_member_def)
      then show ?thesis unfolding 2(1) using wf 2(2,3) by (intro wf_members) (auto simp: meta_wf_def)
    qed
  qed
qed

lemma wf_tokens:
  assumes "meta_wf d" and "distinct (map ut_TokenHash ts)"
    and "\<And>t. t \<in> set ts \<Longrightarrow> find_user d (ut_UserID t) \<noteq> None \<and> token_typed t"
  shows "meta_wf (d\<lparr> db_tokens := ts \<rparr>)"
  using assms by (simp add: meta_wf_def)

lemma wf_create_token:
  assumes wf: "meta_wf d" and c: "sql_CreateUserToken d now t u name pfx hash scopes create expires = Inr (d', row)"
  shows "meta_wf d'"
proof -
  have checks: "length hash = 32" "length pfx = 12" "set scopes \<subseteq> {''read'', ''write'', ''publish''}"
      "find_user d u \<noteq> None" "\<forall>t \<in> set (db_tokens d). ut_TokenHash t \<noteq> hash"
    and d': "d' = d\<lparr> db_tokens := db_tokens d @ [row] \<rparr>" "ut_TokenHash row = hash" "ut_TokenPrefix row = pfx"
      "ut_Scopes row = scopes" "ut_UserID row = u"
    using c unfolding sql_CreateUserToken_def Let_def by (simp_all split: if_splits) auto
  have new: "token_typed row" unfolding token_typed_def d' using checks by simp
  show ?thesis unfolding d'(1)
  proof (rule wf_tokens [OF wf])
    show "distinct (map ut_TokenHash (db_tokens d @ [row]))" using wf checks(5) d'(2) by (auto simp: meta_wf_def)
    show "find_user d (ut_UserID x) \<noteq> None \<and> token_typed x" if "x \<in> set (db_tokens d @ [row])" for x
    proof (cases "x = row")
      case True
      then show ?thesis using new checks(4) d'(5) by simp
    next
      case False
      then show ?thesis using that wf by (simp add: meta_wf_def)
    qed
  qed
qed

lemma revoke_keeps [simp]:
  "ut_TokenHash (revoke now i u t) = ut_TokenHash t" "ut_UserID (revoke now i u t) = ut_UserID t"
  "ut_ID (revoke now i u t) = ut_ID t" "ut_TokenPrefix (revoke now i u t) = ut_TokenPrefix t"
  "token_typed (revoke now i u t) = token_typed t"
  by (simp_all add: revoke_def token_typed_def)

lemma wf_revoke_token:
  assumes wf: "meta_wf d" and r: "sql_RevokeUserToken d now t u = Inr d'"
  shows "meta_wf d'"
proof -
  have d': "d' = d\<lparr> db_tokens := map (revoke now t u) (db_tokens d) \<rparr>" using r by (simp add: sql_RevokeUserToken_def)
  have keys: "map ut_TokenHash (map (revoke now t u) (db_tokens d)) = map ut_TokenHash (db_tokens d)"
    by (rule map_keys) simp
  show ?thesis unfolding d'
  proof (rule wf_tokens [OF wf])
    show "distinct (map ut_TokenHash (map (revoke now t u) (db_tokens d)))" unfolding keys using wf by (simp add: meta_wf_def)
    show "find_user d (ut_UserID x) \<noteq> None \<and> token_typed x" if "x \<in> set (map (revoke now t u) (db_tokens d))" for x
      using that wf by (auto simp: meta_wf_def)
  qed
qed

lemma wf_update_user:
  assumes wf: "meta_wf d" and f: "\<And>u. us_ID (f u) = us_ID u"
  shows "meta_wf (update_user d p f)"
proof -
  let ?f = "\<lambda>u. if p u then f u else u"
  have ids: "map us_ID (map ?f (db_users d)) = map us_ID (db_users d)" by (rule map_keys) (simp add: f)
  have "us_ID ` set (map ?f (db_users d)) = us_ID ` set (db_users d)" using ids by (metis list.set_map)
  then have u: "find_user (update_user d p f) u \<noteq> None \<longleftrightarrow> find_user d u \<noteq> None" for u
    unfolding find_user_iff by (simp add: update_user_def)
  have same: "db_members (update_user d p f) = db_members d" "db_tokens (update_user d p f) = db_tokens d"
      "db_sessions (update_user d p f) = db_sessions d" "db_users (update_user d p f) = map ?f (db_users d)"
    by (simp_all add: update_user_def)
  show ?thesis using wf unfolding meta_wf_def u same ids .
qed

lemma wf_audit: "meta_wf (d\<lparr> db_audit := es \<rparr>) = meta_wf d"
  by (simp add: meta_wf_def)

end
