(* ===== verification/Rest_Core.thy ===== *)
theory Rest_Core
  imports Meta_Store
begin

text \<open>
  What the handlers of the REST API share (\<open>backend/internal/api\<close>): the answers of the error
  envelope (\<open>errors.go\<close>), the wire records (\<open>internal/openapi/types.gen.go\<close>) and their converters
  and helpers (\<open>helpers.go\<close>), the queries on the sites table, and the frame of a handler: access,
  body, service call, audit.

  A handler maps the world (the site service with the sites table, and the other tables) and its
  decoded arguments to the next world and an answer. A call brings the session's user, the queries of
  the store that fail, the clock and the identifiers made during the call. A JSON body is given
  decoded, or with the reason why it does not decode. The metadata object of an audit row is left out.
\<close>

section \<open>The error envelope\<close>

definition codeUnsupportedMediaType :: errorCode where "codeUnsupportedMediaType = ''unsupported_media_type''"
definition codeInternal :: errorCode where "codeInternal = ''internal''"

datatype error_details =
    NoDetails
  | ConflictDetails (cd_Branch: string) (cd_Expected: string) (cd_Actual: string) (cd_ChangedPaths: "string list")
  | PublishConflictDetails "string list"
  | ValidationDetails (vd_Field: string) (vd_Reason: string)

type_synonym rest_error = "api_error \<times> error_details"

definition rest_err :: "nat \<Rightarrow> errorCode \<Rightarrow> string \<Rightarrow> error_details \<Rightarrow> rest_error" where
  "rest_err status code msg details = (\<lparr> ae_status = status, ae_code = code, ae_message = msg \<rparr>, details)"

definition statusAndCode :: "site_error option \<Rightarrow> nat \<times> errorCode" where
  "statusAndCode err =
     (case err of
        None \<Rightarrow> (200, [])
      | Some e \<Rightarrow>
          if err_is e ErrNotFound then (404, codeNotFound)
          else if err_is e ErrForbidden then (403, codeForbidden)
          else if err_is e ErrHandleTaken then (409, codeHandleTaken)
          else if err_is e ErrPublishConflict then (409, codePublishConflict)
          else if err_is e ErrBranchExists then (409, codeBranchExists)
          else if err_is e ErrNothingToCommit then (409, codeNothingToCommit)
          else if err_is e ErrConflict then (409, codeConflict)
          else if err_is e ErrZipTooLarge \<or> err_is e ErrZipTooManyFiles then (413, codeTooLarge)
          else if err_is e ErrQuotaExceeded then (413, codeQuotaExceeded)
          else if err_is e ErrZipBadType then (415, codeUnsupportedMediaType)
          else if err_is e ErrZipSlip then (400, codeValidation)
          else if err_is e ErrValidation \<or> err_is e ErrReservedHandle then (422, codeValidation)
          else (500, codeInternal))"

definition safeMessageFor :: "errorCode \<Rightarrow> string" where
  "safeMessageFor code =
     (if code = codeNotFound then ''resource not found''
      else if code = codeForbidden then ''you do not have permission to do that''
      else if code = codeUnauthenticated then ''authentication required''
      else if code = codeHandleTaken then ''that handle is already taken''
      else if code = codePublishConflict then ''publish could not merge cleanly''
      else if code = codeBranchExists then ''that branch already exists''
      else if code = codeNothingToCommit then ''there is nothing to commit''
      else if code = codeConflict then ''the resource changed since you last read it''
      else if code = codeTooLarge then ''the upload is too large''
      else if code = codeUnsupportedMediaType then ''that file type is not allowed''
      else if code = codeValidation then ''request failed validation''
      else if code = codeRateLimited then ''too many requests''
      else if code = codeQuotaExceeded then ''quota exceeded''
      else ''something went wrong'')"

definition writeServiceError :: "site_error \<Rightarrow> rest_error" where
  "writeServiceError e =
     (case statusAndCode (Some e) of
        (status, code) \<Rightarrow>
          (case e of
             ConflictError b expected actual changed \<Rightarrow>
               rest_err status code ''the file or branch changed since you last read it'' (ConflictDetails b expected actual changed)
           | PublishConflictError paths \<Rightarrow>
               rest_err status code ''publish could not merge cleanly'' (PublishConflictDetails paths)
           | ValidationError f reason \<Rightarrow> rest_err status code ''request failed validation'' (ValidationDetails f reason)
           | _ \<Rightarrow> rest_err status code (safeMessageFor code) NoDetails))"

definition WriteRateLimited :: rest_error where
  "WriteRateLimited = rest_err 429 codeRateLimited (safeMessageFor codeRateLimited) NoDetails"

text \<open>An error of the store is none of the service's categories.\<close>

fun row_error_text :: "row_error \<Rightarrow> string" where
  "row_error_text NoRows = ''no rows in result set''"
| "row_error_text (RowError e) = e"

definition store_error :: "row_error \<Rightarrow> rest_error" where
  "store_error e = writeServiceError (ForeignError (row_error_text e))"

definition invalid_body :: "string \<Rightarrow> rest_error" where
  "invalid_body reason = rest_err 400 codeValidation ''invalid request body'' (ValidationDetails [] reason)"

definition invalid_field :: "string \<Rightarrow> string \<Rightarrow> string \<Rightarrow> rest_error" where
  "invalid_field msg f reason = rest_err 422 codeValidation msg (ValidationDetails f reason)"

section \<open>The world and the call\<close>

record rest_world =
  rw_svc :: FakeService
  rw_db :: MetaDB

record rest_server =
  rs_IsProduction :: bool
  rs_BaseDomain :: string
  rs_MaxUploadBytes :: int
  rs_SignGrant :: "(uuid \<Rightarrow> string \<Rightarrow> int \<Rightarrow> string) option"
  rs_parseUUID :: "string \<Rightarrow> uuid option"
  rs_sha256 :: "string \<Rightarrow> string"

text \<open>
  \<open>rs_BaseDomain\<close> is the effective domain for the request, \<open>rs_SignGrant\<close> the preview signer, if wired;
  \<open>uuid.Parse\<close> and SHA-256 are parameters. \<open>rc_draw i\<close> is the answer of the random source to the \<open>i\<close>-th
  \<open>rand.Int\<close> of the call, below 62.
\<close>

record rest_call =
  rc_user :: "session_user option"
  rc_fails :: "string \<Rightarrow> string option"
  rc_now :: int
  rc_clk :: clock
  rc_newID :: uuid
  rc_draw :: "nat \<Rightarrow> nat option"

type_synonym 'a answer = "rest_world \<times> (rest_error + 'a)"
type_synonym 'b body = "string + 'b"

text \<open>A query of the store, which the call may make fail.\<close>

definition query :: "rest_call \<Rightarrow> string \<Rightarrow> 'a rows \<Rightarrow> 'a rows" where
  "query c name r = (case rc_fails c name of Some e \<Rightarrow> Inl (RowError e) | None \<Rightarrow> r)"

definition meta_role :: "rest_call \<Rightarrow> MetaDB \<Rightarrow> uuid \<Rightarrow> uuid \<Rightarrow> role_row" where
  "meta_role c d i u =
     (case query c ''GetRole'' (sql_GetRole d i u) of
        Inr r \<Rightarrow> HasRole r
      | Inl NoRows \<Rightarrow> NoMembership
      | Inl (RowError e) \<Rightarrow> StoreFails e)"

definition set_db :: "rest_world \<Rightarrow> MetaDB \<Rightarrow> rest_world" where
  "set_db w d = w\<lparr> rw_db := d \<rparr>"

definition set_svc :: "rest_world \<Rightarrow> FakeService \<Rightarrow> rest_world" where
  "set_svc w f = w\<lparr> rw_svc := f \<rparr>"

definition auditBestEffort :: "rest_call \<Rightarrow> rest_world \<Rightarrow> AuditEntry \<Rightarrow> rest_world" where
  "auditBestEffort c w e =
     (case query c ''InsertAudit'' (sql_InsertAudit (rw_db w) e) of Inl _ \<Rightarrow> w | Inr d \<Rightarrow> set_db w d)"

definition site_audit :: "access \<Rightarrow> string \<Rightarrow> string \<Rightarrow> string option \<Rightarrow> AuditEntry" where
  "site_audit ac action source h =
     \<lparr> al_ActorUserID = Some (su_UserID (acc_user ac)), al_SiteID = Some (st_ID (acc_site ac)), al_TokenID = None,
       al_Action = action, al_Source = source, al_CommitSha = h \<rparr>"

definition audited :: "rest_call \<Rightarrow> rest_world \<Rightarrow> access \<Rightarrow> string \<Rightarrow> string option \<Rightarrow> rest_world" where
  "audited c w ac action h = auditBestEffort c w (site_audit ac action SourceEditor h)"

text \<open>The frame: \<open>resolveAccess\<close> and \<open>decodeJSON\<close> first, each answering on its own when it fails.\<close>

definition with_access :: "rest_call \<Rightarrow> rest_world \<Rightarrow> handle \<Rightarrow> capability \<Rightarrow> (access \<Rightarrow> 'a answer) \<Rightarrow> 'a answer" where
  "with_access c w h cp k =
     (case resolveAccess (GetSiteByHandle (rw_svc w)) (meta_role c (rw_db w)) (rc_user c) h cp of
        Inl e \<Rightarrow> (w, Inl (e, NoDetails))
      | Inr ac \<Rightarrow> k ac)"

definition with_user :: "rest_call \<Rightarrow> rest_world \<Rightarrow> (session_user \<Rightarrow> 'a answer) \<Rightarrow> 'a answer" where
  "with_user c w k = (case rc_user c of None \<Rightarrow> (w, Inl (err_unauthenticated, NoDetails)) | Some u \<Rightarrow> k u)"

definition with_body :: "rest_world \<Rightarrow> 'b body \<Rightarrow> ('b \<Rightarrow> 'a answer) \<Rightarrow> 'a answer" where
  "with_body w b k = (case b of Inl reason \<Rightarrow> (w, Inl (invalid_body reason)) | Inr x \<Rightarrow> k x)"

definition with_result :: "rest_world \<Rightarrow> 'x result \<Rightarrow> ('x \<Rightarrow> 'a answer) \<Rightarrow> 'a answer" where
  "with_result w r k = (case r of Inl e \<Rightarrow> (w, Inl (writeServiceError e)) | Inr x \<Rightarrow> k x)"

definition with_service :: "rest_world \<Rightarrow> FakeService \<times> 'x result \<Rightarrow> (rest_world \<Rightarrow> 'x \<Rightarrow> 'a answer) \<Rightarrow> 'a answer" where
  "with_service w fr k = (case fr of (f, r) \<Rightarrow> with_result (set_svc w f) r (k (set_svc w f)))"

definition with_rows :: "rest_world \<Rightarrow> 'x rows \<Rightarrow> ('x \<Rightarrow> 'a answer) \<Rightarrow> 'a answer" where
  "with_rows w r k = (case r of Inl e \<Rightarrow> (w, Inl (store_error e)) | Inr x \<Rightarrow> k x)"

section \<open>The sites table\<close>

definition sql_UpdateSiteSettings :: "FakeService \<Rightarrow> int \<Rightarrow> uuid \<Rightarrow> string \<Rightarrow> string \<Rightarrow> string \<Rightarrow> string \<Rightarrow> FakeService rows" where
  "sql_UpdateSiteSettings f now i vis mode webroot desc =
     (if vis \<notin> {''public'', ''members'', ''private''} then Inl (RowError ''invalid input value for enum site_visibility'')
      else if mode \<notin> {''direct'', ''request''} then Inl (RowError ''violates check constraint'')
      else
        Inr (case gm_get (sites f) i of
               None \<Rightarrow> f
             | Some s \<Rightarrow>
                 put_site f i (s\<lparr> rec := (rec s)\<lparr> sr_Visibility := vis, sr_PublishMode := mode, sr_WebRoot := webroot,
                                              sr_Description := desc, sr_UpdatedAt := now \<rparr> \<rparr>)))"

definition sql_BumpCacheVersion :: "FakeService \<Rightarrow> uuid \<Rightarrow> (FakeService \<times> int) rows" where
  "sql_BumpCacheVersion f i =
     (case liveSite f i of
        Inl _ \<Rightarrow> Inl NoRows
      | Inr s \<Rightarrow>
          let v = sr_CacheVersion (rec s) + 1 in
          if 2147483647 < v then Inl (RowError ''integer out of range'')
          else Inr (put_site f i (s\<lparr> rec := (rec s)\<lparr> sr_CacheVersion := v \<rparr> \<rparr>), v))"

section \<open>Helpers\<close>

definition derefStr :: "string option \<Rightarrow> string" where
  "derefStr p = (case p of None \<Rightarrow> [] | Some s \<Rightarrow> s)"

definition rest_actorFor :: "session_user \<Rightarrow> string \<Rightarrow> Actor" where
  "rest_actorFor u v =
     \<lparr> ac_UserID = su_UserID u, ac_Name = (if su_DisplayName u = [] then su_Email u else su_DisplayName u),
       ac_Email = (if su_Email u = [] then su_UserID u @ ''@kotoji.local'' else su_Email u), ac_Via = v, ac_TokenID = None \<rparr>"

definition rest_urlFor :: "rest_server \<Rightarrow> string \<Rightarrow> string" where
  "rest_urlFor s label =
     (let scheme = (if rs_IsProduction s then ''https'' else ''http'') in
      if rs_BaseDomain s = [] then scheme @ ''://'' @ label else scheme @ ''://'' @ label @ ''.'' @ rs_BaseDomain s)"

section \<open>Wire records\<close>

record SiteWire =
  sw_Id :: uuid
  sw_Handle :: string
  sw_OwnerId :: uuid
  sw_Visibility :: string
  sw_DefaultBranch :: string
  sw_GithubRepo :: "string option"
  sw_PublishMode :: string
  sw_WebRoot :: string
  sw_HasPublished :: bool
  sw_PublishedSha :: "string option"
  sw_PublishedAt :: "int option"
  sw_Description :: string
  sw_CreatedAt :: int
  sw_UpdatedAt :: int

definition toSiteWire :: "Site \<Rightarrow> SiteWire" where
  "toSiteWire s =
     \<lparr> sw_Id = st_ID s, sw_Handle = st_Handle s, sw_OwnerId = st_OwnerID s, sw_Visibility = st_Visibility s,
       sw_DefaultBranch = st_DefaultBranch s, sw_GithubRepo = emptyToNil (st_GitHubRepo s), sw_PublishMode = st_PublishMode s,
       sw_WebRoot = st_WebRoot s, sw_HasPublished = st_HasPublished s, sw_PublishedSha = emptyToNil (st_PublishedSHA s),
       sw_PublishedAt = st_PublishedAt s, sw_Description = st_Description s, sw_CreatedAt = st_CreatedAt s,
       sw_UpdatedAt = st_UpdatedAt s \<rparr>"

record SiteSummaryWire =
  sy_Id :: uuid
  sy_Handle :: string
  sy_Visibility :: string
  sy_DefaultBranch :: string
  sy_PublishedSha :: "string option"
  sy_PublishedAt :: "int option"
  sy_HasPublished :: bool
  sy_Description :: string
  sy_UpdatedAt :: int
  sy_Role :: site_role

definition toSiteSummary :: "Site \<Rightarrow> site_role \<Rightarrow> SiteSummaryWire" where
  "toSiteSummary s role =
     \<lparr> sy_Id = st_ID s, sy_Handle = st_Handle s, sy_Visibility = st_Visibility s, sy_DefaultBranch = st_DefaultBranch s,
       sy_PublishedSha = emptyToNil (st_PublishedSHA s), sy_PublishedAt = st_PublishedAt s, sy_HasPublished = st_HasPublished s,
       sy_Description = st_Description s, sy_UpdatedAt = st_UpdatedAt s, sy_Role = role \<rparr>"

record CommitWire =
  cw_Sha :: string
  cw_ShortSha :: string
  cw_Message :: string
  cw_AuthorName :: string
  cw_AuthorEmail :: string
  cw_Committed :: int
  cw_Parents :: "string list option"
  cw_Via :: string

definition viaOrSystem :: "string \<Rightarrow> string" where
  "viaOrSystem v = (if v = [] then SourceSystem else v)"

definition toCommitWire :: "CommitInfo \<Rightarrow> CommitWire" where
  "toCommitWire c =
     \<lparr> cw_Sha = ci_SHA c, cw_ShortSha = ci_ShortSHA c, cw_Message = ci_Message c, cw_AuthorName = ci_AuthorName c,
       cw_AuthorEmail = ci_AuthorEmail c, cw_Committed = ci_Committed c,
       cw_Parents = (if ci_Parents c = [] then None else Some (ci_Parents c)), cw_Via = viaOrSystem (ci_Via c) \<rparr>"

record BranchWire =
  bw_Name :: string
  bw_HeadSha :: string
  bw_IsPublished :: bool
  bw_LastCommit :: CommitWire
  bw_PreviewSubdomain :: string

definition toBranchWire :: "Branch \<Rightarrow> BranchWire" where
  "toBranchWire b =
     \<lparr> bw_Name = br_Name b, bw_HeadSha = br_HeadSHA b, bw_IsPublished = br_IsPublished b,
       bw_LastCommit = toCommitWire (br_LastCommit b), bw_PreviewSubdomain = br_PreviewSubdomain b \<rparr>"

record FileDiffWire =
  dw_Path :: string
  dw_OldPath :: "string option"
  dw_Status :: string
  dw_Additions :: int
  dw_Deletions :: int
  dw_IsBinary :: bool
  dw_UnifiedPatch :: string

definition toFileDiffWire :: "FileDiff \<Rightarrow> FileDiffWire" where
  "toFileDiffWire d =
     \<lparr> dw_Path = fd_Path d, dw_OldPath = (if fd_OldPath d \<noteq> [] then Some (fd_OldPath d) else None), dw_Status = fd_Status d,
       dw_Additions = fd_Additions d, dw_Deletions = fd_Deletions d, dw_IsBinary = fd_IsBinary d,
       dw_UnifiedPatch = fd_UnifiedPatch d \<rparr>"

text \<open>The wire form of a file entry has the fields of the service's.\<close>

record WriteResult =
  wr_Path :: string
  wr_Branch :: string
  wr_Committed :: bool
  wr_Commit :: string
  wr_BytesWritten :: "int option"
  wr_Pushed :: bool

section \<open>Facts\<close>

lemma rest_err_simps [simp]:
  "ae_status (fst (rest_err st code msg dt)) = st" "ae_code (fst (rest_err st code msg dt)) = code"
  "ae_message (fst (rest_err st code msg dt)) = msg" "snd (rest_err st code msg dt) = dt"
  by (simp_all add: rest_err_def)

lemma set_world_simps [simp]:
  "rw_svc (set_db w d) = rw_svc w" "rw_db (set_db w d) = d" "rw_svc (set_svc w f) = f" "rw_db (set_svc w f) = rw_db w"
  by (simp_all add: set_db_def set_svc_def)

text \<open>The audit row is the only trace of the audit.\<close>

definition set_audit :: "MetaDB \<Rightarrow> AuditEntry list \<Rightarrow> MetaDB" where
  "set_audit d es = d\<lparr> db_audit := es \<rparr>"

lemma set_audit_simps [simp]:
  "db_users (set_audit d es) = db_users d" "db_members (set_audit d es) = db_members d" "db_tokens (set_audit d es) = db_tokens d"
  "db_sessions (set_audit d es) = db_sessions d" "set_audit d (db_audit d) = d"
  by (simp_all add: set_audit_def)

lemma audit_cases: "\<exists>es. auditBestEffort c w e = set_db w (set_audit (rw_db w) es)"
proof (cases "rc_fails c ''InsertAudit''")
  case None
  then show ?thesis by (intro exI [of _ "db_audit (rw_db w) @ [e]"])
      (simp add: auditBestEffort_def query_def sql_InsertAudit_def set_audit_def)
next
  case (Some x)
  then show ?thesis by (intro exI [of _ "db_audit (rw_db w)"])
      (simp add: auditBestEffort_def query_def set_db_def)
qed

lemma audited_simps [simp]:
  "rw_svc (auditBestEffort c w e) = rw_svc w" "db_users (rw_db (auditBestEffort c w e)) = db_users (rw_db w)"
  "db_members (rw_db (auditBestEffort c w e)) = db_members (rw_db w)" "db_tokens (rw_db (auditBestEffort c w e)) = db_tokens (rw_db w)"
  "db_sessions (rw_db (auditBestEffort c w e)) = db_sessions (rw_db w)"
  "rw_svc (audited c w ac action h) = rw_svc w" "db_users (rw_db (audited c w ac action h)) = db_users (rw_db w)"
  "db_members (rw_db (audited c w ac action h)) = db_members (rw_db w)" "db_tokens (rw_db (audited c w ac action h)) = db_tokens (rw_db w)"
  "db_sessions (rw_db (audited c w ac action h)) = db_sessions (rw_db w)"
  using audit_cases [of c w] by (auto simp: audited_def)
    (metis set_world_simps(1,2) set_audit_simps)+

section \<open>One taxonomy\<close>

text \<open>An error the service keeps to itself is answered without its text.\<close>

definition internal_error :: "site_error \<Rightarrow> bool" where
  "internal_error e \<longleftrightarrow> (\<forall>t. err_is e t \<longrightarrow> t = ErrGit)"

lemma statusAndCode_statusFor: "fst (statusAndCode err) = statusFor err"
proof (cases err)
  case (Some e)
  show ?thesis
  proof (cases "\<exists>t. err_is e t")
    case True
    then obtain t where t: "err_is e t" by blast
    then have "err_is e u \<longleftrightarrow> u = t" for u using err_is_unique by blast
    then show ?thesis using Some by (cases t) (simp_all add: statusAndCode_def statusFor_def)
  next
    case False
    then show ?thesis using Some by (simp add: statusAndCode_def statusFor_def)
  qed
qed (simp add: statusAndCode_def statusFor_def)

lemma internal_answer:
  assumes "internal_error e"
  shows "writeServiceError e = rest_err 500 codeInternal ''something went wrong'' NoDetails"
proof -
  have s: "statusAndCode (Some e) = (500, codeInternal)"
    using assms by (auto simp: statusAndCode_def internal_error_def)
  have m: "safeMessageFor codeInternal = ''something went wrong''" by code_simp
  show ?thesis unfolding writeServiceError_def s prod.case using assms by (cases e) (simp_all add: m internal_error_def)
qed

lemma statusFor_internal: "statusFor (Some e) = 500 \<longleftrightarrow> internal_error e"
proof (cases "\<exists>t. err_is e t")
  case True
  then obtain t where t: "err_is e t" by blast
  then have "internal_error e \<longleftrightarrow> t = ErrGit" using err_is_unique by (auto simp: internal_error_def)
  then show ?thesis using statusFor_category [OF t] by (cases t) simp_all
next
  case False
  then show ?thesis by (simp add: statusFor_def internal_error_def)
qed

lemma not_internal_code: "\<not> internal_error e \<Longrightarrow> snd (statusAndCode (Some e)) \<noteq> codeInternal"
proof -
  assume "\<not> internal_error e"
  then obtain t where t: "err_is e t" "t \<noteq> ErrGit" by (auto simp: internal_error_def)
  then have "err_is e u \<longleftrightarrow> u = t" for u using err_is_unique by blast
  moreover have "\<forall>c \<in> {codeNotFound, codeForbidden, codeHandleTaken, codePublishConflict, codeBranchExists, codeNothingToCommit,
      codeConflict, codeTooLarge, codeQuotaExceeded, codeUnsupportedMediaType, codeValidation}. c \<noteq> codeInternal" by code_simp
  ultimately show ?thesis using t by (cases t) (simp_all add: statusAndCode_def)
qed

section \<open>Properties\<close>

text \<open>
  C21: The REST layer and the service agree on every error. The status of the envelope is the one
  the service's own table gives; an error of git, of the store or of anything unknown is answered
  with a fixed text whatever it says itself, and no other error has that code; and the details
  carry the base and tip of a lost race, the conflicting paths of a merge, or the refused field.
\<close>

theorem rest_errors_agree:
  "ae_status (fst (writeServiceError e)) = statusFor (Some e) \<and>
   (internal_error e \<longleftrightarrow> writeServiceError e = rest_err 500 codeInternal ''something went wrong'' NoDetails) \<and>
   (internal_error e \<longleftrightarrow> ae_code (fst (writeServiceError e)) = codeInternal) \<and>
   (\<forall>b expected actual paths. snd (writeServiceError e) = ConflictDetails b expected actual paths \<longleftrightarrow> e = ConflictError b expected actual paths) \<and>
   (\<forall>paths. snd (writeServiceError e) = PublishConflictDetails paths \<longleftrightarrow> e = PublishConflictError paths) \<and>
   (\<forall>f reason. snd (writeServiceError e) = ValidationDetails f reason \<longleftrightarrow> e = ValidationError f reason)"
proof -
  obtain st code where sc: "statusAndCode (Some e) = (st, code)" by (cases "statusAndCode (Some e)")
  then have st: "st = statusFor (Some e)" using statusAndCode_statusFor [of "Some e"] by simp
  have a: "ae_status (fst (writeServiceError e)) = st" "ae_code (fst (writeServiceError e)) = code"
    unfolding writeServiceError_def sc prod.case by (cases e; simp)+
  have i: "internal_error e \<longleftrightarrow> code = codeInternal"
    using internal_answer [of e] not_internal_code [of e] a(2) sc by (cases "internal_error e") auto
  have eq: "internal_error e \<longleftrightarrow> writeServiceError e = rest_err 500 codeInternal ''something went wrong'' NoDetails"
    using internal_answer [of e] a(2) i by (metis rest_err_simps(2))
  have d: "snd (writeServiceError e) = ConflictDetails b expected actual paths \<longleftrightarrow> e = ConflictError b expected actual paths"
      "snd (writeServiceError e) = PublishConflictDetails paths \<longleftrightarrow> e = PublishConflictError paths"
      "snd (writeServiceError e) = ValidationDetails f reason \<longleftrightarrow> e = ValidationError f reason" for b expected actual paths f reason
    unfolding writeServiceError_def sc prod.case by (cases e; auto)+
  show ?thesis by (intro conjI allI, simp add: a st, rule eq, simp only: a i, rule d, rule d, rule d)
qed

end
