(* ===== verification/Rest_Content.thy ===== *)
theory Rest_Content
  imports Rest_Core Preview_Grant
begin

text \<open>
  The handlers of the REST API on the content of a site: files (\<open>api/files.go\<close>), history
  (\<open>history.go\<close>), branches (\<open>branches.go\<close>), publishing and the cache (\<open>publish.go\<close>), the zip upload
  (\<open>upload.go\<close>) and the preview grant (\<open>preview.go\<close>). A query parameter that is absent is empty. The
  byte offset in the error of a bad base64 text is left out.
\<close>

section \<open>UTF-8\<close>

text \<open>\<open>utf8.Valid\<close>\<close>

definition utf8_cont :: "nat \<Rightarrow> bool" where
  "utf8_cont b = (0x80 \<le> b \<and> b \<le> 0xBF)"

fun utf8_valid :: "nat list \<Rightarrow> bool" where
  "utf8_valid [] = True"
| "utf8_valid (b # bs) =
     (if b < 0x80 then utf8_valid bs
      else if 0xC2 \<le> b \<and> b \<le> 0xDF then
        (case bs of c # cs \<Rightarrow> utf8_cont c \<and> utf8_valid cs | _ \<Rightarrow> False)
      else if 0xE0 \<le> b \<and> b \<le> 0xEF then
        (case bs of
           c # d # ds \<Rightarrow>
             utf8_cont c \<and> utf8_cont d \<and> (b = 0xE0 \<longrightarrow> 0xA0 \<le> c) \<and> (b = 0xED \<longrightarrow> c \<le> 0x9F) \<and> utf8_valid ds
         | _ \<Rightarrow> False)
      else if 0xF0 \<le> b \<and> b \<le> 0xF4 then
        (case bs of
           c # d # e # es \<Rightarrow>
             utf8_cont c \<and> utf8_cont d \<and> utf8_cont e \<and> (b = 0xF0 \<longrightarrow> 0x90 \<le> c) \<and> (b = 0xF4 \<longrightarrow> c \<le> 0x8F) \<and> utf8_valid es
         | _ \<Rightarrow> False)
      else False)"

section \<open>Files\<close>

record FileListing =
  fl_Branch :: string
  fl_Ref :: string
  fl_Files :: "FileEntry list"

definition rest_listFiles ::
  "rest_call \<Rightarrow> rest_world \<Rightarrow> handle \<Rightarrow> string \<Rightarrow> string \<Rightarrow> string \<Rightarrow> string \<Rightarrow> FileListing answer" where
  "rest_listFiles c w h branch dir ref recursive =
     with_access c w h capRead (\<lambda>ac.
       with_result w (ListFiles (rw_svc w)
           \<lparr> lf_SiteID = st_ID (acc_site ac), lf_Branch = branch, lf_Dir = dir, lf_Ref = ref, lf_Recursive = (recursive = ''true'') \<rparr>)
         (\<lambda>(entries, ref_sha). (w, Inr \<lparr> fl_Branch = branch, fl_Ref = ref_sha, fl_Files = entries \<rparr>)))"

record FileContentWire =
  fw_Path :: string
  fw_Sha :: string
  fw_BlobSha :: string
  fw_Encoding :: string
  fw_Content :: string
  fw_Size :: int
  fw_IsBinary :: bool

definition encodingWireUtf8 :: string where "encodingWireUtf8 = ''utf-8''"
definition encodingWireBase64 :: string where "encodingWireBase64 = ''base64''"

definition toFileContentWire :: "FileContent \<Rightarrow> FileContentWire" where
  "toFileContentWire fc =
     (let binary = (fc_IsBinary fc \<or> \<not> utf8_valid (bytes_of (fc_Content fc))) in
      \<lparr> fw_Path = fc_Path fc, fw_Sha = fc_SHA fc, fw_BlobSha = fc_BlobSHA fc,
        fw_Encoding = (if binary then encodingWireBase64 else encodingWireUtf8),
        fw_Content = (if binary then std_EncodeToString (fc_Content fc) else fc_Content fc),
        fw_Size = fc_Size fc, fw_IsBinary = fc_IsBinary fc \<rparr>)"

definition rest_readFile :: "rest_call \<Rightarrow> rest_world \<Rightarrow> handle \<Rightarrow> string \<Rightarrow> string \<Rightarrow> string \<Rightarrow> FileContentWire answer" where
  "rest_readFile c w h branch path ref =
     with_access c w h capRead (\<lambda>ac.
       if path = [] then (w, Inl (invalid_field ''path is required'' ''path'' ''required''))
       else
         with_result w (ReadFile (rw_svc w) (st_ID (acc_site ac)) branch ref path) (\<lambda>fc.
           (w, Inr (toFileContentWire fc))))"

record WriteFileRequest =
  wq_Path :: string
  wq_Content :: string
  wq_Encoding :: "string option"
  wq_BaseSha :: string
  wq_Commit :: "bool option"
  wq_Message :: "string option"

definition rest_decodeContent :: "string \<Rightarrow> string option \<Rightarrow> string option" where
  "rest_decodeContent content encoding =
     (if encoding = Some encodingWireBase64 then std_DecodeString content else Some content)"

definition rest_writeFile ::
  "rest_call \<Rightarrow> rest_world \<Rightarrow> handle \<Rightarrow> string \<Rightarrow> WriteFileRequest body \<Rightarrow> WriteResult answer" where
  "rest_writeFile c w h branch body =
     with_access c w h capWrite (\<lambda>ac. with_body w body (\<lambda>b.
       (case rest_decodeContent (wq_Content b) (wq_Encoding b) of
          None \<Rightarrow>
            (w, Inl (rest_err 400 codeValidation ''invalid content encoding'' (ValidationDetails ''content'' ''illegal base64 data'')))
        | Some content \<Rightarrow>
            let commits = (case wq_Commit b of None \<Rightarrow> True | Some v \<Rightarrow> v) in
            with_service w (WriteFile (rw_svc w) (rc_clk c)
                \<lparr> wf_SiteID = st_ID (acc_site ac), wf_Branch = branch, wf_Path = wq_Path b, wf_Content = content,
                  wf_BaseSHA = wq_BaseSha b, wf_Commit = commits, wf_Message = derefStr (wq_Message b),
                  wf_Actor = rest_actorFor (acc_user ac) SourceEditor \<rparr>)
              (\<lambda>w1 ci.
                 (audited c w1 ac ''file.write'' (emptyToNil (ci_SHA ci)),
                  Inr \<lparr> wr_Path = wq_Path b, wr_Branch = branch, wr_Committed = commits, wr_Commit = ci_SHA ci,
                        wr_BytesWritten = Some (int (length content)), wr_Pushed = False \<rparr>)))))"

definition rest_deleteFile ::
  "rest_call \<Rightarrow> rest_world \<Rightarrow> handle \<Rightarrow> string \<Rightarrow> string \<Rightarrow> string \<Rightarrow> CommitWire answer" where
  "rest_deleteFile c w h branch path baseSha =
     with_access c w h capWrite (\<lambda>ac.
       if path = [] \<or> baseSha = [] then
         (w, Inl (invalid_field ''path and baseSha are required'' [] ''path and baseSha are required''))
       else
         with_service w (DeleteFile (rw_svc w) (rc_clk c) (st_ID (acc_site ac)) branch path baseSha (rest_actorFor (acc_user ac) SourceEditor))
           (\<lambda>w1 ci. (audited c w1 ac ''file.delete'' (emptyToNil (ci_SHA ci)), Inr (toCommitWire ci))))"

section \<open>History\<close>

definition rest_defaultLogLimit :: int where "rest_defaultLogLimit = 50"
definition rest_maxLogLimit :: int where "rest_maxLogLimit = 500"

record CommitRequest =
  cq_Message :: "string option"
  cq_BaseSha :: string

definition rest_commit ::
  "rest_call \<Rightarrow> rest_world \<Rightarrow> handle \<Rightarrow> string \<Rightarrow> CommitRequest body \<Rightarrow> WriteResult answer" where
  "rest_commit c w h branch body =
     with_access c w h capWrite (\<lambda>ac. with_body w body (\<lambda>b.
       with_result w (Commit (rw_svc w)
           \<lparr> cm_SiteID = st_ID (acc_site ac), cm_Branch = branch, cm_Message = derefStr (cq_Message b),
             cm_BaseSHA = cq_BaseSha b, cm_Actor = rest_actorFor (acc_user ac) SourceEditor \<rparr>)
         (\<lambda>ci.
            (audited c w ac ''commit'' (emptyToNil (ci_SHA ci)),
             Inr \<lparr> wr_Path = [], wr_Branch = branch, wr_Committed = True, wr_Commit = ci_SHA ci, wr_BytesWritten = None,
                   wr_Pushed = False \<rparr>))))"

text \<open>\<open>limit\<close>: the default where the parameter is absent, no number or below one, and at most the maximum.\<close>

definition log_page_limit :: "string \<Rightarrow> int" where
  "log_page_limit v =
     (let limit = (if v \<noteq> [] then (case parse_int64 v of Some n \<Rightarrow> n | None \<Rightarrow> rest_defaultLogLimit) else rest_defaultLogLimit);
          limit = (if limit < 1 then rest_defaultLogLimit else limit)
      in if rest_maxLogLimit < limit then rest_maxLogLimit else limit)"

record LogResultWire =
  lw_Branch :: string
  lw_Commits :: "CommitWire list"
  lw_NextBefore :: "string option"

text \<open>One row more than the page is asked for; the page's last commit is the next cursor when there is one.\<close>

definition log_page :: "string \<Rightarrow> int \<Rightarrow> CommitInfo list \<Rightarrow> LogResultWire" where
  "log_page branch limit commits =
     (if limit < int (length commits) then
        \<lparr> lw_Branch = branch, lw_Commits = map toCommitWire (take (nat limit) commits),
          lw_NextBefore = Some (ci_SHA (commits ! nat (limit - 1))) \<rparr>
      else \<lparr> lw_Branch = branch, lw_Commits = map toCommitWire commits, lw_NextBefore = None \<rparr>)"

definition rest_getLog ::
  "rest_call \<Rightarrow> rest_world \<Rightarrow> handle \<Rightarrow> string \<Rightarrow> string \<Rightarrow> string \<Rightarrow> string \<Rightarrow> LogResultWire answer" where
  "rest_getLog c w h branch limit_text before path =
     with_access c w h capRead (\<lambda>ac.
       let limit = log_page_limit limit_text in
       with_result w (GetLog (rw_svc w)
           \<lparr> lo_SiteID = st_ID (acc_site ac), lo_Branch = branch, lo_Limit = limit + 1, lo_Before = before, lo_Path = path \<rparr>)
         (\<lambda>commits. (w, Inr (log_page branch limit commits))))"

record DiffResultWire =
  rd_FromSha :: string
  rd_ToSha :: string
  rd_Files :: "FileDiffWire list"

definition rest_getDiff ::
  "rest_call \<Rightarrow> rest_world \<Rightarrow> handle \<Rightarrow> string \<Rightarrow> string \<Rightarrow> string \<Rightarrow> string \<Rightarrow> string \<Rightarrow> DiffResultWire answer" where
  "rest_getDiff c w h from_ref to_ref path lines_text name_status =
     with_access c w h capRead (\<lambda>ac.
       if from_ref = [] then (w, Inl (invalid_field ''from is required'' ''from'' ''required''))
       else
         let n = (if lines_text \<noteq> [] then (case parse_int64 lines_text of Some n \<Rightarrow> n | None \<Rightarrow> 3) else 3) in
         with_result w (GetDiff (rw_svc w)
             \<lparr> do_SiteID = st_ID (acc_site ac), do_From = from_ref, do_To = to_ref, do_Path = path, do_ContextLines = n,
               do_NameStatus = (name_status = ''true'') \<rparr>)
           (\<lambda>res.
              (w, Inr \<lparr> rd_FromSha = dr_FromSHA res, rd_ToSha = dr_ToSHA res, rd_Files = map toFileDiffWire (dr_Files res) \<rparr>)))"

record RollbackRequest =
  bq_ToSha :: string
  bq_BaseSha :: string

definition rest_rollback ::
  "rest_call \<Rightarrow> rest_world \<Rightarrow> handle \<Rightarrow> string \<Rightarrow> RollbackRequest body \<Rightarrow> CommitWire answer" where
  "rest_rollback c w h branch body =
     with_access c w h capWrite (\<lambda>ac. with_body w body (\<lambda>b.
       with_service w (Rollback (rw_svc w) (rc_clk c) (st_ID (acc_site ac)) branch (bq_ToSha b) (bq_BaseSha b)
           (rest_actorFor (acc_user ac) SourceEditor))
         (\<lambda>w1 ci. (audited c w1 ac ''rollback'' (emptyToNil (ci_SHA ci)), Inr (toCommitWire ci)))))"

section \<open>Branches\<close>

definition rest_listBranches :: "rest_call \<Rightarrow> rest_world \<Rightarrow> handle \<Rightarrow> BranchWire list answer" where
  "rest_listBranches c w h =
     with_access c w h capRead (\<lambda>ac.
       with_result w (ListBranches (rw_svc w) (st_ID (acc_site ac))) (\<lambda>bs. (w, Inr (map toBranchWire bs))))"

record CreateBranchRequest =
  nq_Name :: string
  nq_From :: string

definition rest_createBranch ::
  "rest_call \<Rightarrow> rest_world \<Rightarrow> handle \<Rightarrow> CreateBranchRequest body \<Rightarrow> BranchWire answer" where
  "rest_createBranch c w h body =
     with_access c w h capWrite (\<lambda>ac. with_body w body (\<lambda>b.
       with_service w (CreateBranch (rw_svc w) (st_ID (acc_site ac)) (nq_Name b) (nq_From b))
         (\<lambda>w1 br. (audited c w1 ac ''branch.create'' None, Inr (toBranchWire br)))))"

definition rest_deleteBranch :: "rest_call \<Rightarrow> rest_world \<Rightarrow> handle \<Rightarrow> string \<Rightarrow> unit answer" where
  "rest_deleteBranch c w h branch =
     with_access c w h capWrite (\<lambda>ac.
       with_service w (DeleteBranch (rw_svc w) (st_ID (acc_site ac)) branch)
         (\<lambda>w1 u. (audited c w1 ac ''branch.delete'' None, Inr ())))"

section \<open>Publishing\<close>

record PublishRequest =
  pq_From :: "string option"
  pq_BaseSha :: string
  pq_Message :: "string option"

record PublishResultWire =
  pw_PublishedCommit :: string
  pw_PublishedUrl :: string
  pw_From :: string
  pw_FromCommit :: string
  pw_Pushed :: bool

definition rest_publish ::
  "rest_server \<Rightarrow> rest_call \<Rightarrow> rest_world \<Rightarrow> handle \<Rightarrow> PublishRequest body \<Rightarrow> PublishResultWire answer" where
  "rest_publish s c w h body =
     with_access c w h capPublish (\<lambda>ac.
       if acc_role ac \<noteq> SiteRoleOwner \<and> st_PublishMode (acc_site ac) \<noteq> ''direct'' then
         (w, Inl (rest_err 403 codeForbidden ''this site requires publish requests; only the owner can publish directly'' NoDetails))
       else
         with_body w body (\<lambda>b.
           let src = (case pq_From b of Some n \<Rightarrow> if n \<noteq> [] then n else BranchDraft | None \<Rightarrow> BranchDraft) in
           with_service w (Publish (rw_svc w) (rc_clk c)
               \<lparr> pu_SiteID = st_ID (acc_site ac), pu_From = src, pu_BaseSHA = pq_BaseSha b, pu_Message = derefStr (pq_Message b),
                 pu_Actor = rest_actorFor (acc_user ac) SourceEditor \<rparr>)
             (\<lambda>w1 ci.
                (audited c w1 ac ''publish'' (emptyToNil (ci_SHA ci)),
                 Inr \<lparr> pw_PublishedCommit = ci_SHA ci, pw_PublishedUrl = rest_urlFor s (st_Handle (acc_site ac)), pw_From = src,
                       pw_FromCommit = pq_BaseSha b, pw_Pushed = False \<rparr>))))"

definition rest_purgeSiteCache :: "rest_call \<Rightarrow> rest_world \<Rightarrow> handle \<Rightarrow> int answer" where
  "rest_purgeSiteCache c w h =
     with_access c w h capPublish (\<lambda>ac.
       with_rows w (query c ''BumpCacheVersion'' (sql_BumpCacheVersion (rw_svc w) (st_ID (acc_site ac)))) (\<lambda>(f, v).
         (audited c (set_svc w f) ac ''cache_purge'' None, Inr v)))"

section \<open>The upload\<close>

text \<open>
  The multipart body: its length on the wire, and what the parser finds in it (\<open>None\<close>: it is
  malformed). A body over the limit of \<open>http.MaxBytesReader\<close> is reported as such.
\<close>

record multipart =
  mp_File :: "ZipSource option"
  mp_BaseSha :: string

record upload_body =
  up_Length :: int
  up_Form :: "multipart option"

definition multipartFormMem :: int where "multipartFormMem = 1048576"

definition upload_too_large :: rest_error where
  "upload_too_large = rest_err 413 codeTooLarge ''the upload is too large'' NoDetails"

definition rest_importZip ::
  "rest_server \<Rightarrow> rest_call \<Rightarrow> rest_world \<Rightarrow> handle \<Rightarrow> string \<Rightarrow> upload_body \<Rightarrow> CommitWire answer" where
  "rest_importZip s c w h branch up =
     with_access c w h capWrite (\<lambda>ac.
       if rs_MaxUploadBytes s + multipartFormMem < up_Length up then (w, Inl upload_too_large)
       else
         (case up_Form up of
            None \<Rightarrow> (w, Inl (rest_err 400 codeValidation ''malformed multipart form'' (ValidationDetails [] ''could not parse upload'')))
          | Some mp \<Rightarrow>
              (case mp_File mp of
                 None \<Rightarrow> (w, Inl (invalid_field ''the 'file' part is required'' ''file'' ''required''))
               | Some src \<Rightarrow>
                   if rc_fails c ''CreateTemp'' \<noteq> None then
                     (w, Inl (rest_err 500 codeInternal ''could not stage the upload'' NoDetails))
                   else if rc_fails c ''CopyN'' \<noteq> None then
                     (w, Inl (rest_err 400 codeValidation ''could not read the upload'' (ValidationDetails [] ''stream error'')))
                   else
                     let written = min (Size src) (rs_MaxUploadBytes s + 1) in
                     if rs_MaxUploadBytes s < written then (w, Inl upload_too_large)
                     else
                       with_service w (ImportZip (rw_svc w) (rc_clk c) (st_ID (acc_site ac)) branch (src\<lparr> Size := written \<rparr>)
                           (mp_BaseSha mp) (rest_actorFor (acc_user ac) SourceUpload))
                         (\<lambda>w1 ci.
                            (auditBestEffort c w1 (site_audit ac ''import'' SourceUpload (emptyToNil (ci_SHA ci))),
                             Inr (toCommitWire ci))))))"

section \<open>Preview grants\<close>

text \<open>\<open>5 * time.Minute\<close>\<close>

definition previewGrantTTL :: int where "previewGrantTTL = 300 * 1000000000"

record PreviewGrantResponse =
  pg_PreviewUrl :: string
  pg_Grant :: string
  pg_Branch :: string
  pg_ExpiresAt :: int

definition rest_previewGrant ::
  "rest_server \<Rightarrow> rest_call \<Rightarrow> rest_world \<Rightarrow> handle \<Rightarrow> string \<Rightarrow> PreviewGrantResponse answer" where
  "rest_previewGrant s c w h branch =
     with_access c w h capRead (\<lambda>ac.
       (case rs_SignGrant s of
          None \<Rightarrow> (w, Inl (rest_err 404 codeNotFound ''previews are not enabled'' NoDetails))
        | Some sign \<Rightarrow>
            if branch = [] \<or> branch = BranchPublished then
              (w, Inl (invalid_field ''published is public and is not previewable'' ''branch'' ''not a preview branch''))
            else
              (case ValidateBranchName branch of
                 Some e \<Rightarrow> (w, Inl (writeServiceError e))
               | None \<Rightarrow>
                   with_result w (ServedTree (rw_svc w) (st_ID (acc_site ac)) branch) (\<lambda>t.
                     let exp = rc_now c + previewGrantTTL;
                         grant = sign (st_ID (acc_site ac)) branch exp;
                         label = st_Handle (acc_site ac) @ ''--'' @ branch
                     in (audited c w ac ''preview.grant'' None,
                         Inr \<lparr> pg_PreviewUrl = rest_urlFor s label @ ''/?'' @ PreviewGrantQueryParam @ ''='' @ grant,
                               pg_Grant = grant, pg_Branch = branch, pg_ExpiresAt = exp \<rparr>)))))"

end
