(* ===== verification/Rest_Sites.thy ===== *)
theory Rest_Sites
  imports Rest_Core
begin

text \<open>
  The handlers of the REST API on sites (\<open>api/sites.go\<close>), on their members (\<open>members.go\<close>), on the
  user's own tokens (\<open>tokens.go\<close>) and on the flags of a user (\<open>admin.go\<close>).
\<close>

section \<open>Sites\<close>

definition rest_listSites :: "rest_call \<Rightarrow> rest_world \<Rightarrow> SiteSummaryWire list answer" where
  "rest_listSites c w =
     with_user c w (\<lambda>u.
       (w, Inr (map (\<lambda>st. toSiteSummary st
              (case effectiveRole (meta_role c (rw_db w)) (st_ID st) u of Some r \<Rightarrow> r | None \<Rightarrow> []))
            (ListSites (rw_svc w) (su_UserID u)))))"

record CreateSiteRequest =
  sq_Handle :: string
  sq_Description :: "string option"
  sq_GithubRepo :: "string option"
  sq_Visibility :: "string option"
  sq_PublishMode :: "string option"

definition rest_createSite :: "rest_call \<Rightarrow> rest_world \<Rightarrow> CreateSiteRequest body \<Rightarrow> SiteWire answer" where
  "rest_createSite c w body =
     with_user c w (\<lambda>u.
       if \<not> su_CanCreateSites u \<and> \<not> su_IsAdmin u then
         (w, Inl (rest_err 403 codeForbidden ''you are not allowed to create sites'' NoDetails))
       else
         with_body w body (\<lambda>b.
           with_service w (CreateSite (rw_svc w) (rc_clk c) (rc_newID c)
               \<lparr> cs_Handle = sq_Handle b, cs_OwnerID = su_UserID u, cs_Visibility = derefStr (sq_Visibility b),
                 cs_PublishMode = derefStr (sq_PublishMode b), cs_Description = derefStr (sq_Description b), cs_Zip = None,
                 cs_GitHubRepo = derefStr (sq_GithubRepo b), cs_Actor = rest_actorFor u SourceEditor \<rparr>)
             (\<lambda>w1 st.
                (auditBestEffort c w1
                   \<lparr> al_ActorUserID = Some (su_UserID u), al_SiteID = Some (st_ID st), al_TokenID = None,
                     al_Action = ''site.create'', al_Source = SourceEditor, al_CommitSha = None \<rparr>,
                 Inr (toSiteWire st)))))"

definition rest_getSite :: "rest_call \<Rightarrow> rest_world \<Rightarrow> handle \<Rightarrow> SiteWire answer" where
  "rest_getSite c w h = with_access c w h capRead (\<lambda>ac. (w, Inr (toSiteWire (acc_site ac))))"

record UpdateSiteRequest =
  uq_Visibility :: "string option"
  uq_PublishMode :: "string option"
  uq_WebRoot :: "string option"
  uq_Description :: "string option"
  uq_GithubRepo :: "string option"

definition given :: "string option \<Rightarrow> string \<Rightarrow> string" where
  "given v cur = (case v of Some x \<Rightarrow> x | None \<Rightarrow> cur)"

text \<open>The settings are written to the table first, then the remote is set, then the site is read back.\<close>

definition finish_update :: "rest_call \<Rightarrow> rest_world \<Rightarrow> access \<Rightarrow> SiteWire answer" where
  "finish_update c w ac =
     with_result w (GetSite (rw_svc w) (st_ID (acc_site ac))) (\<lambda>st.
       (audited c w ac ''site.update'' None, Inr (toSiteWire st)))"

definition rest_updateSite :: "rest_call \<Rightarrow> rest_world \<Rightarrow> handle \<Rightarrow> UpdateSiteRequest body \<Rightarrow> SiteWire answer" where
  "rest_updateSite c w h body =
     with_access c w h capOwner (\<lambda>ac. with_body w body (\<lambda>b.
       let cur = acc_site ac in
       with_rows w (query c ''UpdateSiteSettings''
           (sql_UpdateSiteSettings (rw_svc w) (rc_now c) (st_ID cur) (given (uq_Visibility b) (st_Visibility cur))
              (given (uq_PublishMode b) (st_PublishMode cur)) (given (uq_WebRoot b) (st_WebRoot cur))
              (given (uq_Description b) (st_Description cur))))
         (\<lambda>f.
            let w1 = set_svc w f in
            (case uq_GithubRepo b of
               Some repo \<Rightarrow> with_service w1 (SetRemote f (st_ID cur) repo) (\<lambda>w2 u. finish_update c w2 ac)
             | None \<Rightarrow> finish_update c w1 ac))))"

definition rest_deleteSite :: "rest_call \<Rightarrow> rest_world \<Rightarrow> handle \<Rightarrow> unit answer" where
  "rest_deleteSite c w h =
     with_access c w h capOwner (\<lambda>ac.
       with_service w (DeleteSite (rw_svc w) (rc_clk c) (st_ID (acc_site ac)) (rest_actorFor (acc_user ac) SourceEditor))
         (\<lambda>w1 u. (audited c w1 ac ''site.delete'' None, Inr ())))"

definition rest_renameSite :: "rest_call \<Rightarrow> rest_world \<Rightarrow> handle \<Rightarrow> string body \<Rightarrow> SiteWire answer" where
  "rest_renameSite c w h body =
     with_access c w h capOwner (\<lambda>ac. with_body w body (\<lambda>newHandle.
       with_service w (RenameHandle (rw_svc w) (rc_clk c) (st_ID (acc_site ac)) newHandle)
         (\<lambda>w1 st. (audited c w1 ac ''site.rename'' None, Inr (toSiteWire st)))))"

record MirrorResult =
  mr_Ok :: bool
  mr_Pushed :: bool
  mr_Branches :: "string list"
  mr_Message :: string
  mr_Error :: "string option"

definition mirrorErrorDetail :: "site_error \<Rightarrow> string" where
  "mirrorErrorDetail e = snd (statusAndCode (Some e))"

definition rest_mirrorSite :: "rest_call \<Rightarrow> rest_world \<Rightarrow> handle \<Rightarrow> MirrorResult answer" where
  "rest_mirrorSite c w h =
     with_access c w h capOwner (\<lambda>ac.
       if st_GitHubRepo (acc_site ac) = [] then
         (w, Inr \<lparr> mr_Ok = False, mr_Pushed = False, mr_Branches = [],
                   mr_Message = ''this site is not linked to a GitHub repository'', mr_Error = None \<rparr>)
       else
         (case MirrorPush (rw_svc w) (st_ID (acc_site ac)) of
            (f, r) \<Rightarrow>
              (audited c (set_svc w f) ac ''site.mirror'' None,
               Inr \<lparr> mr_Ok = (r = Inr ()), mr_Pushed = (r = Inr ()), mr_Branches = [BranchDraft, BranchPublished],
                     mr_Message = (case r of Inl _ \<Rightarrow> ''GitHub sync failed'' | Inr _ \<Rightarrow> ''pushed draft and published to GitHub''),
                     mr_Error = (case r of Inl e \<Rightarrow> Some (mirrorErrorDetail e) | Inr _ \<Rightarrow> None) \<rparr>)))"

section \<open>Members\<close>

record MemberWire =
  mw_UserId :: uuid
  mw_Email :: string
  mw_DisplayName :: string
  mw_Role :: site_role
  mw_CreatedAt :: "int option"

definition rest_listMembers :: "rest_call \<Rightarrow> rest_world \<Rightarrow> handle \<Rightarrow> MemberWire list answer" where
  "rest_listMembers c w h =
     with_access c w h capRead (\<lambda>ac.
       with_rows w (query c ''ListMembers'' (sql_ListMembers (rw_db w) (st_ID (acc_site ac)))) (\<lambda>rows.
         (w, Inr (map (\<lambda>(m, u). \<lparr> mw_UserId = mb_UserID m, mw_Email = us_Email u, mw_DisplayName = us_DisplayName u,
                                   mw_Role = mb_Role m, mw_CreatedAt = Some (mb_CreatedAt m) \<rparr>) rows))))"

definition validRole :: "string \<Rightarrow> bool" where
  "validRole r = (r = ''owner'' \<or> r = ''editor'' \<or> r = ''viewer'')"

definition err_role :: rest_error where
  "err_role = invalid_field ''invalid role'' ''role'' ''must be owner|editor|viewer''"

record AddMemberRequest =
  aq_Email :: string
  aq_Role :: string

definition rest_addMember :: "rest_call \<Rightarrow> rest_world \<Rightarrow> handle \<Rightarrow> AddMemberRequest body \<Rightarrow> MemberWire answer" where
  "rest_addMember c w h body =
     with_access c w h capOwner (\<lambda>ac. with_body w body (\<lambda>b.
       if \<not> validRole (aq_Role b) then (w, Inl err_role)
       else
         (case query c ''GetUserByEmail'' (sql_GetUserByEmail (rw_db w) (aq_Email b)) of
            Inl NoRows \<Rightarrow> (w, Inl (invalid_field ''no user with that email has signed in yet'' ''email'' ''unknown user''))
          | Inl e \<Rightarrow> (w, Inl (store_error e))
          | Inr target \<Rightarrow>
              with_rows w (query c ''AddMember''
                  (sql_AddMember (rw_db w) (rc_now c) (st_ID (acc_site ac)) (us_ID target) (aq_Role b) (Some (su_UserID (acc_user ac)))))
                (\<lambda>d.
                   (audited c (set_db w d) ac ''member.add'' None,
                    Inr \<lparr> mw_UserId = us_ID target, mw_Email = us_Email target, mw_DisplayName = us_DisplayName target,
                          mw_Role = aq_Role b, mw_CreatedAt = None \<rparr>)))))"

text \<open>The target is an owner and the only one; \<open>Inl\<close> is a failure of the store, on which the callers go on.\<close>

definition isSoleOwner :: "rest_call \<Rightarrow> MetaDB \<Rightarrow> uuid \<Rightarrow> uuid \<Rightarrow> bool rows" where
  "isSoleOwner c d i u =
     (case query c ''ListMembers'' (sql_ListMembers d i) of
        Inl e \<Rightarrow> Inl e
      | Inr rows \<Rightarrow>
          let owners = filter (\<lambda>(m, _). mb_Role m = SiteRoleOwner) rows in
          Inr ((\<exists>(m, _) \<in> set owners. mb_UserID m = u) \<and> length owners = 1))"

definition err_user_id :: rest_error where
  "err_user_id = invalid_field ''invalid user id'' ''userId'' ''must be a uuid''"

definition rest_updateMemberRole ::
  "rest_server \<Rightarrow> rest_call \<Rightarrow> rest_world \<Rightarrow> handle \<Rightarrow> string \<Rightarrow> string body \<Rightarrow> MemberWire answer" where
  "rest_updateMemberRole s c w h user_text body =
     with_access c w h capOwner (\<lambda>ac.
       (case rs_parseUUID s user_text of
          None \<Rightarrow> (w, Inl err_user_id)
        | Some u \<Rightarrow>
            with_body w body (\<lambda>role.
              let i = st_ID (acc_site ac) in
              if \<not> validRole role then (w, Inl err_role)
              else if role \<noteq> SiteRoleOwner \<and> isSoleOwner c (rw_db w) i u = Inr True then
                (w, Inl (rest_err 409 codeConflict ''cannot demote the sole owner'' NoDetails))
              else
                (case query c ''GetMember'' (sql_GetMember (rw_db w) i u) of
                   Inl NoRows \<Rightarrow> (w, Inl (rest_err 404 codeNotFound ''member not found'' NoDetails))
                 | Inl e \<Rightarrow> (w, Inl (store_error e))
                 | Inr _ \<Rightarrow>
                     with_rows w (query c ''UpdateMemberRole'' (sql_UpdateMemberRole (rw_db w) i u role)) (\<lambda>d.
                       let w1 = audited c (set_db w d) ac ''member.role'' None in
                       with_rows w1 (query c ''GetUserByID'' (sql_GetUserByID (rw_db w1) u)) (\<lambda>target.
                         (w1, Inr \<lparr> mw_UserId = u, mw_Email = us_Email target, mw_DisplayName = us_DisplayName target,
                                    mw_Role = role, mw_CreatedAt = None \<rparr>)))))))"

definition rest_removeMember :: "rest_server \<Rightarrow> rest_call \<Rightarrow> rest_world \<Rightarrow> handle \<Rightarrow> string \<Rightarrow> unit answer" where
  "rest_removeMember s c w h user_text =
     with_access c w h capOwner (\<lambda>ac.
       (case rs_parseUUID s user_text of
          None \<Rightarrow> (w, Inl err_user_id)
        | Some u \<Rightarrow>
            let i = st_ID (acc_site ac) in
            if isSoleOwner c (rw_db w) i u = Inr True then
              (w, Inl (rest_err 409 codeConflict ''cannot remove the sole owner'' NoDetails))
            else
              with_rows w (query c ''RemoveMember'' (sql_RemoveMember (rw_db w) i u)) (\<lambda>d.
                (audited c (set_db w d) ac ''member.remove'' None, Inr ()))))"

section \<open>Tokens\<close>

definition tokenPrefixStr :: string where "tokenPrefixStr = ''kotoji_pat_''"
definition tokenRandomLen :: nat where "tokenRandomLen = 30"
definition tokenPrefixLen :: nat where "tokenPrefixLen = 12"

definition base62Alphabet :: string where
  "base62Alphabet = ''0123456789ABCDEFGHIJKLMNOPQRSTUVWXYZabcdefghijklmnopqrstuvwxyz''"

definition randBase62 :: "(nat \<Rightarrow> nat option) \<Rightarrow> nat \<Rightarrow> string option" where
  "randBase62 draw n =
     (if \<exists>i \<in> set [0..<n]. draw i = None then None
      else Some (map (\<lambda>i. base62Alphabet ! the (draw i)) [0..<n]))"

definition generateToken :: "(string \<Rightarrow> string) \<Rightarrow> (nat \<Rightarrow> nat option) \<Rightarrow> (string \<times> string \<times> string) option" where
  "generateToken sha256 draw =
     (case randBase62 draw tokenRandomLen of
        None \<Rightarrow> None
      | Some random \<Rightarrow>
          let plaintext = tokenPrefixStr @ random in Some (plaintext, take tokenPrefixLen plaintext, sha256 plaintext))"

definition validScopes :: "string list \<Rightarrow> bool" where
  "validScopes = list_all (\<lambda>sc. sc = ''read'' \<or> sc = ''write'' \<or> sc = ''publish'')"

record CreateTokenRequest =
  tq_Name :: string
  tq_Scopes :: "string list"
  tq_CanCreateSites :: "bool option"
  tq_ExpiresAt :: "int option"

text \<open>The wire form of a token is its row without the hash, with the plaintext when it is created.\<close>

record TokenWire =
  tw_Id :: uuid
  tw_Name :: string
  tw_TokenPrefix :: string
  tw_Scopes :: "string list"
  tw_CanCreateSites :: bool
  tw_CreatedAt :: int
  tw_LastUsedAt :: "int option"
  tw_ExpiresAt :: "int option"
  tw_RevokedAt :: "int option"
  tw_Token :: "string option"

definition toTokenWire :: "UserToken \<Rightarrow> string option \<Rightarrow> TokenWire" where
  "toTokenWire t plaintext =
     \<lparr> tw_Id = ut_ID t, tw_Name = ut_Name t, tw_TokenPrefix = ut_TokenPrefix t, tw_Scopes = ut_Scopes t,
       tw_CanCreateSites = ut_CanCreateSites t, tw_CreatedAt = ut_CreatedAt t, tw_LastUsedAt = ut_LastUsedAt t,
       tw_ExpiresAt = ut_ExpiresAt t, tw_RevokedAt = ut_RevokedAt t, tw_Token = plaintext \<rparr>"

definition rest_listTokens :: "rest_call \<Rightarrow> rest_world \<Rightarrow> TokenWire list answer" where
  "rest_listTokens c w =
     with_user c w (\<lambda>u.
       with_rows w (query c ''ListUserTokens'' (sql_ListUserTokens (rw_db w) (su_UserID u))) (\<lambda>rows.
         (w, Inr (map (\<lambda>t. toTokenWire t None) rows))))"

definition token_audit :: "session_user \<Rightarrow> uuid \<Rightarrow> string \<Rightarrow> AuditEntry" where
  "token_audit u t action =
     \<lparr> al_ActorUserID = Some (su_UserID u), al_SiteID = None, al_TokenID = Some t, al_Action = action,
       al_Source = SourceEditor, al_CommitSha = None \<rparr>"

definition rest_createToken :: "rest_server \<Rightarrow> rest_call \<Rightarrow> rest_world \<Rightarrow> CreateTokenRequest body \<Rightarrow> TokenWire answer" where
  "rest_createToken s c w body =
     with_user c w (\<lambda>u. with_body w body (\<lambda>b.
       if tq_Name b = [] then (w, Inl (invalid_field ''name is required'' ''name'' ''required''))
       else if tq_Scopes b = [] then (w, Inl (invalid_field ''at least one scope is required'' ''scopes'' ''min 1''))
       else if \<not> validScopes (tq_Scopes b) then
         (w, Inl (invalid_field ''invalid scope'' ''scopes'' ''must be subset of read|write|publish''))
       else
         (case generateToken (rs_sha256 s) (rc_draw c) of
            None \<Rightarrow> (w, Inl (rest_err 500 codeInternal ''could not generate a token'' NoDetails))
          | Some (plaintext, pfx, hash) \<Rightarrow>
              let canCreate = (tq_CanCreateSites b = Some True \<and> (su_CanCreateSites u \<or> su_IsAdmin u)) in
              with_rows w (query c ''CreateUserToken''
                  (sql_CreateUserToken (rw_db w) (rc_now c) (rc_newID c) (su_UserID u) (tq_Name b) pfx hash (tq_Scopes b) canCreate
                     (tq_ExpiresAt b)))
                (\<lambda>(d, row).
                   (auditBestEffort c (set_db w d) (token_audit u (ut_ID row) ''token.create''),
                    Inr (toTokenWire row (Some plaintext)))))))"

definition rest_revokeToken :: "rest_server \<Rightarrow> rest_call \<Rightarrow> rest_world \<Rightarrow> string \<Rightarrow> unit answer" where
  "rest_revokeToken s c w token_text =
     with_user c w (\<lambda>u.
       (case rs_parseUUID s token_text of
          None \<Rightarrow> (w, Inl (invalid_field ''invalid token id'' ''tokenId'' ''must be a uuid''))
        | Some t \<Rightarrow>
            with_rows w (query c ''RevokeUserToken'' (sql_RevokeUserToken (rw_db w) (rc_now c) t (su_UserID u))) (\<lambda>d.
              (auditBestEffort c (set_db w d) (token_audit u t ''token.revoke''), Inr ()))))"

section \<open>The flags of a user\<close>

text \<open>\<open>auth.RequireAdmin\<close>\<close>

definition err_admin_required :: rest_error where
  "err_admin_required = rest_err 403 codeForbidden ''instance admin required'' NoDetails"

definition require_admin :: "rest_call \<Rightarrow> rest_world \<Rightarrow> (session_user \<Rightarrow> 'a answer) \<Rightarrow> 'a answer" where
  "require_admin c w k =
     (case rc_user c of
        None \<Rightarrow> (w, Inl (err_unauthenticated, NoDetails))
      | Some u \<Rightarrow> if \<not> su_IsAdmin u then (w, Inl err_admin_required) else k u)"

record UserFlags =
  uf_UserID :: uuid
  uf_IsAdmin :: bool
  uf_CanCreateSites :: bool

definition rest_adminSetUserFlags ::
  "rest_server \<Rightarrow> rest_call \<Rightarrow> rest_world \<Rightarrow> string \<Rightarrow> (bool option \<times> bool option) body \<Rightarrow> UserFlags answer" where
  "rest_adminSetUserFlags s c w user_text body =
     require_admin c w (\<lambda>actor.
       (case rs_parseUUID s user_text of
          None \<Rightarrow> (w, Inl err_user_id)
        | Some u \<Rightarrow>
            with_body w body (\<lambda>(admin, create).
              (case query c ''GetUserByID'' (sql_GetUserByID (rw_db w) u) of
                 Inl NoRows \<Rightarrow> (w, Inl (rest_err 404 codeNotFound ''user not found'' NoDetails))
               | Inl e \<Rightarrow> (w, Inl (store_error e))
               | Inr cur \<Rightarrow>
                   let isAdmin = (case admin of Some v \<Rightarrow> v | None \<Rightarrow> us_IsAdmin cur);
                       canCreate = (case create of Some v \<Rightarrow> v | None \<Rightarrow> us_CanCreateSites cur)
                   in with_rows w (query c ''SetUserAdminFlags'' (sql_SetUserAdminFlags (rw_db w) u isAdmin canCreate)) (\<lambda>d.
                        (auditBestEffort c (set_db w d)
                           \<lparr> al_ActorUserID = Some (su_UserID actor), al_SiteID = None, al_TokenID = None,
                             al_Action = ''admin.user.flags'', al_Source = SourceSystem, al_CommitSha = None \<rparr>,
                         Inr \<lparr> uf_UserID = u, uf_IsAdmin = isAdmin, uf_CanCreateSites = canCreate \<rparr>))))))"

end
