(* ===== verification/Rest_Requests.thy ===== *)
theory Rest_Requests
  imports Rest_Content Rest_Sites Site_Lifecycle
begin

text \<open>
  The guarded routes of the REST API (\<open>mountAPI\<close> and the user flags of \<open>mountAdmin\<close>, \<open>api/router.go\<close>,
  \<open>api/admin.go\<close>) and what a request can change. Every handler that answers has had one of a few
  effects on the world, each bound to the capability that the caller had to have for it; what a
  request cannot do is read off these effects.
\<close>

section \<open>The routes\<close>

datatype rest_request =
    ReqListTokens
  | ReqCreateToken "CreateTokenRequest body"
  | ReqRevokeToken string
  | ReqListSites
  | ReqCreateSite "CreateSiteRequest body"
  | ReqGetSite handle
  | ReqUpdateSite handle "UpdateSiteRequest body"
  | ReqDeleteSite handle
  | ReqRenameSite handle "string body"
  | ReqMirrorSite handle
  | ReqListMembers handle
  | ReqAddMember handle "AddMemberRequest body"
  | ReqUpdateMemberRole handle string "string body"
  | ReqRemoveMember handle string
  | ReqListBranches handle
  | ReqCreateBranch handle "CreateBranchRequest body"
  | ReqDeleteBranch handle string
  | ReqPreviewGrant handle string
  | ReqListFiles handle string string string string
  | ReqReadFile handle string string string
  | ReqWriteFile handle string "WriteFileRequest body"
  | ReqDeleteFile handle string string string
  | ReqImportZip handle string upload_body
  | ReqCommit handle string "CommitRequest body"
  | ReqGetLog handle string string string string
  | ReqRollback handle string "RollbackRequest body"
  | ReqGetDiff handle string string string string string
  | ReqPublish handle "PublishRequest body"
  | ReqPurgeCache handle
  | ReqSetUserFlags string "(bool option \<times> bool option) body"

datatype rest_output =
    RespTokens "TokenWire list"
  | RespToken TokenWire
  | RespSites "SiteSummaryWire list"
  | RespSite SiteWire
  | RespMirror MirrorResult
  | RespMembers "MemberWire list"
  | RespMember MemberWire
  | RespBranches "BranchWire list"
  | RespBranch BranchWire
  | RespGrant PreviewGrantResponse
  | RespFiles FileListing
  | RespContent FileContentWire
  | RespWrite WriteResult
  | RespCommit CommitWire
  | RespLog LogResultWire
  | RespDiff DiffResultWire
  | RespPublish PublishResultWire
  | RespVersion int
  | RespFlags UserFlags
  | RespDone unit

definition respond :: "('a \<Rightarrow> rest_output) \<Rightarrow> 'a answer \<Rightarrow> rest_output answer" where
  "respond f a = map_prod id (map_sum id f) a"

fun rest_run :: "rest_server \<Rightarrow> rest_call \<Rightarrow> rest_world \<Rightarrow> rest_request \<Rightarrow> rest_output answer" where
  "rest_run s c w ReqListTokens = respond RespTokens (rest_listTokens c w)"
| "rest_run s c w (ReqCreateToken b) = respond RespToken (rest_createToken s c w b)"
| "rest_run s c w (ReqRevokeToken t) = respond RespDone (rest_revokeToken s c w t)"
| "rest_run s c w ReqListSites = respond RespSites (rest_listSites c w)"
| "rest_run s c w (ReqCreateSite b) = respond RespSite (rest_createSite c w b)"
| "rest_run s c w (ReqGetSite h) = respond RespSite (rest_getSite c w h)"
| "rest_run s c w (ReqUpdateSite h b) = respond RespSite (rest_updateSite c w h b)"
| "rest_run s c w (ReqDeleteSite h) = respond RespDone (rest_deleteSite c w h)"
| "rest_run s c w (ReqRenameSite h b) = respond RespSite (rest_renameSite c w h b)"
| "rest_run s c w (ReqMirrorSite h) = respond RespMirror (rest_mirrorSite c w h)"
| "rest_run s c w (ReqListMembers h) = respond RespMembers (rest_listMembers c w h)"
| "rest_run s c w (ReqAddMember h b) = respond RespMember (rest_addMember c w h b)"
| "rest_run s c w (ReqUpdateMemberRole h u b) = respond RespMember (rest_updateMemberRole s c w h u b)"
| "rest_run s c w (ReqRemoveMember h u) = respond RespDone (rest_removeMember s c w h u)"
| "rest_run s c w (ReqListBranches h) = respond RespBranches (rest_listBranches c w h)"
| "rest_run s c w (ReqCreateBranch h b) = respond RespBranch (rest_createBranch c w h b)"
| "rest_run s c w (ReqDeleteBranch h n) = respond RespDone (rest_deleteBranch c w h n)"
| "rest_run s c w (ReqPreviewGrant h n) = respond RespGrant (rest_previewGrant s c w h n)"
| "rest_run s c w (ReqListFiles h n dir ref recursive) = respond RespFiles (rest_listFiles c w h n dir ref recursive)"
| "rest_run s c w (ReqReadFile h n p ref) = respond RespContent (rest_readFile c w h n p ref)"
| "rest_run s c w (ReqWriteFile h n b) = respond RespWrite (rest_writeFile c w h n b)"
| "rest_run s c w (ReqDeleteFile h n p base) = respond RespCommit (rest_deleteFile c w h n p base)"
| "rest_run s c w (ReqImportZip h n up) = respond RespCommit (rest_importZip s c w h n up)"
| "rest_run s c w (ReqCommit h n b) = respond RespWrite (rest_commit c w h n b)"
| "rest_run s c w (ReqGetLog h n limit before p) = respond RespLog (rest_getLog c w h n limit before p)"
| "rest_run s c w (ReqRollback h n b) = respond RespCommit (rest_rollback c w h n b)"
| "rest_run s c w (ReqGetDiff h a b p l ns) = respond RespDiff (rest_getDiff c w h a b p l ns)"
| "rest_run s c w (ReqPublish h b) = respond RespPublish (rest_publish s c w h b)"
| "rest_run s c w (ReqPurgeCache h) = respond RespVersion (rest_purgeSiteCache c w h)"
| "rest_run s c w (ReqSetUserFlags u b) = respond RespFlags (rest_adminSetUserFlags s c w u b)"

lemma fst_respond [simp]: "fst (respond f a) = fst a"
  by (cases a) (simp add: respond_def)

section \<open>Effects\<close>

definition granted :: "rest_call \<Rightarrow> rest_world \<Rightarrow> access \<Rightarrow> capability \<Rightarrow> bool" where
  "granted c w ac cp \<longleftrightarrow>
     (\<exists>h. resolveAccess (GetSiteByHandle (rw_svc w)) (meta_role c (rw_db w)) (rc_user c) h cp = Inr ac)"

inductive content_op :: "uuid \<Rightarrow> svc_op \<Rightarrow> bool" for i where
  co_write: "wf_SiteID inp = i \<Longrightarrow> content_op i (OpWriteFile clk inp)"
| co_delete: "content_op i (OpDeleteFile clk i n p b a)"
| co_import: "content_op i (OpImportZip clk i n z b a)"
| co_rollback: "content_op i (OpRollback clk i n t b a)"
| co_branch: "content_op i (OpCreateBranch i n base)"
| co_drop: "content_op i (OpDeleteBranch i n)"

inductive owner_op :: "uuid \<Rightarrow> svc_op \<Rightarrow> bool" for i where
  oo_delete: "owner_op i (OpDeleteSite clk i a)"
| oo_rename: "owner_op i (OpRenameHandle clk i h)"
| oo_mirror: "owner_op i (OpMirrorPush i)"

text \<open>The other rows stay.\<close>

definition only_members :: "uuid \<Rightarrow> MetaDB \<Rightarrow> MetaDB \<Rightarrow> bool" where
  "only_members i d d' \<longleftrightarrow> (\<exists>ms. d' = d\<lparr> db_members := ms \<rparr> \<and>
     filter (\<lambda>m. mb_SiteID m \<noteq> i) ms = filter (\<lambda>m. mb_SiteID m \<noteq> i) (db_members d))"

definition only_tokens :: "uuid \<Rightarrow> MetaDB \<Rightarrow> MetaDB \<Rightarrow> bool" where
  "only_tokens u d d' \<longleftrightarrow> (\<exists>ts. d' = d\<lparr> db_tokens := ts \<rparr> \<and>
     filter (\<lambda>t. ut_UserID t \<noteq> u) ts = filter (\<lambda>t. ut_UserID t \<noteq> u) (db_tokens d))"

inductive rest_effect :: "rest_call \<Rightarrow> rest_world \<Rightarrow> rest_world \<Rightarrow> bool" for c w where
  e_same: "rest_effect c w w"
| e_audit: "rest_effect c w v \<Longrightarrow> rest_effect c w (auditBestEffort c v e)"
| e_content: "granted c w ac capWrite \<Longrightarrow> content_op (st_ID (acc_site ac)) x \<Longrightarrow>
    rest_effect c w (set_svc w (svc_apply (rw_svc w) x))"
| e_publish: "granted c w ac capPublish \<Longrightarrow> acc_role ac = SiteRoleOwner \<or> st_PublishMode (acc_site ac) = ''direct'' \<Longrightarrow>
    pu_SiteID inp = st_ID (acc_site ac) \<Longrightarrow> rest_effect c w (set_svc w (fst (Publish (rw_svc w) clk inp)))"
| e_purge: "granted c w ac capPublish \<Longrightarrow> sql_BumpCacheVersion (rw_svc w) (st_ID (acc_site ac)) = Inr (f, v) \<Longrightarrow>
    rest_effect c w (set_svc w f)"
| e_owner: "granted c w ac capOwner \<Longrightarrow> owner_op (st_ID (acc_site ac)) x \<Longrightarrow>
    rest_effect c w (set_svc w (svc_apply (rw_svc w) x))"
| e_settings: "granted c w ac capOwner \<Longrightarrow> sql_UpdateSiteSettings (rw_svc w) now (st_ID (acc_site ac)) vis mode webroot desc = Inr f \<Longrightarrow>
    rest_effect c w (set_svc w f)"
| e_remote: "granted c w ac capOwner \<Longrightarrow> sql_UpdateSiteSettings (rw_svc w) now (st_ID (acc_site ac)) vis mode webroot desc = Inr f \<Longrightarrow>
    rest_effect c w (set_svc w (fst (SetRemote f (st_ID (acc_site ac)) repo)))"
| e_create: "rc_user c = Some u \<Longrightarrow> su_CanCreateSites u \<or> su_IsAdmin u \<Longrightarrow> cs_OwnerID inp = su_UserID u \<Longrightarrow>
    rest_effect c w (set_svc w (fst (CreateSite (rw_svc w) clk (rc_newID c) inp)))"
| e_members: "granted c w ac capOwner \<Longrightarrow> only_members (st_ID (acc_site ac)) (rw_db w) d \<Longrightarrow>
    meta_wf (rw_db w) \<longrightarrow> meta_wf d \<Longrightarrow> rest_effect c w (set_db w d)"
| e_tokens: "rc_user c = Some u \<Longrightarrow> only_tokens (su_UserID u) (rw_db w) d \<Longrightarrow>
    meta_wf (rw_db w) \<longrightarrow> meta_wf d \<Longrightarrow> rest_effect c w (set_db w d)"
| e_flags: "rc_user c = Some u \<Longrightarrow> su_IsAdmin u \<Longrightarrow> d = (rw_db w)\<lparr> db_users := us \<rparr> \<Longrightarrow>
    meta_wf (rw_db w) \<longrightarrow> meta_wf d \<Longrightarrow> rest_effect c w (set_db w d)"

section \<open>The effect of a handler\<close>

text \<open>
  A relation that holds between a world and itself and is kept by an audit row runs through the frame
  of every handler: what is left to show is its step.
\<close>

locale handler_frame =
  fixes P :: "rest_call \<Rightarrow> rest_world \<Rightarrow> rest_world \<Rightarrow> bool"
  assumes unchanged: "P c w w"
    and audit: "P c w v \<Longrightarrow> P c w (auditBestEffort c v e)"
begin

lemma access: "(\<And>ac. granted c w ac cp \<Longrightarrow> P c w (fst (k ac))) \<Longrightarrow> P c w (fst (with_access c w h cp k))"
  by (auto simp: with_access_def granted_def intro: unchanged split: sum.split)

lemma user: "(\<And>u. rc_user c = Some u \<Longrightarrow> P c w (fst (k u))) \<Longrightarrow> P c w (fst (with_user c w k))"
  by (auto simp: with_user_def intro: unchanged split: option.split)

lemma admin: "(\<And>u. rc_user c = Some u \<Longrightarrow> su_IsAdmin u \<Longrightarrow> P c w (fst (k u))) \<Longrightarrow> P c w (fst (require_admin c w k))"
  by (auto simp: require_admin_def intro: unchanged split: option.split)

lemma body: "(\<And>x. P c w (fst (k x))) \<Longrightarrow> P c w (fst (with_body w b k))"
  by (auto simp: with_body_def intro: unchanged split: sum.split)

lemma outcome: "P c w v \<Longrightarrow> (\<And>x. r = Inr x \<Longrightarrow> P c w (fst (k x))) \<Longrightarrow> P c w (fst (with_result v r k))"
  by (auto simp: with_result_def split: sum.split)

lemma rows: "P c w v \<Longrightarrow> (\<And>x. r = Inr x \<Longrightarrow> P c w (fst (k x))) \<Longrightarrow> P c w (fst (with_rows v r k))"
  by (auto simp: with_rows_def split: sum.split)

lemma service:
  "P c w (set_svc v (fst fr)) \<Longrightarrow> (\<And>x. P c w (fst (k (set_svc v (fst fr)) x))) \<Longrightarrow> P c w (fst (with_service v fr k))"
  by (auto simp: with_service_def with_result_def split: sum.split prod.split)

lemma answered: "P c w v \<Longrightarrow> P c w (fst (v, r))"
  by simp

lemma site_audited: "P c w v \<Longrightarrow> P c w (audited c v ac action h)"
  by (simp add: audited_def audit)

lemma conditional: "(b \<Longrightarrow> P c w (fst x)) \<Longrightarrow> (\<not> b \<Longrightarrow> P c w (fst y)) \<Longrightarrow> P c w (fst (if b then x else y))"
  by simp

lemma optional:
  "(r = None \<Longrightarrow> P c w (fst x)) \<Longrightarrow> (\<And>z. r = Some z \<Longrightarrow> P c w (fst (y z))) \<Longrightarrow>
   P c w (fst (case r of None \<Rightarrow> x | Some z \<Rightarrow> y z))"
  by (cases r) auto

lemma alternative:
  "(\<And>z. r = Inl z \<Longrightarrow> P c w (fst (x z))) \<Longrightarrow> (\<And>z. r = Inr z \<Longrightarrow> P c w (fst (y z))) \<Longrightarrow>
   P c w (fst (case r of Inl z \<Rightarrow> x z | Inr z \<Rightarrow> y z))"
  by (cases r) auto

lemma row_failure:
  "(e = NoRows \<Longrightarrow> P c w (fst x)) \<Longrightarrow> (\<And>z. e = RowError z \<Longrightarrow> P c w (fst (y z))) \<Longrightarrow>
   P c w (fst (case e of NoRows \<Rightarrow> x | RowError z \<Rightarrow> y z))"
  by (cases e) auto

lemma pair: "(\<And>a b. r = (a, b) \<Longrightarrow> P c w (fst (x a b))) \<Longrightarrow> P c w (fst (case r of (a, b) \<Rightarrow> x a b))"
  by (cases r) auto

lemmas frame = unchanged audit access user admin body outcome rows service answered site_audited conditional optional
  alternative row_failure pair

end

interpretation reff: handler_frame rest_effect
  by unfold_locales (auto intro: e_same e_audit)

lemma set_svc_twice [simp]: "set_svc (set_svc w f) g = set_svc w g"
  by (simp add: set_svc_def)

lemma query_ok: "query c name r = Inr x \<Longrightarrow> r = Inr x"
  by (auto simp: query_def split: option.splits)

lemma svc_apply_intros:
  "granted c w ac capWrite \<Longrightarrow> wf_SiteID inp = st_ID (acc_site ac) \<Longrightarrow> rest_effect c w (set_svc w (fst (WriteFile (rw_svc w) clk inp)))"
  "granted c w ac capWrite \<Longrightarrow> rest_effect c w (set_svc w (fst (DeleteFile (rw_svc w) clk (st_ID (acc_site ac)) n p b a)))"
  "granted c w ac capWrite \<Longrightarrow> rest_effect c w (set_svc w (fst (ImportZip (rw_svc w) clk (st_ID (acc_site ac)) n z b a)))"
  "granted c w ac capWrite \<Longrightarrow> rest_effect c w (set_svc w (fst (Rollback (rw_svc w) clk (st_ID (acc_site ac)) n t b a)))"
  "granted c w ac capWrite \<Longrightarrow> rest_effect c w (set_svc w (fst (CreateBranch (rw_svc w) (st_ID (acc_site ac)) n base)))"
  "granted c w ac capWrite \<Longrightarrow> rest_effect c w (set_svc w (fst (DeleteBranch (rw_svc w) (st_ID (acc_site ac)) n)))"
  "granted c w ac capOwner \<Longrightarrow> rest_effect c w (set_svc w (fst (DeleteSite (rw_svc w) clk (st_ID (acc_site ac)) a)))"
  "granted c w ac capOwner \<Longrightarrow> rest_effect c w (set_svc w (fst (RenameHandle (rw_svc w) clk (st_ID (acc_site ac)) h)))"
  "granted c w ac capOwner \<Longrightarrow> rest_effect c w (set_svc w (fst (MirrorPush (rw_svc w) (st_ID (acc_site ac)))))"
  using e_content [of c w ac "OpWriteFile clk inp"] e_content [of c w ac "OpDeleteFile clk (st_ID (acc_site ac)) n p b a"]
    e_content [of c w ac "OpImportZip clk (st_ID (acc_site ac)) n z b a"] e_content [of c w ac "OpRollback clk (st_ID (acc_site ac)) n t b a"]
    e_content [of c w ac "OpCreateBranch (st_ID (acc_site ac)) n base"] e_content [of c w ac "OpDeleteBranch (st_ID (acc_site ac)) n"]
    e_owner [of c w ac "OpDeleteSite clk (st_ID (acc_site ac)) a"] e_owner [of c w ac "OpRenameHandle clk (st_ID (acc_site ac)) h"]
    e_owner [of c w ac "OpMirrorPush (st_ID (acc_site ac))"]
  by (simp_all add: content_op.intros owner_op.intros)

lemma set_role_only: "only_members i d (set_role d i u role)"
proof -
  have "filter (\<lambda>m. mb_SiteID m \<noteq> i) (map (\<lambda>m. if is_member i u m then m\<lparr> mb_Role := role \<rparr> else m) ms) =
      filter (\<lambda>m. mb_SiteID m \<noteq> i) ms" for ms
    by (induction ms) (auto simp: is_member_def)
  then show ?thesis by (auto simp: only_members_def set_role_def)
qed

lemma member_queries_only:
  "sql_AddMember d now i u role by = Inr d' \<Longrightarrow> only_members i d d'"
  "sql_UpdateMemberRole d i u role = Inr d' \<Longrightarrow> only_members i d d'"
  "sql_RemoveMember d i u = Inr d' \<Longrightarrow> only_members i d d'"
proof -
  show "sql_AddMember d now i u role by = Inr d' \<Longrightarrow> only_members i d d'" "sql_UpdateMemberRole d i u role = Inr d' \<Longrightarrow> only_members i d d'"
    using set_role_only by (auto simp: sql_AddMember_def sql_UpdateMemberRole_def only_members_def split: if_splits)
  have "filter (\<lambda>m. mb_SiteID m \<noteq> i) (filter (\<lambda>m. \<not> is_member i u m) (db_members d)) = filter (\<lambda>m. mb_SiteID m \<noteq> i) (db_members d)"
    unfolding filter_filter by (rule filter_cong) (auto simp: is_member_def)
  then show "sql_RemoveMember d i u = Inr d' \<Longrightarrow> only_members i d d'"
    unfolding sql_RemoveMember_def only_members_def by blast
qed

lemma token_queries_only:
  "sql_CreateUserToken d now t u name pfx hash scopes create expires = Inr (d', row) \<Longrightarrow> only_tokens u d d'"
  "sql_RevokeUserToken d now t u = Inr d' \<Longrightarrow> only_tokens u d d'"
proof -
  have "filter (\<lambda>t. ut_UserID t \<noteq> u) (map (revoke now t u) ts) = filter (\<lambda>t. ut_UserID t \<noteq> u) ts" for ts
    by (induction ts) (auto simp: revoke_def)
  then show "sql_RevokeUserToken d now t u = Inr d' \<Longrightarrow> only_tokens u d d'"
    by (auto simp: sql_RevokeUserToken_def only_tokens_def)
qed (auto simp: sql_CreateUserToken_def only_tokens_def Let_def split: if_splits)

lemma answer_read:
  "rest_effect c w (fst (rest_listTokens c w))" "rest_effect c w (fst (rest_listSites c w))"
  "rest_effect c w (fst (rest_getSite c w h))" "rest_effect c w (fst (rest_listMembers c w h))"
  "rest_effect c w (fst (rest_listBranches c w h))" "rest_effect c w (fst (rest_previewGrant s c w h n))"
  "rest_effect c w (fst (rest_listFiles c w h n dir ref recursive))" "rest_effect c w (fst (rest_readFile c w h n p ref))"
  "rest_effect c w (fst (rest_commit c w h n b1))" "rest_effect c w (fst (rest_getLog c w h n limit before p))"
  "rest_effect c w (fst (rest_getDiff c w h a b p l ns))"
  unfolding rest_listTokens_def rest_listSites_def rest_getSite_def rest_listMembers_def rest_listBranches_def rest_previewGrant_def
    rest_listFiles_def rest_readFile_def rest_commit_def rest_getLog_def rest_getDiff_def Let_def
  by (intro reff.frame)+

lemma effect_content:
  "rest_effect c w (fst (rest_createBranch c w h b1))" "rest_effect c w (fst (rest_deleteBranch c w h n))"
  "rest_effect c w (fst (rest_writeFile c w h n b2))" "rest_effect c w (fst (rest_deleteFile c w h n p base))"
  "rest_effect c w (fst (rest_importZip s c w h n up))" "rest_effect c w (fst (rest_rollback c w h n b3))"
  "rest_effect c w (fst (rest_deleteSite c w h))" "rest_effect c w (fst (rest_renameSite c w h b4))"
  unfolding rest_createBranch_def rest_deleteBranch_def rest_writeFile_def rest_deleteFile_def rest_importZip_def rest_rollback_def
    rest_deleteSite_def rest_renameSite_def Let_def
  by (intro reff.frame svc_apply_intros; simp)+

lemma effect_mirror: "rest_effect c w (fst (rest_mirrorSite c w h))"
proof -
  have "granted c w ac capOwner \<Longrightarrow> MirrorPush (rw_svc w) (st_ID (acc_site ac)) = (f, r) \<Longrightarrow> rest_effect c w (set_svc w f)" for ac f r
    using svc_apply_intros(9) [of c w ac] by simp
  then show ?thesis unfolding rest_mirrorSite_def by (intro reff.frame) simp_all
qed

lemma answer_publish: "rest_effect c w (fst (rest_publish s c w h b))"
  unfolding rest_publish_def Let_def by (intro reff.frame e_publish) auto

lemma effect_purge: "rest_effect c w (fst (rest_purgeSiteCache c w h))"
  unfolding rest_purgeSiteCache_def by (intro reff.frame) (auto dest!: query_ok intro: e_purge)

lemma effect_create: "rest_effect c w (fst (rest_createSite c w b))"
  unfolding rest_createSite_def by (intro reff.frame e_create) auto

lemma effect_update: "rest_effect c w (fst (rest_updateSite c w h b))"
  unfolding rest_updateSite_def finish_update_def Let_def
  by (intro reff.frame; (drule query_ok)?; (auto intro: e_settings e_remote)?)

lemma effect_members:
  "rest_effect c w (fst (rest_addMember c w h b1))" "rest_effect c w (fst (rest_updateMemberRole s c w h u b2))"
  "rest_effect c w (fst (rest_removeMember s c w h u))"
  unfolding rest_addMember_def rest_updateMemberRole_def rest_removeMember_def Let_def
  by (intro reff.frame; (blast intro: e_members member_queries_only wf_member_queries dest: query_ok)?)+

lemma effect_tokens:
  "rest_effect c w (fst (rest_createToken s c w b))" "rest_effect c w (fst (rest_revokeToken s c w t))"
  unfolding rest_createToken_def rest_revokeToken_def Let_def
  by (intro reff.frame; (blast intro: e_tokens token_queries_only wf_create_token wf_revoke_token dest: query_ok)?)+

lemma effect_flags: "rest_effect c w (fst (rest_adminSetUserFlags s c w u b))"
proof -
  have "sql_SetUserAdminFlags d i x y = Inr d' \<Longrightarrow> (\<exists>us. d' = d\<lparr> db_users := us \<rparr>) \<and> (meta_wf d \<longrightarrow> meta_wf d')" for d i x y d'
    using wf_update_user by (auto simp: sql_SetUserAdminFlags_def update_user_def)
  then show ?thesis unfolding rest_adminSetUserFlags_def Let_def
    by (intro reff.frame; (blast intro: e_flags dest: query_ok)?)
qed

lemma run_effect: "rest_effect c w (fst (rest_run s c w q))"
  by (cases q) (simp_all add: answer_read effect_content effect_mirror answer_publish effect_purge effect_create effect_update
      effect_members effect_tokens effect_flags)

end
