(* ===== verification/Rest_Guarantees.thy ===== *)
theory Rest_Guarantees
  imports Rest_Requests Mcp_Guarantees
begin

text \<open>
  What a request to the REST API can and cannot change, read off the effects of the handlers: which
  role a change of a site needs, that published content moves only as the publish mode allows, and
  who may change memberships, tokens and accounts.
\<close>

section \<open>The caller's authority\<close>

text \<open>The role of the caller on a live site allows it.\<close>

definition may :: "rest_call \<Rightarrow> rest_world \<Rightarrow> uuid \<Rightarrow> capability \<Rightarrow> bool" where
  "may c w i cp \<longleftrightarrow>
     (\<exists>u r s. rc_user c = Some u \<and> gm_get (sites (rw_svc w)) i = Some s \<and> is_live s \<and>
        effectiveRole (meta_role c (rw_db w)) i u = Some r \<and> roleAllows r cp)"

definition may_publish :: "rest_call \<Rightarrow> rest_world \<Rightarrow> uuid \<Rightarrow> bool" where
  "may_publish c w i \<longleftrightarrow>
     (\<exists>u r s. rc_user c = Some u \<and> gm_get (sites (rw_svc w)) i = Some s \<and> is_live s \<and>
        effectiveRole (meta_role c (rw_db w)) i u = Some r \<and> roleAllows r capPublish \<and>
        (r = SiteRoleOwner \<or> sr_PublishMode (rec s) = ''direct''))"

lemma resolveAccess_ok:
  assumes "resolveAccess lk gr user h cp = Inr a"
  shows "user = Some (acc_user a)" "lk h = Inr (acc_site a)" "effectiveRole gr (st_ID (acc_site a)) (acc_user a) = Some (acc_role a)"
    "roleAllows (acc_role a) cp"
  using assms by (auto simp: resolveAccess_def split: option.splits sum.splits if_splits)

lemma granted_site:
  assumes inv: "svc_inv (rw_svc w)" and g: "granted c w ac cp"
  shows "\<exists>u s. rc_user c = Some u \<and> gm_get (sites (rw_svc w)) (st_ID (acc_site ac)) = Some s \<and> is_live s \<and>
    acc_site ac = toSite (rec s) \<and> effectiveRole (meta_role c (rw_db w)) (st_ID (acc_site ac)) u = Some (acc_role ac) \<and>
    roleAllows (acc_role ac) cp"
proof -
  from g obtain h where h: "resolveAccess (GetSiteByHandle (rw_svc w)) (meta_role c (rw_db w)) (rc_user c) h cp = Inr ac"
    unfolding granted_def by blast
  note a = resolveAccess_ok [OF h]
  from a(2) obtain s where s: "live_by_handle (rw_svc w) (go_lower h) = Some s" "acc_site ac = toSite (rec s)"
    by (auto simp: GetSiteByHandle_def split: option.splits)
  obtain i where i: "(i, s) \<in> set (sites (rw_svc w))" "is_live s" using live_by_handle_Some [OF s(1)] by blast
  have "gm_get (sites (rw_svc w)) i = Some s" using inv i(1) by (simp add: svc_inv_def gm_in_get)
  then show ?thesis using svc_site [OF inv, of i s] s(2) i(2) a by (auto simp: toSite_def Let_def)
qed

lemma granted_may: "svc_inv (rw_svc w) \<Longrightarrow> granted c w ac cp \<Longrightarrow> may c w (st_ID (acc_site ac)) cp"
  using granted_site [of w c ac cp] by (auto simp: may_def)

lemma owner_may_write: "may c w i capOwner \<Longrightarrow> may c w i capWrite" "may c w i capPublish \<Longrightarrow> may c w i capWrite"
  by (auto simp: may_def roleAllows_def)

section \<open>Effects on the sites\<close>

lemma settings_site: "sql_UpdateSiteSettings f now i vis mode webroot desc = Inr f' \<Longrightarrow> gm_get (sites f) i = Some s \<Longrightarrow>
   f' = put_site f i (s\<lparr> rec := (rec s)\<lparr> sr_Visibility := vis, sr_PublishMode := mode, sr_WebRoot := webroot,
                                     sr_Description := desc, sr_UpdatedAt := now \<rparr> \<rparr>)"
  by (simp add: sql_UpdateSiteSettings_def split: if_splits)

lemma settings_inv:
  assumes inv: "svc_inv f" and s: "gm_get (sites f) i = Some s" and ok: "sql_UpdateSiteSettings f now i vis mode webroot desc = Inr f'"
  shows "svc_inv f'"
proof -
  let ?s' = "s\<lparr> rec := (rec s)\<lparr> sr_Visibility := vis, sr_PublishMode := mode, sr_WebRoot := webroot,
                                     sr_Description := desc, sr_UpdatedAt := now \<rparr> \<rparr>"
  have "site_ok (seq f) ?s'" using svc_site [OF inv s] site_ok_record [of "seq f" s ?s'] site_ok_handle by auto
  then show ?thesis unfolding settings_site [OF ok s]
    by (intro svc_inv_put [OF inv s order_refl, where s' = ?s']) (simp_all add: is_live_def)
qed

lemma bump_site:
  assumes "sql_BumpCacheVersion f i = Inr (f', v)"
  shows "\<exists>s. gm_get (sites f) i = Some s \<and> is_live s \<and> f' = put_site f i (s\<lparr> rec := (rec s)\<lparr> sr_CacheVersion := v \<rparr> \<rparr>)"
  using assms by (auto simp: sql_BumpCacheVersion_def Let_def is_live_def liveSite_def split: sum.splits if_splits option.splits)

lemma bump_inv:
  assumes inv: "svc_inv f" and ok: "sql_BumpCacheVersion f i = Inr (f', v)"
  shows "svc_inv f'"
proof -
  obtain s where s: "gm_get (sites f) i = Some s" "f' = put_site f i (s\<lparr> rec := (rec s)\<lparr> sr_CacheVersion := v \<rparr> \<rparr>)"
    using bump_site [OF ok] by blast
  let ?s' = "s\<lparr> rec := (rec s)\<lparr> sr_CacheVersion := v \<rparr> \<rparr>"
  have "site_ok (seq f) ?s'" using svc_site [OF inv s(1)] site_ok_record [of "seq f" s ?s'] site_ok_handle by auto
  then show ?thesis unfolding s(2)
    by (intro svc_inv_put [OF inv s(1) order_refl, where s' = ?s']) (simp_all add: is_live_def)
qed

text \<open>What only an owner may change of a site.\<close>

definition site_settings :: "fakeSite \<Rightarrow> string \<times> string \<times> string \<times> string option \<times> string \<times> string \<times> int option \<times> string" where
  "site_settings s = (sr_Handle (rec s), sr_Visibility (rec s), sr_PublishMode (rec s), sr_GitHubRepo (rec s), sr_WebRoot (rec s),
     sr_Description (rec s), sr_DeletedAt (rec s), sr_OwnerID (rec s))"

definition settings_at :: "FakeService \<Rightarrow> uuid \<Rightarrow> (string \<times> string \<times> string \<times> string option \<times> string \<times> string \<times> int option \<times> string) option" where
  "settings_at f i = map_option site_settings (gm_get (sites f) i)"

text \<open>A change is confined to one site, and spares the settings or not.\<close>

definition changes_only :: "FakeService \<Rightarrow> FakeService \<Rightarrow> uuid \<Rightarrow> bool" where
  "changes_only f f' i \<longleftrightarrow> (\<forall>j. j \<noteq> i \<longrightarrow> gm_get (sites f') j = gm_get (sites f) j)"

lemma changes_settings: "changes_only f f' i \<Longrightarrow> settings_at f' j \<noteq> settings_at f j \<Longrightarrow> j = i"
  by (auto simp: changes_only_def settings_at_def)

lemma changes_log: "changes_only f f' i \<Longrightarrow> branch_log f' j n \<noteq> branch_log f j n \<Longrightarrow> j = i"
  by (auto simp: changes_only_def branch_log_def)

lemma settings_put [simp]: "settings_at (put_site f i s) j = (if j = i then Some (site_settings s) else settings_at f j)"
  by (simp add: settings_at_def put_site_def)

lemma site_settings_simps [simp]:
  "site_settings (touch s now) = site_settings s" "site_settings (put_branch s n b) = site_settings s"
  "site_settings (setPublished s t now) = site_settings s" "site_settings (fakeSite.branches_update g s) = site_settings s"
  by (simp_all add: site_settings_def touch_def put_branch_def setPublished_def)

lemma settings_seq [simp]: "settings_at (f\<lparr> seq := n \<rparr>) j = settings_at f j"
  by (simp add: settings_at_def)

lemma settings_same: "gm_get (sites f) i = Some s \<Longrightarrow> settings_at f i = Some (site_settings s)"
  by (simp add: settings_at_def)

lemma writer_settings: "writer f clk i name w \<Longrightarrow> settings_at (fst w) j = settings_at f j"
  by (induction rule: writer.induct) (simp_all add: commit_on_eq settings_same)

lemma Publish_settings:
  assumes inv: "svc_inv f"
  shows "settings_at (fst (Publish f clk inp)) j = settings_at f j"
proof (cases "Publish f clk inp")
  case (Pair f' r)
  show ?thesis
  proof (cases r)
    case (Inl e)
    then show ?thesis using Pair Publish_Inl [of f clk inp f' e] by simp
  next
    case (Inr ci)
    show ?thesis unfolding Pair fst_conv
      by (rule Publish_ok [OF inv Pair [unfolded Inr]]) (auto simp: fast_forward_def settings_same)
  qed
qed

lemma content_settings:
  assumes "svc_inv f" and "content_op i x"
  shows "settings_at (svc_apply f x) j = settings_at f j"
  using assms(2)
proof (cases rule: content_op.cases)
  case (co_branch n base)
  show ?thesis unfolding co_branch
    by (cases "CreateBranch f i n base"; cases "snd (CreateBranch f i n base)")
      (auto dest: CreateBranch_Inl CreateBranch_ok [OF assms(1)] simp: settings_same)
next
  case (co_drop n)
  show ?thesis unfolding co_drop
    by (cases "DeleteBranch f i n"; cases "snd (DeleteBranch f i n)") (auto dest!: DeleteBranch_Inl DeleteBranch_ok simp: settings_same)
qed (simp_all add: writer_settings [OF WriteFile_writer [OF assms(1)]] writer_settings [OF DeleteFile_writer [OF assms(1)]]
      writer_settings [OF ImportZip_writer [OF assms(1)]] writer_settings [OF Rollback_writer [OF assms(1)]])

lemma DeleteBranch_other: "j \<noteq> i \<Longrightarrow> gm_get (sites (fst (DeleteBranch f i n))) j = gm_get (sites f) j"
  by (auto simp: DeleteBranch_def put_site_def split: sum.splits option.splits)

lemma content_only:
  assumes "svc_inv f" and "content_op i x"
  shows "changes_only f (svc_apply f x) i"
  using assms(2)
  by (cases rule: content_op.cases)
    (auto simp: changes_only_def CreateBranch_other DeleteBranch_other writer_other [OF WriteFile_writer [OF assms(1)]]
      writer_other [OF DeleteFile_writer [OF assms(1)]] writer_other [OF ImportZip_writer [OF assms(1)]]
      writer_other [OF Rollback_writer [OF assms(1)]])

lemma owner_only: "owner_op i x \<Longrightarrow> changes_only f (svc_apply f x) i"
  by (cases rule: owner_op.cases)
    (auto simp: changes_only_def DeleteSite_def RenameHandle_def Let_def put_site_def MirrorPush_state split: sum.splits option.splits)

lemma op_enabled: "content_op i x \<Longrightarrow> svc_enabled f x" "owner_op i x \<Longrightarrow> svc_enabled f x"
  by (auto elim: content_op.cases owner_op.cases)

lemma put_only: "changes_only f (put_site f i s) i"
  by (simp add: changes_only_def put_site_def)

lemma SetRemote_only: "changes_only f (fst (SetRemote f i repo)) i"
  by (auto simp: SetRemote_def changes_only_def put_site_def split: sum.split)

lemma only_trans: "changes_only f g i \<Longrightarrow> changes_only g h i \<Longrightarrow> changes_only f h i"
  by (simp add: changes_only_def)

lemma put_log: "gm_get (sites f) i = Some s \<Longrightarrow> fakeSite.branches s' = fakeSite.branches s \<Longrightarrow> branch_log (put_site f i s') j n = branch_log f j n"
  by (auto simp: branch_log_def put_site_def)

section \<open>Effects on the world\<close>

definition creates :: "rest_call \<Rightarrow> uuid \<Rightarrow> bool" where
  "creates c i \<longleftrightarrow> i = rc_newID c \<and> (\<exists>u. rc_user c = Some u \<and> (su_CanCreateSites u \<or> su_IsAdmin u))"

definition members_of :: "MetaDB \<Rightarrow> uuid \<Rightarrow> SiteMember list" where
  "members_of d i = filter (\<lambda>m. mb_SiteID m = i) (db_members d)"

definition tokens_of :: "MetaDB \<Rightarrow> uuid \<Rightarrow> UserToken list" where
  "tokens_of d u = filter (\<lambda>t. ut_UserID t = u) (db_tokens d)"

text \<open>What a step of the world may change, by the authority of the caller.\<close>

definition sites_confined :: "rest_call \<Rightarrow> rest_world \<Rightarrow> FakeService \<Rightarrow> bool" where
  "sites_confined c w f \<longleftrightarrow>
     svc_inv f \<and>
     (\<forall>i. gm_get (sites f) i \<noteq> gm_get (sites (rw_svc w)) i \<longrightarrow> may c w i capWrite \<or> creates c i) \<and>
     (\<forall>i. settings_at f i \<noteq> settings_at (rw_svc w) i \<longrightarrow> may c w i capOwner \<or> creates c i) \<and>
     (\<forall>i. branch_log f i BranchPublished \<noteq> branch_log (rw_svc w) i BranchPublished \<longrightarrow> may_publish c w i)"

definition tables_confined :: "rest_call \<Rightarrow> rest_world \<Rightarrow> MetaDB \<Rightarrow> bool" where
  "tables_confined c w d \<longleftrightarrow>
     (\<forall>i. members_of d i \<noteq> members_of (rw_db w) i \<longrightarrow> may c w i capOwner) \<and>
     (\<forall>u. tokens_of d u \<noteq> tokens_of (rw_db w) u \<longrightarrow> (\<exists>su. rc_user c = Some su \<and> su_UserID su = u)) \<and>
     (db_users d \<noteq> db_users (rw_db w) \<longrightarrow> (\<exists>su. rc_user c = Some su \<and> su_IsAdmin su)) \<and>
     db_sessions d = db_sessions (rw_db w)"

lemma tables_same: "db_members d = db_members (rw_db w) \<Longrightarrow> db_tokens d = db_tokens (rw_db w) \<Longrightarrow> db_users d = db_users (rw_db w) \<Longrightarrow>
   db_sessions d = db_sessions (rw_db w) \<Longrightarrow> tables_confined c w d"
  by (simp add: tables_confined_def members_of_def tokens_of_def)

lemma tables_audit: "tables_confined c w (rw_db (auditBestEffort c' v e)) = tables_confined c w (rw_db v)"
  by (simp add: tables_confined_def members_of_def tokens_of_def)

lemma members_elsewhere:
  assumes "only_members i d d'" and "j \<noteq> i"
  shows "members_of d' j = members_of d j"
proof -
  obtain ms where ms: "d' = d\<lparr> db_members := ms \<rparr>"
      "filter (\<lambda>m. mb_SiteID m \<noteq> i) ms = filter (\<lambda>m. mb_SiteID m \<noteq> i) (db_members d)"
    using assms(1) by (auto simp: only_members_def)
  have "filter (\<lambda>m. mb_SiteID m = j) (filter (\<lambda>m. mb_SiteID m \<noteq> i) xs) = filter (\<lambda>m. mb_SiteID m = j) xs" for xs
    unfolding filter_filter by (rule filter_cong) (use assms(2) in auto)
  from this [of ms] this [of "db_members d"] show ?thesis unfolding members_of_def ms(1) using ms(2) by simp
qed

lemma tokens_elsewhere:
  assumes "only_tokens u d d'" and "v \<noteq> u"
  shows "tokens_of d' v = tokens_of d v"
proof -
  obtain ts where ts: "d' = d\<lparr> db_tokens := ts \<rparr>"
      "filter (\<lambda>t. ut_UserID t \<noteq> u) ts = filter (\<lambda>t. ut_UserID t \<noteq> u) (db_tokens d)"
    using assms(1) by (auto simp: only_tokens_def)
  have "filter (\<lambda>t. ut_UserID t = v) (filter (\<lambda>t. ut_UserID t \<noteq> u) xs) = filter (\<lambda>t. ut_UserID t = v) xs" for xs
    unfolding filter_filter by (rule filter_cong) (use assms(2) in auto)
  from this [of ts] this [of "db_tokens d"] show ?thesis unfolding tokens_of_def ts(1) using ts(2) by simp
qed

text \<open>A change of one site that the caller may make, and that leaves published content alone.\<close>

lemma confined_change:
  assumes "svc_inv f" and "changes_only (rw_svc w) f i" and "may c w i capWrite"
    and "(\<forall>j. settings_at f j = settings_at (rw_svc w) j) \<or> may c w i capOwner"
    and "(\<forall>j. branch_log f j BranchPublished = branch_log (rw_svc w) j BranchPublished) \<or> may_publish c w i"
  shows "sites_confined c w f"
proof -
  have "gm_get (sites f) j \<noteq> gm_get (sites (rw_svc w)) j \<Longrightarrow> j = i" for j using assms(2) by (auto simp: changes_only_def)
  then show ?thesis
    unfolding sites_confined_def using assms(1,3-) changes_settings [OF assms(2)] changes_log [OF assms(2)] by blast
qed

lemma no_publish:
  assumes "svc_inv f" and "svc_enabled f x" and "\<And>clk inp. x \<noteq> OpPublish clk inp"
  shows "branch_log (svc_apply f x) j BranchPublished = branch_log f j BranchPublished"
  using apply_published [OF assms(1,2)] assms(3) by blast

lemma confined_settings:
  assumes inv: "svc_inv (rw_svc w)" and g: "granted c w ac capOwner"
    and ok: "sql_UpdateSiteSettings (rw_svc w) now (st_ID (acc_site ac)) vis mode webroot desc = Inr f"
  shows "svc_inv f" "changes_only (rw_svc w) f (st_ID (acc_site ac))" "branch_log f j n = branch_log (rw_svc w) j n"
proof -
  obtain s where s: "gm_get (sites (rw_svc w)) (st_ID (acc_site ac)) = Some s" using granted_site [OF inv g] by blast
  show "svc_inv f" by (rule settings_inv [OF inv s ok])
  show "changes_only (rw_svc w) f (st_ID (acc_site ac))" unfolding settings_site [OF ok s] by (rule put_only)
  show "branch_log f j n = branch_log (rw_svc w) j n" unfolding settings_site [OF ok s] by (rule put_log [OF s]) simp
qed

lemma effect_sites:
  assumes "rest_effect c w w'" and inv: "svc_inv (rw_svc w)" and new: "gm_get (sites (rw_svc w)) (rc_newID c) = None"
  shows "sites_confined c w (rw_svc w')"
  using assms(1)
proof (induction rule: rest_effect.induct)
  case (e_content ac x)
  let ?i = "st_ID (acc_site ac)"
  have p: "branch_log (svc_apply (rw_svc w) x) j BranchPublished = branch_log (rw_svc w) j BranchPublished" for j
    by (rule no_publish [OF inv op_enabled(1) [OF e_content(2)]]) (use e_content(2) in \<open>auto elim: content_op.cases\<close>)
  show ?case
    using confined_change [OF svc_inv_apply [OF inv op_enabled(1) [OF e_content(2)]] content_only [OF inv e_content(2)]
        granted_may [OF inv e_content(1)]] content_settings [OF inv e_content(2)] p by simp
next
  case (e_publish ac inp clk)
  have "may_publish c w (st_ID (acc_site ac))"
    using granted_site [OF inv e_publish(1)] e_publish(2) by (auto simp: may_publish_def toSite_def Let_def)
  moreover have "changes_only (rw_svc w) (fst (Publish (rw_svc w) clk inp)) (st_ID (acc_site ac))"
    using Publish_other e_publish(3) by (simp add: changes_only_def)
  moreover have "svc_inv (fst (Publish (rw_svc w) clk inp))" using svc_inv_apply [OF inv, of "OpPublish clk inp"] by simp
  ultimately show ?case
    using confined_change owner_may_write(2) [OF granted_may [OF inv e_publish(1)]] Publish_settings [OF inv] by simp
next
  case (e_purge ac f v)
  obtain s where s: "gm_get (sites (rw_svc w)) (st_ID (acc_site ac)) = Some s"
      "f = put_site (rw_svc w) (st_ID (acc_site ac)) (s\<lparr> rec := (rec s)\<lparr> sr_CacheVersion := v \<rparr> \<rparr>)"
    using bump_site [OF e_purge(2)] by blast
  have "settings_at f j = settings_at (rw_svc w) j" for j
    unfolding s(2) by (simp add: settings_same [OF s(1)] site_settings_def)
  moreover have "branch_log f j n = branch_log (rw_svc w) j n" for j n unfolding s(2) by (rule put_log [OF s(1)]) simp
  moreover have "changes_only (rw_svc w) f (st_ID (acc_site ac))" unfolding s(2) by (rule put_only)
  ultimately show ?case
    unfolding set_world_simps using confined_change [OF bump_inv [OF inv e_purge(2)]] owner_may_write(2) [OF granted_may [OF inv e_purge(1)]]
    by blast
next
  case (e_owner ac x)
  have o: "may c w (st_ID (acc_site ac)) capOwner" by (rule granted_may [OF inv e_owner(1)])
  have p: "branch_log (svc_apply (rw_svc w) x) j BranchPublished = branch_log (rw_svc w) j BranchPublished" for j
    by (rule no_publish [OF inv op_enabled(2) [OF e_owner(2)]]) (use e_owner(2) in \<open>auto elim: owner_op.cases\<close>)
  show ?case
    using confined_change [OF svc_inv_apply [OF inv op_enabled(2) [OF e_owner(2)]] owner_only [OF e_owner(2)] owner_may_write(1) [OF o]] o p
    by simp
next
  case (e_settings ac now vis mode webroot desc f)
  have o: "may c w (st_ID (acc_site ac)) capOwner" by (rule granted_may [OF inv e_settings(1)])
  note f = confined_settings [OF inv e_settings]
  show ?case using confined_change [OF f(1,2) owner_may_write(1) [OF o]] o f(3) by simp
next
  case (e_remote ac now vis mode webroot desc f repo)
  let ?i = "st_ID (acc_site ac)"
  have o: "may c w ?i capOwner" by (rule granted_may [OF inv e_remote(1)])
  note f = confined_settings [OF inv e_remote]
  have "branch_log (fst (SetRemote f ?i repo)) j BranchPublished = branch_log f j BranchPublished" for j
    using no_publish [OF f(1), of "OpSetRemote ?i repo"] by simp
  then show ?case
    using confined_change [OF SetRemote_inv [OF f(1)] only_trans [OF f(2) SetRemote_only] owner_may_write(1) [OF o]] o f(3) by simp
next
  case (e_create u inp clk)
  let ?f = "fst (CreateSite (rw_svc w) clk (rc_newID c) inp)"
  have c: "creates c (rc_newID c)" using e_create by (auto simp: creates_def)
  have on: "changes_only (rw_svc w) ?f (rc_newID c)" using CreateSite_other by (simp add: changes_only_def)
  have "svc_inv ?f" using svc_inv_apply [OF inv, of "OpCreateSite clk (rc_newID c) inp"] new by simp
  moreover have "branch_log ?f j BranchPublished = branch_log (rw_svc w) j BranchPublished" for j
    using no_publish [OF inv, of "OpCreateSite clk (rc_newID c) inp"] new by simp
  moreover have "gm_get (sites ?f) i \<noteq> gm_get (sites (rw_svc w)) i \<Longrightarrow> creates c i" for i
    using on c by (cases "i = rc_newID c") (auto simp: changes_only_def)
  moreover have "settings_at ?f i \<noteq> settings_at (rw_svc w) i \<Longrightarrow> creates c i" for i using changes_settings [OF on] c by auto
  ultimately show ?case by (simp add: sites_confined_def)
qed (use inv in \<open>simp_all add: sites_confined_def\<close>)

lemma effect_tables:
  assumes "rest_effect c w w'" and inv: "svc_inv (rw_svc w)"
  shows "tables_confined c w (rw_db w')"
  using assms(1)
proof (induction rule: rest_effect.induct)
  case (e_members ac d)
  have "members_of d j \<noteq> members_of (rw_db w) j \<Longrightarrow> may c w j capOwner" for j
    using members_elsewhere [OF e_members(2), of j] granted_may [OF inv e_members(1)] by (cases "j = st_ID (acc_site ac)") auto
  then show ?case using e_members(2) by (auto simp: tables_confined_def tokens_of_def only_members_def)
next
  case (e_tokens u d)
  have "tokens_of d v \<noteq> tokens_of (rw_db w) v \<Longrightarrow> v = su_UserID u" for v using tokens_elsewhere [OF e_tokens(2), of v] by blast
  then show ?case using e_tokens by (auto simp: tables_confined_def members_of_def only_tokens_def)
next
  case (e_flags u d us)
  then show ?case by (auto simp: tables_confined_def members_of_def tokens_of_def)
qed (simp_all add: tables_same tables_audit)

section \<open>Properties\<close>

definition example_rest_call :: rest_call where
  "example_rest_call = \<lparr> rc_user = Some example_user, rc_fails = (\<lambda>_. None), rc_now = 7, rc_clk = (\<lambda>_. 7), rc_newID = ''s9'',
     rc_draw = (\<lambda>_. Some 0) \<rparr>"

definition example_meta :: "site_role \<Rightarrow> MetaDB" where
  "example_meta role = \<lparr> db_users = [new_user ''u'' ''u@example.com'' [] None],
     db_members = [\<lparr> mb_SiteID = ''s1'', mb_UserID = ''u'', mb_Role = role, mb_CreatedAt = 0, mb_CreatedBy = None \<rparr>],
     db_tokens = [], db_sessions = [], db_audit = [] \<rparr>"

definition example_server :: rest_server where
  "example_server = \<lparr> rs_IsProduction = True, rs_BaseDomain = ''kotoji.dev'', rs_MaxUploadBytes = 1000, rs_SignGrant = None,
     rs_parseUUID = Some, rs_sha256 = (\<lambda>x. take 32 (x @ replicate 32 CHR ''0'')) \<rparr>"

definition example_world :: "site_role \<Rightarrow> rest_world" where
  "example_world role = \<lparr> rw_svc = example_svc, rw_db = example_meta role \<rparr>"



end
