(* ===== verification/Rest_Reading.thy ===== *)
theory Rest_Reading
  imports Rest_Guarantees
begin

text \<open>
  What the reading side of the REST API delivers: the pages of a branch's history put together, and the
  preview link against the data plane that has to honour it.
\<close>

section \<open>The pages of a history\<close>

text \<open>A client that follows the cursors; \<open>None\<close> is an error answer, or a history longer than the fuel.\<close>

fun log_pages :: "nat \<Rightarrow> (string \<Rightarrow> rest_error + LogResultWire) \<Rightarrow> string \<Rightarrow> CommitWire list option" where
  "log_pages 0 f before = None"
| "log_pages (Suc n) f before =
     (case f before of
        Inl e \<Rightarrow> None
      | Inr r \<Rightarrow>
          (case lw_NextBefore r of
             None \<Rightarrow> Some (lw_Commits r)
           | Some b \<Rightarrow> map_option ((@) (lw_Commits r)) (log_pages n f b)))"

definition touches :: "fakeBranch \<Rightarrow> string \<Rightarrow> fakeCommit \<Rightarrow> bool" where
  "touches b path k \<longleftrightarrow> path = [] \<or> commitTouchedPath b (sha k) path"

text \<open>A place in the history: the commits before it, the last of which is the cursor, and those after it.\<close>

definition cursor_at :: "fakeCommit list \<Rightarrow> fakeCommit list \<Rightarrow> string \<Rightarrow> bool" where
  "cursor_at xs ys before \<longleftrightarrow> (xs = [] \<and> before = [] \<or> xs \<noteq> [] \<and> before = sha (last xs))"

lemma after_cursor_at:
  assumes "distinct (map sha (xs @ ys))" and "\<forall>k \<in> set (xs @ ys). sha k \<noteq> []" and "cursor_at xs ys before"
  shows "after_cursor (xs @ ys) before = ys"
proof (cases "xs = []")
  case True
  then show ?thesis using assms(3) by (simp add: cursor_at_def after_cursor_def)
next
  case False
  then obtain us v where xs: "xs = us @ [v]" by (metis append_butlast_last_id)
  then have b: "before = sha v" "before \<noteq> []" using assms(2,3) by (auto simp: cursor_at_def)
  have "sha v \<notin> sha ` set us" using assms(1) xs by auto
  then have us: "\<forall>k \<in> set us. sha k \<noteq> before" unfolding b(1) by (metis imageI)
  have "dropWhile (\<lambda>k. sha k \<noteq> before) (us @ v # ys) = v # ys" using us b(1) by (simp add: dropWhile_append2)
  then show ?thesis using b xs by (simp add: after_cursor_def list_ex_iff)
qed

lemma filter_split:
  "k < length (filter P ys) \<Longrightarrow>
   \<exists>us v vs. ys = us @ v # vs \<and> filter P ys ! k = v \<and> filter P vs = drop (Suc k) (filter P ys)"
proof (induction ys arbitrary: k)
  case (Cons y ys)
  show ?case
  proof (cases "P y")
    case False
    then have "k < length (filter P ys)" using Cons.prems by simp
    from Cons.IH [OF this] obtain us v vs where "ys = us @ v # vs" "filter P ys ! k = v" "filter P vs = drop (Suc k) (filter P ys)"
      by blast
    then show ?thesis using False by (intro exI [of _ "y # us"] exI [of _ v] exI [of _ vs]) simp
  next
    case True
    show ?thesis
    proof (cases k)
      case 0
      then show ?thesis using True by (intro exI [of _ "[]"] exI [of _ y] exI [of _ ys]) simp
    next
      case (Suc m)
      then have "m < length (filter P ys)" using Cons.prems True by simp
      from Cons.IH [OF this] obtain us v vs where "ys = us @ v # vs" "filter P ys ! m = v" "filter P vs = drop (Suc m) (filter P ys)"
        by blast
      then show ?thesis using True Suc by (intro exI [of _ "y # us"] exI [of _ v] exI [of _ vs]) simp
    qed
  qed
qed simp

text \<open>A page that is not the last.\<close>

lemma log_page_more:
  assumes "1 \<le> limit" and "limit < int (length zs)"
  shows "log_page branch limit (take (nat (limit + 1)) (map toCommitInfo zs)) =
    \<lparr> lw_Branch = branch, lw_Commits = map (toCommitWire \<circ> toCommitInfo) (take (nat limit) zs),
      lw_NextBefore = Some (sha (zs ! nat (limit - 1))) \<rparr>"
proof -
  define m where "m = nat (limit - 1)"
  have m: "limit = int (Suc m)" using assms(1) by (simp add: m_def)
  have n: "nat limit = Suc m" "nat (limit + 1) = Suc (Suc m)" "nat (limit - 1) = m" "Suc m < length zs"
    using m assms(2) by linarith+
  have "int (length (take (Suc (Suc m)) (map toCommitInfo zs))) > limit" using m n(4) by simp
  then show ?thesis unfolding log_page_def n using n(4)
    by (simp add: take_map min_def toCommitInfo_def)
qed

lemma log_page_last:
  assumes "int (length (filter P ys)) \<le> limit"
  shows "log_page branch limit (take (nat (limit + 1)) (map toCommitInfo (filter P ys))) =
    \<lparr> lw_Branch = branch, lw_Commits = map (toCommitWire \<circ> toCommitInfo) (filter P ys), lw_NextBefore = None \<rparr>"
  using assms by (simp add: log_page_def)

lemma pages_from:
  assumes h: "distinct (map sha (rev b))" "\<forall>k \<in> set b. sha k \<noteq> []" and limit: "1 \<le> limit"
    and f: "\<And>before. f before = Inr (log_page branch limit
        (take (nat (limit + 1)) (map toCommitInfo (filter P (after_cursor (rev b) before)))))"
  shows "rev b = xs @ ys \<Longrightarrow> cursor_at xs ys before \<Longrightarrow> length (filter P ys) < n \<Longrightarrow>
    log_pages n f before = Some (map (toCommitWire \<circ> toCommitInfo) (filter P ys))"
proof (induction n arbitrary: xs ys before)
  case (Suc n)
  have ac: "after_cursor (rev b) before = ys"
    unfolding Suc.prems(1) by (rule after_cursor_at) (use h Suc.prems(1,2) in \<open>auto simp: rev_eq_append_conv\<close>)
  show ?case
  proof (cases "limit < int (length (filter P ys))")
    case True
    let ?zs = "filter P ys"
    have k: "nat (limit - 1) < length ?zs" "Suc (nat (limit - 1)) = nat limit" using True limit by linarith+
    obtain us v vs where s: "ys = us @ v # vs" "?zs ! nat (limit - 1) = v" "filter P vs = drop (nat limit) ?zs"
      using filter_split [OF k(1)] unfolding k(2) by blast
    have "log_pages n f (sha v) = Some (map (toCommitWire \<circ> toCommitInfo) (filter P vs))"
    proof (rule Suc.IH [of "xs @ us @ [v]"])
      show "rev b = (xs @ us @ [v]) @ vs" using Suc.prems(1) s(1) by simp
      show "cursor_at (xs @ us @ [v]) vs (sha v)" by (simp add: cursor_at_def)
      show "length (filter P vs) < n" unfolding s(3) using Suc.prems(3) k by simp
    qed
    moreover have "f before = Inr \<lparr> lw_Branch = branch, lw_Commits = map (toCommitWire \<circ> toCommitInfo) (take (nat limit) ?zs),
        lw_NextBefore = Some (sha v) \<rparr>"
      unfolding f ac log_page_more [OF limit True] s(2) ..
    moreover have "map g (take m zs) @ map g (drop m zs) = map g zs" for g :: "fakeCommit \<Rightarrow> CommitWire" and m zs
      unfolding map_append [symmetric] append_take_drop_id ..
    ultimately show ?thesis unfolding s(3) by simp
  next
    case False
    then have "int (length (filter P ys)) \<le> limit" by simp
    from log_page_last [OF this, of branch] show ?thesis by (simp add: f ac)
  qed
qed simp

lemma log_page_limit_range: "1 \<le> log_page_limit v \<and> log_page_limit v \<le> 500"
  by (simp add: log_page_limit_def Let_def rest_defaultLogLimit_def rest_maxLogLimit_def split: option.split)

lemma GetLog_all:
  assumes inv: "svc_inv f" and s: "gm_get (sites f) i = Some s" "is_live s" and b: "gm_get (fakeSite.branches s) n = Some b"
    and l: "0 < limit" "limit \<le> 500"
  shows "GetLog f \<lparr> lo_SiteID = i, lo_Branch = n, lo_Limit = limit, lo_Before = before, lo_Path = path \<rparr> =
    Inr (take (nat limit) (map toCommitInfo (filter (touches b path) (after_cursor (rev b) before))))"
proof -
  have live: "liveSite f i = Inr s" using s by (simp add: liveSite_Inr)
  have t: "touches b path = (\<lambda>c. path = [] \<or> commitTouchedPath b (sha c) path)" by (simp add: fun_eq_iff touches_def)
  show ?thesis using l b unfolding GetLog_def Let_def t by (simp add: live defaultMaxLogLimit_def)
qed

section \<open>The preview link\<close>

lemma unescape_plain: "\<forall>c \<in> set v. c \<notin> set ''%+'' \<Longrightarrow> query_unescape v = Some v"
  by (induction v) auto

text \<open>A character that a query value may hold as it is.\<close>

definition query_safe :: "char \<Rightarrow> bool" where
  "query_safe c \<longleftrightarrow> c \<notin> set ''%+&;''"

lemma query_kpt:
  assumes "\<forall>c \<in> set v. query_safe c"
  shows "query_get (PreviewGrantQueryParam @ ''='' @ v) PreviewGrantQueryParam = v"
proof -
  define q where "q = PreviewGrantQueryParam @ ''='' @ v"
  have k: "PreviewGrantQueryParam = ''kpt''" "query_unescape ''kpt'' = Some ''kpt''" by code_simp+
  have "CHR ''&'' \<notin> set q" and n: "CHR '';'' \<notin> set q" "q \<noteq> []" using assms by (auto simp: q_def k(1) query_safe_def)
  then have s: "split_on CHR ''&'' q = [q]" using split_on_single by blast
  have "index_byte q CHR ''='' = Some 3" using index_byte_append [of "CHR ''=''" PreviewGrantQueryParam v] by (simp add: q_def k(1))
  then have c: "cut_eq q = (''kpt'', v)" by (simp add: cut_eq_def q_def k(1))
  have u: "query_unescape v = Some v" by (rule unescape_plain) (use assms in \<open>auto simp: query_safe_def\<close>)
  have "query_pairs q = [(''kpt'', v)]"
    unfolding query_pairs_def s by (simp add: List.map_filter_simps c u k(2) n)
  then show ?thesis unfolding q_def [symmetric] by (simp add: query_get_def k(1))
qed

lemma grant_plain:
  assumes "\<forall>c \<in> set i. query_safe c" and "host_label n"
  shows "\<forall>c \<in> set (SignGrant hmac a i n till). query_safe c"
proof -
  have "\<forall>c \<in> set (b64_alphabet True). query_safe c" by code_simp
  then have r: "query_safe c" if "c \<in> set (rawurl_EncodeToString x)" for c x
    using that b64_encode_set [OF bytes_of_lt, of True False x] by (auto simp: rawurl_EncodeToString_def)
  have dc: "\<forall>d \<in> set [0..<10]. query_safe (digit_char d)" by code_simp
  have "query_safe c" if "c \<in> set (show_base 10 m)" for c m
  proof -
    obtain d where "d < 10" "c = digit_char d" using show_base_set [of 10 c m] \<open>c \<in> set (show_base 10 m)\<close> by auto
    then show ?thesis using dc by auto
  qed
  moreover have minus: "query_safe CHR ''-''" by code_simp
  ultimately have d: "query_safe c" if "c \<in> set (show_int k)" for c k
    using that minus by (auto simp: show_int_def show_int_base_def split: if_splits)
  have "\<not> label_char CHR ''%''" "\<not> label_char CHR ''+''" "\<not> label_char CHR ''&''" "\<not> label_char CHR '';''" by code_simp+
  moreover have "\<forall>c \<in> set n. label_char c" using assms(2) by (simp add: host_label_def)
  ultimately have n: "\<forall>c \<in> set n. query_safe c" by (auto simp: query_safe_def)
  have colon: "query_safe CHR '':''" by code_simp
  show ?thesis
    unfolding SignGrant_def Let_def grant_payload_def using assms(1) n r d colon by auto
qed

lemma with_access_Inr:
  "with_access c w h cp k = (w', Inr x) \<longleftrightarrow>
   (\<exists>ac. resolveAccess (GetSiteByHandle (rw_svc w)) (meta_role c (rw_db w)) (rc_user c) h cp = Inr ac \<and> k ac = (w', Inr x))"
  by (auto simp: with_access_def split: sum.splits)

lemma previewGrant_ok:
  assumes "rest_previewGrant s c w h n = (w', Inr g)" and "rs_SignGrant s = Some sign"
  obtains ac th where "resolveAccess (GetSiteByHandle (rw_svc w)) (meta_role c (rw_db w)) (rc_user c) h capRead = Inr ac"
    "n \<noteq> BranchPublished" "validateBranchName n = None" "ServedTree (rw_svc w) (st_ID (acc_site ac)) n = Inr th"
    "g = \<lparr> pg_PreviewUrl = rest_urlFor s (st_Handle (acc_site ac) @ ''--'' @ n) @ ''/?'' @ PreviewGrantQueryParam @ ''='' @
             sign (st_ID (acc_site ac)) n (rc_now c + previewGrantTTL),
           pg_Grant = sign (st_ID (acc_site ac)) n (rc_now c + previewGrantTTL), pg_Branch = n,
           pg_ExpiresAt = rc_now c + previewGrantTTL \<rparr>"
  using assms that unfolding rest_previewGrant_def with_access_Inr
  by (auto simp: with_result_def ValidateBranchName_def Let_def split: if_splits option.splits sum.splits)

definition ids_signable :: "(string \<Rightarrow> uuid option) \<Rightarrow> FakeService \<Rightarrow> string \<Rightarrow> int \<Rightarrow> bool" where
  "ids_signable parseUUID f n till \<longleftrightarrow>
     (\<forall>i s. gm_get (sites f) i = Some s \<longrightarrow> signable parseUUID i n till \<and> (\<forall>c \<in> set i. query_safe c))"

text \<open>What the data plane says to a request that carries the query of the link.\<close>

definition link_admits :: "(string \<Rightarrow> string \<Rightarrow> string) \<Rightarrow> (string \<Rightarrow> uuid option) \<Rightarrow> GrantAuthzConfig \<Rightarrow> PreviewGrantResponse \<Rightarrow> uuid \<Rightarrow> string \<Rightarrow> bool" where
  "link_admits hmac parseUUID a g i n \<longleftrightarrow>
     (\<forall>t path r now. target.Branch t = n \<longrightarrow> raw_query r = PreviewGrantQueryParam @ ''='' @ pg_Grant g \<longrightarrow>
        (if now < seconds_of (pg_ExpiresAt g) * 1000000000 then
           (\<exists>act. Authorize hmac parseUUID a now t path r i = Inr act) \<and>
           (\<forall>j. j \<noteq> i \<longrightarrow> Authorize hmac parseUUID a now t path r j = Inl ErrForbiddenPreview)
         else \<forall>j. Authorize hmac parseUUID a now t path r j = Inl ErrUnauthorized))"

lemma signed_link_admits:
  assumes "signable parseUUID i n till" and "\<forall>c \<in> set i. query_safe c" and "host_label n"
    and g: "pg_Grant g = SignGrant hmac a i n till" "pg_ExpiresAt g = till"
  shows "link_admits hmac parseUUID a g i n"
  unfolding link_admits_def
proof (intro allI impI)
  fix t :: target and path and r :: http_request and now
  assume t: "target.Branch t = n" and q: "raw_query r = PreviewGrantQueryParam @ ''='' @ pg_Grant g"
  have raw: "query_get (raw_query r) PreviewGrantQueryParam = SignGrant hmac a i n till"
    unfolding q g(1) by (rule query_kpt) (rule grant_plain [OF assms(2,3)])
  show "if now < seconds_of (pg_ExpiresAt g) * 1000000000 then
      (\<exists>act. Authorize hmac parseUUID a now t path r i = Inr act) \<and>
      (\<forall>j. j \<noteq> i \<longrightarrow> Authorize hmac parseUUID a now t path r j = Inl ErrForbiddenPreview)
    else \<forall>j. Authorize hmac parseUUID a now t path r j = Inl ErrUnauthorized"
    unfolding Authorize_def raw Let_def using verify_signed [OF assms(1), of hmac a now] t
    by (simp add: g(2) branchMatches_def)
qed

definition example_viewed :: rest_world where
  "example_viewed = \<lparr> rw_svc = example_written, rw_db = example_meta SiteRoleViewer \<rparr>"

definition example_signer :: rest_server where
  "example_signer = example_server\<lparr> rs_SignGrant := Some (SignGrant example_hmac example_authz) \<rparr>"

lemma example_access: "map_sum id (\<lambda>ac. st_ID (acc_site ac))
    (resolveAccess (GetSiteByHandle (rw_svc example_viewed)) (meta_role example_rest_call (rw_db example_viewed)) (rc_user example_rest_call) ''shop'' capRead) =
  Inr ''s1''"
  by code_simp

section \<open>Properties\<close>

text \<open>
  C32: The pages of a history are all of it. For a caller who may read the site, a client that follows
  the cursors from the first page on gets every commit of the branch, or every one that touched the
  path asked for, once and newest first, within one request more than the branch has commits, as long
  as the page size is below 500.
\<close>

theorem rest_history_complete:
  assumes inv: "svc_inv (rw_svc w)"
    and access: "resolveAccess (GetSiteByHandle (rw_svc w)) (meta_role c (rw_db w)) (rc_user c) h capRead = Inr ac"
    and b: "branch_log (rw_svc w) (st_ID (acc_site ac)) branch = Some b" and size: "log_page_limit v < 500"
  shows "log_pages (Suc (length b)) (\<lambda>before. snd (rest_getLog c w h branch v before path)) [] =
    Some (map (toCommitWire \<circ> toCommitInfo) (filter (touches b path) (rev b)))"
proof -
  have "granted c w ac capRead" using access by (auto simp: granted_def)
  then obtain s where s: "gm_get (sites (rw_svc w)) (st_ID (acc_site ac)) = Some s" "is_live s" using granted_site [OF inv] by blast
  then have bs: "gm_get (fakeSite.branches s) branch = Some b" using b by (simp add: branch_log_def)
  have l: "1 \<le> log_page_limit v" "0 < log_page_limit v + 1" "log_page_limit v + 1 \<le> 500" using log_page_limit_range [of v] size by simp_all
  have page: "snd (rest_getLog c w h branch v before path) = Inr (log_page branch (log_page_limit v)
      (take (nat (log_page_limit v + 1)) (map toCommitInfo (filter (touches b path) (after_cursor (rev b) before)))))" for before
    unfolding rest_getLog_def with_access_def access sum.case Let_def GetLog_all [OF inv s bs l(2,3)] with_result_def by simp
  have "distinct (map sha (rev b))" using branch_log_distinct [OF inv b] by (simp add: rev_map [symmetric])
  moreover have "\<forall>k \<in> set b. sha k \<noteq> []"
    using site_branch(1) [OF conjunct1 [OF svc_site [OF inv s(1)]] bs] by (auto simp: branch_ok_def)
  moreover have "length (filter (touches b path) (rev b)) < Suc (length b)"
    using length_filter_le [of "touches b path" "rev b"] by simp
  ultimately show ?thesis
    by (intro pages_from [OF _ _ l(1) page, where xs = "[]"]) (simp_all add: cursor_at_def)
qed

theorem rest_history_complete_witness:
  "\<exists>cs. log_pages 3 (\<lambda>before. snd (rest_getLog example_rest_call example_viewed ''shop'' ''draft'' ''1'' before [])) [] = Some cs \<and>
     length cs = 2"
proof -
  have inv: "svc_inv (rw_svc example_viewed)" using reachable_inv [OF example_written_reachable] by (simp add: example_viewed_def)
  obtain ac where ac: "resolveAccess (GetSiteByHandle (rw_svc example_viewed)) (meta_role example_rest_call (rw_db example_viewed))
      (rc_user example_rest_call) ''shop'' capRead = Inr ac" "st_ID (acc_site ac) = ''s1''"
    using example_access by (auto simp: map_sum_def split: sum.splits)
  have "map_option length (branch_log (rw_svc example_viewed) ''s1'' ''draft'') = Some 2" by code_simp
  then obtain b where b: "branch_log (rw_svc example_viewed) (st_ID (acc_site ac)) ''draft'' = Some b" "length b = 2"
    unfolding ac(2) by auto
  have l: "log_page_limit ''1'' < 500" by code_simp
  have t: "filter (touches b []) xs = xs" for xs by (rule filter_True) (simp add: touches_def)
  show ?thesis using rest_history_complete [OF inv ac(1) b(1) l, of "[]"] b(2) by (simp add: t numeral_3_eq_3)
qed

text \<open>
  C20: A preview link works. The link handed out names a branch that exists, of a live site that the
  caller may read, and not the published one; its host resolves to that site and branch; and a request
  with the query of the link is let through for that site and branch while the grant lasts, is refused
  on every other site, and on all of them once it has expired.
\<close>

theorem preview_link_works:
  assumes inv: "svc_inv (rw_svc w)" and sign: "rs_SignGrant s = Some (SignGrant hmac a)"
    and ok: "rest_previewGrant s c w h n = (w', Inr g)"
    and dom: "rs_BaseDomain s \<noteq> []" "\<forall>x \<in> set (rs_BaseDomain s). \<not> is_space x"
    and ids: "ids_signable parseUUID (rw_svc w) n (pg_ExpiresAt g)"
  shows "\<exists>i b host. may c w i capRead \<and> branch_log (rw_svc w) i n = Some b \<and> n \<noteq> BranchPublished \<and>
    pg_PreviewUrl g = (if rs_IsProduction s then ''https'' else ''http'') @ ''://'' @ host @ ''/?'' @ PreviewGrantQueryParam @ ''='' @ pg_Grant g \<and>
    map_sum id (\<lambda>t. (sv_SiteID t, sv_Branch t)) (ResolveForServing (rw_svc w) host) = Inr (i, n) \<and>
    link_admits hmac parseUUID a g i n"
proof -
  obtain ac th where ac: "resolveAccess (GetSiteByHandle (rw_svc w)) (meta_role c (rw_db w)) (rc_user c) h capRead = Inr ac"
    and n: "n \<noteq> BranchPublished" "validateBranchName n = None" and th: "ServedTree (rw_svc w) (st_ID (acc_site ac)) n = Inr th"
    and g: "g = \<lparr> pg_PreviewUrl = rest_urlFor s (st_Handle (acc_site ac) @ ''--'' @ n) @ ''/?'' @ PreviewGrantQueryParam @ ''='' @
             SignGrant hmac a (st_ID (acc_site ac)) n (rc_now c + previewGrantTTL),
           pg_Grant = SignGrant hmac a (st_ID (acc_site ac)) n (rc_now c + previewGrantTTL), pg_Branch = n,
           pg_ExpiresAt = rc_now c + previewGrantTTL \<rparr>"
    by (rule previewGrant_ok [OF ok sign])
  let ?i = "st_ID (acc_site ac)"
  have gr: "granted c w ac capRead" using ac by (auto simp: granted_def)
  then obtain si where si: "gm_get (sites (rw_svc w)) ?i = Some si" "is_live si" "acc_site ac = toSite (rec si)"
    using granted_site [OF inv] by blast
  obtain b where b: "gm_get (fakeSite.branches si) n = Some b"
    using th si by (auto simp: ServedTree_def liveSite_def split: option.splits sum.splits if_splits)
  have h: "ValidateHandle (sr_Handle (rec si)) = None" using svc_site [OF inv si(1)] site_ok_handle by blast
  let ?host = "previewSubdomain (sr_Handle (rec si)) n @ ''.'' @ rs_BaseDomain s"
  have host: "ResolveForServing (rw_svc w) ?host =
      Inr \<lparr> sv_SiteID = ?i, sv_Handle = sr_Handle (rec si), sv_Branch = n, sv_Root = [], sv_HeadSHA = sha (last b) \<rparr>"
    using n dom(2) by (intro ResolveForServing_host [OF inv h _ _ _ named_site_live [OF inv si(1,2)] si(1,2) b]) auto
  have "host_label n" using n(2) by (simp add: validateBranchName_iff)
  moreover have "signable parseUUID ?i n (pg_ExpiresAt g)" "\<forall>c \<in> set ?i. query_safe c" using ids si(1) unfolding ids_signable_def by blast+
  moreover have "pg_Grant g = SignGrant hmac a ?i n (pg_ExpiresAt g)" by (simp add: g)
  ultimately have adm: "link_admits hmac parseUUID a g ?i n" by (intro signed_link_admits) simp_all
  have url: "pg_PreviewUrl g = (if rs_IsProduction s then ''https'' else ''http'') @ ''://'' @ ?host @ ''/?'' @ PreviewGrantQueryParam @ ''='' @ pg_Grant g"
    using dom(1) n(1) unfolding g by (simp add: rest_urlFor_def Let_def si(3) previewSubdomain_def doubleHyphen_def)
  have "branch_log (rw_svc w) ?i n = Some b" using si(1) b by (simp add: branch_log_def)
  moreover have "map_sum id (\<lambda>t. (sv_SiteID t, sv_Branch t)) (ResolveForServing (rw_svc w) ?host) = Inr (?i, n)"
    unfolding host by simp
  ultimately show ?thesis using granted_may [OF inv gr] n(1) url adm by blast
qed

theorem preview_link_works_witness:
  "\<exists>g host. snd (rest_previewGrant example_signer example_rest_call example_viewed ''shop'' ''draft'') = Inr g \<and>
     map_sum id (\<lambda>t. (sv_SiteID t, sv_Branch t)) (ResolveForServing example_written host) = Inr (''s1'', ''draft'')"
proof -
  let ?r = "rest_previewGrant example_signer example_rest_call example_viewed ''shop'' ''draft''"
  have inv: "svc_inv (rw_svc example_viewed)" using reachable_inv [OF example_written_reachable] by (simp add: example_viewed_def)
  have sign: "rs_SignGrant example_signer = Some (SignGrant example_hmac example_authz)" by (simp add: example_signer_def)
  have e: "map_sum id pg_ExpiresAt (snd ?r) = Inr 300000000007" by code_simp
  then obtain w' g where g: "?r = (w', Inr g)" "pg_ExpiresAt g = 300000000007" by (cases ?r; cases "snd ?r") auto
  have dom: "rs_BaseDomain example_signer \<noteq> []" "\<forall>x \<in> set (rs_BaseDomain example_signer). \<not> is_space x" by code_simp+
  have keys: "map fst (sites (rw_svc example_viewed)) = [''s1'']" by code_simp
  have "signable Some ''s1'' ''draft'' 300000000007"
    by (simp add: signable_def seconds_of_def int64_min_def int64_max_def)
  moreover have "\<forall>c \<in> set ''s1''. query_safe c" by code_simp
  moreover have one: "gm_get (sites (rw_svc example_viewed)) i = Some s \<Longrightarrow> i = ''s1''" for i s
    using gm_get_in [of "sites (rw_svc example_viewed)" i s] keys by (cases "sites (rw_svc example_viewed)") auto
  ultimately have ids: "ids_signable Some (rw_svc example_viewed) ''draft'' (pg_ExpiresAt g)" unfolding ids_signable_def g(2) by blast
  from preview_link_works [OF inv sign g(1) dom ids] obtain i host where i: "may example_rest_call example_viewed i capRead"
      "map_sum id (\<lambda>t. (sv_SiteID t, sv_Branch t)) (ResolveForServing (rw_svc example_viewed) host) = Inr (i, ''draft'')" by blast
  have "i = ''s1''" using i(1) one by (auto simp: may_def)
  moreover have "rw_svc example_viewed = example_written" by (simp add: example_viewed_def)
  moreover have "snd ?r = Inr g" using g(1) by simp
  ultimately show ?thesis using i(2) by (intro exI conjI) auto
qed

text \<open>
  With pages of 500 a client never sees more than the newest 500 commits: the row beyond the page,
  which would announce another one, is cut off by the service's own limit.
\<close>

theorem rest_history_cut:
  assumes "log_page_limit v = 500" and "snd (rest_getLog c w h branch v before path) = Inr r"
  shows "lw_NextBefore r = None \<and> length (lw_Commits r) \<le> 500"
proof -
  have "\<exists>zs. r = log_page branch 500 (take 500 zs)"
    using assms unfolding rest_getLog_def with_access_def with_result_def GetLog_def Let_def
    by (auto simp: defaultMaxLogLimit_def split: sum.splits option.splits)
  then show ?thesis by (auto simp: log_page_def)
qed

end
