(* ===== verification/Rest_Accounts.thy ===== *)
theory Rest_Accounts
  imports Rest_Guarantees "HOL-Library.Multiset"
begin

text \<open>
  What the REST API keeps true of accounts: the tables stay well formed, a site keeps an owner but
  for one way to lose it, and a token works for its user from its creation to its revocation
  (\<open>api/members.go\<close>, \<open>api/tokens.go\<close>, and \<open>mcpserver/registry.go\<close> on the other side).
\<close>

section \<open>Well-formed tables\<close>

lemma wf_audited: "meta_wf (rw_db (auditBestEffort c w e)) = meta_wf (rw_db w)"
  using audit_cases [of c w e] by (auto simp: set_audit_def wf_audit)

lemma effect_wf: "rest_effect c w w' \<Longrightarrow> meta_wf (rw_db w) \<Longrightarrow> meta_wf (rw_db w')"
  by (induction rule: rest_effect.induct) (simp_all add: wf_audited)

section \<open>Owners\<close>

definition owners_of :: "MetaDB \<Rightarrow> uuid \<Rightarrow> uuid list" where
  "owners_of d i = map mb_UserID (filter (\<lambda>m. mb_SiteID m = i \<and> mb_Role m = SiteRoleOwner) (db_members d))"

lemma owners_iff: "u \<in> set (owners_of d i) \<longleftrightarrow> (\<exists>m \<in> set (db_members d). is_member i u m \<and> mb_Role m = SiteRoleOwner)"
  by (auto simp: owners_of_def is_member_def)

lemma owners_distinct: "meta_wf d \<Longrightarrow> distinct (owners_of d i)"
proof -
  assume "meta_wf d"
  then have "distinct (map (\<lambda>m. (mb_SiteID m, mb_UserID m)) (filter (\<lambda>m. mb_SiteID m = i \<and> mb_Role m = SiteRoleOwner) (db_members d)))"
    by (simp add: meta_wf_def distinct_map_filter)
  then show ?thesis unfolding owners_of_def distinct_map by (auto simp: inj_on_def)
qed

lemma joined:
  assumes "\<forall>m \<in> set ms. find_user d (mb_UserID m) \<noteq> None"
  shows "map fst (List.map_filter (\<lambda>m. map_option (Pair m) (find_user d (mb_UserID m))) ms) = ms"
  using assms by (induction ms) (auto simp: List.map_filter_simps)

lemma isSoleOwner_iff:
  assumes wf: "meta_wf d" and ok: "rc_fails c ''ListMembers'' = None"
  shows "isSoleOwner c d i u = Inr (owners_of d i = [u])"
proof -
  let ?ms = "filter (\<lambda>m. mb_SiteID m = i) (db_members d)"
  let ?sorted = "sort_key (\<lambda>m. - mb_CreatedAt m) ?ms"
  let ?rows = "List.map_filter (\<lambda>m. map_option (Pair m) (find_user d (mb_UserID m))) ?sorted"
  let ?owners = "filter (\<lambda>(m, _). mb_Role m = SiteRoleOwner) ?rows"
  have "map fst ?owners = filter (\<lambda>m. mb_Role m = SiteRoleOwner) (map fst ?rows)"
    unfolding filter_map by (intro arg_cong [of _ _ "map fst"] filter_cong) auto
  also have "\<dots> = filter (\<lambda>m. mb_Role m = SiteRoleOwner) ?sorted"
    using wf by (subst joined) (auto simp: meta_wf_def)
  finally have o: "map fst ?owners = filter (\<lambda>m. mb_Role m = SiteRoleOwner) ?sorted" .
  have "mset (filter (\<lambda>m. mb_Role m = SiteRoleOwner) ?sorted) = mset (filter (\<lambda>m. mb_Role m = SiteRoleOwner) ?ms)"
    by (simp only: mset_filter mset_sort)
  then have same: "mset (map mb_UserID (map fst ?owners)) = mset (owners_of d i)"
    unfolding o owners_of_def filter_filter by (simp only: mset_map)
  have eq: "length ?owners = length (owners_of d i)" using mset_eq_length [OF same] by (simp only: length_map)
  have "set (map mb_UserID (map fst ?owners)) = set (owners_of d i)" by (rule mset_eq_setD [OF same])
  moreover have "(\<exists>(m, _) \<in> set ?owners. mb_UserID m = u) \<longleftrightarrow> u \<in> set (map mb_UserID (map fst ?owners))" by force
  ultimately have mem: "(\<exists>(m, _) \<in> set ?owners. mb_UserID m = u) \<longleftrightarrow> u \<in> set (owners_of d i)" by (simp only:)
  have "u \<in> set (owners_of d i) \<and> length (owners_of d i) = 1 \<longleftrightarrow> owners_of d i = [u]"
    by (cases "owners_of d i") auto
  then show ?thesis
    unfolding isSoleOwner_def query_def ok sql_ListMembers_def option.case sum.case Let_def eq mem by simp
qed

lemma other_owner:
  assumes "meta_wf d" and "owners_of d i \<noteq> []" and "owners_of d i \<noteq> [u]"
  obtains v where "v \<in> set (owners_of d i)" "v \<noteq> u"
  using assms owners_distinct [OF assms(1), of i] that
  by (cases "owners_of d i"; cases "tl (owners_of d i)") auto

text \<open>Queries on a member and the owners of a site.\<close>

lemma set_role_owners:
  assumes "v \<in> set (owners_of d j)" and "role = SiteRoleOwner \<or> \<not> (j = i \<and> v = u)"
  shows "v \<in> set (owners_of (set_role d i u role) j)"
proof -
  obtain m where m: "m \<in> set (db_members d)" "is_member j v m" "mb_Role m = SiteRoleOwner" using assms(1) unfolding owners_iff by blast
  let ?m = "if is_member i u m then m\<lparr> mb_Role := role \<rparr> else m"
  have "is_member j v ?m" "mb_Role ?m = SiteRoleOwner" using m(2,3) assms(2) by (auto simp: is_member_def)
  moreover have "?m \<in> set (db_members (set_role d i u role))" using m(1) by (simp add: set_role_def)
  ultimately show ?thesis unfolding owners_iff by blast
qed

lemma remove_owners:
  assumes "v \<in> set (owners_of d j)" and "\<not> (j = i \<and> v = u)" and "sql_RemoveMember d i u = Inr d'"
  shows "v \<in> set (owners_of d' j)"
  using assms unfolding owners_iff by (auto simp: sql_RemoveMember_def is_member_def)

text \<open>The one way: a sole owner is added again, with another role.\<close>

fun demotes :: "MetaDB \<Rightarrow> uuid \<Rightarrow> rest_request \<Rightarrow> bool" where
  "demotes d i (ReqAddMember h (Inr b)) =
     (aq_Role b \<noteq> SiteRoleOwner \<and>
      (case sql_GetUserByEmail d (aq_Email b) of Inr u \<Rightarrow> owners_of d i = [us_ID u] | Inl _ \<Rightarrow> False))"
| "demotes d i _ = False"

definition owner_kept :: "rest_request \<Rightarrow> uuid \<Rightarrow> rest_call \<Rightarrow> rest_world \<Rightarrow> rest_world \<Rightarrow> bool" where
  "owner_kept q i c w v \<longleftrightarrow>
     (meta_wf (rw_db w) \<and> rc_fails c ''ListMembers'' = None \<and> \<not> demotes (rw_db w) i q \<and> owners_of (rw_db w) i \<noteq> [] \<longrightarrow>
      owners_of (rw_db v) i \<noteq> [])"

interpretation rown: handler_frame "owner_kept q i" for q i
  by unfold_locales (auto simp: owner_kept_def owners_of_def)

lemma kept_same: "db_members (rw_db v) = db_members (rw_db w) \<Longrightarrow> owner_kept q i c w v"
  by (simp add: owner_kept_def owners_of_def)


lemma kept_update:
  assumes "sql_UpdateMemberRole (rw_db w) j u role = Inr d" and "\<not> (role \<noteq> SiteRoleOwner \<and> isSoleOwner c (rw_db w) j u = Inr True)"
  shows "owner_kept q i c w (set_db w d)"
  unfolding owner_kept_def
proof (intro impI, elim conjE)
  assume wf: "meta_wf (rw_db w)" and ok: "rc_fails c ''ListMembers'' = None" and o: "owners_of (rw_db w) i \<noteq> []"
  have d: "d = set_role (rw_db w) j u role" using assms(1) by (auto simp: sql_UpdateMemberRole_def split: if_splits)
  obtain v where "v \<in> set (owners_of (rw_db w) i)" "role = SiteRoleOwner \<or> \<not> (i = j \<and> v = u)"
  proof (cases "role = SiteRoleOwner \<or> i \<noteq> j")
    case True
    then show ?thesis using o that by (cases "owners_of (rw_db w) i") auto
  next
    case False
    then have "owners_of (rw_db w) i \<noteq> [u]" using assms(2) isSoleOwner_iff [OF wf ok, of j u] by simp
    then show ?thesis using other_owner [OF wf o] that by metis
  qed
  then have "v \<in> set (owners_of d i)" unfolding d by (rule set_role_owners)
  then show "owners_of (rw_db (set_db w d)) i \<noteq> []" by auto
qed

lemma kept_remove:
  assumes "sql_RemoveMember (rw_db w) j u = Inr d" and "isSoleOwner c (rw_db w) j u \<noteq> Inr True"
  shows "owner_kept q i c w (set_db w d)"
  unfolding owner_kept_def
proof (intro impI, elim conjE)
  assume wf: "meta_wf (rw_db w)" and ok: "rc_fails c ''ListMembers'' = None" and o: "owners_of (rw_db w) i \<noteq> []"
  obtain v where "v \<in> set (owners_of (rw_db w) i)" "\<not> (i = j \<and> v = u)"
  proof (cases "i = j")
    case True
    then have "owners_of (rw_db w) i \<noteq> [u]" using assms(2) isSoleOwner_iff [OF wf ok, of j u] by simp
    then show ?thesis using other_owner [OF wf o] that by metis
  next
    case False
    then show ?thesis using o that by (cases "owners_of (rw_db w) i") auto
  qed
  then have "v \<in> set (owners_of d i)" by (rule remove_owners [OF _ _ assms(1)])
  then show "owners_of (rw_db (set_db w d)) i \<noteq> []" by auto
qed

lemma kept_add:
  assumes a: "sql_AddMember (rw_db w) now j (us_ID t) (aq_Role b) by = Inr d"
    and t: "sql_GetUserByEmail (rw_db w) (aq_Email b) = Inr t"
  shows "owner_kept (ReqAddMember h (Inr b)) i c w (set_db w d)"
  unfolding owner_kept_def
proof (intro impI, elim conjE)
  assume wf: "meta_wf (rw_db w)" and o: "owners_of (rw_db w) i \<noteq> []" and n: "\<not> demotes (rw_db w) i (ReqAddMember h (Inr b))"
  obtain v where v: "v \<in> set (owners_of (rw_db w) i)" "aq_Role b = SiteRoleOwner \<or> v \<noteq> us_ID t"
  proof (cases "aq_Role b = SiteRoleOwner")
    case True
    then show ?thesis using o that by (cases "owners_of (rw_db w) i") auto
  next
    case False
    then have "owners_of (rw_db w) i \<noteq> [us_ID t]" using n t by simp
    then show ?thesis using other_owner [OF wf o] that by metis
  qed
  consider "d = set_role (rw_db w) j (us_ID t) (aq_Role b)" | m where "d = (rw_db w)\<lparr> db_members := db_members (rw_db w) @ [m] \<rparr>"
    using a by (auto simp: sql_AddMember_def split: if_splits)
  then have "v \<in> set (owners_of d i)"
  proof cases
    case 1
    then show ?thesis using set_role_owners [OF v(1)] v(2) by auto
  next
    case 2
    then show ?thesis using v(1) by (auto simp: owners_of_def)
  qed
  then show "owners_of (rw_db (set_db w d)) i \<noteq> []" by auto
qed

text \<open>Every handler but the three on members leaves them alone.\<close>

lemma kept_svc: "owner_kept q i c w (set_svc w f)"
  by (rule kept_same) simp

lemma kept_tokens: "only_tokens u (rw_db w) d \<Longrightarrow> owner_kept q i c w (set_db w d)"
  by (rule kept_same) (auto simp: only_tokens_def)

lemma owner_content:
  "owner_kept q i c w (fst (rest_createBranch c w h b1))" "owner_kept q i c w (fst (rest_deleteBranch c w h n))"
  "owner_kept q i c w (fst (rest_writeFile c w h n b2))" "owner_kept q i c w (fst (rest_deleteFile c w h n p base))"
  "owner_kept q i c w (fst (rest_importZip s c w h n up))" "owner_kept q i c w (fst (rest_rollback c w h n b3))"
  "owner_kept q i c w (fst (rest_deleteSite c w h))" "owner_kept q i c w (fst (rest_renameSite c w h b4))"
  "owner_kept q i c w (fst (rest_mirrorSite c w h))" "owner_kept q i c w (fst (rest_publish s c w h b5))"
  "owner_kept q i c w (fst (rest_purgeSiteCache c w h))" "owner_kept q i c w (fst (rest_createSite c w b6))"
  "owner_kept q i c w (fst (rest_updateSite c w h b7))"
  unfolding rest_createBranch_def rest_deleteBranch_def rest_writeFile_def rest_deleteFile_def rest_importZip_def rest_rollback_def
    rest_deleteSite_def rest_renameSite_def rest_mirrorSite_def rest_publish_def rest_purgeSiteCache_def rest_createSite_def
    rest_updateSite_def finish_update_def Let_def
  by (intro rown.frame kept_svc; simp add: kept_svc)+

lemma owner_read:
  "owner_kept q i c w (fst (rest_listTokens c w))" "owner_kept q i c w (fst (rest_listSites c w))"
  "owner_kept q i c w (fst (rest_getSite c w h))" "owner_kept q i c w (fst (rest_listMembers c w h))"
  "owner_kept q i c w (fst (rest_listBranches c w h))" "owner_kept q i c w (fst (rest_previewGrant s c w h n))"
  "owner_kept q i c w (fst (rest_listFiles c w h n dir ref recursive))" "owner_kept q i c w (fst (rest_readFile c w h n p ref))"
  "owner_kept q i c w (fst (rest_commit c w h n b1))" "owner_kept q i c w (fst (rest_getLog c w h n limit before p))"
  "owner_kept q i c w (fst (rest_getDiff c w h a b p l ns))"
  unfolding rest_listTokens_def rest_listSites_def rest_getSite_def rest_listMembers_def rest_listBranches_def rest_previewGrant_def
    rest_listFiles_def rest_readFile_def rest_commit_def rest_getLog_def rest_getDiff_def Let_def
  by (intro rown.frame)+

lemma owner_tables:
  "owner_kept q i c w (fst (rest_createToken s c w b1))" "owner_kept q i c w (fst (rest_revokeToken s c w t))"
  unfolding rest_createToken_def rest_revokeToken_def Let_def
  by (intro rown.frame; (blast intro: kept_tokens token_queries_only dest: query_ok)?)+

lemma owner_flags: "owner_kept q i c w (fst (rest_adminSetUserFlags s c w u b2))"
proof -
  have "owner_kept q i c w (set_db w d)" if "sql_SetUserAdminFlags (rw_db w) x y z = Inr d" for d x y z
    by (rule kept_same) (use that in \<open>auto simp: sql_SetUserAdminFlags_def update_user_def\<close>)
  then show ?thesis unfolding rest_adminSetUserFlags_def Let_def
    by (intro rown.frame; (blast dest: query_ok)?)
qed

lemma owner_members:
  "owner_kept (ReqAddMember h b1) i c w (fst (rest_addMember c w h b1))"
  "owner_kept q i c w (fst (rest_updateMemberRole s c w h u b2))" "owner_kept q i c w (fst (rest_removeMember s c w h u))"
proof -
  have "owner_kept (ReqAddMember h (Inr x)) i c w (fst (rest_addMember c w h (Inr x)))" for x
    unfolding rest_addMember_def with_body_def sum.case
    by (intro rown.frame; (blast intro: kept_add dest: query_ok)?)
  moreover have "owner_kept q i c w (fst (rest_addMember c w h (Inl x)))" for x q
    unfolding rest_addMember_def with_body_def sum.case by (intro rown.frame)
  ultimately show "owner_kept (ReqAddMember h b1) i c w (fst (rest_addMember c w h b1))" by (cases b1) auto
  show "owner_kept q i c w (fst (rest_updateMemberRole s c w h u b2))" "owner_kept q i c w (fst (rest_removeMember s c w h u))"
    unfolding rest_updateMemberRole_def rest_removeMember_def Let_def
    by (intro rown.frame; (blast intro: kept_update kept_remove dest: query_ok)?)+
qed

lemma run_owner: "owner_kept q i c w (fst (rest_run s c w q))"
  by (cases q) (simp_all add: owner_content owner_read owner_tables owner_flags owner_members)

section \<open>Tokens\<close>

text \<open>The verifier of the MCP server over the tables.\<close>

definition verify_token :: "(string \<Rightarrow> string) \<Rightarrow> MetaDB \<Rightarrow> int \<Rightarrow> string \<Rightarrow> verify_result" where
  "verify_token sha256 d now = Verify (\<lambda>p. map_sum row_error_text id (sql_GetUserTokenByPrefix d now p)) sha256 now"

text \<open>What it must say of the bearer of a token, when all is well and when not.\<close>

definition bearer_of :: "UserToken \<Rightarrow> User \<Rightarrow> int \<Rightarrow> verify_result" where
  "bearer_of t usr now =
     (if token_active now t \<and> us_IsActive usr then
        Verified \<lparr> ti_UserID = ut_UserID t, ti_TokenID = ut_ID t, ti_Scopes = ut_Scopes t,
                   ti_CanCreateSites = (ut_CanCreateSites t \<and> us_CanCreateSites usr) \<rparr>
          (case ut_ExpiresAt t of Some e \<Rightarrow> e | None \<Rightarrow> noExpiry) (ut_ID t)
      else InvalidToken ''mcpserver: unknown token'')"

lemma find_map_filter_one:
  assumes "x \<in> set xs" and "\<And>y z. y \<in> set xs \<Longrightarrow> g y = Some z \<Longrightarrow> P z \<Longrightarrow> y = x" and "\<And>z. g x = Some z \<Longrightarrow> P z"
  shows "find P (List.map_filter g xs) = g x"
proof (cases "g x")
  case None
  then have "\<not> P z" if "y \<in> set xs" "g y = Some z" for y z using assms(2) that by fastforce
  then show ?thesis using None by (auto simp: find_None_iff List.map_filter_def)
next
  case (Some z)
  have "find P (List.map_filter g ys) = (if x \<in> set ys then Some z else None)" if "set ys \<subseteq> set xs" for ys
    using that
  proof (induction ys)
    case (Cons y ys)
    then have tail: "find P (List.map_filter g ys) = (if x \<in> set ys then Some z else None)" by simp
    show ?case
    proof (cases "y = x")
      case True
      then show ?thesis using Some assms(3) by (simp add: List.map_filter_simps)
    next
      case False
      then have "\<not> P v" if "g y = Some v" for v using assms(2) that Cons.prems by auto
      then show ?thesis using tail False by (cases "g y") (simp_all add: List.map_filter_simps)
    qed
  qed (simp add: List.map_filter_simps)
  then show ?thesis using assms(1) Some by simp
qed

lemma verify_row:
  assumes wf: "meta_wf d" and t: "t \<in> set (db_tokens d)" and hash: "ut_TokenHash t = sha256 tok" and pfx: "ut_TokenPrefix t = take 12 tok"
    and form: "has_prefix tok tokenPrefix" "12 \<le> length tok" and usr: "find_user d (ut_UserID t) = Some usr"
  shows "verify_token sha256 d now tok = bearer_of t usr now"
proof -
  let ?g = "\<lambda>t. (case find_user d (ut_UserID t) of
          None \<Rightarrow> None
        | Some u \<Rightarrow>
            if ut_TokenPrefix t = take 12 tok \<and> token_active now t \<and> us_IsActive u then
              Some \<lparr> tr_ID = ut_ID t, tr_UserID = ut_UserID t, tr_TokenHash = ut_TokenHash t, tr_Scopes = ut_Scopes t,
                     tr_CanCreateSites = ut_CanCreateSites t, tr_ExpiresAt = ut_ExpiresAt t,
                     tr_UserCanCreateSites = us_CanCreateSites u \<rparr>
            else None)"
  have one: "y = t" if "y \<in> set (db_tokens d)" "ut_TokenHash y = sha256 tok" for y
    using wf t that hash unfolding meta_wf_def distinct_map inj_on_def by metis
  have f: "find (\<lambda>r. tr_TokenHash r = sha256 tok) (List.map_filter ?g (db_tokens d)) = ?g t"
  proof (rule find_map_filter_one [OF t])
    show "y = t" if "y \<in> set (db_tokens d)" "?g y = Some z" "tr_TokenHash z = sha256 tok" for y z
      using that by (intro one) (auto split: option.splits if_splits)
    show "tr_TokenHash z = sha256 tok" if "?g t = Some z" for z
      using that hash by (auto split: option.splits if_splits)
  qed
  have "verify_token sha256 d now tok =
      (case ?g t of None \<Rightarrow> InvalidToken ''mcpserver: unknown token''
       | Some r \<Rightarrow> if (case tr_ExpiresAt r of Some t \<Rightarrow> \<not> now < t | None \<Rightarrow> False) then InvalidToken ''mcpserver: expired token''
                   else Verified \<lparr> ti_UserID = tr_UserID r, ti_TokenID = tr_ID r, ti_Scopes = tr_Scopes r,
                                    ti_CanCreateSites = (tr_CanCreateSites r \<and> tr_UserCanCreateSites r) \<rparr>
                          (case tr_ExpiresAt r of Some t \<Rightarrow> t | None \<Rightarrow> noExpiry) (tr_ID r))"
    using form unfolding verify_token_def Verify_def sql_GetUserTokenByPrefix_def prefixLen_def f [symmetric] by simp
  then show ?thesis using usr pfx by (auto simp: bearer_of_def token_active_def split: option.splits)
qed

lemma randBase62_length: "randBase62 draw n = Some r \<Longrightarrow> length r = n"
  by (auto simp: randBase62_def split: if_splits)

lemma generateToken_form:
  assumes "generateToken sha256 draw = Some (plain, pfx, hash)"
  shows "has_prefix plain tokenPrefix" "12 \<le> length plain" "pfx = take 12 plain" "hash = sha256 plain"
  using assms randBase62_length [of draw tokenRandomLen]
  by (auto simp: generateToken_def Let_def tokenPrefixStr_def tokenPrefix_def tokenPrefixLen_def tokenRandomLen_def
      has_prefix_def split: option.splits)

text \<open>The row that a created token leaves behind.\<close>

lemma createToken_row:
  assumes "rest_createToken s c w (Inr b) = (w1, Inr t)" and "rc_user c = Some u" and "meta_wf (rw_db w)"
  obtains row plain where "tw_Token t = Some plain" "tw_Id t = ut_ID row" "row \<in> set (db_tokens (rw_db w1))"
    "ut_TokenHash row = rs_sha256 s plain" "ut_TokenPrefix row = take 12 plain" "has_prefix plain tokenPrefix" "12 \<le> length plain"
    "ut_UserID row = su_UserID u" "ut_Scopes row = tq_Scopes b" "ut_ExpiresAt row = tq_ExpiresAt b" "ut_RevokedAt row = None"
    "ut_CanCreateSites row = (tq_CanCreateSites b = Some True \<and> (su_CanCreateSites u \<or> su_IsAdmin u))"
    "db_users (rw_db w1) = db_users (rw_db w)" "meta_wf (rw_db w1)" "find_user (rw_db w) (su_UserID u) \<noteq> None"
    "rw_svc w1 = rw_svc w"
proof -
  obtain plain pfx hash where g: "generateToken (rs_sha256 s) (rc_draw c) = Some (plain, pfx, hash)"
    using assms(1,2) by (auto simp: rest_createToken_def with_user_def with_body_def split: if_splits option.splits)
  let ?cc = "tq_CanCreateSites b = Some True \<and> (su_CanCreateSites u \<or> su_IsAdmin u)"
  obtain d row where q: "query c ''CreateUserToken'' (sql_CreateUserToken (rw_db w) (rc_now c) (rc_newID c) (su_UserID u) (tq_Name b) pfx hash
      (tq_Scopes b) ?cc (tq_ExpiresAt b)) = Inr (d, row)"
    and t: "t = toTokenWire row (Some plain)" and w1: "w1 = auditBestEffort c (set_db w d) (token_audit u (ut_ID row) ''token.create'')"
    using assms(1,2) g by (auto simp: rest_createToken_def with_user_def with_body_def with_rows_def Let_def split: if_splits sum.splits)
  note sql = query_ok [OF q]
  note form = generateToken_form [OF g]
  have r: "d = (rw_db w)\<lparr> db_tokens := db_tokens (rw_db w) @ [row] \<rparr>" "ut_UserID row = su_UserID u" "ut_TokenPrefix row = pfx"
    "ut_TokenHash row = hash" "ut_Scopes row = tq_Scopes b" "ut_ExpiresAt row = tq_ExpiresAt b" "ut_RevokedAt row = None"
    "ut_CanCreateSites row = ?cc" "find_user (rw_db w) (su_UserID u) \<noteq> None"
    using sql unfolding sql_CreateUserToken_def Let_def by (simp_all split: if_splits) auto
  have "meta_wf (rw_db w1)" unfolding w1 wf_audited using wf_create_token [OF assms(3) sql] by simp
  moreover have "row \<in> set (db_tokens (rw_db w1))" "db_users (rw_db w1) = db_users (rw_db w)" "rw_svc w1 = rw_svc w"
    unfolding w1 r(1) by simp_all
  ultimately show ?thesis using that [of plain row] t r form by (simp add: toTokenWire_def)
qed

lemma find_user_users: "db_users d = db_users d' \<Longrightarrow> find_user d u = find_user d' u"
  by (simp add: find_user_def)

lemma tokens_of_iff: "t \<in> set (tokens_of d u) \<longleftrightarrow> t \<in> set (db_tokens d) \<and> ut_UserID t = u"
  by (auto simp: tokens_of_def)

lemma revokeToken_row:
  assumes "rest_revokeToken s c w tid = (w', Inr ())" and "rs_parseUUID s tid = Some (ut_ID t)" and "rc_user c = Some v"
    and "su_UserID v = ut_UserID t" and "t \<in> set (db_tokens (rw_db w))"
  shows "revoke (rc_now c) (ut_ID t) (ut_UserID t) t \<in> set (db_tokens (rw_db w'))" "db_users (rw_db w') = db_users (rw_db w)"
proof -
  obtain d where d: "query c ''RevokeUserToken'' (sql_RevokeUserToken (rw_db w) (rc_now c) (ut_ID t) (ut_UserID t)) = Inr d"
    and w': "w' = auditBestEffort c (set_db w d) (token_audit v (ut_ID t) ''token.revoke'')"
    using assms(1-4) by (auto simp: rest_revokeToken_def with_user_def with_rows_def split: sum.splits)
  have "d = (rw_db w)\<lparr> db_tokens := map (revoke (rc_now c) (ut_ID t) (ut_UserID t)) (db_tokens (rw_db w)) \<rparr>"
    using query_ok [OF d] by (simp add: sql_RevokeUserToken_def)
  then show "revoke (rc_now c) (ut_ID t) (ut_UserID t) t \<in> set (db_tokens (rw_db w'))" "db_users (rw_db w') = db_users (rw_db w)"
    unfolding w' using assms(5) by simp_all
qed


section \<open>Properties\<close>



text \<open>
  C12: A site keeps an owner. While the store answers, no request takes the last owner of a site away,
  be it a removal, a change of role or anything else, except one: adding the sole owner again, with a
  lesser role.
\<close>

theorem owner_lost_only:
  assumes "meta_wf (rw_db w)" and "rc_fails c ''ListMembers'' = None" and "rest_run s c w q = (w', out)"
    and "owners_of (rw_db w) i \<noteq> []" and "owners_of (rw_db w') i = []"
  shows "demotes (rw_db w) i q"
  using run_owner [of q i c w s] assms by (auto simp: owner_kept_def)

definition example_addition :: rest_request where
  "example_addition = ReqAddMember ''shop'' (Inr \<lparr> aq_Email = ''U@example.com'', aq_Role = ''viewer'' \<rparr>)"

text \<open>The exception is real: the owner of the example adds itself as a viewer and is the owner no more.\<close>

theorem owner_lost_only_witness:
  "snd (rest_run example_server example_rest_call (example_world SiteRoleOwner) example_addition) =
     Inr (RespMember \<lparr> mw_UserId = ''u'', mw_Email = ''u@example.com'', mw_DisplayName = [], mw_Role = ''viewer'', mw_CreatedAt = None \<rparr>) \<and>
   demotes (example_meta SiteRoleOwner) ''s1'' example_addition \<and>
   \<not> demotes (example_meta SiteRoleOwner) ''s1'' (ReqRemoveMember ''shop'' ''u'')"
proof -
  let ?r = "rest_run example_server example_rest_call (example_world SiteRoleOwner) example_addition"
  have 1: "meta_wf (rw_db (example_world SiteRoleOwner))" by code_simp
  have 2: "rc_fails example_rest_call ''ListMembers'' = None" by code_simp
  have 3: "owners_of (rw_db (example_world SiteRoleOwner)) ''s1'' \<noteq> []" by code_simp
  have 4: "owners_of (rw_db (fst ?r)) ''s1'' = []" by code_simp
  have "demotes (rw_db (example_world SiteRoleOwner)) ''s1'' example_addition"
    by (rule owner_lost_only [OF 1 2 prod.collapse [symmetric] 3 4])
  moreover have "snd ?r = Inr (RespMember \<lparr> mw_UserId = ''u'', mw_Email = ''u@example.com'', mw_DisplayName = [],
      mw_Role = ''viewer'', mw_CreatedAt = None \<rparr>)" by code_simp
  ultimately show ?thesis by (simp add: example_world_def)
qed

definition example_token :: CreateTokenRequest where
  "example_token = \<lparr> tq_Name = ''ci'', tq_Scopes = [''read'', ''write''], tq_CanCreateSites = Some True, tq_ExpiresAt = Some 100 \<rparr>"



end
