(* ===== verification/Spec2Isabelle.thy ===== *)
theory Spec2Isabelle
  imports Site_Refinement Resolver Login_Lockout Single_Use Rate_Limit Mcp_Guarantees Static_Props
    Git_Args Git_Locks Git_Secret Git_Guard Git_Files Git_History Webhook Tls_Decision Ops_World Domain_Config
    Rest_Reading Rest_Accounts
begin

text \<open>
  \<^bold>\<open>Verification of the kotoji backend\<close>

  kotoji hosts static sites. A site is a versioned tree of files with branches; \<open>draft\<close> is
  written to by editors and by language-model agents, \<open>published\<close> is what visitors see and is
  moved by a publish only. The backend (\<open>src/backend/internal\<close>) has these parts, and they
  interact as follows.

  \<^item> A request reaches the process with a host name. The host resolver (\<open>resolve\<close>) decides
    whether it is for the control plane, for the published tree of a site or for a preview of
    one of its branches.
  \<^item> The data plane (\<open>serve\<close>) authorises a preview, asks a tree provider for the tree, finds
    the file and writes it with its headers. The provider asks the site service.
  \<^item> The control plane is a REST API (\<open>api\<close>, with sign-in, CSRF guard and lock-out from \<open>auth\<close>
    and the limiter of \<open>ratelimit\<close>) and an MCP server (\<open>mcpserver\<close>), both of which check who the
    caller is and what the caller may do, and then call the site service.
  \<^item> The site service (\<open>site\<close>) is one interface with two implementations: one in memory
    (\<open>fake.go\<close>), one over the git program (\<open>git_service.go\<close>). Both share the grammar of
    handles and branches, the path and archive gates and the error taxonomy.
  \<^item> A push to a mirror repository arrives at the webhook (\<open>webhook\<close>), which verifies it and lets
    the service fast-forward; the TLS edge (\<open>tlsedge\<close>) asks its gate, which uses the resolver and
    the site directory, before a certificate is obtained for a host; background jobs (\<open>ops\<close>) reap
    soft-deleted sites.

  \<^bold>\<open>Conventions.\<close> A Go string or byte slice is a list of bytes. A Go map is an association list
  with distinct keys (\<open>gomap\<close>), in the order in which a loop over it happens to run; theorems do
  not depend on that order. Errors are values: \<open>site_error\<close>, \<open>resolve_error\<close>, \<open>tool_fail\<close>,
  \<open>tree_error\<close>, the left side of a sum. State is passed explicitly, and a mutex is the fact that
  the operations of the model happen one after the other. The clock is an argument (an instant,
  or a function from the number of the call), and so are \<open>uuid.New\<close> and the random source. Times
  are nanoseconds as unbounded integers; the arithmetic of the modelled code stays far from the
  limits of 64 bits, which the strconv model does enforce.

  \<^bold>\<open>The theories.\<close>

  \<^item> \<open>Kotoji_Prelude\<close>: string, list, option and map operations of Go and the collections of
    rewrite rules. \<open>Go_Paths\<close> (path cleaning, joining, locality), \<open>Go_Strconv\<close>, \<open>Go_Base64\<close>
    (with its round trips), \<open>Go_Time\<close> and \<open>Go_Http\<close> (requests, cookies) are the parts of the
    standard library the code uses.
  \<^item> \<open>Handle_Grammar\<close> (\<open>site/handle.go\<close>), \<open>Site_Path\<close> (\<open>site/path.go\<close>, \<open>site/mime.go\<close>),
    \<open>Site_Errors\<close> (\<open>site/errors.go\<close>), \<open>Site_Types\<close> (\<open>site/service.go\<close>, \<open>site/store.go\<close>),
    \<open>Tree_Ops\<close> (\<open>site/fake_helpers.go\<close>), \<open>Zip_Import\<close> (\<open>site/zip.go\<close>): the pure parts of the
    site package. An accepted path stays inside the repository and out of its metadata; an
    archive is accepted exactly when every gate holds, and within the limits.
  \<^item> \<open>Site_Service\<close>: every method of \<open>FakeService\<close> over the record \<open>FakeService\<close> (sites with their
    branches, redirects, sequence number, injected failures). \<open>Site_Invariant\<close> has the
    invariant \<open>svc_inv\<close> and its preservation, whose core is the coherence of the logs of a site;
    \<open>Site_Reach\<close> has the step relation and \<open>reachable\<close>; \<open>Site_Props\<close>, \<open>Site_Guarantees\<close>,
    \<open>Site_Serving\<close> and \<open>Site_Lifecycle\<close> have what clients rely on: no lost update, read after
    write, append-only history, what a publish does and when it conflicts, rollback, renames
    that keep links, resolution of preview hosts, diffs, atomicity.
  \<^item> \<open>Site_Refinement\<close>: the abstract versioned store and the forward simulation that the service
    implements it (locale \<open>forward_simulation\<close>).
  \<^item> \<open>Resolver\<close> (\<open>resolve/resolver.go\<close>): the resolver is sound and complete for the grammar, and
    its built-in validators agree with those of the site package.
  \<^item> \<open>Access_Control\<close> (\<open>auth/access.go\<close>, \<open>auth/csrf.go\<close>, \<open>api/authz.go\<close>), \<open>Login_Lockout\<close>
    (\<open>auth/lockout.go\<close>), \<open>Single_Use\<close> (\<open>auth/singleuse.go\<close>), \<open>Rate_Limit\<close>
    (\<open>ratelimit/ratelimit.go\<close>): exact statements of who gets in.
  \<^item> \<open>Mcp_Registry\<close> (\<open>mcpserver/registry.go\<close>, \<open>verifier.go\<close>, \<open>limits.go\<close>, \<open>authz.go\<close>), \<open>Mcp_Tools\<close>
    (\<open>mcpserver/tools.go\<close>, all eleven tools), \<open>Mcp_Authz\<close> and \<open>Mcp_Guarantees\<close>: every tool call is
    a read, or one operation of the service on a site where the token's owner has the role for
    it; what a tool writes a tool reads back; answers are bounded.
  \<^item> \<open>Preview_Grant\<close> (\<open>serve/authz.go\<close>), \<open>Tree_Provider\<close> (\<open>serve/treeprovider.go\<close>),
    \<open>Security_Headers\<close> (\<open>serve/headers.go\<close>, \<open>serve/basehref.go\<close>), \<open>Static_Serve\<close>
    (\<open>serve/static.go\<close>) and \<open>Static_Props\<close>: who sees a preview, which tree is served, the headers
    on every answer, the names that are opened, and that the handler returns.
  \<^item> \<open>Interaction\<close>: programs that ask the world and go on with its answer (\<open>Ret\<close>, \<open>Do\<close>), what such
    a program may ask (\<open>safe\<close>), a weakest precondition over a state of the observer (\<open>wp\<close>), and runs
    against an environment (\<open>exec\<close>), with the soundness of the first two for the third.
  \<^item> \<open>Git_Prog\<close> (the requests of the git-backed service: git, files, store, clock, locks), \<open>Go_Url\<close>,
    \<open>Git_Parse\<close> (the parsers of git output in \<open>site/git_helpers.go\<close>), \<open>Git_Remote\<close> (the remote gate and
    \<open>site/git_auth.go\<close>), \<open>Git_Support\<close> (helpers, \<open>site/lock.go\<close>, the archive half of \<open>site/zip.go\<close>),
    \<open>Git_Service\<close> (\<open>site/git_service.go\<close>) and \<open>Git_Publish\<close> (publish, \<open>site/mirror.go\<close>, the dispatcher
    \<open>git_call\<close>): every method as a program, so that a theorem about it holds whatever git, the disk
    and the database answer, failures included.
  \<^item> \<open>Git_Args\<close>: no value of a caller or of git reaches the command line where git reads an option.
    \<open>Git_Files\<close>: every path that is written or removed is below the directory of the site.
    \<open>Git_Locks\<close>: locks are taken in pairs and given back on every branch. \<open>Git_Secret\<close>: the mirror
    credential changes the environment of the commands that talk to the mirror, and nothing else.
    \<open>Git_Guard\<close>: a branch with a tip is moved only where the caller's token was compared with it.
    \<open>Git_History\<close>: the log format is read back, and what breaks that.
  \<^item> \<open>Webhook\<close> (\<open>webhook/github.go\<close>): only a signed push to a mirrored repository moves its published
    branch, and it does. \<open>Tls_Decision\<close> (\<open>tlsedge/decision.go\<close>): a certificate is obtained only for a
    host of this instance, and lookups are bounded. \<open>Ops_Jobs\<close> (\<open>ops/ops.go\<close>, \<open>ops/scheduler.go\<close>) and
    \<open>Ops_World\<close>: the jobs, and a world with faults in which a pass of the reaper can be repeated.
  \<^item> \<open>Fault_World\<close>: runs in which requests fail. \<open>Go_Hex\<close> and \<open>Secret_Box\<close> (\<open>secretbox/secretbox.go\<close>,
    \<open>key.go\<close>), \<open>Settings_Store\<close> (the settings of \<open>db/store.go\<close> and \<open>db/tx.go\<close>) and \<open>Settings_Props\<close>: an update
    of the settings is atomic, is read back, and stores secrets sealed only. \<open>Domain_Config\<close>
    (\<open>domaincfg/domaincfg.go\<close>, \<open>validate.go\<close>, \<open>api/admin_domain.go\<close>): environment before database before request,
    and an accepted update is in force for the next request.
  \<^item> \<open>Meta_Store\<close>: the tables of users, members, tokens, sessions and audit rows with the queries over
    them (\<open>db/gen\<close>). \<open>Rest_Core\<close> (\<open>api/errors.go\<close>, \<open>helpers.go\<close>, the wire records of \<open>openapi\<close>), \<open>Rest_Content\<close>
    (\<open>api/files.go\<close>, \<open>history.go\<close>, \<open>branches.go\<close>, \<open>publish.go\<close>, \<open>upload.go\<close>, \<open>preview.go\<close>) and \<open>Rest_Sites\<close>
    (\<open>api/sites.go\<close>, \<open>members.go\<close>, \<open>tokens.go\<close>, the user flags of \<open>admin.go\<close>): every guarded handler as a function
    from the world (site service and tables) to the next world and an answer. \<open>Rest_Requests\<close> has the routes
    and the effects a request can have, \<open>Rest_Guarantees\<close> who may cause which, \<open>Rest_Reading\<close> that history
    pages are complete and preview links work on the data plane, \<open>Rest_Accounts\<close> the invariant of the tables,
    the owners of a site and the life of a token up to the verifier of the MCP server.

  The locales are the interfaces between the parts: a label grammar (\<open>Handle_Grammar\<close>), the
  validators that the resolver is configured with (\<open>Resolver\<close>), the site directory that the
  access checks consult (\<open>Access_Control\<close>), a log that only grows, for the holder of a lock token
  (\<open>Site_Guarantees\<close>), a store of used identifiers (\<open>Single_Use\<close>), the frame that every REST handler is
  built in (\<open>Rest_Requests\<close>) and the forward simulation (\<open>Site_Refinement\<close>). Each is interpreted on the model of the code that provides it.

  \<^bold>\<open>Bounds and termination.\<close> Every loop of the modelled code is structural recursion or a fold,
  except two. The back-off loop of the lock-out is bounded by its counter, as in the source. The
  functions \<open>writeContent\<close> and \<open>writeNotFound\<close> of the data plane call each other and need not
  return: they are a partial function in the option monad, where not returning is \<open>None\<close>, and
  \<open>handler_returns\<close> says exactly when they do. No fuel is used anywhere.

  \<^bold>\<open>Parameters.\<close> Code outside the repository, or behind an interface to a database or a file
  system, is an argument: the token bucket of the rate limiter, HMAC, \<open>uuid.Parse\<close>, the bearer
  validator, \<open>http.ServeContent\<close>, the membership and token queries, the file system of a served
  tree, the reader of an archive. What is assumed of one stands as a named hypothesis in the
  theorem that needs it, with a concrete instance in its witness.

  \<^bold>\<open>Limits of the model.\<close> Case mapping and white space are those of ASCII; a byte from 128 up is
  left alone, whereas Go decodes it as UTF-8. Data races are not modelled.

  \<^bold>\<open>Not modelled, and why.\<close> The OIDC flow and the sessions are HTTP glue over the
  modelled gates and SQL. Of the database layer the queries that the modelled handlers use are modelled with
  their constraints, the rest is SQL; the metadata object of an audit row is left out. \<open>config\<close> reads the
  environment through a third-party package, the engine of the TLS edge configures certmagic, and \<open>app\<close>
  connects the parts.
\<close>

end
